(* ===== verification/Damocles_Prelude.thy ===== *)
theory Damocles_Prelude
  imports Main "HOL-Library.Word" "HOL-Library.Char_ord" "HOL-Library.List_Lexorder"
    "HOL-Library.Sublist"
begin

text \<open>
  What every theory of the development shares: Go's error values and the two tests the code
  makes on them (\<open>==\<close> and \<open>errors.Is\<close>), the results of fallible operations, JSON documents as
  stored values, the decimal rendering behind \<open>fmt.Sprintf("%d")\<close>, and generic lemmas on
  association lists kept in key order.

  Modelling conventions used throughout:
  \<^item> an operation with an error result is a value of \<open>err + 'a\<close> (\<open>Inl\<close> is the error); one that
    also changes state returns the pair of the result and the new state;
  \<^item> \<open>fmt.Errorf\<close> with a \<open>%w\<close> verb is \<open>Wrap\<close>, without it \<open>Errorf\<close>; an error that reaches the
    code from a third-party call is \<open>Ext\<close>; the commitment checks' error structs are \<open>Typed\<close>;
  \<^item> a Go run-time panic (nil dereference, index out of range) is \<open>Panic\<close>;
  \<^item> log lines and metrics have no effect on the state and are left out.
\<close>

section \<open>Errors and results\<close>

datatype err =
    ErrKeyNotFound
  | ErrIterItemNotValid
  | ErrTransactionConflict
  | ErrObjectNotFound
  | ErrObjectStoreInstanceNotFound
  | ErrSectorAllocated
  | Errorf string
  | Wrap string err
  | Typed string err
  | Ext string
  | Panic string

type_synonym 'a res = "err + 'a"
type_synonym ('s, 'a) step = "'s \<Rightarrow> 'a res \<times> 's"

text \<open>\<open>errors.Is\<close>: equality along the chain of wrapped errors. A \<open>Typed\<close> struct embeds the
  \<open>error\<close> interface, which has no \<open>Unwrap\<close> method, so the chain ends there.\<close>

fun errors_is :: "err \<Rightarrow> err \<Rightarrow> bool" where
  "errors_is (Wrap m e) t = (Wrap m e = t \<or> errors_is e t)"
| "errors_is e t = (e = t)"

definition is_panic :: "err \<Rightarrow> bool" where
  "is_panic e = (case e of Panic _ \<Rightarrow> True | _ \<Rightarrow> False)"

definition map_err :: "(err \<Rightarrow> err) \<Rightarrow> 'a res \<Rightarrow> 'a res" where
  "map_err f r = (case r of Inl e \<Rightarrow> Inl (f e) | Inr a \<Rightarrow> Inr a)"

named_theorems err_simps \<open>evaluation of error tests and of results\<close>

lemma map_err_simps [simp, err_simps]:
  "map_err f (Inl e) = Inl (f e)"
  "map_err f (Inr a) = Inr a"
  by (simp_all add: map_err_def)

lemma map_err_Inr_iff [simp]: "map_err f r = Inr a \<longleftrightarrow> r = Inr a"
  by (cases r) simp_all

lemma errors_is_refl [simp, intro]: "errors_is e e"
  by (cases e) simp_all

lemma errors_is_Wrap_other: "errors_is e t \<Longrightarrow> errors_is (Wrap m e) t"
  by simp

lemma not_isl_iff: "\<not> isl r \<longleftrightarrow> (\<exists>a. r = Inr a)"
  by (cases r) simp_all

section \<open>Machine integers\<close>

type_synonym u8 = "8 word"
type_synonym u32 = "32 word"
type_synonym u64 = "64 word"
type_synonym epoch = int
type_synonym bytes = "u8 list"
type_synonym cid = string

section \<open>JSON documents\<close>

text \<open>
  Values reach the key-value stores through \<open>json.Marshal\<close> and leave them through
  \<open>json.Unmarshal\<close>. A stored document is either the encoding of a value of the expected type or
  bytes that do not decode to one; decoding an encoding gives the value back.
\<close>

datatype 'v json = Json 'v | Malformed bytes

definition unmarshal :: "'v json \<Rightarrow> 'v res" where
  "unmarshal d = (case d of Json v \<Rightarrow> Inr v | Malformed _ \<Rightarrow> Inl (Ext ''json''))"

lemma unmarshal_simps [simp, err_simps]:
  "unmarshal (Json v) = Inr v"
  "unmarshal (Malformed b) = Inl (Ext ''json'')"
  by (simp_all add: unmarshal_def)

lemma unmarshal_Inr_iff [simp]: "unmarshal d = Inr v \<longleftrightarrow> d = Json v"
  by (cases d) simp_all

lemma unmarshal_Inl_iff: "unmarshal d = Inl e \<longleftrightarrow> (\<exists>b. d = Malformed b) \<and> e = Ext ''json''"
  by (cases d) auto

section \<open>Decimal rendering\<close>

text \<open>The \<open>%d\<close> verb of \<open>fmt.Sprintf\<close> and \<open>strconv.FormatUint(_, 10)\<close> on unsigned integers.\<close>

fun dec :: "nat \<Rightarrow> string" where
  "dec n = (if n < 10 then [char_of (48 + n)] else dec (n div 10) @ [char_of (48 + n mod 10)])"

declare dec.simps [simp del]

definition undec :: "string \<Rightarrow> nat" where
  "undec s = foldl (\<lambda>a c. 10 * a + (of_char c - 48)) 0 s"

lemma undec_snoc: "undec (s @ [c]) = 10 * undec s + (of_char c - 48)"
  by (simp add: undec_def)

lemma of_char_digit: "n < 10 \<Longrightarrow> of_char (char_of (48 + n) :: char) = (48 + n :: nat)"
  by (simp add: of_char_of)

lemma undec_dec [simp]: "undec (dec n) = n"
proof (induction n rule: dec.induct)
  case (1 n)
  show ?case
  proof (cases "n < 10")
    case True
    then show ?thesis
      by (subst dec.simps) (simp add: undec_def of_char_digit)
  next
    case False
    then have "undec (dec n) = 10 * undec (dec (n div 10)) + n mod 10"
      by (subst dec.simps) (simp add: undec_snoc of_char_digit)
    with 1 False show ?thesis by simp
  qed
qed

lemma dec_inject [simp]: "dec m = dec n \<longleftrightarrow> m = n"
  by (metis undec_dec)

lemma dec_digits: "c \<in> set (dec n) \<Longrightarrow> of_char c \<in> {48..57::nat}"
proof (induction n rule: dec.induct)
  case (1 n)
  show ?case
  proof (cases "n < 10")
    case True
    with "1.prems" show ?thesis by (subst (asm) dec.simps) (auto simp: of_char_digit)
  next
    case False
    with "1.prems" have "c \<in> set (dec (n div 10)) \<or> c = char_of (48 + n mod 10)"
      by (subst (asm) dec.simps) auto
    with "1.IH" False show ?thesis by (auto simp: of_char_digit)
  qed
qed

lemma dec_no_dash [simp]: "CHR ''-'' \<notin> set (dec n)"
  by (auto dest: dec_digits)

lemma dec_nonempty [simp]: "dec n \<noteq> []"
  by (subst dec.simps) simp

definition dec64 :: "u64 \<Rightarrow> string" where
  "dec64 w = dec (unat w)"

lemma dec64_inject [simp]: "dec64 v = dec64 w \<longleftrightarrow> v = w"
  by (simp add: dec64_def word_unat_eq_iff [symmetric])

lemma dec64_no_dash [simp]: "CHR ''-'' \<notin> set (dec64 w)"
  by (simp add: dec64_def)

section \<open>Association lists in key order\<close>

text \<open>The contents of an ordered key-value store: entries in ascending byte order of their keys.\<close>

definition put_entry :: "'k::linorder \<Rightarrow> 'v \<Rightarrow> ('k \<times> 'v) list \<Rightarrow> ('k \<times> 'v) list" where
  "put_entry k v ps = insort_key fst (k, v) (filter (\<lambda>p. fst p \<noteq> k) ps)"

definition del_entry :: "'k \<Rightarrow> ('k \<times> 'v) list \<Rightarrow> ('k \<times> 'v) list" where
  "del_entry k ps = filter (\<lambda>p. fst p \<noteq> k) ps"

definition ordered_entries :: "('k::linorder \<times> 'v) list \<Rightarrow> bool" where
  "ordered_entries ps = (sorted (map fst ps) \<and> distinct (map fst ps))"

lemma map_of_insort_new:
  "k \<notin> fst ` set ps \<Longrightarrow> map_of (insort_key fst (k, v) ps) = (map_of ps)(k \<mapsto> v)"
  by (induction ps) (auto simp: fun_eq_iff)

lemma map_of_del_entry [simp]: "map_of (del_entry k ps) = (map_of ps)(k := None)"
  by (induction ps) (auto simp: del_entry_def fun_eq_iff)

lemma map_of_put_entry [simp]: "map_of (put_entry k v ps) = (map_of ps)(k \<mapsto> v)"
proof -
  have "map_of (put_entry k v ps) = (map_of (del_entry k ps))(k \<mapsto> v)"
    unfolding put_entry_def del_entry_def by (rule map_of_insort_new) auto
  then show ?thesis by simp
qed

lemma set_put_entry: "set (put_entry k v ps) = insert (k, v) {p \<in> set ps. fst p \<noteq> k}"
  by (auto simp: put_entry_def set_insort_key)

lemma set_del_entry: "set (del_entry k ps) = {p \<in> set ps. fst p \<noteq> k}"
  by (auto simp: del_entry_def)

lemma ordered_entries_Nil [simp]: "ordered_entries []"
  by (simp add: ordered_entries_def)

lemma ordered_entries_single [simp]: "ordered_entries [x]"
  by (simp add: ordered_entries_def)

lemma distinct_insort_fst:
  "k \<notin> fst ` set ps \<Longrightarrow> distinct (map fst ps) \<Longrightarrow> distinct (map fst (insort_key fst (k, v) ps))"
  by (induction ps) (auto simp: set_insort_key)

lemma sorted_map_filter: "sorted (map f xs) \<Longrightarrow> sorted (map f (filter P xs))"
  by (induction xs) auto

lemma ordered_del_entry [simp]: "ordered_entries ps \<Longrightarrow> ordered_entries (del_entry k ps)"
  by (simp add: ordered_entries_def del_entry_def sorted_map_filter distinct_map_filter)

lemma ordered_put_entry [simp]: "ordered_entries ps \<Longrightarrow> ordered_entries (put_entry k v ps)"
  unfolding ordered_entries_def put_entry_def
  by (auto simp: sorted_insort_key sorted_map_filter distinct_map_filter intro!: distinct_insort_fst)

lemma map_of_eq_Some_ordered:
  "ordered_entries ps \<Longrightarrow> map_of ps k = Some v \<longleftrightarrow> (k, v) \<in> set ps"
  by (simp add: ordered_entries_def)

lemma map_of_filter_key:
  "map_of (filter (\<lambda>p. P (fst p)) ps) k = (if P k then map_of ps k else None)"
  by (induction ps) auto

section \<open>Lists\<close>

lemma separator_inject:
  assumes "c \<notin> set xs" "c \<notin> set xs'" "xs @ c # ys = xs' @ c # ys'"
  shows "xs = xs' \<and> ys = ys'"
  using assms
proof (induction xs arbitrary: xs')
  case Nil
  then show ?case by (cases xs') auto
next
  case (Cons x xs)
  then show ?case by (cases xs') auto
qed

end
