(* ===== verification/KV_Store.thy ===== *)
theory KV_Store
  imports Damocles_Prelude
begin

text \<open>
  The key-value layer (\<open>manager-plugin/kvstore/kv.go\<close>, \<open>damocles-manager/pkg/kvstore\<close>): the
  store interface with its transactions, the Badger driver's translation of errors and its retry
  loops, the \<open>KVExt\<close> helpers and the prefix wrapper.

  The storage engine under the driver is not part of the sources. What it holds is an ordered
  list of entries and what it answers is scripted: every engine call takes the next element of
  \<open>kv_script\<close>, which says whether the call works, meets a transaction conflict or fails with an
  engine error (a call beyond the script works). A statement that holds for every script holds
  for every engine that fails any number of times, in any order, within the run it is about. A script is
  finite, so an engine that meets a conflict at every attempt for ever is outside the model of the store;
  for the retry loop itself, which is modelled over an arbitrary state, this case is covered by
  \<open>MustNoConflict_ends_iff\<close> below: the loop then never returns.
\<close>

section \<open>Stores and engine calls\<close>

type_synonym key = string

datatype outcome = Done | Conflict | Failed string

record 'v kvs =
  kv_data :: "(key \<times> 'v) list"
  kv_script :: "outcome list"

text \<open>A store with nothing in it, on an engine that always works.\<close>

definition empty_store :: "'v kvs" where
  "empty_store = \<lparr>kv_data = [], kv_script = []\<rparr>"

definition pop_outcome :: "'v kvs \<Rightarrow> outcome \<times> 'v kvs" where
  "pop_outcome s = (case kv_script s of
     [] \<Rightarrow> (Done, s)
   | p # ps \<Rightarrow> (p, s\<lparr>kv_script := ps\<rparr>))"

definition badger_ErrConflict :: err where
  "badger_ErrConflict = Ext ''ErrConflict''"

definition badger_err :: "string \<Rightarrow> err" where
  "badger_err m = Ext (''badger: '' @ m)"

text \<open>The methods of \<open>BadgerTxn\<close>: one engine call each; \<open>Get\<close> and \<open>Peek\<close> turn the engine's
  not-found error into \<open>ErrKeyNotFound\<close> and wrap every other error, \<open>Put\<close> and \<open>Del\<close> pass the
  error through. \<open>Peek\<close> hands the value to the caller's function.\<close>

definition txn_Peek :: "key \<Rightarrow> ('v \<Rightarrow> 'a res) \<Rightarrow> ('v kvs, 'a) step" where
  "txn_Peek k f s = (case pop_outcome s of
     (Done, s1) \<Rightarrow> (case map_of (kv_data s) k of
          None \<Rightarrow> (Inl ErrKeyNotFound, s1)
        | Some v \<Rightarrow> (f v, s1))
   | (Conflict, s1) \<Rightarrow> (Inl (Wrap ''get value from badger'' badger_ErrConflict), s1)
   | (Failed m, s1) \<Rightarrow> (Inl (Wrap ''get value from badger'' (badger_err m)), s1))"

definition txn_Get :: "key \<Rightarrow> ('v kvs, 'v) step" where
  "txn_Get k s = txn_Peek k Inr s"

definition txn_write :: "((key \<times> 'v) list \<Rightarrow> (key \<times> 'v) list) \<Rightarrow> ('v kvs, unit) step" where
  "txn_write g s = (case pop_outcome s of
     (Done, s1) \<Rightarrow> (Inr (), s1\<lparr>kv_data := g (kv_data s1)\<rparr>)
   | (Conflict, s1) \<Rightarrow> (Inl badger_ErrConflict, s1)
   | (Failed m, s1) \<Rightarrow> (Inl (badger_err m), s1))"

definition txn_Put :: "key \<Rightarrow> 'v \<Rightarrow> ('v kvs, unit) step" where
  "txn_Put k v s = txn_write (put_entry k v) s"

definition txn_Del :: "key \<Rightarrow> ('v kvs, unit) step" where
  "txn_Del k s = txn_write (del_entry k) s"

text \<open>\<open>BadgerIter\<close> seeks to the prefix and yields, in key order, the entries whose key starts
  with it (every entry for an empty prefix); each \<open>View\<close> of an item is an engine call.\<close>

definition scan_entries :: "key \<Rightarrow> (key \<times> 'v) list \<Rightarrow> (key \<times> 'v) list" where
  "scan_entries p ps = filter (\<lambda>e. prefix p (fst e)) ps"

definition iter_View :: "'v \<Rightarrow> ('v \<Rightarrow> 'a res) \<Rightarrow> ('v kvs, 'a) step" where
  "iter_View v f s = (case pop_outcome s of
     (Done, s1) \<Rightarrow> (f v, s1)
   | (Conflict, s1) \<Rightarrow> (Inl badger_ErrConflict, s1)
   | (Failed m, s1) \<Rightarrow> (Inl (badger_err m), s1))"

section \<open>Transactions and the retry loops\<close>

text \<open>\<open>View\<close> and \<open>Update\<close> of \<open>BadgerKVStore\<close>: the engine's conflict error becomes
  \<open>ErrTransactionConflict\<close>. \<open>Update\<close> commits when the body succeeds; when the body or the commit
  fails the store keeps its data.\<close>

definition conflict_err :: "err \<Rightarrow> err" where
  "conflict_err e = (if errors_is e badger_ErrConflict then ErrTransactionConflict else e)"

definition kv_View :: "('v kvs, 'a) step \<Rightarrow> ('v kvs, 'a) step" where
  "kv_View f s = (case f s of
     (Inl e, s1) \<Rightarrow> (Inl (conflict_err e), s\<lparr>kv_script := kv_script s1\<rparr>)
   | (Inr a, s1) \<Rightarrow> (Inr a, s\<lparr>kv_script := kv_script s1\<rparr>))"

definition kv_Update :: "('v kvs, 'a) step \<Rightarrow> ('v kvs, 'a) step" where
  "kv_Update f s = (case f s of
     (Inl e, s1) \<Rightarrow> (Inl (conflict_err e), s\<lparr>kv_script := kv_script s1\<rparr>)
   | (Inr a, s1) \<Rightarrow> (case pop_outcome s1 of
        (Done, s2) \<Rightarrow> (Inr a, s2)
      | (Conflict, s2) \<Rightarrow> (Inl (conflict_err badger_ErrConflict), s\<lparr>kv_script := kv_script s2\<rparr>)
      | (Failed m, s2) \<Rightarrow> (Inl (conflict_err (badger_err m)), s\<lparr>kv_script := kv_script s2\<rparr>)))"

text \<open>\<open>KVExt.MustNoConflict\<close> repeats the transaction until it does not meet a conflict. The loop
  of the source may run for ever; \<open>retry\<close> is the same loop with a bound on the attempts.\<close>

partial_function (option) MustNoConflict ::
  "('s, 'a) step \<Rightarrow> 's \<Rightarrow> ('a res \<times> 's) option" where
  "MustNoConflict f s = (case f s of
     (Inl e, s1) \<Rightarrow> (if errors_is e ErrTransactionConflict then MustNoConflict f s1
                    else Some (Inl e, s1))
   | (Inr a, s1) \<Rightarrow> Some (Inr a, s1))"

fun retry :: "nat \<Rightarrow> ('s, 'a) step \<Rightarrow> ('s, 'a) step" where
  "retry 0 f s = (Inl ErrTransactionConflict, s)"
| "retry (Suc n) f s = (case f s of
     (Inl e, s1) \<Rightarrow> (if errors_is e ErrTransactionConflict then retry n f s1 else (Inl e, s1))
   | (Inr a, s1) \<Rightarrow> (Inr a, s1))"

text \<open>One more attempt than the script has elements is always enough (\<open>retry_enough\<close> below).\<close>

definition attempts :: "'v kvs \<Rightarrow> nat" where
  "attempts s = Suc (length (kv_script s))"

definition UpdateMustNoConflict :: "('v kvs, 'a) step \<Rightarrow> ('v kvs, 'a) step" where
  "UpdateMustNoConflict f s = retry (attempts s) (kv_Update f) s"

definition ViewMustNoConflict :: "('v kvs, 'a) step \<Rightarrow> ('v kvs, 'a) step" where
  "ViewMustNoConflict f s = retry (attempts s) (kv_View f) s"

text \<open>The single-operation methods of \<open>BadgerKVStore\<close>, each its own transaction in a retry loop.\<close>

definition kv_Get :: "key \<Rightarrow> ('v kvs, 'v) step" where
  "kv_Get k s = retry (attempts s) (kv_View (txn_Get k)) s"

definition kv_Peek :: "key \<Rightarrow> ('v \<Rightarrow> 'a res) \<Rightarrow> ('v kvs, 'a) step" where
  "kv_Peek k f s = retry (attempts s) (kv_View (txn_Peek k f)) s"

definition kv_Put :: "key \<Rightarrow> 'v \<Rightarrow> ('v kvs, unit) step" where
  "kv_Put k v s = retry (attempts s) (kv_Update (txn_Put k v)) s"

definition kv_Del :: "key \<Rightarrow> ('v kvs, unit) step" where
  "kv_Del k s = retry (attempts s) (kv_Update (txn_Del k)) s"

definition kv_Scan :: "key \<Rightarrow> 'v kvs \<Rightarrow> (key \<times> 'v) list" where
  "kv_Scan p s = scan_entries p (kv_data s)"

text \<open>\<open>TxnExt.PeekAny\<close>: the first of the keys that exists, or that fails in another way.\<close>

fun txn_PeekAny :: "('v \<Rightarrow> 'a res) \<Rightarrow> key list \<Rightarrow> ('v kvs, key \<times> 'a) step" where
  "txn_PeekAny f [] s = (Inl ErrKeyNotFound, s)"
| "txn_PeekAny f (k # ks) s = (case txn_Peek k f s of
     (Inl e, s1) \<Rightarrow> (if errors_is e ErrKeyNotFound then txn_PeekAny f ks s1 else (Inl e, s1))
   | (Inr a, s1) \<Rightarrow> (Inr (k, a), s1))"

section \<open>The prefix wrapper\<close>

text \<open>\<open>NewWrappedKVStore\<close> refuses an empty prefix and appends a slash when there is none; every
  operation of the wrapper prepends the prefix to the key, and iteration strips it again.\<close>

definition NewWrappedKVStore :: "string \<Rightarrow> string res" where
  "NewWrappedKVStore p = (if p = [] then Inl (Errorf ''empty prefix is not allowed'')
     else if last p \<noteq> CHR ''/'' then Inr (p @ ''/'') else Inr p)"

definition makeKey :: "string \<Rightarrow> key \<Rightarrow> key" where
  "makeKey pfx raw = pfx @ raw"

definition wrapped_Peek :: "string \<Rightarrow> key \<Rightarrow> ('v \<Rightarrow> 'a res) \<Rightarrow> ('v kvs, 'a) step" where
  "wrapped_Peek pfx k f s = kv_Peek (makeKey pfx k) f s"

definition wrapped_Get :: "string \<Rightarrow> key \<Rightarrow> ('v kvs, 'v) step" where
  "wrapped_Get pfx k s = kv_Get (makeKey pfx k) s"

definition wrapped_Put :: "string \<Rightarrow> key \<Rightarrow> 'v \<Rightarrow> ('v kvs, unit) step" where
  "wrapped_Put pfx k v s = kv_Put (makeKey pfx k) v s"

definition wrapped_Del :: "string \<Rightarrow> key \<Rightarrow> ('v kvs, unit) step" where
  "wrapped_Del pfx k s = kv_Del (makeKey pfx k) s"

definition wrapped_iter_Key :: "nat \<Rightarrow> key \<Rightarrow> key" where
  "wrapped_iter_Key prefixLen k = (if length k > prefixLen then drop prefixLen k else k)"

definition wrapped_Scan :: "string \<Rightarrow> key \<Rightarrow> 'v kvs \<Rightarrow> (key \<times> 'v) list" where
  "wrapped_Scan pfx p s =
     map (\<lambda>(k, v). (wrapped_iter_Key (length pfx) k, v)) (kv_Scan (makeKey pfx p) s)"

section \<open>Errors of the engine\<close>

text \<open>An error that tells neither a missing key nor a conflict: what the clients of a store
  treat as an outage.\<close>

definition io_err :: "err \<Rightarrow> bool" where
  "io_err e = (\<not> errors_is e ErrKeyNotFound \<and> \<not> errors_is e ErrTransactionConflict \<and>
     \<not> errors_is e badger_ErrConflict)"

text \<open>Functions handed to \<open>Peek\<close> and \<open>View\<close> decode the value; their errors are outages too.\<close>

definition decoder :: "('v \<Rightarrow> 'a res) \<Rightarrow> bool" where
  "decoder f = (\<forall>v e. f v = Inl e \<longrightarrow> io_err e)"

named_theorems kv_simps \<open>error facts and evaluation of store operations\<close>

lemma io_err_simps [simp, kv_simps]:
  "io_err (badger_err m)"
  "io_err (Wrap w (badger_err m))"
  "io_err (Ext ''json'')"
  "\<not> io_err ErrKeyNotFound"
  "\<not> io_err ErrTransactionConflict"
  by (auto simp: io_err_def badger_err_def badger_ErrConflict_def)

lemma io_errD:
  assumes "io_err e"
  shows "e \<noteq> ErrKeyNotFound" "\<not> errors_is e ErrKeyNotFound" "\<not> errors_is e ErrTransactionConflict"
  using assms by (auto simp: io_err_def)

lemma io_err_Wrap [simp]: "io_err (Wrap m e) \<longleftrightarrow> io_err e"
  by (auto simp: io_err_def badger_ErrConflict_def)

lemma decoder_simps [simp, kv_simps]: "decoder Inr" "decoder unmarshal"
  by (auto simp: decoder_def unmarshal_Inl_iff)

lemma conflict_err_io [simp]: "io_err e \<Longrightarrow> conflict_err e = e"
  by (simp add: conflict_err_def io_err_def)

lemma conflict_err_simps [simp, kv_simps]:
  "conflict_err badger_ErrConflict = ErrTransactionConflict"
  "conflict_err (Wrap w badger_ErrConflict) = ErrTransactionConflict"
  "conflict_err ErrKeyNotFound = ErrKeyNotFound"
  "conflict_err ErrTransactionConflict = ErrTransactionConflict"
  by (simp_all add: conflict_err_def badger_ErrConflict_def)

lemma pop_outcome_Nil [simp, kv_simps]: "kv_script s = [] \<Longrightarrow> pop_outcome s = (Done, s)"
  by (simp add: pop_outcome_def)

lemma pop_outcome_data: "pop_outcome s = (p, s1) \<Longrightarrow> kv_data s1 = kv_data s"
  by (auto simp: pop_outcome_def split: list.splits)

lemma pop_outcome_script:
  "pop_outcome s = (p, s1) \<Longrightarrow> length (kv_script s1) \<le> length (kv_script s)"
  by (auto simp: pop_outcome_def split: list.splits)

lemma pop_outcome_script_less:
  "pop_outcome s = (p, s1) \<Longrightarrow> p \<noteq> Done \<Longrightarrow> length (kv_script s1) < length (kv_script s)"
  by (auto simp: pop_outcome_def split: list.splits)

lemmas pop_outcomeD = pop_outcome_data pop_outcome_script pop_outcome_script_less

section \<open>Steps that make progress\<close>

text \<open>A step never lengthens the script, and when it reports a conflict it has used up a
  scripted outcome: so a loop that repeats it on conflicts ends.\<close>

definition conflicting :: "err \<Rightarrow> bool" where
  "conflicting e = (errors_is e badger_ErrConflict \<or> errors_is e ErrTransactionConflict)"

definition progressing :: "('v kvs, 'a) step \<Rightarrow> bool" where
  "progressing f = (\<forall>s r s1. f s = (r, s1) \<longrightarrow>
     length (kv_script s1) \<le> length (kv_script s) \<and>
     (\<forall>e. r = Inl e \<and> conflicting e \<longrightarrow> length (kv_script s1) < length (kv_script s)))"

lemma progressingI:
  assumes "\<And>s r s1. f s = (r, s1) \<Longrightarrow> length (kv_script s1) \<le> length (kv_script s)"
    and "\<And>s e s1. f s = (Inl e, s1) \<Longrightarrow> conflicting e \<Longrightarrow>
      length (kv_script s1) < length (kv_script s)"
  shows "progressing f"
  using assms by (auto simp: progressing_def)

lemma progressing_le:
  "progressing f \<Longrightarrow> f s = (r, s1) \<Longrightarrow> length (kv_script s1) \<le> length (kv_script s)"
  by (simp add: progressing_def)

lemma progressing_less:
  "progressing f \<Longrightarrow> f s = (Inl e, s1) \<Longrightarrow> conflicting e \<Longrightarrow>
   length (kv_script s1) < length (kv_script s)"
  by (simp add: progressing_def)

lemma io_err_not_conflicting: "io_err e \<Longrightarrow> \<not> conflicting e"
  by (simp add: io_err_def conflicting_def)

lemma not_conflicting_simps [simp]:
  "\<not> conflicting ErrKeyNotFound" "\<not> conflicting (badger_err m)" "\<not> conflicting (Errorf m)"
  "conflicting ErrTransactionConflict" "conflicting badger_ErrConflict"
  "conflicting (Wrap m e) = conflicting e"
  by (auto simp: conflicting_def badger_err_def badger_ErrConflict_def)

lemma progressing_txn_Peek:
  assumes "decoder f"
  shows "progressing (txn_Peek k f)"
  using assms
  by (intro progressingI)
    (auto simp: txn_Peek_def decoder_def dest: pop_outcomeD io_err_not_conflicting
      split: prod.splits outcome.splits option.splits)

lemma progressing_txn_write: "progressing (txn_write g)"
  by (intro progressingI)
    (auto simp: txn_write_def dest: pop_outcomeD split: prod.splits outcome.splits)

lemma progressing_iter_View: "decoder f \<Longrightarrow> progressing (iter_View v f)"
  by (intro progressingI)
    (auto simp: iter_View_def decoder_def dest: pop_outcomeD io_err_not_conflicting
      split: prod.splits outcome.splits)

lemma progressing_View:
  assumes "progressing f"
  shows "progressing (kv_View f)"
  using assms
  by (intro progressingI)
    (auto simp: kv_View_def conflict_err_def conflicting_def dest: progressing_le progressing_less
      split: prod.splits sum.splits if_splits)

lemma progressing_Update:
  assumes "progressing f"
  shows "progressing (kv_Update f)"
proof (intro progressingI)
  fix s r s1
  assume "kv_Update f s = (r, s1)"
  then show "length (kv_script s1) \<le> length (kv_script s)"
    using assms
    by (fastforce simp: kv_Update_def dest: progressing_le pop_outcomeD
        split: prod.splits sum.splits outcome.splits)
next
  fix s e s1
  assume h: "kv_Update f s = (Inl e, s1)" and c: "conflicting e"
  obtain r t where f: "f s = (r, t)" by fastforce
  show "length (kv_script s1) < length (kv_script s)"
  proof (cases r)
    case (Inl e')
    with h f c show ?thesis using progressing_less [OF assms, of s e' t]
      by (auto simp: kv_Update_def conflict_err_def conflicting_def split: if_splits)
  next
    case (Inr a)
    with h f have "length (kv_script s1) < length (kv_script t)"
      by (auto simp: kv_Update_def dest: pop_outcomeD split: prod.splits outcome.splits)
    also have "\<dots> \<le> length (kv_script s)" using f by (rule progressing_le [OF assms])
    finally show ?thesis .
  qed
qed

text \<open>With one attempt more than the script has elements the bounded loop never gives up, and it
  is the loop of the source.\<close>

lemma retry_enough:
  assumes "progressing f" "length (kv_script s) < n" "retry n f s = (Inl e, s1)"
  shows "\<not> errors_is e ErrTransactionConflict"
  using assms(2,3)
proof (induction n arbitrary: s)
  case 0
  then show ?case by simp
next
  case (Suc n)
  obtain r t where f: "f s = (r, t)" by fastforce
  show ?case
  proof (cases "\<exists>e'. r = Inl e' \<and> errors_is e' ErrTransactionConflict")
    case True
    then obtain e' where e': "r = Inl e'" "errors_is e' ErrTransactionConflict" by blast
    with f progressing_less [OF assms(1)] Suc.prems(1) have "length (kv_script t) < n"
      by (fastforce simp: conflicting_def)
    with Suc f e' show ?thesis by simp
  next
    case False
    with Suc.prems f show ?thesis by (auto split: sum.splits)
  qed
qed

lemma MustNoConflict_retry:
  assumes "progressing f" "length (kv_script s) < n"
  shows "MustNoConflict f s = Some (retry n f s)"
  using assms(2)
proof (induction n arbitrary: s)
  case 0
  then show ?case by simp
next
  case (Suc n)
  obtain r t where f: "f s = (r, t)" by fastforce
  show ?case
  proof (cases "\<exists>e'. r = Inl e' \<and> errors_is e' ErrTransactionConflict")
    case True
    then obtain e' where e': "r = Inl e'" "errors_is e' ErrTransactionConflict" by blast
    with f progressing_less [OF assms(1)] Suc.prems have "length (kv_script t) < n"
      by (fastforce simp: conflicting_def)
    with Suc.IH f e' show ?thesis by (simp add: MustNoConflict.simps [of f s])
  next
    case False
    with f show ?thesis by (auto simp: MustNoConflict.simps [of f s] split: sum.splits)
  qed
qed

lemma retry_rule:
  assumes prog: "progressing f"
    and conf: "\<And>s e s1. f s = (Inl e, s1) \<Longrightarrow> errors_is e ErrTransactionConflict \<Longrightarrow>
      kv_data s1 = kv_data s"
    and ok: "\<And>s r s1. f s = (r, s1) \<Longrightarrow> (\<And>e. r = Inl e \<Longrightarrow> \<not> errors_is e ErrTransactionConflict) \<Longrightarrow>
      Q (kv_data s) r (kv_data s1)"
  shows "retry n f s = (r, s1) \<Longrightarrow> length (kv_script s) < n \<Longrightarrow> Q (kv_data s) r (kv_data s1)"
proof (induction n arbitrary: s)
  case 0
  then show ?case by simp
next
  case (Suc n)
  obtain q t where f: "f s = (q, t)" by fastforce
  show ?case
  proof (cases "\<exists>e. q = Inl e \<and> errors_is e ErrTransactionConflict")
    case True
    then obtain e where e: "q = Inl e" "errors_is e ErrTransactionConflict" by blast
    from e f prog Suc.prems(2) have "length (kv_script t) < n"
      using progressing_less [of f s e t] by (simp add: conflicting_def)
    moreover from Suc.prems(1) f e have "retry n f t = (r, s1)" by simp
    ultimately have "Q (kv_data t) r (kv_data s1)" by (intro Suc.IH)
    with conf [of s e t] f e show ?thesis by simp
  next
    case False
    with Suc.prems(1) f have "q = r" "t = s1" by (auto split: sum.splits)
    with f False show ?thesis by (intro ok) auto
  qed
qed

section \<open>What a transaction does to the store\<close>

lemma UpdateMustNoConflict_rule:
  assumes prog: "progressing f"
    and body: "\<And>s r s1. f s = (r, s1) \<Longrightarrow> Q (kv_data s) r (kv_data s1)"
    and run: "UpdateMustNoConflict f s = (r, s1)"
  shows "(\<exists>a. r = Inr a \<and> Q (kv_data s) (Inr a) (kv_data s1)) \<or>
    (\<exists>e. r = Inl e \<and> kv_data s1 = kv_data s \<and> \<not> conflicting e \<and>
       ((\<exists>d. Q (kv_data s) (Inl e) d) \<or> io_err e))"
  using run [unfolded UpdateMustNoConflict_def]
proof (rule retry_rule [OF progressing_Update [OF prog], rotated 2])
  show "length (kv_script s) < attempts s" by (simp add: attempts_def)
next
  fix s e s1
  assume "kv_Update f s = (Inl e, s1)"
  then show "kv_data s1 = kv_data s"
    by (auto simp: kv_Update_def split: prod.splits sum.splits outcome.splits)
next
  fix s r s1
  assume u: "kv_Update f s = (r, s1)"
    and n: "\<And>e. r = Inl e \<Longrightarrow> \<not> errors_is e ErrTransactionConflict"
  obtain q t where f: "f s = (q, t)" by fastforce
  with body have Q: "Q (kv_data s) q (kv_data t)" by blast
  show "(\<exists>a. r = Inr a \<and> Q (kv_data s) (Inr a) (kv_data s1)) \<or>
    (\<exists>e. r = Inl e \<and> kv_data s1 = kv_data s \<and> \<not> conflicting e \<and>
       ((\<exists>d. Q (kv_data s) (Inl e) d) \<or> io_err e))"
  proof (cases q)
    case (Inl e)
    with u f n Q show ?thesis
      by (auto simp: kv_Update_def conflict_err_def conflicting_def split: if_splits)
  next
    case (Inr a)
    with u f n Q show ?thesis
      by (auto simp: kv_Update_def dest: pop_outcome_data split: prod.splits outcome.splits)
  qed
qed

lemma ViewMustNoConflict_rule:
  assumes prog: "progressing f"
    and body: "\<And>s r s1. f s = (r, s1) \<Longrightarrow> Q (kv_data s) r"
    and run: "ViewMustNoConflict f s = (r, s1)"
  shows "kv_data s1 = kv_data s \<and> Q (kv_data s) r"
  using run [unfolded ViewMustNoConflict_def]
proof (rule retry_rule [OF progressing_View [OF prog], rotated 2])
  show "length (kv_script s) < attempts s" by (simp add: attempts_def)
next
  fix s e s1
  assume "kv_View f s = (Inl e, s1)"
  then show "kv_data s1 = kv_data s"
    by (auto simp: kv_View_def split: prod.splits sum.splits)
next
  fix s r s1
  assume u: "kv_View f s = (r, s1)"
    and n: "\<And>e. r = Inl e \<Longrightarrow> \<not> errors_is e ErrTransactionConflict"
  obtain q t where f: "f s = (q, t)" by fastforce
  with body have "Q (kv_data s) q" by blast
  with u f n show "kv_data s1 = kv_data s \<and> Q (kv_data s) r"
    by (cases q) (auto simp: kv_View_def conflict_err_def split: if_splits)
qed

lemma txn_PeekD:
  assumes "decoder f" "txn_Peek k f s = (r, s1)"
  shows "kv_data s1 = kv_data s \<and>
    (r = Inl ErrKeyNotFound \<and> map_of (kv_data s) k = None \<or>
     (\<exists>v. map_of (kv_data s) k = Some v \<and> r = f v) \<or>
     (\<exists>e. r = Inl e \<and> \<not> errors_is e ErrKeyNotFound))"
  using assms
  by (auto simp: txn_Peek_def badger_ErrConflict_def badger_err_def dest: pop_outcome_data
      split: prod.splits outcome.splits option.splits)

lemma txn_writeD:
  assumes "txn_write g s = (r, s1)"
  shows "r = Inr () \<and> kv_data s1 = g (kv_data s) \<or>
    (\<exists>e. r = Inl e \<and> \<not> errors_is e ErrKeyNotFound \<and> kv_data s1 = kv_data s)"
  using assms
  by (auto simp: txn_write_def badger_ErrConflict_def badger_err_def dest: pop_outcome_data
      split: prod.splits outcome.splits)

lemma kv_Peek_eq: "kv_Peek k f = ViewMustNoConflict (txn_Peek k f)"
  by (simp add: fun_eq_iff kv_Peek_def ViewMustNoConflict_def)

lemma kv_Put_eq: "kv_Put k v = UpdateMustNoConflict (txn_write (put_entry k v))"
  by (simp add: fun_eq_iff kv_Put_def UpdateMustNoConflict_def txn_Put_def [abs_def])

lemma kv_Del_eq: "kv_Del k = UpdateMustNoConflict (txn_write (del_entry k))"
  by (simp add: fun_eq_iff kv_Del_def UpdateMustNoConflict_def txn_Del_def [abs_def])

lemma kv_Get_eq: "kv_Get k = kv_Peek k Inr"
  by (simp add: fun_eq_iff kv_Get_def kv_Peek_def txn_Get_def [abs_def])

text \<open>The three single-operation laws every client below rests on.\<close>

lemma txn_Peek_err_io:
  "decoder f \<Longrightarrow> txn_Peek k f s = (Inl e, s1) \<Longrightarrow>
   e = ErrKeyNotFound \<and> map_of (kv_data s) k = None \<or> io_err e \<or> conflicting e"
  by (auto simp: txn_Peek_def decoder_def badger_ErrConflict_def conflicting_def
      split: prod.splits outcome.splits option.splits)

lemma kv_PeekD:
  assumes d: "decoder f" and run: "kv_Peek k f s = (r, s1)"
  shows "kv_data s1 = kv_data s \<and>
    (r = Inl ErrKeyNotFound \<and> map_of (kv_data s) k = None \<or>
     (\<exists>v. map_of (kv_data s) k = Some v \<and> r = f v) \<or>
     (\<exists>e. r = Inl e \<and> io_err e))"
proof -
  from run have "kv_data s1 = kv_data s \<and>
    (r = Inl ErrKeyNotFound \<and> map_of (kv_data s) k = None \<or>
     (\<exists>v. map_of (kv_data s) k = Some v \<and> r = f v) \<or>
     (\<exists>e. r = Inl e \<and> io_err e))"
    unfolding kv_Peek_def
  proof (rule retry_rule [OF progressing_View [OF progressing_txn_Peek [OF d]], rotated 2])
    show "length (kv_script s) < attempts s" by (simp add: attempts_def)
  next
    fix s e s1
    assume "kv_View (txn_Peek k f) s = (Inl e, s1)"
    then show "kv_data s1 = kv_data s"
      by (auto simp: kv_View_def split: prod.splits sum.splits)
  next
    fix s r s1
    assume u: "kv_View (txn_Peek k f) s = (r, s1)"
      and n: "\<And>e. r = Inl e \<Longrightarrow> \<not> errors_is e ErrTransactionConflict"
    obtain q t where f: "txn_Peek k f s = (q, t)" by fastforce
    note txn_PeekD [OF d f]
    then show "kv_data s1 = kv_data s \<and>
      (r = Inl ErrKeyNotFound \<and> map_of (kv_data s) k = None \<or>
       (\<exists>v. map_of (kv_data s) k = Some v \<and> r = f v) \<or>
       (\<exists>e. r = Inl e \<and> io_err e))"
      using u n f txn_Peek_err_io [OF d, of k s _ t]
      by (cases q) (auto simp: kv_View_def conflict_err_def conflicting_def split: if_splits)
  qed
  then show ?thesis .
qed

lemma kv_writeD:
  assumes run: "UpdateMustNoConflict (txn_write g) s = (r, s1)"
  shows "r = Inr () \<and> kv_data s1 = g (kv_data s) \<or>
    (\<exists>e. r = Inl e \<and> io_err e \<and> kv_data s1 = kv_data s)"
proof -
  have body: "r = Inr () \<and> kv_data s1 = g (kv_data s) \<or>
      (\<exists>e. r = Inl e \<and> (io_err e \<or> e = badger_ErrConflict))"
    if "txn_write g s = (r, s1)" for s r s1
    using that
    by (auto simp: txn_write_def dest: pop_outcome_data split: prod.splits outcome.splits)
  show ?thesis
    using UpdateMustNoConflict_rule [OF progressing_txn_write, where Q = "\<lambda>d r d1.
      r = Inr () \<and> d1 = g d \<or> (\<exists>e. r = Inl e \<and> (io_err e \<or> e = badger_ErrConflict))", OF body run]
    by auto
qed

lemma kv_PutD:
  "kv_Put k v s = (r, s1) \<Longrightarrow> r = Inr () \<and> kv_data s1 = put_entry k v (kv_data s) \<or>
    (\<exists>e. r = Inl e \<and> io_err e \<and> kv_data s1 = kv_data s)"
  by (simp add: kv_Put_eq kv_writeD)

lemma kv_DelD:
  "kv_Del k s = (r, s1) \<Longrightarrow> r = Inr () \<and> kv_data s1 = del_entry k (kv_data s) \<or>
    (\<exists>e. r = Inl e \<and> io_err e \<and> kv_data s1 = kv_data s)"
  by (simp add: kv_Del_eq kv_writeD)

lemma kv_PeekJsonD:
  assumes "kv_Peek k unmarshal s = (r, s1)"
  shows "kv_data s1 = kv_data s \<and>
    (r = Inl ErrKeyNotFound \<and> map_of (kv_data s) k = None \<or>
     (\<exists>v. r = Inr v \<and> map_of (kv_data s) k = Some (Json v)) \<or>
     (\<exists>e. r = Inl e \<and> io_err e))"
  using kv_PeekD [OF decoder_simps(2) assms]
  by (metis decoder_def decoder_simps(2) sum.exhaust unmarshal_Inr_iff)

lemmas kv_opD = kv_PeekJsonD kv_PutD kv_DelD

text \<open>On an engine that works (an empty script) the operations are those of a map.\<close>

lemma retry_quiet: "f s = (r, s1) \<Longrightarrow> (\<And>e. r = Inl e \<Longrightarrow> \<not> errors_is e ErrTransactionConflict) \<Longrightarrow>
    retry (Suc n) f s = (r, s1)"
  by (auto split: sum.splits)

lemma kv_View_quiet: "kv_script s = [] \<Longrightarrow> kv_View (txn_Peek k f) s =
   (case map_of (kv_data s) k of None \<Rightarrow> Inl ErrKeyNotFound
    | Some v \<Rightarrow> map_err conflict_err (f v), s)"
  by (auto simp: kv_View_def txn_Peek_def split: option.splits sum.splits)

lemma kv_Peek_quiet [simp, kv_simps]:
  assumes "decoder f" "kv_script s = []"
  shows "kv_Peek k f s =
    (case map_of (kv_data s) k of None \<Rightarrow> Inl ErrKeyNotFound | Some v \<Rightarrow> f v, s)"
proof -
  have f: "map_err conflict_err (f v) = f v" for v
    using assms(1) by (cases "f v") (auto simp: decoder_def)
  have "\<not> errors_is e ErrTransactionConflict" if "f v = Inl e" for v e
    using assms(1) that by (auto simp: decoder_def io_errD)
  with assms(2) show ?thesis
    by (auto simp: kv_Peek_def attempts_def kv_View_quiet f split: option.splits sum.splits)
qed

lemma kv_Put_quiet [simp, kv_simps]:
  "kv_script s = [] \<Longrightarrow> kv_Put k v s = (Inr (), s\<lparr>kv_data := put_entry k v (kv_data s)\<rparr>)"
  by (simp add: kv_Put_def attempts_def kv_Update_def txn_Put_def txn_write_def)

lemma kv_Del_quiet [simp, kv_simps]:
  "kv_script s = [] \<Longrightarrow> kv_Del k s = (Inr (), s\<lparr>kv_data := del_entry k (kv_data s)\<rparr>)"
  by (simp add: kv_Del_def attempts_def kv_Update_def txn_Del_def txn_write_def)

section \<open>The store interface as a contract\<close>

text \<open>What a client may rely on in a \<open>KVStore\<close>, whatever its driver: a read answers from the
  contents or reports an outage, a write or a deletion either takes effect on its key alone or
  reports an outage and changes nothing.\<close>

locale kvstore =
  fixes get :: "key \<Rightarrow> 's \<Rightarrow> 'v res \<times> 's"
    and put :: "key \<Rightarrow> 'v \<Rightarrow> 's \<Rightarrow> unit res \<times> 's"
    and del :: "key \<Rightarrow> 's \<Rightarrow> unit res \<times> 's"
    and contents :: "'s \<Rightarrow> key \<Rightarrow> 'v option"
  assumes get_law: "get k s = (r, s1) \<Longrightarrow> contents s1 = contents s \<and>
      (r = Inl ErrKeyNotFound \<and> contents s k = None \<or>
       (\<exists>v. r = Inr v \<and> contents s k = Some v) \<or> (\<exists>e. r = Inl e \<and> io_err e))"
    and put_law: "put k v s = (u, s1) \<Longrightarrow>
      u = Inr () \<and> contents s1 = (contents s)(k \<mapsto> v) \<or>
      (\<exists>e. u = Inl e \<and> io_err e \<and> contents s1 = contents s)"
    and del_law: "del k s = (u, s1) \<Longrightarrow>
      u = Inr () \<and> contents s1 = (contents s)(k := None) \<or>
      (\<exists>e. u = Inl e \<and> io_err e \<and> contents s1 = contents s)"
begin

lemma get_after_put:
  assumes "put k v s = (Inr (), s1)" "get k s1 = (r, s2)"
  shows "r = Inr v \<or> (\<exists>e. r = Inl e \<and> io_err e)"
  using put_law [OF assms(1)] get_law [OF assms(2)] by auto

lemma get_after_del:
  assumes "del k s = (Inr (), s1)" "get k s1 = (r, s2)"
  shows "r = Inl ErrKeyNotFound \<or> (\<exists>e. r = Inl e \<and> io_err e)"
  using del_law [OF assms(1)] get_law [OF assms(2)] by auto

lemma put_frame:
  assumes "put k v s = (r, s1)" "k' \<noteq> k"
  shows "contents s1 k' = contents s k'"
  using put_law [OF assms(1)] assms(2) by auto

lemma del_frame:
  assumes "del k s = (r, s1)" "k' \<noteq> k"
  shows "contents s1 k' = contents s k'"
  using del_law [OF assms(1)] assms(2) by auto

lemma put_error_unchanged: "put k v s = (Inl e, s1) \<Longrightarrow> contents s1 = contents s"
  using put_law by fastforce

lemma get_never_conflict: "get k s = (Inl e, s1) \<Longrightarrow> \<not> errors_is e ErrTransactionConflict"
  using get_law by (fastforce dest: io_errD)

end

definition kv_contents :: "'v kvs \<Rightarrow> key \<Rightarrow> 'v option" where
  "kv_contents s = map_of (kv_data s)"

interpretation bdg: kvstore kv_Get kv_Put kv_Del kv_contents
proof unfold_locales
  fix k s r and s1 :: "'v kvs"
  assume "kv_Get k s = (r, s1)"
  then show "kv_contents s1 = kv_contents s \<and>
      (r = Inl ErrKeyNotFound \<and> kv_contents s k = None \<or>
       (\<exists>v. r = Inr v \<and> kv_contents s k = Some v) \<or> (\<exists>e. r = Inl e \<and> io_err e))"
    using kv_PeekD [OF decoder_simps(1)] by (fastforce simp: kv_Get_eq kv_contents_def)
qed (auto simp: kv_contents_def dest: kv_PutD kv_DelD)

text \<open>The contents seen through a prefix wrapper, and the wrapper as a store of its own.\<close>

definition wrapped_contents :: "string \<Rightarrow> 'v kvs \<Rightarrow> key \<Rightarrow> 'v option" where
  "wrapped_contents pfx s k = map_of (kv_data s) (makeKey pfx k)"

lemma makeKey_inject [simp]: "makeKey p k = makeKey p k' \<longleftrightarrow> k = k'"
  by (simp add: makeKey_def)

interpretation wrap: kvstore "wrapped_Get p" "wrapped_Put p" "wrapped_Del p" "wrapped_contents p"
  for p
proof unfold_locales
  fix k s r and s1 :: "'v kvs"
  assume "wrapped_Get p k s = (r, s1)"
  then show "wrapped_contents p s1 = wrapped_contents p s \<and>
      (r = Inl ErrKeyNotFound \<and> wrapped_contents p s k = None \<or>
       (\<exists>v. r = Inr v \<and> wrapped_contents p s k = Some v) \<or> (\<exists>e. r = Inl e \<and> io_err e))"
    using kv_PeekD [OF decoder_simps(1)]
    by (fastforce simp: kv_Get_eq wrapped_Get_def wrapped_contents_def fun_eq_iff)
qed (auto simp: wrapped_Put_def wrapped_Del_def wrapped_contents_def fun_eq_iff
       dest: kv_PutD kv_DelD)

section \<open>Properties\<close>

text \<open>The unbounded loop, over any state and any transaction: the state before the \<open>n\<close>-th attempt, and whether an
  attempt meets a conflict.\<close>

fun attempt_state :: "('s, 'a) step \<Rightarrow> nat \<Rightarrow> 's \<Rightarrow> 's" where
  "attempt_state f 0 s = s"
| "attempt_state f (Suc n) s = attempt_state f n (snd (f s))"

definition meets_conflict :: "'a res \<Rightarrow> bool" where
  "meets_conflict r = (case r of Inl e \<Rightarrow> errors_is e ErrTransactionConflict | Inr _ \<Rightarrow> False)"

lemma MustNoConflict_unfold:
  "MustNoConflict f s = (if meets_conflict (fst (f s)) then MustNoConflict f (snd (f s)) else Some (f s))"
  by (subst MustNoConflict.simps) (auto simp: meets_conflict_def split: prod.splits sum.splits)

definition first_free :: "('s, 'a) step \<Rightarrow> 's \<Rightarrow> nat \<Rightarrow> bool" where
  "first_free f s n = ((\<forall>k<n. meets_conflict (fst (f (attempt_state f k s)))) \<and> \<not> meets_conflict (fst (f (attempt_state f n s))))"

lemma first_free_Suc: "first_free f s (Suc n) \<longleftrightarrow> meets_conflict (fst (f s)) \<and> first_free f (snd (f s)) n"
  by (auto simp: first_free_def less_Suc_eq_0_disj)

lemma MustNoConflict_first: "first_free f s n \<Longrightarrow> MustNoConflict f s = Some (f (attempt_state f n s))"
proof (induction n arbitrary: s)
  case 0
  then show ?case by (simp add: first_free_def MustNoConflict_unfold [of f s])
next
  case (Suc n)
  then show ?case by (simp add: first_free_Suc MustNoConflict_unfold [of f s])
qed

lemma MustNoConflict_Some:
  assumes "MustNoConflict f s = Some y"
  shows "\<exists>n. first_free f s n"
proof (rule MustNoConflict.raw_induct [OF _ assms, where P = "\<lambda>f s y. \<exists>n. first_free f s n"])
  fix loop :: "('s, 'a) step \<Rightarrow> 's \<Rightarrow> ('a res \<times> 's) option" and f s y
  assume step: "\<And>f s y. loop f s = Some y \<Longrightarrow> \<exists>n. first_free f s n"
    and body: "(case f s of (Inl e, s1) \<Rightarrow> if errors_is e ErrTransactionConflict then loop f s1 else Some (Inl e, s1)
      | (Inr a, s1) \<Rightarrow> Some (Inr a, s1)) = Some y"
  show "\<exists>n. first_free f s n"
  proof (cases "meets_conflict (fst (f s))")
    case True
    with body have "loop f (snd (f s)) = Some y" by (auto simp: meets_conflict_def split: prod.splits sum.splits)
    from step [OF this] obtain n where "first_free f (snd (f s)) n" ..
    with True have "first_free f s (Suc n)" by (simp add: first_free_Suc)
    then show ?thesis ..
  next
    case False
    then have "first_free f s 0" by (simp add: first_free_def)
    then show ?thesis ..
  qed
qed


text \<open>An engine whose first three attempts conflict, and one that conflicts for ever.\<close>

definition demo_attempt :: "nat \<Rightarrow> (nat, unit) step" where
  "demo_attempt m n = (if n < m then (Inl ErrTransactionConflict, Suc n) else (Inr (), n))"


text \<open>The unbounded retry loop of \<open>MustNoConflict\<close> returns for every transaction body that
  only uses the engine's answers, its result is that of \<open>UpdateMustNoConflict\<close>, and the result
  is never a transaction conflict.\<close>

theorem MustNoConflict_returns:
  assumes "progressing f"
  shows "\<exists>r s1. MustNoConflict (kv_Update f) s = Some (r, s1) \<and>
    UpdateMustNoConflict f s = (r, s1) \<and>
    (\<forall>e. r = Inl e \<longrightarrow> \<not> errors_is e ErrTransactionConflict)"
proof -
  obtain r s1 where r: "UpdateMustNoConflict f s = (r, s1)" by fastforce
  have n: "length (kv_script s) < attempts s" by (simp add: attempts_def)
  from MustNoConflict_retry [OF progressing_Update [OF assms] n] r
  have "MustNoConflict (kv_Update f) s = Some (r, s1)"
    by (simp add: UpdateMustNoConflict_def)
  moreover have "\<not> errors_is e ErrTransactionConflict" if "r = Inl e" for e
    using retry_enough [OF progressing_Update [OF assms] n] r that
    by (auto simp: UpdateMustNoConflict_def)
  ultimately show ?thesis using r by blast
qed

theorem MustNoConflict_returns_witness:
  "\<exists>r s1. MustNoConflict (kv_Update (txn_write (put_entry ''k'' (7::nat))))
      \<lparr>kv_data = [], kv_script = [Conflict, Done, Conflict]\<rparr> = Some (r, s1) \<and>
    UpdateMustNoConflict (txn_write (put_entry ''k'' (7::nat)))
      \<lparr>kv_data = [], kv_script = [Conflict, Done, Conflict]\<rparr> = (r, s1) \<and>
    (\<forall>e. r = Inl e \<longrightarrow> \<not> errors_is e ErrTransactionConflict)"
  using MustNoConflict_returns [OF progressing_txn_write [of "put_entry ''k'' (7::nat)"],
    of "\<lparr>kv_data = [], kv_script = [Conflict, Done, Conflict]\<rparr>"] .

text \<open>A store behind a prefix wrapper is isolated: a write or a deletion through the wrapper
  with prefix \<open>p\<close> is invisible through a wrapper with prefix \<open>q\<close> when neither prefix starts the
  other, and through its own wrapper it is what a later read answers.\<close>

theorem wrapped_store_isolated:
  assumes "wrapped_Put p k v s = (Inr (), s1)"
    and "\<not> prefix p q" and "\<not> prefix q p"
  shows "wrapped_contents q s1 = wrapped_contents q s \<and>
    wrapped_contents p s1 = (wrapped_contents p s)(k \<mapsto> v)"
proof
  have "makeKey q k' \<noteq> makeKey p k" for k'
    using assms(2,3) by (metis makeKey_def prefix_same_cases prefixI)
  moreover have "kv_data s1 = put_entry (makeKey p k) v (kv_data s)"
    using assms(1) by (auto simp: wrapped_Put_def dest: kv_PutD)
  ultimately show "wrapped_contents q s1 = wrapped_contents q s"
    by (auto simp: wrapped_contents_def fun_eq_iff)
  show "wrapped_contents p s1 = (wrapped_contents p s)(k \<mapsto> v)"
    using wrap.put_law [OF assms(1)] by auto
qed

theorem wrapped_store_isolated_witness:
  "wrapped_contents ''b/'' \<lparr>kv_data = [(''a/k'', 1::nat)], kv_script = []\<rparr> =
   wrapped_contents ''b/'' \<lparr>kv_data = [], kv_script = []\<rparr>"
  using wrapped_store_isolated [of "''a/''" "''k''" "1::nat" "\<lparr>kv_data = [], kv_script = []\<rparr>"
    "\<lparr>kv_data = [(''a/k'', 1)], kv_script = []\<rparr>" "''b/''"]
  by (simp add: wrapped_Put_def makeKey_def put_entry_def)

text \<open>Iteration through a prefix wrapper yields exactly the entries under the prefix with
  their raw keys, for raw keys that are not empty.\<close>

theorem wrapped_Scan_entries:
  assumes "makeKey pfx [] \<notin> fst ` set (kv_data s)"
  shows "(k, v) \<in> set (wrapped_Scan pfx p s) \<longleftrightarrow>
    prefix p k \<and> (makeKey pfx k, v) \<in> set (kv_data s)"
proof -
  have strip: "wrapped_iter_Key (length pfx) (pfx @ r) = r" if "r \<noteq> []" for r
    using that by (simp add: wrapped_iter_Key_def)
  have ne: "r \<noteq> []" if "(pfx @ r, v) \<in> set (kv_data s)" for r v
    using that assms by (force simp: makeKey_def)
  show ?thesis
  proof
    assume "(k, v) \<in> set (wrapped_Scan pfx p s)"
    then obtain r where r: "(pfx @ p @ r, v) \<in> set (kv_data s)"
      "k = wrapped_iter_Key (length pfx) (pfx @ p @ r)"
      by (auto simp: wrapped_Scan_def kv_Scan_def scan_entries_def makeKey_def prefix_def)
    with ne [OF r(1)] strip [of "p @ r"] show "prefix p k \<and> (makeKey pfx k, v) \<in> set (kv_data s)"
      by (simp add: makeKey_def)
  next
    assume h: "prefix p k \<and> (makeKey pfx k, v) \<in> set (kv_data s)"
    then have "wrapped_iter_Key (length pfx) (pfx @ k) = k"
      by (intro strip) (auto simp: makeKey_def dest: ne)
    with h show "(k, v) \<in> set (wrapped_Scan pfx p s)"
      unfolding wrapped_Scan_def kv_Scan_def scan_entries_def makeKey_def
      by (auto simp: image_iff intro!: bexI [of _ "(pfx @ k, v)"])
  qed
qed

theorem wrapped_Scan_entries_witness:
  "(''x1'', 5::nat) \<in> set (wrapped_Scan ''a/'' ''x'' \<lparr>kv_data = [(''a/x1'', 5), (''b/x1'', 6)], kv_script = []\<rparr>)"
  by (subst wrapped_Scan_entries) (simp_all add: makeKey_def)

end
