(* ===== verification/Core_Types.thy ===== *)
theory Core_Types
  imports KV_Store
begin

text \<open>
  The data the manager's components exchange (\<open>core/types.go\<close>, \<open>core/types_sector_state.go\<close>):
  sector identifiers, pieces and deals, the persistent state of a sector and the predicates the
  components decide on. Content identifiers and access instances are strings, randomness and
  proofs are byte lists; pointers that may be nil are options. Addresses are the three cases the
  code tells apart: the undefined address, an ID address and any other protocol.
\<close>

section \<open>Identifiers, pieces and deals\<close>

record sector_id =
  sid_Miner :: u64
  sid_Number :: u64

datatype address = Undef | IDAddress u64 | OtherAddress string

type_synonym seal_proof = int

record allocated_sector =
  as_ID :: sector_id
  as_ProofType :: seal_proof

record allocate_spec =
  spec_AllowedMiners :: "u64 list"
  spec_AllowedProofTypes :: "seal_proof list"

record piece_info =
  pi_Size :: u64
  pi_Offset :: u64
  pi_Cid :: cid

record abi_piece =
  ap_Size :: u64
  ap_PieceCID :: cid

record deal_proposal =
  dp_PieceCID :: cid
  dp_PieceSize :: u64
  dp_Client :: address
  dp_Provider :: address
  dp_StartEpoch :: epoch
  dp_EndEpoch :: epoch

record legacy_deal_info =
  ld_ID :: u64
  ld_PayloadSize :: u64
  ld_Piece :: piece_info
  ld_Proposal :: "deal_proposal option"
  ld_IsCompatible :: bool

record deal_info_v2 =
  di_DealID :: u64
  di_AllocationID :: u64
  di_PieceCID :: cid
  di_Offset :: u64
  di_Client :: address
  di_StartEpoch :: epoch
  di_EndEpoch :: epoch
  di_IsBuiltinMarket :: bool
  di_IsCompatible :: bool

record sector_piece_v2 =
  sp_Piece :: abi_piece
  sp_DealInfo :: "deal_info_v2 option"

text \<open>A \<open>SectorPiece\<close> interface value holds one of the two piece types. A method that reads
  through a nil pointer panics.\<close>

datatype sector_piece = PieceV2 sector_piece_v2 | LegacyPiece legacy_deal_info

fun HasDealInfo :: "sector_piece \<Rightarrow> bool" where
  "HasDealInfo (PieceV2 p) = (case sp_DealInfo p of
     None \<Rightarrow> False | Some d \<Rightarrow> di_DealID d \<noteq> 0 \<or> di_AllocationID d \<noteq> 0)"
| "HasDealInfo (LegacyPiece l) = (ld_ID l \<noteq> 0)"

fun IsBuiltinMarket :: "sector_piece \<Rightarrow> bool" where
  "IsBuiltinMarket (PieceV2 p) =
     (if \<not> HasDealInfo (PieceV2 p) then False
      else (case sp_DealInfo p of None \<Rightarrow> False | Some d \<Rightarrow> di_IsBuiltinMarket d))"
| "IsBuiltinMarket (LegacyPiece l) = HasDealInfo (LegacyPiece l)"

fun PieceInfo :: "sector_piece \<Rightarrow> piece_info" where
  "PieceInfo (PieceV2 p) = (case sp_DealInfo p of
     Some d \<Rightarrow> (if HasDealInfo (PieceV2 p)
       then \<lparr>pi_Size = ap_Size (sp_Piece p), pi_Offset = di_Offset d, pi_Cid = ap_PieceCID (sp_Piece p)\<rparr>
       else \<lparr>pi_Size = ap_Size (sp_Piece p), pi_Offset = 0, pi_Cid = ap_PieceCID (sp_Piece p)\<rparr>)
   | None \<Rightarrow> \<lparr>pi_Size = ap_Size (sp_Piece p), pi_Offset = 0, pi_Cid = ap_PieceCID (sp_Piece p)\<rparr>)"
| "PieceInfo (LegacyPiece l) = ld_Piece l"

fun DealID :: "sector_piece \<Rightarrow> u64" where
  "DealID (PieceV2 p) = (if IsBuiltinMarket (PieceV2 p)
     then (case sp_DealInfo p of None \<Rightarrow> 0 | Some d \<Rightarrow> di_DealID d) else 0)"
| "DealID (LegacyPiece l) = ld_ID l"

fun AllocationID :: "sector_piece \<Rightarrow> u64" where
  "AllocationID (PieceV2 p) = (if \<not> HasDealInfo (PieceV2 p) then 0
     else (case sp_DealInfo p of None \<Rightarrow> 0 | Some d \<Rightarrow> di_AllocationID d))"
| "AllocationID (LegacyPiece l) = 0"

definition nil_deref :: "'a res" where
  "nil_deref = Inl (Panic ''invalid memory address or nil pointer dereference'')"

fun Client :: "sector_piece \<Rightarrow> address res" where
  "Client (PieceV2 p) = (if \<not> HasDealInfo (PieceV2 p) then Inr Undef
     else (case sp_DealInfo p of None \<Rightarrow> nil_deref | Some d \<Rightarrow> Inr (di_Client d)))"
| "Client (LegacyPiece l) = (if HasDealInfo (LegacyPiece l)
     then (case ld_Proposal l of None \<Rightarrow> nil_deref | Some pr \<Rightarrow> Inr (dp_Client pr)) else Inr Undef)"

fun StartEpoch :: "sector_piece \<Rightarrow> epoch res" where
  "StartEpoch (PieceV2 p) = (if HasDealInfo (PieceV2 p)
     then (case sp_DealInfo p of None \<Rightarrow> nil_deref | Some d \<Rightarrow> Inr (di_StartEpoch d)) else Inr 0)"
| "StartEpoch (LegacyPiece l) = (if HasDealInfo (LegacyPiece l)
     then (case ld_Proposal l of None \<Rightarrow> nil_deref | Some pr \<Rightarrow> Inr (dp_StartEpoch pr)) else Inr 0)"

fun EndEpoch :: "sector_piece \<Rightarrow> epoch res" where
  "EndEpoch (PieceV2 p) = (if HasDealInfo (PieceV2 p)
     then (case sp_DealInfo p of None \<Rightarrow> nil_deref | Some d \<Rightarrow> Inr (di_EndEpoch d)) else Inr 0)"
| "EndEpoch (LegacyPiece l) = (if HasDealInfo (LegacyPiece l)
     then (case ld_Proposal l of None \<Rightarrow> nil_deref | Some pr \<Rightarrow> Inr (dp_EndEpoch pr)) else Inr 0)"

section \<open>The state of a sector\<close>

record ticket =
  tk_Ticket :: bytes
  tk_Epoch :: epoch

record seed =
  sd_Seed :: bytes
  sd_Epoch :: epoch

record precommit_info =
  pc_CommR :: cid
  pc_CommD :: cid
  pc_Ticket :: ticket

record proof_info =
  pf_Proof :: bytes

record message_info =
  mi_PreCommitCid :: "cid option"
  mi_CommitCid :: "cid option"
  mi_NeedSend :: bool

record terminate_info =
  ti_TerminateCid :: "cid option"
  ti_TerminatedAt :: epoch
  ti_AddedHeight :: epoch

record worker_identifier =
  wi_Instance :: string
  wi_Location :: string

record sector_state_change =
  sc_Prev :: string
  sc_Next :: string
  sc_Event :: string

record sector_failure =
  sf_Level :: string
  sf_Desc :: string

record report_state_req =
  rs_Worker :: worker_identifier
  rs_StateChange :: sector_state_change
  rs_Failure :: "sector_failure option"

record sector_public_info =
  pub_CommR :: bytes
  pub_SealedCID :: cid
  pub_Activation :: epoch
  pub_Expiration :: epoch

record sector_upgraded_info =
  ui_AccessInstance :: string
  ui_SealedCID :: cid
  ui_UnsealedCID :: cid
  ui_Proof :: bytes

record sector_state =
  ss_ID :: sector_id
  ss_SectorType :: seal_proof
  ss_Ticket :: "ticket option"
  ss_Seed :: "seed option"
  ss_LegacyPieces :: "legacy_deal_info list"
  ss_Pieces :: "sector_piece_v2 list"
  ss_Pre :: "precommit_info option"
  ss_Proof :: "proof_info option"
  ss_MessageInfo :: message_info
  ss_TerminateInfo :: terminate_info
  ss_LatestState :: "report_state_req option"
  ss_Finalized :: bool
  ss_Removed :: bool
  ss_AbortReason :: string
  ss_Upgraded :: bool
  ss_UpgradePublic :: "sector_public_info option"
  ss_UpgradedInfo :: "sector_upgraded_info option"
  ss_UpgradeMessageID :: "string option"
  ss_UpgradeLandedEpoch :: "epoch option"
  ss_Imported :: bool
  ss_NeedRebuild :: bool
  ss_Unsealing :: bool

text \<open>The zero value of the struct with the two fields \<open>InitWith\<close> sets.\<close>

definition new_sector_state :: "sector_id \<Rightarrow> seal_proof \<Rightarrow> sector_state" where
  "new_sector_state sid pt = \<lparr>ss_ID = sid, ss_SectorType = pt, ss_Ticket = None, ss_Seed = None,
     ss_LegacyPieces = [], ss_Pieces = [], ss_Pre = None, ss_Proof = None,
     ss_MessageInfo = \<lparr>mi_PreCommitCid = None, mi_CommitCid = None, mi_NeedSend = False\<rparr>,
     ss_TerminateInfo = \<lparr>ti_TerminateCid = None, ti_TerminatedAt = 0, ti_AddedHeight = 0\<rparr>,
     ss_LatestState = None, ss_Finalized = False, ss_Removed = False, ss_AbortReason = [],
     ss_Upgraded = False, ss_UpgradePublic = None, ss_UpgradedInfo = None,
     ss_UpgradeMessageID = None, ss_UpgradeLandedEpoch = None, ss_Imported = False,
     ss_NeedRebuild = False, ss_Unsealing = False\<rparr>"

text \<open>\<open>SectorPiece\<close> prefers the new pieces to the legacy ones.\<close>

definition SectorPiece :: "sector_state \<Rightarrow> sector_piece list" where
  "SectorPiece s = (if length (ss_Pieces s) > 0 then map PieceV2 (ss_Pieces s)
     else if length (ss_LegacyPieces s) > 0 then map LegacyPiece (ss_LegacyPieces s) else [])"

definition PieceInfos :: "sector_state \<Rightarrow> piece_info list" where
  "PieceInfos s = map PieceInfo (SectorPiece s)"

definition HasDDODeal :: "sector_state \<Rightarrow> bool" where
  "HasDDODeal s = list_ex (\<lambda>p. \<not> IsBuiltinMarket p) (SectorPiece s)"

definition HasBuiltinMarketDeal :: "sector_state \<Rightarrow> bool" where
  "HasBuiltinMarketDeal s = list_ex IsBuiltinMarket (SectorPiece s)"

definition DealIDs :: "sector_state \<Rightarrow> u64 list" where
  "DealIDs s = filter (\<lambda>d. d \<noteq> 0) (map DealID (SectorPiece s))"

definition HasData :: "sector_state \<Rightarrow> bool" where
  "HasData s = (list_ex (\<lambda>p. HasDealInfo (PieceV2 p)) (ss_Pieces s) \<or>
     list_ex (\<lambda>l. HasDealInfo (LegacyPiece l)) (ss_LegacyPieces s))"

definition PendingForSealingCommitment :: "sector_state \<Rightarrow> bool" where
  "PendingForSealingCommitment s = (mi_NeedSend (ss_MessageInfo s) \<and> \<not> ss_Upgraded s \<and>
     \<not> ss_Imported s \<and> \<not> ss_NeedRebuild s)"

definition PendingForTerminateCommitment :: "sector_state \<Rightarrow> bool" where
  "PendingForTerminateCommitment s = (ti_AddedHeight (ss_TerminateInfo s) > 0 \<and>
     ti_TerminatedAt (ss_TerminateInfo s) = 0)"

text \<open>\<open>SectorWorkerJob\<close> is an integer type with five named values.\<close>

datatype worker_job = JobAll | JobSealing | JobSnapUp | JobRebuild | JobUnseal | JobOther int

fun MatchWorkerJob :: "sector_state \<Rightarrow> worker_job \<Rightarrow> bool" where
  "MatchWorkerJob s JobAll = True"
| "MatchWorkerJob s JobSealing = (\<not> ss_Upgraded s \<and> \<not> ss_NeedRebuild s \<and> \<not> ss_Unsealing s)"
| "MatchWorkerJob s JobSnapUp = (ss_Upgraded s \<and> \<not> ss_NeedRebuild s \<and> \<not> ss_Unsealing s)"
| "MatchWorkerJob s JobRebuild = ss_NeedRebuild s"
| "MatchWorkerJob s JobUnseal = ss_Unsealing s"
| "MatchWorkerJob s (JobOther _) = False"

datatype worker_state = WorkerOnline | WorkerOffline | WorkerOther string

section \<open>Requests and responses\<close>

datatype submit_result = SubmitUnknown | SubmitAccepted | SubmitDuplicateSubmit
  | SubmitMismatchedSubmission | SubmitRejected | SubmitFilesMissed

datatype on_chain_state = OnChainStateUnknown | OnChainStatePending | OnChainStatePacked
  | OnChainStateLanded | OnChainStateNotFound | OnChainStateFailed | OnChainStatePermFailed
  | OnChainStateShouldAbort

record submit_resp =
  sr_Res :: submit_result
  sr_Desc :: "string option"

record poll_resp =
  pr_State :: on_chain_state
  pr_Desc :: "string option"

record access_stores =
  ac_SealedFile :: string
  ac_CacheDir :: string

section \<open>Lemmas\<close>

lemma DealID_nonzero_builtin: "DealID p \<noteq> 0 \<Longrightarrow> IsBuiltinMarket p"
  by (cases p) (auto split: if_splits)

lemma IsBuiltinMarket_HasDealInfo: "IsBuiltinMarket p \<Longrightarrow> HasDealInfo p"
  by (cases p) (auto split: if_splits)

lemma SectorPiece_cases:
  "SectorPiece s = (if ss_Pieces s \<noteq> [] then map PieceV2 (ss_Pieces s)
     else map LegacyPiece (ss_LegacyPieces s))"
  by (auto simp: SectorPiece_def)

section \<open>Properties\<close>

text \<open>Every sector is the business of exactly one kind of worker job: either of sealing, or
  of snapup, or of rebuild and unseal, whose flags take it away from the other two.\<close>

theorem MatchWorkerJob_partition:
  "(MatchWorkerJob s JobSealing \<and> \<not> MatchWorkerJob s JobSnapUp \<and>
      \<not> MatchWorkerJob s JobRebuild \<and> \<not> MatchWorkerJob s JobUnseal) \<or>
   (MatchWorkerJob s JobSnapUp \<and> \<not> MatchWorkerJob s JobSealing \<and>
      \<not> MatchWorkerJob s JobRebuild \<and> \<not> MatchWorkerJob s JobUnseal) \<or>
   ((MatchWorkerJob s JobRebuild \<or> MatchWorkerJob s JobUnseal) \<and>
      \<not> MatchWorkerJob s JobSealing \<and> \<not> MatchWorkerJob s JobSnapUp)"
  by auto

end
