(* ===== verification/Document_Store.thy ===== *)
theory Document_Store
  imports Core_Types
begin

text \<open>
  Components that keep their whole state in one JSON document of a key-value store: the
  load-modify-save cycle that \<open>RebuildManager\<close> and \<open>UnsealManager\<close> both have as a method
  \<open>loadAndUpdate\<close> (under their mutex, so a cycle is one step). Missing maps of a decoded document
  are empty maps in the model.
\<close>

section \<open>The cycle\<close>

text \<open>\<open>modify\<close> answers with a result and, when the document is to be written, its new value; it
  may panic.\<close>

definition doc_decode :: "string \<Rightarrow> 'd json \<Rightarrow> 'd res" where
  "doc_decode what d = map_err (Wrap (''unmashal '' @ what)) (unmarshal d)"

definition doc_save :: "string \<Rightarrow> key \<Rightarrow> ('a \<times> 'd option) res \<Rightarrow> ('d json kvs, 'a) step" where
  "doc_save putmsg k m kv = (case m of
     Inl e \<Rightarrow> (Inl e, kv)
   | Inr (a, None) \<Rightarrow> (Inr a, kv)
   | Inr (a, Some d) \<Rightarrow> (case kv_Put k (Json d) kv of
        (Inl e, kv1) \<Rightarrow> (Inl (Wrap putmsg e), kv1)
      | (Inr _, kv1) \<Rightarrow> (Inr a, kv1)))"

definition doc_cycle :: "('d json \<Rightarrow> 'd res) \<Rightarrow> string \<Rightarrow> string \<Rightarrow>
    key \<Rightarrow> 'd \<Rightarrow> ('d \<Rightarrow> ('a \<times> 'd option) res) \<Rightarrow> ('d json kvs, 'a) step" where
  "doc_cycle rd loadmsg putmsg k zero modify kv = (case kv_Peek k rd kv of
     (Inl e, kv1) \<Rightarrow> (if errors_is e ErrKeyNotFound then doc_save putmsg k (modify zero) kv1
                     else (Inl (Wrap loadmsg e), kv1))
   | (Inr d, kv1) \<Rightarrow> doc_save putmsg k (modify d) kv1)"

definition doc_loadAndUpdate ::
  "string \<Rightarrow> key \<Rightarrow> 'd \<Rightarrow> ('d \<Rightarrow> ('a \<times> 'd option) res) \<Rightarrow> ('d json kvs, 'a) step" where
  "doc_loadAndUpdate what = doc_cycle (doc_decode what) (''load '' @ what) (''put data of '' @ what)"

text \<open>What the modification answered, when it was reached: it may have effects outside the document,
  which stay when saving fails.\<close>

definition doc_ran ::
  "string \<Rightarrow> key \<Rightarrow> 'd \<Rightarrow> ('d \<Rightarrow> ('a \<times> 'd option) res) \<Rightarrow> 'd json kvs \<Rightarrow> ('a \<times> 'd option) res option" where
  "doc_ran what k zero modify kv = (case fst (kv_Peek k (doc_decode what) kv) of
     Inl e \<Rightarrow> (if errors_is e ErrKeyNotFound then Some (modify zero) else None)
   | Inr d \<Rightarrow> Some (modify d))"

section \<open>The document held by a store\<close>

definition document :: "key \<Rightarrow> 'd \<Rightarrow> 'd json kvs \<Rightarrow> 'd" where
  "document k zero kv = (case map_of (kv_data kv) k of Some (Json d) \<Rightarrow> d | _ \<Rightarrow> zero)"

lemma decoder_doc_decode [simp]: "decoder (doc_decode what)"
  by (auto simp: decoder_def doc_decode_def map_err_def unmarshal_Inl_iff split: sum.splits)

lemma doc_decode_Inr_iff [simp]: "doc_decode what d = Inr v \<longleftrightarrow> d = Json v"
  by (simp add: doc_decode_def)

lemma doc_decode_err: "doc_decode what d = Inl e \<Longrightarrow> io_err e"
  by (auto simp: doc_decode_def map_err_def unmarshal_Inl_iff split: sum.splits)

text \<open>An error of the store as the cycle reports it: wrapped, neither a missing key nor a conflict.\<close>

definition store_err :: "err \<Rightarrow> bool" where
  "store_err e = (io_err e \<and> \<not> is_panic e)"

lemma doc_saveD:
  assumes "doc_save putmsg k m kv = (r, kv1)"
  shows "(\<exists>e. r = Inl e \<and> (m = Inl e \<or> store_err e) \<and> kv_data kv1 = kv_data kv) \<or>
    (\<exists>a. r = Inr a \<and> m = Inr (a, None) \<and> kv_data kv1 = kv_data kv) \<or>
    (\<exists>a d. r = Inr a \<and> m = Inr (a, Some d) \<and> kv_data kv1 = put_entry k (Json d) (kv_data kv))"
proof (cases m)
  case (Inr x)
  obtain a y where x: "x = (a, y)" by fastforce
  show ?thesis
  proof (cases y)
    case (Some d)
    obtain q kv2 where p: "kv_Put k (Json d) kv = (q, kv2)" by fastforce
    from kv_PutD [OF p] p assms Inr x Some show ?thesis
      by (auto simp: doc_save_def store_err_def is_panic_def)
  qed (use assms Inr x in \<open>auto simp: doc_save_def\<close>)
qed (use assms in \<open>auto simp: doc_save_def\<close>)

text \<open>How a document is read: a stored value comes back, anything else is an error of the store.\<close>

definition doc_decoder :: "('d json \<Rightarrow> 'd res) \<Rightarrow> bool" where
  "doc_decoder rd = ((\<forall>d v. rd d = Inr v \<longleftrightarrow> d = Json v) \<and> (\<forall>d e. rd d = Inl e \<longrightarrow> io_err e))"

lemma doc_decoders: "doc_decoder (doc_decode what)" "doc_decoder unmarshal"
  by (auto simp: doc_decoder_def doc_decode_err unmarshal_Inl_iff)

lemma doc_decoderD:
  "doc_decoder rd \<Longrightarrow> decoder rd" "doc_decoder rd \<Longrightarrow> rd d = Inr v \<longleftrightarrow> d = Json v"
  "doc_decoder rd \<Longrightarrow> rd d = Inl e \<Longrightarrow> io_err e"
  by (auto simp: doc_decoder_def decoder_def)

text \<open>The outcome of a cycle: it fails and the store keeps its data, or it acts on the document.\<close>

lemma doc_cycleD:
  assumes rd: "doc_decoder rd" and run: "doc_cycle rd loadmsg putmsg k zero modify kv = (r, kv1)"
  shows "(\<exists>e. r = Inl e \<and> (store_err e \<or> modify (document k zero kv) = Inl e) \<and>
            kv_data kv1 = kv_data kv) \<or>
    (\<exists>a. r = Inr a \<and> modify (document k zero kv) = Inr (a, None) \<and> kv_data kv1 = kv_data kv) \<or>
    (\<exists>a d. r = Inr a \<and> modify (document k zero kv) = Inr (a, Some d) \<and>
       kv_data kv1 = put_entry k (Json d) (kv_data kv))"
proof -
  obtain q t where p: "kv_Peek k rd kv = (q, t)" by fastforce
  note P = kv_PeekD [OF doc_decoderD(1) [OF rd] p]
  then have t: "kv_data t = kv_data kv" by simp
  consider (doc) d where "d = document k zero kv" "doc_save putmsg k (modify d) t = (r, kv1)"
    | (err) e where "r = Inl (Wrap loadmsg e)" "io_err e" "kv1 = t"
  proof (cases q)
    case (Inl e)
    show ?thesis
    proof (cases "errors_is e ErrKeyNotFound")
      case True
      then have "map_of (kv_data kv) k = None"
        using P Inl by (metis Inl_inject doc_decoderD(3) [OF rd] io_errD(2))
      then show ?thesis using that(1) [of zero] run p Inl True
        by (auto simp: doc_cycle_def document_def)
    next
      case False
      then have "io_err e" using P Inl by (metis Inl_inject doc_decoderD(3) [OF rd] errors_is_refl)
      then show ?thesis using that(2) run p Inl False by (auto simp: doc_cycle_def)
    qed
  next
    case (Inr d)
    with P have "document k zero kv = d"
      by (auto simp: document_def eq_commute [of "Inr d"] doc_decoderD(2) [OF rd])
    then show ?thesis using that(1) [of d] run p Inr by (auto simp: doc_cycle_def)
  qed
  then show ?thesis
  proof cases
    case (doc d)
    with doc_saveD [OF doc(2)] t show ?thesis by auto
  next
    case err
    with t show ?thesis by (auto simp: store_err_def is_panic_def)
  qed
qed

lemma document_put [simp]:
  "kv_data kv1 = put_entry k (Json d) (kv_data kv) \<Longrightarrow> document k zero kv1 = d"
  by (simp add: document_def)

lemma document_cong: "kv_data kv1 = kv_data kv \<Longrightarrow> document k zero kv1 = document k zero kv"
  by (simp add: document_def)

text \<open>The same on documents.\<close>

lemma doc_stepD:
  assumes "doc_decoder rd" "doc_cycle rd loadmsg putmsg k zero modify kv = (r, kv1)"
  shows "(\<exists>e. r = Inl e \<and> (store_err e \<or> modify (document k zero kv) = Inl e) \<and>
            document k zero kv1 = document k zero kv) \<or>
    (\<exists>a w. r = Inr a \<and> modify (document k zero kv) = Inr (a, w) \<and>
       document k zero kv1 = (case w of None \<Rightarrow> document k zero kv | Some d \<Rightarrow> d))"
  using doc_cycleD [OF assms] document_cong [of kv1 kv k zero] by auto

section \<open>The cycle as a contract\<close>

text \<open>A state kept as one document: the client runs a modification and relies on it being applied
  once and whole, or not at all.\<close>

locale document_owner =
  fixes cycle :: "('d \<Rightarrow> ('a \<times> 'd option) res) \<Rightarrow> 's \<Rightarrow> 'a res \<times> 's"
    and doc :: "'s \<Rightarrow> 'd"
  assumes cycle_law: "cycle f s = (r, s1) \<Longrightarrow>
      (\<exists>e. r = Inl e \<and> (store_err e \<or> f (doc s) = Inl e) \<and> doc s1 = doc s) \<or>
      (\<exists>a w. r = Inr a \<and> f (doc s) = Inr (a, w) \<and> doc s1 = (case w of None \<Rightarrow> doc s | Some d \<Rightarrow> d))"
begin

lemma cycle_preserves:
  assumes "cycle f s = (r, s1)" "I (doc s)" "\<And>a d. f (doc s) = Inr (a, Some d) \<Longrightarrow> I d"
  shows "I (doc s1)"
  using cycle_law [OF assms(1)] assms(2,3) by (auto split: option.splits)

lemma cycle_error: "cycle f s = (Inl e, s1) \<Longrightarrow> doc s1 = doc s"
  using cycle_law by fastforce

lemma cycle_result: "cycle f s = (Inr a, s1) \<Longrightarrow>
    \<exists>w. f (doc s) = Inr (a, w) \<and> doc s1 = (case w of None \<Rightarrow> doc s | Some d \<Rightarrow> d)"
  using cycle_law by fastforce

lemma cycle_no_panic:
  assumes "cycle f s = (Inl e, s1)" "\<And>x. f (doc s) \<noteq> Inl x"
  shows "\<not> is_panic e"
  using cycle_law [OF assms(1)] assms(2) by (auto simp: store_err_def)

end

interpretation one_doc: document_owner "doc_loadAndUpdate what k zero" "document k zero"
  for what k zero
  unfolding doc_loadAndUpdate_def by unfold_locales (rule doc_stepD [OF doc_decoders(1)])

interpretation plain_doc: document_owner "doc_cycle unmarshal loadmsg putmsg k zero" "document k zero"
  for loadmsg putmsg k zero
  by unfold_locales (rule doc_stepD [OF doc_decoders(2)])

end
