(* ===== verification/Manager_Config.thy ===== *)
theory Manager_Config
  imports Core_Types
begin

text \<open>
  The manager's configuration (\<open>modules/config.go\<close>): the per-miner sections with their default
  values, the choices the accessors make between a field and the older field it replaces, and the
  lookup of a miner. Durations are nanoseconds, Go's \<open>int\<close> and token amounts are integers, a
  token amount that was never set is \<open>None\<close>. The gas multipliers are floating point numbers the
  code only copies into the message specification; they are kept as their literals.
\<close>

section \<open>The sections\<close>

type_synonym duration = int
type_synonym fil = "int option"

datatype float64 = Float64 string

record fee_config =
  fee_GasOverEstimation :: float64
  fee_GasOverPremium :: float64
  fee_GasFeeCap :: fil
  fee_MaxFeeCap :: fil

definition NilOrZero :: "fil \<Rightarrow> bool" where
  "NilOrZero f = (f = None \<or> f = Some 0)"

definition GetGasFeeCap :: "fee_config \<Rightarrow> fil" where
  "GetGasFeeCap c = (if NilOrZero (fee_GasFeeCap c) \<and> \<not> NilOrZero (fee_MaxFeeCap c)
     then fee_MaxFeeCap c else fee_GasFeeCap c)"

definition GetSendSpec :: "fee_config \<Rightarrow> float64 \<times> float64" where
  "GetSendSpec c = (fee_GasOverEstimation c, fee_GasOverPremium c)"

definition defaultFeeConfig :: fee_config where
  "defaultFeeConfig = \<lparr>fee_GasOverEstimation = Float64 ''1.2'', fee_GasOverPremium = Float64 ''0'',
     fee_GasFeeCap = Some (5 * 1000000000), fee_MaxFeeCap = None\<rparr>"

record miner_sector_config =
  msc_InitNumber :: u64
  msc_MinNumber :: "u64 option"
  msc_MaxNumber :: "u64 option"
  msc_Enabled :: bool
  msc_EnableDeals :: bool
  msc_LifetimeDays :: u64
  msc_Verbose :: bool

definition defaultMinerSectorConfig :: "bool \<Rightarrow> miner_sector_config" where
  "defaultMinerSectorConfig example = \<lparr>msc_InitNumber = 0,
     msc_MinNumber = (if example then Some 10 else None),
     msc_MaxNumber = (if example then Some 1000000 else None),
     msc_Enabled = True, msc_EnableDeals = False, msc_LifetimeDays = 540, msc_Verbose = False\<rparr>"

definition minute :: duration where
  "minute = 60 * 1000000000"

record miner_snapup_retry_config =
  mrc_MaxAttempts :: "int option"
  mrc_PollInterval :: duration
  mrc_APIFailureWait :: duration
  mrc_LocalFailureWait :: duration

definition defaultMinerSnapUpRetryConfig :: "bool \<Rightarrow> miner_snapup_retry_config" where
  "defaultMinerSnapUpRetryConfig example = \<lparr>mrc_MaxAttempts = (if example then Some 10 else None),
     mrc_PollInterval = 3 * minute, mrc_APIFailureWait = 3 * minute, mrc_LocalFailureWait = 3 * minute\<rparr>"

record miner_snapup_config =
  msu_Enabled :: bool
  msu_Sender :: "address option"
  msu_Senders :: "address list"
  msu_SendFund :: bool
  msu_FeeConfig :: fee_config
  msu_CleanupCCData :: bool
  msu_MessageConfidential :: "epoch option"
  msu_ReleaseCondidential :: "epoch option"
  msu_MessageConfidence :: epoch
  msu_ReleaseConfidence :: epoch
  msu_Retry :: miner_snapup_retry_config

text \<open>\<open>GetMessageConfidence\<close> and \<open>GetReleaseConfidence\<close>: the misspelt older field wins when it
  is set.\<close>

definition GetMessageConfidence :: "miner_snapup_config \<Rightarrow> epoch" where
  "GetMessageConfidence m = (case msu_MessageConfidential m of
     Some e \<Rightarrow> e | None \<Rightarrow> msu_MessageConfidence m)"

definition GetReleaseConfidence :: "miner_snapup_config \<Rightarrow> epoch" where
  "GetReleaseConfidence m = (case msu_ReleaseCondidential m of
     Some e \<Rightarrow> e | None \<Rightarrow> msu_ReleaseConfidence m)"

text \<open>The value of the package variable \<open>fakeAddress\<close> is set by the network's build parameters.\<close>

definition defaultMinerSnapUpConfig :: "address \<Rightarrow> bool \<Rightarrow> miner_snapup_config" where
  "defaultMinerSnapUpConfig fakeAddress example = \<lparr>msu_Enabled = False, msu_Sender = None,
     msu_Senders = (if example then [fakeAddress] else []), msu_SendFund = True,
     msu_FeeConfig = defaultFeeConfig, msu_CleanupCCData = True, msu_MessageConfidential = None,
     msu_ReleaseCondidential = None, msu_MessageConfidence = 15, msu_ReleaseConfidence = 30,
     msu_Retry = defaultMinerSnapUpRetryConfig example\<rparr>"

record batch_policy_config =
  bp_Threshold :: int
  bp_MaxWait :: duration
  bp_CheckInterval :: duration
  bp_FeeConfig :: fee_config

definition defaultMinerCommitmentBatchPolicyConfig :: batch_policy_config where
  "defaultMinerCommitmentBatchPolicyConfig = \<lparr>bp_Threshold = 4, bp_MaxWait = 60 * minute,
     bp_CheckInterval = minute, bp_FeeConfig = defaultFeeConfig\<rparr>"

record commitment_policy_config =
  cp_Sender :: "address option"
  cp_Senders :: "address list"
  cp_SendFund :: bool
  cp_FeeConfig :: fee_config
  cp_Batch :: batch_policy_config

definition defaultMinerCommitmentPolicyConfig :: "address \<Rightarrow> bool \<Rightarrow> commitment_policy_config" where
  "defaultMinerCommitmentPolicyConfig fakeAddress example = \<lparr>cp_Sender = None,
     cp_Senders = (if example then [fakeAddress] else []), cp_SendFund = True,
     cp_FeeConfig = defaultFeeConfig, cp_Batch = defaultMinerCommitmentBatchPolicyConfig\<rparr>"

record commitment_config =
  cc_Confidence :: int
  cc_Pre :: commitment_policy_config
  cc_Prove :: commitment_policy_config
  cc_Terminate :: commitment_policy_config

definition set_threshold :: "int \<Rightarrow> commitment_policy_config \<Rightarrow> commitment_policy_config" where
  "set_threshold n c = c\<lparr>cp_Batch := (cp_Batch c)\<lparr>bp_Threshold := n\<rparr>\<rparr>"

definition defaultMinerCommitmentConfig :: "address \<Rightarrow> bool \<Rightarrow> commitment_config" where
  "defaultMinerCommitmentConfig fa example = (let p = defaultMinerCommitmentPolicyConfig fa example in
     \<lparr>cc_Confidence = 10, cc_Pre = set_threshold 2 p, cc_Prove = set_threshold 4 p,
      cc_Terminate = set_threshold 2 p\<rparr>)"

record miner_post_config =
  mp_Sender :: "address option"
  mp_Senders :: "address list"
  mp_Enabled :: bool
  mp_StrictCheck :: bool
  mp_Parallel :: bool
  mp_FeeConfig :: fee_config
  mp_Confidence :: u64
  mp_SubmitConfidence :: u64
  mp_ChallengeConfidence :: u64
  mp_MaxRecoverSectorLimit :: u64
  mp_MaxPartitionsPerPoStMessage :: u64
  mp_MaxPartitionsPerRecoveryMessage :: u64

definition DefaultMinerPoStConfig :: "address \<Rightarrow> bool \<Rightarrow> miner_post_config" where
  "DefaultMinerPoStConfig fakeAddress example = \<lparr>mp_Sender = None,
     mp_Senders = (if example then [fakeAddress] else []), mp_Enabled = True, mp_StrictCheck = True,
     mp_Parallel = False, mp_FeeConfig = defaultFeeConfig, mp_Confidence = 10,
     mp_SubmitConfidence = 0, mp_ChallengeConfidence = 0, mp_MaxRecoverSectorLimit = 0,
     mp_MaxPartitionsPerPoStMessage = 0, mp_MaxPartitionsPerRecoveryMessage = 0\<rparr>"

record miner_sealing_config =
  msl_SealingEpochDuration :: int
  msl_RequireActivationSuccess :: bool
  msl_RequireActivationSuccessUpdate :: bool
  msl_RequireNotificationSuccess :: bool
  msl_RequireNotificationSuccessUpdate :: bool
  msl_UseSyntheticPoRep :: bool
  msl_SealingSectorDeadlineDelayNi :: u64

definition defaultMinerSealingConfig :: miner_sealing_config where
  "defaultMinerSealingConfig = \<lparr>msl_SealingEpochDuration = 0, msl_RequireActivationSuccess = False,
     msl_RequireActivationSuccessUpdate = False, msl_RequireNotificationSuccess = False,
     msl_RequireNotificationSuccessUpdate = False, msl_UseSyntheticPoRep = False,
     msl_SealingSectorDeadlineDelayNi = 6\<rparr>"

text \<open>\<open>MinerConfig\<close>; its \<open>Proof\<close> section has the single field \<open>Enabled\<close>.\<close>

record miner_config =
  mc_Actor :: u64
  mc_Sector :: miner_sector_config
  mc_SnapUp :: miner_snapup_config
  mc_Commitment :: commitment_config
  mc_PoSt :: miner_post_config
  mc_ProofEnabled :: bool
  mc_Sealing :: miner_sealing_config

definition DefaultMinerConfig :: "address \<Rightarrow> bool \<Rightarrow> miner_config" where
  "DefaultMinerConfig fa example = \<lparr>mc_Actor = (if example then 10086 else 0),
     mc_Sector = defaultMinerSectorConfig example, mc_SnapUp = defaultMinerSnapUpConfig fa example,
     mc_Commitment = defaultMinerCommitmentConfig fa example,
     mc_PoSt = DefaultMinerPoStConfig fa example, mc_ProofEnabled = False,
     mc_Sealing = defaultMinerSealingConfig\<rparr>"

section \<open>Lookup\<close>

text \<open>The miners of \<open>SafeConfig\<close>; the first section with the actor's number is the miner's.\<close>

type_synonym safe_config = "miner_config list"

fun MinerConfig :: "safe_config \<Rightarrow> u64 \<Rightarrow> miner_config res" where
  "MinerConfig [] mid = Inl (Errorf (''config for miner actor '' @ dec64 mid @ '' not found''))"
| "MinerConfig (m # ms) mid = (if mc_Actor m = mid then Inr m else MinerConfig ms mid)"

definition MustMinerConfig :: "safe_config \<Rightarrow> u64 \<Rightarrow> miner_config res" where
  "MustMinerConfig ms mid = (case MinerConfig ms mid of
     Inl e \<Rightarrow> Inl (Panic ''MustMinerConfig'') | Inr m \<Rightarrow> Inr m)"

lemma MinerConfig_InrD: "MinerConfig ms mid = Inr m \<Longrightarrow> m \<in> set ms \<and> mc_Actor m = mid"
  by (induction ms) (auto split: if_splits)

lemma MinerConfig_InlD: "MinerConfig ms mid = Inl e \<Longrightarrow> mid \<notin> mc_Actor ` set ms"
  by (induction ms) (auto split: if_splits)

lemma MinerConfig_distinct:
  "m \<in> set ms \<Longrightarrow> distinct (map mc_Actor ms) \<Longrightarrow> MinerConfig ms (mc_Actor m) = Inr m"
  by (induction ms) (auto simp: image_iff)

end
