(* ===== verification/Sector_Allocation.thy ===== *)
theory Sector_Allocation
  imports Manager_Config "HOL-Library.Multiset"
begin

text \<open>
  Allocation of sector numbers: the persistent counter per miner
  (\<open>modules/impl/sectors/number_allocator.go\<close>), the cached miner information
  (\<open>pkg/chain/miner_api.go\<close>), the selection of miners
  (\<open>modules/impl/sectors/miner_selector.go\<close>) and the sector manager's \<open>Allocate\<close>
  (\<open>modules/impl/sectors/mgr.go\<close>).
\<close>

unbundle bit_operations_syntax

section \<open>Variable-length integers\<close>

text \<open>\<open>binary.PutUvarint\<close> and \<open>binary.Uvarint\<close> of Go's standard library, at their widths. The
  second result of \<open>Uvarint\<close> is the number of bytes read, not positive on an error.\<close>

function put_uvarint :: "u64 \<Rightarrow> bytes" where
  "put_uvarint x = (if x \<ge> 0x80 then (ucast x OR 0x80) # put_uvarint (drop_bit 7 x)
     else [ucast x])"
  by auto
termination
proof (relation "measure unat")
  fix x :: u64
  assume "0x80 \<le> x"
  then have "128 \<le> unat x" by (simp add: word_le_nat_alt)
  then show "(drop_bit 7 x, x) \<in> measure unat"
    by (simp add: drop_bit_eq_div unat_div_distrib)
qed simp

declare put_uvarint.simps [simp del]

fun uvarint_loop :: "bytes \<Rightarrow> nat \<Rightarrow> u64 \<Rightarrow> nat \<Rightarrow> u64 \<times> int" where
  "uvarint_loop [] i x s = (0, 0)"
| "uvarint_loop (b # bs) i x s =
    (if i = 10 then (0, - (int i + 1))
     else if b < 0x80 then
       (if i = 9 \<and> b > 1 then (0, - (int i + 1)) else (x OR push_bit s (ucast b), int i + 1))
     else uvarint_loop bs (i + 1) (x OR push_bit s (ucast (b AND 0x7f))) (s + 7))"

definition uvarint :: "bytes \<Rightarrow> u64 \<times> int" where
  "uvarint bs = uvarint_loop bs 0 0 0"

section \<open>The number allocator\<close>

type_synonym num_store = "bytes kvs"

definition number_key :: "u64 \<Rightarrow> key" where
  "number_key mid = ''/m-'' @ dec64 mid"

definition decode_number :: "bytes \<Rightarrow> u64 res" where
  "decode_number data = (case uvarint data of (num, read) \<Rightarrow>
     if read \<noteq> int (length data) then Inl (Errorf ''raw data is not a valid uvarint'')
     else Inr num)"

text \<open>\<open>NumberAllocator.NextN\<close>, run under the miner's lock. It compares the error of \<open>Peek\<close> with
  \<open>==\<close>, not \<open>errors.Is\<close>; the sum wraps at 64 bits; nothing is written when the check refuses.\<close>

definition NextN :: "u64 \<Rightarrow> u32 \<Rightarrow> u64 \<Rightarrow> (u64 \<Rightarrow> bool) \<Rightarrow> (num_store, u64 \<times> bool) step" where
  "NextN mid n minNum check s = (case kv_Peek (number_key mid) decode_number s of
     (r, s1) \<Rightarrow>
       (case (case r of Inr c \<Rightarrow> Inr c
              | Inl e \<Rightarrow> if e = ErrKeyNotFound then Inr 0
                        else Inl (Wrap ''fetch current number'' e)) of
          Inl e \<Rightarrow> (Inl e, s1)
        | Inr current \<Rightarrow>
           let base = (if current < minNum then minNum else current);
               next = base + ucast n
           in if \<not> check next then (Inr (next, False), s1)
              else (case kv_Put (number_key mid) (put_uvarint next) s1 of
                (Inl e, s2) \<Rightarrow> (Inl (Wrap ''write next seq number'' e), s2)
              | (Inr _, s2) \<Rightarrow> (Inr (next, True), s2))))"

section \<open>Miner information\<close>

record miner_info =
  min_ID :: u64
  min_Addr :: address
  min_SectorSize :: u64
  min_WindowPoStProofType :: int
  min_SealProofType :: seal_proof

text \<open>What \<open>MinerAPI\<close> asks of third-party code: the encoding of ID addresses, the chain's
  \<open>StateMinerInfo\<close> (sector size and PoSt proof type) and \<open>StateNetworkVersion\<close>, and the actors
  library's choice of a seal proof for a sector size, a network version and a variant (whether
  synthetic).\<close>

record miner_chain =
  mca_NewIDAddress :: "u64 \<Rightarrow> address res"
  mca_StateMinerInfo :: "address \<Rightarrow> (u64 \<times> int) res"
  mca_StateNetworkVersion :: "u64 res"
  mca_SealProofType :: "u64 \<Rightarrow> u64 \<Rightarrow> bool \<Rightarrow> seal_proof res"

type_synonym info_cache = "u64 \<rightharpoonup> miner_info"

definition fetch_info :: "miner_chain \<Rightarrow> u64 \<Rightarrow> (info_cache, miner_info) step" where
  "fetch_info ca mid cache = (case cache mid of
     Some mi \<Rightarrow> (Inr mi, cache)
   | None \<Rightarrow> (case mca_NewIDAddress ca mid of
        Inl e \<Rightarrow> (Inl e, cache)
      | Inr maddr \<Rightarrow> (case mca_StateMinerInfo ca maddr of
           Inl e \<Rightarrow> (Inl e, cache)
         | Inr (sz, wpt) \<Rightarrow>
            (let mi = \<lparr>min_ID = mid, min_Addr = maddr, min_SectorSize = sz,
                       min_WindowPoStProofType = wpt, min_SealProofType = 0\<rparr>
             in (Inr mi, cache(mid \<mapsto> mi))))))"

text \<open>The cached object is shared: the seal proof type is written into it on every call.\<close>

definition GetInfo :: "miner_chain \<Rightarrow> safe_config \<Rightarrow> u64 \<Rightarrow> (info_cache, miner_info) step" where
  "GetInfo ca cfg mid cache = (case fetch_info ca mid cache of
     (Inl e, c1) \<Rightarrow> (Inl e, c1)
   | (Inr mi, c1) \<Rightarrow>
      (let synth = (case find (\<lambda>m. mc_Actor m = mid) cfg of
             Some m \<Rightarrow> msl_UseSyntheticPoRep (mc_Sealing m) | None \<Rightarrow> False)
       in case mca_StateNetworkVersion ca of
            Inl e \<Rightarrow> (Inl (Wrap ''get network version'' e), c1)
          | Inr nv \<Rightarrow> (case mca_SealProofType ca (min_SectorSize mi) nv synth of
               Inl e \<Rightarrow> (Inl e, c1)
             | Inr pt \<Rightarrow> (let mi' = mi\<lparr>min_SealProofType := pt\<rparr> in (Inr mi', c1(mid \<mapsto> mi'))))))"

section \<open>Miner selection\<close>

record candidate =
  ca_info :: miner_info
  ca_cfg :: miner_sector_config

text \<open>One goroutine per configured miner fills the slot of its miner; each only touches its own
  slot and its own miner's cache entry, so the model runs them in list order.\<close>

fun gather_infos :: "miner_chain \<Rightarrow> safe_config \<Rightarrow> (miner_config \<Rightarrow> bool) \<Rightarrow> miner_config list \<Rightarrow>
    info_cache \<Rightarrow> candidate option list \<times> info_cache" where
  "gather_infos ca cfg check [] c = ([], c)"
| "gather_infos ca cfg check (m # ms) c =
    (let (slot, c1) = (if \<not> check m then (None, c)
         else (case GetInfo ca cfg (mc_Actor m) c of
           (Inl e, c1) \<Rightarrow> (None, c1)
         | (Inr mi, c1) \<Rightarrow> (Some \<lparr>ca_info = mi, ca_cfg = mc_Sector m\<rparr>, c1)));
         (slots, c2) = gather_infos ca cfg check ms c1
     in (slot # slots, c2))"

definition slot_ok :: "u64 list \<Rightarrow> seal_proof list \<Rightarrow> candidate option \<Rightarrow> bool" where
  "slot_ok allowedMiners allowedProofs slot = (case slot of
     None \<Rightarrow> False
   | Some cand \<Rightarrow>
      (length allowedMiners > 0 \<longrightarrow> list_ex (\<lambda>a. min_ID (ca_info cand) = a) allowedMiners) \<and>
      (length allowedProofs > 0 \<longrightarrow> list_ex (\<lambda>a. min_SealProofType (ca_info cand) = a) allowedProofs))"

definition swap :: "nat \<Rightarrow> nat \<Rightarrow> 'a list \<Rightarrow> 'a list" where
  "swap i j xs = xs[i := xs ! j, j := xs ! i]"

function partition_loop :: "('a \<Rightarrow> bool) \<Rightarrow> 'a list \<Rightarrow> nat \<Rightarrow> nat \<Rightarrow> 'a list" where
  "partition_loop ok infos i hi =
    (if i < hi then
       (if \<not> ok (infos ! i) then partition_loop ok (swap i (hi - 1) infos) i (hi - 1)
        else partition_loop ok infos (i + 1) hi)
     else take hi infos)"
  by auto
termination
  by (relation "measure (\<lambda>(ok, infos, i, hi). hi - i)") auto

declare partition_loop.simps [simp del]

definition candidates :: "miner_chain \<Rightarrow> safe_config \<Rightarrow> u64 list \<Rightarrow> seal_proof list \<Rightarrow>
    (miner_config \<Rightarrow> bool) \<Rightarrow> info_cache \<Rightarrow> candidate option list \<times> info_cache" where
  "candidates ca cfg allowedMiners allowedProofs check c =
    (if length cfg = 0 then ([], c)
     else (let (infos, c1) = gather_infos ca cfg check cfg c
           in (partition_loop (slot_ok allowedMiners allowedProofs) infos 0 (length cfg), c1)))"

section \<open>Allocation\<close>

text \<open>The state \<open>Allocate\<close> runs on: the number store and the cache of miner information. The
  random index drawn when \<open>n\<close> candidates are left is \<open>pick n\<close>; every number of candidates occurs
  at most once in a call.\<close>

record alloc_state =
  al_numbers :: num_store
  al_cache :: info_cache

fun number_run :: "u64 \<Rightarrow> seal_proof \<Rightarrow> u64 \<Rightarrow> nat \<Rightarrow> allocated_sector list" where
  "number_run mid pt next 0 = []"
| "number_run mid pt next (Suc k) =
     \<lparr>as_ID = \<lparr>sid_Miner = mid, sid_Number = next\<rparr>, as_ProofType = pt\<rparr> # number_run mid pt (next + 1) k"

definition number_check :: "miner_sector_config \<Rightarrow> u64 \<Rightarrow> bool" where
  "number_check cfg next = (case msc_MaxNumber cfg of None \<Rightarrow> True | Some mx \<Rightarrow> next \<le> mx)"

definition minNumber :: "miner_sector_config \<Rightarrow> u64" where
  "minNumber cfg = (case msc_MinNumber cfg of None \<Rightarrow> msc_InitNumber cfg | Some mn \<Rightarrow> mn)"

function allocate_loop :: "(nat \<Rightarrow> nat) \<Rightarrow> u32 \<Rightarrow> candidate option list \<Rightarrow>
    num_store \<Rightarrow> allocated_sector list option res \<times> num_store" where
  "allocate_loop pick cnt cands s =
    (if cands = [] then (Inr None, s)
     else (let idx = pick (length cands) in case cands ! idx of
        None \<Rightarrow> (nil_deref, s)
      | Some sel \<Rightarrow>
         (case NextN (min_ID (ca_info sel)) cnt (minNumber (ca_cfg sel))
                 (number_check (ca_cfg sel)) s of
            (Inl e, s1) \<Rightarrow> (Inl e, s1)
          | (Inr (next, available), s1) \<Rightarrow>
              (if \<not> available then
                 allocate_loop pick cnt (butlast (swap (length cands - 1) idx cands)) s1
               else (Inr (Some (number_run (min_ID (ca_info sel)) (min_SealProofType (ca_info sel))
                       (next - ucast cnt + 1) (unat cnt))), s1)))))"
  by pat_completeness auto
termination
  by (relation "measure (\<lambda>(p, n, cs, s). length cs)") (auto simp: swap_def)

declare allocate_loop.simps [simp del]

text \<open>\<open>Manager.Allocate\<close>. The result \<open>Inr None\<close> is Go's \<open>nil, nil\<close>: no miner can take the
  sectors.\<close>

definition Allocate :: "miner_chain \<Rightarrow> safe_config \<Rightarrow> (nat \<Rightarrow> nat) \<Rightarrow> allocate_spec \<Rightarrow> u32 \<Rightarrow>
    (alloc_state, allocated_sector list option) step" where
  "Allocate ca cfg pick spec cnt st =
    (if cnt = 0 then (Inl (Errorf ''at least one sector is allocated each call''), st)
     else (case candidates ca cfg (spec_AllowedMiners spec) (spec_AllowedProofTypes spec)
                  (\<lambda>m. msc_Enabled (mc_Sector m)) (al_cache st) of
        (cands, c1) \<Rightarrow> (case allocate_loop pick cnt cands (al_numbers st) of
          (r, s1) \<Rightarrow> (r, st\<lparr>al_numbers := s1, al_cache := c1\<rparr>))))"


section \<open>Lemmas on the encoding\<close>

lemma put_uvarint_small: "x < 0x80 \<Longrightarrow> put_uvarint x = [ucast x]"
  by (subst put_uvarint.simps) auto

lemma put_uvarint_large:
  "0x80 \<le> x \<Longrightarrow> put_uvarint x = (ucast x OR 0x80) # put_uvarint (drop_bit 7 x)"
  by (subst put_uvarint.simps) simp

lemma cont_byte_ge: "\<not> (b OR 0x80 :: u8) < 0x80"
  using le_word_or1 [of "0x80 :: u8" b] by (simp only: not_less)

lemma ucast_small: "(y::u64) < 0x80 \<Longrightarrow> ucast (ucast y :: u8) = y"
proof -
  assume "y < 0x80"
  then have "unat y < 2 ^ 7" by (simp add: word_less_nat_alt)
  then have "take_bit 8 (unat y) = unat y" by (simp add: take_bit_nat_eq_self)
  then show ?thesis
    by (simp add: word_unat_eq_iff unsigned_ucast_eq unsigned_take_bit_eq)
qed

lemma ucast_small_less: "(y::u64) < 0x80 \<Longrightarrow> (ucast y :: u8) < 0x80"
proof -
  assume "y < 0x80"
  then have "unat y < 2 ^ 7" by (simp add: word_less_nat_alt)
  then show ?thesis
    by (simp add: word_less_nat_alt unsigned_ucast_eq take_bit_nat_eq_self)
qed

lemma low_bits: "ucast ((ucast (y::u64) OR 0x80 :: u8) AND 0x7f) = take_bit 7 y"
proof (rule bit_word_eqI)
  fix n assume "n < LENGTH(64)"
  have m: "(0x7f :: u8) = mask 7" by (simp add: mask_numeral)
  have m2: "(0x80 :: u8) = push_bit 7 1" by simp
  show "bit (ucast ((ucast y OR 0x80 :: u8) AND 0x7f) :: u64) n = bit (take_bit 7 y) n"
    unfolding m m2 by (auto simp: bit_simps simp del: push_bit_of_1)
qed

lemma join_bits:
  "(x OR push_bit s (take_bit 7 y)) OR push_bit (s + 7) (drop_bit 7 y) = x OR push_bit s (y :: u64)"
proof (rule bit_word_eqI)
  fix n assume "n < LENGTH(64)"
  then show "bit ((x OR push_bit s (take_bit 7 y)) OR push_bit (s + 7) (drop_bit 7 y)) n =
    bit (x OR push_bit s y) n"
    by (cases "n - s < 7") (auto simp: bit_simps le_diff_conv2 not_less)
qed

text \<open>Reading what was written: the loop on the encoding of \<open>y\<close> at position \<open>i\<close> adds \<open>y\<close> shifted to
  its place, provided \<open>y\<close> still fits there.\<close>

lemma uvarint_loop_put:
  assumes "unat y * 2 ^ (7 * i) < 2 ^ 64" "i \<le> 9"
  shows "uvarint_loop (put_uvarint y @ rest) i x (7 * i) =
    (x OR push_bit (7 * i) y, int (i + length (put_uvarint y)))"
  using assms
proof (induction y arbitrary: i x rule: put_uvarint.induct)
  case (1 y)
  show ?case
  proof (cases "y < 0x80")
    case True
    have "\<not> (ucast y :: u8) > 1" if i: "i = 9"
    proof -
      have "unat y < 2" using "1.prems"(1) i by simp
      moreover have "unat (ucast y :: u8) \<le> unat y"
        by (simp add: unsigned_ucast_eq take_bit_nat_less_eq_self)
      ultimately have "unat (ucast y :: u8) \<le> 1" by linarith
      then show ?thesis by (simp only: word_less_nat_alt not_less unsigned_1)
    qed
    with True "1.prems"(2) show ?thesis
      by (auto simp: put_uvarint_small ucast_small ucast_small_less)
  next
    case False
    then have y: "0x80 \<le> y" by simp
    have u: "unat (drop_bit 7 y) = unat y div 128"
      by (simp add: drop_bit_eq_div unat_div_distrib)
    have "unat y div 128 * 2 ^ (7 * (i + 1)) \<le> unat y * 2 ^ (7 * i)"
      by (simp add: power_add)
    then have p1: "unat (drop_bit 7 y) * 2 ^ (7 * (i + 1)) < 2 ^ 64"
      unfolding u using "1.prems"(1) by (rule le_less_trans)
    have "i + 1 \<le> 9"
    proof (rule ccontr)
      assume "\<not> i + 1 \<le> 9"
      then have "i = 9" using "1.prems"(2) by simp
      with "1.prems"(1) y show False by (simp add: word_le_nat_alt)
    qed
    with "1.IH" [OF y p1] have
      "uvarint_loop (put_uvarint (drop_bit 7 y) @ rest) (i + 1) (x OR push_bit (7 * i) (take_bit 7 y))
         (7 * i + 7) = (x OR push_bit (7 * i) y, int (i + 1 + length (put_uvarint (drop_bit 7 y))))"
      using join_bits [of x "7 * i" y] by (simp add: algebra_simps)
    then show ?thesis
      using "1.prems"(2) y by (simp add: put_uvarint_large cont_byte_ge low_bits)
  qed
qed

lemma uvarint_put [simp]: "uvarint (put_uvarint y) = (y, int (length (put_uvarint y)))"
  using uvarint_loop_put [of y 0 "[]" 0] unsigned_less [of y] by (simp add: uvarint_def)

lemma decode_number_put [simp]: "decode_number (put_uvarint y) = Inr y"
  by (simp add: decode_number_def)

lemma decoder_decode_number [simp]: "decoder decode_number"
  by (auto simp: decoder_def decode_number_def io_err_def badger_ErrConflict_def split: prod.splits if_splits)


lemma decode_number_err: "decode_number d = Inl e \<Longrightarrow> e \<noteq> ErrKeyNotFound"
  by (auto simp: decode_number_def split: prod.splits if_splits)

section \<open>Lemmas on miner selection\<close>

lemma length_swap [simp]: "length (swap i j xs) = length xs"
  by (simp add: swap_def)

lemma mset_swap': "i < length xs \<Longrightarrow> j < length xs \<Longrightarrow> mset (swap i j xs) = mset xs"
  using mset_swap [of j xs i] by (simp add: swap_def)

lemma take_swap: "i < n \<Longrightarrow> j < n \<Longrightarrow> n \<le> length xs \<Longrightarrow> take n (swap i j xs) = swap i j (take n xs)"
  by (simp add: swap_def take_update_swap)

lemma nth_swap_right: "i < length xs \<Longrightarrow> j < length xs \<Longrightarrow> swap i j xs ! j = xs ! i"
  by (simp add: swap_def)

lemma mset_swap_drop_last:
  assumes "i < hi" "hi \<le> length xs"
  shows "mset (take hi xs) = add_mset (xs ! i) (mset (take (hi - 1) (swap i (hi - 1) xs)))"
proof -
  let ?ys = "swap i (hi - 1) xs"
  have hi: "hi = Suc (hi - 1)" "hi - 1 < length ?ys" using assms by simp_all
  have "mset (take hi xs) = mset (take hi ?ys)"
    using assms by (simp add: take_swap mset_swap')
  also have "take hi ?ys = take (hi - 1) ?ys @ [?ys ! (hi - 1)]"
    using take_Suc_conv_app_nth [OF hi(2)] hi(1) by simp
  also have "?ys ! (hi - 1) = xs ! i" using assms by (intro nth_swap_right) auto
  finally show ?thesis by simp
qed

lemma partition_loop_mset:
  assumes "i \<le> hi" "hi \<le> length xs" "\<forall>x \<in> set (take i xs). ok x"
  shows "mset (partition_loop ok xs i hi) = filter_mset ok (mset (take hi xs))"
  using assms
proof (induction ok xs i hi rule: partition_loop.induct)
  case (1 ok xs i hi)
  show ?case
  proof (cases "i < hi")
    case False
    then have "i = hi" using "1.prems"(1) by simp
    with "1.prems"(3) show ?thesis by (simp add: partition_loop.simps flip: mset_filter)
  next
    case lt: True
    show ?thesis
    proof (cases "ok (xs ! i)")
      case False
      have "take i (swap i (hi - 1) xs) = take i xs"
        using lt by (simp add: swap_def)
      with "1.IH"(1) [OF lt] False "1.prems" lt
      have "mset (partition_loop ok (swap i (hi - 1) xs) i (hi - 1)) =
          filter_mset ok (mset (take (hi - 1) (swap i (hi - 1) xs)))" by simp
      then show ?thesis
        using lt False mset_swap_drop_last [OF lt "1.prems"(2)]
        by (subst partition_loop.simps) simp
    next
      case True
      have "\<forall>x \<in> set (take (i + 1) xs). ok x"
        using "1.prems" lt True by (simp add: take_Suc_conv_app_nth)
      with "1.IH"(2) [OF lt] True "1.prems" lt show ?thesis
        by (subst partition_loop.simps) simp
    qed
  qed
qed

lemma length_gather: "length (fst (gather_infos ca cfg check ms c)) = length ms"
proof (induction ms arbitrary: c)
  case (Cons m ms)
  have "length x = length ms" if "gather_infos ca cfg check ms c = (x, d)" for c x d
    using Cons.IH [of c] that by simp
  then show ?case by (auto simp: Let_def split: prod.splits sum.splits)
qed simp

lemma candidates_mset:
  assumes "candidates ca cfg am ap check c = (cands, c1)"
  shows "mset cands = filter_mset (slot_ok am ap) (mset (fst (gather_infos ca cfg check cfg c)))"
  using assms length_gather [of ca cfg check cfg c]
    partition_loop_mset [of 0 "length cfg" "fst (gather_infos ca cfg check cfg c)" "slot_ok am ap"]
  by (auto simp: candidates_def split: prod.splits if_splits)

text \<open>The cache only holds entries under their own number, so \<open>GetInfo\<close> answers about the miner
  it was asked for.\<close>

definition cache_ok :: "info_cache \<Rightarrow> bool" where
  "cache_ok c = (\<forall>mid mi. c mid = Some mi \<longrightarrow> min_ID mi = mid)"

lemma GetInfoD:
  assumes "GetInfo ca cfg mid c = (r, c1)" "cache_ok c"
  shows "cache_ok c1 \<and> (\<forall>mi. r = Inr mi \<longrightarrow> min_ID mi = mid)"
  using assms
  by (auto simp: GetInfo_def fetch_info_def cache_ok_def Let_def
      split: option.splits sum.splits prod.splits if_splits)

lemma gather_infosD:
  assumes "gather_infos ca cfg check ms c = (slots, c1)" "cache_ok c"
  shows "cache_ok c1 \<and> (\<forall>cand. Some cand \<in> set slots \<longrightarrow>
    (\<exists>m \<in> set ms. check m \<and> min_ID (ca_info cand) = mc_Actor m \<and> ca_cfg cand = mc_Sector m))"
  using assms
proof (induction ms arbitrary: c slots c1)
  case (Cons m ms)
  obtain slot c2 where sl: "(if \<not> check m then (None, c)
      else (case GetInfo ca cfg (mc_Actor m) c of (Inl e, c1) \<Rightarrow> (None, c1)
        | (Inr mi, c1) \<Rightarrow> (Some \<lparr>ca_info = mi, ca_cfg = mc_Sector m\<rparr>, c1))) = (slot, c2)"
    by fastforce
  obtain slots' c3 where g: "gather_infos ca cfg check ms c2 = (slots', c3)" by fastforce
  have eq: "slots = slot # slots'" "c1 = c3" using Cons.prems(1) sl g by (auto simp: Let_def)
  obtain r c4 where gi: "GetInfo ca cfg (mc_Actor m) c = (r, c4)" by fastforce
  have "cache_ok c2 \<and> (\<forall>cand. slot = Some cand \<longrightarrow>
      check m \<and> min_ID (ca_info cand) = mc_Actor m \<and> ca_cfg cand = mc_Sector m)"
    using sl GetInfoD [OF gi Cons.prems(2)] Cons.prems(2) gi
    by (auto split: if_splits sum.splits)
  with Cons.IH [OF g] eq show ?case by auto
qed simp

lemma candidatesD:
  assumes "candidates ca cfg am ap check c = (cands, c1)" "cache_ok c" "slot \<in> set cands"
  shows "\<exists>cand m. slot = Some cand \<and> m \<in> set cfg \<and> check m \<and>
    min_ID (ca_info cand) = mc_Actor m \<and> ca_cfg cand = mc_Sector m \<and> slot_ok am ap slot"
proof -
  obtain slots c2 where g: "gather_infos ca cfg check cfg c = (slots, c2)" by fastforce
  have "slot \<in># filter_mset (slot_ok am ap) (mset slots)"
    using candidates_mset [OF assms(1)] g assms(3) by (metis fst_conv set_mset_mset)
  then show ?thesis using gather_infosD [OF g assms(2)]
    by (auto simp: slot_ok_def split: option.splits)
qed


section \<open>Lemmas on counters\<close>

text \<open>The last number given out for a miner, as the store records it.\<close>

definition counter :: "num_store \<Rightarrow> u64 \<Rightarrow> u64" where
  "counter s mid = (case map_of (kv_data s) (number_key mid) of
     None \<Rightarrow> 0 | Some d \<Rightarrow> (case decode_number d of Inl _ \<Rightarrow> 0 | Inr c \<Rightarrow> c))"

definition from_number :: "num_store \<Rightarrow> u64 \<Rightarrow> u64 \<Rightarrow> u64" where
  "from_number s mid minNum = max (counter s mid) minNum"

lemma number_key_inject [simp]: "number_key a = number_key b \<longleftrightarrow> a = b"
  by (simp add: number_key_def)

lemma counter_put:
  "kv_data s1 = put_entry (number_key mid) (put_uvarint x) (kv_data s) \<Longrightarrow>
   counter s1 = (counter s)(mid := x)"
  by (auto simp: counter_def fun_eq_iff)

lemma counter_cong: "kv_data s1 = kv_data s \<Longrightarrow> counter s1 = counter s"
  by (simp add: counter_def fun_eq_iff)

lemma NextND:
  assumes "NextN mid n mn chk s = (r, s1)"
  shows "(\<exists>e. r = Inl e \<and> kv_data s1 = kv_data s) \<or>
    (r = Inr (from_number s mid mn + ucast n, False) \<and> \<not> chk (from_number s mid mn + ucast n) \<and>
       kv_data s1 = kv_data s) \<or>
    (r = Inr (from_number s mid mn + ucast n, True) \<and> chk (from_number s mid mn + ucast n) \<and>
       counter s1 = (counter s)(mid := from_number s mid mn + ucast n))"
proof -
  obtain q t where p: "kv_Peek (number_key mid) decode_number s = (q, t)" by fastforce
  have base: "(if c < mn then mn else c) = max c mn" for c :: u64 by auto
  note P = kv_PeekD [OF decoder_decode_number p]
  then have t: "kv_data t = kv_data s" by simp
  consider (cur) c where "c = counter s mid" "q = Inr c \<or> c = 0 \<and> q = Inl ErrKeyNotFound"
    | (err) e where "q = Inl e" "e \<noteq> ErrKeyNotFound"
  proof (cases q)
    case (Inl e)
    with P decode_number_err have "e \<noteq> ErrKeyNotFound \<or> map_of (kv_data s) (number_key mid) = None"
      by (metis Inl_inject io_errD(1))
    with Inl that show ?thesis by (cases "e = ErrKeyNotFound") (auto simp: counter_def)
  next
    case (Inr c)
    with P obtain v where "map_of (kv_data s) (number_key mid) = Some v" "decode_number v = Inr c"
      by (metis Inr_Inl_False)
    with Inr that(1) show ?thesis by (simp add: counter_def)
  qed
  then show ?thesis
  proof cases
    case (cur c)
    let ?nx = "from_number s mid mn + ucast n"
    from assms p cur have run: "(if \<not> chk ?nx then (Inr (?nx, False), t)
        else (case kv_Put (number_key mid) (put_uvarint ?nx) t of
          (Inl e, s2) \<Rightarrow> (Inl (Wrap ''write next seq number'' e), s2)
        | (Inr _, s2) \<Rightarrow> (Inr (?nx, True), s2))) = (r, s1)"
      unfolding from_number_def NextN_def Let_def base cur(1) [symmetric] by auto
    obtain u w where w: "kv_Put (number_key mid) (put_uvarint ?nx) t = (u, w)" by fastforce
    from kv_PutD [OF w] run w t counter_put [of w mid ?nx s] show ?thesis
      by (auto split: if_splits)
  next
    case err
    with assms p t show ?thesis by (auto simp: NextN_def)
  qed
qed

definition numbers :: "allocated_sector list \<Rightarrow> nat list" where
  "numbers secs = map (\<lambda>a. unat (sid_Number (as_ID a))) secs"

lemma length_number_run [simp]: "length (number_run mid pt x k) = k"
  by (induction k arbitrary: x) auto

lemma number_run_miner: "a \<in> set (number_run mid pt x k) \<Longrightarrow>
    sid_Miner (as_ID a) = mid \<and> as_ProofType a = pt"
  by (induction k arbitrary: x) auto

lemma number_run_numbers:
  "unat x + k \<le> 2 ^ 64 \<Longrightarrow> numbers (number_run mid pt x k) = [unat x ..< unat x + k]"
proof (induction k arbitrary: x)
  case (Suc k)
  show ?case
  proof (cases "k = 0")
    case False
    then have "unat (x + 1) = unat x + 1"
      using Suc.prems by (subst unat_add_lem [THEN iffD1]) auto
    with Suc.IH [of "x + 1"] Suc.prems show ?thesis
      by (simp add: numbers_def upt_conv_Cons)
  qed (simp add: numbers_def upt_rec)
qed (simp add: numbers_def)


text \<open>The outcome of the selection loop, for any way the random index is drawn.\<close>

definition picks :: "(nat \<Rightarrow> nat) \<Rightarrow> bool" where
  "picks pick = (\<forall>n > 0. pick n < n)"

definition taken :: "u32 \<Rightarrow> candidate \<Rightarrow> num_store \<Rightarrow> u64" where
  "taken cnt sel s = from_number s (min_ID (ca_info sel)) (minNumber (ca_cfg sel)) + ucast cnt"

lemma swap_last_subset:
  "cands \<noteq> [] \<Longrightarrow> i < length cands \<Longrightarrow> set (butlast (swap (length cands - 1) i cands)) \<subseteq> set cands"
  by (auto simp: swap_def dest!: in_set_butlastD
      dest: subsetD [OF set_update_subset_insert])

lemma allocate_loopD:
  assumes "allocate_loop pick cnt cands s = (r, s1)" "picks pick" "None \<notin> set cands"
  shows "((\<exists>e. r = Inl e) \<or> r = Inr None) \<and> kv_data s1 = kv_data s \<or>
    (\<exists>sel. Some sel \<in> set cands \<and> number_check (ca_cfg sel) (taken cnt sel s) \<and>
       r = Inr (Some (number_run (min_ID (ca_info sel)) (min_SealProofType (ca_info sel))
              (taken cnt sel s - ucast cnt + 1) (unat cnt))) \<and>
       counter s1 = (counter s)(min_ID (ca_info sel) := taken cnt sel s))"
  using assms
proof (induction pick cnt cands s arbitrary: r s1 rule: allocate_loop.induct)
  case (1 pick cnt cands s)
  show ?case
  proof (cases "cands = []")
    case True
    with "1.prems"(1) show ?thesis by (simp add: allocate_loop.simps)
  next
    case ne: False
    let ?i = "pick (length cands)"
    have i: "?i < length cands" using "1.prems"(2) ne by (simp add: picks_def)
    then have mem: "cands ! ?i \<in> set cands" by simp
    then obtain sel where sel: "cands ! ?i = Some sel" using "1.prems"(3) by (metis option.exhaust)
    obtain q t where nx: "NextN (min_ID (ca_info sel)) cnt (minNumber (ca_cfg sel))
        (number_check (ca_cfg sel)) s = (q, t)" by fastforce
    let ?rest = "butlast (swap (length cands - 1) ?i cands)"
    from NextND [OF nx, folded taken_def] consider
        (err) e where "q = Inl e" "kv_data t = kv_data s"
      | (full) "q = Inr (taken cnt sel s, False)" "kv_data t = kv_data s"
      | (ok) "q = Inr (taken cnt sel s, True)" "number_check (ca_cfg sel) (taken cnt sel s)"
          "counter t = (counter s)(min_ID (ca_info sel) := taken cnt sel s)" by auto
    then show ?thesis
    proof cases
      case err
      with "1.prems"(1) ne sel nx show ?thesis
        by (subst (asm) allocate_loop.simps) (auto simp: Let_def)
    next
      case full
      have run: "allocate_loop pick cnt ?rest t = (r, s1)"
        using "1.prems"(1) ne sel nx full by (subst (asm) (1) allocate_loop.simps) (auto simp: Let_def)
      have sub: "set ?rest \<subseteq> set cands" using swap_last_subset [OF ne i] .
      have "None \<notin> set ?rest" using sub "1.prems"(3) by blast
      from "1.IH" [OF ne refl sel nx [symmetric] full(1) refl _ run "1.prems"(2) this] full(2) sub
      show ?thesis by (auto simp: taken_def from_number_def counter_cong [of t s])
    next
      case ok
      with "1.prems"(1) ne sel nx mem show ?thesis
        by (subst (asm) allocate_loop.simps) (auto simp: Let_def)
    qed
  qed
qed


lemma candidates_no_nil:
  assumes "candidates ca cfg am ap check c = (cands, c1)"
  shows "None \<notin> set cands"
proof
  assume "None \<in> set cands"
  then have "None \<in># filter_mset (slot_ok am ap) (mset (fst (gather_infos ca cfg check cfg c)))"
    using candidates_mset [OF assms] by (metis set_mset_mset)
  then show False by (simp add: slot_ok_def)
qed

lemma candidates_cache:
  "candidates ca cfg am ap check c = (cands, c1) \<Longrightarrow> cache_ok c \<Longrightarrow> cache_ok c1"
  by (auto simp: candidates_def split: prod.splits if_splits dest: gather_infosD)

text \<open>No configured counter is so close to the end of the 64-bit range that \<open>cnt\<close> more numbers
  wrap around.\<close>

definition no_overflow :: "safe_config \<Rightarrow> u32 \<Rightarrow> num_store \<Rightarrow> bool" where
  "no_overflow cfg cnt s = (\<forall>m \<in> set cfg.
     unat (from_number s (mc_Actor m) (minNumber (mc_Sector m))) + unat cnt < 2 ^ 64)"

lemma unat_ucast_u32: "unat (ucast (n :: u32) :: u64) = unat n"
proof -
  have "unat n < 2 ^ 32" using unsigned_less [of n] by simp
  then show ?thesis by (simp add: unsigned_ucast_eq take_bit_nat_eq_self)
qed

lemma AllocateD:
  assumes run: "Allocate ca cfg pick spec cnt st = (r, st1)"
    and "picks pick" "cache_ok (al_cache st)" "no_overflow cfg cnt (al_numbers st)"
  shows "cache_ok (al_cache st1) \<and>
    (((\<exists>e. r = Inl e) \<or> r = Inr None) \<and> counter (al_numbers st1) = counter (al_numbers st) \<or>
     (\<exists>m secs pt base. r = Inr (Some secs) \<and> m \<in> set cfg \<and> msc_Enabled (mc_Sector m) \<and>
        base = from_number (al_numbers st) (mc_Actor m) (minNumber (mc_Sector m)) \<and>
        unat base + unat cnt < 2 ^ 64 \<and> number_check (mc_Sector m) (base + ucast cnt) \<and>
        secs = number_run (mc_Actor m) pt (base + 1) (unat cnt) \<and>
        (spec_AllowedMiners spec \<noteq> [] \<longrightarrow> mc_Actor m \<in> set (spec_AllowedMiners spec)) \<and>
        (spec_AllowedProofTypes spec \<noteq> [] \<longrightarrow> pt \<in> set (spec_AllowedProofTypes spec)) \<and>
        counter (al_numbers st1) = (counter (al_numbers st))(mc_Actor m := base + ucast cnt)))"
proof (cases "cnt = 0")
  case True
  with run assms(3) show ?thesis by (auto simp: Allocate_def)
next
  case False
  obtain cands c1 where c: "candidates ca cfg (spec_AllowedMiners spec) (spec_AllowedProofTypes spec)
      (\<lambda>m. msc_Enabled (mc_Sector m)) (al_cache st) = (cands, c1)" by fastforce
  obtain q s1 where l: "allocate_loop pick cnt cands (al_numbers st) = (q, s1)" by fastforce
  have eq: "r = q" "al_numbers st1 = s1" "al_cache st1 = c1"
    using run False c l by (auto simp: Allocate_def)
  note ok = candidates_cache [OF c assms(3)]
  from allocate_loopD [OF l assms(2) candidates_no_nil [OF c]] show ?thesis
  proof (elim disjE exE conjE)
    fix sel
    let ?s = "al_numbers st"
    assume sel: "Some sel \<in> set cands" "number_check (ca_cfg sel) (taken cnt sel ?s)"
      "q = Inr (Some (number_run (min_ID (ca_info sel)) (min_SealProofType (ca_info sel))
         (taken cnt sel ?s - ucast cnt + 1) (unat cnt)))"
      "counter s1 = (counter ?s)(min_ID (ca_info sel) := taken cnt sel ?s)"
    from candidatesD [OF c assms(3) sel(1)] obtain m where
      m: "m \<in> set cfg" "msc_Enabled (mc_Sector m)" "min_ID (ca_info sel) = mc_Actor m"
        "ca_cfg sel = mc_Sector m" and
      a: "slot_ok (spec_AllowedMiners spec) (spec_AllowedProofTypes spec) (Some sel)" by auto
    let ?b = "from_number ?s (mc_Actor m) (minNumber (mc_Sector m))"
    have t: "taken cnt sel ?s = ?b + ucast cnt" by (simp add: taken_def m)
    have "unat ?b + unat cnt < 2 ^ 64" using assms(4) m(1) by (simp add: no_overflow_def)
    with sel m t a ok show ?thesis unfolding eq
      by (intro conjI disjI2 exI [of _ m] exI [of _ "min_SealProofType (ca_info sel)"]
          exI [of _ ?b] exI)
        (auto simp: slot_ok_def list_ex_iff)
  qed (use eq ok counter_cong [of s1 "al_numbers st"] in auto)
qed


lemma Allocate_SomeE:
  assumes "Allocate ca cfg pick spec cnt st = (Inr (Some secs), st1)"
    and "picks pick" "cache_ok (al_cache st)" "no_overflow cfg cnt (al_numbers st)"
  obtains m pt base where "m \<in> set cfg" "msc_Enabled (mc_Sector m)"
    "base = from_number (al_numbers st) (mc_Actor m) (minNumber (mc_Sector m))"
    "unat base + unat cnt < 2 ^ 64" "number_check (mc_Sector m) (base + ucast cnt)"
    "secs = number_run (mc_Actor m) pt (base + 1) (unat cnt)"
    "spec_AllowedMiners spec \<noteq> [] \<longrightarrow> mc_Actor m \<in> set (spec_AllowedMiners spec)"
    "counter (al_numbers st1) = (counter (al_numbers st))(mc_Actor m := base + ucast cnt)"
  using AllocateD [OF assms]
proof (elim conjE disjE exE, goal_cases)
  case (3 m secs' pt base)
  then show ?case by (intro that [of m base pt]) simp_all
qed simp_all

section \<open>Histories of allocations\<close>

text \<open>The sector identifiers handed out by a sequence of calls, whatever the requests, the chain's
  answers, the random choices and the configuration in force at each call.\<close>

inductive issued :: "alloc_state \<Rightarrow> sector_id list \<Rightarrow> bool" where
  issued_init: "cache_ok (al_cache st) \<Longrightarrow> issued st []"
| issued_call: "issued st ids \<Longrightarrow> Allocate ca cfg pick spec cnt st = (r, st1) \<Longrightarrow> picks pick \<Longrightarrow>
    no_overflow cfg cnt (al_numbers st) \<Longrightarrow>
    issued st1 (ids @ (case r of Inr (Some secs) \<Rightarrow> map as_ID secs | _ \<Rightarrow> []))"

lemma number_run_ids:
  assumes "unat base + k < 2 ^ 64"
  shows "distinct (map as_ID (number_run mid pt (base + 1) k)) \<and>
    (\<forall>i \<in> as_ID ` set (number_run mid pt (base + 1) k).
       sid_Miner i = mid \<and> base < sid_Number i \<and> unat (sid_Number i) \<le> unat base + k)"
proof (cases "k = 0")
  case False
  then have one: "unat (base + 1) = unat base + 1"
    using assms by (subst unat_add_lem [THEN iffD1]) auto
  let ?run = "number_run mid pt (base + 1) k"
  have n: "numbers ?run = [unat base + 1 ..< unat base + 1 + k]"
    using number_run_numbers [of "base + 1" k mid pt] assms one by simp
  have "distinct (map (\<lambda>i. unat (sid_Number i)) (map as_ID ?run))"
    using n by (simp add: numbers_def o_def)
  then have "distinct (map as_ID ?run)" by (rule distinct_map [THEN iffD1, THEN conjunct1])
  moreover have "base < sid_Number (as_ID a) \<and> unat (sid_Number (as_ID a)) \<le> unat base + k"
    if "a \<in> set ?run" for a
  proof -
    have "unat (sid_Number (as_ID a)) \<in> set (numbers ?run)" using that by (auto simp: numbers_def)
    then show ?thesis unfolding n word_less_nat_alt by (simp only: set_upt) auto
  qed
  ultimately show ?thesis using number_run_miner by fast
qed simp

lemma issued_inv:
  assumes "issued st ids"
  shows "cache_ok (al_cache st) \<and> distinct ids \<and>
    (\<forall>i \<in> set ids. sid_Number i \<le> counter (al_numbers st) (sid_Miner i))"
  using assms
proof (induction rule: issued.induct)
  case (issued_call st ids ca cfg pick spec cnt r st1)
  have cache: "cache_ok (al_cache st)" using issued_call.IH by simp
  note D = AllocateD [OF issued_call.hyps(2,3) cache issued_call.hyps(4)]
  have old: "\<forall>i \<in> set ids. sid_Number i \<le> counter (al_numbers st) (sid_Miner i)" "distinct ids"
    using issued_call.IH by simp_all
  show ?case
  proof (cases "\<exists>secs. r = Inr (Some secs)")
    case False
    then show ?thesis using D old by (auto split: sum.splits option.splits)
  next
    case True
    then obtain secs where r1: "r = Inr (Some secs)" by auto
    obtain m :: miner_config and pt base where
      r2: "secs = number_run (mc_Actor m) pt (base + 1) (unat cnt)" and
      base: "unat base + unat cnt < 2 ^ 64" and
      b: "base = from_number (al_numbers st) (mc_Actor m) (minNumber (mc_Sector m))" and
      cnt: "counter (al_numbers st1) = (counter (al_numbers st))(mc_Actor m := base + ucast cnt)"
      by (rule Allocate_SomeE [OF issued_call.hyps(2) [unfolded r1] issued_call.hyps(3) cache
            issued_call.hyps(4)], rule that, assumption+)
    note r = r1 r2
    have ge: "counter (al_numbers st) (mc_Actor m) \<le> base" unfolding b from_number_def by simp
    have sum: "unat (base + ucast cnt) = unat base + unat cnt"
      using base by (simp add: unat_ucast_u32 unat_add_lem [THEN iffD1])
    note run = number_run_ids [OF base, of "mc_Actor m" pt]
    have new: "i \<notin> set ids" if "i \<in> as_ID ` set secs" for i
    proof
      assume "i \<in> set ids"
      then have "sid_Number i \<le> counter (al_numbers st) (sid_Miner i)" using old by blast
      moreover have "sid_Miner i = mc_Actor m" "base < sid_Number i" using that run unfolding r(2) by blast+
      ultimately show False using ge by simp
    qed
    have up: "counter (al_numbers st) mid \<le> counter (al_numbers st1) mid" for mid
      using ge sum by (auto simp: cnt word_le_nat_alt)
    have "sid_Number i \<le> counter (al_numbers st1) (sid_Miner i)" if "i \<in> set ids \<union> as_ID ` set secs" for i
    proof (cases "i \<in> set ids")
      case True
      with old(1) up show ?thesis by (blast intro: order_trans)
    next
      case False
      with that have "i \<in> as_ID ` set secs" by simp
      then have "sid_Miner i = mc_Actor m" "unat (sid_Number i) \<le> unat base + unat cnt"
        using run unfolding r(2) by blast+
      then show ?thesis by (simp add: cnt word_le_nat_alt sum)
    qed
    moreover have "distinct (map as_ID secs)" using run unfolding r(2) by blast
    then have "distinct (ids @ map as_ID secs)" using old(2) new unfolding distinct_append set_map by blast
    ultimately show ?thesis using D unfolding r1 by simp
  qed
qed simp

text \<open>A miner and a chain to run the operations on.\<close>

definition demo_chain :: miner_chain where
  "demo_chain = \<lparr>mca_NewIDAddress = (\<lambda>i. Inr (IDAddress i)),
     mca_StateMinerInfo = (\<lambda>a. Inr (2048, 0)), mca_StateNetworkVersion = Inr 22,
     mca_SealProofType = (\<lambda>sz nv synth. Inr 5)\<rparr>"

definition demo_cfg :: safe_config where
  "demo_cfg = [(DefaultMinerConfig Undef False)\<lparr>mc_Actor := 1000\<rparr>]"

definition demo_spec :: allocate_spec where
  "demo_spec = \<lparr>spec_AllowedMiners = [], spec_AllowedProofTypes = []\<rparr>"

definition demo_alloc :: alloc_state where
  "demo_alloc = \<lparr>al_numbers = empty_store, al_cache = Map.empty\<rparr>"

lemmas demo_alloc_defs = demo_chain_def demo_cfg_def demo_spec_def demo_alloc_def empty_store_def
  DefaultMinerConfig_def defaultMinerSectorConfig_def defaultMinerSealingConfig_def

lemma demo_allocate:
  "fst (Allocate demo_chain demo_cfg (\<lambda>_. 0) demo_spec 3 demo_alloc) =
   Inr (Some (number_run 1000 5 1 3))"
  by (simp add: Allocate_def demo_alloc_defs candidates_def partition_loop.simps
      allocate_loop.simps GetInfo_def fetch_info_def slot_ok_def NextN_def Let_def minNumber_def
      number_check_def)

lemma demo_alloc_ok:
  "picks (\<lambda>_. 0)" "cache_ok (al_cache demo_alloc)"
  "no_overflow demo_cfg 3 (al_numbers demo_alloc)"
  by (simp_all add: picks_def cache_ok_def no_overflow_def from_number_def counter_def minNumber_def
      demo_alloc_defs)

section \<open>Properties\<close>

text \<open>The persistent counter survives its encoding: the variable-length bytes written for any
  64-bit number decode to that number, consuming exactly the bytes written.\<close>

theorem uvarint_roundtrip:
  "uvarint (put_uvarint x) = (x, int (length (put_uvarint x))) \<and> decode_number (put_uvarint x) = Inr x"
  by simp

text \<open>C36. The in-place partition of the miner selector keeps exactly the miners that are enabled,
  could be queried and are allowed by the request: nothing is lost, duplicated or let through.\<close>

theorem candidates_filter:
  assumes "candidates ca cfg am ap check c = (cands, c1)"
  shows "mset cands = mset (filter (slot_ok am ap) (fst (gather_infos ca cfg check cfg c))) \<and>
    None \<notin> set cands"
  using candidates_mset [OF assms] candidates_no_nil [OF assms] by simp

theorem candidates_filter_witness:
  "mset (fst (candidates demo_chain demo_cfg [] [] (\<lambda>m. True) Map.empty)) =
   mset (filter (slot_ok [] []) (fst (gather_infos demo_chain demo_cfg (\<lambda>m. True) demo_cfg Map.empty)))"
  using candidates_filter [of demo_chain demo_cfg "[]" "[]" "\<lambda>m. True" Map.empty
    "fst (candidates demo_chain demo_cfg [] [] (\<lambda>m. True) Map.empty)"
    "snd (candidates demo_chain demo_cfg [] [] (\<lambda>m. True) Map.empty)"] by simp

text \<open>C28. An allocation hands out as many sectors as were asked for, all of one enabled and
  allowed miner, with consecutive numbers that start right after the larger of the miner's counter
  and its configured minimum and do not pass the configured maximum; it moves that miner's counter
  to the last number and no other miner's. (The counter, of 64 bits, is taken not to run over its end.)\<close>

theorem Allocate_numbers:
  assumes "Allocate ca cfg pick spec cnt st = (Inr (Some secs), st1)"
    and "picks pick" "cache_ok (al_cache st)" "no_overflow cfg cnt (al_numbers st)"
  shows "\<exists>m \<in> set cfg. msc_Enabled (mc_Sector m) \<and>
    (let base = unat (from_number (al_numbers st) (mc_Actor m) (minNumber (mc_Sector m))) in
       numbers secs = [base + 1 ..< base + 1 + unat cnt] \<and>
       (\<forall>a \<in> set secs. sid_Miner (as_ID a) = mc_Actor m) \<and>
       (spec_AllowedMiners spec \<noteq> [] \<longrightarrow> mc_Actor m \<in> set (spec_AllowedMiners spec)) \<and>
       (\<forall>mx. msc_MaxNumber (mc_Sector m) = Some mx \<longrightarrow> base + unat cnt \<le> unat mx) \<and>
       unat (counter (al_numbers st1) (mc_Actor m)) = base + unat cnt \<and>
       (\<forall>mid. mid \<noteq> mc_Actor m \<longrightarrow> counter (al_numbers st1) mid = counter (al_numbers st) mid))"
proof -
  from Allocate_SomeE [OF assms] obtain m pt base where
    m: "m \<in> set cfg" "msc_Enabled (mc_Sector m)"
      "spec_AllowedMiners spec \<noteq> [] \<longrightarrow> mc_Actor m \<in> set (spec_AllowedMiners spec)" and
    base: "base = from_number (al_numbers st) (mc_Actor m) (minNumber (mc_Sector m))" and
    b: "unat base + unat cnt < 2 ^ 64" "number_check (mc_Sector m) (base + ucast cnt)"
      "secs = number_run (mc_Actor m) pt (base + 1) (unat cnt)" and
    cnt: "counter (al_numbers st1) = (counter (al_numbers st))(mc_Actor m := base + ucast cnt)"
    by metis
  have sum: "unat (base + ucast cnt) = unat base + unat cnt"
    using b(1) by (simp add: unat_ucast_u32 unat_add_lem [THEN iffD1])
  have "cnt \<noteq> 0" using assms(1) by (auto simp: Allocate_def)
  then have "0 < unat cnt" by (simp add: unat_gt_0)
  then have one: "unat (base + 1) = unat base + 1"
    using b(1) by (subst unat_add_lem [THEN iffD1]) auto
  have "numbers secs = [unat base + 1 ..< unat base + 1 + unat cnt]"
    using number_run_numbers [of "base + 1" "unat cnt"] b(1,3) one by simp
  moreover have "\<forall>a \<in> set secs. sid_Miner (as_ID a) = mc_Actor m"
    using b(3) number_run_miner by blast
  moreover have "unat base + unat cnt \<le> unat mx" if "msc_MaxNumber (mc_Sector m) = Some mx" for mx
    using b(2) that sum by (simp add: number_check_def word_le_nat_alt)
  ultimately show ?thesis using m cnt sum
    by (intro bexI [of _ m]) (auto simp: Let_def base [symmetric])
qed


theorem Allocate_numbers_witness:
  "numbers (number_run 1000 5 1 3) = [1, 2, 3]"
proof -
  obtain st1 where "Allocate demo_chain demo_cfg (\<lambda>_. 0) demo_spec 3 demo_alloc =
      (Inr (Some (number_run 1000 5 1 3)), st1)"
    using demo_allocate by (metis prod.collapse)
  from Allocate_numbers [OF this demo_alloc_ok] show ?thesis
    by (auto simp: Let_def demo_alloc_defs from_number_def counter_def minNumber_def upt_rec)
qed

text \<open>C1. No sector identifier is ever handed out twice, over any sequence of allocations that does not
  run a miner's 64-bit counter over its end.\<close>

theorem issued_distinct:
  assumes "issued st ids"
  shows "distinct ids"
  using issued_inv [OF assms] by simp


theorem issued_distinct_witness:
  "distinct (map as_ID (number_run 1000 5 1 3))"
proof -
  obtain st1 where run: "Allocate demo_chain demo_cfg (\<lambda>_. 0) demo_spec 3 demo_alloc =
      (Inr (Some (number_run 1000 5 1 3)), st1)"
    using demo_allocate by (metis prod.collapse)
  from issued_distinct [OF issued_call [OF issued_init [OF demo_alloc_ok(2)] run demo_alloc_ok(1,3)]]
  show ?thesis by simp
qed

end
