(* ===== verification/Sector_Rebuild.thy ===== *)
theory Sector_Rebuild
  imports Document_Store Sector_Allocation
begin

text \<open>
  The rebuild manager (\<open>modules/impl/sectors/rebuild.go\<close>): a queue of sectors to rebuild, kept as
  one document with an entry per miner; \<open>Set\<close> adds a sector, \<open>Allocate\<close> takes one out for a worker.
  The abstract view is the map of pending sectors.
\<close>

section \<open>The document\<close>

record rebuild_info =
  rb_Sector :: allocated_sector
  rb_Ticket :: ticket
  rb_Pieces :: "legacy_deal_info list"
  rb_PiecesV2 :: "sector_piece_v2 list"
  rb_IsSnapUp :: bool
  rb_UpgradePublic :: "sector_public_info option"

record rebuild_actor =
  ra_Actor :: u64
  ra_Infos :: "(u64 \<times> rebuild_info) list"

type_synonym rebuild_infos = "rebuild_actor list"

definition rebuildInfoKey :: key where
  "rebuildInfoKey = ''rebuild-infos''"

definition rebuild_loadAndUpdate ::
  "(rebuild_infos \<Rightarrow> ('a \<times> rebuild_infos option) res) \<Rightarrow> (rebuild_infos json kvs, 'a) step" where
  "rebuild_loadAndUpdate = doc_loadAndUpdate ''rebuild infos'' rebuildInfoKey []"

section \<open>Operations\<close>

fun set_info :: "sector_id \<Rightarrow> rebuild_info \<Rightarrow> rebuild_infos \<Rightarrow> rebuild_infos" where
  "set_info sid info [] = [\<lparr>ra_Actor = sid_Miner sid, ra_Infos = [(sid_Number sid, info)]\<rparr>]"
| "set_info sid info (a # as) = (if ra_Actor a = sid_Miner sid
     then a\<lparr>ra_Infos := put_entry (sid_Number sid) info (ra_Infos a)\<rparr> # as
     else a # set_info sid info as)"

definition rebuild_Set :: "sector_id \<Rightarrow> rebuild_info \<Rightarrow> (rebuild_infos json kvs, unit) step" where
  "rebuild_Set sid info kv =
    (case rebuild_loadAndUpdate (\<lambda>d. Inr ((), Some (set_info sid info d))) kv of
       (Inl e, kv1) \<Rightarrow> (Inl (Wrap ''add rebuild info'' e), kv1)
     | (Inr _, kv1) \<Rightarrow> (Inr (), kv1))"

text \<open>Iteration over a Go map starts anywhere: \<open>pick n\<close> is the position drawn among \<open>n\<close> entries.\<close>

fun take_info :: "(nat \<Rightarrow> nat) \<Rightarrow> u64 list \<Rightarrow> rebuild_infos \<Rightarrow> (rebuild_info \<times> rebuild_infos) option" where
  "take_info pick allowed [] = None"
| "take_info pick allowed (a # as) =
    (if ra_Actor a \<in> set allowed \<and> length (ra_Infos a) > 0 then
       (let (num, info) = ra_Infos a ! pick (length (ra_Infos a))
        in Some (info, a\<lparr>ra_Infos := del_entry num (ra_Infos a)\<rparr> # as))
     else (case take_info pick allowed as of
        None \<Rightarrow> None | Some (info, as') \<Rightarrow> Some (info, a # as')))"

record rebuild_state =
  rm_kv :: "rebuild_infos json kvs"
  rm_cache :: info_cache

definition cand_ids :: "candidate option list \<Rightarrow> u64 list" where
  "cand_ids cands = map (\<lambda>c. min_ID (ca_info (the c))) cands"

definition rebuild_Allocate :: "miner_chain \<Rightarrow> safe_config \<Rightarrow> (nat \<Rightarrow> nat) \<Rightarrow> allocate_spec \<Rightarrow>
    (rebuild_state, rebuild_info option) step" where
  "rebuild_Allocate ca cfg pick spec s =
    (case candidates ca cfg (spec_AllowedMiners spec) (spec_AllowedProofTypes spec) (\<lambda>m. True) (rm_cache s) of
       (cands, c1) \<Rightarrow>
         (if length cands = 0 then (Inr None, s\<lparr>rm_cache := c1\<rparr>)
          else (case rebuild_loadAndUpdate (\<lambda>d. case take_info pick (cand_ids cands) d of
                   None \<Rightarrow> Inr (None, None)
                 | Some (info, d') \<Rightarrow> Inr (Some info, Some d')) (rm_kv s) of
             (Inl e, kv1) \<Rightarrow> (Inl (Wrap ''allocate rebuid info'' e), s\<lparr>rm_kv := kv1, rm_cache := c1\<rparr>)
           | (Inr r, kv1) \<Rightarrow> (Inr r, s\<lparr>rm_kv := kv1, rm_cache := c1\<rparr>))))"

section \<open>Pending sectors\<close>

text \<open>The abstract specification: the sectors waiting for a rebuild.\<close>

definition infos_pending :: "rebuild_infos \<Rightarrow> sector_id \<Rightarrow> rebuild_info option" where
  "infos_pending d sid = (case find (\<lambda>a. ra_Actor a = sid_Miner sid) d of
     None \<Rightarrow> None | Some a \<Rightarrow> map_of (ra_Infos a) (sid_Number sid))"

definition rebuild_pending :: "rebuild_infos json kvs \<Rightarrow> sector_id \<Rightarrow> rebuild_info option" where
  "rebuild_pending kv = infos_pending (document rebuildInfoKey [] kv)"

definition infos_wf :: "rebuild_infos \<Rightarrow> bool" where
  "infos_wf d = (distinct (map ra_Actor d) \<and> (\<forall>a \<in> set d. ordered_entries (ra_Infos a)))"

definition rebuild_wf :: "rebuild_infos json kvs \<Rightarrow> bool" where
  "rebuild_wf kv = infos_wf (document rebuildInfoKey [] kv)"

interpretation rdoc: document_owner rebuild_loadAndUpdate "document rebuildInfoKey []"
  unfolding rebuild_loadAndUpdate_def by (rule one_doc.document_owner_axioms)

lemma infos_pending_simps [simp]:
  "infos_pending [] sid = None"
  "infos_pending (a # d) sid = (if ra_Actor a = sid_Miner sid then map_of (ra_Infos a) (sid_Number sid)
     else infos_pending d sid)"
  by (simp_all add: infos_pending_def)

lemma infos_wf_simps [simp]:
  "infos_wf []"
  "infos_wf (a # d) = (ra_Actor a \<notin> ra_Actor ` set d \<and> ordered_entries (ra_Infos a) \<and> infos_wf d)"
  by (auto simp: infos_wf_def)

lemma sector_id_eq_iff: "a = b \<longleftrightarrow> sid_Miner a = sid_Miner b \<and> sid_Number a = sid_Number b"
  for a b :: sector_id
  by (cases a; cases b) simp

lemma set_info_pending: "infos_pending (set_info sid info d) = (infos_pending d)(sid \<mapsto> info)"
  by (induction d) (auto simp: fun_eq_iff sector_id_eq_iff)

lemma actors_set_info: "ra_Actor ` set (set_info sid info d) = insert (sid_Miner sid) (ra_Actor ` set d)"
  by (induction d) auto

lemma set_info_wf: "infos_wf d \<Longrightarrow> infos_wf (set_info sid info d)"
  by (induction d) (auto simp: actors_set_info)

lemma infos_pending_actor: "infos_pending d sid = Some info \<Longrightarrow> sid_Miner sid \<in> ra_Actor ` set d"
  by (induction d) (auto split: if_splits)

lemma take_info_SomeD:
  assumes "take_info pick allowed d = Some (info, d')" "picks pick" "infos_wf d"
  shows "infos_wf d' \<and> ra_Actor ` set d' = ra_Actor ` set d \<and>
    (\<exists>sid. sid_Miner sid \<in> set allowed \<and> infos_pending d sid = Some info \<and>
       infos_pending d' = (infos_pending d)(sid := None))"
  using assms
proof (induction d arbitrary: d')
  case (Cons a d)
  show ?case
  proof (cases "ra_Actor a \<in> set allowed \<and> length (ra_Infos a) > 0")
    case True
    obtain num where at: "ra_Infos a ! pick (length (ra_Infos a)) = (num, info)"
      and d': "d' = a\<lparr>ra_Infos := del_entry num (ra_Infos a)\<rparr> # d"
      using Cons.prems(1) True by (auto simp: Let_def split: prod.splits)
    have "(num, info) \<in> set (ra_Infos a)"
      using at True Cons.prems(2) by (metis nth_mem picks_def)
    then have lk: "map_of (ra_Infos a) num = Some info"
      using Cons.prems(3) by (simp add: map_of_eq_Some_ordered)
    let ?sid = "\<lparr>sid_Miner = ra_Actor a, sid_Number = num\<rparr>"
    have "infos_pending d' = (infos_pending (a # d))(?sid := None)"
      by (auto simp: d' fun_eq_iff sector_id_eq_iff)
    with lk True Cons.prems(3) show ?thesis
      by (intro conjI exI [of _ ?sid]) (auto simp: d')
  next
    case False
    with Cons.prems(1) obtain d2 where r: "take_info pick allowed d = Some (info, d2)" and d': "d' = a # d2"
      by (auto split: option.splits)
    have "infos_wf d" using Cons.prems(3) by simp
    from Cons.IH [OF r Cons.prems(2) this] obtain sid :: sector_id where
      sid: "sid_Miner sid \<in> set allowed" "infos_pending d sid = Some info"
        "infos_pending d2 = (infos_pending d)(sid := None)" and
      wf: "infos_wf d2" "ra_Actor ` set d2 = ra_Actor ` set d" by blast
    have "sid_Miner sid \<in> ra_Actor ` set d" using sid(2) by (rule infos_pending_actor)
    then have ne: "sid_Miner sid \<noteq> ra_Actor a" using Cons.prems(3) by auto
    with sid wf Cons.prems(3) show ?thesis
      by (intro conjI exI [of _ sid]) (auto simp: d' fun_eq_iff)
  qed
qed simp

lemma take_info_NoneD:
  assumes "take_info pick allowed d = None" "sid_Miner sid \<in> set allowed"
  shows "infos_pending d sid = None"
  using assms
  by (induction d) (auto simp: Let_def split: if_splits option.splits prod.splits)

lemma rebuild_SetD:
  assumes "rebuild_Set sid info kv = (r, kv1)"
  shows "(\<exists>e. r = Inl e \<and> rebuild_pending kv1 = rebuild_pending kv \<and> (rebuild_wf kv \<longrightarrow> rebuild_wf kv1)) \<or>
    r = Inr () \<and> rebuild_pending kv1 = (rebuild_pending kv)(sid \<mapsto> info) \<and>
      (rebuild_wf kv \<longrightarrow> rebuild_wf kv1)"
proof -
  obtain q t where q: "rebuild_loadAndUpdate (\<lambda>d. Inr ((), Some (set_info sid info d))) kv = (q, t)"
    by fastforce
  from rdoc.cycle_law [OF q] show ?thesis
    by (elim disjE exE conjE)
      (use assms q in \<open>auto simp: rebuild_Set_def rebuild_pending_def rebuild_wf_def
        set_info_pending set_info_wf\<close>)
qed

lemma rebuild_AllocateD:
  assumes run: "rebuild_Allocate ca cfg pick spec s = (r, s1)"
    and "picks pick" "rebuild_wf (rm_kv s)"
    and cands: "candidates ca cfg (spec_AllowedMiners spec) (spec_AllowedProofTypes spec)
      (\<lambda>m. True) (rm_cache s) = (cands, c1)"
  shows "rebuild_wf (rm_kv s1) \<and>
    ((\<exists>e. r = Inl e \<and> rebuild_pending (rm_kv s1) = rebuild_pending (rm_kv s)) \<or>
     (r = Inr None \<and> rebuild_pending (rm_kv s1) = rebuild_pending (rm_kv s) \<and>
        (\<forall>sid. sid_Miner sid \<in> set (cand_ids cands) \<longrightarrow> rebuild_pending (rm_kv s) sid = None)) \<or>
     (\<exists>sid info. r = Inr (Some info) \<and> sid_Miner sid \<in> set (cand_ids cands) \<and>
        rebuild_pending (rm_kv s) sid = Some info \<and>
        rebuild_pending (rm_kv s1) = (rebuild_pending (rm_kv s))(sid := None)))"
proof (cases "cands = []")
  case True
  with run cands assms(3) show ?thesis by (auto simp: rebuild_Allocate_def cand_ids_def)
next
  case False
  let ?f = "\<lambda>d. case take_info pick (cand_ids cands) d of
      None \<Rightarrow> Inr (None, None) | Some (info, d') \<Rightarrow> Inr (Some info, Some d')"
  let ?d = "document rebuildInfoKey [] (rm_kv s)"
  obtain q t where q: "rebuild_loadAndUpdate ?f (rm_kv s) = (q, t)" by fastforce
  have s1: "rm_kv s1 = t" and r: "r = (case q of Inl e \<Rightarrow> Inl (Wrap ''allocate rebuid info'' e) | Inr x \<Rightarrow> Inr x)"
    using run cands False q by (auto simp: rebuild_Allocate_def split: sum.splits)
  note law = rdoc.cycle_law [OF q]
  show ?thesis
  proof (cases "take_info pick (cand_ids cands) ?d")
    case None
    with law r s1 assms(3) take_info_NoneD [OF None] show ?thesis
      by (auto simp: rebuild_pending_def rebuild_wf_def split: sum.splits)
  next
    case (Some p)
    obtain info d' where p: "p = (info, d')" by fastforce
    from take_info_SomeD [OF Some [unfolded p] assms(2) assms(3) [unfolded rebuild_wf_def]]
    obtain sid where "infos_wf d'" "sid_Miner sid \<in> set (cand_ids cands)"
      "infos_pending ?d sid = Some info" "infos_pending d' = (infos_pending ?d)(sid := None)" by auto
    with law r s1 assms(3) Some p show ?thesis
      by (auto simp: rebuild_pending_def rebuild_wf_def split: sum.splits)
  qed
qed


section \<open>The queue as a contract\<close>

text \<open>A run of a queue: additions and takings in any order; the trace has what was added and what
  was taken, with the sectors the entries belonged to.\<close>

inductive queue_run :: "(sector_id \<Rightarrow> 'i \<Rightarrow> 's \<Rightarrow> unit res \<times> 's) \<Rightarrow> ('q \<Rightarrow> 's \<Rightarrow> 'i option res \<times> 's) \<Rightarrow>
    ('s \<Rightarrow> sector_id \<Rightarrow> 'i option) \<Rightarrow> 's \<Rightarrow> 's \<Rightarrow> (sector_id \<times> 'i) list \<Rightarrow> (sector_id \<times> 'i) list \<Rightarrow> bool"
  for add take_one pending s where
  run_refl: "queue_run add take_one pending s s [] []"
| run_add: "queue_run add take_one pending s s1 as ts \<Longrightarrow> add sid i s1 = (u, s2) \<Longrightarrow>
    queue_run add take_one pending s s2 (if u = Inr () then (sid, i) # as else as) ts"
| run_take: "queue_run add take_one pending s s1 as ts \<Longrightarrow> take_one q s1 = (Inr (Some i), s2) \<Longrightarrow>
    pending s1 sid = Some i \<Longrightarrow> pending s2 = (pending s1)(sid := None) \<Longrightarrow>
    queue_run add take_one pending s s2 as ((sid, i) # ts)"
| run_none: "queue_run add take_one pending s s1 as ts \<Longrightarrow> take_one q s1 = (r, s2) \<Longrightarrow>
    (\<forall>i. r \<noteq> Inr (Some i)) \<Longrightarrow> queue_run add take_one pending s s2 as ts"

definition times :: "sector_id \<Rightarrow> (sector_id \<times> 'i) list \<Rightarrow> nat" where
  "times sid xs = length (filter (\<lambda>p. fst p = sid) xs)"

lemma times_Cons [simp]: "times sid [] = 0" "times sid (p # xs) = (if fst p = sid then 1 else 0) + times sid xs"
  by (auto simp: times_def)

text \<open>What the sealing service relies on in a queue of tasks kept per sector: an added task is
  pending until it is taken, and a task is taken by one caller only.\<close>

locale task_queue =
  fixes add :: "sector_id \<Rightarrow> 'i \<Rightarrow> 's \<Rightarrow> unit res \<times> 's"
    and take_one :: "'q \<Rightarrow> 's \<Rightarrow> 'i option res \<times> 's"
    and pending :: "'s \<Rightarrow> sector_id \<Rightarrow> 'i option"
    and inv :: "'s \<Rightarrow> bool"
  assumes add_law: "add sid i s = (u, s1) \<Longrightarrow> inv s \<Longrightarrow> inv s1 \<and>
      (u = Inr () \<and> pending s1 = (pending s)(sid \<mapsto> i) \<or> (\<exists>e. u = Inl e) \<and> pending s1 = pending s)"
    and take_law: "take_one q s = (r, s1) \<Longrightarrow> inv s \<Longrightarrow> inv s1 \<and>
      (pending s1 = pending s \<and> (\<forall>i. r \<noteq> Inr (Some i)) \<or>
       (\<exists>sid i. r = Inr (Some i) \<and> pending s sid = Some i \<and> pending s1 = (pending s)(sid := None)))"
begin

lemma run_inv: "queue_run add take_one pending s s1 as ts \<Longrightarrow> inv s \<Longrightarrow> inv s1"
  by (induction rule: queue_run.induct) (auto dest: add_law take_law)

text \<open>Everything taken or still pending was pending at the start or has been added, and a sector
  is taken at most once more often than it was added or pending.\<close>

lemma run_balance:
  assumes "queue_run add take_one pending s s1 as ts" "inv s"
  shows "times sid ts + (if pending s1 sid = None then 0 else 1) \<le>
    times sid as + (if pending s sid = None then 0 else 1)"
  using assms
proof (induction rule: queue_run.induct)
  case (run_add s1 as ts sid' i u s2)
  have "inv s1" using run_add run_inv by blast
  from add_law [OF run_add(2) this] show ?case
  proof (elim conjE disjE exE)
    assume "u = Inr ()" "pending s2 = (pending s1)(sid' \<mapsto> i)"
    with run_add.IH [OF run_add.prems] show ?thesis
      by (cases "sid' = sid"; cases "pending s1 sid") (auto split: if_splits)
  next
    fix e
    assume "pending s2 = pending s1" "u = Inl e"
    with run_add.IH [OF run_add.prems] show ?thesis by simp
  qed
next
  case (run_take s1 as ts q i s2 sid')
  from run_take.IH [OF run_take.prems] run_take(3,4) show ?case
    by (cases "sid' = sid") (auto split: if_splits)
next
  case (run_none s1 as ts q r s2)
  have "inv s1" using run_none run_inv by blast
  from take_law [OF run_none(2) this] run_none(3) run_none.IH [OF run_none.prems] show ?case by auto
qed simp

lemma run_taken_added:
  assumes "queue_run add take_one pending s s1 as ts" "inv s"
  shows "(sid, i) \<in> set ts \<or> pending s1 sid = Some i \<Longrightarrow> (sid, i) \<in> set as \<or> pending s sid = Some i"
  using assms
proof (induction arbitrary: sid i rule: queue_run.induct)
  case (run_add s1 as ts sid' i' u s2)
  have "inv s1" using run_add run_inv by blast
  from add_law [OF run_add(2) this] run_add.IH [OF _ run_add.prems(2), of sid i] run_add.prems(1) show ?case
    by (auto split: if_splits)
next
  case (run_take s1 as ts q i' s2 sid')
  from run_take.IH [OF _ run_take.prems(2), of sid i] run_take.IH [OF _ run_take.prems(2), of sid' i']
    run_take(3,4) run_take.prems(1) show ?case
    by (auto split: if_splits)
next
  case (run_none s1 as ts q r s2)
  have "inv s1" using run_none run_inv by blast
  from take_law [OF run_none(2) this] run_none(3) run_none.IH [OF _ run_none.prems(2), of sid i]
    run_none.prems(1) show ?case by auto
qed simp

end

text \<open>The state with its cache, for the two operations of the manager.\<close>

definition rm_Set :: "sector_id \<Rightarrow> rebuild_info \<Rightarrow> (rebuild_state, unit) step" where
  "rm_Set sid info s = (case rebuild_Set sid info (rm_kv s) of (r, kv1) \<Rightarrow> (r, s\<lparr>rm_kv := kv1\<rparr>))"

record allocate_query =
  aq_chain :: miner_chain
  aq_cfg :: safe_config
  aq_pick :: "nat \<Rightarrow> nat"
  aq_spec :: allocate_spec

text \<open>An index beyond the range is not a draw; such a query takes the first entry.\<close>

definition drawn :: "(nat \<Rightarrow> nat) \<Rightarrow> nat \<Rightarrow> nat" where
  "drawn pick n = (if pick n < n then pick n else 0)"

definition rm_Allocate :: "allocate_query \<Rightarrow> (rebuild_state, rebuild_info option) step" where
  "rm_Allocate q s = rebuild_Allocate (aq_chain q) (aq_cfg q) (drawn (aq_pick q)) (aq_spec q) s"

lemma picks_drawn [simp]: "picks (drawn pick)"
  by (simp add: picks_def drawn_def)

lemma drawn_id: "picks pick \<Longrightarrow> n > 0 \<Longrightarrow> drawn pick n = pick n"
  by (simp add: picks_def drawn_def)

interpretation rq: task_queue rm_Set rm_Allocate "\<lambda>s. rebuild_pending (rm_kv s)"
  "\<lambda>s. rebuild_wf (rm_kv s)"
proof unfold_locales
  fix sid i s u s1
  assume run: "rm_Set sid i s = (u, s1)" and wf: "rebuild_wf (rm_kv s)"
  obtain r kv1 where r: "rebuild_Set sid i (rm_kv s) = (r, kv1)" by fastforce
  with run have eq: "u = r" "rm_kv s1 = kv1" by (auto simp: rm_Set_def)
  from rebuild_SetD [OF r] wf show "rebuild_wf (rm_kv s1) \<and>
      (u = Inr () \<and> rebuild_pending (rm_kv s1) = (rebuild_pending (rm_kv s))(sid \<mapsto> i) \<or>
       (\<exists>e. u = Inl e) \<and> rebuild_pending (rm_kv s1) = rebuild_pending (rm_kv s))"
    unfolding eq by auto
next
  fix q s r s1
  assume run: "rm_Allocate q s = (r, s1)" and wf: "rebuild_wf (rm_kv s)"
  obtain cands c1 where c: "candidates (aq_chain q) (aq_cfg q) (spec_AllowedMiners (aq_spec q))
      (spec_AllowedProofTypes (aq_spec q)) (\<lambda>m. True) (rm_cache s) = (cands, c1)" by fastforce
  from rebuild_AllocateD [OF run [unfolded rm_Allocate_def] picks_drawn wf c]
  show "rebuild_wf (rm_kv s1) \<and>
      (rebuild_pending (rm_kv s1) = rebuild_pending (rm_kv s) \<and> (\<forall>i. r \<noteq> Inr (Some i)) \<or>
       (\<exists>sid i. r = Inr (Some i) \<and> rebuild_pending (rm_kv s) sid = Some i \<and>
          rebuild_pending (rm_kv s1) = (rebuild_pending (rm_kv s))(sid := None)))"
    by auto
qed

section \<open>Histories\<close>

text \<open>Any sequence of the two calls, from a store without a document, on an engine that may answer each of them in any way; the
  positions drawn from a Go map are positions in it.\<close>

datatype rebuild_call = CallSet sector_id rebuild_info | CallAllocate allocate_query

fun rebuild_step :: "rebuild_call \<Rightarrow> (rebuild_state, rebuild_info option) step" where
  "rebuild_step (CallSet sid info) s = (case rm_Set sid info s of (Inl e, s1) \<Rightarrow> (Inl e, s1) | (Inr _, s1) \<Rightarrow> (Inr None, s1))"
| "rebuild_step (CallAllocate q) s = rebuild_Allocate (aq_chain q) (aq_cfg q) (aq_pick q) (aq_spec q) s"

fun call_picks :: "rebuild_call \<Rightarrow> bool" where
  "call_picks (CallSet sid info) = True"
| "call_picks (CallAllocate q) = picks (aq_pick q)"

inductive rebuild_history :: "rebuild_state \<Rightarrow> bool" where
  no_document: "kv_data (rm_kv s) = [] \<Longrightarrow> rebuild_history s"
| called: "rebuild_history s \<Longrightarrow> call_picks c \<Longrightarrow>
    rebuild_step c (s\<lparr>rm_kv := (rm_kv s)\<lparr>kv_script := script\<rparr>\<rparr>) = (r, s1) \<Longrightarrow> rebuild_history s1"

text \<open>The miners an allocation may serve.\<close>

definition served :: "allocate_query \<Rightarrow> rebuild_state \<Rightarrow> u64 set" where
  "served q s = set (cand_ids (fst (candidates (aq_chain q) (aq_cfg q) (spec_AllowedMiners (aq_spec q))
     (spec_AllowedProofTypes (aq_spec q)) (\<lambda>m. True) (rm_cache s))))"

text \<open>The specification: what a call that answers \<open>r\<close> does to the map of pending sectors.\<close>

fun pending_step :: "rebuild_call \<Rightarrow> rebuild_state \<Rightarrow> rebuild_info option res \<Rightarrow> (sector_id \<rightharpoonup> rebuild_info) \<Rightarrow>
    (sector_id \<rightharpoonup> rebuild_info) \<Rightarrow> bool" where
  "pending_step c s (Inl e) M M1 = (M1 = M)"
| "pending_step (CallSet sid info) s (Inr r) M M1 = (r = None \<and> M1 = M(sid \<mapsto> info))"
| "pending_step (CallAllocate q) s (Inr None) M M1 = (M1 = M \<and> (\<forall>sid. sid_Miner sid \<in> served q s \<longrightarrow> M sid = None))"
| "pending_step (CallAllocate q) s (Inr (Some info)) M M1 =
     (\<exists>sid. sid_Miner sid \<in> served q s \<and> M sid = Some info \<and> M1 = M(sid := None))"

lemma rebuild_step_refines:
  assumes "rebuild_wf (rm_kv s)" "call_picks c" "rebuild_step c s = (r, s1)"
  shows "rebuild_wf (rm_kv s1) \<and> pending_step c s r (rebuild_pending (rm_kv s)) (rebuild_pending (rm_kv s1))"
proof (cases c)
  case (CallSet sid info)
  obtain u kv1 where u: "rebuild_Set sid info (rm_kv s) = (u, kv1)" by fastforce
  with assms(3) have "r = map_sum id (\<lambda>_. None) u" "rm_kv s1 = kv1" by (auto simp: CallSet rm_Set_def split: sum.splits)
  with rebuild_SetD [OF u] assms(1) show ?thesis by (auto simp: CallSet)
next
  case (CallAllocate q)
  obtain cands c1 where c: "candidates (aq_chain q) (aq_cfg q) (spec_AllowedMiners (aq_spec q))
      (spec_AllowedProofTypes (aq_spec q)) (\<lambda>m. True) (rm_cache s) = (cands, c1)" by fastforce
  have "served q s = set (cand_ids cands)" by (simp add: served_def c)
  with rebuild_AllocateD [OF assms(3) [unfolded CallAllocate rebuild_step.simps] _ assms(1) c] assms(2) show ?thesis
    by (auto simp: CallAllocate)
qed

lemma rebuild_wf_script [simp]: "rebuild_wf (kv\<lparr>kv_script := script\<rparr>) = rebuild_wf kv"
  by (simp add: rebuild_wf_def document_def)

lemma rebuild_history_wf: "rebuild_history s \<Longrightarrow> rebuild_wf (rm_kv s)"
proof (induction rule: rebuild_history.induct)
  case (no_document s)
  then show ?case by (simp add: rebuild_wf_def document_def infos_wf_def)
next
  case (called s c script r s1)
  then show ?case using rebuild_step_refines [OF _ called.hyps(2,3)] by simp
qed

section \<open>Properties\<close>

text \<open>C27. The rebuild manager implements a map of pending sectors, after any calls of \<open>Set\<close> and \<open>Allocate\<close> on any engine: \<open>Set\<close> adds the sector
  or replaces its information and leaves all others; \<open>Allocate\<close> hands out a pending sector of one of the miners
  it may serve and removes only this one, and answers with nothing only when these miners have nothing pending;
  a call that returns an error changes nothing.\<close>

theorem rebuild_refines:
  assumes "rebuild_history s" "call_picks c" "rebuild_step c s = (r, s1)"
  shows "pending_step c s r (rebuild_pending (rm_kv s)) (rebuild_pending (rm_kv s1))"
  using rebuild_step_refines [OF rebuild_history_wf [OF assms(1)] assms(2,3)] by blast

definition demo_rebuild :: rebuild_info where
  "demo_rebuild = \<lparr>rb_Sector = \<lparr>as_ID = \<lparr>sid_Miner = 1000, sid_Number = 7\<rparr>, as_ProofType = 5\<rparr>,
     rb_Ticket = \<lparr>tk_Ticket = [], tk_Epoch = 0\<rparr>, rb_Pieces = [], rb_PiecesV2 = [],
     rb_IsSnapUp = False, rb_UpgradePublic = None\<rparr>"

definition demo_rebuild_state :: rebuild_state where
  "demo_rebuild_state = \<lparr>rm_kv = \<lparr>kv_data = [(rebuildInfoKey,
      Json [\<lparr>ra_Actor = 1000, ra_Infos = [(7, demo_rebuild)]\<rparr>])], kv_script = []\<rparr>, rm_cache = Map.empty\<rparr>"

lemma demo_rebuild_wf: "rebuild_wf (rm_kv demo_rebuild_state)"
  by (simp add: rebuild_wf_def document_def demo_rebuild_state_def)

lemma demo_rebuild_allocate:
  "fst (rebuild_Allocate demo_chain demo_cfg (\<lambda>_. 0) demo_spec demo_rebuild_state) =
   Inr (Some demo_rebuild)"
  by (simp add: rebuild_Allocate_def demo_alloc_defs candidates_def partition_loop.simps
      GetInfo_def fetch_info_def slot_ok_def Let_def demo_rebuild_state_def cand_ids_def
      rebuild_loadAndUpdate_def doc_loadAndUpdate_def doc_cycle_def doc_save_def doc_decode_def)

text \<open>A sector is set on the empty store and then allocated.\<close>

definition demo_sector7 :: sector_id where
  "demo_sector7 = \<lparr>sid_Miner = 1000, sid_Number = 7\<rparr>"

definition demo_query :: allocate_query where
  "demo_query = \<lparr>aq_chain = demo_chain, aq_cfg = demo_cfg, aq_pick = \<lambda>_. 0, aq_spec = demo_spec\<rparr>"

lemma demo_set: "rebuild_step (CallSet demo_sector7 demo_rebuild) \<lparr>rm_kv = empty_store, rm_cache = Map.empty\<rparr> = (Inr None, demo_rebuild_state)"
  by (simp add: rm_Set_def rebuild_Set_def rebuild_loadAndUpdate_def doc_loadAndUpdate_def doc_cycle_def doc_save_def demo_sector7_def
      demo_rebuild_state_def put_entry_def empty_store_def)

lemma demo_history: "rebuild_history demo_rebuild_state"
  by (rule rebuild_history.called [OF no_document, of "\<lparr>rm_kv = empty_store, rm_cache = Map.empty\<rparr>" "CallSet demo_sector7 demo_rebuild" "[]" "Inr None"])
    (use demo_set in \<open>simp_all add: empty_store_def\<close>)

theorem rebuild_refines_witness:
  "\<exists>sid. rebuild_pending (rm_kv demo_rebuild_state) sid = Some demo_rebuild \<and>
     rebuild_pending (rm_kv (snd (rebuild_step (CallAllocate demo_query) demo_rebuild_state))) = (rebuild_pending (rm_kv demo_rebuild_state))(sid := None)"
proof -
  obtain s1 where run: "rebuild_step (CallAllocate demo_query) demo_rebuild_state = (Inr (Some demo_rebuild), s1)"
    using demo_rebuild_allocate by (cases "rebuild_step (CallAllocate demo_query) demo_rebuild_state") (simp add: demo_query_def)
  have "call_picks (CallAllocate demo_query)" using demo_alloc_ok(1) by (simp add: demo_query_def)
  from rebuild_refines [OF demo_history this run] show ?thesis unfolding run snd_conv by auto
qed

text \<open>Over any sequence of additions and allocations a sector is handed out at most as often as it
  was added (or waiting at the start), and whatever is handed out was added or waiting.\<close>

theorem rebuild_exactly_once:
  assumes "queue_run rm_Set rm_Allocate (\<lambda>x. rebuild_pending (rm_kv x)) s s1 added out"
    and "rebuild_wf (rm_kv s)"
  shows "times sid out \<le> times sid added +
      (if rebuild_pending (rm_kv s) sid = None then 0 else 1) \<and>
    (\<forall>info. (sid, info) \<in> set out \<longrightarrow>
       (sid, info) \<in> set added \<or> rebuild_pending (rm_kv s) sid = Some info)"
  using rq.run_balance [OF assms, of sid] rq.run_taken_added [OF assms, of sid]
  by (auto split: if_splits)

theorem rebuild_exactly_once_witness:
  "times \<lparr>sid_Miner = 1000, sid_Number = 7\<rparr>
     [(\<lparr>sid_Miner = 1000, sid_Number = 7\<rparr> :: sector_id, demo_rebuild)] \<le> 1"
proof -
  let ?sid = "\<lparr>sid_Miner = 1000, sid_Number = 7\<rparr> :: sector_id"
  let ?q = "\<lparr>aq_chain = demo_chain, aq_cfg = demo_cfg, aq_pick = \<lambda>_. 0, aq_spec = demo_spec\<rparr>"
  have d: "drawn (\<lambda>_. 0) = (\<lambda>_. 0)" by (simp add: drawn_def fun_eq_iff)
  obtain s1 where run: "rm_Allocate ?q demo_rebuild_state = (Inr (Some demo_rebuild), s1)"
    using demo_rebuild_allocate by (cases "rm_Allocate ?q demo_rebuild_state") (simp add: rm_Allocate_def d)
  have s1: "rebuild_pending (rm_kv s1) = (rebuild_pending (rm_kv demo_rebuild_state))(?sid := None)"
    using run
    by (auto simp: rm_Allocate_def d rebuild_Allocate_def demo_alloc_defs candidates_def partition_loop.simps
      GetInfo_def fetch_info_def slot_ok_def Let_def demo_rebuild_state_def cand_ids_def
      rebuild_loadAndUpdate_def doc_loadAndUpdate_def doc_cycle_def doc_save_def doc_decode_def rebuild_pending_def
      document_def fun_eq_iff sector_id_eq_iff del_entry_def)
  have p: "rebuild_pending (rm_kv demo_rebuild_state) ?sid = Some demo_rebuild"
    by (simp add: rebuild_pending_def document_def demo_rebuild_state_def)
  have "queue_run rm_Set rm_Allocate (\<lambda>x. rebuild_pending (rm_kv x)) demo_rebuild_state s1 []
      [(?sid, demo_rebuild)]"
    by (rule run_take [OF run_refl]) (use run p s1 in auto)
  from rebuild_exactly_once [OF this demo_rebuild_wf, of ?sid] p show ?thesis by simp
qed

end
