(* ===== verification/Sector_Unseal.thy ===== *)
theory Sector_Unseal
  imports Sector_Rebuild
begin

text \<open>
  The unseal manager (\<open>modules/impl/sectors/unseal.go\<close>): tasks to unseal a piece, kept as one
  document with the tasks by key and, per miner, the index of the tasks no worker has taken yet.
  A task goes from set over unsealing and uploading to finished or failed; callers poll with
  \<open>SetAndCheck\<close>, which also adds destinations and forgets a finished task.
\<close>

section \<open>Tasks and the document\<close>

datatype unseal_state = UnsealStateDefault | UnsealStateSet | UnsealStateUnsealing
  | UnsealStateUploading | UnsealStateFinished | UnsealStateFailed

record unseal_info =
  us_Sector :: allocated_sector
  us_PieceCid :: cid
  us_Offset :: u64
  us_Size :: u64
  us_AccessInstance :: string
  us_Ticket :: ticket
  us_CommD :: bytes
  us_Dest :: "string list"
  us_State :: unseal_state
  us_ErrorInfo :: string

definition UnsealInfoKey :: "u64 \<Rightarrow> u64 \<Rightarrow> cid \<Rightarrow> key" where
  "UnsealInfoKey actor num pieceCid = dec64 actor @ ''-'' @ dec64 num @ ''-'' @ pieceCid"

definition task_key :: "unseal_info \<Rightarrow> key" where
  "task_key i = UnsealInfoKey (sid_Miner (as_ID (us_Sector i))) (sid_Number (as_ID (us_Sector i)))
     (us_PieceCid i)"

text \<open>The sets of keys of the index are lists; \<open>pick\<close> says where the iteration over one starts.\<close>

record unseal_infos =
  un_AllocIndex :: "(u64 \<times> key list) list"
  un_Data :: "(key \<times> unseal_info) list"

definition unsealInfoKey :: key where
  "unsealInfoKey = ''unseal-infos''"

definition no_infos :: unseal_infos where
  "no_infos = \<lparr>un_AllocIndex = [], un_Data = []\<rparr>"

definition unseal_loadAndUpdate ::
  "(unseal_infos \<Rightarrow> ('a \<times> unseal_infos option) res) \<Rightarrow> (unseal_infos json kvs, 'a) step" where
  "unseal_loadAndUpdate = doc_loadAndUpdate ''unseal infos'' unsealInfoKey no_infos"

text \<open>Hooks are functions of their callers, known here by numbers; \<open>um_fired\<close> records the calls.\<close>

record unseal_mgr =
  um_kv :: "unseal_infos json kvs"
  um_cache :: info_cache
  um_onAchieve :: "key \<rightharpoonup> nat list"
  um_fired :: "nat list"

text \<open>A panic in a callback is not an error value and is not wrapped.\<close>

definition wrap_err :: "string \<Rightarrow> err \<Rightarrow> err" where
  "wrap_err m e = (if is_panic e then e else Wrap m e)"

section \<open>Destinations\<close>

text \<open>URLs and their queries are those of Go's \<open>net/url\<close>, given by their operations: parsing,
  scheme, host, one value of the query, setting query values, rendering.\<close>

record 'u url_lib =
  ul_Parse :: "string \<Rightarrow> 'u res"
  ul_Scheme :: "'u \<Rightarrow> string"
  ul_Host :: "'u \<Rightarrow> string"
  ul_QueryGet :: "string \<Rightarrow> 'u \<Rightarrow> string"
  ul_QuerySet :: "(string \<times> string) list \<Rightarrow> 'u \<Rightarrow> 'u"
  ul_String :: "'u \<Rightarrow> string"

definition invalidMarketHost :: string where
  "invalidMarketHost = ''invalid.market.host''"

definition checkDestURL :: "'u url_lib \<Rightarrow> 'u \<Rightarrow> string \<Rightarrow> string res" where
  "checkDestURL ul defaultDest dest = (case ul_Parse ul dest of
     Inl e \<Rightarrow> Inl e
   | Inr u \<Rightarrow>
      (if ul_Scheme ul u \<in> {''http'', ''https'', ''file'', ''store''} then Inr (ul_String ul u)
       else if ul_Scheme ul u = ''market'' then
         (if ul_Host ul defaultDest = invalidMarketHost
          then Inl (Errorf ''upload pieces to market will not be possible'')
          else Inr (ul_String ul (ul_QuerySet ul
            [(''token'', ul_QueryGet ul ''token'' defaultDest), (''host'', ul_Host ul defaultDest),
             (''scheme'', ul_Scheme ul defaultDest)] u)))
       else Inl (Errorf (''invalid dest url: '' @ dest))))"

section \<open>Operations\<close>

text \<open>The modification of \<open>SetAndCheck\<close>: its result has the state reported, the error besides
  those of the store, and whether the hooks of the task are dropped.\<close>

definition set_and_check :: "key \<Rightarrow> unseal_info \<Rightarrow> string \<Rightarrow> unseal_infos \<Rightarrow>
    ((unseal_state \<times> err option \<times> bool) \<times> unseal_infos option) res" where
  "set_and_check key req supplied db = (case map_of (un_Data db) key of
     None \<Rightarrow>
      (let miner = sid_Miner (as_ID (us_Sector req));
           keySet = (case map_of (un_AllocIndex db) miner of None \<Rightarrow> [] | Some ks \<Rightarrow> ks)
       in Inr ((UnsealStateDefault, None, False),
           Some \<lparr>un_AllocIndex = put_entry miner (List.insert key keySet) (un_AllocIndex db),
                 un_Data = put_entry key (req\<lparr>us_State := UnsealStateSet\<rparr>) (un_Data db)\<rparr>))
   | Some info \<Rightarrow>
      (if list_ex (\<lambda>v. v = supplied) (us_Dest info) then
         (if us_State info = UnsealStateFinished
          then Inr ((us_State info, None, True), Some (db\<lparr>un_Data := del_entry key (un_Data db)\<rparr>))
          else Inr ((us_State info, None, False), None))
       else if us_State info = UnsealStateUploading then
         Inr ((us_State info, Some (Errorf ''task is uploading, can't add new dest''), False), None)
       else Inr ((us_State info, None, False), Some (db\<lparr>un_Data :=
           put_entry key (info\<lparr>us_Dest := us_Dest info @ [supplied]\<rparr>) (un_Data db)\<rparr>))))"

text \<open>The hooks are dropped inside the modification, so also when the store then fails to save.\<close>

definition SetAndCheck :: "'u url_lib \<Rightarrow> 'u \<Rightarrow> unseal_info \<Rightarrow> (unseal_mgr, unseal_state) step" where
  "SetAndCheck ul defaultDest req um = (case us_Dest req of
     [] \<Rightarrow> (Inl (Panic ''index out of range''), um)
   | d # ds \<Rightarrow> (case checkDestURL ul defaultDest d of
        Inl e \<Rightarrow> (Inl e, um)
      | Inr supplied \<Rightarrow>
         (let req = req\<lparr>us_Dest := supplied # ds\<rparr>;
              key = task_key req;
              hooks = (case doc_ran ''unseal infos'' unsealInfoKey no_infos
                  (set_and_check key req supplied) (um_kv um) of
                 Some (Inr ((_, _, True), _)) \<Rightarrow> (um_onAchieve um)(key := None)
               | _ \<Rightarrow> um_onAchieve um)
          in case unseal_loadAndUpdate (set_and_check key req supplied) (um_kv um) of
               (Inl e, kv1) \<Rightarrow>
                 (Inl (wrap_err ''check unseal state'' e), um\<lparr>um_kv := kv1, um_onAchieve := hooks\<rparr>)
             | (Inr (st, updateErr, _), kv1) \<Rightarrow>
                 (case updateErr of
                    None \<Rightarrow> Inr st | Some e \<Rightarrow> Inl (Wrap ''update unseal state'' e),
                  um\<lparr>um_kv := kv1, um_onAchieve := hooks\<rparr>))))"

definition OnAchieve :: "sector_id \<Rightarrow> cid \<Rightarrow> nat \<Rightarrow> unseal_mgr \<Rightarrow> unseal_mgr" where
  "OnAchieve sid pieceCid hook um =
    (let key = UnsealInfoKey (sid_Miner sid) (sid_Number sid) pieceCid;
         hooks = (case um_onAchieve um key of None \<Rightarrow> [] | Some hs \<Rightarrow> hs)
     in um\<lparr>um_onAchieve := (um_onAchieve um)(key \<mapsto> hooks @ [hook])\<rparr>)"

text \<open>The modification of \<open>Allocate\<close>. The task is a shared object: writing its proof type and its
  state shows under the key it was found at and under the key it is stored back with.\<close>

fun take_task :: "(nat \<Rightarrow> nat) \<Rightarrow> candidate list \<Rightarrow> unseal_infos \<Rightarrow>
    (unseal_info option \<times> unseal_infos option) res" where
  "take_task pick [] db = Inr (None, None)"
| "take_task pick (c # cs) db = (case map_of (un_AllocIndex db) (min_ID (ca_info c)) of
     None \<Rightarrow> take_task pick cs db
   | Some keySet \<Rightarrow>
      (if length keySet = 0 then take_task pick cs db
       else (let k = keySet ! pick (length keySet) in case map_of (un_Data db) k of
          None \<Rightarrow> nil_deref
        | Some task \<Rightarrow>
            (let task' = task\<lparr>us_Sector := (us_Sector task)\<lparr>as_ProofType := min_SealProofType (ca_info c)\<rparr>,
                   us_State := UnsealStateUnsealing\<rparr>
             in Inr (Some task', Some \<lparr>
                  un_AllocIndex = put_entry (min_ID (ca_info c)) (removeAll k keySet) (un_AllocIndex db),
                  un_Data = put_entry (task_key task) task' (put_entry k task' (un_Data db))\<rparr>)))))"

definition unseal_Allocate :: "miner_chain \<Rightarrow> safe_config \<Rightarrow> (nat \<Rightarrow> nat) \<Rightarrow> allocate_spec \<Rightarrow>
    (unseal_mgr, unseal_info option) step" where
  "unseal_Allocate ca cfg pick spec um =
    (case candidates ca cfg (spec_AllowedMiners spec) (spec_AllowedProofTypes spec) (\<lambda>m. True) (um_cache um) of
       (cands, c1) \<Rightarrow>
         (if length cands = 0 then (Inr None, um\<lparr>um_cache := c1\<rparr>)
          else (case unseal_loadAndUpdate (\<lambda>db. if length (un_AllocIndex db) = 0 then Inr (None, None)
                   else take_task pick (map the cands) db) (um_kv um) of
             (Inl e, kv1) \<Rightarrow> (Inl (wrap_err ''allocate unseal info'' e), um\<lparr>um_kv := kv1, um_cache := c1\<rparr>)
           | (Inr r, kv1) \<Rightarrow> (Inr r, um\<lparr>um_kv := kv1, um_cache := c1\<rparr>))))"

definition achieve_task :: "key \<Rightarrow> string \<Rightarrow> unseal_infos \<Rightarrow> (bool \<times> unseal_infos option) res" where
  "achieve_task key unsealErr db = (case map_of (un_Data db) key of
     None \<Rightarrow> Inr (False, None)
   | Some info \<Rightarrow>
      (let info' = (if unsealErr = [] then info\<lparr>us_State := UnsealStateFinished\<rparr>
             else info\<lparr>us_State := UnsealStateFailed, us_ErrorInfo := unsealErr\<rparr>)
       in Inr (True, Some (db\<lparr>un_Data := put_entry key info' (un_Data db)\<rparr>))))"

definition Achieve :: "sector_id \<Rightarrow> cid \<Rightarrow> string \<Rightarrow> (unseal_mgr, unit) step" where
  "Achieve sid pieceCid unsealErr um =
    (let key = UnsealInfoKey (sid_Miner sid) (sid_Number sid) pieceCid in
     case unseal_loadAndUpdate (achieve_task key unsealErr) (um_kv um) of
       (Inl e, kv1) \<Rightarrow> (Inl (wrap_err ''achieve unseal info: load task fail'' e), um\<lparr>um_kv := kv1\<rparr>)
     | (Inr found, kv1) \<Rightarrow>
        (if \<not> found then (Inl (Errorf ''achieve unseal info: task not found''), um\<lparr>um_kv := kv1\<rparr>)
         else if unsealErr \<noteq> [] then (Inr (), um\<lparr>um_kv := kv1\<rparr>)
         else (case um_onAchieve um key of
            None \<Rightarrow> (Inr (), um\<lparr>um_kv := kv1\<rparr>)
          | Some hooks \<Rightarrow> (Inr (), um\<lparr>um_kv := kv1, um_fired := um_fired um @ hooks,
              um_onAchieve := (um_onAchieve um)(key := None)\<rparr>))))"

text \<open>\<open>AcquireDest\<close> logs a missing task and then reads through the nil pointer.\<close>

definition acquire_dest :: "key \<Rightarrow> unseal_infos \<Rightarrow> (string list \<times> unseal_infos option) res" where
  "acquire_dest key db = (case map_of (un_Data db) key of
     None \<Rightarrow> nil_deref
   | Some info \<Rightarrow> Inr (us_Dest info, Some (db\<lparr>un_Data :=
       put_entry key (info\<lparr>us_State := UnsealStateUploading\<rparr>) (un_Data db)\<rparr>)))"

definition AcquireDest :: "sector_id \<Rightarrow> cid \<Rightarrow> (unseal_mgr, string list) step" where
  "AcquireDest sid pieceCid um =
    (let key = UnsealInfoKey (sid_Miner sid) (sid_Number sid) pieceCid in
     case unseal_loadAndUpdate (acquire_dest key) (um_kv um) of
       (Inl e, kv1) \<Rightarrow> (Inl (wrap_err ''achieve unseal info'' e), um\<lparr>um_kv := kv1\<rparr>)
     | (Inr dest, kv1) \<Rightarrow> (Inr dest, um\<lparr>um_kv := kv1\<rparr>))"


section \<open>The invariant of the document\<close>

definition unseal_doc :: "unseal_mgr \<Rightarrow> unseal_infos" where
  "unseal_doc um = document unsealInfoKey no_infos (um_kv um)"

definition indexed :: "unseal_infos \<Rightarrow> u64 \<Rightarrow> key \<Rightarrow> bool" where
  "indexed db a k = (\<exists>ks. map_of (un_AllocIndex db) a = Some ks \<and> k \<in> set ks)"

text \<open>Tasks are stored under their own key, and an indexed task exists, belongs to the miner it is
  indexed under and has not been taken.\<close>

definition unseal_wf :: "unseal_infos \<Rightarrow> bool" where
  "unseal_wf db = ((\<forall>k i. map_of (un_Data db) k = Some i \<longrightarrow> task_key i = k) \<and>
     (\<forall>a k. indexed db a k \<longrightarrow> (\<exists>i. map_of (un_Data db) k = Some i \<and>
        us_State i = UnsealStateSet \<and> sid_Miner (as_ID (us_Sector i)) = a)))"

interpretation udoc: document_owner unseal_loadAndUpdate "document unsealInfoKey no_infos"
  unfolding unseal_loadAndUpdate_def by (rule one_doc.document_owner_axioms)

lemma unseal_wfI:
  assumes "\<And>k i. map_of (un_Data db) k = Some i \<Longrightarrow> task_key i = k"
    and "\<And>a k. indexed db a k \<Longrightarrow> \<exists>i. map_of (un_Data db) k = Some i \<and>
      us_State i = UnsealStateSet \<and> sid_Miner (as_ID (us_Sector i)) = a"
  shows "unseal_wf db"
  using assms by (simp add: unseal_wf_def)

lemma unseal_wf_key: "unseal_wf db \<Longrightarrow> map_of (un_Data db) k = Some i \<Longrightarrow> task_key i = k"
  by (simp add: unseal_wf_def)

lemma unseal_wf_indexed: "unseal_wf db \<Longrightarrow> indexed db a k \<Longrightarrow> \<exists>i. map_of (un_Data db) k = Some i \<and>
    us_State i = UnsealStateSet \<and> sid_Miner (as_ID (us_Sector i)) = a"
  by (simp add: unseal_wf_def)

lemma unseal_wf_empty [simp]: "unseal_wf no_infos"
  by (simp add: unseal_wf_def no_infos_def indexed_def)

lemma task_key_simps [simp]:
  "task_key (i\<lparr>us_State := st\<rparr>) = task_key i"
  "task_key (i\<lparr>us_Dest := ds\<rparr>) = task_key i"
  "task_key (i\<lparr>us_State := st, us_ErrorInfo := m\<rparr>) = task_key i"
  "task_key (i\<lparr>us_Sector := (us_Sector i)\<lparr>as_ProofType := pt\<rparr>\<rparr>) = task_key i"
  by (simp_all add: task_key_def)

text \<open>Replacing a task that is not waiting by one with the same key.\<close>

lemma unseal_wf_replace:
  assumes "unseal_wf db" "map_of (un_Data db) k = Some i" "us_State i \<noteq> UnsealStateSet" "task_key i' = k"
  shows "unseal_wf (db\<lparr>un_Data := put_entry k i' (un_Data db)\<rparr>)"
proof (rule unseal_wfI)
  fix a k'
  assume "indexed (db\<lparr>un_Data := put_entry k i' (un_Data db)\<rparr>) a k'"
  then have "indexed db a k'" by (simp add: indexed_def)
  then obtain j where j: "map_of (un_Data db) k' = Some j" "us_State j = UnsealStateSet"
    "sid_Miner (as_ID (us_Sector j)) = a" using unseal_wf_indexed [OF assms(1)] by blast
  with assms(2,3) have "k' \<noteq> k" by auto
  with j show "\<exists>i. map_of (un_Data (db\<lparr>un_Data := put_entry k i' (un_Data db)\<rparr>)) k' = Some i \<and>
      us_State i = UnsealStateSet \<and> sid_Miner (as_ID (us_Sector i)) = a" by simp
qed (use assms in \<open>auto dest: unseal_wf_key split: if_splits\<close>)

lemma set_and_check_total: "\<exists>x w. set_and_check key req d db = Inr (x, w)"
  by (auto simp: set_and_check_def Let_def split: option.splits)

lemma set_and_check_wf:
  assumes "set_and_check (task_key req) req d db = Inr (x, Some db')" "unseal_wf db"
  shows "unseal_wf db'"
proof (cases "map_of (un_Data db) (task_key req)")
  case None
  let ?m = "sid_Miner (as_ID (us_Sector req))"
  from assms(1) None have db': "db' = \<lparr>un_AllocIndex = put_entry ?m (List.insert (task_key req)
        (case map_of (un_AllocIndex db) ?m of None \<Rightarrow> [] | Some ks \<Rightarrow> ks)) (un_AllocIndex db),
      un_Data = put_entry (task_key req) (req\<lparr>us_State := UnsealStateSet\<rparr>) (un_Data db)\<rparr>"
    by (auto simp: set_and_check_def Let_def)
  show ?thesis
  proof (rule unseal_wfI)
    fix a k
    assume ix: "indexed db' a k"
    then have "indexed db a k \<or> a = ?m \<and> k = task_key req"
      by (cases "map_of (un_AllocIndex db) ?m") (auto simp: db' indexed_def split: if_splits)
    then show "\<exists>i. map_of (un_Data db') k = Some i \<and> us_State i = UnsealStateSet \<and>
        sid_Miner (as_ID (us_Sector i)) = a"
    proof
      assume "indexed db a k"
      then obtain i where i: "map_of (un_Data db) k = Some i" "us_State i = UnsealStateSet"
        "sid_Miner (as_ID (us_Sector i)) = a" using unseal_wf_indexed [OF assms(2)] by blast
      with None have "k \<noteq> task_key req" by auto
      with i show ?thesis by (simp add: db')
    qed (simp add: db')
  qed (use assms(2) in \<open>auto simp: db' dest: unseal_wf_key split: if_splits\<close>)
next
  case (Some info)
  show ?thesis
  proof (cases "list_ex (\<lambda>v. v = d) (us_Dest info)")
    case True
    with assms(1) Some have fin: "us_State info = UnsealStateFinished"
      and db': "db' = db\<lparr>un_Data := del_entry (task_key req) (un_Data db)\<rparr>"
      by (auto simp: set_and_check_def split: if_splits)
    show ?thesis
    proof (rule unseal_wfI)
      fix a k
      assume "indexed db' a k"
      then have "indexed db a k" by (simp add: db' indexed_def)
      then obtain i where i: "map_of (un_Data db) k = Some i" "us_State i = UnsealStateSet"
        "sid_Miner (as_ID (us_Sector i)) = a" using unseal_wf_indexed [OF assms(2)] by blast
      with Some fin have "k \<noteq> task_key req" by auto
      with i show "\<exists>i. map_of (un_Data db') k = Some i \<and> us_State i = UnsealStateSet \<and>
          sid_Miner (as_ID (us_Sector i)) = a" by (simp add: db')
    qed (use assms(2) in \<open>auto simp: db' dest: unseal_wf_key split: if_splits\<close>)
  next
    case False
    with assms(1) Some have db': "db' = db\<lparr>un_Data := put_entry (task_key req)
        (info\<lparr>us_Dest := us_Dest info @ [d]\<rparr>) (un_Data db)\<rparr>"
      by (auto simp: set_and_check_def split: if_splits)
    have key: "task_key info = task_key req" using unseal_wf_key [OF assms(2) Some] .
    show ?thesis
    proof (rule unseal_wfI)
      fix a k
      assume "indexed db' a k"
      then have "indexed db a k" by (simp add: db' indexed_def)
      from unseal_wf_indexed [OF assms(2) this] Some
      show "\<exists>i. map_of (un_Data db') k = Some i \<and> us_State i = UnsealStateSet \<and>
          sid_Miner (as_ID (us_Sector i)) = a" by (auto simp: db')
    qed (use assms(2) key in \<open>auto simp: db' dest: unseal_wf_key split: if_splits\<close>)
  qed
qed


lemma take_task_cases:
  assumes "unseal_wf db" "picks pick"
  shows "(take_task pick cs db = Inr (None, None) \<and>
      (\<forall>c \<in> set cs. \<forall>k. \<not> indexed db (min_ID (ca_info c)) k)) \<or>
    (\<exists>c k task task' db'. c \<in> set cs \<and> indexed db (min_ID (ca_info c)) k \<and>
       map_of (un_Data db) k = Some task \<and>
       task' = task\<lparr>us_Sector := (us_Sector task)\<lparr>as_ProofType := min_SealProofType (ca_info c)\<rparr>,
         us_State := UnsealStateUnsealing\<rparr> \<and>
       take_task pick cs db = Inr (Some task', Some db') \<and>
       map_of (un_Data db') = (map_of (un_Data db))(k \<mapsto> task') \<and>
       (\<forall>a k'. indexed db' a k' \<longleftrightarrow> indexed db a k' \<and> \<not> (a = min_ID (ca_info c) \<and> k' = k)))"
proof (induction cs)
  case (Cons c cs)
  let ?m = "min_ID (ca_info c)"
  show ?case
  proof (cases "\<exists>k. indexed db ?m k")
    case False
    then have eq: "take_task pick (c # cs) db = take_task pick cs db"
      by (auto simp: indexed_def split: option.splits)
    from Cons.IH show ?thesis unfolding eq
    proof (rule disjE, goal_cases)
      case 1
      with False show ?case by simp
    next
      case 2
      then show ?case unfolding set_simps by blast
    qed
  next
    case True
    then obtain ks where ks: "map_of (un_AllocIndex db) ?m = Some ks" "ks \<noteq> []"
      unfolding indexed_def by (metis empty_iff empty_set)
    define k where "k = ks ! pick (length ks)"
    have "k \<in> set ks" using assms(2) ks(2) by (simp add: k_def picks_def)
    then have ix: "indexed db ?m k" using ks(1) by (simp add: indexed_def)
    from unseal_wf_indexed [OF assms(1) ix] obtain task where
      task: "map_of (un_Data db) k = Some task" by blast
    have key: "task_key task = k" using unseal_wf_key [OF assms(1) task] .
    let ?task' = "task\<lparr>us_Sector := (us_Sector task)\<lparr>as_ProofType := min_SealProofType (ca_info c)\<rparr>,
      us_State := UnsealStateUnsealing\<rparr>"
    let ?db' = "\<lparr>un_AllocIndex = put_entry ?m (removeAll k ks) (un_AllocIndex db),
      un_Data = put_entry k ?task' (put_entry k ?task' (un_Data db))\<rparr>"
    have run: "take_task pick (c # cs) db = Inr (Some ?task', Some ?db')"
      using ks task key by (simp add: k_def [symmetric] Let_def)
    have "\<forall>a k'. indexed ?db' a k' \<longleftrightarrow> indexed db a k' \<and> \<not> (a = ?m \<and> k' = k)"
      using ks(1) by (auto simp: indexed_def)
    with ix task run show ?thesis
      by (intro disjI2 exI [of _ c] exI [of _ k] exI [of _ task] exI [of _ ?task'] exI [of _ ?db']) auto
  qed
qed simp

lemma take_task_wf:
  assumes "take_task pick cs db = Inr (x, Some db')" "unseal_wf db" "picks pick"
  shows "unseal_wf db'"
  using take_task_cases [OF assms(2,3), of cs]
proof (elim disjE exE conjE)
  fix c k task task' db2
  assume c: "indexed db (min_ID (ca_info c)) k" "map_of (un_Data db) k = Some task"
    "task' = task\<lparr>us_Sector := (us_Sector task)\<lparr>as_ProofType := min_SealProofType (ca_info c)\<rparr>,
       us_State := UnsealStateUnsealing\<rparr>"
    and run: "take_task pick cs db = Inr (Some task', Some db2)"
    and data: "map_of (un_Data db2) = (map_of (un_Data db))(k \<mapsto> task')"
    and ix: "\<forall>a k'. indexed db2 a k' = (indexed db a k' \<and> \<not> (a = min_ID (ca_info c) \<and> k' = k))"
  have db': "db' = db2" using assms(1) run by simp
  have key: "task_key task' = k" using c(2,3) unseal_wf_key [OF assms(2)] by simp
  show ?thesis unfolding db'
  proof (rule unseal_wfI)
    fix a k'
    assume i: "indexed db2 a k'"
    then have "indexed db a k'" using ix by simp
    from unseal_wf_indexed [OF assms(2) this] obtain j where
      j: "map_of (un_Data db) k' = Some j" "us_State j = UnsealStateSet"
        "sid_Miner (as_ID (us_Sector j)) = a" by blast
    have "k' \<noteq> k"
    proof
      assume "k' = k"
      then have "a = min_ID (ca_info c)" using j c(1) unseal_wf_indexed [OF assms(2) c(1)] by auto
      with \<open>k' = k\<close> i ix show False by simp
    qed
    with j data show "\<exists>i. map_of (un_Data db2) k' = Some i \<and> us_State i = UnsealStateSet \<and>
        sid_Miner (as_ID (us_Sector i)) = a" by simp
  qed (use assms(2) key data in \<open>auto dest: unseal_wf_key split: if_splits\<close>)
qed (use assms(1) in simp)


section \<open>The operations on the document\<close>

lemma SetAndCheckD:
  assumes "SetAndCheck ul dd req um = (r, um1)"
  shows "unseal_doc um1 = unseal_doc um \<or>
    (\<exists>req' d x db'. set_and_check (task_key req') req' d (unseal_doc um) = Inr (x, Some db') \<and>
       unseal_doc um1 = db')"
proof (cases "us_Dest req")
  case (Cons d ds)
  show ?thesis
  proof (cases "checkDestURL ul dd d")
    case (Inr sup)
    let ?r = "req\<lparr>us_Dest := sup # ds\<rparr>"
    obtain q kv1 where q: "unseal_loadAndUpdate (set_and_check (task_key ?r) ?r sup) (um_kv um) = (q, kv1)"
      by fastforce
    then have kv: "um_kv um1 = kv1" using assms Cons Inr by (auto simp: SetAndCheck_def Let_def split: sum.splits)
    from udoc.cycle_law [OF q] show ?thesis
    proof (elim disjE exE conjE)
      fix a w
      assume w: "set_and_check (task_key ?r) ?r sup (document unsealInfoKey no_infos (um_kv um)) = Inr (a, w)"
        "document unsealInfoKey no_infos kv1 =
           (case w of None \<Rightarrow> document unsealInfoKey no_infos (um_kv um) | Some d \<Rightarrow> d)"
      then show ?thesis
      proof (cases w)
        case (Some db')
        with w kv have "set_and_check (task_key ?r) ?r sup (unseal_doc um) = Inr (a, Some db')"
          "unseal_doc um1 = db'" by (simp_all add: unseal_doc_def del: task_key_simps)
        then show ?thesis by blast
      qed (simp add: kv unseal_doc_def)
    qed (simp_all add: kv unseal_doc_def)
  qed (use assms Cons in \<open>auto simp: SetAndCheck_def\<close>)
qed (use assms in \<open>auto simp: SetAndCheck_def\<close>)

lemma unseal_AllocateD:
  assumes run: "unseal_Allocate ca cfg pick spec um = (r, um1)"
    and cands: "candidates ca cfg (spec_AllowedMiners spec) (spec_AllowedProofTypes spec)
      (\<lambda>m. True) (um_cache um) = (cands, c1)"
  shows "cands = [] \<and> r = Inr None \<and> unseal_doc um1 = unseal_doc um \<or>
    (\<exists>f q kv1. f = (\<lambda>db. if length (un_AllocIndex db) = 0 then Inr (None, None)
        else take_task pick (map the cands) db) \<and>
      unseal_loadAndUpdate f (um_kv um) = (q, kv1) \<and> um_kv um1 = kv1 \<and>
      r = map_err (wrap_err ''allocate unseal info'') q)"
proof (cases "cands = []")
  case True
  with run cands show ?thesis by (auto simp: unseal_Allocate_def unseal_doc_def)
next
  case False
  let ?f = "\<lambda>db. if length (un_AllocIndex db) = 0 then Inr (None, None)
        else take_task pick (map the cands) db"
  obtain q kv1 where q: "unseal_loadAndUpdate ?f (um_kv um) = (q, kv1)" by fastforce
  with run cands False have "um_kv um1 = kv1" "r = map_err (wrap_err ''allocate unseal info'') q"
    by (auto simp: unseal_Allocate_def split: sum.splits)
  with q show ?thesis by blast
qed

lemma AchieveD:
  assumes "Achieve sid p err um = (r, um1)"
  shows "unseal_doc um1 = unseal_doc um \<or>
    (\<exists>x db'. achieve_task (UnsealInfoKey (sid_Miner sid) (sid_Number sid) p) err (unseal_doc um) =
        Inr (x, Some db') \<and> unseal_doc um1 = db')"
proof -
  obtain q kv1 where q: "unseal_loadAndUpdate (achieve_task
      (UnsealInfoKey (sid_Miner sid) (sid_Number sid) p) err) (um_kv um) = (q, kv1)" by fastforce
  then have "um_kv um1 = kv1" using assms by (auto simp: Achieve_def Let_def split: sum.splits if_splits option.splits)
  with udoc.cycle_law [OF q] show ?thesis unfolding unseal_doc_def by (auto split: option.splits)
qed

lemma AcquireDestD:
  assumes "AcquireDest sid p um = (r, um1)"
  shows "unseal_doc um1 = unseal_doc um \<or>
    (\<exists>x db'. acquire_dest (UnsealInfoKey (sid_Miner sid) (sid_Number sid) p) (unseal_doc um) =
        Inr (x, Some db') \<and> unseal_doc um1 = db')"
proof -
  obtain q kv1 where q: "unseal_loadAndUpdate (acquire_dest
      (UnsealInfoKey (sid_Miner sid) (sid_Number sid) p)) (um_kv um) = (q, kv1)" by fastforce
  then have "um_kv um1 = kv1" using assms by (auto simp: AcquireDest_def Let_def split: sum.splits)
  with udoc.cycle_law [OF q] show ?thesis unfolding unseal_doc_def by (auto split: option.splits)
qed

text \<open>The protocol of the callers: anyone may set and poll tasks, workers allocate, and a worker
  asks for destinations of, and achieves, only tasks that have been taken.\<close>

definition not_waiting :: "unseal_infos \<Rightarrow> key \<Rightarrow> bool" where
  "not_waiting db k = (\<forall>i. map_of (un_Data db) k = Some i \<longrightarrow> us_State i \<noteq> UnsealStateSet)"

inductive unseal_step :: "unseal_mgr \<Rightarrow> unseal_mgr \<Rightarrow> bool" where
  step_set: "SetAndCheck (ul :: string url_lib) dd req um = (r, um1) \<Longrightarrow> unseal_step um um1"
| step_hook: "unseal_step um (OnAchieve sid p h um)"
| step_allocate: "unseal_Allocate ca cfg pick spec um = (r, um1) \<Longrightarrow> picks pick \<Longrightarrow> unseal_step um um1"
| step_achieve: "Achieve sid p err um = (r, um1) \<Longrightarrow>
    not_waiting (unseal_doc um) (UnsealInfoKey (sid_Miner sid) (sid_Number sid) p) \<Longrightarrow> unseal_step um um1"
| step_acquire: "AcquireDest sid p um = (r, um1) \<Longrightarrow>
    not_waiting (unseal_doc um) (UnsealInfoKey (sid_Miner sid) (sid_Number sid) p) \<Longrightarrow> unseal_step um um1"

inductive unseal_reachable :: "unseal_mgr \<Rightarrow> bool" where
  reach_init: "unseal_doc um = no_infos \<Longrightarrow> unseal_reachable um"
| reach_step: "unseal_reachable um \<Longrightarrow> unseal_step um um1 \<Longrightarrow> unseal_reachable um1"

lemma achieve_task_wf:
  assumes "achieve_task k err db = Inr (x, Some db')" "unseal_wf db" "not_waiting db k"
  shows "unseal_wf db'"
proof -
  from assms(1) obtain i i' where i: "map_of (un_Data db) k = Some i"
    "db' = db\<lparr>un_Data := put_entry k i' (un_Data db)\<rparr>" "task_key i' = task_key i"
    by (auto simp: achieve_task_def Let_def split: option.splits if_splits)
  with unseal_wf_replace [OF assms(2) i(1)] assms(2,3) show ?thesis
    by (auto simp: not_waiting_def dest: unseal_wf_key)
qed

lemma acquire_dest_wf:
  assumes "acquire_dest k db = Inr (x, Some db')" "unseal_wf db" "not_waiting db k"
  shows "unseal_wf db'"
proof -
  from assms(1) obtain i i' where i: "map_of (un_Data db) k = Some i"
    "db' = db\<lparr>un_Data := put_entry k i' (un_Data db)\<rparr>" "task_key i' = task_key i"
    by (auto simp: acquire_dest_def nil_deref_def split: option.splits)
  with unseal_wf_replace [OF assms(2) i(1)] assms(2,3) show ?thesis
    by (auto simp: not_waiting_def dest: unseal_wf_key)
qed

lemma unseal_step_wf:
  assumes "unseal_step um um1" "unseal_wf (unseal_doc um)"
  shows "unseal_wf (unseal_doc um1)"
  using assms(1)
proof (cases rule: unseal_step.cases)
  case step_set
  then show ?thesis using SetAndCheckD [OF step_set] assms(2) set_and_check_wf by fastforce
next
  case step_hook
  then show ?thesis using assms(2) by (simp add: OnAchieve_def unseal_doc_def Let_def)
next
  case (step_allocate ca cfg pick spec r)
  obtain cands c1 where c: "candidates ca cfg (spec_AllowedMiners spec) (spec_AllowedProofTypes spec)
      (\<lambda>m. True) (um_cache um) = (cands, c1)" by fastforce
  from unseal_AllocateD [OF step_allocate(1) c] show ?thesis
  proof (elim disjE exE conjE)
    fix f q kv1
    assume f: "f = (\<lambda>db. if length (un_AllocIndex db) = 0 then Inr (None, None)
        else take_task pick (map the cands) db)"
      and run: "unseal_loadAndUpdate f (um_kv um) = (q, kv1)" and kv: "um_kv um1 = kv1"
    have "unseal_wf (document unsealInfoKey no_infos kv1)"
    proof (rule udoc.cycle_preserves [OF run])
      show "unseal_wf (document unsealInfoKey no_infos (um_kv um))" using assms(2) by (simp add: unseal_doc_def)
    next
      fix a d
      assume "f (document unsealInfoKey no_infos (um_kv um)) = Inr (a, Some d)"
      then show "unseal_wf d" using take_task_wf assms(2) step_allocate(2)
        by (auto simp: f unseal_doc_def split: if_splits)
    qed
    then show ?thesis by (simp add: unseal_doc_def kv)
  qed (use assms(2) in simp)
next
  case step_achieve
  then show ?thesis using AchieveD [OF step_achieve(1)] assms(2) achieve_task_wf by fastforce
next
  case step_acquire
  then show ?thesis using AcquireDestD [OF step_acquire(1)] assms(2) acquire_dest_wf by fastforce
qed

lemma unseal_reachable_wf: "unseal_reachable um \<Longrightarrow> unseal_wf (unseal_doc um)"
  by (induction rule: unseal_reachable.induct) (auto intro: unseal_step_wf)


lemma waiting_index_nonempty: "indexed db a k \<Longrightarrow> un_AllocIndex db \<noteq> []"
  by (auto simp: indexed_def)

section \<open>Properties\<close>

text \<open>C17. In every state reached under the workers' protocol, \<open>Allocate\<close> never panics. It hands out a
  waiting task of one of the request's miners, which is then unsealing and no longer waiting for any
  worker, while every other task stays as it is; it answers with nothing only when no task of those
  miners is waiting.\<close>

theorem unseal_Allocate_correct:
  assumes "unseal_reachable um" "picks pick" "unseal_Allocate ca cfg pick spec um = (r, um1)"
    and "candidates ca cfg (spec_AllowedMiners spec) (spec_AllowedProofTypes spec)
      (\<lambda>m. True) (um_cache um) = (cands, c1)"
  shows "case r of
      Inl e \<Rightarrow> \<not> is_panic e \<and> unseal_doc um1 = unseal_doc um
    | Inr None \<Rightarrow> unseal_doc um1 = unseal_doc um \<and>
        (\<forall>a \<in> set (cand_ids cands). \<forall>k. \<not> indexed (unseal_doc um) a k)
    | Inr (Some task) \<Rightarrow> us_State task = UnsealStateUnsealing \<and>
        (\<exists>a \<in> set (cand_ids cands). indexed (unseal_doc um) a (task_key task)) \<and>
        (\<forall>a. \<not> indexed (unseal_doc um1) a (task_key task)) \<and>
        map_of (un_Data (unseal_doc um1)) = (map_of (un_Data (unseal_doc um)))(task_key task \<mapsto> task)"
  using unseal_AllocateD [OF assms(3,4)]
proof (elim disjE exE conjE)
  assume "cands = []" "r = Inr None" "unseal_doc um1 = unseal_doc um"
  then show ?thesis by (simp add: cand_ids_def)
next
  fix f q kv1
  let ?db = "unseal_doc um"
  assume f: "f = (\<lambda>db. if length (un_AllocIndex db) = 0 then Inr (None, None)
        else take_task pick (map the cands) db)"
    and run: "unseal_loadAndUpdate f (um_kv um) = (q, kv1)" and kv: "um_kv um1 = kv1"
    and r: "r = map_err (wrap_err ''allocate unseal info'') q"
  note law = udoc.cycle_law [OF run, folded unseal_doc_def, folded kv, folded unseal_doc_def]
  have wf: "unseal_wf ?db" using unseal_reachable_wf [OF assms(1)] .
  have ids: "set (cand_ids cands) = (\<lambda>c. min_ID (ca_info c)) ` set (map the cands)"
    by (auto simp: cand_ids_def)
  from take_task_cases [OF wf assms(2), of "map the cands"] show ?thesis
  proof (elim disjE exE conjE)
    assume "take_task pick (map the cands) ?db = Inr (None, None)"
      "\<forall>c\<in>set (map the cands). \<forall>k. \<not> indexed ?db (min_ID (ca_info c)) k"
    then show ?thesis using law r ids
      by (auto simp: f wrap_err_def is_panic_def store_err_def split: if_splits)
  next
    fix c k task task' db'
    assume c: "c \<in> set (map the cands)" "indexed ?db (min_ID (ca_info c)) k"
      "map_of (un_Data ?db) k = Some task"
      "task' = task\<lparr>us_Sector := (us_Sector task)\<lparr>as_ProofType := min_SealProofType (ca_info c)\<rparr>,
         us_State := UnsealStateUnsealing\<rparr>"
      and run: "take_task pick (map the cands) ?db = Inr (Some task', Some db')"
      and data: "map_of (un_Data db') = (map_of (un_Data ?db))(k \<mapsto> task')"
      and ix: "\<forall>a k'. indexed db' a k' = (indexed ?db a k' \<and> \<not> (a = min_ID (ca_info c) \<and> k' = k))"
    have key: "task_key task' = k" using c(3,4) unseal_wf_key [OF wf] by simp
    have fr: "f ?db = Inr (Some task', Some db')"
      using run waiting_index_nonempty [OF c(2)] by (simp add: f)
    have gone: "\<not> indexed db' a k" for a
      using ix unseal_wf_indexed [OF wf] c(2) by (metis option.inject)
    from law fr have "(\<exists>e. q = Inl e \<and> store_err e \<and> unseal_doc um1 = ?db) \<or>
        q = Inr (Some task') \<and> unseal_doc um1 = db'" by auto
    then show ?thesis
    proof (elim disjE exE conjE)
      assume q: "q = Inr (Some task')" "unseal_doc um1 = db'"
      have "us_State task' = UnsealStateUnsealing" by (simp add: c(4))
      moreover have "\<exists>a\<in>set (cand_ids cands). indexed ?db a (task_key task')"
        unfolding ids key using c(1,2) by blast
      ultimately show ?thesis using r q key gone data by simp
    qed (use r in \<open>auto simp: wrap_err_def is_panic_def store_err_def\<close>)
  qed
qed

text \<open>A task that is achieved before a worker has taken it breaks the index: the poll that forgets
  the finished task leaves its key in the index, and the next allocation for its miner reads through
  a nil pointer.\<close>

theorem finished_untaken_task_panics:
  assumes "map_of (un_Data db) (task_key info) = Some info" "us_State info = UnsealStateFinished"
    and "d \<in> set (us_Dest info)"
    and "map_of (un_AllocIndex db) (sid_Miner (as_ID (us_Sector info))) = Some [task_key info]"
    and "min_ID (ca_info c) = sid_Miner (as_ID (us_Sector info))" "picks pick"
  shows "\<exists>st db'. set_and_check (task_key info) req d db = Inr (st, Some db') \<and>
    take_task pick (c # cs) db' = nil_deref"
proof -
  have "pick 1 < 1" using assms(6) by (simp only: picks_def)
  then have "pick 1 = 0" by simp
  moreover have "list_ex (\<lambda>v. v = d) (us_Dest info)" using assms(3) by (simp add: list_ex_iff)
  ultimately show ?thesis using assms(1,2,4,5) by (auto simp: set_and_check_def)
qed

definition demo_task :: unseal_info where
  "demo_task = \<lparr>us_Sector = \<lparr>as_ID = \<lparr>sid_Miner = 1000, sid_Number = 7\<rparr>, as_ProofType = 5\<rparr>,
     us_PieceCid = ''baga'', us_Offset = 0, us_Size = 127, us_AccessInstance = ''store-1'',
     us_Ticket = \<lparr>tk_Ticket = [], tk_Epoch = 0\<rparr>, us_CommD = [], us_Dest = [''file:///tmp/p''],
     us_State = UnsealStateSet, us_ErrorInfo = []\<rparr>"

definition demo_unseal :: unseal_mgr where
  "demo_unseal = \<lparr>um_kv = empty_store, um_cache = Map.empty, um_onAchieve = Map.empty, um_fired = []\<rparr>"

definition demo_candidate :: candidate where
  "demo_candidate = \<lparr>ca_info = \<lparr>min_ID = 1000, min_Addr = IDAddress 1000, min_SectorSize = 2048,
     min_WindowPoStProofType = 0, min_SealProofType = 5\<rparr>, ca_cfg = defaultMinerSectorConfig False\<rparr>"

theorem unseal_Allocate_correct_witness:
  "fst (unseal_Allocate demo_chain demo_cfg (\<lambda>_. 0) demo_spec demo_unseal) = Inr None"
proof -
  obtain r um1 where run: "unseal_Allocate demo_chain demo_cfg (\<lambda>_. 0) demo_spec demo_unseal = (r, um1)"
    by fastforce
  obtain cands c1 where c: "candidates demo_chain demo_cfg (spec_AllowedMiners demo_spec)
      (spec_AllowedProofTypes demo_spec) (\<lambda>m. True) (um_cache demo_unseal) = (cands, c1)"
    by fastforce
  have "unseal_doc demo_unseal = no_infos"
    by (simp add: unseal_doc_def demo_unseal_def document_def empty_store_def)
  then have reach: "unseal_reachable demo_unseal" by (rule reach_init)
  have "\<exists>x. r = Inr x" using run
    by (auto simp: unseal_Allocate_def demo_unseal_def empty_store_def unseal_loadAndUpdate_def
        doc_loadAndUpdate_def doc_cycle_def doc_save_def no_infos_def split: prod.splits if_splits)
  moreover have "\<not> indexed (unseal_doc demo_unseal) a k" for a k
    using \<open>unseal_doc demo_unseal = no_infos\<close> by (simp add: indexed_def no_infos_def)
  ultimately show ?thesis
    using unseal_Allocate_correct [OF reach demo_alloc_ok(1) run c] run
    by (auto split: option.splits)
qed

theorem finished_untaken_task_panics_witness:
  "\<exists>st db'. set_and_check (task_key demo_task) demo_task ''file:///tmp/p''
      \<lparr>un_AllocIndex = [(1000, [task_key demo_task])],
       un_Data = [(task_key demo_task, demo_task\<lparr>us_State := UnsealStateFinished\<rparr>)]\<rparr> = Inr (st, Some db') \<and>
    take_task (\<lambda>_. 0) [demo_candidate] db' = nil_deref"
  using finished_untaken_task_panics [of "\<lparr>un_AllocIndex = [(1000, [task_key demo_task])],
       un_Data = [(task_key demo_task, demo_task\<lparr>us_State := UnsealStateFinished\<rparr>)]\<rparr>"
     "demo_task\<lparr>us_State := UnsealStateFinished\<rparr>" "''file:///tmp/p''" demo_candidate "\<lambda>_. 0" demo_task "[]"]
  by (simp add: picks_def demo_candidate_def) (simp add: demo_task_def)

text \<open>The hooks registered for a task run once: the first successful achievement runs all of them in
  the order of registration and forgets them, a later one runs none, and a failed unsealing runs none.\<close>

theorem Achieve_fires_once:
  assumes "Achieve sid p err um = (Inr (), um1)" "key = UnsealInfoKey (sid_Miner sid) (sid_Number sid) p"
    and "Achieve sid p err2 um1 = (r, um2)"
  shows "um_fired um1 = um_fired um @ (if err = [] then (case um_onAchieve um key of None \<Rightarrow> [] | Some hs \<Rightarrow> hs) else []) \<and>
    (err = [] \<longrightarrow> um_onAchieve um1 key = None \<and> um_fired um2 = um_fired um1)"
proof -
  have one: "um_fired um1 = um_fired um @ (if err = [] then (case um_onAchieve um key of None \<Rightarrow> [] | Some hs \<Rightarrow> hs) else []) \<and>
      (err = [] \<longrightarrow> um_onAchieve um1 key = None)"
    using assms(1) unfolding Achieve_def assms(2)
    by (auto simp: Let_def split: prod.splits sum.splits if_splits option.splits)
  have "um_fired um2 = um_fired um1" if "um_onAchieve um1 key = None"
    using assms(3) that unfolding Achieve_def assms(2)
    by (auto simp: Let_def split: prod.splits sum.splits if_splits option.splits)
  with one show ?thesis by blast
qed

theorem Achieve_fires_once_witness:
  "um_fired (snd (Achieve \<lparr>sid_Miner = 1000, sid_Number = 7\<rparr> ''baga'' []
     \<lparr>um_kv = \<lparr>kv_data = [(unsealInfoKey, Json \<lparr>un_AllocIndex = [], un_Data = [(task_key demo_task, demo_task)]\<rparr>)],
        kv_script = []\<rparr>, um_cache = Map.empty,
      um_onAchieve = [task_key demo_task \<mapsto> [3, 4]], um_fired = []\<rparr>)) = [3, 4]"
proof -
  let ?um = "\<lparr>um_kv = \<lparr>kv_data = [(unsealInfoKey, Json \<lparr>un_AllocIndex = [], un_Data = [(task_key demo_task, demo_task)]\<rparr>)],
        kv_script = []\<rparr>, um_cache = Map.empty,
      um_onAchieve = [task_key demo_task \<mapsto> [3, 4]], um_fired = []\<rparr>"
  let ?sid = "\<lparr>sid_Miner = 1000, sid_Number = 7\<rparr> :: sector_id"
  let ?um1 = "snd (Achieve ?sid ''baga'' [] ?um)"
  have k: "UnsealInfoKey 1000 7 ''baga'' = task_key demo_task" by (simp add: task_key_def demo_task_def)
  have run: "Achieve ?sid ''baga'' [] ?um = (Inr (), ?um1)"
    by (simp add: Achieve_def Let_def k unseal_loadAndUpdate_def doc_loadAndUpdate_def doc_cycle_def doc_decode_def
        doc_save_def achieve_task_def)
  obtain r um2 where "Achieve ?sid ''baga'' [] ?um1 = (r, um2)" by fastforce
  from Achieve_fires_once [OF run refl this] show ?thesis by (simp add: k)
qed

end
