(* ===== verification/State_Manager.thy ===== *)
theory State_Manager
  imports Core_Types
begin

text \<open>
  The sector state manager (\<open>modules/impl/sectors/state_mgr.go\<close>): two key-value stores of sector
  states, one for sectors a worker is on (online) and one for sectors at rest (offline), and the
  operations that create, load, change and move states between them. Every operation takes the
  sector's lock for its whole duration, so an operation is one step. The callbacks of loaded
  plugins cannot fail an operation; that they are called is recorded in \<open>sm_events\<close>.
\<close>

section \<open>Keys and field values\<close>

definition makeSectorKey :: "sector_id \<Rightarrow> key" where
  "makeSectorKey sid = ''m-'' @ dec64 (sid_Miner sid) @ ''-n-'' @ dec64 (sid_Number sid)"

text \<open>The dynamic values callers pass to \<open>Update\<close> and \<open>InitWith\<close>. The code assigns a value to
  the field of \<open>SectorState\<close> with exactly the value's type; the types of the fields are pairwise
  different, so the type names the field. \<open>FNil\<close> is an untyped nil, \<open>FOther\<close> a value of any other
  type.\<close>

datatype field_val =
    FID sector_id | FSectorType seal_proof | FTicket "ticket option" | FSeed "seed option"
  | FLegacyPieces "legacy_deal_info list" | FPieces "sector_piece_v2 list"
  | FPre "precommit_info option" | FProof "proof_info option" | FMessageInfo message_info
  | FTerminateInfo terminate_info | FLatestState "report_state_req option"
  | FFinalized bool | FRemoved bool | FAbortReason string | FUpgraded bool
  | FUpgradePublic "sector_public_info option" | FUpgradedInfo "sector_upgraded_info option"
  | FUpgradeMessageID "string option" | FUpgradeLandedEpoch "epoch option" | FImported bool
  | FNeedRebuild bool | FUnsealing bool | FNil | FOther string

fun processStateField :: "field_val \<Rightarrow> sector_state \<Rightarrow> sector_state res" where
  "processStateField FNil st = Inl (Errorf ''invalid field value'')"
| "processStateField (FOther ty) st = Inl (Errorf (''field not found for type '' @ ty))"
| "processStateField (FID x) st = Inr (st\<lparr>ss_ID := x\<rparr>)"
| "processStateField (FSectorType x) st = Inr (st\<lparr>ss_SectorType := x\<rparr>)"
| "processStateField (FTicket x) st = Inr (st\<lparr>ss_Ticket := x\<rparr>)"
| "processStateField (FSeed x) st = Inr (st\<lparr>ss_Seed := x\<rparr>)"
| "processStateField (FLegacyPieces x) st = Inr (st\<lparr>ss_LegacyPieces := x\<rparr>)"
| "processStateField (FPieces x) st = Inr (st\<lparr>ss_Pieces := x\<rparr>)"
| "processStateField (FPre x) st = Inr (st\<lparr>ss_Pre := x\<rparr>)"
| "processStateField (FProof x) st = Inr (st\<lparr>ss_Proof := x\<rparr>)"
| "processStateField (FMessageInfo x) st = Inr (st\<lparr>ss_MessageInfo := x\<rparr>)"
| "processStateField (FTerminateInfo x) st = Inr (st\<lparr>ss_TerminateInfo := x\<rparr>)"
| "processStateField (FLatestState x) st = Inr (st\<lparr>ss_LatestState := x\<rparr>)"
| "processStateField (FFinalized x) st = Inr (st\<lparr>ss_Finalized := x\<rparr>)"
| "processStateField (FRemoved x) st = Inr (st\<lparr>ss_Removed := x\<rparr>)"
| "processStateField (FAbortReason x) st = Inr (st\<lparr>ss_AbortReason := x\<rparr>)"
| "processStateField (FUpgraded x) st = Inr (st\<lparr>ss_Upgraded := x\<rparr>)"
| "processStateField (FUpgradePublic x) st = Inr (st\<lparr>ss_UpgradePublic := x\<rparr>)"
| "processStateField (FUpgradedInfo x) st = Inr (st\<lparr>ss_UpgradedInfo := x\<rparr>)"
| "processStateField (FUpgradeMessageID x) st = Inr (st\<lparr>ss_UpgradeMessageID := x\<rparr>)"
| "processStateField (FUpgradeLandedEpoch x) st = Inr (st\<lparr>ss_UpgradeLandedEpoch := x\<rparr>)"
| "processStateField (FImported x) st = Inr (st\<lparr>ss_Imported := x\<rparr>)"
| "processStateField (FNeedRebuild x) st = Inr (st\<lparr>ss_NeedRebuild := x\<rparr>)"
| "processStateField (FUnsealing x) st = Inr (st\<lparr>ss_Unsealing := x\<rparr>)"

fun apply_fields :: "field_val list \<Rightarrow> sector_state \<Rightarrow> sector_state res" where
  "apply_fields [] st = Inr st"
| "apply_fields (v # vs) st = (case processStateField v st of
     Inl e \<Rightarrow> Inl e
   | Inr st1 \<Rightarrow> apply_fields vs st1)"

section \<open>The manager and its stores\<close>

type_synonym state_store = "sector_state json kvs"

datatype plugin_event =
    OnImport worker_state sector_state bool
  | OnInit "allocated_sector list" worker_state
  | OnUpdate sector_id worker_state "field_val list"
  | OnFinalize sector_id
  | OnRestore sector_id

record state_mgr =
  sm_online :: state_store
  sm_offline :: state_store
  sm_events :: "plugin_event list"

definition worker_state_name :: "worker_state \<Rightarrow> string" where
  "worker_state_name ws = (case ws of
     WorkerOnline \<Rightarrow> ''online'' | WorkerOffline \<Rightarrow> ''offline'' | WorkerOther n \<Rightarrow> n)"

definition pickStore :: "worker_state \<Rightarrow> state_mgr \<Rightarrow> state_store res" where
  "pickStore ws sm = (case ws of
     WorkerOnline \<Rightarrow> Inr (sm_online sm)
   | WorkerOffline \<Rightarrow> Inr (sm_offline sm)
   | WorkerOther n \<Rightarrow> Inl (Errorf (''kv for worker state '' @ n @ '' does not exist'')))"

text \<open>The store the pointer returned by \<open>pickStore\<close> refers to, after an operation on it.\<close>

definition put_store :: "worker_state \<Rightarrow> state_store \<Rightarrow> state_mgr \<Rightarrow> state_mgr" where
  "put_store ws kv sm = (case ws of
     WorkerOnline \<Rightarrow> sm\<lparr>sm_online := kv\<rparr>
   | WorkerOffline \<Rightarrow> sm\<lparr>sm_offline := kv\<rparr>
   | WorkerOther n \<Rightarrow> sm)"

definition notify :: "plugin_event \<Rightarrow> state_mgr \<Rightarrow> state_mgr" where
  "notify ev sm = sm\<lparr>sm_events := sm_events sm @ [ev]\<rparr>"

definition loadInner :: "key \<Rightarrow> worker_state \<Rightarrow> (state_mgr, sector_state) step" where
  "loadInner k ws sm = (case pickStore ws sm of
     Inl e \<Rightarrow> (Inl (Wrap ''load'' e), sm)
   | Inr kv \<Rightarrow> (case kv_Peek k unmarshal kv of
        (Inl e, kv1) \<Rightarrow>
          (Inl (Wrap (''load state from '' @ worker_state_name ws) e), put_store ws kv1 sm)
      | (Inr st, kv1) \<Rightarrow> (Inr st, put_store ws kv1 sm)))"

definition save :: "key \<Rightarrow> sector_state \<Rightarrow> worker_state \<Rightarrow> (state_mgr, unit) step" where
  "save k st ws sm = (case pickStore ws sm of
     Inl e \<Rightarrow> (Inl (Wrap ''save'' e), sm)
   | Inr kv \<Rightarrow> (case kv_Put k (Json st) kv of (r, kv1) \<Rightarrow> (r, put_store ws kv1 sm)))"

section \<open>Listing\<close>

fun scan_states :: "worker_job \<Rightarrow> (key \<times> sector_state json) list \<Rightarrow>
    (state_store, sector_state list) step" where
  "scan_states job [] kv = (Inr [], kv)"
| "scan_states job ((k, d) # es) kv = (case iter_View d unmarshal kv of
     (Inl e, kv1) \<Rightarrow> (Inl (Wrap (''scan state item of key '' @ k) e), kv1)
   | (Inr st, kv1) \<Rightarrow> (case scan_states job es kv1 of
        (Inl e, kv2) \<Rightarrow> (Inl e, kv2)
      | (Inr sts, kv2) \<Rightarrow> (Inr (if MatchWorkerJob st job then st # sts else sts), kv2)))"

definition getIter :: "worker_state \<Rightarrow> state_mgr \<Rightarrow> (key \<times> sector_state json) list res" where
  "getIter ws sm = (case pickStore ws sm of
     Inl e \<Rightarrow> Inl (Wrap ''get iter'' e)
   | Inr kv \<Rightarrow> Inr (kv_Scan [] kv))"

definition All :: "worker_state \<Rightarrow> worker_job \<Rightarrow> (state_mgr, sector_state list) step" where
  "All ws job sm = (case getIter ws sm of
     Inl e \<Rightarrow> (Inl (Wrap ''get iter for All'' e), sm)
   | Inr es \<Rightarrow> (case pickStore ws sm of
        Inl e \<Rightarrow> (Inl e, sm)
      | Inr kv \<Rightarrow> (case scan_states job es kv of (r, kv1) \<Rightarrow> (r, put_store ws kv1 sm))))"

text \<open>\<open>ForEach\<close> hands each matching state to a callback, which may act on an environment of its
  own, and stops at the first error.\<close>

fun foreach_states :: "worker_job \<Rightarrow> (sector_state \<Rightarrow> ('e, unit) step) \<Rightarrow>
    (key \<times> sector_state json) list \<Rightarrow> (state_store \<times> 'e, unit) step" where
  "foreach_states job fn [] (kv, env) = (Inr (), kv, env)"
| "foreach_states job fn ((k, d) # es) (kv, env) = (case iter_View d unmarshal kv of
     (Inl e, kv1) \<Rightarrow> (Inl (Wrap (''scan state item of key '' @ k) e), kv1, env)
   | (Inr st, kv1) \<Rightarrow>
       (if \<not> MatchWorkerJob st job then foreach_states job fn es (kv1, env)
        else (case fn st env of
           (Inl e, env1) \<Rightarrow> (Inl (Wrap ''handle sector state'' e), kv1, env1)
         | (Inr _, env1) \<Rightarrow> foreach_states job fn es (kv1, env1))))"

definition ForEach :: "worker_state \<Rightarrow> worker_job \<Rightarrow> (sector_state \<Rightarrow> ('e, unit) step) \<Rightarrow>
    (state_mgr \<times> 'e, unit) step" where
  "ForEach ws job fn st = (case st of (sm, env) \<Rightarrow>
     (case getIter ws sm of
        Inl e \<Rightarrow> (Inl (Wrap ''get iter for ForEach'' e), sm, env)
      | Inr es \<Rightarrow> (case pickStore ws sm of
           Inl e \<Rightarrow> (Inl e, sm, env)
         | Inr kv \<Rightarrow> (case foreach_states job fn es (kv, env) of
              (r, kv1, env1) \<Rightarrow> (r, put_store ws kv1 sm, env1)))))"

section \<open>Creating states\<close>

definition peek_exists :: "key \<Rightarrow> worker_state \<Rightarrow> (state_mgr, unit) step" where
  "peek_exists k ws sm = (case pickStore ws sm of
     Inl e \<Rightarrow> (Inl e, sm)
   | Inr kv \<Rightarrow> (case kv_Peek k (\<lambda>_. Inr ()) kv of (r, kv1) \<Rightarrow> (r, put_store ws kv1 sm)))"

definition Import :: "worker_state \<Rightarrow> sector_state \<Rightarrow> bool \<Rightarrow> (state_mgr, bool) step" where
  "Import ws st override sm =
     (let k = makeSectorKey (ss_ID st);
          store = (\<lambda>sm1. case save k st ws sm1 of
             (Inl e, sm2) \<Rightarrow> (Inl e, sm2)
           | (Inr _, sm2) \<Rightarrow> (Inr True, notify (OnImport ws st override) sm2))
      in if \<not> override then
           (case pickStore ws sm of
              Inl e \<Rightarrow> (Inl (Wrap ''import'' e), sm)
            | Inr _ \<Rightarrow> (case peek_exists k ws sm of
                 (Inr _, sm1) \<Rightarrow> (Inr False, sm1)
               | (Inl e, sm1) \<Rightarrow> if e \<noteq> ErrKeyNotFound then (Inl e, sm1) else store sm1))
         else store sm)"

text \<open>The loop of \<open>InitWith\<close>. It reads and writes through the store, not through the
  transaction it runs in, so each state it saves is committed on its own.\<close>

fun init_sectors :: "allocated_sector list \<Rightarrow> worker_state \<Rightarrow> field_val list \<Rightarrow>
    (state_mgr, unit) step" where
  "init_sectors [] ws fvs sm = (Inr (), sm)"
| "init_sectors (a # as) ws fvs sm =
     (let k = makeSectorKey (as_ID a); st = new_sector_state (as_ID a) (as_ProofType a)
      in case peek_exists k ws sm of
           (Inr _, sm1) \<Rightarrow> (Inl (Errorf (''sector '' @ k @ '' already initialized'')), sm1)
         | (Inl e, sm1) \<Rightarrow>
             if e \<noteq> ErrKeyNotFound then (Inl e, sm1)
             else (case (if length fvs > 0 then apply_fields fvs st else Inr st) of
                Inl e \<Rightarrow> (Inl (Wrap ''apply field vals'' e), sm1)
              | Inr st1 \<Rightarrow> (case save k st1 ws sm1 of
                   (Inl e, sm2) \<Rightarrow> (Inl e, sm2)
                 | (Inr _, sm2) \<Rightarrow> init_sectors as ws fvs sm2)))"

text \<open>One attempt of the surrounding transaction: the loop, the plugins, the (empty) commit.\<close>

definition init_attempt :: "allocated_sector list \<Rightarrow> worker_state \<Rightarrow> field_val list \<Rightarrow>
    (state_mgr, unit) step" where
  "init_attempt as ws fvs sm = (case init_sectors as ws fvs sm of
     (Inl e, sm1) \<Rightarrow> (Inl (conflict_err e), sm1)
   | (Inr _, sm1) \<Rightarrow>
       (let sm2 = notify (OnInit as ws) sm1
        in case pickStore ws sm2 of
             Inl e \<Rightarrow> (Inl e, sm2)
           | Inr kv \<Rightarrow> (case pop_outcome kv of
                (Done, kv1) \<Rightarrow> (Inr (), put_store ws kv1 sm2)
              | (Conflict, kv1) \<Rightarrow> (Inl ErrTransactionConflict, put_store ws kv1 sm2)
              | (Failed m, kv1) \<Rightarrow> (Inl (badger_err m), put_store ws kv1 sm2))))"

definition InitWith :: "allocated_sector list \<Rightarrow> worker_state \<Rightarrow> field_val list \<Rightarrow>
    (state_mgr, unit) step" where
  "InitWith as ws fvs sm = (case pickStore ws sm of
     Inl e \<Rightarrow> (Inl (Wrap ''init'' e), sm)
   | Inr kv \<Rightarrow> retry (attempts kv) (init_attempt as ws fvs) sm)"

definition Init :: "allocated_sector list \<Rightarrow> worker_state \<Rightarrow> (state_mgr, unit) step" where
  "Init as ws sm = InitWith as ws [] sm"

section \<open>Loading, changing and moving states\<close>

definition Load :: "sector_id \<Rightarrow> worker_state \<Rightarrow> (state_mgr, sector_state) step" where
  "Load sid ws sm = loadInner (makeSectorKey sid) ws sm"

definition Update :: "sector_id \<Rightarrow> worker_state \<Rightarrow> field_val list \<Rightarrow> (state_mgr, unit) step" where
  "Update sid ws fvs sm =
     (let k = makeSectorKey sid
      in case loadInner k ws sm of
           (Inl e, sm1) \<Rightarrow> (Inl e, sm1)
         | (Inr st, sm1) \<Rightarrow> (case apply_fields fvs st of
              Inl e \<Rightarrow> (Inl (Wrap ''apply field vals'' e), sm1)
            | Inr st1 \<Rightarrow> (case save k st1 ws sm1 of
                 (Inl e, sm2) \<Rightarrow> (Inl e, sm2)
               | (Inr _, sm2) \<Rightarrow> (Inr (), notify (OnUpdate sid ws fvs) sm2))))"

text \<open>A \<open>SectorStateChangeHook\<close> may change the state it is given and act on its caller's
  environment; it says whether to go on.\<close>

type_synonym 'e hook = "sector_state \<Rightarrow> ('e, bool \<times> sector_state) step"

definition run_hook :: "'e hook option \<Rightarrow> 'e hook" where
  "run_hook h st env = (case h of None \<Rightarrow> (Inr (True, st), env) | Some f \<Rightarrow> f st env)"

definition Finalize :: "sector_id \<Rightarrow> 'e hook option \<Rightarrow> (state_mgr \<times> 'e, unit) step" where
  "Finalize sid onFinalize s = (case s of (sm, env) \<Rightarrow>
     (let k = makeSectorKey sid
      in case loadInner k WorkerOnline sm of
           (Inl e, sm1) \<Rightarrow> (Inl (Wrap ''load from online store'' e), sm1, env)
         | (Inr st, sm1) \<Rightarrow> (case run_hook onFinalize st env of
              (Inl e, env1) \<Rightarrow> (Inl (Wrap ''callback failed before finalize'' e), sm1, env1)
            | (Inr (should, st1), env1) \<Rightarrow>
                if \<not> should then (Inr (), sm1, env1)
                else (case save k (st1\<lparr>ss_Finalized := True\<rparr>) WorkerOffline sm1 of
                   (Inl e, sm2) \<Rightarrow> (Inl (Wrap ''save info into offline store'' e), sm2, env1)
                 | (Inr _, sm2) \<Rightarrow> (case kv_Del k (sm_online sm2) of
                      (Inl e, kv) \<Rightarrow>
                        (Inl (Wrap ''del from online store'' e), sm2\<lparr>sm_online := kv\<rparr>, env1)
                    | (Inr _, kv) \<Rightarrow>
                        (Inr (), notify (OnFinalize sid) (sm2\<lparr>sm_online := kv\<rparr>), env1))))))"

definition Restore :: "sector_id \<Rightarrow> 'e hook option \<Rightarrow> (state_mgr \<times> 'e, unit) step" where
  "Restore sid onRestore s = (case s of (sm, env) \<Rightarrow>
     (let k = makeSectorKey sid
      in case loadInner k WorkerOffline sm of
           (Inl e, sm1) \<Rightarrow> (Inl (Wrap ''load from offline store'' e), sm1, env)
         | (Inr st, sm1) \<Rightarrow> (case run_hook onRestore st env of
              (Inl e, env1) \<Rightarrow> (Inl (Wrap ''callback failed before restore'' e), sm1, env1)
            | (Inr (should, st1), env1) \<Rightarrow>
                if \<not> should then (Inr (), sm1, env1)
                else (case save k (st1\<lparr>ss_Finalized := False\<rparr>) WorkerOnline sm1 of
                   (Inl e, sm2) \<Rightarrow> (Inl (Wrap ''save info into online store'' e), sm2, env1)
                 | (Inr _, sm2) \<Rightarrow> (case kv_Del k (sm_offline sm2) of
                      (Inl e, kv) \<Rightarrow>
                        (Inl (Wrap ''del from offline store'' e), sm2\<lparr>sm_offline := kv\<rparr>, env1)
                    | (Inr _, kv) \<Rightarrow>
                        (Inr (), notify (OnRestore sid) (sm2\<lparr>sm_offline := kv\<rparr>), env1))))))"

section \<open>The abstract view\<close>

text \<open>What the manager holds, as a map from location and sector to document. The operations are
  specified by their effect on it.\<close>

type_synonym sector_view = "worker_state \<Rightarrow> sector_id \<Rightarrow> sector_state json option"

definition view :: "state_mgr \<Rightarrow> sector_view" where
  "view sm ws sid = (case pickStore ws sm of
     Inl _ \<Rightarrow> None | Inr kv \<Rightarrow> map_of (kv_data kv) (makeSectorKey sid))"

definition view_put :: "worker_state \<Rightarrow> sector_id \<Rightarrow> sector_state \<Rightarrow> sector_view \<Rightarrow> sector_view" where
  "view_put ws sid st v = v(ws := (v ws)(sid \<mapsto> Json st))"

definition view_del :: "worker_state \<Rightarrow> sector_id \<Rightarrow> sector_view \<Rightarrow> sector_view" where
  "view_del ws sid v = v(ws := (v ws)(sid := None))"

definition located :: "worker_state \<Rightarrow> bool" where
  "located ws = (ws = WorkerOnline \<or> ws = WorkerOffline)"

lemma makeSectorKey_inject [simp]: "makeSectorKey a = makeSectorKey b \<longleftrightarrow> a = b"
proof
  assume h: "makeSectorKey a = makeSectorKey b"
  then have "sid_Miner a = sid_Miner b \<and> dec64 (sid_Number a) = dec64 (sid_Number b)"
    using separator_inject [of "CHR ''-''" "dec64 (sid_Miner a)" "dec64 (sid_Miner b)"
        "''n-'' @ dec64 (sid_Number a)" "''n-'' @ dec64 (sid_Number b)"]
    by (simp add: makeSectorKey_def)
  then show "a = b" by (cases a, cases b) simp
qed simp

lemma pickStore_simps [simp]:
  "pickStore WorkerOnline sm = Inr (sm_online sm)"
  "pickStore WorkerOffline sm = Inr (sm_offline sm)"
  "\<exists>e. pickStore (WorkerOther n) sm = Inl e"
  by (simp_all add: pickStore_def)

lemma pickStore_put_store [simp]:
  "pickStore ws sm = Inr kv0 \<Longrightarrow> pickStore ws' (put_store ws kv sm) =
    (if ws' = ws then Inr kv else pickStore ws' sm)"
  by (cases ws; cases ws') (simp_all add: pickStore_def put_store_def)

lemma pickStore_notify [simp]: "pickStore ws (notify ev sm) = pickStore ws sm"
  by (simp add: pickStore_def notify_def split: worker_state.splits)

lemma view_notify [simp]: "view (notify ev sm) = view sm"
  by (simp add: view_def fun_eq_iff)

lemma view_simps:
  "view sm WorkerOnline sid = map_of (kv_data (sm_online sm)) (makeSectorKey sid)"
  "view sm WorkerOffline sid = map_of (kv_data (sm_offline sm)) (makeSectorKey sid)"
  by (simp_all add: view_def)

lemma view_put_store:
  "pickStore ws sm = Inr kv \<Longrightarrow> view (put_store ws kv1 sm) =
    (view sm)(ws := (\<lambda>sid. map_of (kv_data kv1) (makeSectorKey sid)))"
  by (auto simp: view_def fun_eq_iff)

lemma view_put_store_same:
  "pickStore ws sm = Inr kv \<Longrightarrow> kv_data kv1 = kv_data kv \<Longrightarrow> view (put_store ws kv1 sm) = view sm"
  by (auto simp: view_put_store view_def fun_eq_iff)

lemma pickStore_Inr_located: "pickStore ws sm = Inr kv \<Longrightarrow> located ws"
  by (cases ws) (simp_all add: pickStore_def located_def)

lemma pickStore_Inl_errors: "pickStore ws sm = Inl e \<Longrightarrow> \<not> errors_is e t \<or> (\<exists>m. t = Errorf m)"
  by (cases ws) (auto simp: pickStore_def)

section \<open>The steps on the view\<close>

lemma loadInnerD:
  assumes "loadInner (makeSectorKey sid) ws sm = (r, sm1)"
  shows "view sm1 = view sm \<and>
    ((\<exists>st. r = Inr st \<and> view sm ws sid = Some (Json st)) \<or>
     (\<exists>e. r = Inl e \<and> (errors_is e ErrKeyNotFound \<longrightarrow> located ws \<and> view sm ws sid = None)))"
proof (cases "pickStore ws sm")
  case (Inl e)
  with assms show ?thesis using pickStore_Inl_errors [OF Inl, of ErrKeyNotFound]
    by (auto simp: loadInner_def)
next
  case (Inr kv)
  obtain q kv1 where q: "kv_Peek (makeSectorKey sid) unmarshal kv = (q, kv1)" by fastforce
  note q' = kv_PeekJsonD [OF q]
  from q' Inr have "view (put_store ws kv1 sm) = view sm"
    by (intro view_put_store_same) auto
  moreover have "view sm ws sid = map_of (kv_data kv) (makeSectorKey sid)"
    using Inr by (simp add: view_def)
  ultimately show ?thesis
    using assms q q' Inr pickStore_Inr_located [OF Inr]
    by (cases q) (auto simp: loadInner_def io_errD)
qed

lemma saveD:
  assumes "save (makeSectorKey sid) st ws sm = (r, sm1)"
  shows "r = Inr () \<and> located ws \<and> view sm1 = view_put ws sid st (view sm) \<or>
    (\<exists>e. r = Inl e \<and> view sm1 = view sm \<and> \<not> errors_is e ErrKeyNotFound)"
proof (cases "pickStore ws sm")
  case (Inl e)
  with assms show ?thesis using pickStore_Inl_errors [OF Inl, of ErrKeyNotFound]
    by (auto simp: save_def)
next
  case (Inr kv)
  obtain q kv1 where q: "kv_Put (makeSectorKey sid) (Json st) kv = (q, kv1)" by fastforce
  from kv_PutD [OF q] show ?thesis
  proof
    assume "q = Inr () \<and> kv_data kv1 = put_entry (makeSectorKey sid) (Json st) (kv_data kv)"
    with assms q Inr show ?thesis
      by (auto simp: save_def view_put_store view_put_def view_def fun_eq_iff
          intro: pickStore_Inr_located)
  next
    assume "\<exists>e. q = Inl e \<and> io_err e \<and> kv_data kv1 = kv_data kv"
    with assms q Inr show ?thesis by (auto simp: save_def view_put_store_same io_errD)
  qed
qed

lemma del_onlineD:
  assumes "kv_Del (makeSectorKey sid) (sm_online sm) = (r, kv)"
  shows "r = Inr () \<and> view (sm\<lparr>sm_online := kv\<rparr>) = view_del WorkerOnline sid (view sm) \<or>
    (\<exists>e. r = Inl e \<and> \<not> errors_is e ErrKeyNotFound \<and> view (sm\<lparr>sm_online := kv\<rparr>) = view sm)"
  using kv_DelD [OF assms]
  by (auto simp: view_def view_del_def pickStore_def fun_eq_iff io_errD split: worker_state.splits)

lemma del_offlineD:
  assumes "kv_Del (makeSectorKey sid) (sm_offline sm) = (r, kv)"
  shows "r = Inr () \<and> view (sm\<lparr>sm_offline := kv\<rparr>) = view_del WorkerOffline sid (view sm) \<or>
    (\<exists>e. r = Inl e \<and> \<not> errors_is e ErrKeyNotFound \<and> view (sm\<lparr>sm_offline := kv\<rparr>) = view sm)"
  using kv_DelD [OF assms]
  by (auto simp: view_def view_del_def pickStore_def fun_eq_iff io_errD split: worker_state.splits)

lemma UpdateD:
  assumes "Update sid ws fvs sm = (r, sm1)"
  shows "(\<exists>st st1. r = Inr () \<and> located ws \<and> view sm ws sid = Some (Json st) \<and>
      apply_fields fvs st = Inr st1 \<and> view sm1 = view_put ws sid st1 (view sm)) \<or>
    (\<exists>e. r = Inl e \<and> view sm1 = view sm)"
proof -
  obtain q sma where q: "loadInner (makeSectorKey sid) ws sm = (q, sma)" by fastforce
  note l = loadInnerD [OF q]
  show ?thesis
  proof (cases q)
    case (Inl e)
    with assms q l show ?thesis by (auto simp: Update_def)
  next
    case (Inr st)
    with l have v: "view sma = view sm" "view sm ws sid = Some (Json st)" by auto
    show ?thesis
    proof (cases "apply_fields fvs st")
      case (Inl e)
      with assms q Inr v show ?thesis by (auto simp: Update_def)
    next
      case (Inr st1)
      obtain q2 smb where s: "save (makeSectorKey sid) st1 ws sma = (q2, smb)" by fastforce
      from saveD [OF s] assms q \<open>q = Inr st\<close> v Inr s show ?thesis
        by (auto simp: Update_def)
    qed
  qed
qed

lemma UpdateD_notfound:
  assumes "Update sid ws fvs sm = (Inl e, sm1)" "errors_is e ErrKeyNotFound"
  shows "view sm ws sid = None"
proof -
  have pf: "\<not> errors_is e' ErrKeyNotFound" if "apply_fields fs st = Inl e'" for fs st e'
    using that
  proof (induction fs arbitrary: st)
    case (Cons f fs)
    then show ?case by (cases "processStateField f st"; cases f) auto
  qed simp
  obtain q sma where q: "loadInner (makeSectorKey sid) ws sm = (q, sma)" by fastforce
  note l = loadInnerD [OF q]
  show ?thesis
  proof (cases q)
    case (Inl e')
    with assms q l show ?thesis by (auto simp: Update_def)
  next
    case (Inr st)
    then show ?thesis
    proof (cases "apply_fields fvs st")
      case (Inl e')
      with assms q \<open>q = Inr st\<close> pf [OF Inl] show ?thesis by (auto simp: Update_def)
    next
      case (Inr st1)
      obtain q2 smb where s: "save (makeSectorKey sid) st1 ws sma = (q2, smb)" by fastforce
      from saveD [OF s] assms q \<open>q = Inr st\<close> Inr s show ?thesis
        by (auto simp: Update_def split: sum.splits)
    qed
  qed
qed

lemma FinalizeD:
  assumes "Finalize sid h (sm, env) = (r, sm1, env1)"
  shows "(\<exists>st st1. r = Inr () \<and> view sm WorkerOnline sid = Some (Json st) \<and>
      run_hook h st env = (Inr (True, st1), env1) \<and>
      view sm1 = view_del WorkerOnline sid
        (view_put WorkerOffline sid (st1\<lparr>ss_Finalized := True\<rparr>) (view sm))) \<or>
    (\<exists>st st1. r = Inr () \<and> view sm WorkerOnline sid = Some (Json st) \<and>
      run_hook h st env = (Inr (False, st1), env1) \<and> view sm1 = view sm) \<or>
    (\<exists>e. r = Inl e \<and> (view sm1 = view sm \<or>
      (\<exists>st st1. view sm WorkerOnline sid = Some (Json st) \<and>
        run_hook h st env = (Inr (True, st1), env1) \<and>
        view sm1 = view_put WorkerOffline sid (st1\<lparr>ss_Finalized := True\<rparr>) (view sm))))"
proof -
  obtain q sma where q: "loadInner (makeSectorKey sid) WorkerOnline sm = (q, sma)" by fastforce
  note l = loadInnerD [OF q]
  show ?thesis
  proof (cases q)
    case (Inl e)
    with assms q l show ?thesis by (auto simp: Finalize_def)
  next
    case (Inr st)
    with l have v: "view sma = view sm" "view sm WorkerOnline sid = Some (Json st)" by auto
    obtain hr env' where h: "run_hook h st env = (hr, env')" by fastforce
    consider (err) e where "hr = Inl e" | (no) st1 where "hr = Inr (False, st1)"
      | (yes) st1 where "hr = Inr (True, st1)"
      by (metis (full_types) sum.exhaust surj_pair)
    then show ?thesis
    proof cases
      case err
      with assms q Inr v h show ?thesis by (auto simp: Finalize_def)
    next
      case no
      with assms q Inr v h show ?thesis by (auto simp: Finalize_def)
    next
      case st1: yes
      obtain q2 smb where
        s: "save (makeSectorKey sid) (st1\<lparr>ss_Finalized := True\<rparr>) WorkerOffline sma = (q2, smb)"
        by fastforce
      obtain q3 kv where d: "kv_Del (makeSectorKey sid) (sm_online smb) = (q3, kv)" by fastforce
      from saveD [OF s] del_onlineD [OF d] assms q Inr v h st1 s d show ?thesis
        by (auto simp: Finalize_def)
    qed
  qed
qed

lemma RestoreD:
  assumes "Restore sid h (sm, env) = (r, sm1, env1)"
  shows "(\<exists>st st1. r = Inr () \<and> view sm WorkerOffline sid = Some (Json st) \<and>
      run_hook h st env = (Inr (True, st1), env1) \<and>
      view sm1 = view_del WorkerOffline sid
        (view_put WorkerOnline sid (st1\<lparr>ss_Finalized := False\<rparr>) (view sm))) \<or>
    (\<exists>st st1. r = Inr () \<and> view sm WorkerOffline sid = Some (Json st) \<and>
      run_hook h st env = (Inr (False, st1), env1) \<and> view sm1 = view sm) \<or>
    (\<exists>e. r = Inl e \<and> (view sm1 = view sm \<or>
      (\<exists>st st1. view sm WorkerOffline sid = Some (Json st) \<and>
        run_hook h st env = (Inr (True, st1), env1) \<and>
        view sm1 = view_put WorkerOnline sid (st1\<lparr>ss_Finalized := False\<rparr>) (view sm))))"
proof -
  obtain q sma where q: "loadInner (makeSectorKey sid) WorkerOffline sm = (q, sma)" by fastforce
  note l = loadInnerD [OF q]
  show ?thesis
  proof (cases q)
    case (Inl e)
    with assms q l show ?thesis by (auto simp: Restore_def)
  next
    case (Inr st)
    with l have v: "view sma = view sm" "view sm WorkerOffline sid = Some (Json st)" by auto
    obtain hr env' where h: "run_hook h st env = (hr, env')" by fastforce
    consider (err) e where "hr = Inl e" | (no) st1 where "hr = Inr (False, st1)"
      | (yes) st1 where "hr = Inr (True, st1)"
      by (metis (full_types) sum.exhaust surj_pair)
    then show ?thesis
    proof cases
      case err
      with assms q Inr v h show ?thesis by (auto simp: Restore_def)
    next
      case no
      with assms q Inr v h show ?thesis by (auto simp: Restore_def)
    next
      case st1: yes
      obtain q2 smb where
        s: "save (makeSectorKey sid) (st1\<lparr>ss_Finalized := False\<rparr>) WorkerOnline sma = (q2, smb)"
        by fastforce
      obtain q3 kv where d: "kv_Del (makeSectorKey sid) (sm_offline smb) = (q3, kv)" by fastforce
      from saveD [OF s] del_offlineD [OF d] assms q Inr v h st1 s d show ?thesis
        by (auto simp: Restore_def)
    qed
  qed
qed

lemma peek_existsD:
  assumes "peek_exists (makeSectorKey sid) ws sm = (r, sm1)"
  shows "view sm1 = view sm \<and> (r = Inr () \<and> view sm ws sid \<noteq> None \<or>
    r = Inl ErrKeyNotFound \<and> view sm ws sid = None \<or> (\<exists>e. r = Inl e \<and> e \<noteq> ErrKeyNotFound))"
proof (cases "pickStore ws sm")
  case (Inl e)
  with assms show ?thesis by (cases ws) (auto simp: peek_exists_def pickStore_def)
next
  case (Inr kv)
  obtain q kv1 where q: "kv_Peek (makeSectorKey sid) (\<lambda>_. Inr ()) kv = (q, kv1)" by fastforce
  have "decoder (\<lambda>_::sector_state json. Inr ())" by (simp add: decoder_def)
  note q' = kv_PeekD [OF this q]
  then have "view (put_store ws kv1 sm) = view sm" using Inr by (intro view_put_store_same) auto
  with q' assms q Inr show ?thesis
    by (auto simp: peek_exists_def view_def dest: io_errD)
qed

section \<open>Creation never overwrites\<close>

text \<open>A view grows by new sectors of the list, each with its initial state; nothing else
  changes.\<close>

definition grown :: "allocated_sector list \<Rightarrow> worker_state \<Rightarrow> field_val list \<Rightarrow>
    sector_view \<Rightarrow> sector_view \<Rightarrow> bool" where
  "grown as ws fvs v v' = (\<forall>ws' sid. v' ws' sid = v ws' sid \<or>
     (ws' = ws \<and> v ws' sid = None \<and> (\<exists>a\<in>set as. \<exists>st. as_ID a = sid \<and>
       apply_fields fvs (new_sector_state (as_ID a) (as_ProofType a)) = Inr st \<and>
       v' ws' sid = Some (Json st))))"

lemma grown_refl [simp, intro]: "grown as ws fvs v v"
  by (simp add: grown_def)

lemma grown_trans: "grown as ws fvs u v \<Longrightarrow> grown as ws fvs v w \<Longrightarrow> grown as ws fvs u w"
  unfolding grown_def by (metis option.distinct(1))

lemma grown_mono: "grown as ws fvs u v \<Longrightarrow> set as \<subseteq> set bs \<Longrightarrow> grown bs ws fvs u v"
  unfolding grown_def by (meson subsetD)

lemma grown_keeps: "grown as ws fvs v v' \<Longrightarrow> v ws' sid = Some d \<Longrightarrow> v' ws' sid = Some d"
  unfolding grown_def by (metis option.distinct(1))

lemma grown_view_put:
  "a \<in> set as \<Longrightarrow> v ws (as_ID a) = None \<Longrightarrow>
   apply_fields fvs (new_sector_state (as_ID a) (as_ProofType a)) = Inr st \<Longrightarrow>
   grown as ws fvs v (view_put ws (as_ID a) st v)"
  by (auto simp: grown_def view_put_def)

definition initialized :: "allocated_sector list \<Rightarrow> worker_state \<Rightarrow> field_val list \<Rightarrow>
    sector_view \<Rightarrow> bool" where
  "initialized as ws fvs v = (\<forall>a\<in>set as. \<exists>st.
     apply_fields fvs (new_sector_state (as_ID a) (as_ProofType a)) = Inr st \<and>
     v ws (as_ID a) = Some (Json st))"

lemma init_sectorsD:
  assumes "init_sectors as ws fvs sm = (r, sm1)"
  shows "grown as ws fvs (view sm) (view sm1) \<and> (r = Inr () \<longrightarrow> initialized as ws fvs (view sm1))"
  using assms
proof (induction as arbitrary: sm)
  case Nil
  then show ?case by (simp add: initialized_def)
next
  case (Cons a as)
  let ?k = "makeSectorKey (as_ID a)" and ?st = "new_sector_state (as_ID a) (as_ProofType a)"
  obtain q sma where q: "peek_exists ?k ws sm = (q, sma)" by fastforce
  note p = peek_existsD [OF q]
  show ?case
  proof (cases "q = Inl ErrKeyNotFound")
    case False
    with Cons.prems q p show ?thesis by (auto simp: Let_def split: sum.splits)
  next
    case True
    with p have v: "view sma = view sm" "view sm ws (as_ID a) = None" by auto
    have af: "(if 0 < length fvs then apply_fields fvs ?st else Inr ?st) = apply_fields fvs ?st"
      by (cases fvs) simp_all
    show ?thesis
    proof (cases "apply_fields fvs ?st")
      case (Inl e)
      with Cons.prems q True v af show ?thesis by (auto simp: Let_def)
    next
      case (Inr st)
      obtain q2 smb where s: "save ?k st ws sma = (q2, smb)" by fastforce
      show ?thesis
      proof (cases q2)
        case (Inl e)
        with saveD [OF s] Cons.prems q True v af Inr s \<open>apply_fields fvs ?st = Inr st\<close>
        show ?thesis by (auto simp: Let_def)
      next
        case ok: (Inr u)
        with saveD [OF s] v have vb: "view smb = view_put ws (as_ID a) st (view sm)" by auto
        from Cons.prems q True af Inr s ok have "init_sectors as ws fvs smb = (r, sm1)"
          by (simp add: Let_def)
        note IH = Cons.IH [OF this]
        have "grown (a # as) ws fvs (view sm) (view smb)"
          using v vb Inr grown_view_put [of a "a # as"] by simp
        moreover have "grown (a # as) ws fvs (view smb) (view sm1)"
          using IH grown_mono [of as ws fvs _ _ "a # as"] by auto
        ultimately have "grown (a # as) ws fvs (view sm) (view sm1)" by (rule grown_trans)
        moreover have "view smb ws (as_ID a) = Some (Json st)" by (simp add: vb view_put_def)
        then have "view sm1 ws (as_ID a) = Some (Json st)"
          by (rule grown_keeps [OF conjunct1 [OF IH]])
        ultimately show ?thesis using IH Inr by (auto simp: initialized_def)
      qed
    qed
  qed
qed

lemma init_attemptD:
  assumes "init_attempt as ws fvs sm = (r, sm1)"
  shows "grown as ws fvs (view sm) (view sm1) \<and> (r = Inr () \<longrightarrow> initialized as ws fvs (view sm1))"
proof -
  obtain q sma where q: "init_sectors as ws fvs sm = (q, sma)" by fastforce
  note i = init_sectorsD [OF q]
  show ?thesis
  proof (cases q)
    case (Inl e)
    with assms q i show ?thesis by (auto simp: init_attempt_def)
  next
    case (Inr u)
    have same: "view (put_store ws kv1 (notify ev sma)) = view sma"
      if "pickStore ws sma = Inr kv" "pop_outcome kv = (p, kv1)" for kv kv1 p ev
      using that view_put_store_same [of ws "notify ev sma" kv kv1]
      by (simp add: pop_outcome_data)
    with assms q i Inr show ?thesis
      by (fastforce simp: init_attempt_def Let_def split: sum.splits prod.splits outcome.splits)
  qed
qed

lemma retry_relates:
  assumes "\<And>s r s1. f s = (r, s1) \<Longrightarrow> R s s1 \<and> (\<forall>a. r = Inr a \<longrightarrow> P a s1)"
    and "\<And>s. R s s" and "\<And>a b c. R a b \<Longrightarrow> R b c \<Longrightarrow> R a c"
    and "retry n f s = (r, s1)"
  shows "R s s1 \<and> (\<forall>a. r = Inr a \<longrightarrow> P a s1)"
  using assms(4)
proof (induction n arbitrary: s)
  case 0
  with assms(2) show ?case by auto
next
  case (Suc n)
  obtain q t where f: "f s = (q, t)" by fastforce
  note st = assms(1) [OF f]
  show ?case
  proof (cases "\<exists>e. q = Inl e \<and> errors_is e ErrTransactionConflict")
    case True
    with Suc f have "R t s1 \<and> (\<forall>a. r = Inr a \<longrightarrow> P a s1)" by auto
    with st assms(3) show ?thesis by blast
  next
    case False
    with Suc.prems f have "q = r" "t = s1" by (auto split: sum.splits)
    with st show ?thesis by simp
  qed
qed

lemma InitWithD:
  assumes "InitWith as ws fvs sm = (r, sm1)"
  shows "grown as ws fvs (view sm) (view sm1) \<and> (r = Inr () \<longrightarrow> initialized as ws fvs (view sm1))"
proof (cases "pickStore ws sm")
  case (Inl e)
  with assms show ?thesis by (auto simp: InitWith_def)
next
  case (Inr kv)
  with assms have run: "retry (attempts kv) (init_attempt as ws fvs) sm = (r, sm1)"
    by (simp add: InitWith_def)
  have "grown as ws fvs (view sm) (view sm1) \<and> (\<forall>a. r = Inr a \<longrightarrow> initialized as ws fvs (view sm1))"
    by (rule retry_relates [where R = "\<lambda>s t. grown as ws fvs (view s) (view t)", OF _ _ _ run])
      (auto dest: init_attemptD intro: grown_trans)
  then show ?thesis by auto
qed

lemma ImportD:
  assumes "Import ws st override sm = (r, sm1)"
  shows "(r = Inr True \<and> (override \<or> view sm ws (ss_ID st) = None) \<and>
      view sm1 = view_put ws (ss_ID st) st (view sm)) \<or>
    (r = Inr False \<and> \<not> override \<and> view sm ws (ss_ID st) \<noteq> None \<and> view sm1 = view sm) \<or>
    (\<exists>e. r = Inl e \<and> view sm1 = view sm)"
proof -
  let ?k = "makeSectorKey (ss_ID st)"
  have store: "(q = Inr True \<and> view smb = view_put ws (ss_ID st) st (view sma)) \<or>
      (\<exists>e. q = Inl e \<and> view smb = view sma)"
    if "(case save ?k st ws sma of (Inl e, sm2) \<Rightarrow> (Inl e, sm2)
        | (Inr _, sm2) \<Rightarrow> (Inr True, notify (OnImport ws st b) sm2)) = (q, smb)" for q sma smb b
    using that saveD [of "ss_ID st" st ws sma]
    by (fastforce split: prod.splits sum.splits)
  show ?thesis
  proof (cases override)
    case True
    with assms store [where sma = sm and b = True] show ?thesis by (auto simp: Import_def Let_def)
  next
    case False
    show ?thesis
    proof (cases "pickStore ws sm")
      case (Inl e)
      with assms False show ?thesis by (auto simp: Import_def Let_def)
    next
      case (Inr kv)
      obtain q sma where q: "peek_exists ?k ws sm = (q, sma)" by fastforce
      from peek_existsD [OF q] assms False Inr q store [where sma = sma and b = False] show ?thesis
        by (cases q) (auto simp: Import_def Let_def split: if_splits)
    qed
  qed
qed

lemma scan_statesD:
  assumes "scan_states job es kv = (r, kv1)"
  shows "kv_data kv1 = kv_data kv \<and>
    (\<forall>sts. r = Inr sts \<longrightarrow> (\<exists>all. map snd es = map Json all \<and>
       sts = filter (\<lambda>st. MatchWorkerJob st job) all))"
  using assms
proof (induction es arbitrary: kv r kv1)
  case Nil
  then show ?case by auto
next
  case (Cons e es)
  obtain k d where e: "e = (k, d)" by fastforce
  obtain q kva where q: "iter_View d unmarshal kv = (q, kva)" by fastforce
  have data: "kv_data kva = kv_data kv"
    using q by (auto simp: iter_View_def dest: pop_outcome_data split: prod.splits outcome.splits)
  show ?case
  proof (cases q)
    case (Inl x)
    with Cons.prems e q data show ?thesis by auto
  next
    case (Inr st)
    with q have d: "d = Json st"
      by (auto simp: iter_View_def split: prod.splits outcome.splits)
    obtain q2 kvb where q2: "scan_states job es kva = (q2, kvb)" by fastforce
    from Cons.IH [OF q2] Cons.prems e q Inr q2 data d show ?thesis
      by (cases q2) (auto intro: exI [of _ "st # _"])
  qed
qed

section \<open>The interface the commitment and sealing components use\<close>

text \<open>The part of \<open>core.SectorStateManager\<close> other components are written against.\<close>

locale sector_state_manager =
  fixes load :: "sector_id \<Rightarrow> worker_state \<Rightarrow> 's \<Rightarrow> sector_state res \<times> 's"
    and update :: "sector_id \<Rightarrow> worker_state \<Rightarrow> field_val list \<Rightarrow> 's \<Rightarrow> unit res \<times> 's"
    and sview :: "'s \<Rightarrow> sector_view"
  assumes load_law: "load sid ws s = (r, s1) \<Longrightarrow> sview s1 = sview s \<and>
      ((\<exists>st. r = Inr st \<and> sview s ws sid = Some (Json st)) \<or>
       (\<exists>e. r = Inl e \<and> (errors_is e ErrKeyNotFound \<longrightarrow> sview s ws sid = None)))"
    and update_law: "update sid ws fvs s = (u, s1) \<Longrightarrow>
      (\<exists>st st1. u = Inr () \<and> sview s ws sid = Some (Json st) \<and>
        apply_fields fvs st = Inr st1 \<and> sview s1 = view_put ws sid st1 (sview s)) \<or>
      (\<exists>e. u = Inl e \<and> sview s1 = sview s)"
begin

lemma load_InrD: "load sid ws s = (Inr st, s1) \<Longrightarrow> sview s ws sid = Some (Json st) \<and> sview s1 = sview s"
  using load_law by fastforce

lemma load_InlD: "load sid ws s = (Inl e, s1) \<Longrightarrow> sview s1 = sview s"
  using load_law by fastforce

lemma update_InlD: "update sid ws fvs s = (Inl e, s1) \<Longrightarrow> sview s1 = sview s"
  using update_law by fastforce

lemma update_InrD:
  assumes "update sid ws fvs s = (Inr x, s1)" "sview s ws sid = Some (Json st)"
  shows "\<exists>st1. apply_fields fvs st = Inr st1 \<and> sview s1 = view_put ws sid st1 (sview s)"
  using update_law [OF assms(1)] assms(2) by auto

lemma load_after_update:
  assumes "update sid ws fvs s = (Inr x, s1)" "load sid ws s1 = (Inr st', s2)"
  shows "\<exists>st. sview s ws sid = Some (Json st) \<and> apply_fields fvs st = Inr st'"
  using update_law [OF assms(1)] load_InrD [OF assms(2)] by (auto simp: view_put_def)

lemma update_frame:
  assumes "update sid ws fvs s = (u, s1)" "(ws', sid') \<noteq> (ws, sid)"
  shows "sview s1 ws' sid' = sview s ws' sid'"
  using update_law [OF assms(1)] assms(2) by (auto simp: view_put_def)

end

interpretation smgr: sector_state_manager Load Update view
proof unfold_locales
  fix sid ws s r s1
  assume "Load sid ws s = (r, s1)"
  then show "view s1 = view s \<and>
      ((\<exists>st. r = Inr st \<and> view s ws sid = Some (Json st)) \<or>
       (\<exists>e. r = Inl e \<and> (errors_is e ErrKeyNotFound \<longrightarrow> view s ws sid = None)))"
    using loadInnerD by (fastforce simp: Load_def)
next
  fix sid ws fvs s u s1
  assume "Update sid ws fvs s = (u, s1)"
  from UpdateD [OF this]
  show "(\<exists>st st1. u = Inr () \<and> view s ws sid = Some (Json st) \<and>
        apply_fields fvs st = Inr st1 \<and> view s1 = view_put ws sid st1 (view s)) \<or>
      (\<exists>e. u = Inl e \<and> view s1 = view s)"
    by auto
qed

section \<open>Reachable managers\<close>

text \<open>The document stored for a sector is about that sector. No caller passes a sector identifier
  as a field value, and no hook changes the identifier.\<close>

definition keyed :: "sector_view \<Rightarrow> bool" where
  "keyed v = (\<forall>ws sid st. v ws sid = Some (Json st) \<longrightarrow> ss_ID st = sid)"

fun keeps_id :: "field_val \<Rightarrow> bool" where
  "keeps_id (FID _) = False"
| "keeps_id _ = True"

definition hook_keeps_id :: "'e hook option \<Rightarrow> bool" where
  "hook_keeps_id h = (\<forall>st env b st1 env1. run_hook h st env = (Inr (b, st1), env1) \<longrightarrow>
     ss_ID st1 = ss_ID st)"

lemma processStateField_ID:
  "keeps_id v \<Longrightarrow> processStateField v st = Inr st1 \<Longrightarrow> ss_ID st1 = ss_ID st"
  by (cases v) auto

lemma apply_fields_ID:
  "list_all keeps_id vs \<Longrightarrow> apply_fields vs st = Inr st1 \<Longrightarrow> ss_ID st1 = ss_ID st"
  by (induction vs arbitrary: st) (auto dest: processStateField_ID split: sum.splits)

lemma keyed_view_put: "keyed v \<Longrightarrow> ss_ID st = sid \<Longrightarrow> keyed (view_put ws sid st v)"
  by (auto simp: keyed_def view_put_def)

lemma keyed_view_del: "keyed v \<Longrightarrow> keyed (view_del ws sid v)"
  by (auto simp: keyed_def view_del_def)

inductive sm_step :: "state_mgr \<Rightarrow> state_mgr \<Rightarrow> bool" where
  step_Import: "Import ws st ov sm = (r, sm1) \<Longrightarrow> sm_step sm sm1"
| step_InitWith: "list_all keeps_id fvs \<Longrightarrow> InitWith as ws fvs sm = (r, sm1) \<Longrightarrow> sm_step sm sm1"
| step_Load: "Load sid ws sm = (q, sm1) \<Longrightarrow> sm_step sm sm1"
| step_Update: "list_all keeps_id fvs \<Longrightarrow> Update sid ws fvs sm = (r, sm1) \<Longrightarrow> sm_step sm sm1"
| step_Finalize: "hook_keeps_id (h :: unit hook option) \<Longrightarrow>
    Finalize sid h (sm, ()) = (r, sm1, u) \<Longrightarrow> sm_step sm sm1"
| step_Restore: "hook_keeps_id (h :: unit hook option) \<Longrightarrow>
    Restore sid h (sm, ()) = (r, sm1, u) \<Longrightarrow> sm_step sm sm1"

inductive sm_reachable :: "state_mgr \<Rightarrow> bool" where
  sm_start: "kv_data (sm_online sm) = [] \<Longrightarrow> kv_data (sm_offline sm) = [] \<Longrightarrow> sm_reachable sm"
| sm_next: "sm_reachable sm \<Longrightarrow> sm_step sm sm1 \<Longrightarrow> sm_reachable sm1"

lemma keyed_grown:
  assumes "keyed v" "list_all keeps_id fvs" "grown as ws fvs v v'"
  shows "keyed v'"
proof -
  have "ss_ID st = sid" if h: "v' ws' sid = Some (Json st)" for ws' sid st
  proof (cases "v' ws' sid = v ws' sid")
    case True
    with h assms(1) show ?thesis by (auto simp: keyed_def)
  next
    case False
    with assms(3) have "\<exists>a\<in>set as. \<exists>st. as_ID a = sid \<and>
       apply_fields fvs (new_sector_state (as_ID a) (as_ProofType a)) = Inr st \<and>
       v' ws' sid = Some (Json st)"
      unfolding grown_def by blast
    then obtain a :: allocated_sector and st' where a: "as_ID a = sid" "v' ws' sid = Some (Json st')"
      "apply_fields fvs (new_sector_state (as_ID a) (as_ProofType a)) = Inr st'"
      by blast
    with apply_fields_ID [OF assms(2) a(3)] h show ?thesis by (simp add: new_sector_state_def)
  qed
  then show ?thesis by (simp add: keyed_def)
qed

lemma keyed_Finalize:
  assumes "hook_keeps_id h" "Finalize sid h (sm, env) = (r, sm1, env1)" "keyed (view sm)"
  shows "keyed (view sm1)"
proof -
  have *: "keyed (view_put ws sid (st1\<lparr>ss_Finalized := b\<rparr>) (view sm))"
    if "view sm ws' sid = Some (Json st)" "run_hook h st env = (Inr (c, st1), env1)"
    for ws ws' st st1 b c
  proof (rule keyed_view_put [OF assms(3)])
    have "ss_ID st1 = ss_ID st" using assms(1) that(2) unfolding hook_keeps_id_def by blast
    also have "ss_ID st = sid" using assms(3) that(1) unfolding keyed_def by blast
    finally show "ss_ID (st1\<lparr>ss_Finalized := b\<rparr>) = sid" by simp
  qed
  from FinalizeD [OF assms(2)] assms(3) show ?thesis
    by (elim disjE exE conjE) (simp_all add: * keyed_view_del)
qed

lemma keyed_Restore:
  assumes "hook_keeps_id h" "Restore sid h (sm, env) = (r, sm1, env1)" "keyed (view sm)"
  shows "keyed (view sm1)"
proof -
  have *: "keyed (view_put ws sid (st1\<lparr>ss_Finalized := b\<rparr>) (view sm))"
    if "view sm ws' sid = Some (Json st)" "run_hook h st env = (Inr (c, st1), env1)"
    for ws ws' st st1 b c
  proof (rule keyed_view_put [OF assms(3)])
    have "ss_ID st1 = ss_ID st" using assms(1) that(2) unfolding hook_keeps_id_def by blast
    also have "ss_ID st = sid" using assms(3) that(1) unfolding keyed_def by blast
    finally show "ss_ID (st1\<lparr>ss_Finalized := b\<rparr>) = sid" by simp
  qed
  from RestoreD [OF assms(2)] assms(3) show ?thesis
    by (elim disjE exE conjE) (simp_all add: * keyed_view_del)
qed

lemma keyed_Update:
  assumes "list_all keeps_id fvs" "Update sid ws fvs sm = (r, sm1)" "keyed (view sm)"
  shows "keyed (view sm1)"
  using UpdateD [OF assms(2)]
proof (elim disjE exE conjE)
  fix st st1
  assume "view sm ws sid = Some (Json st)" "apply_fields fvs st = Inr st1"
    and v: "view sm1 = view_put ws sid st1 (view sm)"
  with assms(1,3) have "ss_ID st1 = sid" by (auto simp: keyed_def dest: apply_fields_ID)
  with assms(3) v show ?thesis by (simp add: keyed_view_put)
qed (simp add: assms(3))

lemma sm_step_keyed: "sm_step sm sm1 \<Longrightarrow> keyed (view sm) \<Longrightarrow> keyed (view sm1)"
proof (induction rule: sm_step.induct)
  case (step_Import ws st ov sm r sm1)
  from ImportD [OF step_Import.hyps] step_Import.prems show ?case
    by (elim disjE exE conjE) (simp_all add: keyed_view_put)
next
  case (step_InitWith fvs as ws sm r sm1)
  with InitWithD [of as ws fvs sm r sm1] show ?case by (auto intro: keyed_grown)
next
  case (step_Load sid ws sm q sm1)
  with smgr.load_law [of sid ws sm q sm1] show ?case by simp
qed (auto intro: keyed_Update keyed_Finalize keyed_Restore)

lemma sm_reachable_keyed: "sm_reachable sm \<Longrightarrow> keyed (view sm)"
proof (induction rule: sm_reachable.induct)
  case (sm_start sm)
  then show ?case by (auto simp: keyed_def view_def pickStore_def split: worker_state.splits)
next
  case (sm_next sm sm1)
  then show ?case by (blast intro: sm_step_keyed)
qed

section \<open>Properties\<close>

text \<open>\<open>Finalize\<close> moves a sector: when it succeeds and its hook agrees, the offline store
  holds the state the hook left, marked finalized, the online store no longer has the sector, and
  every other sector is untouched in both stores.\<close>

theorem Finalize_moves:
  assumes "Finalize sid h (sm, env) = (Inr (), sm1, env1)"
    and "view sm WorkerOnline sid = Some (Json st)"
    and "run_hook h st env = (Inr (True, st1), env1)"
  shows "view sm1 WorkerOffline sid = Some (Json (st1\<lparr>ss_Finalized := True\<rparr>)) \<and>
    view sm1 WorkerOnline sid = None \<and>
    (\<forall>ws sid'. sid' \<noteq> sid \<longrightarrow> view sm1 ws sid' = view sm ws sid')"
  using FinalizeD [OF assms(1)] assms(2,3) by (auto simp: view_put_def view_del_def)

definition demo_sid :: sector_id where
  "demo_sid = \<lparr>sid_Miner = 1000, sid_Number = 7\<rparr>"

definition demo_store :: "'v \<Rightarrow> 'v kvs" where
  "demo_store v = \<lparr>kv_data = [(makeSectorKey demo_sid, v)], kv_script = []\<rparr>"

definition demo_mgr :: state_mgr where
  "demo_mgr = \<lparr>sm_online = demo_store (Json (new_sector_state demo_sid 8)),
     sm_offline = empty_store, sm_events = []\<rparr>"

lemmas demo_defs = demo_mgr_def demo_store_def empty_store_def

lemma view_demo_mgr [simp]:
  "view demo_mgr WorkerOnline demo_sid = Some (Json (new_sector_state demo_sid 8))"
  by (simp add: view_def demo_defs)

theorem Finalize_moves_witness:
  "view (fst (snd (Finalize demo_sid None (demo_mgr, ())))) WorkerOffline demo_sid =
     Some (Json ((new_sector_state demo_sid 8)\<lparr>ss_Finalized := True\<rparr>))"
proof -
  have run: "Finalize demo_sid None (demo_mgr, ()) =
      (Inr (), fst (snd (Finalize demo_sid None (demo_mgr, ()))), ())"
    by (simp add: Finalize_def demo_defs loadInner_def save_def run_hook_def put_store_def Let_def)
  show ?thesis
    using Finalize_moves [OF run, of "new_sector_state demo_sid 8" "new_sector_state demo_sid 8"]
    by (simp add: run_hook_def)
qed

text \<open>C2. No move loses a sector: whatever the hook, the engine and the result, a sector that is
  in one of the two stores before \<open>Finalize\<close> or \<open>Restore\<close> is in one of them afterwards.\<close>

theorem moves_never_lose:
  assumes "Finalize sid h (sm, env) = (r, sm1, env1) \<or> Restore sid h (sm, env) = (r, sm1, env1)"
    and "view sm WorkerOnline sid' \<noteq> None \<or> view sm WorkerOffline sid' \<noteq> None"
  shows "view sm1 WorkerOnline sid' \<noteq> None \<or> view sm1 WorkerOffline sid' \<noteq> None"
  using assms(1)
proof
  assume "Finalize sid h (sm, env) = (r, sm1, env1)"
  from FinalizeD [OF this] assms(2) show ?thesis
    by (elim disjE exE conjE) (auto simp: view_put_def view_del_def)
next
  assume "Restore sid h (sm, env) = (r, sm1, env1)"
  from RestoreD [OF this] assms(2) show ?thesis
    by (elim disjE exE conjE) (auto simp: view_put_def view_del_def)
qed

theorem moves_never_lose_witness:
  "let sm = demo_mgr\<lparr>sm_offline := \<lparr>kv_data = [], kv_script = [Done, Failed ''disk'']\<rparr>\<rparr>;
       sm1 = fst (snd (Finalize demo_sid None (sm, ())))
   in view sm1 WorkerOnline demo_sid \<noteq> None \<or> view sm1 WorkerOffline demo_sid \<noteq> None"
  unfolding Let_def
proof (rule moves_never_lose)
  let ?sm = "demo_mgr\<lparr>sm_offline := \<lparr>kv_data = [], kv_script = [Done, Failed ''disk'']\<rparr>\<rparr>"
  show "Finalize demo_sid None (?sm, ()) = (fst (Finalize demo_sid None (?sm, ())),
      fst (snd (Finalize demo_sid None (?sm, ()))), snd (snd (Finalize demo_sid None (?sm, ())))) \<or>
    Restore demo_sid None (?sm, ()) = (fst (Finalize demo_sid None (?sm, ())),
      fst (snd (Finalize demo_sid None (?sm, ()))), snd (snd (Finalize demo_sid None (?sm, ()))))"
    by (simp only: prod.collapse simp_thms)
  show "view ?sm WorkerOnline demo_sid \<noteq> None \<or> view ?sm WorkerOffline demo_sid \<noteq> None"
    by (simp add: view_def demo_defs)
qed

text \<open>Finalizing a sector and restoring it again brings it back online as it was: with working
  stores both operations succeed and the manager's view is the original one, except that the
  sector is not in the offline store.\<close>

theorem Finalize_Restore_roundtrip:
  assumes "kv_script (sm_online sm) = []" "kv_script (sm_offline sm) = []"
    and "view sm WorkerOnline sid = Some (Json st)" "\<not> ss_Finalized st"
  shows "\<exists>sm1 sm2. Finalize sid None (sm, env) = (Inr (), sm1, env) \<and>
    Restore sid None (sm1, env) = (Inr (), sm2, env) \<and>
    view sm2 = view_del WorkerOffline sid (view sm)"
proof -
  have st: "st\<lparr>ss_Finalized := False\<rparr> = st" using assms(4) by simp
  obtain r1 sm1 e1 where f: "Finalize sid None (sm, env) = (r1, sm1, e1)"
    by (metis prod_cases3)
  have r1: "r1 = Inr () \<and> e1 = env \<and> kv_script (sm_online sm1) = [] \<and> kv_script (sm_offline sm1) = []"
    using f assms(1-3)
    by (auto simp: Finalize_def loadInner_def save_def run_hook_def put_store_def view_def
        notify_def Let_def)
  then have v1: "view sm1 = view_del WorkerOnline sid
      (view_put WorkerOffline sid (st\<lparr>ss_Finalized := True\<rparr>) (view sm))"
    using FinalizeD [OF f] assms(3) by (auto simp: run_hook_def)
  obtain r2 sm2 e2 where g: "Restore sid None (sm1, env) = (r2, sm2, e2)"
    by (metis prod_cases3)
  have off: "view sm1 WorkerOffline sid = Some (Json (st\<lparr>ss_Finalized := True\<rparr>))"
    by (simp add: v1 view_put_def view_del_def)
  then have r2: "r2 = Inr () \<and> e2 = env"
    using g r1 by (auto simp: Restore_def loadInner_def save_def run_hook_def put_store_def view_def Let_def)
  then have "view sm2 = view_del WorkerOffline sid (view_put WorkerOnline sid
      (st\<lparr>ss_Finalized := False\<rparr>) (view sm1))"
    using RestoreD [OF g] off by (auto simp: run_hook_def)
  then have "view sm2 = view_del WorkerOffline sid (view sm)"
    using assms(3) st by (auto simp: v1 view_put_def view_del_def fun_eq_iff)
  with f g r1 r2 show ?thesis by blast
qed

theorem Finalize_Restore_roundtrip_witness:
  "\<exists>sm1 sm2. Finalize demo_sid None (demo_mgr, ()) = (Inr (), sm1, ()) \<and>
    Restore demo_sid None (sm1, ()) = (Inr (), sm2, ()) \<and>
    view sm2 = view_del WorkerOffline demo_sid (view demo_mgr)"
  by (rule Finalize_Restore_roundtrip [of demo_mgr demo_sid "new_sector_state demo_sid 8"])
    (simp_all add: demo_defs view_def new_sector_state_def)

text \<open>\<open>Update\<close> is all or nothing: on success the sector's document is the stored one with the
  given fields set and nothing else has changed; on an error both stores are as before.\<close>

theorem Update_atomic:
  assumes "Update sid ws fvs sm = (r, sm1)"
  shows "(\<exists>st st1. r = Inr () \<and> view sm ws sid = Some (Json st) \<and>
      apply_fields fvs st = Inr st1 \<and> view sm1 ws sid = Some (Json st1) \<and>
      (\<forall>ws' sid'. (ws', sid') \<noteq> (ws, sid) \<longrightarrow> view sm1 ws' sid' = view sm ws' sid')) \<or>
    (\<exists>e. r = Inl e \<and> view sm1 = view sm)"
  using UpdateD [OF assms] by (elim disjE exE conjE) (auto simp: view_put_def)

theorem Update_atomic_witness:
  "view (snd (Update demo_sid WorkerOnline [FRemoved True] demo_mgr)) WorkerOnline demo_sid =
     Some (Json ((new_sector_state demo_sid 8)\<lparr>ss_Removed := True\<rparr>))"
proof -
  have run: "Update demo_sid WorkerOnline [FRemoved True] demo_mgr =
      (Inr (), snd (Update demo_sid WorkerOnline [FRemoved True] demo_mgr))"
    by (simp add: Update_def demo_defs loadInner_def save_def put_store_def Let_def)
  show ?thesis using Update_atomic [OF run] by auto
qed

text \<open>Creating sectors never overwrites: every document present before \<open>InitWith\<close> is present
  and unchanged afterwards, whatever the result, and when it succeeds each sector of the list has
  its initial state with the given fields set.\<close>

theorem InitWith_never_overwrites:
  assumes "InitWith as ws fvs sm = (r, sm1)"
  shows "(\<forall>ws' sid d. view sm ws' sid = Some d \<longrightarrow> view sm1 ws' sid = Some d) \<and>
    (r = Inr () \<longrightarrow> (\<forall>a\<in>set as. \<exists>st.
       apply_fields fvs (new_sector_state (as_ID a) (as_ProofType a)) = Inr st \<and>
       view sm1 ws (as_ID a) = Some (Json st)))"
  using InitWithD [OF assms] grown_keeps unfolding initialized_def by blast

theorem InitWith_never_overwrites_witness:
  "view (snd (InitWith [\<lparr>as_ID = demo_sid, as_ProofType = 3\<rparr>] WorkerOnline [] demo_mgr))
     WorkerOnline demo_sid = Some (Json (new_sector_state demo_sid 8))"
  using InitWith_never_overwrites [of "[\<lparr>as_ID = demo_sid, as_ProofType = 3\<rparr>]" WorkerOnline "[]"
    demo_mgr, OF surjective_pairing] view_demo_mgr by blast

text \<open>Creating several sectors is not all or nothing, although the loop runs in a
  transaction: when a later sector of the list exists already, the call fails and the sectors
  before it stay in the store.\<close>

theorem InitWith_keeps_partial_work:
  assumes "kv_script (sm_online sm) = []"
    and "view sm WorkerOnline (as_ID a) = None" "view sm WorkerOnline (as_ID b) = Some d"
  shows "\<exists>e sm1. InitWith [a, b] WorkerOnline [] sm = (Inl e, sm1) \<and>
    view sm1 WorkerOnline (as_ID a) = Some (Json (new_sector_state (as_ID a) (as_ProofType a)))"
proof -
  have ne: "as_ID a \<noteq> as_ID b" using assms(2,3) by auto
  have d: "decoder (\<lambda>_::sector_state json. Inr ())" by (simp add: decoder_def)
  have "map_of (kv_data (sm_online sm)) (makeSectorKey (as_ID a)) = None"
    "map_of (kv_data (sm_online sm)) (makeSectorKey (as_ID b)) = Some d"
    using assms(2,3) by (simp_all add: view_def)
  then show ?thesis
    using assms(1) ne d
    by (auto simp: InitWith_def attempts_def init_attempt_def peek_exists_def save_def Let_def
        put_store_def conflict_err_def badger_ErrConflict_def view_def)
qed

theorem InitWith_keeps_partial_work_witness:
  "\<exists>e sm1. InitWith [\<lparr>as_ID = \<lparr>sid_Miner = 1000, sid_Number = 6\<rparr>, as_ProofType = 8\<rparr>,
      \<lparr>as_ID = demo_sid, as_ProofType = 8\<rparr>] WorkerOnline [] demo_mgr = (Inl e, sm1) \<and>
    view sm1 WorkerOnline \<lparr>sid_Miner = 1000, sid_Number = 6\<rparr> =
      Some (Json (new_sector_state \<lparr>sid_Miner = 1000, sid_Number = 6\<rparr> 8))"
  using InitWith_keeps_partial_work [of demo_mgr
    "\<lparr>as_ID = \<lparr>sid_Miner = 1000, sid_Number = 6\<rparr>, as_ProofType = 8\<rparr>"
    "\<lparr>as_ID = demo_sid, as_ProofType = 8\<rparr>" "Json (new_sector_state demo_sid 8)"]
  by (simp add: demo_defs view_def) (simp add: demo_sid_def)

text \<open>C6. In every state the manager can reach, the document stored for a sector carries that
  sector's identifier.\<close>

theorem reachable_documents_keyed:
  assumes "sm_reachable sm" "view sm ws sid = Some (Json st)"
  shows "ss_ID st = sid"
  using sm_reachable_keyed [OF assms(1)] assms(2) by (auto simp: keyed_def)

theorem reachable_documents_keyed_witness:
  "ss_ID (new_sector_state demo_sid 8) = demo_sid"
proof -
  let ?sm = "\<lparr>sm_online = empty_store, sm_offline = empty_store, sm_events = []\<rparr>"
  let ?a = "\<lparr>as_ID = demo_sid, as_ProofType = 8\<rparr>"
  let ?sm1 = "snd (InitWith [?a] WorkerOnline [] ?sm)"
  have "sm_step ?sm ?sm1"
    by (rule step_InitWith [of "[]" "[?a]" WorkerOnline ?sm "fst (InitWith [?a] WorkerOnline [] ?sm)"])
      simp_all
  then have "sm_reachable ?sm1"
    by (rule sm_next [OF sm_start, rotated 2]) (simp_all add: empty_store_def)
  moreover have "decoder (\<lambda>_::sector_state json. Inr ())" by (simp add: decoder_def)
  then have "view ?sm1 WorkerOnline demo_sid = Some (Json (new_sector_state demo_sid 8))"
    by (simp add: InitWith_def attempts_def init_attempt_def peek_exists_def save_def Let_def
        put_store_def view_def empty_store_def notify_def)
  ultimately show ?thesis by (rule reachable_documents_keyed)
qed

lemma AllD:
  assumes "All ws job sm = (Inr sts, sm1)"
  shows "\<exists>kv all. pickStore ws sm = Inr kv \<and> map snd (kv_data kv) = map Json all \<and>
    sts = filter (\<lambda>st. MatchWorkerJob st job) all \<and> view sm1 = view sm"
proof (cases "pickStore ws sm")
  case (Inl e)
  with assms show ?thesis by (simp add: All_def getIter_def)
next
  case (Inr kv)
  have "scan_entries [] ps = ps" for ps :: "(key \<times> sector_state json) list"
    by (simp add: scan_entries_def)
  with assms Inr obtain kv1 where k: "scan_states job (kv_data kv) kv = (Inr sts, kv1)"
    and sm1: "sm1 = put_store ws kv1 sm"
    by (auto simp: All_def getIter_def kv_Scan_def split: prod.splits)
  from scan_statesD [OF k] sm1 Inr show ?thesis
    by (auto simp: view_put_store_same)
qed

text \<open>Listing returns, in key order, exactly the stored states that match the job, and fails
  rather than skip a document it cannot decode.\<close>

theorem All_complete:
  assumes "All ws job sm = (Inr sts, sm1)"
  shows "\<exists>kv all. pickStore ws sm = Inr kv \<and> map snd (kv_data kv) = map Json all \<and>
    sts = filter (\<lambda>st. MatchWorkerJob st job) all \<and> view sm1 = view sm"
  using assms by (rule AllD)

theorem All_complete_witness:
  "\<exists>kv all. pickStore WorkerOnline demo_mgr = Inr kv \<and> map snd (kv_data kv) = map Json all \<and>
    [new_sector_state demo_sid 8] = filter (\<lambda>st. MatchWorkerJob st JobSealing) all \<and>
    view (snd (All WorkerOnline JobSealing demo_mgr)) = view demo_mgr"
proof (rule All_complete)
  show "All WorkerOnline JobSealing demo_mgr =
    (Inr [new_sector_state demo_sid 8], snd (All WorkerOnline JobSealing demo_mgr))"
    by (simp add: All_def getIter_def kv_Scan_def scan_entries_def iter_View_def demo_defs
        new_sector_state_def)
qed

end
