(* ===== verification/Sector_Index.thy ===== *)
theory Sector_Index
  imports State_Manager
begin

text \<open>
  The sector indexer (\<open>modules/impl/sectors/indexer.go\<close>, \<open>indexer_proxy.go\<close>): for every sector
  the names of the persistent store instances that hold its sealed file and its cache directory,
  for normal and for upgraded sectors, and the read-only indexer that asks a remote manager.
\<close>

section \<open>The indexer over a store\<close>

type_synonym index_store = "string kvs"

record indexer =
  ix_normal :: index_store
  ix_upgrade :: index_store

definition makeSectorKeySealedFile :: "sector_id \<Rightarrow> key" where
  "makeSectorKeySealedFile sid = makeSectorKey sid"

definition makeSectorKeyForCacheDir :: "sector_id \<Rightarrow> key" where
  "makeSectorKeyForCacheDir sid =
     ''cache/m-'' @ dec64 (sid_Miner sid) @ ''-n-'' @ dec64 (sid_Number sid)"

text \<open>The callbacks of the two reads copy the bytes and cannot fail.\<close>

definition index_Find :: "sector_id \<Rightarrow> (index_store, access_stores \<times> bool) step" where
  "index_Find sid kv = (case kv_Peek (makeSectorKeySealedFile sid) Inr kv of
     (Inl e, kv1) \<Rightarrow>
       (if errors_is e ErrKeyNotFound then (Inr (\<lparr>ac_SealedFile = [], ac_CacheDir = []\<rparr>, False), kv1)
        else (Inl (Wrap ''locate sealed file'' e), kv1))
   | (Inr sealed, kv1) \<Rightarrow>
      (case kv_Peek (makeSectorKeyForCacheDir sid) Inr kv1 of
         (r, kv2) \<Rightarrow>
           (case (case r of Inr c \<Rightarrow> Inr c
                  | Inl e \<Rightarrow> if errors_is e ErrKeyNotFound then Inr []
                            else Inl (Wrap ''locate cache dir'' e)) of
              Inl e \<Rightarrow> (Inl e, kv2)
            | Inr cache \<Rightarrow>
                (Inr (\<lparr>ac_SealedFile = sealed, ac_CacheDir = (if cache = [] then sealed else cache)\<rparr>,
                  True), kv2))))"

definition index_put :: "string \<Rightarrow> key \<Rightarrow> string \<Rightarrow> (index_store, unit) step" where
  "index_put what k instance_name kv = (if instance_name \<noteq> [] then
      (case kv_Put k instance_name kv of
         (Inl e, kv1) \<Rightarrow> (Inl (Wrap what e), kv1)
       | (Inr _, kv1) \<Rightarrow> (Inr (), kv1))
    else (Inr (), kv))"

definition index_Update :: "sector_id \<Rightarrow> access_stores \<Rightarrow> (index_store, unit) step" where
  "index_Update sid access kv =
    (case index_put ''set sealed file location'' (makeSectorKeySealedFile sid) (ac_SealedFile access) kv of
       (Inl e, kv1) \<Rightarrow> (Inl e, kv1)
     | (Inr _, kv1) \<Rightarrow>
         index_put ''set cache dir location'' (makeSectorKeyForCacheDir sid) (ac_CacheDir access) kv1)"

section \<open>The proxied indexer\<close>

text \<open>It answers from an RPC (a parameter) and refuses updates.\<close>

datatype index_type = IndexNormal | IndexUpgrade

definition proxied_Find ::
  "(index_type \<Rightarrow> sector_id \<Rightarrow> (access_stores \<times> bool) res) \<Rightarrow> index_type \<Rightarrow> sector_id \<Rightarrow>
   (access_stores \<times> bool) res" where
  "proxied_Find rpc ty sid = (case rpc ty sid of
     Inl e \<Rightarrow> Inl (Wrap ''call rpc method SectorIndexerFind'' e)
   | Inr found \<Rightarrow> Inr found)"

definition proxied_Update :: "sector_id \<Rightarrow> access_stores \<Rightarrow> unit res" where
  "proxied_Update sid access = Inl (Errorf ''proxied typed indexer is unable for updating'')"

section \<open>Contents\<close>

text \<open>Where a sector is, according to a store.\<close>

definition located_at :: "index_store \<Rightarrow> sector_id \<Rightarrow> access_stores option" where
  "located_at kv sid = (case map_of (kv_data kv) (makeSectorKeySealedFile sid) of
     None \<Rightarrow> None
   | Some sealed \<Rightarrow> Some \<lparr>ac_SealedFile = sealed,
       ac_CacheDir = (case map_of (kv_data kv) (makeSectorKeyForCacheDir sid) of
          None \<Rightarrow> sealed | Some c \<Rightarrow> if c = [] then sealed else c)\<rparr>)"

lemma index_keys [simp]:
  "makeSectorKeySealedFile a \<noteq> makeSectorKeyForCacheDir b"
  "makeSectorKeyForCacheDir b \<noteq> makeSectorKeySealedFile a"
  by (simp_all add: makeSectorKeySealedFile_def makeSectorKeyForCacheDir_def makeSectorKey_def)

lemma sealed_key_inject [simp]: "makeSectorKeySealedFile a = makeSectorKeySealedFile b \<longleftrightarrow> a = b"
  by (simp add: makeSectorKeySealedFile_def)

lemma cache_key_inject [simp]: "makeSectorKeyForCacheDir a = makeSectorKeyForCacheDir b \<longleftrightarrow> a = b"
proof -
  have "makeSectorKeyForCacheDir c = ''cache/'' @ makeSectorKey c" for c
    by (simp add: makeSectorKeyForCacheDir_def makeSectorKey_def)
  then show ?thesis by simp
qed

lemma located_at_eq:
  "map_of (kv_data kv1) (makeSectorKeySealedFile s) = map_of (kv_data kv) (makeSectorKeySealedFile s) \<Longrightarrow>
   map_of (kv_data kv1) (makeSectorKeyForCacheDir s) = map_of (kv_data kv) (makeSectorKeyForCacheDir s) \<Longrightarrow>
   located_at kv1 s = located_at kv s"
  by (auto simp: located_at_def split: option.splits)

lemma index_FindD:
  assumes "index_Find sid kv = (r, kv1)"
  shows "kv_data kv1 = kv_data kv \<and>
    ((\<exists>e. r = Inl e \<and> io_err e) \<or>
     (\<exists>a. r = Inr (a, True) \<and> located_at kv sid = Some a) \<or>
     (r = Inr (\<lparr>ac_SealedFile = [], ac_CacheDir = []\<rparr>, False) \<and> located_at kv sid = None))"
proof -
  obtain q t where q: "kv_Peek (makeSectorKeySealedFile sid) Inr kv = (q, t)" by fastforce
  obtain p u where p: "kv_Peek (makeSectorKeyForCacheDir sid) Inr t = (p, u)" by fastforce
  from kv_PeekD [OF decoder_simps(1) q] kv_PeekD [OF decoder_simps(1) p] show ?thesis
    by (elim conjE disjE exE)
      (use assms q p in \<open>auto simp: index_Find_def located_at_def dest: io_errD split: if_splits\<close>)
qed

lemma index_putD:
  assumes "index_put what k n kv = (r, kv1)"
  shows "r = Inr () \<and> kv_data kv1 = (if n = [] then kv_data kv else put_entry k n (kv_data kv)) \<or>
    (\<exists>e. r = Inl e \<and> io_err e \<and> kv_data kv1 = kv_data kv)"
proof -
  obtain q t where q: "kv_Put k n kv = (q, t)" by fastforce
  from kv_PutD [OF q] q assms show ?thesis by (auto simp: index_put_def split: if_splits)
qed

lemma index_Update_okD:
  assumes "index_Update sid access kv = (Inr (), kv1)"
  shows "map_of (kv_data kv1) (makeSectorKeySealedFile s) =
      (if s = sid \<and> ac_SealedFile access \<noteq> [] then Some (ac_SealedFile access)
       else map_of (kv_data kv) (makeSectorKeySealedFile s)) \<and>
    map_of (kv_data kv1) (makeSectorKeyForCacheDir s) =
      (if s = sid \<and> ac_CacheDir access \<noteq> [] then Some (ac_CacheDir access)
       else map_of (kv_data kv) (makeSectorKeyForCacheDir s))"
proof -
  obtain q t where q: "index_put ''set sealed file location'' (makeSectorKeySealedFile sid)
      (ac_SealedFile access) kv = (q, t)" by fastforce
  then have "index_put ''set cache dir location'' (makeSectorKeyForCacheDir sid)
      (ac_CacheDir access) t = (Inr (), kv1)" "q = Inr ()"
    using assms by (auto simp: index_Update_def split: sum.splits)
  from index_putD [OF this(1)] index_putD [OF q] this(2) show ?thesis by auto
qed

lemma index_Update_otherD:
  assumes "index_Update sid access kv = (r, kv1)" "s \<noteq> sid"
  shows "located_at kv1 s = located_at kv s"
proof -
  obtain q t where q: "index_put ''set sealed file location'' (makeSectorKeySealedFile sid)
      (ac_SealedFile access) kv = (q, t)" by fastforce
  obtain p u where p: "index_put ''set cache dir location'' (makeSectorKeyForCacheDir sid)
      (ac_CacheDir access) t = (p, u)" by fastforce
  have frame: "located_at t s = located_at kv s" "located_at u s = located_at t s"
    using index_putD [OF q] index_putD [OF p] assms(2) by (intro located_at_eq; auto)+
  with assms(1) q p show ?thesis by (cases q) (auto simp: index_Update_def)
qed

section \<open>The indexer as a contract\<close>

text \<open>\<open>core.SectorTypedIndexer\<close>, as its clients (the snapup committer, the sealing handlers) use
  it: what was recorded for a sector is found again and other sectors stay where they are.\<close>

locale sector_typed_indexer =
  fixes find :: "sector_id \<Rightarrow> 's \<Rightarrow> (access_stores \<times> bool) res \<times> 's"
    and upd :: "sector_id \<Rightarrow> access_stores \<Rightarrow> 's \<Rightarrow> unit res \<times> 's"
    and at :: "'s \<Rightarrow> sector_id \<Rightarrow> access_stores option"
  assumes find_law: "find sid s = (r, s1) \<Longrightarrow> at s1 = at s \<and>
      ((\<exists>e. r = Inl e) \<or> (\<exists>a. r = Inr (a, True) \<and> at s sid = Some a) \<or>
       (\<exists>a. r = Inr (a, False) \<and> at s sid = None))"
    and upd_law: "upd sid a s = (Inr (), s1) \<Longrightarrow> ac_SealedFile a \<noteq> [] \<Longrightarrow> ac_CacheDir a \<noteq> [] \<Longrightarrow>
      at s1 sid = Some a"
    and upd_frame: "upd sid a s = (u, s1) \<Longrightarrow> sid' \<noteq> sid \<Longrightarrow> at s1 sid' = at s sid'"
begin

lemma find_after_upd:
  assumes "upd sid a s = (Inr (), s1)" "ac_SealedFile a \<noteq> []" "ac_CacheDir a \<noteq> []"
    and "find sid s1 = (Inr x, s2)"
  shows "x = (a, True)"
  using upd_law [OF assms(1-3)] find_law [OF assms(4)] by auto

lemma find_other_after_upd:
  assumes "upd sid a s = (Inr (), s1)" "sid' \<noteq> sid" "find sid' s1 = (Inr x, s2)"
  shows "snd x \<longleftrightarrow> at s sid' \<noteq> None"
  using upd_frame [OF assms(1,2)] find_law [OF assms(3)] by auto

end

interpretation ixr: sector_typed_indexer index_Find index_Update located_at
proof unfold_locales
  fix sid kv r kv1
  assume run: "index_Find sid kv = (r, kv1)"
  then have "kv_data kv1 = kv_data kv" using index_FindD by blast
  then have "located_at kv1 = located_at kv" by (intro ext located_at_eq) simp_all
  then show "located_at kv1 = located_at kv \<and> ((\<exists>e. r = Inl e) \<or>
      (\<exists>a. r = Inr (a, True) \<and> located_at kv sid = Some a) \<or>
      (\<exists>a. r = Inr (a, False) \<and> located_at kv sid = None))"
    using index_FindD [OF run] by auto
next
  fix sid a kv kv1
  assume "index_Update sid a kv = (Inr (), kv1)" "ac_SealedFile a \<noteq> []" "ac_CacheDir a \<noteq> []"
  then show "located_at kv1 sid = Some a"
    using index_Update_okD [of sid a kv kv1 sid] by (simp add: located_at_def)
qed (rule index_Update_otherD)

section \<open>Properties\<close>

text \<open>Recording a location and looking the sector up again gives the location back; a cache
  directory that is not given keeps its previous instance, and one that was never given is taken to
  be beside the sealed file; no other sector's location changes.\<close>

theorem indexer_roundtrip:
  assumes "index_Update sid access kv = (Inr (), kv1)" "ac_SealedFile access \<noteq> []"
    and "index_Find s kv1 = (Inr (found, ok), kv2)"
  shows "(s = sid \<longrightarrow> ok \<and> ac_SealedFile found = ac_SealedFile access \<and>
      ac_CacheDir found = (if ac_CacheDir access \<noteq> [] then ac_CacheDir access
        else (case map_of (kv_data kv) (makeSectorKeyForCacheDir sid) of
          None \<Rightarrow> ac_SealedFile access | Some c \<Rightarrow> if c = [] then ac_SealedFile access else c))) \<and>
    (s \<noteq> sid \<longrightarrow> (ok \<longleftrightarrow> located_at kv s \<noteq> None) \<and> (ok \<longrightarrow> located_at kv s = Some found))"
proof (cases "s = sid")
  case True
  then show ?thesis
    using index_Update_okD [OF assms(1), of sid] index_FindD [OF assms(3)] assms(2)
    by (auto simp: located_at_def)
next
  case False
  with index_Update_otherD [OF assms(1) False] index_FindD [OF assms(3)] show ?thesis by auto
qed

theorem indexer_roundtrip_witness:
  "fst (index_Find demo_sid (snd (index_Update demo_sid
       \<lparr>ac_SealedFile = ''store-1'', ac_CacheDir = []\<rparr> empty_store))) =
   Inr (\<lparr>ac_SealedFile = ''store-1'', ac_CacheDir = ''store-1''\<rparr>, True)"
proof -
  let ?a = "\<lparr>ac_SealedFile = ''store-1'', ac_CacheDir = []\<rparr>"
  let ?kv1 = "snd (index_Update demo_sid ?a empty_store)"
  have u: "index_Update demo_sid ?a empty_store = (Inr (), ?kv1)"
    by (simp add: index_Update_def index_put_def empty_store_def)
  obtain found ok kv2 where f: "index_Find demo_sid ?kv1 = (Inr (found, ok), kv2)"
    by (simp add: index_Update_def index_put_def empty_store_def index_Find_def)
  from indexer_roundtrip [OF u _ f] f show ?thesis by (simp add: empty_store_def)
qed

end
