(* ===== verification/SnapUp_Allocator.thy ===== *)
theory SnapUp_Allocator
  imports Sector_Index Sector_Allocation
begin

text \<open>
  The allocator of sectors to upgrade (\<open>modules/impl/sectors/snapup_allocator.go\<close>): per miner and
  proving deadline a bitfield of the active sectors that may be upgraded, filled from the chain by
  \<open>PreFetch\<close>, drawn from by \<open>Allocate\<close> and given back to by \<open>Release\<close>. Every operation holds the
  allocator's mutex while it works on the store.

  Bitfields are those of the go-bitfield library; their operations are a parameter, and what the
  lemmas need of them is the predicate \<open>bitfield_ok\<close>: each operation that answers does on the set of
  numbers what its documentation says.
\<close>

section \<open>Third-party parameters\<close>

record 'b bitfield_lib =
  bf_New :: 'b
  bf_Set :: "u64 \<Rightarrow> 'b \<Rightarrow> 'b"
  bf_Unset :: "u64 \<Rightarrow> 'b \<Rightarrow> 'b"
  bf_IsSet :: "u64 \<Rightarrow> 'b \<Rightarrow> bool res"
  bf_Count :: "'b \<Rightarrow> u64 res"
  bf_All :: "u64 \<Rightarrow> 'b \<Rightarrow> u64 list res"
  bf_Merge :: "'b \<Rightarrow> 'b \<Rightarrow> 'b res"

definition bitfield_ok :: "'b bitfield_lib \<Rightarrow> ('b \<Rightarrow> u64 set) \<Rightarrow> bool" where
  "bitfield_ok bf bits = (bits (bf_New bf) = {} \<and>
     (\<forall>n b. bits (bf_Set bf n b) = insert n (bits b)) \<and>
     (\<forall>n b. bits (bf_Unset bf n b) = bits b - {n}) \<and>
     (\<forall>b c. bf_Count bf b = Inr c \<longrightarrow> unat c = card (bits b)) \<and>
     (\<forall>b c ns. bf_All bf c b = Inr ns \<longrightarrow> set ns = bits b) \<and>
     (\<forall>a b c. bf_Merge bf a b = Inr c \<longrightarrow> bits c = bits a \<union> bits b))"

record sector_on_chain =
  so_SectorNumber :: u64
  so_SealedCID :: cid
  so_DeprecatedDealIDs :: "u64 list"
  so_Activation :: epoch
  so_Expiration :: epoch
  so_SectorKeyCID :: "cid option"

text \<open>The chain node's answers: the head (key and height), a miner's proving deadline (index and
  number of deadlines), the active sectors of the partitions of a deadline, and sector information.
  \<open>StateSectorGetInfo\<close> answers with a nil pointer for an unknown sector.\<close>

record 'b snap_chain =
  sc_NewIDAddress :: "u64 \<Rightarrow> address res"
  sc_ChainHead :: "(string \<times> epoch) res"
  sc_ProvingDeadline :: "address \<Rightarrow> string \<Rightarrow> (u64 \<times> u64) res"
  sc_Partitions :: "address \<Rightarrow> u64 \<Rightarrow> string \<Rightarrow> 'b list res"
  sc_MinerSectors :: "address \<Rightarrow> 'b \<Rightarrow> string \<Rightarrow> sector_on_chain list res"
  sc_SectorGetInfo :: "address \<Rightarrow> u64 \<Rightarrow> string \<Rightarrow> sector_on_chain option res"

section \<open>The store of candidates\<close>

type_synonym 'b exist_store = "'b option list json kvs"

definition kvKeyForMinerActorID :: "u64 \<Rightarrow> key" where
  "kvKeyForMinerActorID mid = dec64 mid"

definition exists_decode :: "'d json \<Rightarrow> 'd res" where
  "exists_decode d = map_err (Wrap ''bitfield from bytes'') (unmarshal d)"

definition loadExists :: "key \<Rightarrow> ('b exist_store, 'b option list option) step" where
  "loadExists k kv = (case kv_Peek k exists_decode kv of
     (Inl e, kv1) \<Rightarrow> (if errors_is e ErrKeyNotFound then (Inr None, kv1)
                     else (Inl (Wrap ''load exist sectors'' e), kv1))
   | (Inr xs, kv1) \<Rightarrow> (Inr (Some xs), kv1))"

definition updateExists :: "key \<Rightarrow> 'b option list \<Rightarrow> ('b exist_store, unit) step" where
  "updateExists k xs kv = (case kv_Put k (Json xs) kv of
     (Inl e, kv1) \<Rightarrow> (Inl (Wrap ''save exist bitfieds'' e), kv1)
   | (Inr _, kv1) \<Rightarrow> (Inr (), kv1))"

text \<open>\<open>addSectors\<close>. The bound on the deadline is checked on the signed value of the index.\<close>

definition addSectors :: "'b bitfield_lib \<Rightarrow> u64 \<Rightarrow> u64 \<Rightarrow> u64 \<Rightarrow> 'b \<Rightarrow> ('b exist_store, u64) step" where
  "addSectors bf mid dlidx deadlines sectors kv =
    (let k = kvKeyForMinerActorID mid in case loadExists k kv of
       (Inl e, kv1) \<Rightarrow> (Inl (Wrap ''load exists'' e), kv1)
     | (Inr ex, kv1) \<Rightarrow>
        (let exs = (case ex of None \<Rightarrow> replicate (unat deadlines) None | Some xs \<Rightarrow> xs) in
         if sint dlidx \<ge> int (length exs) then (Inl (Errorf ''deadline index overflow''), kv1)
         else if unat dlidx \<ge> length exs then (Inl (Panic ''index out of range''), kv1)
         else (case (case exs ! unat dlidx of None \<Rightarrow> Inr 0 | Some b \<Rightarrow> bf_Count bf b) of
            Inl e \<Rightarrow> (Inl (Wrap ''get exist count'' e), kv1)
          | Inr existCount \<Rightarrow>
             (case (if existCount = 0 then Inr sectors
                    else (case exs ! unat dlidx of
                       None \<Rightarrow> nil_deref | Some b \<Rightarrow> map_err (Wrap ''merge sectors'') (bf_Merge bf b sectors))) of
                Inl e \<Rightarrow> (Inl e, kv1)
              | Inr merged \<Rightarrow> (case bf_Count bf merged of
                   Inl e \<Rightarrow> (Inl (Wrap ''get merged count'' e), kv1)
                 | Inr mergedCount \<Rightarrow>
                    (if mergedCount = existCount then (Inr 0, kv1)
                     else (case updateExists k (exs[unat dlidx := Some merged]) kv1 of
                        (Inl e, kv2) \<Rightarrow> (Inl (Wrap ''save merged bitfied'' e), kv2)
                      | (Inr _, kv2) \<Rightarrow> (Inr (mergedCount - existCount), kv2))))))))"

section \<open>Fetching candidates\<close>

text \<open>\<open>market8.DealMinDuration\<close> is a constant of the actors library.\<close>

definition sectorGoodForSnapup :: "epoch \<Rightarrow> sector_on_chain \<Rightarrow> epoch \<Rightarrow> bool" where
  "sectorGoodForSnapup dealMinDuration sinfo currentHeight =
    (so_SectorKeyCID sinfo = None \<and> length (so_DeprecatedDealIDs sinfo) = 0 \<and>
     so_Expiration sinfo - currentHeight \<ge> dealMinDuration)"

fun collect_actives :: "'b bitfield_lib \<Rightarrow> 'b snap_chain \<Rightarrow> epoch \<Rightarrow> address \<Rightarrow> string \<Rightarrow> epoch \<Rightarrow>
    'b list \<Rightarrow> 'b \<Rightarrow> 'b res" where
  "collect_actives bf ca dmd maddr tsk tsh [] actives = Inr actives"
| "collect_actives bf ca dmd maddr tsk tsh (p # ps) actives = (case sc_MinerSectors ca maddr p tsk of
     Inl e \<Rightarrow> Inl (Wrap ''get partition info'' e)
   | Inr psectors \<Rightarrow> collect_actives bf ca dmd maddr tsk tsh ps
       (fold (\<lambda>si b. if sectorGoodForSnapup dmd si tsh then bf_Set bf (so_SectorNumber si) b else b)
          psectors actives))"

definition PreFetch :: "'b bitfield_lib \<Rightarrow> 'b snap_chain \<Rightarrow> epoch \<Rightarrow> u64 \<Rightarrow> u64 option \<Rightarrow>
    ('b exist_store, u64 \<times> u64) step" where
  "PreFetch bf ca dmd mid dlindex kv = (case sc_NewIDAddress ca mid of
     Inl e \<Rightarrow> (Inl (Wrap ''invalid miner actor id'' e), kv)
   | Inr maddr \<Rightarrow> (case sc_ChainHead ca of
        Inl e \<Rightarrow> (Inl (Wrap ''get chain head'' e), kv)
      | Inr (tsk, tsh) \<Rightarrow> (case sc_ProvingDeadline ca maddr tsk of
           Inl e \<Rightarrow> (Inl (Wrap ''get proving deadline'' e), kv)
         | Inr (index, periodDeadlines) \<Rightarrow>
            (case (case dlindex of None \<Rightarrow> Inr index
                   | Some i \<Rightarrow> if periodDeadlines = 0 then Inl (Panic ''integer divide by zero'')
                              else Inr (i mod periodDeadlines)) of
               Inl e \<Rightarrow> (Inl e, kv)
             | Inr dlidx \<Rightarrow> (case sc_Partitions ca maddr dlidx tsk of
                  Inl e \<Rightarrow> (Inl (Wrap ''get partitions'' e), kv)
                | Inr partitions \<Rightarrow>
                   (case collect_actives bf ca dmd maddr tsk tsh partitions (bf_New bf) of
                      Inl e \<Rightarrow> (Inl e, kv)
                    | Inr actives \<Rightarrow> (case bf_Count bf actives of
                         Inl e \<Rightarrow> (Inl (Wrap ''get active count'' e), kv)
                       | Inr cnt \<Rightarrow>
                          (if cnt = 0 then (Inr (0, 0), kv)
                           else (case addSectors bf mid dlidx periodDeadlines actives kv of
                              (Inl e, kv1) \<Rightarrow> (Inl (Wrap ''add active sectors'' e), kv1)
                            | (Inr diff, kv1) \<Rightarrow> (Inr (cnt, diff), kv1))))))))))"

definition Candidates :: "u64 \<Rightarrow> ('b exist_store, 'b option list option) step" where
  "Candidates mid kv = (case loadExists (kvKeyForMinerActorID mid) kv of
     (Inl e, kv1) \<Rightarrow> (Inl (Wrap ''load exists'' e), kv1)
   | (Inr ex, kv1) \<Rightarrow> (Inr ex, kv1))"

section \<open>Allocation and release\<close>

record snapup_candidate =
  su_DeadlineIndex :: u64
  su_Sector :: allocated_sector
  su_Public :: sector_public_info
  su_AccessInstance :: string

text \<open>The deadlines with sectors left; one whose count fails is skipped with a warning.\<close>

definition deadline_candidates :: "'b bitfield_lib \<Rightarrow> 'b option list \<Rightarrow> (nat \<times> u64) list" where
  "deadline_candidates bf exs = concat (map (\<lambda>i. case exs ! i of
       None \<Rightarrow> []
     | Some b \<Rightarrow> (case bf_Count bf b of Inl _ \<Rightarrow> [] | Inr c \<Rightarrow> if c = 0 then [] else [(i, c)]))
     [0 ..< length exs])"

record 'b snap_state =
  ns_kv :: "'b exist_store"
  ns_index :: index_store
  ns_cache :: info_cache

text \<open>What happens once the number has been taken out of the bitfield and saved: a sector that is
  not good any more does not come back.\<close>

definition finish_candidate :: "(cid \<Rightarrow> bytes res) \<Rightarrow> epoch \<Rightarrow> u64 \<Rightarrow> u64 \<Rightarrow> seal_proof \<Rightarrow> nat \<Rightarrow>
    sector_on_chain option \<Rightarrow> epoch \<Rightarrow> ('b snap_state, snapup_candidate option) step" where
  "finish_candidate c2r dmd mid num pt dlidx sinfo tsh s = (case sinfo of
     None \<Rightarrow> (nil_deref, s)
   | Some si \<Rightarrow>
      (if \<not> sectorGoodForSnapup dmd si tsh then (Inr None, s)
       else (case c2r (so_SealedCID si) of
          Inl e \<Rightarrow> (Inl (Wrap ''invalid sealed cid'' e), s)
        | Inr commR \<Rightarrow>
           (let sid = \<lparr>sid_Miner = mid, sid_Number = num\<rparr> in
            case index_Find sid (ns_index s) of
              (Inl e, ix) \<Rightarrow> (Inl (Wrap ''find persist store instance'' e), s\<lparr>ns_index := ix\<rparr>)
            | (Inr (instances, found), ix) \<Rightarrow>
               (if ac_SealedFile instances \<noteq> ac_CacheDir instances then (Inr None, s\<lparr>ns_index := ix\<rparr>)
                else if \<not> found then (Inl (Errorf ''persist store instance not found''), s\<lparr>ns_index := ix\<rparr>)
                else (Inr (Some \<lparr>su_DeadlineIndex = of_nat dlidx,
                    su_Sector = \<lparr>as_ID = sid, as_ProofType = pt\<rparr>,
                    su_Public = \<lparr>pub_CommR = commR, pub_SealedCID = so_SealedCID si,
                      pub_Activation = so_Activation si, pub_Expiration = so_Expiration si\<rparr>,
                    su_AccessInstance = ac_SealedFile instances\<rparr>), s\<lparr>ns_index := ix\<rparr>))))))"

text \<open>\<open>allocateForMiner\<close>; \<open>pickD\<close> and \<open>pickN\<close> are the two random draws. An \<open>IsSet\<close> that fails counts
  as not set.\<close>

definition allocateForMiner :: "'b bitfield_lib \<Rightarrow> 'b snap_chain \<Rightarrow> (cid \<Rightarrow> bytes res) \<Rightarrow> epoch \<Rightarrow>
    (nat \<Rightarrow> nat) \<Rightarrow> (nat \<Rightarrow> nat) \<Rightarrow> miner_info \<Rightarrow> ('b snap_state, snapup_candidate option) step" where
  "allocateForMiner bf ca c2r dmd pickD pickN mi s = (let mid = min_ID mi in
    case sc_NewIDAddress ca mid of
      Inl e \<Rightarrow> (Inl (Wrap ''invalid miner actor id'' e), s)
    | Inr maddr \<Rightarrow> (let k = kvKeyForMinerActorID mid in case loadExists k (ns_kv s) of
        (Inl e, kv1) \<Rightarrow> (Inl (Wrap ''load exist sectors'' e), s\<lparr>ns_kv := kv1\<rparr>)
      | (Inr None, kv1) \<Rightarrow> (Inr None, s\<lparr>ns_kv := kv1\<rparr>)
      | (Inr (Some exs), kv1) \<Rightarrow> (let s = s\<lparr>ns_kv := kv1\<rparr>; cands = deadline_candidates bf exs in
         if length cands = 0 then (Inr None, s)
         else (let (dlidx, cnt) = cands ! pickD (length cands) in
           case exs ! dlidx of None \<Rightarrow> (nil_deref, s)
         | Some b \<Rightarrow> (case bf_All bf cnt b of
              Inl e \<Rightarrow> (Inl (Wrap ''get all numbers'' e), s)
            | Inr nums \<Rightarrow>
               (if length nums = 0 then (Inr None, s)
                else (let num = nums ! pickN (length nums) in case sc_ChainHead ca of
                   Inl e \<Rightarrow> (Inl (Wrap ''get chain head'' e), s)
                 | Inr (tsk, tsh) \<Rightarrow> (case sc_Partitions ca maddr (of_nat dlidx) tsk of
                      Inl e \<Rightarrow> (Inl (Wrap ''get partitions'' e), s)
                    | Inr partitions \<Rightarrow>
                       (if \<not> list_ex (\<lambda>p. bf_IsSet bf num p = Inr True) partitions then (Inr None, s)
                        else (case sc_SectorGetInfo ca maddr num tsk of
                           Inl e \<Rightarrow> (Inl (Wrap ''get sector info'' e), s)
                         | Inr sinfo \<Rightarrow>
                            (case updateExists k (exs[dlidx := Some (bf_Unset bf num b)]) (ns_kv s) of
                               (Inl e, kv2) \<Rightarrow>
                                 (Inl (Wrap ''save updated exist bitfields'' e), s\<lparr>ns_kv := kv2\<rparr>)
                             | (Inr _, kv2) \<Rightarrow> finish_candidate c2r dmd mid num (min_SealProofType mi)
                                 dlidx sinfo tsh (s\<lparr>ns_kv := kv2\<rparr>))))))))))))"

definition snapup_Allocate :: "'b bitfield_lib \<Rightarrow> 'b snap_chain \<Rightarrow> miner_chain \<Rightarrow> safe_config \<Rightarrow>
    (cid \<Rightarrow> bytes res) \<Rightarrow> epoch \<Rightarrow> (nat \<Rightarrow> nat) \<Rightarrow> (nat \<Rightarrow> nat) \<Rightarrow> (nat \<Rightarrow> nat) \<Rightarrow> allocate_spec \<Rightarrow>
    ('b snap_state, snapup_candidate option) step" where
  "snapup_Allocate bf ca mca cfg c2r dmd pickM pickD pickN spec s =
    (case candidates mca cfg (spec_AllowedMiners spec) (spec_AllowedProofTypes spec)
        (\<lambda>m. msu_Enabled (mc_SnapUp m)) (ns_cache s) of
       (cands, c1) \<Rightarrow> (let s = s\<lparr>ns_cache := c1\<rparr> in
         if length cands = 0 then (Inr None, s)
         else (case cands ! pickM (length cands) of
            None \<Rightarrow> (nil_deref, s)
          | Some c \<Rightarrow> (case allocateForMiner bf ca c2r dmd pickD pickN (ca_info c) s of
               (Inl e, s1) \<Rightarrow> (Inl (if is_panic e then e else Wrap ''allocate sector'' e), s1)
             | (Inr r, s1) \<Rightarrow> (Inr r, s1)))))"

definition Release :: "'b bitfield_lib \<Rightarrow> snapup_candidate \<Rightarrow> ('b exist_store, unit) step" where
  "Release bf cand kv = (let k = kvKeyForMinerActorID (sid_Miner (as_ID (su_Sector cand))) in
    case loadExists k kv of
      (Inl e, kv1) \<Rightarrow> (Inl (Wrap ''load exist bitfields'' e), kv1)
    | (Inr None, kv1) \<Rightarrow> (Inl (Errorf ''no exist bitfields found''), kv1)
    | (Inr (Some exs), kv1) \<Rightarrow>
       (if length exs \<le> unat (su_DeadlineIndex cand) then (Inl (Errorf ''deadline not matched''), kv1)
        else (case exs ! unat (su_DeadlineIndex cand) of
           None \<Rightarrow> (Inl (Errorf ''got nil bitfield''), kv1)
         | Some b \<Rightarrow> (case updateExists k (exs[unat (su_DeadlineIndex cand) :=
               Some (bf_Set bf (sid_Number (as_ID (su_Sector cand))) b)]) kv1 of
              (Inl e, kv2) \<Rightarrow> (Inl (Wrap ''update exists'' e), kv2)
            | (Inr _, kv2) \<Rightarrow> (Inr (), kv2)))))"


section \<open>Available sectors\<close>

definition exists_of :: "'b exist_store \<Rightarrow> u64 \<Rightarrow> 'b option list option" where
  "exists_of kv mid = (case map_of (kv_data kv) (kvKeyForMinerActorID mid) of
     Some (Json xs) \<Rightarrow> Some xs | _ \<Rightarrow> None)"

text \<open>The abstract view: the sectors on offer for a miner and a deadline.\<close>

definition slot_bits :: "('b \<Rightarrow> u64 set) \<Rightarrow> 'b option list \<Rightarrow> nat \<Rightarrow> u64 set" where
  "slot_bits bits xs i = (if i < length xs then (case xs ! i of None \<Rightarrow> {} | Some b \<Rightarrow> bits b) else {})"

definition avail :: "('b \<Rightarrow> u64 set) \<Rightarrow> 'b exist_store \<Rightarrow> u64 \<Rightarrow> nat \<Rightarrow> u64 set" where
  "avail bits kv mid i = (case exists_of kv mid of None \<Rightarrow> {} | Some xs \<Rightarrow> slot_bits bits xs i)"

lemma kvKey_inject [simp]: "kvKeyForMinerActorID a = kvKeyForMinerActorID b \<longleftrightarrow> a = b"
  by (simp add: kvKeyForMinerActorID_def)

lemma exists_decode_simps [simp]: "decoder exists_decode" "exists_decode d = Inr v \<longleftrightarrow> d = Json v"
  by (auto simp: decoder_def exists_decode_def map_err_def unmarshal_Inl_iff split: sum.splits)

lemma exists_decode_err: "exists_decode d = Inl e \<Longrightarrow> io_err e"
  by (auto simp: exists_decode_def map_err_def unmarshal_Inl_iff split: sum.splits)

lemma loadExistsD:
  assumes "loadExists (kvKeyForMinerActorID mid) kv = (r, kv1)"
  shows "kv_data kv1 = kv_data kv \<and> (r = Inr (exists_of kv mid) \<or> (\<exists>e. r = Inl e \<and> \<not> is_panic e))"
proof -
  obtain q t where q: "kv_Peek (kvKeyForMinerActorID mid) exists_decode kv = (q, t)" by fastforce
  from kv_PeekD [OF exists_decode_simps(1) q] show ?thesis
  proof (elim conjE disjE exE)
    fix v
    assume v: "kv_data t = kv_data kv" "map_of (kv_data kv) (kvKeyForMinerActorID mid) = Some v"
      "q = exists_decode v"
    then show ?thesis using assms q
      by (cases "exists_decode v")
        (auto simp: loadExists_def exists_of_def is_panic_def dest!: exists_decode_err dest: io_errD(2)
          split: if_splits)
  qed (use assms q in \<open>auto simp: loadExists_def exists_of_def is_panic_def dest: io_errD(2)
      split: if_splits\<close>)
qed

lemma updateExistsD:
  assumes "updateExists (kvKeyForMinerActorID mid) xs kv = (r, kv1)"
  shows "r = Inr () \<and> exists_of kv1 = (exists_of kv)(mid \<mapsto> xs) \<or>
    (\<exists>e. r = Inl e \<and> \<not> is_panic e \<and> kv_data kv1 = kv_data kv)"
proof -
  obtain q t where q: "kv_Put (kvKeyForMinerActorID mid) (Json xs) kv = (q, t)" by fastforce
  from kv_PutD [OF q] assms q show ?thesis
    by (auto simp: updateExists_def exists_of_def fun_eq_iff is_panic_def)
qed

lemma exists_of_cong: "kv_data kv1 = kv_data kv \<Longrightarrow> exists_of kv1 = exists_of kv"
  by (rule ext) (simp add: exists_of_def)

lemma avail_cong: "exists_of kv1 = exists_of kv \<Longrightarrow> avail bits kv1 = avail bits kv"
  by (intro ext) (simp add: avail_def)

lemma slot_bits_update:
  "i < length xs \<Longrightarrow> slot_bits bits (xs[i := Some b]) j = (if j = i then bits b else slot_bits bits xs j)"
  by (auto simp: slot_bits_def)

lemma slot_bits_replicate [simp]: "slot_bits bits (replicate n None) i = {}"
  by (simp add: slot_bits_def)

lemma avail_update:
  assumes "exists_of kv1 = (exists_of kv)(mid \<mapsto> xs[i := Some b])" "i < length xs"
    and "\<And>j. avail bits kv mid j = slot_bits bits xs j"
  shows "avail bits kv1 = (avail bits kv)(mid := (avail bits kv mid)(i := bits b))"
  by (intro ext) (use assms in \<open>auto simp: avail_def slot_bits_update\<close>)

lemma bitfield_okD:
  assumes "bitfield_ok bf bits"
  shows "bits (bf_New bf) = {}" "bits (bf_Set bf n b) = insert n (bits b)"
    "bits (bf_Unset bf n b) = bits b - {n}" "bf_Count bf b = Inr c \<Longrightarrow> unat c = card (bits b)"
    "bf_All bf c b = Inr ns \<Longrightarrow> set ns = bits b" "bf_Merge bf a b = Inr d \<Longrightarrow> bits d = bits a \<union> bits b"
  using assms by (auto simp: bitfield_ok_def)

lemma finite_u64 [simp]: "finite (A :: u64 set)"
  by (rule finite_subset [OF subset_UNIV]) simp


lemma addSectorsD:
  assumes run: "addSectors bf mid dlidx n sectors kv = (r, kv1)" and bf: "bitfield_ok bf bits"
  shows "(\<exists>e. r = Inl e \<and> avail bits kv1 = avail bits kv) \<or>
    (\<exists>diff. r = Inr diff \<and>
       avail bits kv1 = (avail bits kv)(mid := (avail bits kv mid)
         (unat dlidx := avail bits kv mid (unat dlidx) \<union> bits sectors)) \<and>
       unat diff = card (avail bits kv mid (unat dlidx) \<union> bits sectors) -
         card (avail bits kv mid (unat dlidx)))"
proof -
  let ?k = "kvKeyForMinerActorID mid" let ?i = "unat dlidx"
  obtain q t where q: "loadExists ?k kv = (q, t)" by fastforce
  note L = loadExistsD [OF q]
  then have t: "kv_data t = kv_data kv" by simp
  then have same: "avail bits t = avail bits kv" "exists_of t = exists_of kv"
    using avail_cong exists_of_cong by blast+
  show ?thesis
  proof (cases q)
    case (Inl e)
    with run q same show ?thesis by (auto simp: addSectors_def Let_def)
  next
    case (Inr ex)
    with L have ex: "ex = exists_of kv mid" by auto
    define xs where "xs = (case ex of None \<Rightarrow> replicate (unat n) None | Some xs \<Rightarrow> xs)"
    have av: "avail bits kv mid j = slot_bits bits xs j" for j
      by (simp add: avail_def xs_def ex split: option.splits)
    define cnt where "cnt = (case xs ! ?i of None \<Rightarrow> Inr 0 | Some b \<Rightarrow> bf_Count bf b)"
    define mrg where "mrg c = (if c = 0 then Inr sectors else (case xs ! ?i of
        None \<Rightarrow> nil_deref | Some b \<Rightarrow> map_err (Wrap ''merge sectors'') (bf_Merge bf b sectors)))" for c :: u64
    have run': "(if sint dlidx \<ge> int (length xs) then (Inl (Errorf ''deadline index overflow''), t)
        else if ?i \<ge> length xs then (Inl (Panic ''index out of range''), t)
        else (case cnt of Inl e \<Rightarrow> (Inl (Wrap ''get exist count'' e), t)
          | Inr c \<Rightarrow> (case mrg c of Inl e \<Rightarrow> (Inl e, t)
            | Inr m \<Rightarrow> (case bf_Count bf m of Inl e \<Rightarrow> (Inl (Wrap ''get merged count'' e), t)
              | Inr c2 \<Rightarrow> (if c2 = c then (Inr 0, t)
                 else (case updateExists ?k (xs[?i := Some m]) t of
                     (Inl e, kv2) \<Rightarrow> (Inl (Wrap ''save merged bitfied'' e), kv2)
                   | (Inr _, kv2) \<Rightarrow> (Inr (c2 - c), kv2))))))) = (r, kv1)"
      using run q Inr unfolding addSectors_def Let_def cnt_def mrg_def xs_def by (simp only: prod.case sum.case)
    show ?thesis
    proof (cases "\<exists>c m c2. cnt = Inr c \<and> mrg c = Inr m \<and> bf_Count bf m = Inr c2 \<and> ?i < length xs \<and>
        sint dlidx < int (length xs)")
      case False
      then have "\<exists>e. r = Inl e" "kv1 = t" using run' by (auto split: if_splits sum.splits)
      then show ?thesis using same by auto
    next
      case True
      then obtain c m c2 where c: "cnt = Inr c" "mrg c = Inr m" "bf_Count bf m = Inr c2" "?i < length xs"
        "sint dlidx < int (length xs)" by blast
      let ?old = "slot_bits bits xs ?i"
      have old: "unat c = card ?old"
        using c(1,4) bitfield_okD(4) [OF bf] by (auto simp: cnt_def slot_bits_def split: option.splits)
      have m: "bits m = ?old \<union> bits sectors"
      proof (cases "c = 0")
        case True
        then have "?old = {}" using old by simp
        with True c(2) show ?thesis by (simp add: mrg_def)
      next
        case False
        with c(2,4) bitfield_okD(6) [OF bf] show ?thesis
          by (auto simp: mrg_def slot_bits_def nil_deref_def map_err_def split: option.splits sum.splits)
      qed
      have c2: "unat c2 = card (?old \<union> bits sectors)" using bitfield_okD(4) [OF bf c(3)] m by simp
      have le: "card ?old \<le> card (?old \<union> bits sectors)" by (intro card_mono) auto
      show ?thesis
      proof (cases "c2 = c")
        case True
        then have "?old = ?old \<union> bits sectors"
          using c2 old by (intro card_subset_eq) auto
        moreover have "r = Inr 0" "kv1 = t" using run' c True by auto
        ultimately show ?thesis using same av by (auto simp: fun_upd_idem)
      next
        case False
        obtain u w where u: "updateExists ?k (xs[?i := Some m]) t = (u, w)" by fastforce
        from updateExistsD [OF u] show ?thesis
        proof (elim disjE exE conjE)
          assume ok: "u = Inr ()" "exists_of w = (exists_of t)(mid \<mapsto> xs[?i := Some m])"
          have "avail bits w = (avail bits t)(mid := (avail bits t mid)(?i := bits m))"
            by (rule avail_update [OF ok(2) c(4)]) (simp add: same av)
          moreover have "unat (c2 - c) = card (?old \<union> bits sectors) - card ?old"
            using le c2 old by (subst unat_sub) (auto simp: word_le_nat_alt)
          moreover have "r = Inr (c2 - c)" "kv1 = w" using run' c False u ok(1) by auto
          ultimately show ?thesis using same av m by simp
        next
          fix e
          assume "u = Inl e" "kv_data w = kv_data t"
          then have "avail bits w = avail bits kv" "r = Inl (Wrap ''save merged bitfied'' e)" "kv1 = w"
            using run' c False u same avail_cong [OF exists_of_cong, of w t bits] by auto
          then show ?thesis by blast
        qed
      qed
    qed
  qed
qed

lemma ReleaseD:
  assumes run: "Release bf cand kv = (r, kv1)" and bf: "bitfield_ok bf bits"
  shows "(\<exists>e. r = Inl e \<and> avail bits kv1 = avail bits kv) \<or>
    (r = Inr () \<and> (let mid = sid_Miner (as_ID (su_Sector cand)); i = unat (su_DeadlineIndex cand) in
       avail bits kv1 = (avail bits kv)(mid := (avail bits kv mid)
         (i := insert (sid_Number (as_ID (su_Sector cand))) (avail bits kv mid i)))))"
proof -
  define mid where "mid = sid_Miner (as_ID (su_Sector cand))"
  define i where "i = unat (su_DeadlineIndex cand)"
  define n where "n = sid_Number (as_ID (su_Sector cand))"
  obtain q t where q: "loadExists (kvKeyForMinerActorID mid) kv = (q, t)" by fastforce
  note L = loadExistsD [OF q]
  then have same: "avail bits t = avail bits kv" "exists_of t = exists_of kv"
    using avail_cong exists_of_cong by blast+
  show ?thesis
  proof (cases "\<exists>xs b. q = Inr (Some xs) \<and> i < length xs \<and> xs ! i = Some b")
    case False
    then have "\<exists>e. r = Inl e" "kv1 = t" using run q
      by (auto simp: Release_def Let_def mid_def [symmetric] i_def [symmetric]
          split: sum.splits option.splits if_splits)
    with same show ?thesis by auto
  next
    case True
    then obtain xs b where xs: "q = Inr (Some xs)" "i < length xs" "xs ! i = Some b" by blast
    with L have ex: "exists_of kv mid = Some xs" by auto
    obtain u w where u: "updateExists (kvKeyForMinerActorID mid) (xs[i := Some (bf_Set bf n b)]) t = (u, w)"
      by fastforce
    have r: "r = map_err (Wrap ''update exists'') u" "kv1 = w"
      using run q xs u by (auto simp: Release_def Let_def mid_def [symmetric] i_def [symmetric]
          n_def [symmetric] split: sum.splits)
    from updateExistsD [OF u] show ?thesis
    proof (elim disjE exE conjE)
      assume ok: "u = Inr ()" "exists_of w = (exists_of t)(mid \<mapsto> xs[i := Some (bf_Set bf n b)])"
      have "avail bits w = (avail bits t)(mid := (avail bits t mid)(i := bits (bf_Set bf n b)))"
        by (rule avail_update [OF ok(2) xs(2)]) (simp add: same avail_def ex)
      moreover have "avail bits kv mid i = bits b" by (simp add: avail_def ex slot_bits_def xs)
      ultimately show ?thesis using r ok(1) same bitfield_okD(2) [OF bf]
        by (simp add: Let_def mid_def [symmetric] i_def [symmetric] n_def [symmetric])
    next
      fix e
      assume "u = Inl e" "kv_data w = kv_data t"
      then have "avail bits w = avail bits kv"
        using same avail_cong [OF exists_of_cong, of w t bits] by simp
      with \<open>u = Inl e\<close> r show ?thesis by simp
    qed
  qed
qed


lemma deadline_candidates_mem:
  assumes "(i, c) \<in> set (deadline_candidates bf xs)"
  shows "i < length xs \<and> (\<exists>b. xs ! i = Some b \<and> bf_Count bf b = Inr c)"
proof -
  define f where "f j = (case xs ! j of
       None \<Rightarrow> []
     | Some b \<Rightarrow> (case bf_Count bf b of Inl _ \<Rightarrow> [] | Inr c \<Rightarrow> if c = 0 then [] else [(j, c)]))" for j
  have "(i, c) \<in> set (concat (map f [0 ..< length xs]))"
    using assms by (simp only: deadline_candidates_def f_def [abs_def])
  then obtain j where j: "j < length xs" "(i, c) \<in> set (f j)" by auto
  then show ?thesis by (cases "xs ! j") (auto simp: f_def split: sum.splits if_splits)
qed

lemma finish_candidateD:
  assumes "finish_candidate c2r dmd mid num pt i sinfo tsh s = (r, s1)"
  shows "ns_kv s1 = ns_kv s \<and> located_at (ns_index s1) = located_at (ns_index s) \<and>
    (\<forall>cand. r = Inr (Some cand) \<longrightarrow> as_ID (su_Sector cand) = \<lparr>sid_Miner = mid, sid_Number = num\<rparr> \<and>
       as_ProofType (su_Sector cand) = pt \<and> su_DeadlineIndex cand = of_nat i \<and>
       (\<exists>si. sinfo = Some si \<and> sectorGoodForSnapup dmd si tsh) \<and>
       located_at (ns_index s) (as_ID (su_Sector cand)) =
         Some \<lparr>ac_SealedFile = su_AccessInstance cand, ac_CacheDir = su_AccessInstance cand\<rparr>)"
proof (cases "\<exists>si commR. sinfo = Some si \<and> sectorGoodForSnapup dmd si tsh \<and> c2r (so_SealedCID si) = Inr commR")
  case False
  then have "s1 = s \<and> (\<forall>cand. r \<noteq> Inr (Some cand))" using assms
    by (auto simp: finish_candidate_def nil_deref_def split: option.splits if_splits sum.splits)
  then show ?thesis by simp
next
  case True
  then obtain si commR where si: "sinfo = Some si" "sectorGoodForSnapup dmd si tsh"
    "c2r (so_SealedCID si) = Inr commR" by blast
  obtain q ix where q: "index_Find \<lparr>sid_Miner = mid, sid_Number = num\<rparr> (ns_index s) = (q, ix)" by fastforce
  note F = ixr.find_law [OF q]
  show ?thesis
  proof (cases "\<exists>a. q = Inr (a, True) \<and> ac_SealedFile a = ac_CacheDir a")
    case False
    then have "\<forall>cand. r \<noteq> Inr (Some cand)" "ns_kv s1 = ns_kv s" "ns_index s1 = ix" using assms si q
      by (auto simp: finish_candidate_def Let_def split: sum.splits if_splits)
    then show ?thesis using F by simp
  next
    case True
    then obtain a where a: "q = Inr (a, True)" "ac_SealedFile a = ac_CacheDir a" by blast
    have "ns_kv s1 = ns_kv s" "ns_index s1 = ix" "r = Inr (Some \<lparr>su_DeadlineIndex = of_nat i,
        su_Sector = \<lparr>as_ID = \<lparr>sid_Miner = mid, sid_Number = num\<rparr>, as_ProofType = pt\<rparr>,
        su_Public = \<lparr>pub_CommR = commR, pub_SealedCID = so_SealedCID si,
          pub_Activation = so_Activation si, pub_Expiration = so_Expiration si\<rparr>,
        su_AccessInstance = ac_SealedFile a\<rparr>)"
      using assms si q a by (auto simp: finish_candidate_def Let_def)
    then show ?thesis using F a si by (cases a) auto
  qed
qed

text \<open>What the draw for a miner can do: nothing, or take one number out of one deadline.\<close>

definition drawn_from :: "('b \<Rightarrow> u64 set) \<Rightarrow> u64 \<Rightarrow> nat \<Rightarrow> u64 \<Rightarrow> 'b exist_store \<Rightarrow> 'b exist_store \<Rightarrow> bool" where
  "drawn_from bits mid i num kv kv1 = (num \<in> avail bits kv mid i \<and>
     avail bits kv1 = (avail bits kv)(mid := (avail bits kv mid)(i := avail bits kv mid i - {num})))"

lemma allocateForMinerD:
  assumes run: "allocateForMiner bf ca c2r dmd pickD pickN mi s = (r, s1)" and bf: "bitfield_ok bf bits"
    and picks: "picks pickD" "picks pickN"
  shows "located_at (ns_index s1) = located_at (ns_index s) \<and>
    ((avail bits (ns_kv s1) = avail bits (ns_kv s) \<and> (\<forall>cand. r \<noteq> Inr (Some cand))) \<or>
     (\<exists>i num. drawn_from bits (min_ID mi) i num (ns_kv s) (ns_kv s1) \<and>
        (\<forall>cand. r = Inr (Some cand) \<longrightarrow>
           as_ID (su_Sector cand) = \<lparr>sid_Miner = min_ID mi, sid_Number = num\<rparr> \<and>
           su_DeadlineIndex cand = of_nat i \<and>
           located_at (ns_index s) (as_ID (su_Sector cand)) =
             Some \<lparr>ac_SealedFile = su_AccessInstance cand, ac_CacheDir = su_AccessInstance cand\<rparr>)))"
    (is "?loc \<and> (?none s1 r \<or> ?some)")
proof -
  let ?mid = "min_ID mi" let ?k = "kvKeyForMinerActorID (min_ID mi)"
  obtain q t where q: "loadExists ?k (ns_kv s) = (q, t)" by fastforce
  note L = loadExistsD [OF q]
  then have same: "avail bits t = avail bits (ns_kv s)" "exists_of t = exists_of (ns_kv s)"
    using avail_cong exists_of_cong by blast+
  show ?thesis
  proof (cases "\<exists>maddr xs. sc_NewIDAddress ca ?mid = Inr maddr \<and> q = Inr (Some xs) \<and>
      deadline_candidates bf xs \<noteq> []")
    case False
    then have "\<forall>cand. r \<noteq> Inr (Some cand)" "s1 = s \<or> s1 = s\<lparr>ns_kv := t\<rparr>" using run q
      by (auto simp: allocateForMiner_def Let_def split: sum.splits option.splits if_splits)
    with same show ?thesis by auto
  next
    case True
    then obtain maddr xs where a: "sc_NewIDAddress ca ?mid = Inr maddr" "q = Inr (Some xs)"
      "deadline_candidates bf xs \<noteq> []" by blast
    let ?dc = "deadline_candidates bf xs"
    obtain i c where ic: "?dc ! pickD (length ?dc) = (i, c)" by fastforce
    have "(i, c) \<in> set ?dc" using picks(1) a(3) ic by (metis length_greater_0_conv nth_mem picks_def)
    from deadline_candidates_mem [OF this] obtain b where b: "i < length xs" "xs ! i = Some b" by blast
    have ex: "exists_of (ns_kv s) ?mid = Some xs" using L a(2) by auto
    then have av: "avail bits (ns_kv s) ?mid j = slot_bits bits xs j" for j by (simp add: avail_def)
    show ?thesis
    proof (cases "\<exists>nums tsk tsh ps sinfo. bf_All bf c b = Inr nums \<and> nums \<noteq> [] \<and>
        sc_ChainHead ca = Inr (tsk, tsh) \<and> sc_Partitions ca maddr (of_nat i) tsk = Inr ps \<and>
        list_ex (\<lambda>p. bf_IsSet bf (nums ! pickN (length nums)) p = Inr True) ps \<and>
        sc_SectorGetInfo ca maddr (nums ! pickN (length nums)) tsk = Inr sinfo")
      case False
      then have "\<forall>cand. r \<noteq> Inr (Some cand)" "s1 = s\<lparr>ns_kv := t\<rparr>" using run q a ic b
        by (auto simp: allocateForMiner_def Let_def split: sum.splits option.splits if_splits prod.splits)
      with same show ?thesis by auto
    next
      case True
      then obtain nums tsk tsh ps sinfo where n: "bf_All bf c b = Inr nums" "nums \<noteq> []"
        "sc_ChainHead ca = Inr (tsk, tsh)" "sc_Partitions ca maddr (of_nat i) tsk = Inr ps"
        "list_ex (\<lambda>p. bf_IsSet bf (nums ! pickN (length nums)) p = Inr True) ps"
        "sc_SectorGetInfo ca maddr (nums ! pickN (length nums)) tsk = Inr sinfo" by blast
      define num where "num = nums ! pickN (length nums)"
      have "num \<in> set nums" using picks(2) n(2) by (simp add: num_def picks_def)
      then have mem: "num \<in> bits b" using bitfield_okD(5) [OF bf n(1)] by simp
      obtain u w where u: "updateExists ?k (xs[i := Some (bf_Unset bf num b)]) t = (u, w)" by fastforce
      from updateExistsD [OF u] show ?thesis
      proof (elim disjE exE conjE)
        assume ok: "u = Inr ()" "exists_of w = (exists_of t)(?mid \<mapsto> xs[i := Some (bf_Unset bf num b)])"
        have "avail bits w = (avail bits t)(?mid := (avail bits t ?mid)(i := bits (bf_Unset bf num b)))"
          by (rule avail_update [OF ok(2) b(1)]) (simp add: same av)
        moreover have "avail bits (ns_kv s) ?mid i = bits b" by (simp add: av slot_bits_def b)
        ultimately have dr: "drawn_from bits ?mid i num (ns_kv s) w"
          using mem same bitfield_okD(3) [OF bf] by (simp add: drawn_from_def)
        have fin: "finish_candidate c2r dmd ?mid num (min_SealProofType mi) i sinfo tsh (s\<lparr>ns_kv := w\<rparr>) = (r, s1)"
          using run q a ic b n u ok(1) by (simp add: allocateForMiner_def Let_def num_def)
        note F = finish_candidateD [OF fin]
        have "ns_kv s1 = w" using F by simp
        with F dr show ?thesis by (intro conjI disjI2 exI [of _ i] exI [of _ num]) auto
      next
        fix e
        assume e: "u = Inl e" "kv_data w = kv_data t"
        then have "r = Inl (Wrap ''save updated exist bitfields'' e)" "s1 = s\<lparr>ns_kv := w\<rparr>"
          using run q a ic b n u by (simp_all add: allocateForMiner_def Let_def num_def)
        moreover have "avail bits w = avail bits (ns_kv s)"
          using same avail_cong [OF exists_of_cong [OF e(2)], of bits] by simp
        ultimately show ?thesis by simp
      qed
    qed
  qed
qed


lemma snapup_AllocateD:
  assumes run: "snapup_Allocate bf ca mca cfg c2r dmd pickM pickD pickN spec s = (Inr (Some cand), s1)"
    and bf: "bitfield_ok bf bits" and picks: "picks pickM" "picks pickD" "picks pickN"
  shows "\<exists>i. drawn_from bits (sid_Miner (as_ID (su_Sector cand))) i (sid_Number (as_ID (su_Sector cand)))
      (ns_kv s) (ns_kv s1) \<and> su_DeadlineIndex cand = of_nat i \<and>
    located_at (ns_index s) (as_ID (su_Sector cand)) =
      Some \<lparr>ac_SealedFile = su_AccessInstance cand, ac_CacheDir = su_AccessInstance cand\<rparr>"
proof -
  obtain cands c1 where c: "candidates mca cfg (spec_AllowedMiners spec) (spec_AllowedProofTypes spec)
      (\<lambda>m. msu_Enabled (mc_SnapUp m)) (ns_cache s) = (cands, c1)" by fastforce
  have ne: "cands \<noteq> []" using run c by (auto simp: snapup_Allocate_def Let_def)
  obtain cd where cd: "cands ! pickM (length cands) = Some cd"
    using run c ne by (auto simp: snapup_Allocate_def Let_def nil_deref_def split: option.splits)
  have "allocateForMiner bf ca c2r dmd pickD pickN (ca_info cd) (s\<lparr>ns_cache := c1\<rparr>) = (Inr (Some cand), s1)"
    using run c ne cd by (auto simp: snapup_Allocate_def Let_def split: prod.splits sum.splits)
  from allocateForMinerD [OF this bf picks(2,3)] show ?thesis by auto
qed

lemma fold_good:
  assumes "bitfield_ok bf bits"
  shows "bits (fold (\<lambda>si b. if sectorGoodForSnapup dmd si tsh then bf_Set bf (so_SectorNumber si) b else b) sis b) =
    bits b \<union> so_SectorNumber ` {si \<in> set sis. sectorGoodForSnapup dmd si tsh}"
  by (induction sis arbitrary: b) (auto simp: bitfield_okD(2) [OF assms])

text \<open>The sectors of the partitions that may be upgraded.\<close>

definition good_sectors :: "'b snap_chain \<Rightarrow> epoch \<Rightarrow> address \<Rightarrow> string \<Rightarrow> epoch \<Rightarrow> 'b list \<Rightarrow> u64 set" where
  "good_sectors ca dmd maddr tsk tsh ps = {so_SectorNumber si | si p sis. p \<in> set ps \<and>
     sc_MinerSectors ca maddr p tsk = Inr sis \<and> si \<in> set sis \<and> sectorGoodForSnapup dmd si tsh}"

lemma collect_actives_bits:
  assumes "collect_actives bf ca dmd maddr tsk tsh ps b = Inr b'" "bitfield_ok bf bits"
  shows "bits b' = bits b \<union> good_sectors ca dmd maddr tsk tsh ps"
  using assms(1)
proof (induction ps arbitrary: b)
  case (Cons p ps)
  then obtain sis where sis: "sc_MinerSectors ca maddr p tsk = Inr sis"
    and rest: "collect_actives bf ca dmd maddr tsk tsh ps
      (fold (\<lambda>si b. if sectorGoodForSnapup dmd si tsh then bf_Set bf (so_SectorNumber si) b else b) sis b) = Inr b'"
    by (auto split: sum.splits)
  from Cons.IH [OF rest] show ?case
    unfolding fold_good [OF assms(2)] using sis by (auto simp: good_sectors_def)
qed (simp add: good_sectors_def)

definition deadlines_fit :: "'b exist_store \<Rightarrow> bool" where
  "deadlines_fit kv = (\<forall>mid xs. exists_of kv mid = Some xs \<longrightarrow> length xs < 2 ^ 64)"

lemma avail_index: "n \<in> avail bits kv mid i \<Longrightarrow> deadlines_fit kv \<Longrightarrow> i < 2 ^ 64"
  by (fastforce simp: avail_def slot_bits_def deadlines_fit_def split: option.splits if_splits)

text \<open>A bitfield library on lists, a chain and a store to run the operations on.\<close>

definition demo_bf :: "u64 list bitfield_lib" where
  "demo_bf = \<lparr>bf_New = [], bf_Set = List.insert, bf_Unset = removeAll,
     bf_IsSet = (\<lambda>n b. Inr (n \<in> set b)),
     bf_Count = (\<lambda>b. let c = length (remdups b) in
       if c < 2 ^ 64 then Inr (of_nat c) else Inl (Ext ''count overflow'')),
     bf_All = (\<lambda>n b. Inr (remdups b)), bf_Merge = (\<lambda>a b. Inr (a @ b))\<rparr>"

lemma demo_bf_ok: "bitfield_ok demo_bf set"
  by (auto simp: bitfield_ok_def demo_bf_def Let_def length_remdups_card_conv unsigned_of_nat
      take_bit_nat_eq_self split: if_splits)

definition demo_sinfo :: "u64 \<Rightarrow> sector_on_chain" where
  "demo_sinfo n = \<lparr>so_SectorNumber = n, so_SealedCID = ''bagb'', so_DeprecatedDealIDs = [],
     so_Activation = 50, so_Expiration = 1000, so_SectorKeyCID = None\<rparr>"

definition demo_snap_chain :: "u64 list snap_chain" where
  "demo_snap_chain = \<lparr>sc_NewIDAddress = (\<lambda>i. Inr (IDAddress i)), sc_ChainHead = Inr (''tsk'', 100),
     sc_ProvingDeadline = (\<lambda>a t. Inr (1, 2)), sc_Partitions = (\<lambda>a i t. Inr [[7, 8]]),
     sc_MinerSectors = (\<lambda>a b t. Inr (map demo_sinfo b)),
     sc_SectorGetInfo = (\<lambda>a n t. Inr (Some (demo_sinfo n)))\<rparr>"

definition demo_snap_cfg :: safe_config where
  "demo_snap_cfg = map (\<lambda>m. m\<lparr>mc_SnapUp := (mc_SnapUp m)\<lparr>msu_Enabled := True\<rparr>\<rparr>) demo_cfg"

definition demo_snap :: "u64 list snap_state" where
  "demo_snap = \<lparr>ns_kv = \<lparr>kv_data = [(kvKeyForMinerActorID 1000, Json [None, Some [7]])], kv_script = []\<rparr>,
     ns_index = \<lparr>kv_data = [(makeSectorKeySealedFile demo_sid, ''store-1'')], kv_script = []\<rparr>,
     ns_cache = Map.empty\<rparr>"

definition demo_snap_run :: "snapup_candidate option res \<times> u64 list snap_state" where
  "demo_snap_run = snapup_Allocate demo_bf demo_snap_chain demo_chain demo_snap_cfg (\<lambda>c. Inr []) 10
     (\<lambda>_. 0) (\<lambda>_. 0) (\<lambda>_. 0) demo_spec demo_snap"

definition demo_snap_cand :: snapup_candidate where
  "demo_snap_cand = \<lparr>su_DeadlineIndex = 1, su_Sector = \<lparr>as_ID = demo_sid, as_ProofType = 5\<rparr>,
     su_Public = \<lparr>pub_CommR = [], pub_SealedCID = ''bagb'', pub_Activation = 50, pub_Expiration = 1000\<rparr>,
     su_AccessInstance = ''store-1''\<rparr>"

lemma demo_snap_allocate: "fst demo_snap_run = Inr (Some demo_snap_cand)"
  by (simp add: demo_snap_run_def snapup_Allocate_def demo_snap_cfg_def demo_alloc_defs candidates_def
      partition_loop.simps GetInfo_def fetch_info_def slot_ok_def Let_def demo_snap_def
      allocateForMiner_def demo_snap_chain_def loadExists_def exists_decode_def updateExists_def
      deadline_candidates_def demo_bf_def finish_candidate_def sectorGoodForSnapup_def demo_sinfo_def
      index_Find_def demo_sid_def demo_snap_cand_def makeSectorKeySealedFile_def makeSectorKey_def
      makeSectorKeyForCacheDir_def upt_rec defaultMinerSnapUpConfig_def)

lemma demo_snap_runE:
  obtains s1 where "snapup_Allocate demo_bf demo_snap_chain demo_chain demo_snap_cfg (\<lambda>c. Inr []) 10
     (\<lambda>_. 0) (\<lambda>_. 0) (\<lambda>_. 0) demo_spec demo_snap = (Inr (Some demo_snap_cand), s1)"
  using demo_snap_allocate by (metis demo_snap_run_def prod.collapse)

lemma demo_snap_fit: "deadlines_fit (ns_kv demo_snap)"
  by (auto simp: deadlines_fit_def demo_snap_def exists_of_def split: if_splits)

lemma demo_snap_avail: "avail set (ns_kv demo_snap) 1000 1 = {7}"
  by (simp add: avail_def exists_of_def demo_snap_def slot_bits_def)

section \<open>Properties\<close>

text \<open>A sector handed out for an upgrade was on offer under its miner and deadline, is on offer no
  longer, and nothing else on offer changes; its files are recorded in a single store instance, the
  one the candidate names.\<close>

theorem snapup_Allocate_takes:
  assumes "snapup_Allocate bf ca mca cfg c2r dmd pickM pickD pickN spec s = (Inr (Some cand), s1)"
    and "bitfield_ok bf bits" "picks pickM" "picks pickD" "picks pickN" "deadlines_fit (ns_kv s)"
  shows "(let sid = as_ID (su_Sector cand); mid = sid_Miner sid; i = unat (su_DeadlineIndex cand) in
     sid_Number sid \<in> avail bits (ns_kv s) mid i \<and>
     avail bits (ns_kv s1) = (avail bits (ns_kv s))(mid := (avail bits (ns_kv s) mid)
       (i := avail bits (ns_kv s) mid i - {sid_Number sid})) \<and>
     located_at (ns_index s) sid =
       Some \<lparr>ac_SealedFile = su_AccessInstance cand, ac_CacheDir = su_AccessInstance cand\<rparr>)"
proof -
  let ?sid = "as_ID (su_Sector cand)"
  from snapup_AllocateD [OF assms(1-5)] obtain i where
    i: "drawn_from bits (sid_Miner ?sid) i (sid_Number ?sid) (ns_kv s) (ns_kv s1)"
      "su_DeadlineIndex cand = of_nat i" and
    loc: "located_at (ns_index s) ?sid =
      Some \<lparr>ac_SealedFile = su_AccessInstance cand, ac_CacheDir = su_AccessInstance cand\<rparr>" by blast
  have "i < 2 ^ 64" using i(1) assms(6) by (auto simp: drawn_from_def dest: avail_index)
  then have "unat (su_DeadlineIndex cand) = i" by (simp add: i(2) unsigned_of_nat take_bit_nat_eq_self)
  with i(1) loc show ?thesis by (simp add: Let_def drawn_from_def)
qed

theorem snapup_Allocate_takes_witness:
  "\<exists>s1. snapup_Allocate demo_bf demo_snap_chain demo_chain demo_snap_cfg (\<lambda>c. Inr []) 10
     (\<lambda>_. 0) (\<lambda>_. 0) (\<lambda>_. 0) demo_spec demo_snap = (Inr (Some demo_snap_cand), s1) \<and>
     avail set (ns_kv s1) 1000 1 = {}"
proof (rule demo_snap_runE)
  fix s1
  assume run: "snapup_Allocate demo_bf demo_snap_chain demo_chain demo_snap_cfg (\<lambda>c. Inr []) 10
     (\<lambda>_. 0) (\<lambda>_. 0) (\<lambda>_. 0) demo_spec demo_snap = (Inr (Some demo_snap_cand), s1)"
  have "avail set (ns_kv s1) 1000 1 = {}"
    using snapup_Allocate_takes [OF run demo_bf_ok demo_alloc_ok(1) demo_alloc_ok(1) demo_alloc_ok(1) demo_snap_fit]
    by (simp add: Let_def demo_snap_cand_def demo_sid_def demo_snap_avail [simplified])
  with run show ?thesis by blast
qed

text \<open>Releasing a candidate undoes its allocation: what is on offer is what it was before.\<close>

theorem snapup_Release_restores:
  assumes "snapup_Allocate bf ca mca cfg c2r dmd pickM pickD pickN spec s = (Inr (Some cand), s1)"
    and "bitfield_ok bf bits" "picks pickM" "picks pickD" "picks pickN" "deadlines_fit (ns_kv s)"
    and "Release bf cand (ns_kv s1) = (Inr (), kv2)"
  shows "avail bits kv2 = avail bits (ns_kv s)"
proof -
  let ?sid = "as_ID (su_Sector cand)"
  from snapup_AllocateD [OF assms(1-5)] obtain i where
    i: "drawn_from bits (sid_Miner ?sid) i (sid_Number ?sid) (ns_kv s) (ns_kv s1)"
      "su_DeadlineIndex cand = of_nat i" by blast
  have "i < 2 ^ 64" using i(1) assms(6) by (auto simp: drawn_from_def dest: avail_index)
  then have u: "unat (su_DeadlineIndex cand) = i" by (simp add: i(2) unsigned_of_nat take_bit_nat_eq_self)
  from ReleaseD [OF assms(7,2)] i(1) u show ?thesis
    by (auto simp: drawn_from_def Let_def insert_absorb fun_upd_idem)
qed

theorem snapup_Release_restores_witness:
  "\<exists>(s1 :: u64 list snap_state) kv2. Release demo_bf demo_snap_cand (ns_kv s1) = (Inr (), kv2) \<and>
     avail set kv2 = avail set (ns_kv demo_snap)"
proof (rule demo_snap_runE)
  fix s1
  assume run: "snapup_Allocate demo_bf demo_snap_chain demo_chain demo_snap_cfg (\<lambda>c. Inr []) 10
     (\<lambda>_. 0) (\<lambda>_. 0) (\<lambda>_. 0) demo_spec demo_snap = (Inr (Some demo_snap_cand), s1)"
  have kv: "ns_kv s1 = \<lparr>kv_data = [(kvKeyForMinerActorID 1000, Json [None, Some []])], kv_script = []\<rparr>"
    using run
    by (auto simp: snapup_Allocate_def demo_snap_cfg_def demo_alloc_defs candidates_def
      partition_loop.simps GetInfo_def fetch_info_def slot_ok_def Let_def demo_snap_def
      allocateForMiner_def demo_snap_chain_def loadExists_def exists_decode_def updateExists_def
      deadline_candidates_def demo_bf_def finish_candidate_def sectorGoodForSnapup_def demo_sinfo_def
      index_Find_def demo_sid_def demo_snap_cand_def makeSectorKeySealedFile_def makeSectorKey_def
      makeSectorKeyForCacheDir_def upt_rec defaultMinerSnapUpConfig_def put_entry_def)
  have "Release demo_bf demo_snap_cand (ns_kv s1) = (Inr (), snd (Release demo_bf demo_snap_cand (ns_kv s1)))"
    by (simp add: Release_def demo_snap_cand_def demo_sid_def Let_def loadExists_def exists_decode_def
        updateExists_def kv)
  with snapup_Release_restores [OF run demo_bf_ok demo_alloc_ok(1) demo_alloc_ok(1) demo_alloc_ok(1) demo_snap_fit this]
  show ?thesis by blast
qed

text \<open>Fetching only adds: the current deadline's offer grows by exactly the good sectors the chain
  reports for its partitions, other offers stay, and the second number reported is how many are new.\<close>

theorem PreFetch_adds:
  assumes "PreFetch bf ca dmd mid None kv = (Inr (cnt, diff), kv1)" "bitfield_ok bf bits"
    and "sc_NewIDAddress ca mid = Inr maddr" "sc_ChainHead ca = Inr (tsk, tsh)"
    and "sc_ProvingDeadline ca maddr tsk = Inr (idx, n)" "sc_Partitions ca maddr idx tsk = Inr ps"
  shows "(let good = good_sectors ca dmd maddr tsk tsh ps; old = avail bits kv mid (unat idx) in
     unat cnt = card good \<and>
     avail bits kv1 = (avail bits kv)(mid := (avail bits kv mid)(unat idx := old \<union> good)) \<and>
     unat diff = card (old \<union> good) - card old)"
proof -
  let ?good = "good_sectors ca dmd maddr tsk tsh ps"
  from assms(1,3-6) obtain b where b: "collect_actives bf ca dmd maddr tsk tsh ps (bf_New bf) = Inr b"
    "bf_Count bf b = Inr cnt"
    by (auto simp: PreFetch_def split: sum.splits if_splits prod.splits)
  have bits: "bits b = ?good"
    using collect_actives_bits [OF b(1) assms(2)] bitfield_okD(1) [OF assms(2)] by simp
  have c: "unat cnt = card ?good" using bitfield_okD(4) [OF assms(2) b(2)] bits by simp
  show ?thesis
  proof (cases "cnt = 0")
    case True
    then have "?good = {}" using c by simp
    with assms(1,3-6) b True c show ?thesis by (simp add: PreFetch_def Let_def)
  next
    case False
    with assms(1,3-6) b have "addSectors bf mid idx n b kv = (Inr diff, kv1)"
      by (auto simp: PreFetch_def split: prod.splits sum.splits)
    from addSectorsD [OF this assms(2)] c bits show ?thesis by (simp add: Let_def)
  qed
qed


theorem PreFetch_adds_witness:
  "avail set (snd (PreFetch demo_bf demo_snap_chain 10 1000 None (ns_kv demo_snap))) 1000 1 = {7, 8}"
proof -
  have run: "PreFetch demo_bf demo_snap_chain 10 1000 None (ns_kv demo_snap) =
      (Inr (2, 1), snd (PreFetch demo_bf demo_snap_chain 10 1000 None (ns_kv demo_snap)))"
    by (simp add: PreFetch_def demo_snap_chain_def demo_bf_def demo_snap_def sectorGoodForSnapup_def
        demo_sinfo_def addSectors_def loadExists_def exists_decode_def updateExists_def Let_def
        List.insert_def)
  have "good_sectors demo_snap_chain 10 (IDAddress 1000) ''tsk'' 100 [[7, 8]] = {7, 8}"
  proof -
    have n: "so_SectorNumber (demo_sinfo k) = k" "sectorGoodForSnapup 10 (demo_sinfo k) 100" for k
      by (simp_all add: demo_sinfo_def sectorGoodForSnapup_def)
    have "good_sectors demo_snap_chain 10 (IDAddress 1000) ''tsk'' 100 [[7, 8]] =
        so_SectorNumber ` {si \<in> set (map demo_sinfo [7, 8]). sectorGoodForSnapup 10 si 100}"
      by (auto simp: good_sectors_def demo_snap_chain_def)
    also have "\<dots> = {7, 8}" using n by force
    finally show ?thesis .
  qed
  then show ?thesis
    using PreFetch_adds [OF run demo_bf_ok, of "IDAddress 1000" "''tsk''" 100 1 2 "[[7, 8]]"]
    by (auto simp: Let_def demo_snap_chain_def demo_snap_avail [simplified])
qed

end
