(* ===== verification/Txn_Steps.thy ===== *)
theory Txn_Steps
  imports Core_Types
begin

text \<open>
  Transaction bodies as sequences of store operations: composition, the loop over a list, and the
  rule by which the components that work in transactions are proved. A body is \<open>faithful\<close> when a run
  that the engine lets through is the run on an engine that always works; then a committed
  transaction can be computed on that engine, whatever the script of the real one.
\<close>

section \<open>Composition\<close>

definition bind_step :: "('s, 'a) step \<Rightarrow> ('a \<Rightarrow> ('s, 'b) step) \<Rightarrow> ('s, 'b) step" where
  "bind_step f g s = (case f s of (Inl e, s1) \<Rightarrow> (Inl e, s1) | (Inr a, s1) \<Rightarrow> g a s1)"

definition try_step :: "('s, 'a) step \<Rightarrow> ('a res \<Rightarrow> ('s, 'b) step) \<Rightarrow> ('s, 'b) step" where
  "try_step f g s = (case f s of (r, s1) \<Rightarrow> g r s1)"

definition return_step :: "'a \<Rightarrow> ('s, 'a) step" where
  "return_step a s = (Inr a, s)"

definition fail_step :: "err \<Rightarrow> ('s, 'a) step" where
  "fail_step e s = (Inl e, s)"

fun each_step :: "('x \<Rightarrow> ('s, 'a) step) \<Rightarrow> 'x list \<Rightarrow> ('s, 'a list) step" where
  "each_step f [] s = (Inr [], s)"
| "each_step f (x # xs) s =
     bind_step (f x) (\<lambda>a. bind_step (each_step f xs) (\<lambda>as. return_step (a # as))) s"

section \<open>Runs on an engine that works\<close>

definition quiet :: "'v kvs \<Rightarrow> 'v kvs" where
  "quiet s = s\<lparr>kv_script := []\<rparr>"

definition not_found :: "err \<Rightarrow> bool" where
  "not_found e = errors_is e ErrKeyNotFound"

definition faithful :: "('v kvs, 'a) step \<Rightarrow> bool" where
  "faithful f = (\<forall>s r s1. f s = (r, s1) \<longrightarrow>
     (\<exists>e. r = Inl e \<and> \<not> not_found e) \<or> f (quiet s) = (r, quiet s1))"

named_theorems txn_intro \<open>bodies that make progress and are faithful\<close>

lemma quiet_simps [simp]: "kv_data (quiet s) = kv_data s" "kv_script (quiet s) = []" "quiet (quiet s) = quiet s"
  by (simp_all add: quiet_def)

lemma not_found_simps [simp]:
  "not_found ErrKeyNotFound" "not_found (Wrap m e) = not_found e" "\<not> not_found (Errorf m)"
  "\<not> not_found (badger_err m)" "\<not> not_found badger_ErrConflict" "\<not> not_found (Ext m)"
  by (auto simp: not_found_def badger_err_def badger_ErrConflict_def)

lemma faithfulD:
  "faithful f \<Longrightarrow> f s = (r, s1) \<Longrightarrow> (\<exists>e. r = Inl e \<and> \<not> not_found e) \<or> f (quiet s) = (r, quiet s1)"
  by (simp add: faithful_def)

lemma pop_outcome_quiet: "pop_outcome s = (Done, s1) \<Longrightarrow> quiet s1 = quiet s \<and> kv_data s1 = kv_data s"
  by (auto simp: pop_outcome_def quiet_def split: list.splits)

lemma faithful_txn_Peek [txn_intro]: "faithful (txn_Peek k f)"
proof -
  have "\<exists>e. r = Inl e \<and> \<not> not_found e \<or> txn_Peek k f (quiet s) = (r, quiet s1)"
    if "txn_Peek k f s = (r, s1)" for s r s1
  proof (cases "fst (pop_outcome s)")
    case Done
    then obtain t where t: "pop_outcome s = (Done, t)" by (metis prod.collapse)
    with that pop_outcome_quiet [OF t] show ?thesis
      by (auto simp: txn_Peek_def split: option.splits)
  qed (use that in \<open>auto simp: txn_Peek_def split: prod.splits outcome.splits\<close>)
  then show ?thesis by (fastforce simp: faithful_def)
qed

lemma faithful_txn_write [txn_intro]: "faithful (txn_write g)"
proof -
  have "\<exists>e. r = Inl e \<and> \<not> not_found e \<or> txn_write g (quiet s) = (r, quiet s1)"
    if "txn_write g s = (r, s1)" for s r s1
  proof (cases "fst (pop_outcome s)")
    case Done
    then obtain t where t: "pop_outcome s = (Done, t)" by (metis prod.collapse)
    with that pop_outcome_quiet [OF t] show ?thesis
      by (auto simp: txn_write_def quiet_def)
  qed (use that in \<open>auto simp: txn_write_def split: prod.splits outcome.splits\<close>)
  then show ?thesis by (fastforce simp: faithful_def)
qed

lemma faithful_iter_View [txn_intro]: "faithful (iter_View v f)"
proof -
  have "\<exists>e. r = Inl e \<and> \<not> not_found e \<or> iter_View v f (quiet s) = (r, quiet s1)"
    if "iter_View v f s = (r, s1)" for s r s1
  proof (cases "fst (pop_outcome s)")
    case Done
    then obtain t where t: "pop_outcome s = (Done, t)" by (metis prod.collapse)
    with that pop_outcome_quiet [OF t] show ?thesis by (auto simp: iter_View_def)
  qed (use that in \<open>auto simp: iter_View_def split: prod.splits outcome.splits\<close>)
  then show ?thesis by (fastforce simp: faithful_def)
qed

lemma txn_Put_write: "txn_Put k v = txn_write (put_entry k v)"
  by (simp add: fun_eq_iff txn_Put_def)

lemma txn_Del_write: "txn_Del k = txn_write (del_entry k)"
  by (simp add: fun_eq_iff txn_Del_def)

lemma faithful_write_ops [txn_intro]: "faithful (txn_Put k v)" "faithful (txn_Del k)"
  by (simp_all add: txn_Put_write txn_Del_write faithful_txn_write)

lemma progressing_write_ops [txn_intro]: "progressing (txn_Put k v)" "progressing (txn_Del k)"
  by (simp_all add: txn_Put_write txn_Del_write progressing_txn_write)

lemma faithful_return [txn_intro]: "faithful (return_step a)"
  by (simp add: faithful_def return_step_def)

lemma faithful_fail [txn_intro]: "faithful (fail_step e)"
  by (simp add: faithful_def fail_step_def)

lemma progressing_return [txn_intro]: "progressing (return_step a)"
  by (simp add: progressing_def return_step_def)

lemma progressing_fail [txn_intro]: "\<not> conflicting e \<Longrightarrow> progressing (fail_step e)"
  by (simp add: progressing_def fail_step_def)

lemma faithful_bind [txn_intro]:
  assumes "faithful f" "\<And>a. faithful (g a)"
  shows "faithful (bind_step f g)"
  unfolding faithful_def
proof (intro allI impI)
  fix s r s1
  assume run: "bind_step f g s = (r, s1)"
  obtain q t where q: "f s = (q, t)" by fastforce
  note F = faithfulD [OF assms(1) q]
  show "(\<exists>e. r = Inl e \<and> \<not> not_found e) \<or> bind_step f g (quiet s) = (r, quiet s1)"
  proof (cases q)
    case (Inl e)
    with run q F show ?thesis by (auto simp: bind_step_def)
  next
    case (Inr a)
    with run q have "g a t = (r, s1)" by (simp add: bind_step_def)
    from faithfulD [OF assms(2) this] F Inr show ?thesis by (auto simp: bind_step_def)
  qed
qed

lemma progressing_bind [txn_intro]:
  assumes "progressing f" "\<And>a. progressing (g a)"
  shows "progressing (bind_step f g)"
proof (rule progressingI)
  fix s r s1
  assume run: "bind_step f g s = (r, s1)"
  obtain q t where q: "f s = (q, t)" by fastforce
  have le: "length (kv_script t) \<le> length (kv_script s)" using progressing_le [OF assms(1) q] .
  show "length (kv_script s1) \<le> length (kv_script s)"
  proof (cases q)
    case (Inl e)
    with run q le show ?thesis by (simp add: bind_step_def)
  next
    case (Inr a)
    with run q have "g a t = (r, s1)" by (simp add: bind_step_def)
    from progressing_le [OF assms(2) this] le show ?thesis by simp
  qed
next
  fix s e s1
  assume run: "bind_step f g s = (Inl e, s1)" and c: "conflicting e"
  obtain q t where q: "f s = (q, t)" by fastforce
  show "length (kv_script s1) < length (kv_script s)"
  proof (cases q)
    case (Inl e')
    with run q c progressing_less [OF assms(1)] show ?thesis by (auto simp: bind_step_def)
  next
    case (Inr a)
    with run q have "g a t = (Inl e, s1)" by (simp add: bind_step_def)
    from progressing_less [OF assms(2) this c] progressing_le [OF assms(1) q] show ?thesis by simp
  qed
qed

text \<open>A body that looks at the error of a read: any error but a missing key ends it with an error.\<close>

definition passes_on :: "('a res \<Rightarrow> ('v kvs, 'b) step) \<Rightarrow> bool" where
  "passes_on g = (\<forall>e s. \<not> not_found e \<longrightarrow>
     (\<exists>e'. g (Inl e) s = (Inl e', s) \<and> \<not> not_found e' \<and> conflicting e' = conflicting e))"

lemma passes_onD: "passes_on g \<Longrightarrow> \<not> not_found e \<Longrightarrow>
    \<exists>e'. g (Inl e) s = (Inl e', s) \<and> \<not> not_found e' \<and> conflicting e' = conflicting e"
  by (simp add: passes_on_def)

lemma faithful_try [txn_intro]:
  assumes "faithful f" "passes_on g" "\<And>r. faithful (g r)"
  shows "faithful (try_step f g)"
  unfolding faithful_def
proof (intro allI impI)
  fix s r s1
  assume run: "try_step f g s = (r, s1)"
  obtain q t where q: "f s = (q, t)" by fastforce
  with run have g: "g q t = (r, s1)" by (simp add: try_step_def)
  from faithfulD [OF assms(1) q]
  show "(\<exists>e. r = Inl e \<and> \<not> not_found e) \<or> try_step f g (quiet s) = (r, quiet s1)"
  proof (elim disjE exE conjE)
    fix e
    assume e: "q = Inl e" "\<not> not_found e"
    from passes_onD [OF assms(2) e(2), of t] g e(1) show ?thesis by auto
  next
    assume "f (quiet s) = (q, quiet t)"
    with faithfulD [OF assms(3) g] show ?thesis by (auto simp: try_step_def)
  qed
qed

lemma progressing_try [txn_intro]:
  assumes "progressing f" "passes_on g" "\<And>a. progressing (g (Inr a))"
    and "\<And>e. not_found e \<Longrightarrow> progressing (g (Inl e))"
  shows "progressing (try_step f g)"
proof -
  have "length (kv_script s1) \<le> length (kv_script s) \<and>
      (\<forall>e. r = Inl e \<and> conflicting e \<longrightarrow> length (kv_script s1) < length (kv_script s))"
    if run: "try_step f g s = (r, s1)" for s r s1
  proof -
    obtain q t where q: "f s = (q, t)" by fastforce
    with run have g: "g q t = (r, s1)" by (simp add: try_step_def)
    have le: "length (kv_script t) \<le> length (kv_script s)" using progressing_le [OF assms(1) q] .
    show ?thesis
    proof (cases "\<exists>e. q = Inl e \<and> \<not> not_found e")
      case True
      then obtain e where e: "q = Inl e" "\<not> not_found e" by blast
      from passes_onD [OF assms(2) e(2), of t] obtain e' where
        "r = Inl e'" "s1 = t" "conflicting e' = conflicting e" using g e(1) by auto
      with le e q progressing_less [OF assms(1), of s e t] show ?thesis by auto
    next
      case False
      then have "progressing (g q)" using assms(3,4) by (cases q) auto
      from progressing_le [OF this g] progressing_less [OF this, of t _ s1] g le show ?thesis
        by (metis le_trans order_less_le_trans)
    qed
  qed
  then show ?thesis by (simp add: progressing_def)
qed

lemma faithful_each [txn_intro]: "(\<And>x. faithful (f x)) \<Longrightarrow> faithful (each_step f xs)"
proof (induction xs)
  case Nil
  then show ?case by (simp add: faithful_def)
next
  case (Cons x xs)
  have eq: "each_step f (x # xs) = bind_step (f x) (\<lambda>a. bind_step (each_step f xs) (\<lambda>as. return_step (a # as)))"
    by (rule ext) simp
  show ?case unfolding eq using Cons by (intro txn_intro) auto
qed

lemma progressing_each [txn_intro]: "(\<And>x. progressing (f x)) \<Longrightarrow> progressing (each_step f xs)"
proof (induction xs)
  case Nil
  then show ?case by (simp add: progressing_def)
next
  case (Cons x xs)
  have eq: "each_step f (x # xs) = bind_step (f x) (\<lambda>a. bind_step (each_step f xs) (\<lambda>as. return_step (a # as)))"
    by (rule ext) simp
  show ?case unfolding eq using Cons by (intro txn_intro) auto
qed

lemma txn_PeekAny_Cons: "txn_PeekAny f (k # ks) = try_step (txn_Peek k f) (\<lambda>r. case r of
    Inl e \<Rightarrow> if not_found e then txn_PeekAny f ks else fail_step e | Inr a \<Rightarrow> return_step (k, a))"
  by (rule ext) (auto simp: try_step_def not_found_def fail_step_def return_step_def split: prod.splits sum.splits)

lemma txn_PeekAny_Nil: "txn_PeekAny f [] = fail_step ErrKeyNotFound"
  by (rule ext) (simp add: fail_step_def)

lemma passes_on_PeekAny: "passes_on (\<lambda>r. case r of
    Inl e \<Rightarrow> if not_found e then txn_PeekAny f ks else fail_step e | Inr a \<Rightarrow> return_step (k, a))"
  by (simp add: passes_on_def fail_step_def)

lemma faithful_PeekAny [txn_intro]: "faithful (txn_PeekAny f ks)"
proof (induction ks)
  case (Cons k ks)
  then show ?case unfolding txn_PeekAny_Cons
    by (intro faithful_try faithful_txn_Peek passes_on_PeekAny)
      (auto split: sum.splits intro: txn_intro)
qed (simp add: txn_PeekAny_Nil faithful_fail)

lemma progressing_PeekAny [txn_intro]: "decoder f \<Longrightarrow> progressing (txn_PeekAny f ks)"
proof (induction ks)
  case (Cons k ks)
  then show ?case unfolding txn_PeekAny_Cons
    by (intro progressing_try progressing_txn_Peek passes_on_PeekAny)
      (auto intro: txn_intro)
qed (simp add: txn_PeekAny_Nil progressing_fail)

section \<open>The rule for transactions\<close>

text \<open>A transaction either fails and changes nothing, or it does what its body does on an engine that
  works.\<close>

lemma UpdateMustNoConflict_quiet:
  assumes "progressing f" "faithful f" "UpdateMustNoConflict f s = (r, s1)"
  shows "(\<exists>e. r = Inl e \<and> kv_data s1 = kv_data s) \<or>
    (\<exists>a t. r = Inr a \<and> f (quiet s) = (Inr a, t) \<and> kv_data s1 = kv_data t)"
proof -
  let ?Q = "\<lambda>d r d1. \<forall>a. r = Inr a \<longrightarrow> (\<exists>t. f \<lparr>kv_data = d, kv_script = []\<rparr> = (Inr a, t) \<and> d1 = kv_data t)"
  have body: "?Q (kv_data s) r (kv_data s1)" if "f s = (r, s1)" for s r s1
  proof -
    have "quiet s = \<lparr>kv_data = kv_data s, kv_script = []\<rparr>" by (simp add: quiet_def)
    with faithfulD [OF assms(2) that] have
      "r = Inr a \<Longrightarrow> f \<lparr>kv_data = kv_data s, kv_script = []\<rparr> = (Inr a, quiet s1)" for a by auto
    then show ?thesis by force
  qed
  have q: "quiet s = \<lparr>kv_data = kv_data s, kv_script = []\<rparr>" by (simp add: quiet_def)
  from UpdateMustNoConflict_rule [OF assms(1), of ?Q, OF body assms(3)] show ?thesis
    unfolding q by blast
qed

lemma bind_quiet [simp]:
  "f s = (Inr a, s1) \<Longrightarrow> bind_step f g s = g a s1"
  "f s = (Inl e, s1) \<Longrightarrow> bind_step f g s = (Inl e, s1)"
  by (simp_all add: bind_step_def)

lemma bind_InrE:
  assumes "bind_step f g s = (Inr b, s2)"
  obtains a s1 where "f s = (Inr a, s1)" "g a s1 = (Inr b, s2)"
  using assms by (auto simp: bind_step_def split: prod.splits sum.splits)

lemma txn_write_quiet [simp]:
  "kv_script s = [] \<Longrightarrow> txn_write g s = (Inr (), s\<lparr>kv_data := g (kv_data s)\<rparr>)"
  by (simp add: txn_write_def)

lemma txn_ops_quiet [simp]:
  "kv_script s = [] \<Longrightarrow> txn_Put k v s = (Inr (), s\<lparr>kv_data := put_entry k v (kv_data s)\<rparr>)"
  "kv_script s = [] \<Longrightarrow> txn_Del k s = (Inr (), s\<lparr>kv_data := del_entry k (kv_data s)\<rparr>)"
  by (simp_all add: txn_Put_def txn_Del_def)

lemma txn_Peek_quiet [simp]:
  "kv_script s = [] \<Longrightarrow> txn_Peek k f s =
    (case map_of (kv_data s) k of None \<Rightarrow> Inl ErrKeyNotFound | Some v \<Rightarrow> f v, s)"
  by (auto simp: txn_Peek_def split: option.splits)

lemma iter_View_quiet [simp]: "kv_script s = [] \<Longrightarrow> iter_View v f s = (f v, s)"
  by (simp add: iter_View_def)

lemma UpdateMustNoConflict_works:
  "f s = (Inr a, t) \<Longrightarrow> kv_script t = [] \<Longrightarrow> UpdateMustNoConflict f s = (Inr a, t)"
  by (simp add: UpdateMustNoConflict_def attempts_def kv_Update_def)

lemma ViewMustNoConflict_quiet:
  assumes "progressing f" "faithful f" "ViewMustNoConflict f s = (r, s1)"
  shows "kv_data s1 = kv_data s \<and> (\<forall>a. r = Inr a \<longrightarrow> (\<exists>t. f (quiet s) = (Inr a, t)))"
proof -
  let ?Q = "\<lambda>d r. \<forall>a. r = Inr a \<longrightarrow> (\<exists>t. f \<lparr>kv_data = d, kv_script = []\<rparr> = (Inr a, t))"
  have q: "quiet s = \<lparr>kv_data = kv_data s, kv_script = []\<rparr>" for s :: "'a kvs" by (simp add: quiet_def)
  have body: "?Q (kv_data s) r" if "f s = (r, s1)" for s r s1
    using faithfulD [OF assms(2) that] unfolding q by auto
  show ?thesis unfolding q
    by (rule ViewMustNoConflict_rule [OF assms(1), of ?Q, OF _ assms(3)]) (rule body)
qed

end
