(* ===== verification/WdPoSt_Jobs.thy ===== *)
theory WdPoSt_Jobs
  imports Txn_Steps
begin

text \<open>
  The window PoSt jobs that workers compute for the manager
  (\<open>modules/impl/prover/worker/job_mgr_kv.go\<close>, \<open>rpc.go\<close> and the notification loop of \<open>prover.go\<close>,
  \<open>core/types_wdpost.go\<close>). A job is a document in one of three buckets of a key-value store (the
  prefix of its key): ready to run, running, finished. Every operation is one transaction. The
  refinement relation \<open>represents\<close> says that a store is a map from job identifiers to jobs whose
  state names the bucket; every operation is proved to act on that map.

  The clock is a parameter: \<open>now\<close> in seconds where the code takes \<open>Unix()\<close>, in nanoseconds where it
  compares times. The job identifier of an input (a hash) is the parameter \<open>genid\<close>.
\<close>

section \<open>Jobs\<close>

record wd_sector_info =
  wds_SectorID :: u64
  wds_CommR :: bytes
  wds_Upgrade :: bool
  wds_Accesses :: access_stores

record wd_input =
  wdi_Sectors :: "wd_sector_info list"
  wdi_MinerID :: u64
  wdi_ProofType :: string
  wdi_Seed :: bytes

record wd_output =
  wdo_Faults :: "u64 list"
  wdo_Proofs :: "bytes list"

record wd_job =
  wj_ID :: string
  wj_State :: string
  wj_DeadlineIdx :: u64
  wj_Partitions :: "u64 list"
  wj_Input :: wd_input
  wj_Output :: "wd_output option"
  wj_TryNum :: u32
  wj_ErrorReason :: string
  wj_WorkerName :: string
  wj_StartedAt :: u64
  wj_HeartbeatAt :: u64
  wj_FinishedAt :: u64
  wj_CreatedAt :: u64
  wj_UpdatedAt :: u64

definition ready2run :: string where "ready2run = ''ready2run''"
definition running :: string where "running = ''running''"
definition finished :: string where "finished = ''finished''"

definition job_Finished :: "u32 \<Rightarrow> wd_job \<Rightarrow> bool" where
  "job_Finished maxTry j = (if wj_State j \<noteq> finished then False
     else if wj_ErrorReason j \<noteq> [] \<and> wj_TryNum j < maxTry then False else True)"

definition job_Succeed :: "wd_job \<Rightarrow> bool" where
  "job_Succeed j = (if wj_State j \<noteq> finished then False else wj_ErrorReason j = [])"

type_synonym job_store = "wd_job json kvs"

definition makeWdPoStPrefix :: "string \<Rightarrow> string" where
  "makeWdPoStPrefix st = st"

definition makeWdPoStKey :: "string \<Rightarrow> string \<Rightarrow> key" where
  "makeWdPoStKey st jobID = makeWdPoStPrefix st @ '':'' @ jobID"

text \<open>\<open>splitKey\<close>: Go's \<open>strings.SplitN(key, ":", 2)\<close>; a key without the delimiter panics.\<close>

definition splitKey :: "key \<Rightarrow> (string \<times> string) res" where
  "splitKey k = (case dropWhile (\<lambda>c. c \<noteq> CHR '':'') k of
     [] \<Rightarrow> Inl (Panic ''index out of range'')
   | c # rest \<Rightarrow> Inr (takeWhile (\<lambda>c. c \<noteq> CHR '':'') k, rest))"

definition allStates :: "string list" where
  "allStates = [ready2run, running, finished]"

section \<open>Operations\<close>

text \<open>\<open>filter\<close>: the jobs of a bucket that satisfy a predicate, in key order, at most \<open>limit\<close>.\<close>

fun filter_loop :: "nat \<Rightarrow> (wd_job \<Rightarrow> bool) \<Rightarrow> (key \<times> wd_job json) list \<Rightarrow> wd_job list \<Rightarrow>
    (job_store, wd_job list) step" where
  "filter_loop limit f [] jobs s = (Inr jobs, s)"
| "filter_loop limit f (e # es) jobs s =
    (if length jobs < limit
     then bind_step (iter_View (snd e) unmarshal)
       (\<lambda>job. filter_loop limit f es (if f job then jobs @ [job] else jobs)) s
     else (Inr jobs, s))"

definition wd_filter :: "string \<Rightarrow> u32 \<Rightarrow> (wd_job \<Rightarrow> bool) \<Rightarrow> (job_store, wd_job list) step" where
  "wd_filter st limit f s =
     filter_loop (unat limit) f (scan_entries (makeWdPoStPrefix st) (kv_data s)) [] s"

definition PutJSON :: "key \<Rightarrow> 'v \<Rightarrow> ('v json kvs, unit) step" where
  "PutJSON k v = txn_Put k (Json v)"

text \<open>\<open>All\<close>: every job that satisfies the predicate, newest first. \<open>sort.Slice\<close> is not stable, so the
  sorting function is a parameter.\<close>

definition wd_All :: "(wd_job list \<Rightarrow> wd_job list) \<Rightarrow> (wd_job \<Rightarrow> bool) \<Rightarrow> (job_store, wd_job list) step" where
  "wd_All srt f s = (case ViewMustNoConflict (each_step (\<lambda>st. wd_filter st (- 1) f) allStates) s of
     (Inl e, s1) \<Rightarrow> (Inl e, s1)
   | (Inr js, s1) \<Rightarrow> (Inr (srt (concat js)), s1))"

definition peek_job :: "string \<Rightarrow> string \<Rightarrow> (job_store, wd_job list) step" where
  "peek_job jobID st = try_step (txn_Peek (makeWdPoStKey st jobID) unmarshal) (\<lambda>r. case r of
     Inl e \<Rightarrow> if not_found e then return_step [] else fail_step e
   | Inr job \<Rightarrow> return_step [job])"

definition ListByJobIDs :: "string list \<Rightarrow> (job_store, wd_job list) step" where
  "ListByJobIDs jobIDs s = (case ViewMustNoConflict (each_step (\<lambda>jobID.
       bind_step (each_step (peek_job jobID) allStates) (\<lambda>js. return_step (concat js))) jobIDs) s of
     (Inl e, s1) \<Rightarrow> (Inl e, s1)
   | (Inr js, s1) \<Rightarrow> (Inr (concat js), s1))"

definition new_job :: "string \<Rightarrow> u64 \<Rightarrow> u64 \<Rightarrow> u64 list \<Rightarrow> wd_input \<Rightarrow> wd_job" where
  "new_job jobID now dl parts input = \<lparr>wj_ID = jobID, wj_State = ready2run, wj_DeadlineIdx = dl,
     wj_Partitions = parts, wj_Input = input, wj_Output = None, wj_TryNum = 0, wj_ErrorReason = [],
     wj_WorkerName = [], wj_StartedAt = 0, wj_HeartbeatAt = 0, wj_FinishedAt = 0,
     wj_CreatedAt = now, wj_UpdatedAt = now\<rparr>"

definition create_body :: "(wd_input \<Rightarrow> string) \<Rightarrow> u64 \<Rightarrow> u64 \<Rightarrow> u64 list \<Rightarrow> wd_input \<Rightarrow> (job_store, wd_job) step" where
  "create_body genid now dl parts input = (let jobID = genid input in
    try_step (txn_PeekAny unmarshal [makeWdPoStKey ready2run jobID, makeWdPoStKey running jobID,
        makeWdPoStKey finished jobID]) (\<lambda>r. case r of
      Inr (_, job) \<Rightarrow> return_step job
    | Inl e \<Rightarrow> if \<not> not_found e then fail_step e
        else (let job = new_job jobID now dl parts input in
          bind_step (PutJSON (makeWdPoStKey ready2run jobID) job) (\<lambda>_. return_step job))))"

definition wd_Create :: "(wd_input \<Rightarrow> string) \<Rightarrow> u64 \<Rightarrow> u64 \<Rightarrow> u64 list \<Rightarrow> wd_input \<Rightarrow> (job_store, wd_job) step" where
  "wd_Create genid now dl parts input = UpdateMustNoConflict (create_body genid now dl parts input)"

text \<open>The loops that move jobs from one bucket to another: delete, change, store.\<close>

definition move_job :: "string \<Rightarrow> string \<Rightarrow> (wd_job \<Rightarrow> wd_job) \<Rightarrow> wd_job \<Rightarrow> (job_store, wd_job) step" where
  "move_job src dst upd job = bind_step (txn_Del (makeWdPoStKey src (wj_ID job)))
     (\<lambda>_. bind_step (PutJSON (makeWdPoStKey dst (wj_ID job)) (upd job)) (\<lambda>_. return_step (upd job)))"

record job_spec =
  js_AllowedMiners :: "u64 list"
  js_AllowedProofTypes :: "string list"

definition job_allowed :: "job_spec \<Rightarrow> wd_job \<Rightarrow> bool" where
  "job_allowed spec j =
    (if length (js_AllowedMiners spec) > 0 \<and> wdi_MinerID (wj_Input j) \<notin> set (js_AllowedMiners spec) then False
     else if length (js_AllowedProofTypes spec) > 0 \<and>
       wdi_ProofType (wj_Input j) \<notin> set (js_AllowedProofTypes spec) then False
     else True)"

definition run_job :: "u64 \<Rightarrow> string \<Rightarrow> wd_job \<Rightarrow> wd_job" where
  "run_job now worker j = j\<lparr>wj_State := running, wj_TryNum := wj_TryNum j + 1, wj_StartedAt := now,
     wj_WorkerName := worker, wj_HeartbeatAt := now, wj_UpdatedAt := now\<rparr>"

definition allocate_body :: "job_spec \<Rightarrow> u32 \<Rightarrow> string \<Rightarrow> u64 \<Rightarrow> (job_store, wd_job list) step" where
  "allocate_body spec n worker now = bind_step (wd_filter ready2run n (job_allowed spec))
     (each_step (move_job ready2run running (run_job now worker)))"

definition AllocateJobs :: "job_spec \<Rightarrow> u32 \<Rightarrow> string \<Rightarrow> u64 \<Rightarrow> (job_store, (string \<times> wd_input) list) step" where
  "AllocateJobs spec n worker now s = (case UpdateMustNoConflict (allocate_body spec n worker now) s of
     (Inl e, s1) \<Rightarrow> (Inl e, s1)
   | (Inr js, s1) \<Rightarrow> (Inr (map (\<lambda>j. (wj_ID j, wj_Input j)) js), s1))"

definition beat_job :: "u64 \<Rightarrow> string \<Rightarrow> wd_job \<Rightarrow> wd_job" where
  "beat_job now worker j = j\<lparr>wj_StartedAt := (if wj_StartedAt j = 0 then now else wj_StartedAt j),
     wj_HeartbeatAt := now, wj_WorkerName := worker, wj_State := running, wj_UpdatedAt := now\<rparr>"

definition heartbeat_body :: "string list \<Rightarrow> string \<Rightarrow> u64 \<Rightarrow> (job_store, unit list) step" where
  "heartbeat_body jobIDs worker now = each_step (\<lambda>jobID.
     bind_step (txn_PeekAny unmarshal [makeWdPoStKey running jobID, makeWdPoStKey ready2run jobID])
       (\<lambda>(key, job). bind_step (txn_Del key)
         (\<lambda>_. PutJSON (makeWdPoStKey running jobID) (beat_job now worker job)))) jobIDs"

definition Heartbeat :: "string list \<Rightarrow> string \<Rightarrow> u64 \<Rightarrow> (job_store, unit) step" where
  "Heartbeat jobIDs worker now s = (case UpdateMustNoConflict (heartbeat_body jobIDs worker now) s of
     (Inl e, s1) \<Rightarrow> (Inl e, s1) | (Inr _, s1) \<Rightarrow> (Inr (), s1))"

definition finish_job :: "wd_output option \<Rightarrow> string \<Rightarrow> u64 \<Rightarrow> wd_job \<Rightarrow> wd_job" where
  "finish_job out reason now j = j\<lparr>wj_State := finished, wj_Output := out, wj_ErrorReason := reason,
     wj_FinishedAt := now, wj_UpdatedAt := now\<rparr>"

definition finish_body :: "string \<Rightarrow> wd_output option \<Rightarrow> string \<Rightarrow> u64 \<Rightarrow> (job_store, unit) step" where
  "finish_body jobID out reason now =
     bind_step (txn_PeekAny unmarshal [makeWdPoStKey running jobID, makeWdPoStKey ready2run jobID,
         makeWdPoStKey finished jobID])
       (\<lambda>(key, job). bind_step (txn_Del key)
         (\<lambda>_. PutJSON (makeWdPoStKey finished jobID) (finish_job out reason now job)))"

definition Finish :: "string \<Rightarrow> wd_output option \<Rightarrow> string \<Rightarrow> u64 \<Rightarrow> (job_store, unit) step" where
  "Finish jobID out reason now = UpdateMustNoConflict (finish_body jobID out reason now)"

text \<open>\<open>time.Unix(int64(t), 0).Before(limit)\<close> with the limit in nanoseconds.\<close>

definition unix_before :: "u64 \<Rightarrow> int \<Rightarrow> bool" where
  "unix_before t limit = (sint t * 1000000000 < limit)"

definition die_job :: "u64 \<Rightarrow> wd_job \<Rightarrow> wd_job" where
  "die_job now j = j\<lparr>wj_State := finished, wj_FinishedAt := now, wj_Output := None,
     wj_ErrorReason := ''heartbeat timeout'', wj_UpdatedAt := now\<rparr>"

definition die_body :: "int \<Rightarrow> u32 \<Rightarrow> u64 \<Rightarrow> (job_store, wd_job list) step" where
  "die_body shouldDeadTime limit now = bind_step (wd_filter running limit (\<lambda>j. wj_HeartbeatAt j > 0 \<and>
       unix_before (wj_HeartbeatAt j) shouldDeadTime))
     (each_step (move_job running finished (die_job now)))"

definition unit_res :: "'a res \<times> 's \<Rightarrow> unit res \<times> 's" where
  "unit_res p = (case p of (Inl e, s) \<Rightarrow> (Inl e, s) | (Inr _, s) \<Rightarrow> (Inr (), s))"

definition MakeJobsDie :: "int \<Rightarrow> u32 \<Rightarrow> int \<Rightarrow> u64 \<Rightarrow> (job_store, unit) step" where
  "MakeJobsDie heartbeatTimeout limit now_ns now s =
     unit_res (UpdateMustNoConflict (die_body (now_ns - heartbeatTimeout) limit now) s)"

definition cleanup_body :: "int \<Rightarrow> u32 \<Rightarrow> (job_store, unit list) step" where
  "cleanup_body shouldCleanTime limit =
     bind_step (wd_filter finished limit (\<lambda>j. unix_before (wj_CreatedAt j) shouldCleanTime))
       (each_step (\<lambda>j. txn_Del (makeWdPoStKey finished (wj_ID j))))"

definition CleanupExpiredJobs :: "int \<Rightarrow> u32 \<Rightarrow> int \<Rightarrow> (job_store, unit) step" where
  "CleanupExpiredJobs jobLifetime limit now_ns s =
     unit_res (UpdateMustNoConflict (cleanup_body (now_ns - jobLifetime) limit) s)"

definition retry_job :: "u64 \<Rightarrow> wd_job \<Rightarrow> wd_job" where
  "retry_job now j = j\<lparr>wj_ErrorReason := [], wj_State := ready2run, wj_Output := None,
     wj_StartedAt := 0, wj_FinishedAt := 0, wj_UpdatedAt := now\<rparr>"

definition retry_body :: "u32 \<Rightarrow> u32 \<Rightarrow> u64 \<Rightarrow> (job_store, wd_job list) step" where
  "retry_body maxTry limit now =
     bind_step (wd_filter finished limit (\<lambda>j. length (wj_ErrorReason j) \<noteq> 0 \<and> wj_TryNum j < maxTry))
       (each_step (move_job finished ready2run (retry_job now)))"

definition RetryFailedJobs :: "u32 \<Rightarrow> u32 \<Rightarrow> u64 \<Rightarrow> (job_store, unit) step" where
  "RetryFailedJobs maxTry limit now s = unit_res (UpdateMustNoConflict (retry_body maxTry limit now) s)"

definition reset_job :: "u64 \<Rightarrow> wd_job \<Rightarrow> wd_job" where
  "reset_job now j = j\<lparr>wj_State := ready2run, wj_CreatedAt := now, wj_StartedAt := 0, wj_TryNum := 0,
     wj_Output := None, wj_ErrorReason := [], wj_FinishedAt := 0, wj_HeartbeatAt := 0,
     wj_WorkerName := [], wj_UpdatedAt := now\<rparr>"

definition reset_body :: "string \<Rightarrow> u64 \<Rightarrow> (job_store, unit) step" where
  "reset_body jobID now =
     try_step (txn_PeekAny unmarshal [makeWdPoStKey ready2run jobID, makeWdPoStKey running jobID,
         makeWdPoStKey finished jobID]) (\<lambda>r. case r of
       Inl e \<Rightarrow> fail_step (Wrap ''load job from db'' e)
     | Inr (key, job) \<Rightarrow> bind_step (txn_Del key)
         (\<lambda>_. PutJSON (makeWdPoStKey ready2run jobID) (reset_job now job)))"

definition wd_Reset :: "string \<Rightarrow> u64 \<Rightarrow> (job_store, unit) step" where
  "wd_Reset jobID now = UpdateMustNoConflict (reset_body jobID now)"

definition remove_body :: "string \<Rightarrow> (job_store, unit) step" where
  "remove_body jobID =
     try_step (txn_PeekAny (\<lambda>_. Inr ()) [makeWdPoStKey ready2run jobID, makeWdPoStKey running jobID,
         makeWdPoStKey finished jobID]) (\<lambda>r. case r of
       Inl e \<Rightarrow> if not_found e then return_step () else fail_step (Wrap ''load job from db'' e)
     | Inr (key, _) \<Rightarrow> txn_Del key)"

definition wd_Remove :: "string \<Rightarrow> (job_store, unit) step" where
  "wd_Remove jobID = UpdateMustNoConflict (remove_body jobID)"

text \<open>The RPC handlers pass through, but for the two that name a missing job.\<close>

definition WdPoStResetJob :: "string \<Rightarrow> u64 \<Rightarrow> (job_store, unit) step" where
  "WdPoStResetJob jobID now s = (case wd_Reset jobID now s of
     (Inl e, s1) \<Rightarrow> (Inl (if errors_is e ErrKeyNotFound
        then Errorf (''job '' @ jobID @ '' does not exist'') else e), s1)
   | (Inr u, s1) \<Rightarrow> (Inr u, s1))"


section \<open>The map a store represents\<close>

definition job_key :: "wd_job \<Rightarrow> key" where
  "job_key j = makeWdPoStKey (wj_State j) (wj_ID j)"

definition entry :: "wd_job \<Rightarrow> key \<times> wd_job json" where
  "entry j = (job_key j, Json j)"

definition represents :: "(key \<times> wd_job json) list \<Rightarrow> (string \<rightharpoonup> wd_job) \<Rightarrow> bool" where
  "represents d M = (ordered_entries d \<and>
     (\<forall>i j. M i = Some j \<longrightarrow> wj_ID j = i \<and> wj_State j \<in> set allStates) \<and> set d = entry ` ran M)"

lemma state_names [simp]:
  "ready2run \<noteq> running" "running \<noteq> ready2run" "ready2run \<noteq> finished" "finished \<noteq> ready2run"
  "running \<noteq> finished" "finished \<noteq> running"
  by (simp_all add: ready2run_def running_def finished_def)

lemma allStates_set [simp]: "set allStates = {ready2run, running, finished}"
  by (simp add: allStates_def)

lemma no_colon: "st \<in> set allStates \<Longrightarrow> CHR '':'' \<notin> set st"
  by (auto simp: ready2run_def running_def finished_def)

lemma makeWdPoStKey_inject:
  "st \<in> set allStates \<Longrightarrow> st' \<in> set allStates \<Longrightarrow>
   makeWdPoStKey st i = makeWdPoStKey st' i' \<longleftrightarrow> st = st' \<and> i = i'"
  using separator_inject [OF no_colon no_colon, of st st' i i']
  by (auto simp: makeWdPoStKey_def makeWdPoStPrefix_def)

lemma prefix_key: "st \<in> set allStates \<Longrightarrow> st' \<in> set allStates \<Longrightarrow>
    prefix st (makeWdPoStKey st' i) \<longleftrightarrow> st = st'"
  by (auto simp: makeWdPoStKey_def makeWdPoStPrefix_def ready2run_def running_def finished_def)

lemma representsD:
  assumes "represents d M"
  shows "ordered_entries d" "M i = Some j \<Longrightarrow> wj_ID j = i" "M i = Some j \<Longrightarrow> wj_State j \<in> set allStates"
    "set d = entry ` ran M" "j \<in> ran M \<longleftrightarrow> M (wj_ID j) = Some j"
proof -
  have law: "\<And>i j. M i = Some j \<Longrightarrow> wj_ID j = i \<and> wj_State j \<in> set allStates"
    using assms unfolding represents_def by blast
  show "ordered_entries d" "set d = entry ` ran M" using assms unfolding represents_def by blast+
  show "M i = Some j \<Longrightarrow> wj_ID j = i" "M i = Some j \<Longrightarrow> wj_State j \<in> set allStates"
    using law [of i j] by blast+
  show "j \<in> ran M \<longleftrightarrow> M (wj_ID j) = Some j" using law [of _ j] by (auto simp: ran_def)
qed

lemma job_key_eq:
  "wj_State j \<in> set allStates \<Longrightarrow> wj_State j' \<in> set allStates \<Longrightarrow>
   job_key j = job_key j' \<longleftrightarrow> wj_State j = wj_State j' \<and> wj_ID j = wj_ID j'"
  unfolding job_key_def by (rule makeWdPoStKey_inject)

lemma job_key_inject:
  assumes "represents d M" "j \<in> ran M" "j' \<in> ran M" "job_key j = job_key j'"
  shows "j = j'"
proof -
  note R = representsD [OF assms(1)]
  have m: "M (wj_ID j) = Some j" "M (wj_ID j') = Some j'"
    using R(5) [THEN iffD1, OF assms(2)] R(5) [THEN iffD1, OF assms(3)] .
  have "wj_ID j = wj_ID j'"
    using job_key_eq [OF R(3) [OF m(1)] R(3) [OF m(2)]] assms(4) by (rule iffD1 [THEN conjunct2])
  with m show ?thesis by (metis option.inject)
qed

lemma represents_peek:
  assumes "represents d M" "st \<in> set allStates"
  shows "map_of d (makeWdPoStKey st i) =
    (case M i of None \<Rightarrow> None | Some j \<Rightarrow> if wj_State j = st then Some (Json j) else None)"
proof -
  note R = representsD [OF assms(1)]
  have key: "makeWdPoStKey st i = job_key j \<longleftrightarrow> wj_State j = st \<and> wj_ID j = i" if "j \<in> ran M" for j
  proof -
    have "M (wj_ID j) = Some j" using that R(5) by blast
    from makeWdPoStKey_inject [OF assms(2) R(3) [OF this], of i "wj_ID j"] show ?thesis
      unfolding job_key_def by blast
  qed
  have "map_of d (makeWdPoStKey st i) = Some v \<longleftrightarrow> (\<exists>j. M i = Some j \<and> wj_State j = st \<and> v = Json j)" for v
  proof -
    have "map_of d (makeWdPoStKey st i) = Some v \<longleftrightarrow> (\<exists>j \<in> ran M. makeWdPoStKey st i = job_key j \<and> v = Json j)"
      unfolding map_of_eq_Some_ordered [OF R(1)] R(4) entry_def by blast
    also have "\<dots> \<longleftrightarrow> (\<exists>j \<in> ran M. wj_State j = st \<and> wj_ID j = i \<and> v = Json j)" using key by blast
    also have "\<dots> \<longleftrightarrow> (\<exists>j. M i = Some j \<and> wj_State j = st \<and> v = Json j)" using R(2,5) by metis
    finally show ?thesis .
  qed
  note iff = this
  show ?thesis
  proof (cases "map_of d (makeWdPoStKey st i)")
    case None
    then show ?thesis using iff by (auto split: option.splits)
  next
    case (Some v)
    then show ?thesis using iff [of v] by auto
  qed
qed

lemma keep_entries:
  assumes "represents d M" "j \<in> ran M"
  shows "{p \<in> set d. fst p \<noteq> job_key j} = entry ` (ran M - {j})"
proof -
  have "job_key x \<noteq> job_key j \<longleftrightarrow> x \<noteq> j" if "x \<in> ran M" for x
    using job_key_inject [OF assms(1) that assms(2)] by blast
  then show ?thesis unfolding representsD(4) [OF assms(1)] entry_def by auto
qed

lemma ran_less: "represents d M \<Longrightarrow> M (wj_ID j) = Some j \<Longrightarrow> ran (M(wj_ID j := None)) = ran M - {j}"
proof -
  assume "represents d M" "M (wj_ID j) = Some j"
  then have "M i = Some j \<longleftrightarrow> i = wj_ID j" for i using representsD(2) by metis
  then show ?thesis by (auto simp: ran_def) (metis option.inject)
qed

lemma represents_delete:
  assumes "represents d M" "M (wj_ID j) = Some j"
  shows "represents (del_entry (job_key j) d) (M(wj_ID j := None))"
proof -
  note R = representsD [OF assms(1)]
  have "set (del_entry (job_key j) d) = entry ` ran (M(wj_ID j := None))"
    unfolding set_del_entry ran_less [OF assms] using keep_entries [OF assms(1)] R(5) assms(2) by blast
  then show ?thesis unfolding represents_def using R(1,2,3) by (auto split: if_splits)
qed

lemma represents_insert:
  assumes "represents d M" "M (wj_ID j') = None" "wj_State j' \<in> set allStates"
  shows "represents (put_entry (job_key j') (Json j') d) (M(wj_ID j' \<mapsto> j'))"
proof -
  note R = representsD [OF assms(1)]
  have "job_key x \<noteq> job_key j'" if "x \<in> ran M" for x
  proof -
    have "M (wj_ID x) = Some x" using that R(5) by blast
    with job_key_eq [OF R(3) [OF this] assms(3)] assms(2) show ?thesis by auto
  qed
  then have "{p \<in> set d. fst p \<noteq> job_key j'} = entry ` ran M" unfolding R(4) entry_def by auto
  moreover have "ran (M(wj_ID j' \<mapsto> j')) = insert j' (ran M)" using assms(2) by simp
  ultimately have "set (put_entry (job_key j') (Json j') d) = entry ` ran (M(wj_ID j' \<mapsto> j'))"
    unfolding set_put_entry by (simp add: entry_def)
  then show ?thesis unfolding represents_def using R(1,2,3) assms(3) by (auto split: if_splits)
qed

lemma represents_replace:
  assumes "represents d M" "M (wj_ID j) = Some j" "wj_ID j' = wj_ID j" "wj_State j' \<in> set allStates"
  shows "represents (put_entry (job_key j') (Json j') (del_entry (job_key j) d)) (M(wj_ID j \<mapsto> j'))"
  using represents_insert [OF represents_delete [OF assms(1,2)], of j'] assms(3,4) by simp

section \<open>Scanning a bucket\<close>

definition bucket :: "string \<Rightarrow> (key \<times> wd_job json) list \<Rightarrow> wd_job list" where
  "bucket st d = concat (map (\<lambda>e. case snd e of Json j \<Rightarrow> [j] | Malformed _ \<Rightarrow> []) (scan_entries st d))"

lemma scan_json:
  assumes "represents d M" "e \<in> set (scan_entries st d)" "st \<in> set allStates"
  shows "\<exists>j. e = entry j \<and> M (wj_ID j) = Some j \<and> wj_State j = st"
proof -
  note R = representsD [OF assms(1)]
  from assms(2) obtain j where j: "e = entry j" "j \<in> ran M" "prefix st (job_key j)"
    unfolding scan_entries_def set_filter R(4) by (auto simp: entry_def)
  then have m: "M (wj_ID j) = Some j" using R(5) by blast
  with j prefix_key [OF assms(3) R(3) [OF m], of "wj_ID j"] show ?thesis unfolding job_key_def by blast
qed

lemma set_bucket:
  assumes "represents d M" "st \<in> set allStates"
  shows "set (bucket st d) = {j. M (wj_ID j) = Some j \<and> wj_State j = st}"
proof
  show "set (bucket st d) \<subseteq> {j. M (wj_ID j) = Some j \<and> wj_State j = st}"
    by (fastforce simp: bucket_def entry_def dest!: scan_json [OF assms(1) _ assms(2)])
next
  show "{j. M (wj_ID j) = Some j \<and> wj_State j = st} \<subseteq> set (bucket st d)"
  proof
    fix j
    assume "j \<in> {j. M (wj_ID j) = Some j \<and> wj_State j = st}"
    then have j: "M (wj_ID j) = Some j" "wj_State j = st" by auto
    then have "entry j \<in> set d" unfolding representsD(4) [OF assms(1)] using representsD(5) [OF assms(1)] by blast
    moreover have "prefix st (job_key j)"
      using prefix_key [OF assms(2) assms(2)] by (simp add: job_key_def j)
    ultimately have "entry j \<in> set (scan_entries st d)" by (simp add: scan_entries_def entry_def)
    then show "j \<in> set (bucket st d)" by (force simp: bucket_def entry_def)
  qed
qed

lemma distinct_bucket:
  assumes "represents d M" "st \<in> set allStates"
  shows "distinct (map wj_ID (bucket st d))"
proof -
  let ?es = "scan_entries st d"
  have "map fst es = map (\<lambda>j. makeWdPoStKey st (wj_ID j))
      (concat (map (\<lambda>e. case snd e of Json j \<Rightarrow> [j] | Malformed _ \<Rightarrow> []) es))"
    if "set es \<subseteq> set ?es" for es
    using that
  proof (induction es)
    case (Cons e es)
    then obtain j where "e = entry j" "wj_State j = st"
      using scan_json [OF assms(1) _ assms(2), of e] by auto
    with Cons show ?case by (simp add: entry_def job_key_def)
  qed simp
  then have "map fst ?es = map (\<lambda>j. makeWdPoStKey st (wj_ID j)) (bucket st d)"
    unfolding bucket_def by blast
  moreover have "distinct (map fst ?es)"
    using representsD(1) [OF assms(1)] by (simp add: scan_entries_def ordered_entries_def distinct_map_filter)
  ultimately have "distinct (map (\<lambda>i. makeWdPoStKey st i) (map wj_ID (bucket st d)))" by (simp add: o_def)
  then show ?thesis by (rule distinct_map [THEN iffD1, THEN conjunct1])
qed

lemma filter_loop_quiet:
  assumes "kv_script s = []" "\<And>e. e \<in> set es \<Longrightarrow> \<exists>j. snd e = Json j"
  shows "filter_loop n f es jobs s = (Inr (jobs @ take (n - length jobs)
    (filter f (concat (map (\<lambda>e. case snd e of Json j \<Rightarrow> [j] | Malformed _ \<Rightarrow> []) es)))), s)"
  using assms
proof (induction es arbitrary: jobs)
  case (Cons e es)
  then obtain j where j: "snd e = Json j" by fastforce
  show ?case
  proof (cases "length jobs < n")
    case True
    then have n: "n - length jobs = Suc (n - Suc (length jobs))" by simp
    have "filter_loop n f (e # es) jobs s = filter_loop n f es (if f j then jobs @ [j] else jobs) s"
      using True j Cons.prems(1) by simp
    also have "\<dots> = (Inr (jobs @ take (n - length jobs)
        (filter f (concat (map (\<lambda>e. case snd e of Json j \<Rightarrow> [j] | Malformed _ \<Rightarrow> []) (e # es))))), s)"
      using Cons j n by simp
    finally show ?thesis .
  qed simp
qed simp

lemma wd_filter_quiet:
  assumes "represents (kv_data s) M" "kv_script s = []" "st \<in> set allStates"
  shows "wd_filter st limit f s = (Inr (take (unat limit) (filter f (bucket st (kv_data s)))), s)"
proof -
  have "\<exists>j. snd e = Json j" if "e \<in> set (scan_entries st (kv_data s))" for e
    using scan_json [OF assms(1) that assms(3)] by (auto simp: entry_def)
  from filter_loop_quiet [OF assms(2) this, of "scan_entries st (kv_data s)" "unat limit" f "[]"]
  show ?thesis by (simp add: wd_filter_def makeWdPoStPrefix_def bucket_def)
qed


section \<open>Moving jobs between buckets\<close>

definition moved :: "(wd_job \<Rightarrow> wd_job) \<Rightarrow> string set \<Rightarrow> (string \<rightharpoonup> wd_job) \<Rightarrow> string \<rightharpoonup> wd_job" where
  "moved upd ids M = (\<lambda>i. if i \<in> ids then map_option upd (M i) else M i)"

definition mover :: "string \<Rightarrow> (wd_job \<Rightarrow> wd_job) \<Rightarrow> bool" where
  "mover dst upd = (\<forall>j. wj_ID (upd j) = wj_ID j \<and> wj_State (upd j) = dst)"

lemma movers [simp]:
  "mover running (run_job now worker)" "mover running (beat_job now worker)"
  "mover finished (finish_job out reason now)" "mover finished (die_job now)"
  "mover ready2run (retry_job now)" "mover ready2run (reset_job now)"
  by (simp_all add: mover_def run_job_def beat_job_def finish_job_def die_job_def retry_job_def reset_job_def)

lemma moverD: "mover dst upd \<Longrightarrow> wj_ID (upd j) = wj_ID j" "mover dst upd \<Longrightarrow> wj_State (upd j) = dst"
  by (simp_all add: mover_def)

lemma moved_simps [simp]: "moved upd {} M = M"
  by (simp add: moved_def)

lemma del_put_quiet:
  assumes "represents (kv_data s) M" "kv_script s = []" "M i = Some j" "mover dst upd" "dst \<in> set allStates"
  obtains s1 where "bind_step (txn_Del (makeWdPoStKey (wj_State j) i)) (\<lambda>_. PutJSON (makeWdPoStKey dst i) (upd j)) s
      = (Inr (), s1)" "represents (kv_data s1) (M(i \<mapsto> upd j))" "kv_script s1 = []"
proof -
  have i: "wj_ID j = i" using representsD(2) [OF assms(1,3)] .
  let ?s1 = "s\<lparr>kv_data := put_entry (makeWdPoStKey dst i) (Json (upd j))
    (del_entry (makeWdPoStKey (wj_State j) i) (kv_data s))\<rparr>"
  have "represents (kv_data ?s1) (M(i \<mapsto> upd j))"
    using represents_replace [OF assms(1), of j "upd j"] assms(3,5) i moverD [OF assms(4), of j]
    by (simp add: job_key_def)
  then show ?thesis using that [of ?s1] assms(2) by (simp add: PutJSON_def)
qed

lemma move_job_quiet:
  assumes "represents (kv_data s) M" "kv_script s = []" "M (wj_ID j) = Some j" "mover dst upd" "dst \<in> set allStates"
  obtains s1 where "move_job (wj_State j) dst upd j s = (Inr (upd j), s1)"
    "represents (kv_data s1) (M(wj_ID j \<mapsto> upd j))" "kv_script s1 = []"
proof -
  from del_put_quiet [OF assms] obtain s1 where
    s1: "bind_step (txn_Del (makeWdPoStKey (wj_State j) (wj_ID j)))
        (\<lambda>_. PutJSON (makeWdPoStKey dst (wj_ID j)) (upd j)) s = (Inr (), s1)"
      "represents (kv_data s1) (M(wj_ID j \<mapsto> upd j))" "kv_script s1 = []" .
  from s1(1) have "move_job (wj_State j) dst upd j s = (Inr (upd j), s1)"
    by (auto simp: move_job_def bind_step_def return_step_def split: prod.splits sum.splits)
  with s1 that show ?thesis by blast
qed

lemma moves_quiet:
  assumes "represents (kv_data s) M" "kv_script s = []" "distinct (map wj_ID js)"
    "\<And>j. j \<in> set js \<Longrightarrow> M (wj_ID j) = Some j \<and> wj_State j = src" "mover dst upd" "dst \<in> set allStates"
  shows "\<exists>s1. each_step (move_job src dst upd) js s = (Inr (map upd js), s1) \<and>
    represents (kv_data s1) (moved upd (wj_ID ` set js) M) \<and> kv_script s1 = []"
  using assms(1-4)
proof (induction js arbitrary: s M)
  case (Cons j js)
  then have j: "M (wj_ID j) = Some j" "wj_State j = src" by auto
  from move_job_quiet [OF Cons.prems(1,2) j(1) assms(5,6)] obtain s1 where
    s1: "move_job src dst upd j s = (Inr (upd j), s1)" "represents (kv_data s1) (M(wj_ID j \<mapsto> upd j))"
      "kv_script s1 = []" unfolding j(2) .
  have "(M(wj_ID j \<mapsto> upd j)) (wj_ID j') = Some j' \<and> wj_State j' = src" if "j' \<in> set js" for j'
  proof -
    have "wj_ID j' \<noteq> wj_ID j" using that Cons.prems(3) by (force simp: image_iff)
    then show ?thesis using that Cons.prems(4) by simp
  qed
  note js = this
  have "distinct (map wj_ID js)" using Cons.prems(3) by simp
  from Cons.IH [OF s1(2,3) this js] obtain s2 where
    s2: "each_step (move_job src dst upd) js s1 = (Inr (map upd js), s2)"
      "represents (kv_data s2) (moved upd (wj_ID ` set js) (M(wj_ID j \<mapsto> upd j)))" "kv_script s2 = []" by blast
  have "moved upd (wj_ID ` set js) (M(wj_ID j \<mapsto> upd j)) = moved upd (wj_ID ` set (j # js)) M"
    using Cons.prems(3) j(1) by (auto simp: moved_def fun_eq_iff)
  with s1 s2 show ?case by (auto simp: return_step_def)
qed (auto intro!: exI [of _ s])

lemma PeekAny_quiet:
  assumes "represents (kv_data s) M" "kv_script s = []" "set sts \<subseteq> set allStates"
  shows "txn_PeekAny unmarshal (map (\<lambda>st. makeWdPoStKey st i) sts) s = (case M i of
     None \<Rightarrow> (Inl ErrKeyNotFound, s)
   | Some j \<Rightarrow> if wj_State j \<in> set sts then (Inr (makeWdPoStKey (wj_State j) i, j), s) else (Inl ErrKeyNotFound, s))"
  using assms(3)
proof (induction sts)
  case Nil
  then show ?case by (auto split: option.splits)
next
  case (Cons st sts)
  then have st: "st \<in> set allStates" "set sts \<subseteq> set allStates" by auto
  have peek: "txn_Peek (makeWdPoStKey st i) unmarshal s = (case M i of None \<Rightarrow> (Inl ErrKeyNotFound, s)
      | Some j \<Rightarrow> if wj_State j = st then (Inr j, s) else (Inl ErrKeyNotFound, s))"
    using assms(2) by (auto simp: represents_peek [OF assms(1) st(1)] split: option.splits)
  show ?case using Cons.IH [OF st(2)] peek by (auto split: option.splits)
qed

section \<open>Every body is a transaction body\<close>

lemma not_found_not_conflicting: "not_found e \<Longrightarrow> \<not> conflicting e"
  by (induction e) (auto simp: not_found_def conflicting_def badger_ErrConflict_def)

lemma faithful_data: "(\<And>d. faithful (h d)) \<Longrightarrow> faithful (\<lambda>s. h (kv_data s) s)"
  by (auto simp: faithful_def)

lemma progressing_data: "(\<And>d. progressing (h d)) \<Longrightarrow> progressing (\<lambda>s. h (kv_data s) s)"
  by (auto simp: progressing_def)

lemma filter_loop_step:
  "filter_loop n f (e # es) jobs = (if length jobs < n
     then bind_step (iter_View (snd e) unmarshal)
       (\<lambda>job. filter_loop n f es (if f job then jobs @ [job] else jobs))
     else return_step jobs)"
  "filter_loop n f [] jobs = return_step jobs"
  by (rule ext, simp add: return_step_def)+

lemma filter_loop_txn [txn_intro]:
  "faithful (filter_loop n f es jobs)" "progressing (filter_loop n f es jobs)"
proof -
  show "faithful (filter_loop n f es jobs)"
    by (induction es arbitrary: jobs)
      (auto simp: filter_loop_step intro: faithful_return faithful_bind faithful_iter_View)
  show "progressing (filter_loop n f es jobs)"
    by (induction es arbitrary: jobs)
      (auto simp: filter_loop_step intro!: progressing_return progressing_bind progressing_iter_View)
qed

lemma wd_filter_txn [txn_intro]: "faithful (wd_filter st n f)" "progressing (wd_filter st n f)"
proof -
  let ?h = "\<lambda>d. filter_loop (unat n) f (scan_entries (makeWdPoStPrefix st) d) []"
  have "wd_filter st n f = (\<lambda>s. ?h (kv_data s) s)" by (simp add: wd_filter_def fun_eq_iff)
  then show "faithful (wd_filter st n f)" "progressing (wd_filter st n f)"
    using faithful_data [of ?h] progressing_data [of ?h] filter_loop_txn by simp_all
qed

lemma PutJSON_txn [txn_intro]: "faithful (PutJSON k v)" "progressing (PutJSON k v)"
  unfolding PutJSON_def by (rule txn_intro)+

lemma move_job_txn [txn_intro]: "faithful (move_job src dst upd j)" "progressing (move_job src dst upd j)"
  unfolding move_job_def by (intro txn_intro)+

lemma passes_on_cases:
  "passes_on (\<lambda>r. case r of Inr a \<Rightarrow> g a | Inl e \<Rightarrow> if \<not> not_found e then fail_step e else h e)"
  "passes_on (\<lambda>r. case r of Inl e \<Rightarrow> fail_step (Wrap m e) | Inr a \<Rightarrow> g a)"
  "passes_on (\<lambda>r. case r of Inl e \<Rightarrow> if not_found e then h e else fail_step (Wrap m e) | Inr a \<Rightarrow> g a)"
  by (auto simp: passes_on_def fail_step_def conflicting_def badger_ErrConflict_def)

lemma allocate_body_txn [txn_intro]: "faithful (allocate_body sp n w now)" "progressing (allocate_body sp n w now)"
  unfolding allocate_body_def by (intro txn_intro)+

lemma die_body_txn [txn_intro]: "faithful (die_body t n now)" "progressing (die_body t n now)"
  unfolding die_body_def by (intro txn_intro)+

lemma cleanup_body_txn [txn_intro]: "faithful (cleanup_body t n)" "progressing (cleanup_body t n)"
  unfolding cleanup_body_def by (intro txn_intro)+

lemma retry_body_txn [txn_intro]: "faithful (retry_body m n now)" "progressing (retry_body m n now)"
  unfolding retry_body_def by (intro txn_intro)+

lemma heartbeat_body_txn [txn_intro]: "faithful (heartbeat_body ids w now)" "progressing (heartbeat_body ids w now)"
  unfolding heartbeat_body_def by (intro txn_intro; auto intro!: txn_intro split: prod.splits)+

lemma finish_body_txn [txn_intro]: "faithful (finish_body i out r now)" "progressing (finish_body i out r now)"
  unfolding finish_body_def by (intro txn_intro; auto intro!: txn_intro split: prod.splits)+

lemma create_body_txn [txn_intro]: "faithful (create_body g now dl ps inp)" "progressing (create_body g now dl ps inp)"
  unfolding create_body_def Let_def
  by (intro faithful_try progressing_try passes_on_cases txn_intro;
      auto intro!: txn_intro split: prod.splits sum.splits)+

lemma reset_body_txn [txn_intro]: "faithful (reset_body i now)" "progressing (reset_body i now)"
  unfolding reset_body_def
  by (intro faithful_try progressing_try passes_on_cases txn_intro;
      auto simp: not_found_not_conflicting intro!: txn_intro split: prod.splits sum.splits)+

lemma remove_body_txn [txn_intro]: "faithful (remove_body i)" "progressing (remove_body i)"
proof -
  show "faithful (remove_body i)" unfolding remove_body_def
    by (intro faithful_try passes_on_cases txn_intro; auto intro!: txn_intro split: prod.splits sum.splits)
  have "decoder (\<lambda>_. Inr ())" by (simp add: decoder_def)
  then show "progressing (remove_body i)" unfolding remove_body_def
    by (intro progressing_try passes_on_cases txn_intro; auto intro!: txn_intro split: prod.splits sum.splits)
qed

section \<open>The job table: the specification of the operations\<close>

type_synonym jobs = "string \<rightharpoonup> wd_job"

datatype job_op =
    OpCreate u64 u64 "u64 list" wd_input
  | OpAllocate job_spec u32 string u64
  | OpHeartbeat "string list" string u64
  | OpFinish string "wd_output option" string u64
  | OpDie int u32 int u64
  | OpCleanup int u32 int
  | OpRetry u32 u64
  | OpReset string u64
  | OpRemove string

text \<open>One call on the store, and the state it leaves.\<close>

fun run_op :: "(wd_input \<Rightarrow> string) \<Rightarrow> u32 \<Rightarrow> job_op \<Rightarrow> job_store \<Rightarrow> unit res \<times> job_store" where
  "run_op genid maxTry (OpCreate now dl ps inp) s = unit_res (wd_Create genid now dl ps inp s)"
| "run_op genid maxTry (OpAllocate sp n w now) s = unit_res (AllocateJobs sp n w now s)"
| "run_op genid maxTry (OpHeartbeat ids w now) s = Heartbeat ids w now s"
| "run_op genid maxTry (OpFinish i out reason now) s = Finish i out reason now s"
| "run_op genid maxTry (OpDie timeout limit now_ns now) s = MakeJobsDie timeout limit now_ns now s"
| "run_op genid maxTry (OpCleanup life limit now_ns) s = CleanupExpiredJobs life limit now_ns s"
| "run_op genid maxTry (OpRetry limit now) s = RetryFailedJobs maxTry limit now s"
| "run_op genid maxTry (OpReset i now) s = wd_Reset i now s"
| "run_op genid maxTry (OpRemove i) s = wd_Remove i s"

text \<open>What a successful call does to the table. A bulk call takes some of the jobs its condition selects,
  at most its limit, and all of them when there are no more than the limit.\<close>

definition selects :: "jobs \<Rightarrow> (wd_job \<Rightarrow> bool) \<Rightarrow> u32 \<Rightarrow> string set \<Rightarrow> bool" where
  "selects M P limit ids = (finite ids \<and> card ids \<le> unat limit \<and> (\<forall>i\<in>ids. \<exists>j. M i = Some j \<and> P j) \<and>
     (card ids < unat limit \<longrightarrow> (\<forall>i j. M i = Some j \<and> P j \<longrightarrow> i \<in> ids)))"

inductive job_step :: "(wd_input \<Rightarrow> string) \<Rightarrow> u32 \<Rightarrow> job_op \<Rightarrow> jobs \<Rightarrow> jobs \<Rightarrow> bool"
  for genid :: "wd_input \<Rightarrow> string" and maxTry :: u32 where
  created: "M (genid inp) = None \<Longrightarrow>
    job_step genid maxTry (OpCreate now dl ps inp) M (M(genid inp \<mapsto> new_job (genid inp) now dl ps inp))"
| known: "M (genid inp) = Some j \<Longrightarrow> job_step genid maxTry (OpCreate now dl ps inp) M M"
| allocated: "selects M (\<lambda>j. wj_State j = ready2run \<and> job_allowed sp j) n ids \<Longrightarrow>
    job_step genid maxTry (OpAllocate sp n w now) M (moved (run_job now w) ids M)"
| beaten: "(\<And>i. i \<in> set ids \<Longrightarrow> \<exists>j. M i = Some j \<and> wj_State j \<noteq> finished) \<Longrightarrow>
    job_step genid maxTry (OpHeartbeat ids w now) M (moved (beat_job now w) (set ids) M)"
| completed: "M i = Some j \<Longrightarrow>
    job_step genid maxTry (OpFinish i out reason now) M (M(i \<mapsto> finish_job out reason now j))"
| died: "selects M (\<lambda>j. wj_State j = running \<and> wj_HeartbeatAt j > 0 \<and>
      unix_before (wj_HeartbeatAt j) (now_ns - timeout)) limit ids \<Longrightarrow>
    job_step genid maxTry (OpDie timeout limit now_ns now) M (moved (die_job now) ids M)"
| cleaned: "selects M (\<lambda>j. wj_State j = finished \<and> unix_before (wj_CreatedAt j) (now_ns - life)) limit ids \<Longrightarrow>
    job_step genid maxTry (OpCleanup life limit now_ns) M (M |` (- ids))"
| retried: "selects M (\<lambda>j. wj_State j = finished \<and> wj_ErrorReason j \<noteq> [] \<and> wj_TryNum j < maxTry) limit ids \<Longrightarrow>
    job_step genid maxTry (OpRetry limit now) M (moved (retry_job now) ids M)"
| resetted: "M i = Some j \<Longrightarrow> job_step genid maxTry (OpReset i now) M (M(i \<mapsto> reset_job now j))"
| removed: "job_step genid maxTry (OpRemove i) M (M(i := None))"

section \<open>The store implements the table\<close>

lemma txn_refines:
  assumes "progressing f" "faithful f" "UpdateMustNoConflict f s = (r, s1)" "represents (kv_data s) M"
    and "\<And>a t. f (quiet s) = (Inr a, t) \<Longrightarrow> \<exists>M'. Q M' \<and> represents (kv_data t) M'"
  shows "(\<exists>e. r = Inl e \<and> kv_data s1 = kv_data s) \<or> (\<exists>a M'. r = Inr a \<and> Q M' \<and> represents (kv_data s1) M')"
  using UpdateMustNoConflict_quiet [OF assms(1-3)] assms(5) by metis

lemma selects_bucket:
  assumes "represents d M" "st \<in> set allStates"
  shows "selects M (\<lambda>j. wj_State j = st \<and> f j) limit (wj_ID ` set (take (unat limit) (filter f (bucket st d))))"
    (is "selects M _ limit (wj_ID ` set (take ?n ?js))")
proof -
  have "distinct (map wj_ID ?js)" using distinct_bucket [OF assms] by (rule distinct_map_filter)
  then have "distinct (map wj_ID (take ?n ?js))" unfolding take_map [symmetric] by simp
  then have card: "card (wj_ID ` set (take ?n ?js)) = min ?n (length ?js)"
    by (metis distinct_card length_map length_take list.set_map min.commute)
  have js: "set ?js = {j. M (wj_ID j) = Some j \<and> wj_State j = st \<and> f j}"
    using set_bucket [OF assms] by auto
  have all: "\<exists>j. M i = Some j \<and> wj_State j = st \<and> f j" if "i \<in> wj_ID ` set (take ?n ?js)" for i
    using that js in_set_takeD by fastforce
  have "i \<in> wj_ID ` set (take ?n ?js)" if "card (wj_ID ` set (take ?n ?js)) < ?n" "M i = Some j" "wj_State j = st" "f j"
    for i j
  proof -
    have "take ?n ?js = ?js" using that(1) card by simp
    moreover have "wj_ID j = i" using representsD(2) [OF assms(1) that(2)] .
    ultimately show ?thesis using that js by (metis (mono_tags, lifting) imageI mem_Collect_eq)
  qed
  with card all show ?thesis unfolding selects_def by auto
qed

lemma bulk_run:
  assumes "represents (kv_data s) M" "kv_script s = []" "src \<in> set allStates" "mover dst upd" "dst \<in> set allStates"
  shows "\<exists>js t ids. bind_step (wd_filter src n f) (each_step (move_job src dst upd)) s = (Inr js, t) \<and>
    selects M (\<lambda>j. wj_State j = src \<and> f j) n ids \<and> represents (kv_data t) (moved upd ids M) \<and>
    kv_script t = [] \<and> distinct (map wj_ID js) \<and> wj_ID ` set js = ids \<and>
    (\<forall>j \<in> set js. map_option upd (M (wj_ID j)) = Some j)"
proof -
  let ?js = "take (unat n) (filter f (bucket src (kv_data s)))"
  have d: "distinct (map wj_ID ?js)"
    using distinct_map_filter [OF distinct_bucket [OF assms(1,3)]] by (simp flip: take_map)
  have M: "M (wj_ID j) = Some j \<and> wj_State j = src" if "j \<in> set ?js" for j
    using in_set_takeD [OF that] set_bucket [OF assms(1,3)] by auto
  from moves_quiet [OF assms(1,2) d M assms(4,5)] obtain s1 where
    s1: "each_step (move_job src dst upd) ?js s = (Inr (map upd ?js), s1)"
    "represents (kv_data s1) (moved upd (wj_ID ` set ?js) M)" "kv_script s1 = []" by blast
  have run: "bind_step (wd_filter src n f) (each_step (move_job src dst upd)) s = (Inr (map upd ?js), s1)"
    using s1(1) wd_filter_quiet [OF assms(1-3), of n f] by simp
  have id: "wj_ID \<circ> upd = wj_ID" using moverD(1) [OF assms(4)] by (simp add: fun_eq_iff)
  have "distinct (map wj_ID (map upd ?js))" "wj_ID ` set (map upd ?js) = wj_ID ` set ?js"
    using d unfolding map_map set_map image_comp id by simp_all
  moreover have "\<forall>j \<in> set (map upd ?js). map_option upd (M (wj_ID j)) = Some j"
    using M moverD(1) [OF assms(4)] by auto
  ultimately show ?thesis using run selects_bucket [OF assms(1,3), of f n] s1(2,3) by blast
qed

lemma bulk_move:
  assumes "represents (kv_data s) M" "kv_script s = []" "src \<in> set allStates" "mover dst upd" "dst \<in> set allStates"
    "bind_step (wd_filter src n f) (each_step (move_job src dst upd)) s = (Inr js, t)"
  shows "\<exists>ids. selects M (\<lambda>j. wj_State j = src \<and> f j) n ids \<and> represents (kv_data t) (moved upd ids M) \<and>
    kv_script t = [] \<and> distinct (map wj_ID js) \<and> wj_ID ` set js = ids \<and>
    (\<forall>j \<in> set js. map_option upd (M (wj_ID j)) = Some j)"
  using bulk_run [OF assms(1-5), of n f] unfolding assms(6) prod.inject sum.inject by blast

lemma beat_job_twice [simp]: "beat_job now w (beat_job now w j) = beat_job now w j"
  by (simp add: beat_job_def)

lemma heartbeat_quiet:
  assumes "represents (kv_data s) M" "kv_script s = []" "heartbeat_body ids w now s = (Inr us, t)"
  shows "(\<forall>i \<in> set ids. \<exists>j. M i = Some j \<and> wj_State j \<noteq> finished) \<and>
    represents (kv_data t) (moved (beat_job now w) (set ids) M)"
  using assms
proof (induction ids arbitrary: s M us)
  case (Cons i ids)
  let ?beat = "\<lambda>jobID. bind_step (txn_PeekAny unmarshal [makeWdPoStKey running jobID, makeWdPoStKey ready2run jobID])
       (\<lambda>(key, job). bind_step (txn_Del key) (\<lambda>_. PutJSON (makeWdPoStKey running jobID) (beat_job now w job)))"
  from Cons.prems(3) obtain a s1 us' where run: "?beat i s = (Inr a, s1)" "heartbeat_body ids w now s1 = (Inr us', t)"
    by (auto simp: heartbeat_body_def return_step_def elim!: bind_InrE)
  have peek: "txn_PeekAny unmarshal [makeWdPoStKey running i, makeWdPoStKey ready2run i] s = (case M i of
     None \<Rightarrow> (Inl ErrKeyNotFound, s)
   | Some j \<Rightarrow> if wj_State j \<in> {running, ready2run} then (Inr (makeWdPoStKey (wj_State j) i, j), s) else (Inl ErrKeyNotFound, s))"
    using PeekAny_quiet [OF Cons.prems(1,2), of "[running, ready2run]" i, unfolded list.map list.set] by simp
  with run(1) obtain j where j: "M i = Some j" "wj_State j \<in> {running, ready2run}"
    by (auto simp: bind_step_def split: option.splits if_splits)
  from del_put_quiet [OF Cons.prems(1,2) j(1), of running "beat_job now w"] obtain s2 where
    s2: "bind_step (txn_Del (makeWdPoStKey (wj_State j) i)) (\<lambda>_. PutJSON (makeWdPoStKey running i) (beat_job now w j)) s
      = (Inr (), s2)" "represents (kv_data s2) (M(i \<mapsto> beat_job now w j))" "kv_script s2 = []" by auto
  have "s1 = s2" using run(1) peek j s2(1) by (auto simp: bind_step_def)
  with Cons.IH [OF s2(2,3)] run(2) have IH:
    "\<forall>x \<in> set ids. \<exists>y. (M(i \<mapsto> beat_job now w j)) x = Some y \<and> wj_State y \<noteq> finished"
    "represents (kv_data t) (moved (beat_job now w) (set ids) (M(i \<mapsto> beat_job now w j)))" by blast+
  have "moved (beat_job now w) (set ids) (M(i \<mapsto> beat_job now w j)) = moved (beat_job now w) (set (i # ids)) M"
    using j(1) by (auto simp: moved_def fun_eq_iff)
  with IH j show ?case by (auto split: if_splits)
qed (auto simp: heartbeat_body_def)

lemma del_put_run:
  assumes "represents (kv_data s) M" "kv_script s = []" "M i = Some j" "mover dst upd" "dst \<in> set allStates"
    "bind_step (txn_Del (makeWdPoStKey (wj_State j) i)) (\<lambda>_. PutJSON (makeWdPoStKey dst i) (upd j)) s = (r, t)"
  shows "represents (kv_data t) (M(i \<mapsto> upd j))"
  using del_put_quiet [OF assms(1-5)] assms(6) by (metis prod.inject)

lemma PeekAny_all:
  assumes "represents (kv_data s) M" "kv_script s = []" "set sts = set allStates"
  shows "txn_PeekAny unmarshal (map (\<lambda>st. makeWdPoStKey st i) sts) s = (case M i of
     None \<Rightarrow> (Inl ErrKeyNotFound, s) | Some j \<Rightarrow> (Inr (makeWdPoStKey (wj_State j) i, j), s))"
  unfolding PeekAny_quiet [OF assms(1,2), of sts, unfolded assms(3), OF subset_refl]
  by (auto split: option.splits dest: representsD(3) [OF assms(1)] simp del: allStates_set)

lemma PeekAny_jobs:
  assumes "represents (kv_data s) M" "kv_script s = []"
  shows "txn_PeekAny unmarshal [makeWdPoStKey ready2run i, makeWdPoStKey running i, makeWdPoStKey finished i] s =
    (case M i of None \<Rightarrow> (Inl ErrKeyNotFound, s) | Some j \<Rightarrow> (Inr (makeWdPoStKey (wj_State j) i, j), s))"
    "txn_PeekAny unmarshal [makeWdPoStKey running i, makeWdPoStKey ready2run i, makeWdPoStKey finished i] s =
    (case M i of None \<Rightarrow> (Inl ErrKeyNotFound, s) | Some j \<Rightarrow> (Inr (makeWdPoStKey (wj_State j) i, j), s))"
  using PeekAny_all [OF assms, of "[ready2run, running, finished]" i, unfolded list.map]
    PeekAny_all [OF assms, of "[running, ready2run, finished]" i, unfolded list.map]
  by (auto simp del: txn_PeekAny.simps)

lemma finish_quiet:
  assumes "represents (kv_data s) M" "kv_script s = []" "finish_body i out reason now s = (Inr a, t)"
  shows "\<exists>j. M i = Some j \<and> represents (kv_data t) (M(i \<mapsto> finish_job out reason now j))"
  using assms(3) del_put_run [OF assms(1,2), of i _ finished "finish_job out reason now"]
  unfolding finish_body_def bind_step_def [of "txn_PeekAny f ks" for f ks] PeekAny_jobs [OF assms(1,2)]
  by (auto split: option.splits)

lemma reset_quiet:
  assumes "represents (kv_data s) M" "kv_script s = []" "reset_body i now s = (Inr a, t)"
  shows "\<exists>j. M i = Some j \<and> represents (kv_data t) (M(i \<mapsto> reset_job now j))"
  using assms(3) del_put_run [OF assms(1,2), of i _ ready2run "reset_job now"]
  unfolding reset_body_def try_step_def PeekAny_jobs [OF assms(1,2)]
  by (auto simp: fail_step_def split: option.splits)

lemma create_quiet:
  assumes "represents (kv_data s) M" "kv_script s = []" "create_body genid now dl ps inp s = (Inr a, t)"
  shows "(M (genid inp) = Some a \<and> represents (kv_data t) M) \<or> (M (genid inp) = None \<and>
    a = new_job (genid inp) now dl ps inp \<and> represents (kv_data t) (M(genid inp \<mapsto> a)))"
proof (cases "M (genid inp)")
  case None
  have "wj_ID (new_job (genid inp) now dl ps inp) = genid inp" "wj_State (new_job (genid inp) now dl ps inp) = ready2run"
    by (simp_all add: new_job_def)
  with None represents_insert [OF assms(1), of "new_job (genid inp) now dl ps inp"] assms(2,3) show ?thesis
    unfolding create_body_def Let_def try_step_def PeekAny_jobs [OF assms(1,2)]
    by (auto simp: PutJSON_def return_step_def job_key_def)
next
  case (Some j)
  with assms show ?thesis unfolding create_body_def Let_def try_step_def PeekAny_jobs [OF assms(1,2)]
    by (auto simp: return_step_def)
qed

lemma PeekAny_unit:
  "kv_script s = [] \<Longrightarrow> txn_PeekAny (\<lambda>_. Inr ()) ks s = (case txn_PeekAny Inr ks s of
     (Inl e, s1) \<Rightarrow> (Inl e, s1) | (Inr (k, _), s1) \<Rightarrow> (Inr (k, ()), s1))"
  by (induction ks) (auto split: option.splits prod.splits sum.splits)

lemma remove_quiet:
  assumes "represents (kv_data s) M" "kv_script s = []" "remove_body i s = (Inr a, t)"
  shows "represents (kv_data t) (M(i := None))"
proof (cases "M i")
  case None
  have "txn_PeekAny (\<lambda>_. Inr ()) [makeWdPoStKey ready2run i, makeWdPoStKey running i, makeWdPoStKey finished i] s
      = (Inl ErrKeyNotFound, s)"
    using None assms(2) by (simp add: represents_peek [OF assms(1)])
  with assms None show ?thesis unfolding remove_body_def try_step_def
    by (auto simp: return_step_def fun_upd_idem)
next
  case (Some j)
  then have j: "wj_ID j = i" "wj_State j \<in> set allStates" using representsD [OF assms(1)] by auto
  have "txn_PeekAny (\<lambda>_. Inr ()) [makeWdPoStKey ready2run i, makeWdPoStKey running i, makeWdPoStKey finished i] s
      = (Inr (makeWdPoStKey (wj_State j) i, ()), s)"
    using Some j assms(2) by (auto simp: represents_peek [OF assms(1)])
  with assms(2,3) represents_delete [OF assms(1), of j] j(1) Some show ?thesis
    unfolding remove_body_def try_step_def by (auto simp: job_key_def)
qed

lemma cleanup_loop:
  assumes "represents (kv_data s) M" "kv_script s = []" "distinct (map wj_ID js)"
    "\<And>j. j \<in> set js \<Longrightarrow> M (wj_ID j) = Some j \<and> wj_State j = finished"
    "each_step (\<lambda>j. txn_Del (makeWdPoStKey finished (wj_ID j))) js s = (Inr us, t)"
  shows "represents (kv_data t) (M |` (- wj_ID ` set js))"
  using assms
proof (induction js arbitrary: s M us)
  case (Cons j js)
  let ?s1 = "s\<lparr>kv_data := del_entry (makeWdPoStKey finished (wj_ID j)) (kv_data s)\<rparr>"
  have j: "M (wj_ID j) = Some j" "wj_State j = finished" using Cons.prems(4) by auto
  have rep: "represents (kv_data ?s1) (M(wj_ID j := None))"
    using represents_delete [OF Cons.prems(1) j(1)] j(2) by (simp add: job_key_def)
  obtain us' where run: "each_step (\<lambda>j. txn_Del (makeWdPoStKey finished (wj_ID j))) js ?s1 = (Inr us', t)"
    using Cons.prems(2,5) by (auto simp: return_step_def elim!: bind_InrE)
  have js: "(M(wj_ID j := None)) (wj_ID x) = Some x \<and> wj_State x = finished" if "x \<in> set js" for x
  proof -
    have "wj_ID x \<noteq> wj_ID j" using that Cons.prems(3) by (force simp: image_iff)
    then show ?thesis using that Cons.prems(4) by simp
  qed
  have "distinct (map wj_ID js)" "kv_script ?s1 = []" using Cons.prems(2,3) by simp_all
  from Cons.IH [OF rep this(2,1) js run]
  have "represents (kv_data t) ((M(wj_ID j := None)) |` (- wj_ID ` set js))" .
  moreover have "(M(wj_ID j := None)) |` (- wj_ID ` set js) = M |` (- wj_ID ` set (j # js))"
    by (auto simp: restrict_map_def fun_eq_iff)
  ultimately show ?case by simp
qed (simp add: restrict_map_def)

lemma cleanup_quiet:
  assumes "represents (kv_data s) M" "kv_script s = []" "cleanup_body time n s = (Inr us, t)"
  shows "\<exists>ids. selects M (\<lambda>j. wj_State j = finished \<and> unix_before (wj_CreatedAt j) time) n ids \<and>
    represents (kv_data t) (M |` (- ids))"
proof -
  let ?js = "take (unat n) (filter (\<lambda>j. unix_before (wj_CreatedAt j) time) (bucket finished (kv_data s)))"
  have F: "finished \<in> set allStates" by simp
  have d: "distinct (map wj_ID ?js)"
    using distinct_map_filter [OF distinct_bucket [OF assms(1) F]] by (simp flip: take_map)
  have js: "M (wj_ID j) = Some j \<and> wj_State j = finished" if "j \<in> set ?js" for j
    using in_set_takeD [OF that] set_bucket [OF assms(1) F] by auto
  have run: "each_step (\<lambda>j. txn_Del (makeWdPoStKey finished (wj_ID j))) ?js s = (Inr us, t)"
    using assms(3) wd_filter_quiet [OF assms(1,2) F] by (simp add: cleanup_body_def)
  from cleanup_loop [OF assms(1,2) d _ run] js have "represents (kv_data t) (M |` (- wj_ID ` set ?js))" by blast
  with selects_bucket [OF assms(1) F, of "\<lambda>j. unix_before (wj_CreatedAt j) time" n] show ?thesis by blast
qed

lemma unit_res_eq [simp]: "unit_res (Inl e, s) = (Inl e, s)" "unit_res (Inr a, s) = (Inr (), s)"
  by (simp_all add: unit_res_def)

lemma unit_resE:
  assumes "unit_res p = (r, s1)"
  obtains e where "p = (Inl e, s1)" "r = Inl e" | a where "p = (Inr a, s1)" "r = Inr ()"
  using assms by (auto simp: unit_res_def split: prod.splits sum.splits)

lemma run_op_update:
  "run_op genid maxTry (OpCreate now dl ps inp) s = unit_res (UpdateMustNoConflict (create_body genid now dl ps inp) s)"
  "run_op genid maxTry (OpAllocate sp n w now) s = unit_res (UpdateMustNoConflict (allocate_body sp n w now) s)"
  "run_op genid maxTry (OpHeartbeat ids w now) s = unit_res (UpdateMustNoConflict (heartbeat_body ids w now) s)"
  "run_op genid maxTry (OpFinish i out reason now) s = unit_res (UpdateMustNoConflict (finish_body i out reason now) s)"
  "run_op genid maxTry (OpReset i now) s = unit_res (UpdateMustNoConflict (reset_body i now) s)"
  "run_op genid maxTry (OpRemove i) s = unit_res (UpdateMustNoConflict (remove_body i) s)"
  by (auto simp: wd_Create_def AllocateJobs_def Heartbeat_def Finish_def wd_Reset_def wd_Remove_def unit_res_def
      split: prod.splits sum.splits)

lemma op_refines:
  assumes "progressing f" "faithful f" "represents (kv_data s) M" "unit_res (UpdateMustNoConflict f s) = (r, s1)"
    and "\<And>a t. kv_script (quiet s) = [] \<Longrightarrow> represents (kv_data (quiet s)) M \<Longrightarrow> f (quiet s) = (Inr a, t) \<Longrightarrow>
      \<exists>M'. Q M' \<and> represents (kv_data t) M'"
  shows "\<exists>M'. represents (kv_data s1) M' \<and> (case r of Inl _ \<Rightarrow> M' = M | Inr _ \<Rightarrow> Q M')"
proof -
  obtain r0 s0 where U: "UpdateMustNoConflict f s = (r0, s0)" by fastforce
  from txn_refines [OF assms(1,2) U assms(3), of Q] assms(3,5) have
    "(\<exists>e. r0 = Inl e \<and> kv_data s0 = kv_data s) \<or> (\<exists>a M'. r0 = Inr a \<and> Q M' \<and> represents (kv_data s0) M')" by simp
  then show ?thesis
  proof (elim disjE exE conjE)
    fix e
    assume "r0 = Inl e" "kv_data s0 = kv_data s"
    with assms(3,4) U show ?thesis by (intro exI [of _ M]) auto
  next
    fix a M'
    assume "r0 = Inr a" "Q M'" "represents (kv_data s0) M'"
    with assms(4) U show ?thesis by (intro exI [of _ M']) auto
  qed
qed

lemma bulk_steps:
  assumes "represents (kv_data s) M" "kv_script s = []"
  shows "allocate_body sp n w now s = (Inr a, t) \<Longrightarrow>
      \<exists>M'. job_step genid maxTry (OpAllocate sp n w now) M M' \<and> represents (kv_data t) M'"
    and "die_body (now_ns - timeout) n now s = (Inr a, t) \<Longrightarrow>
      \<exists>M'. job_step genid maxTry (OpDie timeout n now_ns now) M M' \<and> represents (kv_data t) M'"
    and "retry_body maxTry n now s = (Inr a, t) \<Longrightarrow>
      \<exists>M'. job_step genid maxTry (OpRetry n now) M M' \<and> represents (kv_data t) M'"
  using bulk_move [OF assms, of ready2run running "run_job now w" n "job_allowed sp" a t]
    bulk_move [OF assms, of running finished "die_job now" n "\<lambda>j. wj_HeartbeatAt j > 0 \<and>
       unix_before (wj_HeartbeatAt j) (now_ns - timeout)" a t]
    bulk_move [OF assms, of finished ready2run "retry_job now" n "\<lambda>j. length (wj_ErrorReason j) \<noteq> 0 \<and>
       wj_TryNum j < maxTry" a t]
  unfolding allocate_body_def die_body_def retry_body_def
  by (auto intro: job_step.allocated job_step.died job_step.retried)

lemma heartbeat_step:
  assumes "represents (kv_data s) M" "kv_script s = []" "heartbeat_body ids w now s = (Inr a, t)"
  shows "\<exists>M'. job_step genid maxTry (OpHeartbeat ids w now) M M' \<and> represents (kv_data t) M'"
  using heartbeat_quiet [OF assms] job_step.beaten [of ids M genid maxTry w now] by blast

text \<open>Every operation of the job manager implements its step of the job table: the
  store keeps holding every job exactly once, in the bucket its state names; a call that returns an
  error leaves the table as it was, and one that succeeds makes the step.\<close>

lemma run_op_refines:
  assumes "represents (kv_data s) M" "run_op genid maxTry oper s = (r, s1)"
  shows "\<exists>M'. represents (kv_data s1) M' \<and>
    (case r of Inl _ \<Rightarrow> M' = M | Inr _ \<Rightarrow> job_step genid maxTry oper M M')"
proof (cases oper)
  case (OpCreate now dl ps inp)
  show ?thesis using assms(2) unfolding OpCreate run_op_update
    by (rule op_refines [OF create_body_txn(2,1) assms(1)])
      (use create_quiet in \<open>blast intro: job_step.created job_step.known\<close>)
next
  case (OpAllocate sp n w now)
  show ?thesis using assms(2) unfolding OpAllocate run_op_update
    by (rule op_refines [OF allocate_body_txn(2,1) assms(1)]) (rule bulk_steps)
next
  case (OpHeartbeat ids w now)
  show ?thesis using assms(2) unfolding OpHeartbeat run_op_update
    by (rule op_refines [OF heartbeat_body_txn(2,1) assms(1)]) (rule heartbeat_step)
next
  case (OpFinish i out reason now)
  show ?thesis using assms(2) unfolding OpFinish run_op_update
    by (rule op_refines [OF finish_body_txn(2,1) assms(1)])
      (use finish_quiet in \<open>blast intro: job_step.completed\<close>)
next
  case (OpDie timeout limit now_ns now)
  show ?thesis using assms(2) unfolding OpDie run_op.simps MakeJobsDie_def
    by (rule op_refines [OF die_body_txn(2,1) assms(1)]) (rule bulk_steps)
next
  case (OpCleanup life limit now_ns)
  show ?thesis using assms(2) unfolding OpCleanup run_op.simps CleanupExpiredJobs_def
    by (rule op_refines [OF cleanup_body_txn(2,1) assms(1)])
      (use cleanup_quiet in \<open>blast intro: job_step.cleaned\<close>)
next
  case (OpRetry limit now)
  show ?thesis using assms(2) unfolding OpRetry run_op.simps RetryFailedJobs_def
    by (rule op_refines [OF retry_body_txn(2,1) assms(1)]) (rule bulk_steps)
next
  case (OpReset i now)
  show ?thesis using assms(2) unfolding OpReset run_op_update
    by (rule op_refines [OF reset_body_txn(2,1) assms(1)])
      (use reset_quiet in \<open>blast intro: job_step.resetted\<close>)
next
  case (OpRemove i)
  show ?thesis using assms(2) unfolding OpRemove run_op_update
    by (rule op_refines [OF remove_body_txn(2,1) assms(1)])
      (use remove_quiet in \<open>blast intro: job_step.removed\<close>)
qed

end
