(* ===== verification/WdPoSt_Prover.thy ===== *)
theory WdPoSt_Prover
  imports WdPoSt_Jobs "HOL-Library.AList" "HOL-Library.Multiset"
begin

text \<open>
  The manager's side of the window PoSt jobs: the prover that registers waiters for a job, the loops
  that report results, retry and clean up jobs (\<open>modules/impl/prover/worker/prover.go\<close>), and the
  properties of the job manager over sequences of calls: the table of jobs, the bound on tries,
  exclusive allocation, recovery of a job whose worker died.
\<close>

section \<open>Waiters\<close>

definition ErrJobRemovedManually :: err where
  "ErrJobRemovedManually = Errorf ''job was manually removed''"

record prover_config =
  pc_JobMaxTry :: u32
  pc_HeartbeatTimeout :: int
  pc_JobLifetime :: int

text \<open>A result \<open>R\<close> sent on a channel. \<open>inflight\<close> is the map \<open>inflightJobs\<close> in the order in which the
  loop happens to visit it; channels are numbers. \<open>sent\<close> are the results delivered, in order; each
  delivery closes its channel.\<close>

type_synonym job_result = "wd_output option \<times> err option"

record waiters =
  inflight :: "(string \<times> nat list) list"
  sent :: "(nat \<times> job_result) list"

text \<open>\<open>doWindowPoSt\<close> up to the wait: create the job, register the channel under its identifier.\<close>

definition register :: "string \<Rightarrow> nat \<Rightarrow> waiters \<Rightarrow> waiters" where
  "register jobID ch w = w\<lparr>inflight := AList.update jobID
     ((case map_of (inflight w) jobID of None \<Rightarrow> [] | Some chs \<Rightarrow> chs) @ [ch]) (inflight w)\<rparr>"

definition doWindowPoSt :: "(wd_input \<Rightarrow> string) \<Rightarrow> u64 \<Rightarrow> u64 \<Rightarrow> u64 list \<Rightarrow> wd_input \<Rightarrow> nat \<Rightarrow>
    job_store \<Rightarrow> waiters \<Rightarrow> string res \<times> job_store \<times> waiters" where
  "doWindowPoSt genid now dl ps input ch s w = (case wd_Create genid now dl ps input s of
     (Inl e, s1) \<Rightarrow> (Inl (Wrap ''create wdPoSt job'' e), s1, w)
   | (Inr job, s1) \<Rightarrow> (Inr (wj_ID job), s1, register (wj_ID job) ch w))"

section \<open>One round of \<open>runNotifyJobDone\<close>\<close>

definition send_result :: "string \<Rightarrow> job_result \<Rightarrow> waiters \<Rightarrow> waiters" where
  "send_result jobID r w = (case map_of (inflight w) jobID of
     None \<Rightarrow> w
   | Some chs \<Rightarrow> w\<lparr>inflight := AList.delete jobID (inflight w), sent := sent w @ map (\<lambda>ch. (ch, r)) chs\<rparr>)"

definition job_result_of :: "wd_job \<Rightarrow> job_result" where
  "job_result_of job = (wj_Output job,
     if wj_ErrorReason job = [] then None else Some (Errorf (''error from worker: '' @ wj_ErrorReason job)))"

text \<open>The listing is the answer of \<open>ListByJobIDs\<close>. When it fails the code logs the error and goes on
  with the jobs read before the failure, \<open>part\<close>.\<close>

definition listed :: "wd_job list \<Rightarrow> wd_job list res \<Rightarrow> wd_job list" where
  "listed part listing = (case listing of Inl e \<Rightarrow> part | Inr jobs \<Rightarrow> jobs)"

definition notify_round :: "u32 \<Rightarrow> wd_job list \<Rightarrow> wd_job list res \<Rightarrow> waiters \<Rightarrow> waiters" where
  "notify_round maxTry part listing w =
    (let inflightJobIDs = map fst (inflight w);
         jobs = listed part listing;
         removed = filter (\<lambda>jobID. jobID \<notin> wj_ID ` set jobs) inflightJobIDs;
         w1 = fold (\<lambda>jobID. send_result jobID (None, Some ErrJobRemovedManually)) removed w
     in fold (\<lambda>job w. if job_Finished maxTry job then send_result (wj_ID job) (job_result_of job) w else w) jobs w1)"

definition notify_tick :: "u32 \<Rightarrow> wd_job list \<Rightarrow> job_store \<Rightarrow> waiters \<Rightarrow> job_store \<times> waiters" where
  "notify_tick maxTry part s w = (case ListByJobIDs (map fst (inflight w)) s of
     (listing, s1) \<Rightarrow> (s1, notify_round maxTry part listing w))"

section \<open>The other loops\<close>

text \<open>A round of \<open>runRetryFailedJobs\<close> and of \<open>runCleanupExpiredJobs\<close>; errors are logged only.\<close>

definition retry_tick :: "prover_config \<Rightarrow> int \<Rightarrow> u64 \<Rightarrow> job_store \<Rightarrow> job_store" where
  "retry_tick cfg now_ns now s =
     snd (RetryFailedJobs (pc_JobMaxTry cfg) 128 now
       (snd (MakeJobsDie (pc_HeartbeatTimeout cfg) 128 now_ns now s)))"

definition cleanup_tick :: "prover_config \<Rightarrow> int \<Rightarrow> job_store \<Rightarrow> job_store" where
  "cleanup_tick cfg now_ns s = snd (CleanupExpiredJobs (pc_JobLifetime cfg) 128 now_ns s)"

section \<open>\<open>GenerateWindowPoSt\<close>\<close>

record public_sector =
  ps_SectorNumber :: u64
  ps_SealedCID :: bytes
  ps_SectorKey :: "bytes option"

text \<open>The tracker's private information of a sector and the replica commitment of a CID are
  parameters. The results of the successive jobs are the list \<open>answers\<close>: a job that was removed is
  created again, anything else ends the loop.\<close>

definition wd_sector :: "(u64 \<Rightarrow> public_sector \<Rightarrow> access_stores res) \<Rightarrow> (bytes \<Rightarrow> bytes res) \<Rightarrow> u64 \<Rightarrow>
    public_sector \<Rightarrow> wd_sector_info res" where
  "wd_sector toPrivate commitment miner ps = (case toPrivate miner ps of
     Inl e \<Rightarrow> Inl (Wrap ''construct private info'' e)
   | Inr acc \<Rightarrow> (case commitment (ps_SealedCID ps) of
        Inl e \<Rightarrow> Inl (Wrap ''invalid sealed cid'' e)
      | Inr commR \<Rightarrow> Inr \<lparr>wds_SectorID = ps_SectorNumber ps, wds_CommR = commR,
          wds_Upgrade = (ps_SectorKey ps \<noteq> None), wds_Accesses = acc\<rparr>))"

fun wd_sectors :: "(u64 \<Rightarrow> public_sector \<Rightarrow> access_stores res) \<Rightarrow> (bytes \<Rightarrow> bytes res) \<Rightarrow> u64 \<Rightarrow>
    public_sector list \<Rightarrow> wd_sector_info list res" where
  "wd_sectors toPrivate commitment miner [] = Inr []"
| "wd_sectors toPrivate commitment miner (ps # rest) = (case wd_sector toPrivate commitment miner ps of
     Inl e \<Rightarrow> Inl e
   | Inr si \<Rightarrow> (case wd_sectors toPrivate commitment miner rest of
        Inl e \<Rightarrow> Inl e | Inr sis \<Rightarrow> Inr (si # sis)))"

fun job_loop :: "wd_output res list \<Rightarrow> wd_output res option" where
  "job_loop [] = None"
| "job_loop (Inl e # answers) = (if errors_is e ErrJobRemovedManually then job_loop answers else Some (Inl e))"
| "job_loop (Inr out # answers) = Some (Inr out)"

text \<open>\<open>randomness[31] &= 0x3f\<close>: an index out of range panics.\<close>

definition mask_seed :: "bytes \<Rightarrow> bytes res" where
  "mask_seed rnd = (if length rnd \<le> 31 then Inl (Panic ''index out of range'')
     else Inr (rnd[31 := and (rnd ! 31) 0x3f]))"

definition wd_input_of :: "(u64 \<Rightarrow> public_sector \<Rightarrow> access_stores res) \<Rightarrow> (bytes \<Rightarrow> bytes res) \<Rightarrow> u64 \<Rightarrow> string \<Rightarrow>
    public_sector list \<Rightarrow> bytes \<Rightarrow> wd_input res" where
  "wd_input_of toPrivate commitment miner ptype sectors randomness = (case mask_seed randomness of
     Inl e \<Rightarrow> Inl e
   | Inr rnd \<Rightarrow> (case wd_sectors toPrivate commitment miner sectors of
        Inl e \<Rightarrow> Inl e
      | Inr sis \<Rightarrow> Inr \<lparr>wdi_Sectors = sis, wdi_MinerID = miner, wdi_ProofType = ptype, wdi_Seed = take 32 rnd\<rparr>))"

definition window_result :: "u64 \<Rightarrow> wd_output res \<Rightarrow> (bytes list res \<times> sector_id list)" where
  "window_result miner answer = (case answer of
     Inl e \<Rightarrow> (Inl e, [])
   | Inr out \<Rightarrow> if length (wdo_Faults out) \<noteq> 0
       then (Inl (Errorf ''got fault sectors''), map (\<lambda>n. \<lparr>sid_Miner = miner, sid_Number = n\<rparr>) (wdo_Faults out))
       else (Inr (wdo_Proofs out), []))"

definition GenerateWindowPoSt :: "(u64 \<Rightarrow> public_sector \<Rightarrow> access_stores res) \<Rightarrow> (bytes \<Rightarrow> bytes res) \<Rightarrow> u64 \<Rightarrow> string \<Rightarrow>
    public_sector list \<Rightarrow> bytes \<Rightarrow> (wd_input \<Rightarrow> wd_output res list) \<Rightarrow> (bytes list res \<times> sector_id list) option" where
  "GenerateWindowPoSt toPrivate commitment miner ptype sectors randomness answers =
    (case wd_input_of toPrivate commitment miner ptype sectors randomness of
       Inl e \<Rightarrow> Some (Inl e, [])
     | Inr input \<Rightarrow> map_option (window_result miner) (job_loop (answers input)))"

section \<open>Sequences of calls\<close>

text \<open>The stores the job manager can reach: any calls, on an engine that may answer each of them in
  any way.\<close>

inductive job_reachable :: "(wd_input \<Rightarrow> string) \<Rightarrow> u32 \<Rightarrow> job_store \<Rightarrow> bool"
  for genid :: "wd_input \<Rightarrow> string" and maxTry :: u32 where
  start: "kv_data s = [] \<Longrightarrow> job_reachable genid maxTry s"
| call: "job_reachable genid maxTry s \<Longrightarrow> run_op genid maxTry oper (s\<lparr>kv_script := script\<rparr>) = (r, s1) \<Longrightarrow>
    job_reachable genid maxTry s1"

definition tries_ok :: "u32 \<Rightarrow> jobs \<Rightarrow> bool" where
  "tries_ok maxTry M = (\<forall>i j. M i = Some j \<longrightarrow>
     wj_TryNum j \<le> maxTry \<and> (wj_State j = ready2run \<longrightarrow> wj_TryNum j < maxTry))"

lemmas job_updates = new_job_def run_job_def beat_job_def finish_job_def die_job_def retry_job_def reset_job_def

lemma moved_Some: "moved upd ids M i = Some j \<longleftrightarrow>
    (if i \<in> ids then \<exists>k. M i = Some k \<and> j = upd k else M i = Some j)"
  by (auto simp: moved_def)

lemma selectsD: "selects M P n ids \<Longrightarrow> i \<in> ids \<Longrightarrow> M i = Some j \<Longrightarrow> P j"
  by (auto simp: selects_def)

lemma tries_moved:
  assumes "tries_ok maxTry M" "\<And>i j. i \<in> ids \<Longrightarrow> M i = Some j \<Longrightarrow>
     wj_TryNum (upd j) \<le> maxTry \<and> (wj_State (upd j) = ready2run \<longrightarrow> wj_TryNum (upd j) < maxTry)"
  shows "tries_ok maxTry (moved upd ids M)"
  using assms unfolding tries_ok_def moved_Some by (auto split: if_splits)

lemma tries_upd:
  assumes "tries_ok maxTry M" "wj_TryNum j \<le> maxTry" "wj_State j = ready2run \<Longrightarrow> wj_TryNum j < maxTry"
  shows "tries_ok maxTry (M(i \<mapsto> j))"
  using assms unfolding tries_ok_def by (auto split: if_splits)

lemma tries_okD: "tries_ok maxTry M \<Longrightarrow> M i = Some j \<Longrightarrow> wj_TryNum j \<le> maxTry"
    "tries_ok maxTry M \<Longrightarrow> M i = Some j \<Longrightarrow> wj_State j = ready2run \<Longrightarrow> wj_TryNum j < maxTry"
  by (auto simp: tries_ok_def)

lemma next_try: "x < m \<Longrightarrow> x + 1 \<le> (m :: u32)"
  by (rule inc_le)

lemma job_step_tries:
  assumes "job_step genid maxTry oper M M'" "0 < maxTry" "tries_ok maxTry M"
  shows "tries_ok maxTry M'"
  using assms(1)
proof cases
  case (allocated sp n ids w now)
  then show ?thesis using assms(3)
    by (auto intro!: tries_moved next_try dest: selectsD tries_okD(2) simp: run_job_def)
next
  case (beaten ids w now)
  then show ?thesis using assms(3) by (auto intro!: tries_moved dest: tries_okD(1) simp: beat_job_def)
next
  case (died now_ns timeout limit ids now)
  then show ?thesis using assms(3) by (auto intro!: tries_moved dest: tries_okD(1) simp: die_job_def)
next
  case (retried limit ids now)
  then show ?thesis using assms(3)
    by (auto intro!: tries_moved dest!: selectsD dest: tries_okD(1) simp: retry_job_def)
next
  case (cleaned now_ns life limit ids)
  then show ?thesis using assms(3) by (auto simp: tries_ok_def restrict_map_def split: if_splits)
next
  case (removed i)
  then show ?thesis using assms(3) by (auto simp: tries_ok_def split: if_splits)
qed (use assms(2,3) in \<open>auto intro!: tries_upd dest: tries_okD(1) simp: new_job_def finish_job_def reset_job_def\<close>)

lemma unat_next: "x < m \<Longrightarrow> unat (x + 1) = unat x + 1" for x m :: u32
  using unat_add_lem [of x 1] unsigned_less [of m, where 'a = nat] by (simp add: word_less_nat_alt)

lemma represents_empty: "represents [] Map.empty"
  by (simp add: represents_def ordered_entries_def)

lemma reachable_table:
  assumes "job_reachable genid maxTry s" "0 < maxTry"
  shows "\<exists>M. represents (kv_data s) M \<and> tries_ok maxTry M"
  using assms(1)
proof induction
  case (start s)
  then show ?case using represents_empty by (auto simp: tries_ok_def intro!: exI [of _ Map.empty])
next
  case (call s oper script r s1)
  then obtain M where M: "represents (kv_data s) M" "tries_ok maxTry M" by blast
  from run_op_refines [OF _ call.hyps(2), of M] M(1) obtain M' where
    "represents (kv_data s1) M'" "case r of Inl _ \<Rightarrow> M' = M | Inr _ \<Rightarrow> job_step genid maxTry oper M M'" by auto
  with M(2) job_step_tries [OF _ assms(2)] show ?case by (auto split: sum.splits)
qed

lemma stored_job:
  assumes "represents d M"
  shows "(k, Json j) \<in> set d \<longleftrightarrow> k = job_key j \<and> M (wj_ID j) = Some j"
  using representsD(4,5) [OF assms] by (auto simp: entry_def)

section \<open>Allocation\<close>

lemma AllocateJobs_result:
  assumes "represents (kv_data s) M" "AllocateJobs sp n w now s = (Inr js, s1)"
  shows "selects M (\<lambda>j. wj_State j = ready2run \<and> job_allowed sp j) n (fst ` set js) \<and>
    represents (kv_data s1) (moved (run_job now w) (fst ` set js) M) \<and> distinct (map fst js) \<and>
    (\<forall>p \<in> set js. map_option wj_Input (M (fst p)) = Some (snd p))"
proof -
  from assms(2) obtain as where as: "UpdateMustNoConflict (allocate_body sp n w now) s = (Inr as, s1)"
    "js = map (\<lambda>j. (wj_ID j, wj_Input j)) as"
    by (auto simp: AllocateJobs_def split: prod.splits sum.splits)
  from UpdateMustNoConflict_quiet [OF allocate_body_txn(2,1) as(1)] obtain t where
    t: "allocate_body sp n w now (quiet s) = (Inr as, t)" "kv_data s1 = kv_data t" by auto
  have q: "represents (kv_data (quiet s)) M" "kv_script (quiet s) = []" using assms(1) by simp_all
  from bulk_move [OF q _ _ _ t(1) [unfolded allocate_body_def]] obtain ids where
    ids: "selects M (\<lambda>j. wj_State j = ready2run \<and> job_allowed sp j) n ids"
      "represents (kv_data t) (moved (run_job now w) ids M)" "distinct (map wj_ID as)" "wj_ID ` set as = ids"
      "\<forall>j \<in> set as. map_option (run_job now w) (M (wj_ID j)) = Some j" by auto
  have "fst ` set js = ids" "map fst js = map wj_ID as" using ids(4) unfolding as(2) by (auto simp: image_image)
  moreover have "map_option wj_Input (M (wj_ID j)) = Some (wj_Input j)" if "j \<in> set as" for j
    using ids(5) that by (auto simp: run_job_def)
  ultimately show ?thesis using ids t(2) by (auto simp: as(2) o_def)
qed

text \<open>The job stored under an identifier, whatever its bucket.\<close>

definition job_stored :: "string \<Rightarrow> job_store \<Rightarrow> wd_job option" where
  "job_stored i s = find (\<lambda>j. wj_ID j = i) (concat (map (\<lambda>(k, v). case v of Json j \<Rightarrow> [j] | _ \<Rightarrow> []) (kv_data s)))"

lemma job_stored_table: "represents (kv_data s) M \<Longrightarrow> job_stored i s = M i"
proof -
  assume R: "represents (kv_data s) M"
  let ?js = "concat (map (\<lambda>(k, v). case v of Json j \<Rightarrow> [j] | _ \<Rightarrow> []) (kv_data s))"
  have "set ?js = (\<Union>p \<in> set (kv_data s). case snd p of Json j \<Rightarrow> {j} | _ \<Rightarrow> {})"
    by (auto simp: split_beta split: json.splits)
  then have js: "set ?js = ran M" unfolding representsD(4) [OF R] by (simp add: entry_def)
  have uniq: "j \<in> ran M \<longleftrightarrow> M (wj_ID j) = Some j" for j by (rule representsD(5) [OF R])
  show ?thesis
  proof (cases "job_stored i s")
    case None
    then have "\<forall>j \<in> ran M. wj_ID j \<noteq> i" unfolding job_stored_def find_None_iff js by blast
    with None show ?thesis using representsD(2) [OF R, of i] by (cases "M i") (auto intro: ranI)
  next
    case (Some j)
    then have "j \<in> set ?js" "wj_ID j = i" unfolding job_stored_def find_Some_iff by (blast intro: nth_mem)+
    with Some uniq [of j] show ?thesis unfolding js by simp
  qed
qed

text \<open>Calls that make a given job forget its tries: a reset or a removal of this job, a clean-up when this job is
  finished and older than its lifetime. Calls that make it ready again, or disappear: these, and a retry of
  failed jobs when this job has failed and has tries left. None of them depends on calls for other jobs.\<close>

fun forgets :: "string \<Rightarrow> job_op \<Rightarrow> job_store \<Rightarrow> bool" where
  "forgets i (OpReset i' now) s = (i' = i)"
| "forgets i (OpRemove i') s = (i' = i)"
| "forgets i (OpCleanup life limit now_ns) s = (case job_stored i s of None \<Rightarrow> False
     | Some j \<Rightarrow> wj_State j = finished \<and> unix_before (wj_CreatedAt j) (now_ns - life))"
| "forgets i _ s = False"

fun gives_back :: "u32 \<Rightarrow> string \<Rightarrow> job_op \<Rightarrow> job_store \<Rightarrow> bool" where
  "gives_back maxTry i (OpRetry limit now) s = (case job_stored i s of None \<Rightarrow> False
     | Some j \<Rightarrow> wj_State j = finished \<and> wj_ErrorReason j \<noteq> [] \<and> wj_TryNum j < maxTry)"
| "gives_back maxTry i oper s = forgets i oper s"

text \<open>A sequence of calls, each with the answers of the engine during it, and whether a call of a given kind
  succeeds in it.\<close>

fun run_ops :: "(wd_input \<Rightarrow> string) \<Rightarrow> u32 \<Rightarrow> (job_op \<times> outcome list) list \<Rightarrow> job_store \<Rightarrow> job_store" where
  "run_ops genid maxTry [] s = s"
| "run_ops genid maxTry ((oper, script) # calls) s =
     run_ops genid maxTry calls (snd (run_op genid maxTry oper (s\<lparr>kv_script := script\<rparr>)))"

fun happens :: "(job_op \<Rightarrow> job_store \<Rightarrow> bool) \<Rightarrow> (wd_input \<Rightarrow> string) \<Rightarrow> u32 \<Rightarrow> (job_op \<times> outcome list) list \<Rightarrow>
    job_store \<Rightarrow> bool" where
  "happens kind genid maxTry [] s = False"
| "happens kind genid maxTry ((oper, script) # calls) s =
     (let (r, s1) = run_op genid maxTry oper (s\<lparr>kv_script := script\<rparr>)
      in kind oper s \<and> \<not> isl r \<or> happens kind genid maxTry calls s1)"

text \<open>How often a sequence of calls hands a job out.\<close>

fun handed :: "string \<Rightarrow> job_op \<Rightarrow> job_store \<Rightarrow> nat" where
  "handed i (OpAllocate sp n w now) s = (case AllocateJobs sp n w now s of
     (Inl e, s1) \<Rightarrow> 0 | (Inr js, s1) \<Rightarrow> if i \<in> set (map fst js) then 1 else 0)"
| "handed i _ s = 0"

fun hand_outs :: "string \<Rightarrow> (wd_input \<Rightarrow> string) \<Rightarrow> u32 \<Rightarrow> (job_op \<times> outcome list) list \<Rightarrow> job_store \<Rightarrow> nat" where
  "hand_outs i genid maxTry [] s = 0"
| "hand_outs i genid maxTry ((oper, script) # calls) s = handed i oper (s\<lparr>kv_script := script\<rparr>) +
     hand_outs i genid maxTry calls (snd (run_op genid maxTry oper (s\<lparr>kv_script := script\<rparr>)))"

definition is_taken :: "wd_job option \<Rightarrow> bool" where
  "is_taken jo = (case jo of None \<Rightarrow> False | Some j \<Rightarrow> wj_State j \<noteq> ready2run)"

definition tries :: "wd_job option \<Rightarrow> nat" where
  "tries jo = (case jo of None \<Rightarrow> 0 | Some j \<Rightarrow> unat (wj_TryNum j))"

lemmas job_views = is_taken_def tries_def moved_def mover_def job_updates restrict_map_def

lemma job_step_taken:
  assumes "job_step genid maxTry oper M M'" "represents (kv_data s) M" "\<not> gives_back maxTry i oper s" "is_taken (M i)"
  shows "is_taken (M' i)"
  using assms(1,3,4) job_stored_table [OF assms(2), of i]
  by cases (auto simp: job_views selects_def split: option.splits)

lemma job_step_counts:
  assumes "job_step genid maxTry oper M M'" "represents (kv_data s) M" "\<not> forgets i oper s"
    and "\<forall>sp n w now. oper \<noteq> OpAllocate sp n w now"
  shows "tries (M' i) = tries (M i)"
  using assms(1,3,4) job_stored_table [OF assms(2), of i]
  by cases (auto simp: job_views selects_def split: option.splits)

lemma allocate_counts:
  assumes "represents (kv_data s) M" "tries_ok maxTry M" "AllocateJobs sp n w now s = (Inr js, s1)"
  shows "tries (moved (run_job now w) (fst ` set js) M i) = tries (M i) + handed i (OpAllocate sp n w now) s"
proof (cases "i \<in> fst ` set js")
  case True
  with AllocateJobs_result [OF assms(1,3)] obtain j where j: "M i = Some j" "wj_State j = ready2run"
    by (force simp: selects_def)
  from unat_next [OF tries_okD(2) [OF assms(2) j]] True j assms(3) show ?thesis
    by (simp add: tries_def moved_def run_job_def)
qed (simp add: assms(3) moved_def)

lemma op_counts:
  assumes "represents (kv_data s) M" "tries_ok maxTry M" "0 < maxTry"
    and "run_op genid maxTry oper (s\<lparr>kv_script := script\<rparr>) = (r, s1)" "\<not> (forgets i oper s \<and> \<not> isl r)"
  shows "\<exists>M1. represents (kv_data s1) M1 \<and> tries_ok maxTry M1 \<and>
    tries (M1 i) = tries (M i) + handed i oper (s\<lparr>kv_script := script\<rparr>)"
proof (cases "\<exists>sp n w now. oper = OpAllocate sp n w now")
  case True
  then obtain sp n w now where o: "oper = OpAllocate sp n w now" by blast
  let ?s = "s\<lparr>kv_script := script\<rparr>"
  have R: "represents (kv_data ?s) M" using assms(1) by simp
  obtain ra t where a: "AllocateJobs sp n w now ?s = (ra, t)" by fastforce
  with assms(4) have t: "t = s1" "r = (case ra of Inl e \<Rightarrow> Inl e | Inr _ \<Rightarrow> Inr ())"
    by (auto simp: o unit_res_def split: sum.splits)
  show ?thesis
  proof (cases ra)
    case (Inl e)
    with run_op_refines [OF R assms(4)] t have "represents (kv_data s1) M" by auto
    with assms(2) show ?thesis using a Inl by (auto simp: o)
  next
    case (Inr js)
    note A = AllocateJobs_result [OF R a [unfolded Inr]]
    have "job_step genid maxTry oper M (moved (run_job now w) (fst ` set js) M)"
      unfolding o using A by (blast intro: job_step.allocated)
    from job_step_tries [OF this assms(3,2)] A allocate_counts [OF R assms(2) a [unfolded Inr], of i]
    show ?thesis unfolding o t(1) by blast
  qed
next
  case False
  then have h: "handed i oper (s\<lparr>kv_script := script\<rparr>) = 0" by (cases oper) auto
  from run_op_refines [OF _ assms(4), of M] assms(1) obtain M1 where
    M1: "represents (kv_data s1) M1" "case r of Inl _ \<Rightarrow> M1 = M | Inr _ \<Rightarrow> job_step genid maxTry oper M M1" by auto
  show ?thesis
  proof (cases r)
    case (Inl e)
    with M1 assms(2) h show ?thesis by auto
  next
    case (Inr u)
    with M1(2) have step: "job_step genid maxTry oper M M1" by simp
    from job_step_counts [OF step assms(1)] job_step_tries [OF step assms(3,2)] M1(1) assms(5) Inr False h
    show ?thesis by auto
  qed
qed

lemma run_ops_counts:
  assumes "represents (kv_data s) M" "tries_ok maxTry M" "0 < maxTry" "\<not> happens (forgets i) genid maxTry calls s"
  shows "\<exists>M1. represents (kv_data (run_ops genid maxTry calls s)) M1 \<and> tries_ok maxTry M1 \<and>
    tries (M1 i) = tries (M i) + hand_outs i genid maxTry calls s"
  using assms(1,2,4)
proof (induction calls arbitrary: s M)
  case (Cons c calls)
  obtain oper script where c: "c = (oper, script)" by fastforce
  obtain r s1 where run: "run_op genid maxTry oper (s\<lparr>kv_script := script\<rparr>) = (r, s1)" by fastforce
  have quiet: "\<not> (forgets i oper s \<and> \<not> isl r)" "\<not> happens (forgets i) genid maxTry calls s1"
    using Cons.prems(3) by (auto simp: c run)
  from op_counts [OF Cons.prems(1,2) assms(3) run quiet(1)] obtain M1 where
    M1: "represents (kv_data s1) M1" "tries_ok maxTry M1"
      "tries (M1 i) = tries (M i) + handed i oper (s\<lparr>kv_script := script\<rparr>)" by blast
  from Cons.IH [OF M1(1,2) quiet(2)] M1(3) show ?case by (auto simp: c run)
qed auto

lemma run_ops_taken:
  assumes "represents (kv_data s) M" "\<not> happens (gives_back maxTry i) genid maxTry calls s" "is_taken (M i)"
  shows "\<exists>M'. represents (kv_data (run_ops genid maxTry calls s)) M' \<and> is_taken (M' i)"
  using assms
proof (induction calls arbitrary: s M)
  case (Cons c calls)
  obtain oper script where c: "c = (oper, script)" by fastforce
  obtain r s1 where run: "run_op genid maxTry oper (s\<lparr>kv_script := script\<rparr>) = (r, s1)" by fastforce
  have quiet: "\<not> (gives_back maxTry i oper s \<and> \<not> isl r)" "\<not> happens (gives_back maxTry i) genid maxTry calls s1"
    using Cons.prems(2) by (auto simp: c run)
  from run_op_refines [OF _ run, of M] Cons.prems(1) obtain M1 where
    M1: "represents (kv_data s1) M1" "case r of Inl _ \<Rightarrow> M1 = M | Inr _ \<Rightarrow> job_step genid maxTry oper M M1" by auto
  have "is_taken (M1 i)"
    using M1(2) job_step_taken [OF _ Cons.prems(1) _ Cons.prems(3)] Cons.prems(3) quiet(1) by (auto split: sum.splits)
  from Cons.IH [OF M1(1) quiet(2) this] show ?case by (auto simp: c run)
qed auto

lemma few_selected:
  assumes "selects M P n ids" "card (dom M) < unat n" "finite (dom M)" "M i = Some j" "P j"
  shows "i \<in> ids"
proof -
  have "ids \<subseteq> dom M" using assms(1) by (auto simp: selects_def)
  then have "card ids < unat n" using assms(2,3) card_mono le_less_trans by blast
  with assms show ?thesis by (auto simp: selects_def)
qed

lemma dom_moved [simp]: "dom (moved upd ids M) = dom M"
  by (auto simp: moved_def dom_def)

lemma represents_finite: "represents d M \<Longrightarrow> finite (dom M) \<and> card (dom M) \<le> length d"
proof -
  assume R: "represents d M"
  have "dom M = wj_ID ` ran M"
  proof (intro set_eqI iffI)
    fix i
    assume "i \<in> dom M"
    then obtain j where "M i = Some j" by blast
    then show "i \<in> wj_ID ` ran M" using representsD(2) [OF R] ranI by (metis imageI)
  next
    fix i
    assume "i \<in> wj_ID ` ran M"
    then show "i \<in> dom M" using representsD(5) [OF R] by auto
  qed
  then have "dom M = (\<lambda>e. case snd e of Json j \<Rightarrow> wj_ID j | Malformed _ \<Rightarrow> []) ` set d"
    unfolding representsD(4) [OF R] image_image entry_def by simp
  then show ?thesis by (metis List.finite_set card_image_le card_length finite_imageI le_trans)
qed

lemma MakeJobsDie_works:
  assumes "represents (kv_data s) M" "kv_script s = []"
  shows "\<exists>ids s1. MakeJobsDie timeout n now_ns now s = (Inr (), s1) \<and> kv_script s1 = [] \<and>
    selects M (\<lambda>j. wj_State j = running \<and> wj_HeartbeatAt j > 0 \<and>
      unix_before (wj_HeartbeatAt j) (now_ns - timeout)) n ids \<and> represents (kv_data s1) (moved (die_job now) ids M)"
  using bulk_run [OF assms, of running finished "die_job now" n "\<lambda>j. wj_HeartbeatAt j > 0 \<and>
       unix_before (wj_HeartbeatAt j) (now_ns - timeout)"]
    UpdateMustNoConflict_works [of "die_body (now_ns - timeout) n now" s]
  unfolding MakeJobsDie_def die_body_def by fastforce

lemma RetryFailedJobs_works:
  assumes "represents (kv_data s) M" "kv_script s = []"
  shows "\<exists>ids s1. RetryFailedJobs maxTry n now s = (Inr (), s1) \<and> kv_script s1 = [] \<and>
    selects M (\<lambda>j. wj_State j = finished \<and> wj_ErrorReason j \<noteq> [] \<and> wj_TryNum j < maxTry) n ids \<and>
    represents (kv_data s1) (moved (retry_job now) ids M)"
  using bulk_run [OF assms, of finished ready2run "retry_job now" n "\<lambda>j. length (wj_ErrorReason j) \<noteq> 0 \<and>
       wj_TryNum j < maxTry"]
    UpdateMustNoConflict_works [of "retry_body maxTry n now" s]
  unfolding RetryFailedJobs_def retry_body_def by fastforce

lemma recovery:
  assumes "represents (kv_data s) M" "kv_script s = []" "length (kv_data s) < 128" "M i = Some j"
    "wj_State j = running" "wj_HeartbeatAt j > 0"
    "unix_before (wj_HeartbeatAt j) (now_ns - pc_HeartbeatTimeout cfg)" "wj_TryNum j < pc_JobMaxTry cfg"
  shows "\<exists>M'. represents (kv_data (retry_tick cfg now_ns now s)) M' \<and> M' i = Some (retry_job now (die_job now j))"
proof -
  have few: "finite (dom M)" "card (dom M) < unat (128 :: u32)"
    using represents_finite [OF assms(1)] assms(3) by auto
  obtain ids s1 where s1: "MakeJobsDie (pc_HeartbeatTimeout cfg) 128 now_ns now s = (Inr (), s1)" "kv_script s1 = []"
      "selects M (\<lambda>j. wj_State j = running \<and> wj_HeartbeatAt j > 0 \<and>
        unix_before (wj_HeartbeatAt j) (now_ns - pc_HeartbeatTimeout cfg)) 128 ids"
      "represents (kv_data s1) (moved (die_job now) ids M)"
    using MakeJobsDie_works [OF assms(1,2)] by blast
  have "i \<in> ids" by (rule few_selected [OF s1(3) few(2,1) assms(4)]) (use assms(5-7) in blast)
  then have M1: "moved (die_job now) ids M i = Some (die_job now j)" using assms(4) by (simp add: moved_def)
  obtain ids2 s2 where s2: "RetryFailedJobs (pc_JobMaxTry cfg) 128 now s1 = (Inr (), s2)"
      "selects (moved (die_job now) ids M) (\<lambda>j. wj_State j = finished \<and> wj_ErrorReason j \<noteq> [] \<and>
        wj_TryNum j < pc_JobMaxTry cfg) 128 ids2"
      "represents (kv_data s2) (moved (retry_job now) ids2 (moved (die_job now) ids M))"
    using RetryFailedJobs_works [OF s1(4,2)] by blast
  have "i \<in> ids2"
    by (rule few_selected [OF s2(2) _ _ M1]) (use few assms(8) in \<open>auto simp: die_job_def\<close>)
  then have "moved (retry_job now) ids2 (moved (die_job now) ids M) i = Some (retry_job now (die_job now j))"
    using M1 by (simp add: moved_def)
  with s2(3) show ?thesis by (auto simp: retry_tick_def s1(1) s2(1))
qed

section \<open>What the waiters are told\<close>

lemma notify_None: "map_of (inflight w) i = None \<Longrightarrow> send_result i r w = w"
  by (simp add: send_result_def)

lemma notify_inflight: "map_of (inflight (send_result i r w)) = (map_of (inflight w))(i := None)"
  by (auto simp: send_result_def delete_conv fun_eq_iff split: option.splits)

definition told :: "waiters \<Rightarrow> string \<Rightarrow> job_result \<Rightarrow> (nat \<times> job_result) list" where
  "told w i r = map (\<lambda>ch. (ch, r)) (case map_of (inflight w) i of None \<Rightarrow> [] | Some chs \<Rightarrow> chs)"

lemma notify_sent: "sent (send_result i r w) = sent w @ told w i r"
  by (auto simp: send_result_def told_def split: option.splits)

lemma told_cong: "map_of (inflight w) i = map_of (inflight w') i \<Longrightarrow> told w i r = told w' i r"
  by (simp add: told_def)

lemma fold_notify:
  assumes "distinct is"
  shows "sent (fold (\<lambda>i. send_result i (r i)) is w) = sent w @ concat (map (\<lambda>i. told w i (r i)) is)"
    "map_of (inflight (fold (\<lambda>i. send_result i (r i)) is w)) =
      (\<lambda>i. if i \<in> set is then None else map_of (inflight w) i)"
  using assms
proof (induction "is" arbitrary: w)
  case (Cons i "is")
  { case 1
    then have "told (send_result i (r i) w) k (r k) = told w k (r k)" if "k \<in> set is" for k
      using that by (auto intro!: told_cong simp: notify_inflight)
    then have "concat (map (\<lambda>k. told (send_result i (r i) w) k (r k)) is) = concat (map (\<lambda>k. told w k (r k)) is)"
      by (simp cong: map_cong)
    with 1 show ?case by (simp add: Cons.IH(1) notify_sent)
  next
    case 2
    then show ?case by (auto simp: Cons.IH(2) notify_inflight fun_eq_iff) }
qed auto

text \<open>Every channel stays accounted for: waiting or answered once.\<close>

definition channels :: "waiters \<Rightarrow> nat multiset" where
  "channels w = mset (map fst (sent w)) + mset (concat (map snd (inflight w)))"

lemma delete_channels:
  "distinct (map fst xs) \<Longrightarrow> map_of xs i = Some chs \<Longrightarrow>
   mset chs + mset (concat (map snd (AList.delete i xs))) = mset (concat (map snd xs))"
proof (induction xs)
  case (Cons x xs)
  show ?case
  proof (cases "fst x = i")
    case True
    with Cons.prems have "AList.delete i (x # xs) = xs" by (cases x) (auto simp: delete_idem)
    with True Cons.prems show ?thesis by (cases x) simp
  next
    case False
    with Cons show ?thesis by (cases x) (auto simp: union_ac)
  qed
qed simp

lemma notify_keeps:
  assumes "distinct (map fst (inflight w))"
  shows "channels (send_result i r w) = channels w" "distinct (map fst (inflight (send_result i r w)))"
proof -
  have ch: "map (fst \<circ> (\<lambda>ch. (ch, r))) chs = chs" for chs :: "nat list" by (simp add: o_def)
  show "channels (send_result i r w) = channels w"
    using delete_channels [OF assms, of i] ch
    by (auto simp: send_result_def channels_def union_ac simp del: mset_map split: option.splits)
  show "distinct (map fst (inflight (send_result i r w)))"
    using distinct_delete [OF assms, of i] assms by (auto simp: send_result_def split: option.splits)
qed

lemma fold_notify_keeps:
  assumes "distinct (map fst (inflight w))"
  shows "channels (fold (\<lambda>x w. if P x then send_result (f x) (r x) w else w) xs w) = channels w \<and>
    distinct (map fst (inflight (fold (\<lambda>x w. if P x then send_result (f x) (r x) w else w) xs w)))"
  using assms by (induction xs arbitrary: w) (simp_all add: notify_keeps)

lemma fold_filter_if: "fold (\<lambda>x w. if P x then f x w else w) xs w = fold f (filter P xs) w"
  by (induction xs arbitrary: w) auto

section \<open>The listing\<close>

lemma peek_job_txn: "faithful (peek_job i st)" "progressing (peek_job i st)"
proof -
  have "passes_on (\<lambda>r. case r of Inl e \<Rightarrow> if not_found e then return_step [] else fail_step e | Inr job \<Rightarrow> return_step [job])"
    by (simp add: passes_on_def fail_step_def)
  then show "faithful (peek_job i st)" "progressing (peek_job i st)" unfolding peek_job_def
    by (intro faithful_try progressing_try txn_intro progressing_txn_Peek;
        auto intro!: txn_intro split: sum.splits)+
qed

lemma peek_states:
  assumes "represents (kv_data s) M" "kv_script s = []"
  shows "bind_step (each_step (peek_job i) allStates) (\<lambda>js. return_step (concat js)) s =
    (Inr (case M i of None \<Rightarrow> [] | Some j \<Rightarrow> [j]), s)"
proof -
  have peek: "peek_job i st s = (Inr (case M i of None \<Rightarrow> [] | Some j \<Rightarrow> if wj_State j = st then [j] else []), s)"
    if "st \<in> set allStates" for st
    using assms(2) that
    by (auto simp: peek_job_def try_step_def represents_peek [OF assms(1)] return_step_def split: option.splits)
  have "M i = Some j \<Longrightarrow> wj_State j \<in> {ready2run, running, finished}" for j
    using representsD(3) [OF assms(1)] by simp
  then show ?thesis using peek
    by (auto simp: allStates_def bind_step_def return_step_def split: option.splits)
qed

lemma list_jobs_run:
  assumes "represents (kv_data s) M" "kv_script s = []"
  shows "each_step (\<lambda>i. bind_step (each_step (peek_job i) allStates) (\<lambda>js. return_step (concat js))) is s =
    (Inr (map (\<lambda>i. case M i of None \<Rightarrow> [] | Some j \<Rightarrow> [j]) is), s)"
proof (induction "is")
  case (Cons i "is")
  show ?case unfolding each_step.simps bind_step_def [of "bind_step f g" for f g] peek_states [OF assms]
    by (simp add: bind_step_def [of "each_step f xs" for f xs] Cons.IH return_step_def)
qed simp

lemma ListByJobIDs_result:
  assumes "represents (kv_data s) M" "ListByJobIDs is s = (Inr js, s1)"
  shows "js = concat (map (\<lambda>i. case M i of None \<Rightarrow> [] | Some j \<Rightarrow> [j]) is)"
proof -
  let ?body = "each_step (\<lambda>i. bind_step (each_step (peek_job i) allStates) (\<lambda>js. return_step (concat js))) is"
  obtain as where as: "ViewMustNoConflict ?body s = (Inr as, s1)" "js = concat as"
    using assms(2) by (auto simp: ListByJobIDs_def split: prod.splits sum.splits)
  have txn: "progressing ?body" "faithful ?body" by (intro txn_intro peek_job_txn)+
  have "represents (kv_data (quiet s)) M" "kv_script (quiet s) = []" using assms(1) by simp_all
  from ViewMustNoConflict_quiet [OF txn as(1)] list_jobs_run [OF this] as(2) show ?thesis by auto
qed

section \<open>Properties\<close>

text \<open>What a round has to tell the waiters of a job: that it is gone, its outcome, or nothing yet.\<close>

definition answer :: "u32 \<Rightarrow> jobs \<Rightarrow> string \<Rightarrow> job_result option" where
  "answer maxTry M i = (case M i of
     None \<Rightarrow> Some (None, Some ErrJobRemovedManually)
   | Some j \<Rightarrow> if job_Finished maxTry j then Some (job_result_of j) else None)"

definition lookups :: "jobs \<Rightarrow> string list \<Rightarrow> wd_job list" where
  "lookups M is = concat (map (\<lambda>i. case M i of None \<Rightarrow> [] | Some j \<Rightarrow> [j]) is)"

lemma set_lookups: "set (lookups M is) = {j. \<exists>i \<in> set is. M i = Some j}"
  by (auto simp: lookups_def split: option.splits)

lemma lookups_ids:
  "represents d M \<Longrightarrow> map wj_ID (lookups M is) = filter (\<lambda>i. M i \<noteq> None) is"
  by (induction "is") (auto simp: lookups_def dest: representsD(2) split: option.splits)

lemma fold_rounds:
  assumes "represents d M" "distinct is" "\<And>i. i \<in> set is \<Longrightarrow> M i = None \<Longrightarrow> r i = gone"
    "\<And>i j. i \<in> set is \<Longrightarrow> M i = Some j \<Longrightarrow> P j \<Longrightarrow> r i = res j"
  shows "\<exists>ids. distinct ids \<and> (\<forall>i. i \<in> set ids \<longleftrightarrow> i \<in> set is \<and> (\<forall>j. M i = Some j \<longrightarrow> P j)) \<and>
    fold (\<lambda>j w. if P j then send_result (wj_ID j) (res j) w else w) (lookups M is)
      (fold (\<lambda>i. send_result i gone) (filter (\<lambda>i. i \<notin> wj_ID ` set (lookups M is)) is) w) =
    fold (\<lambda>i. send_result i (r i)) ids w"
proof -
  let ?js = "lookups M is"
  let ?rem = "filter (\<lambda>i. i \<notin> wj_ID ` set ?js) is" and ?fin = "map wj_ID (filter P ?js)"
  note ID = representsD(2) [OF assms(1)]
  have rem: "i \<in> set ?rem \<longleftrightarrow> i \<in> set is \<and> M i = None" for i
    using arg_cong [OF lookups_ids [OF assms(1), of "is"], of set] by auto
  have fin: "i \<in> set ?fin \<longleftrightarrow> i \<in> set is \<and> (\<exists>j. M i = Some j \<and> P j)" for i
    using ID by (auto simp: set_lookups image_iff)
  have "distinct (map wj_ID ?js)" unfolding lookups_ids [OF assms(1)] using assms(2) by simp
  then have "distinct (?rem @ ?fin)" using assms(2) rem fin by (auto intro: distinct_map_filter)
  moreover have "i \<in> set (?rem @ ?fin) \<longleftrightarrow> i \<in> set is \<and> (\<forall>j. M i = Some j \<longrightarrow> P j)" for i
    unfolding set_append Un_iff rem fin by (cases "M i") auto
  moreover have "fold (\<lambda>i. send_result i gone) ?rem w = fold (\<lambda>i. send_result i (r i)) ?rem w" for w
    by (rule fold_cong) (use rem assms(3) in auto)
  moreover have "fold (\<lambda>j. send_result (wj_ID j) (res j)) (filter P ?js) w = fold (\<lambda>i. send_result i (r i)) ?fin w" for w
    unfolding fold_map by (rule fold_cong) (use assms(4) ID in \<open>auto simp: set_lookups\<close>)
  ultimately show ?thesis by (intro exI [of _ "?rem @ ?fin"]) (simp add: fold_filter_if)
qed

lemma notify_round_success:
  assumes "represents d M" "distinct (map fst (inflight w))"
  shows "map_of (inflight (notify_round maxTry part (Inr (lookups M (map fst (inflight w)))) w)) =
      (\<lambda>i. if answer maxTry M i = None then map_of (inflight w) i else None)"
    "set (sent (notify_round maxTry part (Inr (lookups M (map fst (inflight w)))) w)) = set (sent w) \<union>
      {(ch, r). \<exists>i chs. map_of (inflight w) i = Some chs \<and> ch \<in> set chs \<and> answer maxTry M i = Some r}"
    "channels (notify_round maxTry part (Inr (lookups M (map fst (inflight w)))) w) = channels w"
proof -
  let ?is = "map fst (inflight w)" and ?r = "\<lambda>i. the (answer maxTry M i)"
  obtain ids where dis: "distinct ids"
    and ids: "\<forall>i. i \<in> set ids \<longleftrightarrow> i \<in> set ?is \<and> (\<forall>j. M i = Some j \<longrightarrow> job_Finished maxTry j)"
    and round: "notify_round maxTry part (Inr (lookups M ?is)) w = fold (\<lambda>i. send_result i (?r i)) ids w"
    using fold_rounds [OF assms, of ?r "(None, Some ErrJobRemovedManually)" "job_Finished maxTry" job_result_of w]
    by (auto simp: answer_def notify_round_def listed_def Let_def)
  have ans: "i \<in> set ids \<longleftrightarrow> map_of (inflight w) i \<noteq> None \<and> answer maxTry M i \<noteq> None" for i
    using ids by (auto simp: answer_def map_of_eq_None_iff split: option.splits)
  show "map_of (inflight (notify_round maxTry part (Inr (lookups M ?is)) w)) =
      (\<lambda>i. if answer maxTry M i = None then map_of (inflight w) i else None)"
    unfolding round fold_notify(2) [OF dis] using ans by (auto simp: fun_eq_iff)
  have told: "(ch, r) \<in> set (told w i (?r i)) \<longleftrightarrow> r = ?r i \<and> (\<exists>chs. map_of (inflight w) i = Some chs \<and> ch \<in> set chs)"
    for ch r i by (cases "map_of (inflight w) i") (auto simp: told_def)
  have "(ch, r) \<in> set (concat (map (\<lambda>i. told w i (?r i)) ids)) \<longleftrightarrow>
      (\<exists>i chs. map_of (inflight w) i = Some chs \<and> ch \<in> set chs \<and> answer maxTry M i = Some r)" for ch r
  proof -
    have "(ch, r) \<in> set (concat (map (\<lambda>i. told w i (?r i)) ids)) \<longleftrightarrow> (\<exists>i. i \<in> set ids \<and> (ch, r) \<in> set (told w i (?r i)))"
      by auto
    also have "\<dots> \<longleftrightarrow> (\<exists>i chs. map_of (inflight w) i = Some chs \<and> ch \<in> set chs \<and> answer maxTry M i = Some r)"
      unfolding ans told by force
    finally show ?thesis .
  qed
  then show "set (sent (notify_round maxTry part (Inr (lookups M ?is)) w)) = set (sent w) \<union>
      {(ch, r). \<exists>i chs. map_of (inflight w) i = Some chs \<and> ch \<in> set chs \<and> answer maxTry M i = Some r}"
    unfolding round fold_notify(1) [OF dis] set_append by (auto simp del: set_concat)
  show "channels (notify_round maxTry part (Inr (lookups M ?is)) w) = channels w"
    unfolding round using fold_notify_keeps [OF assms(2), of "\<lambda>_. True" "\<lambda>i. i" ?r] by simp
qed

text \<open>C3. Every operation of the job manager implements its step of the job table: the store keeps holding
  every job exactly once, in the bucket its state names; a call that returns an error leaves the
  table as it was, and one that succeeds makes the step of the specification.\<close>

theorem jobs_refine:
  assumes "represents (kv_data s) M" "run_op genid maxTry oper s = (r, s1)"
  shows "\<exists>M'. represents (kv_data s1) M' \<and>
    (case r of Inl _ \<Rightarrow> M' = M | Inr _ \<Rightarrow> job_step genid maxTry oper M M')"
  using assms by (rule run_op_refines)

text \<open>C12. From any store the manager can reach, on any engine and with a positive limit \<open>JobMaxTry\<close>: as long as
  no call resets, removes or cleans up a given job, the calls hand it out at most \<open>JobMaxTry\<close> times. The
  stored counter, which is 0 for a job that is not there, goes up by one with each hand-out, does not wrap
  and stays within the limit; calls for other jobs do not matter. (A reset, or a removal and a new creation,
  starts the count again.)\<close>

theorem tries_bounded:
  assumes "job_reachable genid maxTry s" "0 < maxTry" "\<not> happens (forgets i) genid maxTry calls s"
  shows "tries (job_stored i (run_ops genid maxTry calls s)) = tries (job_stored i s) + hand_outs i genid maxTry calls s \<and>
    tries (job_stored i (run_ops genid maxTry calls s)) \<le> unat maxTry"
proof -
  from reachable_table [OF assms(1,2)] obtain M where M: "represents (kv_data s) M" "tries_ok maxTry M" by blast
  from run_ops_counts [OF M assms(2,3)] obtain M1 where M1: "represents (kv_data (run_ops genid maxTry calls s)) M1"
    "tries_ok maxTry M1" "tries (M1 i) = tries (M i) + hand_outs i genid maxTry calls s" by blast
  have "tries (M1 i) \<le> unat maxTry"
    using tries_okD(1) [OF M1(2)] by (auto simp: tries_def word_le_nat_alt split: option.splits)
  with M1(3) show ?thesis by (simp add: job_stored_table [OF M(1)] job_stored_table [OF M1(1)])
qed

text \<open>C29. \<open>AllocateJobs\<close> hands out at most \<open>n\<close> different jobs, all of them ready and allowed by the request,
  and no fewer than \<open>n\<close> while there are more. Whatever calls follow, on whatever jobs: a job that is then handed
  out again has itself been reset, removed, cleaned up as an expired finished job, or retried as a failed job
  with tries left, by a successful call in between.\<close>

theorem allocation_exclusive:
  assumes "represents (kv_data s) M" "AllocateJobs sp n w now s = (Inr js, s1)"
    and "AllocateJobs sp' n' w' now' (run_ops genid maxTry calls s1) = (Inr js', s2)"
  shows "distinct (map fst js) \<and> length js \<le> unat n \<and>
    (\<forall>(i, inp) \<in> set js. \<exists>j. M i = Some j \<and> wj_State j = ready2run \<and> job_allowed sp j \<and> wj_Input j = inp) \<and>
    (length js < unat n \<longrightarrow> (\<forall>i j. M i = Some j \<and> wj_State j = ready2run \<and> job_allowed sp j \<longrightarrow> i \<in> fst ` set js)) \<and>
    (\<forall>i \<in> fst ` set js \<inter> fst ` set js'. happens (gives_back maxTry i) genid maxTry calls s1)"
proof -
  note A = AllocateJobs_result [OF assms(1,2)]
  have len: "length js = card (fst ` set js)" using A by (metis distinct_card length_map list.set_map)
  let ?M1 = "moved (run_job now w) (fst ` set js) M"
  have "happens (gives_back maxTry i) genid maxTry calls s1" if i: "i \<in> fst ` set js" "i \<in> fst ` set js'" for i
  proof (rule ccontr)
    assume no: "\<not> happens (gives_back maxTry i) genid maxTry calls s1"
    have t1: "is_taken (?M1 i)" using A i(1) by (force simp: is_taken_def moved_def selects_def run_job_def)
    from run_ops_taken [of s1 ?M1 maxTry i genid calls] A no t1 obtain M2 where
      M2: "represents (kv_data (run_ops genid maxTry calls s1)) M2" "is_taken (M2 i)" by auto
    with AllocateJobs_result [OF M2(1) assms(3)] i(2) show False by (auto simp: selects_def is_taken_def)
  qed
  moreover have "\<forall>(i, inp) \<in> set js. \<exists>j. M i = Some j \<and> wj_State j = ready2run \<and> job_allowed sp j \<and> wj_Input j = inp"
    using A by (fastforce simp: selects_def)
  ultimately show ?thesis using A len by (simp add: selects_def)
qed

text \<open>A running job whose worker has stopped sending heartbeats is ready to run again after one round of
  the retry loop, with its input kept and its tries counted, if it has tries left and the engine works.
  (A round handles 128 jobs.)\<close>

theorem dead_job_retried:
  assumes "represents (kv_data s) M" "kv_script s = []" "length (kv_data s) < 128" "M i = Some j"
    "wj_State j = running" "wj_HeartbeatAt j > 0"
    "unix_before (wj_HeartbeatAt j) (now_ns - pc_HeartbeatTimeout cfg)" "wj_TryNum j < pc_JobMaxTry cfg"
  shows "\<exists>j'. map_of (kv_data (retry_tick cfg now_ns now s)) (makeWdPoStKey ready2run i) = Some (Json j') \<and>
    wj_ID j' = i \<and> wj_Input j' = wj_Input j \<and> wj_TryNum j' = wj_TryNum j \<and> wj_ErrorReason j' = []"
proof -
  from recovery [OF assms] obtain M' where
    M': "represents (kv_data (retry_tick cfg now_ns now s)) M'" "M' i = Some (retry_job now (die_job now j))" by blast
  have "wj_ID j = i" using representsD(2) [OF assms(1,4)] .
  with M'(2) represents_peek [OF M'(1), of ready2run i] show ?thesis by (simp add: retry_job_def die_job_def)
qed

text \<open>A round of the notification loop that can read the store tells the waiters of every job exactly what
  the table says: a job that is gone, a job that is finished for good (success, or no tries left);
  the waiters of the other jobs keep waiting. No waiter is lost or told twice.\<close>

theorem notify_tick_correct:
  assumes "represents (kv_data s) M" "ListByJobIDs (map fst (inflight w)) s = (Inr jobs, s1)"
    "distinct (map fst (inflight w))" "notify_tick maxTry part s w = (s2, w1)"
  shows "map_of (inflight w1) = (\<lambda>i. if answer maxTry M i = None then map_of (inflight w) i else None) \<and>
    set (sent w1) = set (sent w) \<union> {(ch, r). \<exists>i chs. map_of (inflight w) i = Some chs \<and> ch \<in> set chs \<and>
      answer maxTry M i = Some r} \<and> channels w1 = channels w"
proof -
  have w1: "w1 = notify_round maxTry part (Inr (lookups M (map fst (inflight w)))) w"
    using assms(2,4) ListByJobIDs_result [OF assms(1,2)] by (simp add: notify_tick_def lookups_def)
  show ?thesis unfolding w1 by (intro conjI notify_round_success [OF assms(1,3)])
qed

text \<open>When the listing fails, every waiter whose job was not read before the failure is told that the job
  was removed by hand, whatever the store holds: the caller then starts the job once more.\<close>

theorem listing_failure_reports_removal:
  assumes "ListByJobIDs (map fst (inflight w)) s = (Inl e, s1)" "distinct (map fst (inflight w))"
    "map_of (inflight w) i = Some chs" "ch \<in> set chs" "i \<notin> wj_ID ` set part"
    "notify_tick maxTry part s w = (s2, w1)"
  shows "(ch, (None, Some ErrJobRemovedManually)) \<in> set (sent w1)"
proof -
  let ?rem = "filter (\<lambda>i. i \<notin> wj_ID ` set part) (map fst (inflight w))"
  let ?w = "fold (\<lambda>i. send_result i (None, Some ErrJobRemovedManually)) ?rem w"
  have keep: "set (sent v) \<subseteq> set (sent (fold (\<lambda>j w. if P j then send_result (f j) (r j) w else w) xs v))"
    for P f r and xs :: "wd_job list" and v
  proof (induction xs arbitrary: v)
    case (Cons x xs)
    from Cons.IH [of "if P x then send_result (f x) (r x) v else v"] show ?case by (auto simp: notify_sent split: if_splits)
  qed simp
  have "i \<in> set ?rem" using assms(3,5) by (auto dest!: map_of_SomeD intro: rev_image_eqI)
  then have "(ch, (None, Some ErrJobRemovedManually)) \<in> set (sent ?w)"
    unfolding fold_notify(1) [OF distinct_filter [OF assms(2)]] using assms(3,4) by (auto simp: told_def)
  moreover have "w1 = fold (\<lambda>j w. if job_Finished maxTry j then send_result (wj_ID j) (job_result_of j) w else w) part ?w"
    using assms(1,6) by (auto simp: notify_tick_def notify_round_def listed_def Let_def)
  ultimately show ?thesis using keep by blast
qed

section \<open>Instances\<close>

definition demo_input :: wd_input where
  "demo_input = \<lparr>wdi_Sectors = [], wdi_MinerID = 1000, wdi_ProofType = ''p'', wdi_Seed = []\<rparr>"

definition demo_job :: wd_job where
  "demo_job = new_job ''j1'' 10 0 [] demo_input"

definition demo_jobs :: "wd_job \<Rightarrow> job_store" where
  "demo_jobs j = \<lparr>kv_data = [entry j], kv_script = []\<rparr>"

definition demo_any :: job_spec where
  "demo_any = \<lparr>js_AllowedMiners = [], js_AllowedProofTypes = []\<rparr>"

definition demo_waiters :: waiters where
  "demo_waiters = \<lparr>inflight = [(''j1'', [7])], sent = []\<rparr>"

lemma demo_represents: "wj_State j \<in> set allStates \<Longrightarrow> represents (kv_data (demo_jobs j)) [wj_ID j \<mapsto> j]"
  by (auto simp: represents_def demo_jobs_def ordered_entries_def ran_def split: if_splits)

lemmas demo_defs = demo_jobs_def demo_job_def demo_input_def demo_any_def demo_waiters_def entry_def job_key_def
  makeWdPoStKey_def makeWdPoStPrefix_def ready2run_def running_def finished_def

lemma demo_job_fields: "wj_ID demo_job = ''j1''" "wj_State demo_job = ready2run" "wj_TryNum demo_job = 0"
  by (simp_all add: demo_job_def new_job_def)

theorem jobs_refine_witness:
  "\<exists>M'. represents (kv_data (snd (run_op (\<lambda>_. ''j1'') 3 (OpRemove ''j1'') (demo_jobs demo_job)))) M'"
proof -
  obtain r s1 where run: "run_op (\<lambda>_. ''j1'') 3 (OpRemove ''j1'') (demo_jobs demo_job) = (r, s1)" by fastforce
  have "wj_State demo_job \<in> set allStates" by (simp add: demo_job_fields)
  from jobs_refine [OF demo_represents [OF this] run] show ?thesis unfolding run snd_conv by blast
qed

lemma demo_create: "run_op (\<lambda>_. ''j1'') 3 (OpCreate 10 0 [] demo_input) \<lparr>kv_data = [], kv_script = []\<rparr> =
    (Inr (), demo_jobs demo_job)"
proof -
  have "create_body (\<lambda>_. ''j1'') 10 0 [] demo_input \<lparr>kv_data = [], kv_script = []\<rparr> = (Inr demo_job, demo_jobs demo_job)"
    by (simp add: create_body_def Let_def try_step_def PutJSON_def return_step_def demo_jobs_def entry_def job_key_def
        put_entry_def demo_job_fields demo_job_def [symmetric])
  then show ?thesis by (simp add: wd_Create_def UpdateMustNoConflict_works demo_jobs_def)
qed

text \<open>A job that fails, is retried and runs again: two of its three tries are used.\<close>

definition demo_calls :: "(job_op \<times> outcome list) list" where
  "demo_calls = [(OpAllocate demo_any 5 ''w'' 11, []), (OpFinish ''j1'' None ''failed'' 12, []), (OpRetry 128 13, []),
     (OpReset ''j2'' 13, []), (OpAllocate demo_any 5 ''v'' 14, [])]"

lemma demo_calls_quiet: "happens (forgets ''j1'') (\<lambda>_. ''j1'') 3 demo_calls (demo_jobs demo_job) = False"
  by code_simp

lemma demo_calls_count: "hand_outs ''j1'' (\<lambda>_. ''j1'') 3 demo_calls (demo_jobs demo_job) = 2"
  by code_simp

theorem tries_bounded_witness:
  "tries (job_stored ''j1'' (run_ops (\<lambda>_. ''j1'') 3 demo_calls (demo_jobs demo_job))) = tries (job_stored ''j1'' (demo_jobs demo_job)) + 2 \<and>
   tries (job_stored ''j1'' (run_ops (\<lambda>_. ''j1'') 3 demo_calls (demo_jobs demo_job))) \<le> unat (3 :: u32)"
proof -
  have r: "job_reachable (\<lambda>_. ''j1'') 3 (demo_jobs demo_job)"
    using job_reachable.call [OF job_reachable.start, of "\<lparr>kv_data = [], kv_script = []\<rparr>" "\<lambda>_. ''j1''" 3
      "OpCreate 10 0 [] demo_input" "[]"] demo_create by simp
  have "\<not> happens (forgets ''j1'') (\<lambda>_. ''j1'') 3 demo_calls (demo_jobs demo_job)" using demo_calls_quiet by simp
  from tries_bounded [OF r _ this] show ?thesis unfolding demo_calls_count by simp
qed

text \<open>Two jobs: the first is handed out; the second is reset, and only the second is handed out then.\<close>

definition demo_second :: wd_job where
  "demo_second = new_job ''j2'' 10 1 [] demo_input"

definition demo_two :: job_store where
  "demo_two = \<lparr>kv_data = [entry demo_job, entry demo_second], kv_script = []\<rparr>"

definition demo_between :: "(job_op \<times> outcome list) list" where
  "demo_between = [(OpHeartbeat [''j1''] ''w'' 12, []), (OpReset ''j2'' 13, []), (OpRetry 128 14, [])]"

lemma demo_two_represents: "represents (kv_data demo_two) [''j1'' \<mapsto> demo_job, ''j2'' \<mapsto> demo_second]"
proof -
  have "ran [''j1'' \<mapsto> demo_job, ''j2'' \<mapsto> demo_second] = {demo_job, demo_second}" by (simp add: insert_commute)
  moreover have "ordered_entries (kv_data demo_two)"
    unfolding ordered_entries_def demo_two_def by (simp add: demo_second_def new_job_def demo_defs)
  ultimately show ?thesis
    by (auto simp: represents_def demo_two_def demo_second_def demo_job_def new_job_def split: if_splits)
qed

lemma demo_two_allocate: "fst (AllocateJobs demo_any 1 ''w'' 11 demo_two) = Inr [(''j1'', demo_input)]"
  by code_simp

lemma demo_two_again: "fst (AllocateJobs demo_any 5 ''v'' 15 (run_ops (\<lambda>_. ''j1'') 3 demo_between
    (snd (AllocateJobs demo_any 1 ''w'' 11 demo_two)))) = Inr [(''j2'', demo_input)]"
  by code_simp

theorem allocation_exclusive_witness:
  "length [(''j1'', demo_input)] \<le> unat (1 :: u32) \<and>
   fst (AllocateJobs demo_any 5 ''v'' 15 (run_ops (\<lambda>_. ''j1'') 3 demo_between
     (snd (AllocateJobs demo_any 1 ''w'' 11 demo_two)))) = Inr [(''j2'', demo_input)]"
proof -
  obtain s1 where 1: "AllocateJobs demo_any 1 ''w'' 11 demo_two = (Inr [(''j1'', demo_input)], s1)"
    using demo_two_allocate by (metis prod.collapse)
  obtain s2 where 2: "AllocateJobs demo_any 5 ''v'' 15 (run_ops (\<lambda>_. ''j1'') 3 demo_between s1) =
      (Inr [(''j2'', demo_input)], s2)"
    using demo_two_again unfolding 1 snd_conv by (metis prod.collapse)
  from allocation_exclusive [OF demo_two_represents 1 2] show ?thesis using demo_two_again by blast
qed

theorem dead_job_retried_witness:
  "\<exists>j'. map_of (kv_data (retry_tick \<lparr>pc_JobMaxTry = 3, pc_HeartbeatTimeout = 5, pc_JobLifetime = 100\<rparr> 100000000000 100
      (demo_jobs (run_job 11 ''w'' demo_job)))) (makeWdPoStKey ready2run ''j1'') = Some (Json j') \<and> wj_TryNum j' = 1"
proof -
  let ?j = "run_job 11 ''w'' demo_job"
  have j: "wj_ID ?j = ''j1''" "wj_State ?j = running" "wj_HeartbeatAt ?j = 11" "wj_TryNum ?j = 1"
    by (simp_all add: run_job_def demo_job_fields)
  have "unix_before (wj_HeartbeatAt ?j) (100000000000 - 5)" by (simp add: unix_before_def j)
  with dead_job_retried [of "demo_jobs ?j" "[wj_ID ?j \<mapsto> ?j]" "wj_ID ?j" ?j 100000000000
      "\<lparr>pc_JobMaxTry = 3, pc_HeartbeatTimeout = 5, pc_JobLifetime = 100\<rparr>" 100] demo_represents [of ?j] j
  show ?thesis by (auto simp: demo_jobs_def)
qed

lemma demo_list: "ListByJobIDs [''j1''] (demo_jobs demo_job) = (Inr [demo_job], demo_jobs demo_job)"
  by (simp add: ListByJobIDs_def ViewMustNoConflict_def attempts_def kv_View_def peek_job_def allStates_def
      try_step_def bind_step_def return_step_def new_job_def demo_defs)

theorem notify_tick_correct_witness:
  "channels (snd (notify_tick 3 [] (demo_jobs demo_job) demo_waiters)) = {#7#}"
proof -
  obtain s2 w1 where run: "notify_tick 3 [] (demo_jobs demo_job) demo_waiters = (s2, w1)" by fastforce
  have "represents (kv_data (demo_jobs demo_job)) [''j1'' \<mapsto> demo_job]"
    using demo_represents [of demo_job] by (simp add: demo_job_fields)
  from notify_tick_correct [OF this _ _ run, of "[demo_job]" "demo_jobs demo_job"] demo_list run show ?thesis
    by (simp add: demo_waiters_def channels_def)
qed

theorem listing_failure_reports_removal_witness:
  "(7, (None, Some ErrJobRemovedManually)) \<in> set (sent (snd (notify_tick 3 []
     ((demo_jobs demo_job)\<lparr>kv_script := [Failed ''io'']\<rparr>) demo_waiters)))"
proof -
  let ?s = "(demo_jobs demo_job)\<lparr>kv_script := [Failed ''io'']\<rparr>"
  obtain s2 w1 where run: "notify_tick 3 [] ?s demo_waiters = (s2, w1)" by fastforce
  have "\<exists>e s1. ListByJobIDs [''j1''] ?s = (Inl e, s1)"
    by (simp add: ListByJobIDs_def ViewMustNoConflict_def attempts_def kv_View_def peek_job_def allStates_def
      try_step_def bind_step_def fail_step_def txn_Peek_def pop_outcome_def demo_defs conflict_err_def
      badger_err_def badger_ErrConflict_def not_found_def)
  then obtain e s1 where "ListByJobIDs [''j1''] ?s = (Inl e, s1)" by blast
  from listing_failure_reports_removal [of demo_waiters ?s e s1 "''j1''" "[7]" 7 "[]" 3 s2 w1] this run show ?thesis
    by (simp add: demo_waiters_def)
qed

end
