(* ===== verification/Commit_Checks.thy ===== *)
theory Commit_Checks
  imports Manager_Config
begin

text \<open>
  What the commitment manager decides before a message is sent
  (\<open>modules/impl/commitmgr/policy.go\<close>, \<open>check.go\<close>, \<open>modules/policy/\<close>): the expiration of a sector, and
  the sanity checks of pieces, pre-commits and proofs. The chain node (\<open>SealingAPI\<close>), the actors'
  constants, the proof verifier and the address, \<open>zerocomm\<close> and FFI libraries are parameters; the node's
  answers are those it gives during one call. Epochs are integers: the code's \<open>int64\<close> epochs stay far
  from their bounds, but the product of the configured lifetime is taken in 64 bits as in the code.
\<close>

section \<open>Parameters\<close>

record net_policy =
  np_EpochsInDay :: u64
  np_ChainFinality :: epoch
  np_MinSectorExpiration :: epoch
  np_GetMinSectorExpiration :: epoch
  np_WPoStProvingPeriod :: epoch
  np_VersionForNetwork :: "u64 \<Rightarrow> u64 res"
  np_GetMaxProveCommitDuration :: "u64 \<Rightarrow> seal_proof \<Rightarrow> epoch res"
  np_GetMaxSectorExpirationExtension :: "u64 \<Rightarrow> epoch res"
  np_NetPreCommitChallengeDelay :: epoch
  np_DefaultPreCommitChallengeDelay :: epoch

record precommit_on_chain =
  po_SealRandEpoch :: epoch
  po_SealedCID :: cid
  po_SealProof :: seal_proof
  po_PreCommitEpoch :: epoch
  po_Expiration :: epoch
  po_PreCommitDeposit :: int

record allocation =
  al_Provider :: u64
  al_Expiration :: epoch
  al_Size :: u64

type_synonym tipset = bytes

record sealing_api =
  sa_ChainHead :: "(tipset \<times> epoch) res"
  sa_StateNetworkVersion :: "tipset \<Rightarrow> u64 res"
  sa_StateSectorPreCommitInfo :: "address \<Rightarrow> u64 \<Rightarrow> tipset option \<Rightarrow> precommit_on_chain option res"
  sa_StateMarketStorageDealProposal :: "u64 \<Rightarrow> tipset \<Rightarrow> deal_proposal res"
  sa_StateGetAllocation :: "address \<Rightarrow> u64 \<Rightarrow> tipset \<Rightarrow> allocation option res"
  sa_GetSeed :: "epoch \<Rightarrow> u64 \<Rightarrow> seed res"

text \<open>Libraries: the commitment of an all-zero piece of a padded size, addresses, the FFI.\<close>

record commit_libs =
  cl_ZeroPieceCommitment :: "u64 \<Rightarrow> cid"
  cl_NewIDAddress :: "u64 \<Rightarrow> address res"
  cl_IDFromAddress :: "address \<Rightarrow> u64 res"
  cl_MarshalCBOR :: "address \<Rightarrow> err option"
  cl_GenerateUnsealedCID :: "seal_proof \<Rightarrow> (u64 \<times> cid) list \<Rightarrow> cid res"

record seal_verify_info =
  sv_SectorID :: sector_id
  sv_SealedCID :: cid
  sv_SealProof :: seal_proof
  sv_Proof :: bytes
  sv_Randomness :: bytes
  sv_InteractiveRandomness :: bytes
  sv_UnsealedCID :: cid

definition SealRandomnessLookback :: "net_policy \<Rightarrow> epoch" where
  "SealRandomnessLookback np = np_ChainFinality np"

definition MaxPreCommitRandomnessLookback :: "net_policy \<Rightarrow> epoch" where
  "MaxPreCommitRandomnessLookback np = uint (np_EpochsInDay np) + SealRandomnessLookback np"

definition GetPreCommitChallengeDelay :: "net_policy \<Rightarrow> epoch" where
  "GetPreCommitChallengeDelay np = (if np_NetPreCommitChallengeDelay np > 0 then np_NetPreCommitChallengeDelay np
     else np_DefaultPreCommitChallengeDelay np)"

section \<open>Expiration\<close>

definition ccSectorLifetime :: "net_policy \<Rightarrow> u64 \<Rightarrow> epoch \<Rightarrow> epoch \<Rightarrow> epoch res" where
  "ccSectorLifetime np nv ccLifetimeEpochs provingPeriod =
    (case np_GetMaxSectorExpirationExtension np nv of
       Inl e \<Rightarrow> Inl (Wrap ''get max sector expiration extension'' e)
     | Inr maxExpiration \<Rightarrow>
         (let cc = (if ccLifetimeEpochs = 0 then maxExpiration else ccLifetimeEpochs) in
          if cc < np_MinSectorExpiration np then Inr (np_MinSectorExpiration np)
          else if cc > maxExpiration then Inr maxExpiration
          else Inr (cc - provingPeriod * 2)))"

text \<open>The latest end of the deals that have not ended yet.\<close>

fun latest_deal_end :: "epoch \<Rightarrow> sector_piece list \<Rightarrow> epoch option \<Rightarrow> epoch option res" where
  "latest_deal_end height [] latest = Inr latest"
| "latest_deal_end height (p # ps) latest =
    (if \<not> HasDealInfo p then latest_deal_end height ps latest
     else case EndEpoch p of
       Inl e \<Rightarrow> Inl e
     | Inr endEpoch \<Rightarrow>
         if endEpoch < height then latest_deal_end height ps latest
         else latest_deal_end height ps
           (case latest of None \<Rightarrow> Some endEpoch | Some x \<Rightarrow> if x < endEpoch then Some endEpoch else Some x))"

definition sectorEnd :: "net_policy \<Rightarrow> epoch \<Rightarrow> u64 \<Rightarrow> sector_state \<Rightarrow> u64 \<Rightarrow> epoch \<Rightarrow> epoch res" where
  "sectorEnd np height nv state lifetimeDays provingPeriod =
    (case latest_deal_end height (SectorPiece state) None of
       Inl e \<Rightarrow> Inl e
     | Inr deals \<Rightarrow>
       (case (case deals of
           Some x \<Rightarrow> Inr x
         | None \<Rightarrow> (case ccSectorLifetime np nv (sint (lifetimeDays * np_EpochsInDay np)) provingPeriod of
             Inl e \<Rightarrow> Inl (Wrap ''failed to get cc sector lifetime'' e)
           | Inr expirationDuration \<Rightarrow> Inr (height + expirationDuration))) of
         Inl e \<Rightarrow> Inl e
       | Inr x \<Rightarrow>
         (let minExp = height + np_GetMinSectorExpiration np + np_WPoStProvingPeriod np in
          Inr (if x < minExp then minExp else x))))"

text \<open>\<open>PreCommitProcessor\<close> and \<open>CommitProcessor\<close> have the same text for the three methods.\<close>

definition sectorExpiration :: "net_policy \<Rightarrow> sealing_api \<Rightarrow> safe_config \<Rightarrow> sector_state \<Rightarrow> epoch res" where
  "sectorExpiration np api cfg state =
    (case MinerConfig cfg (sid_Miner (ss_ID state)) of
       Inl e \<Rightarrow> Inl (Wrap ''get miner config'' e)
     | Inr mcfg \<Rightarrow> (case sa_ChainHead api of
       Inl e \<Rightarrow> Inl (Wrap ''get chain head'' e)
     | Inr (tok, height) \<Rightarrow> (case sa_StateNetworkVersion api tok of
       Inl e \<Rightarrow> Inl (Wrap ''failed to get network version'' e)
     | Inr nv \<Rightarrow> (case np_VersionForNetwork np nv of
       Inl e \<Rightarrow> Inl (Wrap ''unsupported network version'' e)
     | Inr av \<Rightarrow> (case np_GetMaxProveCommitDuration np av (ss_SectorType state) of
       Inl e \<Rightarrow> Inl (Wrap ''getting max prove commit duration'' e)
     | Inr mpcd \<Rightarrow> (case sectorEnd np height nv state (msc_LifetimeDays (mc_Sector mcfg)) (np_WPoStProvingPeriod np) of
       Inl e \<Rightarrow> (if is_panic e then Inl e else Inl (Wrap ''calculate sector end'' e))
     | Inr expiration \<Rightarrow> (case ss_Ticket state of
       None \<Rightarrow> nil_deref
     | Some t \<Rightarrow>
       (let minExpiration = tk_Epoch t + MaxPreCommitRandomnessLookback np + mpcd + np_MinSectorExpiration np;
            expiration1 = (if expiration < minExpiration then minExpiration else expiration) in
        case np_GetMaxSectorExpirationExtension np nv of
          Inl e \<Rightarrow> Inl (Wrap ''get max sector expiration extension'' e)
        | Inr maxLifetime \<Rightarrow>
            (let maxExpiration = height + GetPreCommitChallengeDelay np + maxLifetime in
             Inr (if expiration1 > maxExpiration then maxExpiration else expiration1))))))))))"

section \<open>Checks\<close>

datatype check_kind = ErrAPI | ErrInvalidDeals | ErrInvalidPiece | ErrExpiredDeals | ErrBadCommD
  | ErrExpiredTicket | ErrBadTicket | ErrPrecommitOnChain | ErrSectorNumberAllocated | ErrMarshalAddr
  | ErrBadSeed | ErrInvalidProof | ErrNoPrecommit | PlainErr | GoPanic

type_synonym 'a checked = "(check_kind \<times> err) + 'a"

definition bad :: "check_kind \<Rightarrow> string \<Rightarrow> 'a checked" where
  "bad k m = Inl (k, Errorf m)"

definition bad_call :: "check_kind \<Rightarrow> string \<Rightarrow> err \<Rightarrow> 'a checked" where
  "bad_call k m e = Inl (k, Wrap m e)"

definition checkZeroPiece :: "commit_libs \<Rightarrow> abi_piece \<Rightarrow> unit checked" where
  "checkZeroPiece lib piece =
    (if ap_PieceCID piece \<noteq> cl_ZeroPieceCommitment lib (ap_Size piece)
     then bad ErrInvalidPiece ''had non-zero PieceCID'' else Inr ())"

definition checkBuiltinMarketPiece :: "sealing_api \<Rightarrow> address \<Rightarrow> tipset \<Rightarrow> epoch \<Rightarrow> u64 \<Rightarrow> abi_piece \<Rightarrow> unit checked" where
  "checkBuiltinMarketPiece api maddr tok height dealID piece =
    (case sa_StateMarketStorageDealProposal api dealID tok of
       Inl e \<Rightarrow> bad_call ErrAPI ''getting deal'' e
     | Inr proposal \<Rightarrow>
         if dp_Provider proposal \<noteq> maddr then bad ErrInvalidDeals ''wrong provider''
         else if dp_PieceCID proposal \<noteq> ap_PieceCID piece then bad ErrInvalidDeals ''wrong PieceCID''
         else if ap_Size piece \<noteq> dp_PieceSize proposal then bad ErrInvalidDeals ''different size''
         else if height \<ge> dp_StartEpoch proposal then bad ErrExpiredDeals ''refers expired deal''
         else Inr ())"

definition checkDDOPiece :: "sealing_api \<Rightarrow> commit_libs \<Rightarrow> address \<Rightarrow> tipset \<Rightarrow> epoch \<Rightarrow> u64 \<Rightarrow> abi_piece \<Rightarrow> unit checked" where
  "checkDDOPiece api lib maddr tok height allocationID piece =
    (case sa_StateGetAllocation api maddr allocationID tok of
       Inl e \<Rightarrow> bad_call PlainErr ''getting deal allocation'' e
     | Inr None \<Rightarrow> Inr ()
     | Inr (Some al) \<Rightarrow> (case cl_IDFromAddress lib maddr of
         Inl e \<Rightarrow> bad_call PlainErr ''getting miner id'' e
       | Inr mid \<Rightarrow>
           if al_Provider al \<noteq> mid then bad PlainErr ''allocation provider does not match miner''
           else if height \<ge> al_Expiration al then bad ErrExpiredDeals ''refers expired deal''
           else if al_Size al < ap_Size piece then bad ErrInvalidDeals ''different size''
           else Inr ()))"

definition legacy_abi_piece :: "legacy_deal_info \<Rightarrow> abi_piece" where
  "legacy_abi_piece l = \<lparr>ap_Size = pi_Size (ld_Piece l), ap_PieceCID = pi_Cid (ld_Piece l)\<rparr>"

fun check_legacy :: "sealing_api \<Rightarrow> commit_libs \<Rightarrow> address \<Rightarrow> tipset \<Rightarrow> epoch \<Rightarrow> legacy_deal_info list \<Rightarrow> unit checked" where
  "check_legacy api lib maddr tok height [] = Inr ()"
| "check_legacy api lib maddr tok height (l # ls) =
    (case (if ld_ID l = 0 then checkZeroPiece lib (legacy_abi_piece l)
           else checkBuiltinMarketPiece api maddr tok height (ld_ID l) (legacy_abi_piece l)) of
       Inl e \<Rightarrow> Inl e
     | Inr _ \<Rightarrow> check_legacy api lib maddr tok height ls)"

text \<open>The loop over the new pieces. When the check of a direct-deal piece fails, the code returns nil.\<close>

fun check_pieces_v2 :: "sealing_api \<Rightarrow> commit_libs \<Rightarrow> address \<Rightarrow> tipset \<Rightarrow> epoch \<Rightarrow> sector_piece_v2 list \<Rightarrow> unit checked" where
  "check_pieces_v2 api lib maddr tok height [] = Inr ()"
| "check_pieces_v2 api lib maddr tok height (p # ps) =
    (if \<not> HasDealInfo (PieceV2 p) then
       (case checkZeroPiece lib (sp_Piece p) of Inl e \<Rightarrow> Inl e | Inr _ \<Rightarrow> check_pieces_v2 api lib maddr tok height ps)
     else case sp_DealInfo p of
       None \<Rightarrow> Inl (GoPanic, Panic ''nil'')
     | Some d \<Rightarrow> if di_IsBuiltinMarket d then
           (case checkBuiltinMarketPiece api maddr tok height (di_DealID d) (sp_Piece p) of
              Inl e \<Rightarrow> Inl e | Inr _ \<Rightarrow> check_pieces_v2 api lib maddr tok height ps)
         else (case checkDDOPiece api lib maddr tok height (di_AllocationID d) (sp_Piece p) of
              Inl e \<Rightarrow> Inr () | Inr _ \<Rightarrow> check_pieces_v2 api lib maddr tok height ps))"

definition checkPieces :: "sealing_api \<Rightarrow> commit_libs \<Rightarrow> address \<Rightarrow> sector_state \<Rightarrow> unit checked" where
  "checkPieces api lib maddr sector = (case sa_ChainHead api of
     Inl e \<Rightarrow> bad_call ErrAPI ''getting chain head'' e
   | Inr (tok, height) \<Rightarrow> (case check_legacy api lib maddr tok height (ss_LegacyPieces sector) of
       Inl e \<Rightarrow> Inl e
     | Inr _ \<Rightarrow> check_pieces_v2 api lib maddr tok height (ss_Pieces sector)))"

definition computeUnsealedCIDFromPieces :: "commit_libs \<Rightarrow> sector_state \<Rightarrow> cid res" where
  "computeUnsealedCIDFromPieces lib sector = cl_GenerateUnsealedCID lib (ss_SectorType sector)
     (map (\<lambda>p. (pi_Size (PieceInfo p), pi_Cid (PieceInfo p))) (SectorPiece sector))"

definition check_commD :: "commit_libs \<Rightarrow> sector_state \<Rightarrow> unit checked" where
  "check_commD lib si = (if \<not> HasData si then Inr ()
     else case computeUnsealedCIDFromPieces lib si of
       Inl e \<Rightarrow> bad_call ErrAPI ''compute unsealed cid from pieces'' e
     | Inr commD \<Rightarrow> (case ss_Pre si of
         None \<Rightarrow> bad ErrBadCommD ''no pre commit on chain info available''
       | Some pre \<Rightarrow> if commD \<noteq> pc_CommD pre then bad ErrBadCommD ''on chain CommD differs'' else Inr ()))"

definition check_ticket :: "net_policy \<Rightarrow> sealing_api \<Rightarrow> address \<Rightarrow> tipset \<Rightarrow> epoch \<Rightarrow> sector_state \<Rightarrow> unit checked" where
  "check_ticket np api maddr tok height si = (case ss_Ticket si of
     None \<Rightarrow> Inl (GoPanic, Panic ''nil'')
   | Some t \<Rightarrow>
       if tk_Epoch t < height - MaxPreCommitRandomnessLookback np then bad ErrExpiredTicket ''ticket expired''
       else (case sa_StateSectorPreCommitInfo api maddr (sid_Number (ss_ID si)) (Some tok) of
           Inl e \<Rightarrow> if e = ErrSectorAllocated then Inl (ErrSectorNumberAllocated, e)
             else bad_call ErrAPI ''getting precommit info'' e
         | Inr None \<Rightarrow> Inr ()
         | Inr (Some pci) \<Rightarrow> if po_SealRandEpoch pci \<noteq> tk_Epoch t then bad ErrBadTicket ''bad ticket epoch''
             else bad ErrPrecommitOnChain ''precommit already on chain''))"

definition checkPrecommit :: "net_policy \<Rightarrow> sealing_api \<Rightarrow> commit_libs \<Rightarrow> address \<Rightarrow> sector_state \<Rightarrow> unit checked" where
  "checkPrecommit np api lib maddr si = (case sa_ChainHead api of
     Inl e \<Rightarrow> bad_call ErrAPI ''get chain head failed'' e
   | Inr (tok, height) \<Rightarrow> (case checkPieces api lib maddr si of
       Inl e \<Rightarrow> Inl e
     | Inr _ \<Rightarrow> (case check_commD lib si of
         Inl e \<Rightarrow> Inl e
       | Inr _ \<Rightarrow> check_ticket np api maddr tok height si)))"

definition checkCommit :: "net_policy \<Rightarrow> sealing_api \<Rightarrow> commit_libs \<Rightarrow> (seal_verify_info \<Rightarrow> bool res) \<Rightarrow>
    sector_state \<Rightarrow> bytes \<Rightarrow> address \<Rightarrow> unit checked" where
  "checkCommit np api lib verif si proofBytes maddr = (case ss_Seed si of
     None \<Rightarrow> bad ErrBadSeed ''seed epoch was not set''
   | Some sd \<Rightarrow> (case sa_StateSectorPreCommitInfo api maddr (sid_Number (ss_ID si)) None of
       Inl e \<Rightarrow> if e = ErrSectorAllocated then Inl (ErrSectorNumberAllocated, e)
         else bad ErrAPI ''get sector precommit info failed''
     | Inr None \<Rightarrow> bad ErrNoPrecommit ''precommit info not found on-chain''
     | Inr (Some pci) \<Rightarrow>
       (let seedEpoch = po_PreCommitEpoch pci + GetPreCommitChallengeDelay np in
        if seedEpoch \<noteq> sd_Epoch sd then bad ErrBadSeed ''seed epoch does not match on chain info''
        else (case cl_MarshalCBOR lib maddr of
          Some e \<Rightarrow> Inl (ErrMarshalAddr, e)
        | None \<Rightarrow> (case sa_GetSeed api seedEpoch (sid_Miner (ss_ID si)) of
            Inl e \<Rightarrow> bad_call ErrAPI ''failed to get randomness for computing seal proof'' e
          | Inr onchain \<Rightarrow>
            if sd_Seed onchain \<noteq> sd_Seed sd then bad ErrBadSeed ''seed has changed''
            else (case (ss_Ticket si, ss_Pre si) of
              (Some t, Some pre) \<Rightarrow> (case verif \<lparr>sv_SectorID = ss_ID si, sv_SealedCID = po_SealedCID pci,
                    sv_SealProof = po_SealProof pci, sv_Proof = proofBytes, sv_Randomness = tk_Ticket t,
                    sv_InteractiveRandomness = sd_Seed sd, sv_UnsealedCID = pc_CommD pre\<rparr> of
                  Inl e \<Rightarrow> bad_call ErrInvalidProof ''verify seal'' e
                | Inr ok \<Rightarrow> if \<not> ok then bad ErrInvalidProof ''invalid proof (compute error?)''
                    else checkPieces api lib maddr si)
            | _ \<Rightarrow> Inl (GoPanic, Panic ''nil'')))))))"

section \<open>Lemmas\<close>

lemma latest_deal_end_ge:
  assumes "latest_deal_end height ps acc = Inr r" "acc = Some a \<or> (p \<in> set ps \<and> HasDealInfo p \<and> EndEpoch p = Inr a \<and> height \<le> a)"
  shows "\<exists>x. r = Some x \<and> a \<le> x"
  using assms
proof (induction ps arbitrary: acc a)
  case (Cons q ps)
  show ?case
  proof (cases "HasDealInfo q")
    case False
    with Cons show ?thesis by (auto 0 3)
  next
    case True
    with Cons.prems(1) obtain x where x: "EndEpoch q = Inr x" by (auto split: sum.splits)
    show ?thesis
    proof (cases "x < height")
      case True
      with \<open>HasDealInfo q\<close> x Cons show ?thesis by (auto 0 3)
    next
      case False
      let ?acc = "case acc of None \<Rightarrow> Some x | Some y \<Rightarrow> if y < x then Some x else Some y"
      have run: "latest_deal_end height ps ?acc = Inr r" using Cons.prems(1) True x False by simp
      obtain b where b: "?acc = Some b" "x \<le> b" "acc = Some a \<Longrightarrow> a \<le> b"
      proof (cases acc)
        case (Some y)
        then show ?thesis using that [of "max x y"] by (auto simp: max_def)
      qed (use that [of x] in auto)
      from Cons.IH [OF run disjI1 [OF b(1)]] obtain y where y: "r = Some y" "b \<le> y" by blast
      show ?thesis
      proof (cases "acc = Some a \<or> p = q")
        case True
        with b y Cons.prems(2) x show ?thesis by force
      next
        case False
        with Cons.prems(2) have "p \<in> set ps \<and> HasDealInfo p \<and> EndEpoch p = Inr a \<and> height \<le> a" by auto
        from Cons.IH [OF run disjI2 [OF this]] show ?thesis .
      qed
    qed
  qed
qed simp

lemma sectorEnd_ge:
  assumes "sectorEnd np height nv st days period = Inr x"
  shows "height + np_GetMinSectorExpiration np + np_WPoStProvingPeriod np \<le> x"
    "p \<in> set (SectorPiece st) \<Longrightarrow> HasDealInfo p \<Longrightarrow> EndEpoch p = Inr a \<Longrightarrow> height \<le> a \<Longrightarrow> a \<le> x"
proof -
  from assms obtain r where r: "latest_deal_end height (SectorPiece st) None = Inr r" "\<And>y. r = Some y \<Longrightarrow> y \<le> x"
    by (auto simp: sectorEnd_def Let_def split: sum.splits option.splits if_splits)
  show "height + np_GetMinSectorExpiration np + np_WPoStProvingPeriod np \<le> x"
    using assms by (auto simp: sectorEnd_def Let_def split: sum.splits if_splits)
  show "a \<le> x" if "p \<in> set (SectorPiece st)" "HasDealInfo p" "EndEpoch p = Inr a" "height \<le> a"
    using latest_deal_end_ge [OF r(1), of a p] that r(2) by fastforce
qed

lemma clamp: "(if (if y < m then m else y) > M then M else (if y < m then m else y)) = min (max y m) M" for y m M :: int
  by (simp add: min_def max_def)

lemma sectorExpirationD:
  assumes "sectorExpiration np api cfg st = Inr x" "sa_ChainHead api = Inr (tok, height)"
    "sa_StateNetworkVersion api tok = Inr nv" "np_GetMaxSectorExpirationExtension np nv = Inr maxLifetime"
  shows "\<exists>(mcfg :: miner_config) av mpcd y t.
    sectorEnd np height nv st (msc_LifetimeDays (mc_Sector mcfg)) (np_WPoStProvingPeriod np) = Inr y \<and>
    ss_Ticket st = Some t \<and> np_VersionForNetwork np nv = Inr av \<and>
    np_GetMaxProveCommitDuration np av (ss_SectorType st) = Inr mpcd \<and>
    x = min (max y (tk_Epoch t + MaxPreCommitRandomnessLookback np + mpcd + np_MinSectorExpiration np))
      (height + GetPreCommitChallengeDelay np + maxLifetime)"
proof -
  from assms(1) obtain mcfg :: miner_config where m: "MinerConfig cfg (sid_Miner (ss_ID st)) = Inr mcfg"
    by (auto simp: sectorExpiration_def split: sum.splits)
  from assms m obtain av where av: "np_VersionForNetwork np nv = Inr av"
    by (auto simp: sectorExpiration_def split: sum.splits)
  from assms m av obtain mpcd where mp: "np_GetMaxProveCommitDuration np av (ss_SectorType st) = Inr mpcd"
    by (auto simp: sectorExpiration_def split: sum.splits)
  from assms m av mp obtain y where
    y: "sectorEnd np height nv st (msc_LifetimeDays (mc_Sector mcfg)) (np_WPoStProvingPeriod np) = Inr y"
    by (auto simp: sectorExpiration_def split: sum.splits if_splits)
  from assms m av mp y obtain t where t: "ss_Ticket st = Some t"
    by (auto simp: sectorExpiration_def nil_deref_def split: option.splits)
  have "x = min (max y (tk_Epoch t + MaxPreCommitRandomnessLookback np + mpcd + np_MinSectorExpiration np))
      (height + GetPreCommitChallengeDelay np + maxLifetime)"
    using assms m av mp y t unfolding sectorExpiration_def Let_def by (simp add: clamp del: max_less_iff_conj)
  with y t av mp show ?thesis by blast
qed

lemma check_legacy_all:
  "check_legacy api lib maddr tok height ls = Inr () \<longleftrightarrow> (\<forall>l \<in> set ls.
     (if ld_ID l = 0 then checkZeroPiece lib (legacy_abi_piece l)
      else checkBuiltinMarketPiece api maddr tok height (ld_ID l) (legacy_abi_piece l)) = Inr ())"
  by (induction ls) (auto split: sum.splits)

text \<open>The check the loop makes of one new piece.\<close>

definition check_piece :: "sealing_api \<Rightarrow> commit_libs \<Rightarrow> address \<Rightarrow> tipset \<Rightarrow> epoch \<Rightarrow> sector_piece_v2 \<Rightarrow> unit checked" where
  "check_piece api lib maddr tok height p = (case sp_DealInfo p of
     Some d \<Rightarrow> if \<not> HasDealInfo (PieceV2 p) then checkZeroPiece lib (sp_Piece p)
       else if di_IsBuiltinMarket d then checkBuiltinMarketPiece api maddr tok height (di_DealID d) (sp_Piece p)
       else checkDDOPiece api lib maddr tok height (di_AllocationID d) (sp_Piece p)
   | None \<Rightarrow> checkZeroPiece lib (sp_Piece p))"

definition direct :: "sector_piece_v2 \<Rightarrow> bool" where
  "direct p = (HasDealInfo (PieceV2 p) \<and> \<not> IsBuiltinMarket (PieceV2 p))"

lemma check_pieces_step:
  "check_pieces_v2 api lib maddr tok height (p # ps) = (case check_piece api lib maddr tok height p of
     Inl e \<Rightarrow> if direct p then Inr () else Inl e | Inr _ \<Rightarrow> check_pieces_v2 api lib maddr tok height ps)"
  by (auto simp: check_piece_def direct_def split: option.splits sum.splits)

text \<open>What the checks ask for.\<close>

definition zero_piece :: "commit_libs \<Rightarrow> abi_piece \<Rightarrow> bool" where
  "zero_piece lib piece = (ap_PieceCID piece = cl_ZeroPieceCommitment lib (ap_Size piece))"

definition deal_valid :: "sealing_api \<Rightarrow> address \<Rightarrow> tipset \<Rightarrow> epoch \<Rightarrow> u64 \<Rightarrow> abi_piece \<Rightarrow> bool" where
  "deal_valid api maddr tok height dealID piece = (\<exists>d. sa_StateMarketStorageDealProposal api dealID tok = Inr d \<and> dp_Provider d = maddr \<and>
     dp_PieceCID d = ap_PieceCID piece \<and> dp_PieceSize d = ap_Size piece \<and> height < dp_StartEpoch d)"

definition allocation_valid :: "sealing_api \<Rightarrow> commit_libs \<Rightarrow> address \<Rightarrow> tipset \<Rightarrow> epoch \<Rightarrow> u64 \<Rightarrow> abi_piece \<Rightarrow> bool" where
  "allocation_valid api lib maddr tok height aid piece = (sa_StateGetAllocation api maddr aid tok = Inr None \<or>
     (\<exists>al. sa_StateGetAllocation api maddr aid tok = Inr (Some al) \<and> cl_IDFromAddress lib maddr = Inr (al_Provider al) \<and>
        height < al_Expiration al \<and> ap_Size piece \<le> al_Size al))"

definition piece_valid :: "sealing_api \<Rightarrow> commit_libs \<Rightarrow> address \<Rightarrow> tipset \<Rightarrow> epoch \<Rightarrow> sector_piece_v2 \<Rightarrow> bool" where
  "piece_valid api lib maddr tok height p = (case sp_DealInfo p of
     None \<Rightarrow> zero_piece lib (sp_Piece p)
   | Some d \<Rightarrow> if \<not> HasDealInfo (PieceV2 p) then zero_piece lib (sp_Piece p)
       else if di_IsBuiltinMarket d then deal_valid api maddr tok height (di_DealID d) (sp_Piece p)
       else allocation_valid api lib maddr tok height (di_AllocationID d) (sp_Piece p))"

lemma checks_valid:
  "checkZeroPiece lib piece = Inr () \<longleftrightarrow> zero_piece lib piece"
  "checkBuiltinMarketPiece api maddr tok height dealID piece = Inr () \<longleftrightarrow> deal_valid api maddr tok height dealID piece"
  "checkDDOPiece api lib maddr tok height aid piece = Inr () \<longleftrightarrow> allocation_valid api lib maddr tok height aid piece"
  "check_piece api lib maddr tok height p = Inr () \<longleftrightarrow> piece_valid api lib maddr tok height p"
proof -
  show zero: "checkZeroPiece lib piece = Inr () \<longleftrightarrow> zero_piece lib piece" for piece
    by (simp add: checkZeroPiece_def zero_piece_def bad_def)
  show deal: "checkBuiltinMarketPiece api maddr tok height dealID piece = Inr () \<longleftrightarrow> deal_valid api maddr tok height dealID piece" for dealID piece
    by (auto simp: checkBuiltinMarketPiece_def deal_valid_def bad_def bad_call_def split: sum.splits)
  show alloc: "checkDDOPiece api lib maddr tok height aid piece = Inr () \<longleftrightarrow> allocation_valid api lib maddr tok height aid piece" for aid piece
    by (auto simp: checkDDOPiece_def allocation_valid_def bad_def bad_call_def split: sum.splits option.splits)
  show "check_piece api lib maddr tok height p = Inr () \<longleftrightarrow> piece_valid api lib maddr tok height p"
    by (auto simp: check_piece_def piece_valid_def zero deal alloc split: option.splits)
qed

text \<open>The loop succeeds when all pieces up to the first failing direct deal, or to the end, are valid.\<close>

definition valid_up_to_direct :: "(sector_piece_v2 \<Rightarrow> bool) \<Rightarrow> sector_piece_v2 list \<Rightarrow> bool" where
  "valid_up_to_direct valid ps = (\<exists>looked rest. ps = looked @ rest \<and> (\<forall>p \<in> set looked. valid p) \<and>
     (rest = [] \<or> direct (hd rest) \<and> \<not> valid (hd rest)))"

lemma valid_up_to_direct_Cons:
  "valid_up_to_direct valid (p # ps) = (if valid p then valid_up_to_direct valid ps else direct p)"
proof (cases "valid p")
  case True
  show ?thesis
  proof
    assume "valid_up_to_direct valid (p # ps)"
    then obtain looked rest where l: "p # ps = looked @ rest" "\<forall>p \<in> set looked. valid p" "rest = [] \<or> direct (hd rest) \<and> \<not> valid (hd rest)"
      by (auto simp: valid_up_to_direct_def)
    with True show "if valid p then valid_up_to_direct valid ps else direct p"
      by (cases looked) (auto simp: valid_up_to_direct_def)
  next
    assume "if valid p then valid_up_to_direct valid ps else direct p"
    with True obtain looked rest where "ps = looked @ rest" "\<forall>p \<in> set looked. valid p" "rest = [] \<or> direct (hd rest) \<and> \<not> valid (hd rest)"
      by (auto simp: valid_up_to_direct_def)
    with True show "valid_up_to_direct valid (p # ps)"
      unfolding valid_up_to_direct_def by (intro exI [of _ "p # looked"] exI [of _ rest]) simp
  qed
next
  case False
  then show ?thesis
    by (auto simp: valid_up_to_direct_def Cons_eq_append_conv intro: exI [of _ "[]"])
qed

lemma check_pieces_valid:
  "check_pieces_v2 api lib maddr tok height ps = Inr () \<longleftrightarrow> valid_up_to_direct (piece_valid api lib maddr tok height) ps"
proof (induction ps)
  case Nil
  show ?case by (simp add: valid_up_to_direct_def)
next
  case (Cons p ps)
  then show ?case using checks_valid(4) [of api lib maddr tok height p]
    by (cases "check_piece api lib maddr tok height p") (auto simp: check_pieces_step valid_up_to_direct_Cons simp del: check_pieces_v2.simps(2))
qed

lemma check_pieces_skip:
  "(\<And>q. q \<in> set pre \<Longrightarrow> check_piece api lib maddr tok height q = Inr ()) \<Longrightarrow> direct p \<Longrightarrow>
   check_piece api lib maddr tok height p = Inl e \<Longrightarrow>
   check_pieces_v2 api lib maddr tok height (pre @ p # rest) = Inr ()"
  by (induction pre) (auto simp: check_pieces_step simp del: check_pieces_v2.simps(2) split: sum.splits)

section \<open>Properties\<close>

text \<open>C30. The expiration computed for a sector is never after the longest lifetime the network allows from
  now, and up to that limit it is late enough: for every deal that has not ended, for the minimal lifetime
  of a sector with a day to spare, and for the minimal lifetime counted from the latest moment
  at which the ticket could still be used.\<close>

theorem sectorExpiration_bounds:
  assumes "sectorExpiration np api cfg st = Inr x" "sa_ChainHead api = Inr (tok, height)"
    "sa_StateNetworkVersion api tok = Inr nv" "np_GetMaxSectorExpirationExtension np nv = Inr maxLifetime"
  shows "x \<le> height + GetPreCommitChallengeDelay np + maxLifetime \<and>
    (\<forall>p \<in> set (SectorPiece st). \<forall>a. HasDealInfo p \<and> EndEpoch p = Inr a \<and> height \<le> a \<longrightarrow>
       min a (height + GetPreCommitChallengeDelay np + maxLifetime) \<le> x) \<and>
    min (height + np_GetMinSectorExpiration np + np_WPoStProvingPeriod np)
      (height + GetPreCommitChallengeDelay np + maxLifetime) \<le> x \<and>
    (\<exists>t av mpcd. ss_Ticket st = Some t \<and> np_VersionForNetwork np nv = Inr av \<and>
       np_GetMaxProveCommitDuration np av (ss_SectorType st) = Inr mpcd \<and>
       min (tk_Epoch t + MaxPreCommitRandomnessLookback np + mpcd + np_MinSectorExpiration np)
         (height + GetPreCommitChallengeDelay np + maxLifetime) \<le> x)"
proof -
  let ?M = "height + GetPreCommitChallengeDelay np + maxLifetime"
  from sectorExpirationD [OF assms] obtain mcfg :: miner_config and av mpcd y t where run:
    "sectorEnd np height nv st (msc_LifetimeDays (mc_Sector mcfg)) (np_WPoStProvingPeriod np) = Inr y"
    "ss_Ticket st = Some t" "np_VersionForNetwork np nv = Inr av"
    "np_GetMaxProveCommitDuration np av (ss_SectorType st) = Inr mpcd"
    "x = min (max y (tk_Epoch t + MaxPreCommitRandomnessLookback np + mpcd + np_MinSectorExpiration np)) ?M" by blast
  note E = sectorEnd_ge [OF run(1)]
  show ?thesis
  proof (intro conjI ballI allI impI)
    show "x \<le> ?M" using run(5) by simp
    show "min (height + np_GetMinSectorExpiration np + np_WPoStProvingPeriod np) ?M \<le> x" using E(1) run(5) by simp
    show "\<exists>t av mpcd. ss_Ticket st = Some t \<and> np_VersionForNetwork np nv = Inr av \<and>
       np_GetMaxProveCommitDuration np av (ss_SectorType st) = Inr mpcd \<and>
       min (tk_Epoch t + MaxPreCommitRandomnessLookback np + mpcd + np_MinSectorExpiration np) ?M \<le> x"
      using run(2-5) by (intro exI [of _ t] exI [of _ av] exI [of _ mpcd]) simp
  next
    fix p a
    assume "p \<in> set (SectorPiece st)" "HasDealInfo p \<and> EndEpoch p = Inr a \<and> height \<le> a"
    then show "min a ?M \<le> x" using E(2) [of p a] run(5) by simp
  qed
qed

text \<open>C31. \<open>checkPrecommit\<close> lets a sector pass exactly when its ticket is still valid at the head, it is not pre-committed on chain, it declares the
  data commitment of its pieces if it holds data, each of its legacy pieces is a zero piece or has a valid deal of this miner that
  has not started, and its new pieces are valid up to the first direct deal whose check fails, after which no piece is looked at.\<close>

theorem checkPrecommit_accepts:
  assumes "sa_ChainHead api = Inr (tok, height)"
  shows "checkPrecommit np api lib maddr si = Inr () \<longleftrightarrow>
    (\<exists>t. ss_Ticket si = Some t \<and> height - MaxPreCommitRandomnessLookback np \<le> tk_Epoch t) \<and>
    sa_StateSectorPreCommitInfo api maddr (sid_Number (ss_ID si)) (Some tok) = Inr None \<and>
    (HasData si \<longrightarrow> (\<exists>pre. ss_Pre si = Some pre \<and> computeUnsealedCIDFromPieces lib si = Inr (pc_CommD pre))) \<and>
    (\<forall>l \<in> set (ss_LegacyPieces si). if ld_ID l = 0 then zero_piece lib (legacy_abi_piece l)
       else deal_valid api maddr tok height (ld_ID l) (legacy_abi_piece l)) \<and>
    valid_up_to_direct (piece_valid api lib maddr tok height) (ss_Pieces si)"
proof -
  have "checkPieces api lib maddr si = Inr () \<longleftrightarrow> check_legacy api lib maddr tok height (ss_LegacyPieces si) = Inr () \<and>
      check_pieces_v2 api lib maddr tok height (ss_Pieces si) = Inr ()"
    using assms by (auto simp: checkPieces_def split: sum.splits)
  moreover have "check_commD lib si = Inr () \<longleftrightarrow>
      (HasData si \<longrightarrow> (\<exists>pre. ss_Pre si = Some pre \<and> computeUnsealedCIDFromPieces lib si = Inr (pc_CommD pre)))"
    by (auto simp: check_commD_def bad_def bad_call_def split: sum.splits option.splits)
  moreover have "check_ticket np api maddr tok height si = Inr () \<longleftrightarrow>
      (\<exists>t. ss_Ticket si = Some t \<and> height - MaxPreCommitRandomnessLookback np \<le> tk_Epoch t) \<and>
      sa_StateSectorPreCommitInfo api maddr (sid_Number (ss_ID si)) (Some tok) = Inr None"
    by (auto simp: check_ticket_def bad_def bad_call_def split: sum.splits option.splits)
  moreover have "checkPrecommit np api lib maddr si = Inr () \<longleftrightarrow> checkPieces api lib maddr si = Inr () \<and> check_commD lib si = Inr () \<and>
      check_ticket np api maddr tok height si = Inr ()"
    using assms by (auto simp: checkPrecommit_def split: sum.splits)
  moreover have "check_legacy api lib maddr tok height (ss_LegacyPieces si) = Inr () \<longleftrightarrow> (\<forall>l \<in> set (ss_LegacyPieces si).
      if ld_ID l = 0 then zero_piece lib (legacy_abi_piece l) else deal_valid api maddr tok height (ld_ID l) (legacy_abi_piece l))"
    unfolding check_legacy_all by (auto simp: checks_valid)
  ultimately show ?thesis unfolding check_pieces_valid by blast
qed

text \<open>A direct deal that fails its check (an expired or foreign allocation, a node that does not answer)
  ends the check of the pieces with success: the pieces after it are not looked at.\<close>

theorem failed_direct_deal_passes:
  assumes "sa_ChainHead api = Inr (tok, height)" "ss_LegacyPieces si = []" "ss_Pieces si = pre @ p # rest"
    "\<forall>q \<in> set pre. check_piece api lib maddr tok height q = Inr ()" "direct p"
    "check_piece api lib maddr tok height p = Inl e"
  shows "checkPieces api lib maddr si = Inr ()"
  using check_pieces_skip [of pre api lib maddr tok height p e rest] assms by (simp add: checkPieces_def)

section \<open>Instances\<close>

definition demo_np :: net_policy where
  "demo_np = \<lparr>np_EpochsInDay = 2880, np_ChainFinality = 900, np_MinSectorExpiration = 518400,
     np_GetMinSectorExpiration = 518400, np_WPoStProvingPeriod = 2880, np_VersionForNetwork = Inr,
     np_GetMaxProveCommitDuration = (\<lambda>_ _. Inr 86400), np_GetMaxSectorExpirationExtension = (\<lambda>_. Inr 5256000),
     np_NetPreCommitChallengeDelay = 150, np_DefaultPreCommitChallengeDelay = 150\<rparr>"

definition demo_libs :: commit_libs where
  "demo_libs = \<lparr>cl_ZeroPieceCommitment = (\<lambda>_. ''zero''), cl_NewIDAddress = (\<lambda>i. Inr (IDAddress i)),
     cl_IDFromAddress = (\<lambda>a. case a of IDAddress i \<Rightarrow> Inr i | _ \<Rightarrow> Inl (Ext ''address'')),
     cl_MarshalCBOR = (\<lambda>_. None), cl_GenerateUnsealedCID = (\<lambda>_ _. Inr ''commd'')\<rparr>"

definition demo_sealing :: sealing_api where
  "demo_sealing = \<lparr>sa_ChainHead = Inr ([], 1000), sa_StateNetworkVersion = (\<lambda>_. Inr 22),
     sa_StateSectorPreCommitInfo = (\<lambda>_ _ _. Inr None),
     sa_StateMarketStorageDealProposal = (\<lambda>_ _. Inl (Ext ''no deal'')),
     sa_StateGetAllocation = (\<lambda>_ _ _. Inr (Some \<lparr>al_Provider = 7, al_Expiration = 10, al_Size = 1\<rparr>)),
     sa_GetSeed = (\<lambda>e _. Inr \<lparr>sd_Seed = [1], sd_Epoch = e\<rparr>)\<rparr>"

definition demo_ticketed :: sector_state where
  "demo_ticketed = (new_sector_state \<lparr>sid_Miner = 1, sid_Number = 2\<rparr> 8)\<lparr>ss_Ticket := Some \<lparr>tk_Ticket = [3], tk_Epoch = 900\<rparr>\<rparr>"

definition demo_direct :: sector_piece_v2 where
  "demo_direct = \<lparr>sp_Piece = \<lparr>ap_Size = 8, ap_PieceCID = ''p''\<rparr>, sp_DealInfo = Some \<lparr>di_DealID = 0, di_AllocationID = 5,
     di_PieceCID = ''p'', di_Offset = 0, di_Client = Undef, di_StartEpoch = 0, di_EndEpoch = 0, di_IsBuiltinMarket = False,
     di_IsCompatible = False\<rparr>\<rparr>"

lemmas demo_check_defs = demo_np_def demo_libs_def demo_sealing_def demo_ticketed_def new_sector_state_def SectorPiece_def

lemma demo_expiration: "sectorExpiration demo_np demo_sealing [(DefaultMinerConfig Undef False)\<lparr>mc_Actor := 1\<rparr>] demo_ticketed =
    Inr 1550440"
  by (simp add: sectorExpiration_def sectorEnd_def ccSectorLifetime_def MaxPreCommitRandomnessLookback_def SealRandomnessLookback_def
      GetPreCommitChallengeDelay_def Let_def demo_check_defs DefaultMinerConfig_def defaultMinerSectorConfig_def)

theorem sectorExpiration_bounds_witness: "(1550440 :: epoch) \<le> 1000 + GetPreCommitChallengeDelay demo_np + 5256000"
  using sectorExpiration_bounds [OF demo_expiration, of "[]" 1000 22 5256000] by (simp add: demo_check_defs)

theorem checkPrecommit_accepts_witness:
  "checkPrecommit demo_np demo_sealing demo_libs (IDAddress 1) demo_ticketed = Inr () \<and>
   checkPrecommit demo_np demo_sealing demo_libs (IDAddress 1) (demo_ticketed\<lparr>ss_Ticket := Some \<lparr>tk_Ticket = [3], tk_Epoch = -3000\<rparr>\<rparr>) \<noteq> Inr ()"
proof -
  have head: "sa_ChainHead demo_sealing = Inr ([], 1000)" by (simp add: demo_sealing_def)
  show ?thesis unfolding checkPrecommit_accepts [OF head]
    by (simp add: valid_up_to_direct_def HasData_def demo_check_defs MaxPreCommitRandomnessLookback_def SealRandomnessLookback_def)
qed

theorem failed_direct_deal_passes_witness:
  "checkPieces demo_sealing demo_libs (IDAddress 1) (demo_ticketed\<lparr>ss_Pieces := [demo_direct, demo_direct]\<rparr>) = Inr ()"
proof -
  have "\<exists>e. check_piece demo_sealing demo_libs (IDAddress 1) [] 1000 demo_direct = Inl e"
    by (simp add: check_piece_def checkDDOPiece_def demo_direct_def demo_check_defs bad_def)
  then obtain e where "check_piece demo_sealing demo_libs (IDAddress 1) [] 1000 demo_direct = Inl e" by blast
  from failed_direct_deal_passes [of demo_sealing "[]" 1000 "demo_ticketed\<lparr>ss_Pieces := [demo_direct, demo_direct]\<rparr>" "[]"
      demo_direct "[demo_direct]" demo_libs "IDAddress 1", OF _ _ _ _ _ this]
  show ?thesis by (simp add: demo_check_defs direct_def demo_direct_def)
qed

end
