(* ===== verification/Batcher.thy ===== *)
theory Batcher
  imports Manager_Config "HOL-Library.Multiset"
begin

text \<open>
  The batcher of the commitment manager (\<open>modules/impl/commitmgr/batcher.go\<close>) with the thresholds and
  expiry conditions of its three processors: one goroutine per miner that gathers sectors
  and hands them to a processor in batches. Every turn of its loop is one step: a signal arrives, and
  sectors may be handed over. Processing itself runs in goroutines of its own; the model keeps the
  lists they were started with.
\<close>

section \<open>The loop\<close>

text \<open>The signal that woke the loop. A tick carries what \<open>Expire\<close> answered: the identifiers that have
  expired (an error gives none, and is logged).\<close>

datatype signal = Force | Tick "sector_id set" | Arrive sector_state

record batcher =
  ba_pending :: "sector_state list"
  ba_started :: "sector_state list list"

text \<open>The split of the pending sectors on a tick: \<open>remain\<close> starts as \<open>pending[:0]\<close>, so appending to it writes the array that the loop is
  still reading, at an index \<open>w\<close> that is never ahead of the index \<open>i\<close> it reads. The expired sectors are copied.\<close>

function split_in_place :: "sector_id set \<Rightarrow> sector_state list \<Rightarrow> nat \<Rightarrow> nat \<Rightarrow> sector_state list \<Rightarrow> sector_state list \<times> sector_state list" where
  "split_in_place expired pending i w processList =
    (if i < length pending
     then if ss_ID (pending ! i) \<in> expired then split_in_place expired pending (Suc i) w (processList @ [pending ! i])
       else split_in_place expired (pending[w := pending ! i]) (Suc i) (Suc w) processList
     else (processList, take w pending))"
  by pat_completeness auto
termination by (relation "measure (\<lambda>(expired, pending, i, w, processList). length pending - i)") auto

definition split_expired :: "sector_id set \<Rightarrow> sector_state list \<Rightarrow> sector_state list \<times> sector_state list" where
  "split_expired expired pending = split_in_place expired pending 0 0 []"

definition select_batch :: "int \<Rightarrow> signal \<Rightarrow> sector_state list \<Rightarrow> sector_state list \<times> sector_state list" where
  "select_batch threshold sig pending =
    (if length pending > 0 then
       (if int (length pending) \<ge> threshold \<or> sig = Force then (pending, [])
        else case sig of
          Tick expired \<Rightarrow> if expired \<noteq> {} then split_expired expired pending else ([], pending)
        | _ \<Rightarrow> ([], pending))
     else ([], pending))"

definition batcher_step :: "int \<Rightarrow> signal \<Rightarrow> batcher \<Rightarrow> batcher" where
  "batcher_step threshold sig b =
    (let pending = (case sig of Arrive s \<Rightarrow> ba_pending b @ [s] | _ \<Rightarrow> ba_pending b);
         (processList, remain) = select_batch threshold sig pending
     in \<lparr>ba_pending = remain,
         ba_started = (if length processList > 0 then ba_started b @ [processList] else ba_started b)\<rparr>)"

definition NewBatcher :: batcher where
  "NewBatcher = \<lparr>ba_pending = [], ba_started = []\<rparr>"

text \<open>The run of the loop; the threshold is read from the configuration at every turn.\<close>

definition batcher_run :: "(int \<times> signal) list \<Rightarrow> batcher \<Rightarrow> batcher" where
  "batcher_run turns b = fold (\<lambda>(threshold, sig). batcher_step threshold sig) turns b"

section \<open>The processors' parameters\<close>

datatype stage = PreCommit | ProveCommit | Terminate

fun stage_policy :: "stage \<Rightarrow> miner_config \<Rightarrow> commitment_policy_config" where
  "stage_policy PreCommit m = cc_Pre (mc_Commitment m)"
| "stage_policy ProveCommit m = cc_Prove (mc_Commitment m)"
| "stage_policy Terminate m = cc_Terminate (mc_Commitment m)"

definition Threshold :: "stage \<Rightarrow> safe_config \<Rightarrow> u64 \<Rightarrow> int res" where
  "Threshold stg cfg mid = (case MustMinerConfig cfg mid of
     Inl e \<Rightarrow> Inl e | Inr m \<Rightarrow> Inr (bp_Threshold (cp_Batch (stage_policy stg m))))"

text \<open>The epoch from which a sector waits: of its ticket, its seed, or its termination request.\<close>

fun waiting_since :: "stage \<Rightarrow> sector_state \<Rightarrow> epoch res" where
  "waiting_since PreCommit s = (case ss_Ticket s of None \<Rightarrow> nil_deref | Some t \<Rightarrow> Inr (tk_Epoch t))"
| "waiting_since ProveCommit s = (case ss_Seed s of None \<Rightarrow> nil_deref | Some sd \<Rightarrow> Inr (sd_Epoch sd))"
| "waiting_since Terminate s = Inr (ti_AddedHeight (ss_TerminateInfo s))"

fun expire_loop :: "stage \<Rightarrow> epoch \<Rightarrow> epoch \<Rightarrow> sector_state list \<Rightarrow> sector_id set \<Rightarrow> sector_id set res" where
  "expire_loop stg h maxWaitHeight [] acc = Inr acc"
| "expire_loop stg h maxWaitHeight (s # ss) acc = (case waiting_since stg s of
     Inl e \<Rightarrow> Inl e
   | Inr since \<Rightarrow> expire_loop stg h maxWaitHeight ss (if h - since > maxWaitHeight then insert (ss_ID s) acc else acc))"

text \<open>\<open>maxWait / (builtin.EpochDurationSeconds * time.Second)\<close> truncates towards zero; the length of an
  epoch in seconds is a constant of the network.\<close>

definition Expire :: "int \<Rightarrow> stage \<Rightarrow> safe_config \<Rightarrow> epoch res \<Rightarrow> sector_state list \<Rightarrow> u64 \<Rightarrow> sector_id set res" where
  "Expire epochSeconds stg cfg head sectors mid = (case MustMinerConfig cfg mid of
     Inl e \<Rightarrow> Inl e
   | Inr m \<Rightarrow> (case head of
       Inl e \<Rightarrow> Inl e
     | Inr h \<Rightarrow> expire_loop stg h
         (let w = bp_MaxWait (cp_Batch (stage_policy stg m)); d = epochSeconds * 1000000000
          in sgn w * (\<bar>w\<bar> div d)) sectors {}))"

section \<open>Lemmas\<close>

declare split_in_place.simps [simp del]

text \<open>The writes do not disturb what is still to be read.\<close>

lemma split_in_place_filter:
  "w \<le> i \<Longrightarrow> i \<le> length ps \<Longrightarrow> split_in_place E ps i w acc =
    (acc @ filter (\<lambda>s. ss_ID s \<in> E) (drop i ps), take w ps @ filter (\<lambda>s. ss_ID s \<notin> E) (drop i ps))"
proof (induction E ps i w acc rule: split_in_place.induct)
  case (1 E ps i w acc)
  show ?case
  proof (cases "i < length ps")
    case True
    then have d: "drop i ps = ps ! i # drop (Suc i) ps" by (rule Cons_nth_drop_Suc [symmetric])
    have u: "drop (Suc i) (ps[w := ps ! i]) = drop (Suc i) ps" "take (Suc w) (ps[w := ps ! i]) = take w ps @ [ps ! i]"
      using 1(3) True by (simp_all add: take_Suc_conv_app_nth)
    show ?thesis
    proof (cases "ss_ID (ps ! i) \<in> E")
      case e: True
      with 1(1) [OF True e] 1(3) True d show ?thesis by (subst split_in_place.simps) simp
    next
      case e: False
      with 1(2) [OF True e] 1(3) True d u show ?thesis by (subst split_in_place.simps) simp
    qed
  qed (use 1(3,4) in \<open>simp add: split_in_place.simps\<close>)
qed

lemma split_expired_filter:
  "split_expired E ss = (filter (\<lambda>s. ss_ID s \<in> E) ss, filter (\<lambda>s. ss_ID s \<notin> E) ss)"
  by (simp add: split_expired_def split_in_place_filter)

lemma split_expired_mset: "split_expired E ss = (p, r) \<Longrightarrow> mset p + mset r = mset ss"
  by (auto simp: split_expired_filter)

lemma select_batch_mset: "select_batch n sig ps = (p, r) \<Longrightarrow> mset p + mset r = mset ps"
  by (auto simp: select_batch_def dest: split_expired_mset split: if_splits signal.splits)

definition held :: "batcher \<Rightarrow> sector_state multiset" where
  "held b = mset (ba_pending b) + mset (concat (ba_started b))"

fun arrivals :: "(int \<times> signal) list \<Rightarrow> sector_state list" where
  "arrivals [] = []"
| "arrivals ((n, Arrive s) # ts) = s # arrivals ts"
| "arrivals (_ # ts) = arrivals ts"

lemma held_step: "held (batcher_step n sig b) = held b + mset (arrivals [(n, sig)])"
proof -
  let ?ps = "case sig of Arrive s \<Rightarrow> ba_pending b @ [s] | _ \<Rightarrow> ba_pending b"
  obtain p r where sel: "select_batch n sig ?ps = (p, r)" by fastforce
  have "mset ?ps = mset (ba_pending b) + mset (arrivals [(n, sig)])" by (cases sig) auto
  with select_batch_mset [OF sel] sel show ?thesis
    by (auto simp: batcher_step_def held_def Let_def union_ac)
qed

lemma held_run: "held (batcher_run turns b) = held b + mset (arrivals turns)"
proof (induction turns arbitrary: b)
  case (Cons t turns)
  obtain n sig where t: "t = (n, sig)" by fastforce
  have "arrivals ((n, sig) # turns) = arrivals [(n, sig)] @ arrivals turns" by (cases sig) auto
  with Cons [of "batcher_step n sig b"] held_step [of n sig b] show ?case
    by (simp add: batcher_run_def t union_ac)
qed (simp add: batcher_run_def)

lemma batcher_run_snoc: "batcher_run (turns @ [(n, sig)]) b = batcher_step n sig (batcher_run turns b)"
  by (simp add: batcher_run_def)

lemma expire_loop_set:
  "expire_loop stg h w ss acc = Inr E \<Longrightarrow> E = acc \<union> {ss_ID s | s. s \<in> set ss \<and>
     (\<exists>since. waiting_since stg s = Inr since \<and> h - since > w)}"
proof (induction ss arbitrary: acc)
  case (Cons s ss)
  then obtain since where "waiting_since stg s = Inr since" by (auto split: sum.splits)
  with Cons.prems Cons.IH [of "if h - since > w then insert (ss_ID s) acc else acc"] show ?case
    by (auto split: if_splits)
qed auto

section \<open>Properties\<close>

text \<open>C22. The batcher neither loses nor duplicates a sector: after any run, the sectors that still wait and those
  handed to the processor are together exactly the sectors that were added, each as often as it was added.\<close>

theorem batcher_conserves:
  "mset (ba_pending (batcher_run turns NewBatcher)) + mset (concat (ba_started (batcher_run turns NewBatcher))) =
   mset (arrivals turns)"
  using held_run [of turns NewBatcher] by (simp add: held_def NewBatcher_def)

text \<open>No sector waits for good: after every turn fewer sectors wait than the threshold of that turn, after
  a forced turn none, and after a tick none of those that the processor reported as expired. No empty batch
  is started.\<close>

theorem batcher_bounded_wait:
  assumes "0 < threshold"
  shows "int (length (ba_pending (batcher_run (turns @ [(threshold, sig)]) NewBatcher))) < threshold \<and>
    (sig = Force \<longrightarrow> ba_pending (batcher_run (turns @ [(threshold, sig)]) NewBatcher) = []) \<and>
    (\<forall>E. sig = Tick E \<longrightarrow> ss_ID ` set (ba_pending (batcher_run (turns @ [(threshold, sig)]) NewBatcher)) \<inter> E = {}) \<and>
    [] \<notin> set (ba_started (batcher_run (turns @ [(threshold, sig)]) NewBatcher))"
proof -
  have started: "[] \<notin> set (ba_started (batcher_run ts NewBatcher))" for ts
  proof (induction ts rule: rev_induct)
    case (snoc t ts)
    obtain n s where "t = (n, s)" by fastforce
    with snoc show ?case by (auto simp: batcher_run_snoc batcher_step_def Let_def split: prod.splits)
  qed (simp add: batcher_run_def NewBatcher_def)
  obtain b where b: "batcher_run turns NewBatcher = b" by blast
  have fewer: "int (length (filter P xs)) < n" if "\<not> n \<le> int (length xs)" for P n and xs :: "sector_state list"
    using length_filter_le [of P xs] that by linarith
  have "int (length (ba_pending (batcher_step threshold sig b))) < threshold \<and>
    (sig = Force \<longrightarrow> ba_pending (batcher_step threshold sig b) = []) \<and>
    (\<forall>E. sig = Tick E \<longrightarrow> ss_ID ` set (ba_pending (batcher_step threshold sig b)) \<inter> E = {})"
    using assms
    by (cases sig) (auto simp: batcher_step_def select_batch_def split_expired_filter Let_def fewer)
  then show ?thesis using started [of "turns @ [(threshold, sig)]"] by (simp add: batcher_run_snoc b)
qed

theorem batcher_bounded_wait_witness:
  "ba_pending (batcher_run ([(2, Arrive (new_sector_state \<lparr>sid_Miner = 1, sid_Number = 2\<rparr> 8))] @ [(2, Force)]) NewBatcher) = []"
  using batcher_bounded_wait [of 2 "[(2, Arrive (new_sector_state \<lparr>sid_Miner = 1, sid_Number = 2\<rparr> 8))]" Force] by simp

end
