(* ===== verification/Commit_Manager.thy ===== *)
theory Commit_Manager
  imports State_Manager Commit_Checks Batcher
begin

text \<open>
  The commitment manager (\<open>modules/impl/commitmgr/commitmgr.go\<close>): the RPC handlers that take pre-commits,
  proofs and terminations from the workers, the handlers that report what became of their messages, the
  queues towards the batchers, the write-back after processing and the reload after a restart. The state is
  that of the sector state manager and the three queues; a value sent on a channel is appended to its
  queue. The messager and the sender selector are parameters.
\<close>

section \<open>State and parameters\<close>

record commit_state =
  cm_smgr :: state_mgr
  cm_prePending :: "sector_state list"
  cm_proPending :: "sector_state list"
  cm_terminatePending :: "sector_state list"

datatype exit_code = ExitOk | SysErrOutOfGas | SysErrInsufficientFunds | ErrInsufficientFunds | OtherExit int

record receipt =
  rc_ExitCode :: exit_code
  rc_String :: string

datatype message_state = OnChainMsg | NonceConflictMsg | FailedMsg | OtherMsg string

record message =
  msg_State :: message_state
  msg_Confidence :: int
  msg_Receipt :: "receipt option"
  msg_Height :: epoch

record sector_on_chain =
  so_SealProof :: seal_proof

record sector_location =
  lo_Deadline :: u64
  lo_Partition :: u64

text \<open>The chain's answers that only the termination handler asks for; a partition is its set of live
  sectors, an error stands for a bitfield that does not decode.\<close>

record commit_env =
  ce_cfg :: safe_config
  ce_select :: "u64 \<Rightarrow> commitment_policy_config \<Rightarrow> address res"
  ce_np :: net_policy
  ce_api :: sealing_api
  ce_lib :: commit_libs
  ce_verif :: "seal_verify_info \<Rightarrow> bool res"
  ce_message :: "string \<Rightarrow> message res"
  ce_SectorGetInfo :: "address \<Rightarrow> u64 \<Rightarrow> sector_on_chain option res"
  ce_SectorPartition :: "address \<Rightarrow> u64 \<Rightarrow> sector_location option res"
  ce_MinerPartitions :: "address \<Rightarrow> u64 \<Rightarrow> (u64 \<Rightarrow> bool res) list res"

definition sender :: "commit_env \<Rightarrow> stage \<Rightarrow> u64 \<Rightarrow> address res" where
  "sender env stg mid = (case MinerConfig (ce_cfg env) mid of
     Inl e \<Rightarrow> Inl (Wrap ''get miner config'' e)
   | Inr m \<Rightarrow> (case ce_select env mid (stage_policy stg m) of
       Inl e \<Rightarrow> Inl (Wrap ''select sender'' e) | Inr a \<Rightarrow> Inr a))"

definition respond :: "submit_result \<Rightarrow> string option \<Rightarrow> submit_resp res" where
  "respond r d = Inr \<lparr>sr_Res = r, sr_Desc = d\<rparr>"

definition poll :: "on_chain_state \<Rightarrow> string option \<Rightarrow> poll_resp res" where
  "poll st d = Inr \<lparr>pr_State = st, pr_Desc = d\<rparr>"

section \<open>Submissions\<close>

definition with_smgr :: "commit_state \<Rightarrow> state_mgr \<Rightarrow> commit_state" where
  "with_smgr s sm = s\<lparr>cm_smgr := sm\<rparr>"

text \<open>The text of an error, \<open>err.Error()\<close>.\<close>

fun err_text :: "err \<Rightarrow> string" where
  "err_text (Wrap m e) = m @ '': '' @ err_text e"
| "err_text (Errorf m) = m"
| "err_text (Ext m) = m"
| "err_text e = ''error''"

text \<open>A failed check as a Go error: a struct type around the error, or a plain one.\<close>

definition check_error :: "check_kind \<Rightarrow> err \<Rightarrow> err" where
  "check_error k e = (case k of GoPanic \<Rightarrow> e | PlainErr \<Rightarrow> e | ErrAPI \<Rightarrow> Typed ''ErrAPI'' e
     | ErrInvalidPiece \<Rightarrow> Typed ''ErrInvalidPiece'' e | ErrBadTicket \<Rightarrow> Typed ''ErrBadTicket'' e
     | ErrExpiredTicket \<Rightarrow> Typed ''ErrExpiredTicket'' e | _ \<Rightarrow> Typed ''check'' e)"

definition pre_changed :: "precommit_info \<Rightarrow> precommit_info \<Rightarrow> bool" where
  "pre_changed old new = (pc_CommD old \<noteq> pc_CommD new \<or> pc_CommR old \<noteq> pc_CommR new \<or>
     (tk_Epoch (pc_Ticket old) \<noteq> tk_Epoch (pc_Ticket new) \<or> tk_Ticket (pc_Ticket old) \<noteq> tk_Ticket (pc_Ticket new)))"

definition queue_pre :: "sector_id \<Rightarrow> sector_state \<Rightarrow> commit_state \<Rightarrow> submit_resp res \<times> commit_state" where
  "queue_pre sid sector s =
    (let sector1 = sector\<lparr>ss_MessageInfo := (ss_MessageInfo sector)\<lparr>mi_NeedSend := True, mi_PreCommitCid := None\<rparr>\<rparr> in
     case Update (ss_ID sector1) WorkerOnline [FPre (ss_Pre sector1), FMessageInfo (ss_MessageInfo sector1)] (cm_smgr s) of
       (Inl e, sm) \<Rightarrow> (Inl e, with_smgr s sm)
     | (Inr _, sm) \<Rightarrow> (respond SubmitAccepted None,
         (with_smgr s sm)\<lparr>cm_prePending := cm_prePending s @ [sector1]\<rparr>))"

text \<open>The opening that \<open>SubmitPreCommit\<close> and \<open>SubmitProof\<close> share: a sender is configured, the sector is loaded, its
  miner has an address.\<close>

definition open_sector :: "commit_env \<Rightarrow> stage \<Rightarrow> sector_id \<Rightarrow>
    (address \<Rightarrow> sector_state \<Rightarrow> (commit_state, submit_resp) step) \<Rightarrow> (commit_state, submit_resp) step" where
  "open_sector env stg sid handle s = (case sender env stg (sid_Miner sid) of
     Inl e \<Rightarrow> (Inl e, s)
   | Inr _ \<Rightarrow> (case Load sid WorkerOnline (cm_smgr s) of
       (Inl e, sm) \<Rightarrow> (Inl e, with_smgr s sm)
     | (Inr sector, sm) \<Rightarrow> (case cl_NewIDAddress (ce_lib env) (sid_Miner sid) of
         Inl e \<Rightarrow> (respond SubmitRejected (Some (err_text e)), with_smgr s sm)
       | Inr maddr \<Rightarrow> handle maddr sector (with_smgr s sm))))"

definition take_precommit :: "commit_env \<Rightarrow> sector_id \<Rightarrow> precommit_info \<Rightarrow> bool \<Rightarrow> address \<Rightarrow> sector_state \<Rightarrow>
    (commit_state, submit_resp) step" where
  "take_precommit env sid info hardReset maddr sector s = (case (ss_Pre sector, hardReset) of
     (Some pre, False) \<Rightarrow>
       (respond (if pre_changed pre info then SubmitMismatchedSubmission else SubmitAccepted) None, s)
   | _ \<Rightarrow> (let sector1 = sector\<lparr>ss_Pre := Some info\<rparr> in
       case checkPrecommit (ce_np env) (ce_api env) (ce_lib env) maddr sector1 of
         Inl (k, e) \<Rightarrow>
           ((case k of
               GoPanic \<Rightarrow> Inl e
             | ErrAPI \<Rightarrow> Inl (check_error k e)
             | ErrPrecommitOnChain \<Rightarrow> respond SubmitAccepted None
             | ErrBadCommD \<Rightarrow> respond SubmitMismatchedSubmission (Some (err_text e))
             | _ \<Rightarrow> respond SubmitRejected (Some (err_text e))), s)
       | Inr _ \<Rightarrow> queue_pre sid sector1 s))"

definition SubmitPreCommit :: "commit_env \<Rightarrow> sector_id \<Rightarrow> precommit_info \<Rightarrow> bool \<Rightarrow> (commit_state, submit_resp) step" where
  "SubmitPreCommit env sid info hardReset = open_sector env PreCommit sid (take_precommit env sid info hardReset)"

definition errMsgPreCommitInfoNotFound :: string where
  "errMsgPreCommitInfoNotFound = ''pre-commit info not found on chain''"

definition queue_pro :: "sector_id \<Rightarrow> sector_state \<Rightarrow> commit_state \<Rightarrow> submit_resp res \<times> commit_state" where
  "queue_pro sid sector s =
    (let sector1 = sector\<lparr>ss_MessageInfo := (ss_MessageInfo sector)\<lparr>mi_NeedSend := True, mi_CommitCid := None\<rparr>\<rparr> in
     case Update sid WorkerOnline [FProof (ss_Proof sector1), FMessageInfo (ss_MessageInfo sector1)] (cm_smgr s) of
       (Inl e, sm) \<Rightarrow> (Inl e, with_smgr s sm)
     | (Inr _, sm) \<Rightarrow> (respond SubmitAccepted None,
         (with_smgr s sm)\<lparr>cm_proPending := cm_proPending s @ [sector1]\<rparr>))"

definition take_proof :: "commit_env \<Rightarrow> sector_id \<Rightarrow> proof_info \<Rightarrow> bool \<Rightarrow> address \<Rightarrow> sector_state \<Rightarrow>
    (commit_state, submit_resp) step" where
  "take_proof env sid info hardReset maddr sector s =
    (if ss_Pre sector = None then (respond SubmitRejected (Some errMsgPreCommitInfoNotFound), s)
     else case (ss_Proof sector, hardReset) of
       (Some old, False) \<Rightarrow>
         (respond (if pf_Proof old \<noteq> pf_Proof info then SubmitMismatchedSubmission else SubmitAccepted) None, s)
     | _ \<Rightarrow> (let sector1 = sector\<lparr>ss_Proof := Some info\<rparr> in
         case checkCommit (ce_np env) (ce_api env) (ce_lib env) (ce_verif env) sector1 (pf_Proof info) maddr of
           Inl (k, e) \<Rightarrow>
             ((if k \<in> {ErrInvalidDeals, ErrExpiredDeals, ErrNoPrecommit, ErrSectorNumberAllocated, ErrBadSeed,
                   ErrInvalidProof, ErrMarshalAddr}
               then respond SubmitRejected (Some (err_text e)) else Inl (check_error k e)), s)
         | Inr _ \<Rightarrow> queue_pro sid sector1 s))"

definition SubmitProof :: "commit_env \<Rightarrow> sector_id \<Rightarrow> proof_info \<Rightarrow> bool \<Rightarrow> (commit_state, submit_resp) step" where
  "SubmitProof env sid info hardReset = open_sector env ProveCommit sid (take_proof env sid info hardReset)"

section \<open>What became of a message\<close>

definition errMsgReceiptNotFound :: string where
  "errMsgReceiptNotFound = ''receipt not found for on-chain message''"

definition errMsgPublishAttemptFailed :: string where
  "errMsgPublishAttemptFailed = ''attempt to publish message but failed''"

definition errMsgSectorAllocated :: string where
  "errMsgSectorAllocated = ''sector already allocated''"

definition errMsgSectorInfoNotFound :: string where
  "errMsgSectorInfoNotFound = ''sector info not found on chain''"

definition handleMessage :: "commit_env \<Rightarrow> u64 \<Rightarrow> message \<Rightarrow> (on_chain_state \<times> string option) res" where
  "handleMessage env mid msg =
    (let maybeMsg = map_option rc_String (msg_Receipt msg) in
     if msg_State msg \<in> {OnChainMsg, NonceConflictMsg} then
       (case MustMinerConfig (ce_cfg env) mid of
          Inl e \<Rightarrow> Inl e
        | Inr m \<Rightarrow>
            if msg_Confidence msg < cc_Confidence (mc_Commitment m) then Inr (OnChainStatePacked, maybeMsg)
            else (case msg_Receipt msg of
              None \<Rightarrow> Inr (OnChainStateFailed, Some errMsgReceiptNotFound)
            | Some r \<Rightarrow> (case rc_ExitCode r of
                ExitOk \<Rightarrow> Inr (OnChainStateLanded, maybeMsg)
              | SysErrOutOfGas \<Rightarrow> Inr (OnChainStateFailed, maybeMsg)
              | SysErrInsufficientFunds \<Rightarrow> Inr (OnChainStateFailed, maybeMsg)
              | ErrInsufficientFunds \<Rightarrow> Inr (OnChainStateFailed, maybeMsg)
              | OtherExit _ \<Rightarrow> Inr (OnChainStatePermFailed, maybeMsg))))
     else if msg_State msg = FailedMsg then Inr (OnChainStateFailed, maybeMsg)
     else Inr (OnChainStatePending, maybeMsg))"

text \<open>The part common to the two polling handlers: no identifier yet, or the state of the message.\<close>

definition poll_message :: "commit_env \<Rightarrow> u64 \<Rightarrow> cid option \<Rightarrow> bool \<Rightarrow>
    (string option \<Rightarrow> poll_resp res) \<Rightarrow> poll_resp res" where
  "poll_message env mid c needSend landed = (case c of
     None \<Rightarrow> if needSend then poll OnChainStatePending None
       else poll OnChainStateFailed (Some errMsgPublishAttemptFailed)
   | Some uid \<Rightarrow> (case ce_message env uid of
       Inl e \<Rightarrow> Inl e
     | Inr msg \<Rightarrow> (case handleMessage env mid msg of
         Inl e \<Rightarrow> Inl e
       | Inr (st, maybe) \<Rightarrow> if st = OnChainStateLanded then landed maybe else poll st maybe)))"

definition PreCommitState :: "commit_env \<Rightarrow> sector_id \<Rightarrow> (commit_state, poll_resp) step" where
  "PreCommitState env sid s = (case cl_NewIDAddress (ce_lib env) (sid_Miner sid) of
     Inl e \<Rightarrow> (Inl e, s)
   | Inr maddr \<Rightarrow> (case Load sid WorkerOnline (cm_smgr s) of
       (Inl e, sm) \<Rightarrow> (Inl e, with_smgr s sm)
     | (Inr sector, sm) \<Rightarrow>
        (poll_message env (sid_Miner sid) (mi_PreCommitCid (ss_MessageInfo sector)) (mi_NeedSend (ss_MessageInfo sector))
          (\<lambda>maybe. case sa_StateSectorPreCommitInfo (ce_api env) maddr (sid_Number sid) None of
             Inl e \<Rightarrow> if e = ErrSectorAllocated then poll OnChainStateShouldAbort (Some errMsgSectorAllocated) else Inl e
           | Inr None \<Rightarrow> poll OnChainStateShouldAbort (Some errMsgPreCommitInfoNotFound)
           | Inr (Some _) \<Rightarrow> poll OnChainStateLanded maybe), with_smgr s sm)))"

definition ProofState :: "commit_env \<Rightarrow> sector_id \<Rightarrow> (commit_state, poll_resp) step" where
  "ProofState env sid s = (case cl_NewIDAddress (ce_lib env) (sid_Miner sid) of
     Inl e \<Rightarrow> (Inl e, s)
   | Inr maddr \<Rightarrow> (case Load sid WorkerOnline (cm_smgr s) of
       (Inl e, sm) \<Rightarrow> (Inl e, with_smgr s sm)
     | (Inr sector, sm) \<Rightarrow>
        (poll_message env (sid_Miner sid) (mi_CommitCid (ss_MessageInfo sector)) (mi_NeedSend (ss_MessageInfo sector))
          (\<lambda>maybe. case ce_SectorGetInfo env maddr (sid_Number sid) of
             Inl e \<Rightarrow> Inl e
           | Inr None \<Rightarrow> poll OnChainStateShouldAbort (Some errMsgSectorInfoNotFound)
           | Inr (Some _) \<Rightarrow> poll OnChainStateLanded maybe), with_smgr s sm)))"

section \<open>Terminations\<close>

definition termination_of :: "epoch \<Rightarrow> terminate_info" where
  "termination_of height = \<lparr>ti_TerminateCid = None, ti_TerminatedAt = 0, ti_AddedHeight = height\<rparr>"

text \<open>Whether the sector is live on chain.\<close>

definition check_live :: "commit_env \<Rightarrow> address \<Rightarrow> u64 \<Rightarrow> unit res" where
  "check_live env maddr number = (case ce_SectorPartition env maddr number of
     Inl e \<Rightarrow> Inl (Wrap ''getting location'' e)
   | Inr None \<Rightarrow> Inl (Errorf ''location not found'')
   | Inr (Some loc) \<Rightarrow> (case ce_MinerPartitions env maddr (lo_Deadline loc) of
       Inl e \<Rightarrow> Inl (Wrap ''getting partitions'' e)
     | Inr parts \<Rightarrow>
         if unat (lo_Partition loc) \<ge> length parts then Inl (Panic ''index out of range'')
         else (case (parts ! unat (lo_Partition loc)) number of
           Inl e \<Rightarrow> Inl (Wrap ''checking if sector is in live set'' e)
         | Inr live \<Rightarrow> if live then Inr () else Inl (Errorf ''already terminated''))))"

definition check_committed :: "commit_env \<Rightarrow> address \<Rightarrow> u64 \<Rightarrow> sector_on_chain res" where
  "check_committed env maddr number = (case ce_SectorGetInfo env maddr number of
     Inl e \<Rightarrow> Inl e
   | Inr (Some si) \<Rightarrow> Inr si
   | Inr None \<Rightarrow> (case sa_StateSectorPreCommitInfo (ce_api env) maddr number None of
       Inl e \<Rightarrow> Inl (Wrap ''checking precommit presence'' e)
     | Inr (Some _) \<Rightarrow> Inl (Errorf ''sector was precommitted but not proven, remove instead of terminating'')
     | Inr None \<Rightarrow> Inl (Errorf ''already terminated'')))"

definition queue_terminate :: "epoch \<Rightarrow> sector_state \<Rightarrow> commit_state \<Rightarrow> submit_resp res \<times> commit_state" where
  "queue_terminate height sector s = (respond SubmitAccepted None,
     s\<lparr>cm_terminatePending := cm_terminatePending s @ [sector\<lparr>ss_TerminateInfo := termination_of height\<rparr>]\<rparr>)"

definition record_termination :: "epoch \<Rightarrow> sector_id \<Rightarrow> seal_proof \<Rightarrow> (commit_state, submit_resp) step" where
  "record_termination height sid sealProof s = (case Load sid WorkerOffline (cm_smgr s) of
     (Inl e, sm) \<Rightarrow>
       if \<not> errors_is e ErrKeyNotFound then (Inl e, with_smgr s sm)
       else (case InitWith [\<lparr>as_ID = sid, as_ProofType = sealProof\<rparr>] WorkerOffline
               [FTerminateInfo (termination_of height)] sm of
           (Inl _, sm1) \<Rightarrow> (Inl (Wrap ''init non-exist snapup sector'' e), with_smgr s sm1)
         | (Inr _, sm1) \<Rightarrow> queue_terminate height (new_sector_state sid sealProof) (with_smgr s sm1))
   | (Inr loaded, sm) \<Rightarrow>
       if ti_AddedHeight (ss_TerminateInfo loaded) > 0
       then (respond SubmitDuplicateSubmit (Some ''duplicate submit''), with_smgr s sm)
       else (case Update sid WorkerOffline [FTerminateInfo (termination_of height)] sm of
           (Inl e, sm1) \<Rightarrow> (Inl e, with_smgr s sm1)
         | (Inr _, sm1) \<Rightarrow> queue_terminate height loaded (with_smgr s sm1)))"

definition SubmitTerminate :: "commit_env \<Rightarrow> sector_id \<Rightarrow> (commit_state, submit_resp) step" where
  "SubmitTerminate env sid s = (case sa_ChainHead (ce_api env) of
     Inl e \<Rightarrow> (Inl e, s)
   | Inr (_, height) \<Rightarrow> (case sender env Terminate (sid_Miner sid) of
       Inl e \<Rightarrow> (Inl e, s)
     | Inr _ \<Rightarrow> (case cl_NewIDAddress (ce_lib env) (sid_Miner sid) of
         Inl e \<Rightarrow> (respond SubmitRejected (Some (err_text e)), s)
       | Inr maddr \<Rightarrow> (case check_committed env maddr (sid_Number sid) of
           Inl e \<Rightarrow> (Inl e, s)
         | Inr si \<Rightarrow> (case check_live env maddr (sid_Number sid) of
             Inl e \<Rightarrow> (Inl e, s)
           | Inr _ \<Rightarrow> record_termination height sid (so_SealProof si) s)))))"

definition TerminateState :: "sector_id \<Rightarrow> (commit_state, terminate_info) step" where
  "TerminateState sid s = (case Load sid WorkerOffline (cm_smgr s) of
     (Inl e, sm) \<Rightarrow> (Inl e, with_smgr s sm)
   | (Inr sector, sm) \<Rightarrow> (Inr (ss_TerminateInfo sector), with_smgr s sm))"

text \<open>One round of \<open>pollTerminateState\<close>; the answer says whether the poll goes on.\<close>

definition pollTerminateState :: "commit_env \<Rightarrow> sector_id \<Rightarrow> commit_state \<Rightarrow> bool res \<times> commit_state" where
  "pollTerminateState env sid s = (case Load sid WorkerOffline (cm_smgr s) of
     (Inl e, sm) \<Rightarrow> (Inr False, with_smgr s sm)
   | (Inr sector, sm) \<Rightarrow> (case ti_TerminateCid (ss_TerminateInfo sector) of
       None \<Rightarrow> (Inr True, with_smgr s sm)
     | Some c \<Rightarrow> (case ce_message env c of
         Inl e \<Rightarrow> (Inr False, with_smgr s sm)
       | Inr msg \<Rightarrow> (case handleMessage env (sid_Miner (ss_ID sector)) msg of
           Inl e \<Rightarrow> (Inl e, with_smgr s sm)
         | Inr (st, _) \<Rightarrow>
             if st = OnChainStateLanded then
               (Inr False, with_smgr s (snd (Update (ss_ID sector) WorkerOffline
                 [FTerminateInfo ((ss_TerminateInfo sector)\<lparr>ti_TerminatedAt := msg_Height msg\<rparr>)] sm)))
             else if st = OnChainStateFailed then
               (Inr False, with_smgr s (snd (Update (ss_ID sector) WorkerOffline
                 [FTerminateInfo ((ss_TerminateInfo sector)\<lparr>ti_AddedHeight := 0\<rparr>)] sm)))
             else (Inr True, with_smgr s sm)))))"

section \<open>After processing, after a restart\<close>

text \<open>\<open>updateSector\<close>, deferred by the processors: the message information of every sector of the batch is
  written back, no longer to be sent; a failed write is logged. \<open>sent\<close> puts the identifier of the message
  into the sectors that went into it.\<close>

fun updateSector :: "sector_state list \<Rightarrow> state_mgr \<Rightarrow> state_mgr" where
  "updateSector [] sm = sm"
| "updateSector (sector # sectors) sm = updateSector sectors
     (snd (Update (ss_ID sector) WorkerOnline
       [FMessageInfo ((ss_MessageInfo sector)\<lparr>mi_NeedSend := False\<rparr>)] sm))"

definition restart_sealing :: "sector_state list \<Rightarrow> commit_state \<Rightarrow> commit_state" where
  "restart_sealing sectors s = fold (\<lambda>sector s. if PendingForSealingCommitment sector then
       (if mi_PreCommitCid (ss_MessageInfo sector) = None
        then s\<lparr>cm_prePending := cm_prePending s @ [sector]\<rparr>
        else s\<lparr>cm_proPending := cm_proPending s @ [sector]\<rparr>)
     else s) sectors s"

definition restart_termination :: "sector_state list \<Rightarrow> commit_state \<Rightarrow> commit_state" where
  "restart_termination sectors s = fold (\<lambda>sector s. if PendingForTerminateCommitment sector then
       (if ti_TerminateCid (ss_TerminateInfo sector) \<noteq> None then s
        else s\<lparr>cm_terminatePending := cm_terminatePending s @ [sector]\<rparr>)
     else s) sectors s"

definition restartSector :: "commit_state \<Rightarrow> commit_state" where
  "restartSector s = (case All WorkerOnline JobSealing (cm_smgr s) of
     (Inl e, sm) \<Rightarrow> with_smgr s sm
   | (Inr sectors, sm) \<Rightarrow> (let s1 = restart_sealing sectors (with_smgr s sm) in
       case All WorkerOffline JobAll (cm_smgr s1) of
         (Inl e, sm1) \<Rightarrow> with_smgr s1 sm1
       | (Inr offline, sm1) \<Rightarrow> restart_termination offline (with_smgr s1 sm1)))"

text \<open>A round of \<open>startPreLoop\<close>, \<open>startProLoop\<close> and \<open>startTerminateLoop\<close>: the next queued sector goes to the batcher
  of its miner, which is made when it is the miner's first; a sector is dropped when its miner has no
  sender then. A turn of a batcher follows.\<close>

type_synonym batchers = "u64 \<rightharpoonup> batcher"

definition route :: "commit_env \<Rightarrow> stage \<Rightarrow> int \<Rightarrow> sector_state \<Rightarrow> batchers \<Rightarrow> batchers" where
  "route env stg threshold sector bs = (let miner = sid_Miner (ss_ID sector) in
     case bs miner of
       Some b \<Rightarrow> bs(miner \<mapsto> batcher_step threshold (Arrive sector) b)
     | None \<Rightarrow>
         if stg \<noteq> Terminate \<and> isl (cl_NewIDAddress (ce_lib env) miner) then bs
         else (case sender env stg miner of
           Inl e \<Rightarrow> bs
         | Inr _ \<Rightarrow> bs(miner \<mapsto> batcher_step threshold (Arrive sector) NewBatcher)))"

section \<open>Lemmas\<close>

lemma LoadD:
  assumes "Load sid ws sm = (r, sm1)"
  shows "view sm1 = view sm" "r = Inr st \<Longrightarrow> view sm ws sid = Some (Json st)"
    "r = Inl e \<Longrightarrow> errors_is e ErrKeyNotFound \<Longrightarrow> view sm ws sid = None"
  using loadInnerD [of sid ws sm r sm1] assms by (auto simp: Load_def)

abbreviation stored :: "commit_state \<Rightarrow> sector_view" where
  "stored s \<equiv> view (cm_smgr s)"

definition queues :: "commit_state \<Rightarrow> sector_state list \<times> sector_state list \<times> sector_state list" where
  "queues s = (cm_prePending s, cm_proPending s, cm_terminatePending s)"

lemma with_smgr_simps [simp]: "cm_smgr (with_smgr s sm) = sm" "queues (with_smgr s sm) = queues s"
  "cm_prePending (with_smgr s sm) = cm_prePending s" "cm_proPending (with_smgr s sm) = cm_proPending s"
  "cm_terminatePending (with_smgr s sm) = cm_terminatePending s"
  by (simp_all add: with_smgr_def queues_def)

text \<open>A call that leaves documents and queues as they are.\<close>

definition same :: "commit_state \<Rightarrow> commit_state \<Rightarrow> bool" where
  "same s s1 = (stored s1 = stored s \<and> queues s1 = queues s)"

lemma same_refl [simp]: "same s s" by (simp add: same_def)

definition pre_accepted :: "precommit_info \<Rightarrow> sector_state \<Rightarrow> sector_state" where
  "pre_accepted info st = st\<lparr>ss_Pre := Some info,
     ss_MessageInfo := (ss_MessageInfo st)\<lparr>mi_NeedSend := True, mi_PreCommitCid := None\<rparr>\<rparr>"

definition proof_accepted :: "proof_info \<Rightarrow> sector_state \<Rightarrow> sector_state" where
  "proof_accepted info st = st\<lparr>ss_Proof := Some info,
     ss_MessageInfo := (ss_MessageInfo st)\<lparr>mi_NeedSend := True, mi_CommitCid := None\<rparr>\<rparr>"

lemma queue_preD:
  assumes "queue_pre sid (st\<lparr>ss_Pre := Some info\<rparr>) s = (r, s1)" "stored s WorkerOnline sid = Some (Json st)" "ss_ID st = sid"
  shows "(\<exists>e. r = Inl e) \<and> same s s1 \<or>
    r = respond SubmitAccepted None \<and> stored s1 = view_put WorkerOnline sid (pre_accepted info st) (stored s) \<and>
    queues s1 = (cm_prePending s @ [pre_accepted info st], cm_proPending s, cm_terminatePending s)"
proof -
  let ?m = "(ss_MessageInfo st)\<lparr>mi_NeedSend := True, mi_PreCommitCid := None\<rparr>"
  obtain q sm where u: "Update sid WorkerOnline [FPre (Some info), FMessageInfo ?m] (cm_smgr s) = (q, sm)" by fastforce
  from UpdateD [OF u] assms(1,2,3) u show ?thesis
    by (auto simp: queue_pre_def Let_def same_def queues_def pre_accepted_def)
qed

lemma queue_proD:
  assumes "queue_pro sid (st\<lparr>ss_Proof := Some info\<rparr>) s = (r, s1)" "stored s WorkerOnline sid = Some (Json st)"
  shows "(\<exists>e. r = Inl e) \<and> same s s1 \<or>
    r = respond SubmitAccepted None \<and> stored s1 = view_put WorkerOnline sid (proof_accepted info st) (stored s) \<and>
    queues s1 = (cm_prePending s, cm_proPending s @ [proof_accepted info st], cm_terminatePending s)"
proof -
  let ?m = "(ss_MessageInfo st)\<lparr>mi_NeedSend := True, mi_CommitCid := None\<rparr>"
  obtain q sm where u: "Update sid WorkerOnline [FProof (Some info), FMessageInfo ?m] (cm_smgr s) = (q, sm)" by fastforce
  from UpdateD [OF u] assms u show ?thesis
    by (auto simp: queue_pro_def Let_def same_def queues_def proof_accepted_def)
qed

lemma open_sectorD:
  assumes "open_sector env stg sid handle s = (r, s1)" "stored s WorkerOnline sid = Some (Json st)"
  shows "r \<noteq> respond SubmitAccepted None \<and> same s s1 \<or> (\<exists>maddr t. same s t \<and> handle maddr st t = (r, s1))"
proof -
  obtain q sm where l: "Load sid WorkerOnline (cm_smgr s) = (q, sm)" by fastforce
  note v = LoadD(1) [OF l] LoadD(2) [OF l]
  have "same s (with_smgr s sm)" using v(1) by (simp add: same_def)
  then show ?thesis using assms l v(2)
    by (auto simp: open_sector_def respond_def split: sum.splits)
qed

lemma same_stored: "same s t \<Longrightarrow> stored t = stored s" "same s t \<Longrightarrow> queues t = queues s"
  "same s t \<Longrightarrow> same t u \<Longrightarrow> same s u"
  by (simp_all add: same_def)

lemma take_precommitD:
  assumes "take_precommit env sid info hardReset maddr st s = (r, s1)" "stored s WorkerOnline sid = Some (Json st)" "ss_ID st = sid"
  shows "same s s1 \<and>
      (r = respond SubmitAccepted None \<longrightarrow>
         (\<exists>pre. ss_Pre st = Some pre \<and> \<not> hardReset \<and> \<not> pre_changed pre info) \<or>
         (\<exists>e. checkPrecommit (ce_np env) (ce_api env) (ce_lib env) maddr (st\<lparr>ss_Pre := Some info\<rparr>) =
            Inl (ErrPrecommitOnChain, e))) \<or>
    (ss_Pre st = None \<or> hardReset) \<and> r = respond SubmitAccepted None \<and>
    checkPrecommit (ce_np env) (ce_api env) (ce_lib env) maddr (st\<lparr>ss_Pre := Some info\<rparr>) = Inr () \<and>
    stored s1 = view_put WorkerOnline sid (pre_accepted info st) (stored s) \<and>
    queues s1 = (cm_prePending s @ [pre_accepted info st], cm_proPending s, cm_terminatePending s)"
proof (cases "ss_Pre st \<noteq> None \<and> \<not> hardReset")
  case True
  with assms(1) show ?thesis by (auto simp: take_precommit_def respond_def split: if_splits)
next
  case False
  let ?c = "checkPrecommit (ce_np env) (ce_api env) (ce_lib env) maddr (st\<lparr>ss_Pre := Some info\<rparr>)"
  show ?thesis
  proof (cases ?c)
    case (Inl ke)
    obtain k e where ke: "ke = (k, e)" by fastforce
    from False Inl ke assms(1) show ?thesis
      by (cases "ss_Pre st"; cases hardReset; cases k) (auto simp: take_precommit_def Let_def respond_def)
  next
    case (Inr u)
    with False assms(1) have "queue_pre sid (st\<lparr>ss_Pre := Some info\<rparr>) s = (r, s1)"
      by (cases "ss_Pre st"; cases hardReset) (simp_all add: take_precommit_def Let_def)
    from queue_preD [OF this assms(2,3)] Inr False show ?thesis by (auto simp: respond_def)
  qed
qed

lemma take_proofD:
  assumes "take_proof env sid info hardReset maddr st s = (r, s1)" "stored s WorkerOnline sid = Some (Json st)"
  shows "same s s1 \<and>
      (r = respond SubmitAccepted None \<longrightarrow> (\<exists>old. ss_Proof st = Some old \<and> \<not> hardReset \<and> pf_Proof old = pf_Proof info)) \<or>
    ss_Pre st \<noteq> None \<and> (ss_Proof st = None \<or> hardReset) \<and> r = respond SubmitAccepted None \<and>
    checkCommit (ce_np env) (ce_api env) (ce_lib env) (ce_verif env) (st\<lparr>ss_Proof := Some info\<rparr>) (pf_Proof info) maddr = Inr () \<and>
    stored s1 = view_put WorkerOnline sid (proof_accepted info st) (stored s) \<and>
    queues s1 = (cm_prePending s, cm_proPending s @ [proof_accepted info st], cm_terminatePending s)"
proof (cases "ss_Pre st = None \<or> ss_Proof st \<noteq> None \<and> \<not> hardReset")
  case True
  with assms(1) show ?thesis by (auto simp: take_proof_def respond_def split: if_splits)
next
  case False
  let ?c = "checkCommit (ce_np env) (ce_api env) (ce_lib env) (ce_verif env) (st\<lparr>ss_Proof := Some info\<rparr>) (pf_Proof info) maddr"
  show ?thesis
  proof (cases ?c)
    case (Inl ke)
    obtain k e where ke: "ke = (k, e)" by fastforce
    from False Inl ke assms(1) show ?thesis
      by (cases "ss_Proof st"; cases hardReset) (auto simp: take_proof_def Let_def respond_def split: if_splits)
  next
    case (Inr u)
    with False assms(1) have "queue_pro sid (st\<lparr>ss_Proof := Some info\<rparr>) s = (r, s1)"
      by (cases "ss_Proof st"; cases hardReset) (auto simp: take_proof_def Let_def)
    from queue_proD [OF this assms(2)] Inr False show ?thesis by (auto simp: respond_def)
  qed
qed

lemma SubmitPreCommitD:
  assumes "SubmitPreCommit env sid info hardReset s = (r, s1)" "stored s WorkerOnline sid = Some (Json st)" "ss_ID st = sid"
  shows "same s s1 \<and>
      (r = respond SubmitAccepted None \<longrightarrow>
         (\<exists>pre. ss_Pre st = Some pre \<and> \<not> hardReset \<and> \<not> pre_changed pre info) \<or>
         (\<exists>maddr e. checkPrecommit (ce_np env) (ce_api env) (ce_lib env) maddr (st\<lparr>ss_Pre := Some info\<rparr>) =
            Inl (ErrPrecommitOnChain, e))) \<or>
    (ss_Pre st = None \<or> hardReset) \<and> r = respond SubmitAccepted None \<and>
    (\<exists>maddr. checkPrecommit (ce_np env) (ce_api env) (ce_lib env) maddr (st\<lparr>ss_Pre := Some info\<rparr>) = Inr ()) \<and>
    stored s1 = view_put WorkerOnline sid (pre_accepted info st) (stored s) \<and>
    queues s1 = (cm_prePending s @ [pre_accepted info st], cm_proPending s, cm_terminatePending s)"
  using open_sectorD [OF assms(1) [unfolded SubmitPreCommit_def] assms(2)]
proof (elim disjE exE conjE)
  fix maddr t
  assume t: "same s t" "take_precommit env sid info hardReset maddr st t = (r, s1)"
  have "stored t WorkerOnline sid = Some (Json st)" using same_stored(1) [OF t(1)] assms(2) by simp
  from take_precommitD [OF t(2) this assms(3)] t(1) show ?thesis
    unfolding same_def queues_def by auto
qed auto

lemma restart_sealing_queues:
  "queues (restart_sealing sectors s) =
    (cm_prePending s @ filter (\<lambda>x. PendingForSealingCommitment x \<and> mi_PreCommitCid (ss_MessageInfo x) = None) sectors,
     cm_proPending s @ filter (\<lambda>x. PendingForSealingCommitment x \<and> mi_PreCommitCid (ss_MessageInfo x) \<noteq> None) sectors,
     cm_terminatePending s)"
  "cm_smgr (restart_sealing sectors s) = cm_smgr s"
  by (induction sectors arbitrary: s) (auto simp: restart_sealing_def queues_def)

lemma restart_termination_queues:
  "queues (restart_termination sectors s) = (cm_prePending s, cm_proPending s,
     cm_terminatePending s @ filter (\<lambda>x. PendingForTerminateCommitment x \<and> ti_TerminateCid (ss_TerminateInfo x) = None) sectors)"
  by (induction sectors arbitrary: s) (auto simp: restart_termination_def queues_def)

definition crashed :: "commit_state \<Rightarrow> commit_state" where
  "crashed s = s\<lparr>cm_prePending := [], cm_proPending := [], cm_terminatePending := []\<rparr>"

lemma restart_queues:
  assumes "All WorkerOnline JobSealing (cm_smgr s) = (Inr sectors, sm)"
  shows "cm_prePending (restartSector (crashed s)) =
      filter (\<lambda>x. PendingForSealingCommitment x \<and> mi_PreCommitCid (ss_MessageInfo x) = None) sectors"
    "cm_proPending (restartSector (crashed s)) =
      filter (\<lambda>x. PendingForSealingCommitment x \<and> mi_PreCommitCid (ss_MessageInfo x) \<noteq> None) sectors"
proof -
  let ?s = "with_smgr (crashed s) sm"
  let ?s1 = "restart_sealing sectors ?s"
  have q: "cm_prePending ?s1 = filter (\<lambda>x. PendingForSealingCommitment x \<and> mi_PreCommitCid (ss_MessageInfo x) = None) sectors"
    "cm_proPending ?s1 = filter (\<lambda>x. PendingForSealingCommitment x \<and> mi_PreCommitCid (ss_MessageInfo x) \<noteq> None) sectors"
    using restart_sealing_queues(1) [of sectors ?s] by (simp_all add: queues_def crashed_def)
  have t: "cm_prePending (restart_termination xs u) = cm_prePending u" "cm_proPending (restart_termination xs u) = cm_proPending u"
    for xs u using restart_termination_queues [of xs u] by (simp_all add: queues_def)
  have c: "cm_smgr (crashed s) = cm_smgr s" by (simp add: crashed_def)
  show "cm_prePending (restartSector (crashed s)) =
      filter (\<lambda>x. PendingForSealingCommitment x \<and> mi_PreCommitCid (ss_MessageInfo x) = None) sectors"
    "cm_proPending (restartSector (crashed s)) =
      filter (\<lambda>x. PendingForSealingCommitment x \<and> mi_PreCommitCid (ss_MessageInfo x) \<noteq> None) sectors"
    using q t by (auto simp: restartSector_def Let_def c assms split: prod.splits sum.splits)
qed

lemma All_view:
  assumes "All ws job sm = (Inr sts, sm1)" "view sm ws sid = Some (Json st)" "MatchWorkerJob st job"
  shows "st \<in> set sts"
proof -
  from AllD [OF assms(1)] obtain kv all where kv: "pickStore ws sm = Inr kv" "map snd (kv_data kv) = map Json all"
    "sts = filter (\<lambda>st. MatchWorkerJob st job) all" by blast
  have "map_of (kv_data kv) (makeSectorKey sid) = Some (Json st)" using assms(2) kv(1) by (simp add: view_def)
  then have "Json st \<in> set (map snd (kv_data kv))" by (auto dest!: map_of_SomeD intro: rev_image_eqI)
  then have "st \<in> set all" unfolding kv(2) by auto
  with kv(3) assms(3) show ?thesis by simp
qed

lemma view_put_same [simp]: "view_put ws sid st v ws sid = Some (Json st)"
  by (simp add: view_put_def)

lemma handleMessage_Landed:
  "handleMessage env mid msg = Inr (OnChainStateLanded, maybe) \<Longrightarrow>
   \<exists>m rc. MinerConfig (ce_cfg env) mid = Inr m \<and> msg_State msg \<in> {OnChainMsg, NonceConflictMsg} \<and>
     cc_Confidence (mc_Commitment m) \<le> msg_Confidence msg \<and> msg_Receipt msg = Some rc \<and> rc_ExitCode rc = ExitOk"
  by (auto simp: handleMessage_def MustMinerConfig_def Let_def split: if_splits sum.splits option.splits exit_code.splits)

lemma poll_message_Landed:
  assumes "poll_message env mid c needSend landed = Inr p" "pr_State p = OnChainStateLanded"
  shows "\<exists>uid msg maybe. c = Some uid \<and> ce_message env uid = Inr msg \<and>
    handleMessage env mid msg = Inr (OnChainStateLanded, maybe) \<and> landed maybe = Inr p"
  using assms by (auto simp: poll_message_def poll_def split: option.splits sum.splits if_splits)

lemma PreCommitStateD:
  assumes "PreCommitState env sid s = (Inr p, s1)"
  shows "same s s1" and "pr_State p = OnChainStateLanded \<Longrightarrow>
    \<exists>st uid msg maybe maddr pci. stored s WorkerOnline sid = Some (Json st) \<and> mi_PreCommitCid (ss_MessageInfo st) = Some uid \<and>
      ce_message env uid = Inr msg \<and> handleMessage env (sid_Miner sid) msg = Inr (OnChainStateLanded, maybe) \<and>
      cl_NewIDAddress (ce_lib env) (sid_Miner sid) = Inr maddr \<and>
      sa_StateSectorPreCommitInfo (ce_api env) maddr (sid_Number sid) None = Inr (Some pci)"
proof -
  obtain q sm where l: "Load sid WorkerOnline (cm_smgr s) = (q, sm)" by fastforce
  from assms l obtain maddr st where a: "cl_NewIDAddress (ce_lib env) (sid_Miner sid) = Inr maddr" "q = Inr st"
    by (auto simp: PreCommitState_def split: sum.splits)
  have v: "view sm = stored s" "stored s WorkerOnline sid = Some (Json st)" using LoadD(1) [OF l] LoadD(2) [OF l a(2)] by auto
  show "same s s1" using assms l a v(1) by (auto simp: PreCommitState_def same_def)
  assume landed: "pr_State p = OnChainStateLanded"
  from assms l a have "poll_message env (sid_Miner sid) (mi_PreCommitCid (ss_MessageInfo st)) (mi_NeedSend (ss_MessageInfo st))
      (\<lambda>maybe. case sa_StateSectorPreCommitInfo (ce_api env) maddr (sid_Number sid) None of
           Inl e \<Rightarrow> if e = ErrSectorAllocated then poll OnChainStateShouldAbort (Some errMsgSectorAllocated) else Inl e
         | Inr None \<Rightarrow> poll OnChainStateShouldAbort (Some errMsgPreCommitInfoNotFound)
         | Inr (Some _) \<Rightarrow> poll OnChainStateLanded maybe) = Inr p"
    by (simp add: PreCommitState_def)
  from poll_message_Landed [OF this landed] obtain uid msg maybe where
    m: "mi_PreCommitCid (ss_MessageInfo st) = Some uid" "ce_message env uid = Inr msg"
      "handleMessage env (sid_Miner sid) msg = Inr (OnChainStateLanded, maybe)"
    and e: "(case sa_StateSectorPreCommitInfo (ce_api env) maddr (sid_Number sid) None of
           Inl e \<Rightarrow> if e = ErrSectorAllocated then poll OnChainStateShouldAbort (Some errMsgSectorAllocated) else Inl e
         | Inr None \<Rightarrow> poll OnChainStateShouldAbort (Some errMsgPreCommitInfoNotFound)
         | Inr (Some _) \<Rightarrow> poll OnChainStateLanded maybe) = Inr p" by blast
  from e landed obtain pci where "sa_StateSectorPreCommitInfo (ce_api env) maddr (sid_Number sid) None = Inr (Some pci)"
    by (auto simp: poll_def split: sum.splits option.splits if_splits)
  with m v(2) a(1) show "\<exists>st uid msg maybe maddr pci. stored s WorkerOnline sid = Some (Json st) \<and>
      mi_PreCommitCid (ss_MessageInfo st) = Some uid \<and> ce_message env uid = Inr msg \<and>
      handleMessage env (sid_Miner sid) msg = Inr (OnChainStateLanded, maybe) \<and>
      cl_NewIDAddress (ce_lib env) (sid_Miner sid) = Inr maddr \<and>
      sa_StateSectorPreCommitInfo (ce_api env) maddr (sid_Number sid) None = Inr (Some pci)" by blast
qed

lemma record_termination_dup:
  assumes "stored s WorkerOffline sid = Some (Json st)" "0 < ti_AddedHeight (ss_TerminateInfo st)"
  shows "same s (snd (record_termination h sid pt s)) \<and> fst (record_termination h sid pt s) \<noteq> respond SubmitAccepted None"
proof -
  obtain q sm where l: "Load sid WorkerOffline (cm_smgr s) = (q, sm)" by fastforce
  note v = LoadD(1) [OF l] LoadD(2) [OF l] LoadD(3) [OF l]
  show ?thesis
  proof (cases q)
    case (Inl e)
    then have "\<not> errors_is e ErrKeyNotFound" using v(3) assms(1) by auto
    with Inl l v(1) show ?thesis by (simp add: record_termination_def same_def respond_def)
  next
    case (Inr st1)
    then have "st1 = st" using v(2) assms(1) by simp
    with Inr l v(1) assms(2) show ?thesis by (simp add: record_termination_def same_def respond_def)
  qed
qed

lemma SubmitTerminate_dup:
  assumes "stored s WorkerOffline sid = Some (Json st)" "0 < ti_AddedHeight (ss_TerminateInfo st)"
  shows "same s (snd (SubmitTerminate env sid s)) \<and> fst (SubmitTerminate env sid s) \<noteq> respond SubmitAccepted None"
  using record_termination_dup [OF assms]
  by (auto simp: SubmitTerminate_def respond_def split: sum.splits)

lemma record_terminationD:
  assumes "record_termination h sid pt s = (respond SubmitAccepted None, s1)"
  shows "\<exists>st. stored s1 WorkerOffline sid = Some (Json (st\<lparr>ss_TerminateInfo := termination_of h\<rparr>)) \<and>
    queues s1 = (cm_prePending s, cm_proPending s, cm_terminatePending s @ [st\<lparr>ss_TerminateInfo := termination_of h\<rparr>])"
proof -
  obtain q sm where l: "Load sid WorkerOffline (cm_smgr s) = (q, sm)" by fastforce
  note v = LoadD(1) [OF l] LoadD(2) [OF l] LoadD(3) [OF l]
  show ?thesis
  proof (cases q)
    case (Inl e)
    with l v(3) assms have e: "errors_is e ErrKeyNotFound" by (auto simp: record_termination_def respond_def split: if_splits)
    obtain q1 sm1 where i: "InitWith [\<lparr>as_ID = sid, as_ProofType = pt\<rparr>] WorkerOffline [FTerminateInfo (termination_of h)] sm = (q1, sm1)"
      by fastforce
    from assms l Inl e i have ok: "q1 = Inr ()" "s1 = snd (queue_terminate h (new_sector_state sid pt) (with_smgr s sm1))"
      by (auto simp: record_termination_def respond_def queue_terminate_def split: sum.splits)
    have "view sm WorkerOffline sid = None" using v(1,3) Inl e by simp
    with InitWithD [OF i] ok show ?thesis
      by (auto simp: grown_def initialized_def queue_terminate_def queues_def)
  next
    case (Inr st)
    obtain q1 sm1 where u: "Update sid WorkerOffline [FTerminateInfo (termination_of h)] sm = (q1, sm1)" by fastforce
    from UpdateD [OF u] u Inr l v(1,2) assms show ?thesis
      by (auto simp: record_termination_def respond_def queue_terminate_def queues_def split: if_splits sum.splits)
  qed
qed

section \<open>Properties\<close>

text \<open>C15. \<open>SubmitPreCommit\<close> either changes nothing, or accepts: then the submission passed the sanity checks, the sector had
  none before or the caller asked for a reset, the stored state holds it, to be sent and without a message yet,
  and exactly this state is appended to the queue. An acceptance that changes nothing repeats a submission
  that is stored, or meets the pre-commit on chain.\<close>

theorem SubmitPreCommit_effect:
  assumes "SubmitPreCommit env sid info hardReset s = (r, s1)" "stored s WorkerOnline sid = Some (Json st)" "ss_ID st = sid"
  shows "same s s1 \<and>
      (r = respond SubmitAccepted None \<longrightarrow>
         (\<exists>pre. ss_Pre st = Some pre \<and> \<not> hardReset \<and> \<not> pre_changed pre info) \<or>
         (\<exists>maddr e. checkPrecommit (ce_np env) (ce_api env) (ce_lib env) maddr (st\<lparr>ss_Pre := Some info\<rparr>) =
            Inl (ErrPrecommitOnChain, e))) \<or>
    (ss_Pre st = None \<or> hardReset) \<and> r = respond SubmitAccepted None \<and>
    (\<exists>maddr. checkPrecommit (ce_np env) (ce_api env) (ce_lib env) maddr (st\<lparr>ss_Pre := Some info\<rparr>) = Inr ()) \<and>
    stored s1 = view_put WorkerOnline sid (pre_accepted info st) (stored s) \<and>
    queues s1 = (cm_prePending s @ [pre_accepted info st], cm_proPending s, cm_terminatePending s)"
  using assms by (rule SubmitPreCommitD)

text \<open>\<open>SubmitProof\<close> likewise; a proof is only taken for a sector with a pre-commit and after verification.\<close>

theorem SubmitProof_effect:
  assumes "SubmitProof env sid info hardReset s = (r, s1)" "stored s WorkerOnline sid = Some (Json st)"
  shows "same s s1 \<and>
      (r = respond SubmitAccepted None \<longrightarrow> (\<exists>old. ss_Proof st = Some old \<and> \<not> hardReset \<and> pf_Proof old = pf_Proof info)) \<or>
    ss_Pre st \<noteq> None \<and> (ss_Proof st = None \<or> hardReset) \<and> r = respond SubmitAccepted None \<and>
    (\<exists>maddr. checkCommit (ce_np env) (ce_api env) (ce_lib env) (ce_verif env) (st\<lparr>ss_Proof := Some info\<rparr>)
       (pf_Proof info) maddr = Inr ()) \<and>
    stored s1 = view_put WorkerOnline sid (proof_accepted info st) (stored s) \<and>
    queues s1 = (cm_prePending s, cm_proPending s @ [proof_accepted info st], cm_terminatePending s)"
  using open_sectorD [OF assms(1) [unfolded SubmitProof_def] assms(2)]
proof (elim disjE exE conjE)
  fix maddr t
  assume t: "same s t" "take_proof env sid info hardReset maddr st t = (r, s1)"
  have "stored t WorkerOnline sid = Some (Json st)" using same_stored(1) [OF t(1)] assms(2) by simp
  from take_proofD [OF t(2) this] t(1) show ?thesis unfolding same_def queues_def by auto
qed auto

text \<open>C18. An accepted pre-commit survives a crash that loses the queues: when the manager starts again and can
  read its store, the sector is queued again, in the state that was accepted, unless it has been handed
  to another kind of job.\<close>

theorem accepted_survives_crash:
  assumes "SubmitPreCommit env sid info hardReset s = (respond SubmitAccepted None, s1)" "queues s1 \<noteq> queues s"
    "stored s WorkerOnline sid = Some (Json st)" "ss_ID st = sid"
    "\<not> ss_Upgraded st" "\<not> ss_Imported st" "\<not> ss_NeedRebuild st" "\<not> ss_Unsealing st"
    "All WorkerOnline JobSealing (cm_smgr s1) = (Inr sectors, sm)"
  shows "pre_accepted info st \<in> set (cm_prePending (restartSector (crashed s1)))"
proof -
  have "stored s1 WorkerOnline sid = Some (Json (pre_accepted info st))"
    using SubmitPreCommitD [OF assms(1,3,4)] assms(2) by (auto simp: same_def)
  moreover have "MatchWorkerJob (pre_accepted info st) JobSealing" "PendingForSealingCommitment (pre_accepted info st)"
    "mi_PreCommitCid (ss_MessageInfo (pre_accepted info st)) = None"
    using assms(5-8) by (auto simp: pre_accepted_def PendingForSealingCommitment_def)
  ultimately show ?thesis unfolding restart_queues(1) [OF assms(9)] using All_view [OF assms(9)] by auto
qed

text \<open>A pre-commit is reported as landed only when its message is on chain with the configured confidence and a
  successful receipt, and the chain knows the pre-commit; polling changes nothing.\<close>

theorem landed_is_on_chain:
  assumes "PreCommitState env sid s = (Inr p, s1)"
  shows "stored s1 = stored s \<and> queues s1 = queues s \<and>
    (pr_State p = OnChainStateLanded \<longrightarrow> (\<exists>st uid msg m rc maddr pci. stored s WorkerOnline sid = Some (Json st) \<and>
       mi_PreCommitCid (ss_MessageInfo st) = Some uid \<and> ce_message env uid = Inr msg \<and>
       msg_State msg \<in> {OnChainMsg, NonceConflictMsg} \<and>
       MinerConfig (ce_cfg env) (sid_Miner sid) = Inr m \<and> cc_Confidence (mc_Commitment m) \<le> msg_Confidence msg \<and>
       msg_Receipt msg = Some rc \<and> rc_ExitCode rc = ExitOk \<and>
       cl_NewIDAddress (ce_lib env) (sid_Miner sid) = Inr maddr \<and>
       sa_StateSectorPreCommitInfo (ce_api env) maddr (sid_Number sid) None = Inr (Some pci)))"
proof (intro conjI impI)
  show "stored s1 = stored s" "queues s1 = queues s" using PreCommitStateD(1) [OF assms] by (simp_all add: same_def)
  assume "pr_State p = OnChainStateLanded"
  from PreCommitStateD(2) [OF assms this] obtain st uid msg maybe maddr pci where
    a: "stored s WorkerOnline sid = Some (Json st)" "mi_PreCommitCid (ss_MessageInfo st) = Some uid"
      "ce_message env uid = Inr msg" "cl_NewIDAddress (ce_lib env) (sid_Miner sid) = Inr maddr"
      "sa_StateSectorPreCommitInfo (ce_api env) maddr (sid_Number sid) None = Inr (Some pci)"
    and h: "handleMessage env (sid_Miner sid) msg = Inr (OnChainStateLanded, maybe)" by blast
  from a handleMessage_Landed [OF h] show "\<exists>st uid msg m rc maddr pci. stored s WorkerOnline sid = Some (Json st) \<and>
       mi_PreCommitCid (ss_MessageInfo st) = Some uid \<and> ce_message env uid = Inr msg \<and>
       msg_State msg \<in> {OnChainMsg, NonceConflictMsg} \<and>
       MinerConfig (ce_cfg env) (sid_Miner sid) = Inr m \<and> cc_Confidence (mc_Commitment m) \<le> msg_Confidence msg \<and>
       msg_Receipt msg = Some rc \<and> rc_ExitCode rc = ExitOk \<and>
       cl_NewIDAddress (ce_lib env) (sid_Miner sid) = Inr maddr \<and>
       sa_StateSectorPreCommitInfo (ce_api env) maddr (sid_Number sid) None = Inr (Some pci)" by blast
qed

text \<open>An accepted termination is stored and queued, once: until the stored height is reset, by a failed message or by
  hand, no later submission queues the sector again or changes what is stored.\<close>

theorem SubmitTerminate_once:
  assumes "SubmitTerminate env sid s = (respond SubmitAccepted None, s1)" "sa_ChainHead (ce_api env) = Inr (tok, height)"
    "0 < height"
  shows "\<exists>st. stored s1 WorkerOffline sid = Some (Json (st\<lparr>ss_TerminateInfo := termination_of height\<rparr>)) \<and>
      queues s1 = (cm_prePending s, cm_proPending s, cm_terminatePending s @ [st\<lparr>ss_TerminateInfo := termination_of height\<rparr>]) \<and>
      same s1 (snd (SubmitTerminate env' sid s1))"
proof -
  from assms(1,2) obtain pt where "record_termination height sid pt s = (respond SubmitAccepted None, s1)"
    by (auto simp: SubmitTerminate_def respond_def split: sum.splits)
  from record_terminationD [OF this] obtain st where
    st: "stored s1 WorkerOffline sid = Some (Json (st\<lparr>ss_TerminateInfo := termination_of height\<rparr>))"
      "queues s1 = (cm_prePending s, cm_proPending s, cm_terminatePending s @ [st\<lparr>ss_TerminateInfo := termination_of height\<rparr>])"
    by blast
  have "same s1 (snd (SubmitTerminate env' sid s1))"
    using SubmitTerminate_dup [OF st(1)] assms(3) by (simp add: termination_of_def)
  with st show ?thesis by blast
qed

text \<open>A termination whose message failed for good is never resolved: every round of the poll finds the same permanent failure,
  goes on when it could read the sector and changes nothing, and a new submission is refused as a duplicate.\<close>

theorem perm_failed_termination_stuck:
  assumes "stored s WorkerOffline sid = Some (Json st)" "ss_ID st = sid" "ti_TerminateCid (ss_TerminateInfo st) = Some c"
    "0 < ti_AddedHeight (ss_TerminateInfo st)" "ce_message env c = Inr msg"
    "handleMessage env (sid_Miner sid) msg = Inr (OnChainStatePermFailed, d)"
  shows "same s (snd (pollTerminateState env sid s)) \<and>
    (\<not> isl (fst (Load sid WorkerOffline (cm_smgr s))) \<longrightarrow> fst (pollTerminateState env sid s) = Inr True) \<and>
    same s (snd (SubmitTerminate env sid s)) \<and> fst (SubmitTerminate env sid s) \<noteq> respond SubmitAccepted None"
proof -
  obtain q sm where l: "Load sid WorkerOffline (cm_smgr s) = (q, sm)" by fastforce
  note v = LoadD(1) [OF l] LoadD(2) [OF l]
  have "same s (snd (pollTerminateState env sid s)) \<and>
    (\<not> isl q \<longrightarrow> fst (pollTerminateState env sid s) = Inr True)"
    using l v assms by (cases q) (auto simp: pollTerminateState_def same_def)
  with SubmitTerminate_dup [OF assms(1,4)] l show ?thesis by simp
qed

section \<open>Instances\<close>

definition demo_committing :: sector_state where
  "demo_committing = (new_sector_state demo_sid 8)\<lparr>ss_Ticket := Some \<lparr>tk_Ticket = [3], tk_Epoch = 900\<rparr>\<rparr>"

definition demo_pre :: precommit_info where
  "demo_pre = \<lparr>pc_CommR = ''commr'', pc_CommD = ''commd'', pc_Ticket = \<lparr>tk_Ticket = [3], tk_Epoch = 900\<rparr>\<rparr>"

definition demo_permfailed :: sector_state where
  "demo_permfailed = (new_sector_state demo_sid 8)\<lparr>ss_TerminateInfo := \<lparr>ti_TerminateCid = Some ''m'', ti_TerminatedAt = 0, ti_AddedHeight = 5\<rparr>\<rparr>"

definition demo_commit :: commit_state where
  "demo_commit = \<lparr>cm_smgr = demo_mgr\<lparr>sm_online := demo_store (Json demo_committing)\<rparr>,
     cm_prePending = [], cm_proPending = [], cm_terminatePending = []\<rparr>"

definition demo_env :: commit_env where
  "demo_env = \<lparr>ce_cfg = [(DefaultMinerConfig Undef False)\<lparr>mc_Actor := 1000\<rparr>], ce_select = (\<lambda>_ _. Inr Undef),
     ce_np = demo_np, ce_api = demo_sealing, ce_lib = demo_libs, ce_verif = (\<lambda>_. Inr True),
     ce_message = (\<lambda>_. Inr \<lparr>msg_State = OnChainMsg, msg_Confidence = 100,
       msg_Receipt = Some \<lparr>rc_ExitCode = OtherExit 16, rc_String = ''bad''\<rparr>, msg_Height = 950\<rparr>),
     ce_SectorGetInfo = (\<lambda>_ _. Inr (Some \<lparr>so_SealProof = 8\<rparr>)),
     ce_SectorPartition = (\<lambda>_ _. Inr (Some \<lparr>lo_Deadline = 0, lo_Partition = 0\<rparr>)),
     ce_MinerPartitions = (\<lambda>_ _. Inr [\<lambda>_. Inr True])\<rparr>"

lemmas demo_commit_defs = demo_commit_def demo_env_def demo_pre_def demo_committing_def demo_defs demo_check_defs demo_sid_def

lemma demo_stored: "stored demo_commit WorkerOnline demo_sid = Some (Json demo_committing)" "ss_ID demo_committing = demo_sid"
  by (simp_all add: view_def demo_commit_defs)

lemma demo_precheck: "checkPrecommit demo_np demo_sealing demo_libs (IDAddress 1000) (demo_committing\<lparr>ss_Pre := Some demo_pre\<rparr>) = Inr ()"
  by (simp add: checkPrecommit_def checkPieces_def check_commD_def check_ticket_def HasData_def demo_commit_defs
      MaxPreCommitRandomnessLookback_def SealRandomnessLookback_def)

lemma demo_load: "Load demo_sid WorkerOnline (cm_smgr demo_commit) = (Inr demo_committing, cm_smgr demo_commit)"
  by (simp add: Load_def loadInner_def put_store_def demo_commit_def demo_defs)

lemma demo_sender: "sender demo_env stg 1000 = Inr Undef"
  by (simp add: sender_def demo_env_def)

definition demo_accepted :: commit_state where
  "demo_accepted = demo_commit\<lparr>cm_smgr := demo_mgr\<lparr>sm_online := demo_store (Json (pre_accepted demo_pre demo_committing)),
       sm_events := [OnUpdate demo_sid WorkerOnline
         [FPre (Some demo_pre), FMessageInfo (ss_MessageInfo (pre_accepted demo_pre demo_committing))]]\<rparr>,
     cm_prePending := [pre_accepted demo_pre demo_committing]\<rparr>"

lemma demo_submit: "SubmitPreCommit demo_env demo_sid demo_pre False demo_commit = (respond SubmitAccepted None, demo_accepted)"
proof -
  have id: "with_smgr demo_commit (cm_smgr demo_commit) = demo_commit" by (simp add: with_smgr_def)
  have a: "sid_Miner demo_sid = 1000" "cl_NewIDAddress (ce_lib demo_env) 1000 = Inr (IDAddress 1000)"
    "ce_np demo_env = demo_np" "ce_api demo_env = demo_sealing" "ce_lib demo_env = demo_libs" "ss_Pre demo_committing = None"
    by (simp_all add: demo_commit_defs)
  have "SubmitPreCommit demo_env demo_sid demo_pre False demo_commit =
      queue_pre demo_sid (demo_committing\<lparr>ss_Pre := Some demo_pre\<rparr>) demo_commit"
    using demo_precheck a by (simp add: SubmitPreCommit_def open_sector_def take_precommit_def demo_sender demo_load id Let_def)
  moreover have "queue_pre demo_sid (demo_committing\<lparr>ss_Pre := Some demo_pre\<rparr>) demo_commit = (respond SubmitAccepted None, demo_accepted)"
    by (simp add: queue_pre_def Let_def Update_def loadInner_def save_def put_store_def demo_commit_def demo_accepted_def
        demo_stored(2) demo_defs with_smgr_def pre_accepted_def notify_def put_entry_def)
  ultimately show ?thesis by simp
qed

theorem SubmitPreCommit_effect_witness:
  "stored demo_accepted = view_put WorkerOnline demo_sid (pre_accepted demo_pre demo_committing) (stored demo_commit) \<and>
   queues demo_accepted = ([pre_accepted demo_pre demo_committing], [], [])"
proof -
  have q: "\<not> same demo_commit demo_accepted" "cm_prePending demo_commit = []" "cm_proPending demo_commit = []"
    "cm_terminatePending demo_commit = []"
    by (simp_all add: demo_commit_def demo_accepted_def same_def queues_def)
  with SubmitPreCommit_effect [OF demo_submit demo_stored] show ?thesis by simp
qed

theorem accepted_survives_crash_witness:
  "pre_accepted demo_pre demo_committing \<in> set (cm_prePending (restartSector (crashed demo_accepted)))"
proof (rule accepted_survives_crash [OF demo_submit _ demo_stored])
  show "queues demo_accepted \<noteq> queues demo_commit" by (simp add: demo_commit_def demo_accepted_def queues_def)
  show "All WorkerOnline JobSealing (cm_smgr demo_accepted) = (Inr [pre_accepted demo_pre demo_committing],
      snd (All WorkerOnline JobSealing (cm_smgr demo_accepted)))"
    by (simp add: All_def getIter_def kv_Scan_def scan_entries_def iter_View_def demo_accepted_def demo_defs
        put_store_def pre_accepted_def demo_committing_def new_sector_state_def)
qed (simp_all add: demo_committing_def new_sector_state_def)

theorem SubmitProof_effect_witness:
  "\<exists>r s1. SubmitProof demo_env demo_sid \<lparr>pf_Proof = [1]\<rparr> False demo_commit = (r, s1) \<and> same demo_commit s1"
proof -
  obtain r s1 where run: "SubmitProof demo_env demo_sid \<lparr>pf_Proof = [1]\<rparr> False demo_commit = (r, s1)" by fastforce
  have "ss_Pre demo_committing = None" by (simp add: demo_commit_defs)
  with SubmitProof_effect [OF run demo_stored(1)] run show ?thesis by auto
qed

theorem landed_is_on_chain_witness:
  "let s = demo_commit\<lparr>cm_smgr := demo_mgr\<rparr>; s1 = snd (PreCommitState demo_env demo_sid s) in stored s1 = stored s"
proof -
  let ?s = "demo_commit\<lparr>cm_smgr := demo_mgr\<rparr>"
  have "\<exists>p. fst (PreCommitState demo_env demo_sid ?s) = Inr p"
    by (simp add: PreCommitState_def poll_message_def poll_def Load_def loadInner_def put_store_def demo_commit_defs)
  then obtain p where run: "PreCommitState demo_env demo_sid ?s = (Inr p, snd (PreCommitState demo_env demo_sid ?s))"
    by (metis prod.collapse)
  from landed_is_on_chain [OF run] show ?thesis by (simp add: Let_def)
qed

theorem SubmitTerminate_once_witness:
  "let s = demo_commit\<lparr>cm_smgr := demo_mgr\<lparr>sm_offline := demo_store (Json (new_sector_state demo_sid 8))\<rparr>\<rparr>;
       s1 = snd (SubmitTerminate demo_env demo_sid s)
   in queues s1 \<noteq> queues s \<and> same s1 (snd (SubmitTerminate demo_env demo_sid s1))"
proof -
  let ?s = "demo_commit\<lparr>cm_smgr := demo_mgr\<lparr>sm_offline := demo_store (Json (new_sector_state demo_sid 8))\<rparr>\<rparr>"
  let ?s1 = "snd (SubmitTerminate demo_env demo_sid ?s)"
  have a: "sid_Miner demo_sid = 1000" "cl_NewIDAddress (ce_lib demo_env) 1000 = Inr (IDAddress 1000)"
    "sa_ChainHead (ce_api demo_env) = Inr ([], 1000)"
    "check_committed demo_env (IDAddress 1000) n = Inr \<lparr>so_SealProof = 8\<rparr>" "check_live demo_env (IDAddress 1000) n = Inr ()" for n
    by (simp_all add: demo_commit_defs check_committed_def check_live_def)
  have "SubmitTerminate demo_env demo_sid ?s = record_termination 1000 demo_sid 8 ?s"
    by (simp add: SubmitTerminate_def a demo_sender)
  moreover have "fst (record_termination 1000 demo_sid 8 ?s) = respond SubmitAccepted None"
    by (simp add: record_termination_def Load_def Update_def loadInner_def save_def put_store_def queue_terminate_def Let_def
        demo_commit_defs)
  ultimately have run: "SubmitTerminate demo_env demo_sid ?s = (respond SubmitAccepted None, ?s1)"
    by (metis prod.collapse)
  from SubmitTerminate_once [OF run a(3), of demo_env] show ?thesis unfolding Let_def by (auto simp: queues_def)
qed

theorem perm_failed_termination_stuck_witness:
  "let s = demo_commit\<lparr>cm_smgr := demo_mgr\<lparr>sm_offline := demo_store (Json demo_permfailed)\<rparr>\<rparr>
   in same s (snd (pollTerminateState demo_env demo_sid s)) \<and> same s (snd (SubmitTerminate demo_env demo_sid s))"
proof -
  let ?s = "demo_commit\<lparr>cm_smgr := demo_mgr\<lparr>sm_offline := demo_store (Json demo_permfailed)\<rparr>\<rparr>"
  have a: "stored ?s WorkerOffline demo_sid = Some (Json demo_permfailed)" by (simp add: view_def demo_defs)
  have b: "handleMessage demo_env (sid_Miner demo_sid) \<lparr>msg_State = OnChainMsg, msg_Confidence = 100,
       msg_Receipt = Some \<lparr>rc_ExitCode = OtherExit 16, rc_String = ''bad''\<rparr>, msg_Height = 950\<rparr> = Inr (OnChainStatePermFailed, Some ''bad'')"
    by (simp add: handleMessage_def MustMinerConfig_def Let_def demo_env_def demo_sid_def DefaultMinerConfig_def defaultMinerCommitmentConfig_def)
  from perm_failed_termination_stuck [OF a _ _ _ _ b, of "''m''"] show ?thesis
    by (simp add: demo_permfailed_def demo_env_def new_sector_state_def)
qed

end
