(* ===== verification/Message_Push.thy ===== *)
theory Message_Push
  imports Commit_Checks
begin

text \<open>
  Handing a message to the messager (\<open>pushMessage\<close>, \<open>NewMIdFromBytes\<close> in
  \<open>modules/impl/commitmgr/commitmgr.go\<close>). The identifier of a message is a hash of its bytes behind one byte that
  counts the identifiers already in use; the loop that looks for a free one has no bound. The messager
  is a service: its answers are parameters that may depend on the messages it was given before, which are
  the state of the model.
\<close>

section \<open>The messager\<close>

datatype miner_method = PreCommitSectorBatch2 | ProveCommitSectors3 | ProveCommitSectorsNI | TerminateSectors
  | ProveReplicaUpdates3 | SubmitWindowedPoSt | DeclareFaultsRecovered | DeclareFaults

record chain_message =
  cg_To :: address
  cg_From :: address
  cg_Value :: int
  cg_Method :: miner_method
  cg_Params :: bytes
  cg_GasFeeCap :: fil

type_synonym send_spec = "float64 \<times> float64"
type_synonym sent = "(cid \<times> chain_message \<times> send_spec) list"

text \<open>\<open>ms_Push\<close> answers with the identifier or an error, and tells whether the messager took the message,
  which it may have done although the answer is an error.\<close>

record messager =
  ms_RawData :: "chain_message \<Rightarrow> bytes res"
  ms_Sum :: "bytes \<Rightarrow> cid res"
  ms_HasMessageByUid :: "sent \<Rightarrow> cid \<Rightarrow> bool res"
  ms_PushMessageWithId :: "sent \<Rightarrow> cid \<Rightarrow> chain_message \<Rightarrow> send_spec \<Rightarrow> cid res \<times> bool"

section \<open>Pushing\<close>

definition NewMIdFromBytes :: "messager \<Rightarrow> bytes \<Rightarrow> cid res" where
  "NewMIdFromBytes ms seedBytes = ms_Sum ms seedBytes"

text \<open>The loop: \<open>byte(i)\<close> wraps at 256.\<close>

partial_function (option) find_mid :: "messager \<Rightarrow> sent \<Rightarrow> bytes \<Rightarrow> nat \<Rightarrow> cid res option" where
  "find_mid ms sent mb i = (case NewMIdFromBytes ms (of_nat i # mb) of
     Inl e \<Rightarrow> Some (Inl e)
   | Inr mcid \<Rightarrow> (case ms_HasMessageByUid ms sent mcid of
       Inl e \<Rightarrow> Some (Inl e)
     | Inr has \<Rightarrow> if \<not> has then Some (Inr mcid) else find_mid ms sent mb (Suc i)))"

definition message_of :: "address \<Rightarrow> address \<Rightarrow> int \<Rightarrow> miner_method \<Rightarrow> fee_config \<Rightarrow> bytes \<Rightarrow> chain_message" where
  "message_of dst src value method feeCfg params = \<lparr>cg_To = dst, cg_From = src, cg_Value = value, cg_Method = method,
     cg_Params = params, cg_GasFeeCap = GetGasFeeCap feeCfg\<rparr>"

definition push_found :: "messager \<Rightarrow> cid \<Rightarrow> chain_message \<Rightarrow> send_spec \<Rightarrow> (sent, cid) step" where
  "push_found ms mcid msg spec sent = (case ms_PushMessageWithId ms sent mcid msg spec of
     (r, took) \<Rightarrow> ((case r of
         Inl e \<Rightarrow> Inl (Wrap ''push message with id failed'' e)
       | Inr uid \<Rightarrow> if uid \<noteq> mcid then Inl (Errorf ''mcid not equal to uid, its out of control'') else Inr mcid),
       if took then sent @ [(mcid, msg, spec)] else sent))"

definition pushMessage :: "commit_libs \<Rightarrow> messager \<Rightarrow> address \<Rightarrow> u64 \<Rightarrow> int \<Rightarrow> miner_method \<Rightarrow> fee_config \<Rightarrow> bytes \<Rightarrow>
    sent \<Rightarrow> (cid res \<times> sent) option" where
  "pushMessage lib ms src mid value method feeCfg params sent = (case cl_NewIDAddress lib mid of
     Inl e \<Rightarrow> Some (Inl e, sent)
   | Inr dst \<Rightarrow> (let msg = message_of dst src value method feeCfg params in
      case ms_RawData ms msg of
        Inl e \<Rightarrow> Some (Inl e, sent)
      | Inr mb \<Rightarrow> (case find_mid ms sent mb 0 of
          None \<Rightarrow> None
        | Some (Inl e) \<Rightarrow> Some (Inl e, sent)
        | Some (Inr mcid) \<Rightarrow> Some (push_found ms mcid msg (GetSendSpec feeCfg) sent))))"

section \<open>Lemmas\<close>

text \<open>The identifier tried in a round, and whether the round is the last one.\<close>

definition taken_at :: "messager \<Rightarrow> sent \<Rightarrow> bytes \<Rightarrow> nat \<Rightarrow> bool" where
  "taken_at ms sent mb i = (case NewMIdFromBytes ms (of_nat i # mb) of
     Inl e \<Rightarrow> False | Inr c \<Rightarrow> ms_HasMessageByUid ms sent c = Inr True)"

lemma taken_at_wrap: "taken_at ms sent mb (i mod 256) = taken_at ms sent mb i"
proof -
  have "(of_nat (i mod 256) :: u8) = of_nat i"
    by (simp add: word_unat_eq_iff unat_of_nat)
  then show ?thesis by (simp add: taken_at_def)
qed

lemma find_mid_taken: "taken_at ms sent mb i \<Longrightarrow> find_mid ms sent mb i = find_mid ms sent mb (Suc i)"
  by (subst find_mid.simps) (auto simp: taken_at_def split: sum.splits)

lemma find_mid_stops:
  assumes "\<not> taken_at ms sent mb i"
  shows "\<exists>r. find_mid ms sent mb i = Some r \<and> (\<forall>c. r = Inr c \<longrightarrow> ms_HasMessageByUid ms sent c = Inr False)"
  using assms by (subst find_mid.simps) (auto simp: taken_at_def split: sum.splits)

lemma find_mid_reaches:
  assumes "\<not> taken_at ms sent mb j" "i \<le> j"
  shows "\<exists>r. find_mid ms sent mb i = Some r \<and> (\<forall>c. r = Inr c \<longrightarrow> ms_HasMessageByUid ms sent c = Inr False)"
  using assms(2)
proof (induction "j - i" arbitrary: i)
  case 0
  with assms(1) find_mid_stops show ?case by auto
next
  case (Suc n)
  show ?case
  proof (cases "taken_at ms sent mb i")
    case True
    moreover have "n = j - Suc i" "Suc i \<le> j" using Suc.hyps(2) by auto
    ultimately show ?thesis using Suc.hyps(1) find_mid_taken by metis
  qed (rule find_mid_stops)
qed

lemma find_mid_Some:
  assumes "find_mid ms sent mb i = Some r"
  shows "\<exists>j \<ge> i. \<not> taken_at ms sent mb j"
  using assms
proof (induction rule: find_mid.raw_induct [rotated 1, consumes 1])
  case (1 find_mid ms sent mb i r)
  show ?case
  proof (cases "taken_at ms sent mb i")
    case True
    with 1(2) have "find_mid ms sent mb (Suc i) = Some r" by (auto simp: taken_at_def split: sum.splits)
    from 1(1) [OF this] obtain j where "Suc i \<le> j" "\<not> taken_at ms sent mb j" by blast
    then show ?thesis by (intro exI [of _ j]) simp
  qed blast
qed

lemma find_mid_None_iff: "find_mid ms sent mb 0 = None \<longleftrightarrow> (\<forall>j < 256. taken_at ms sent mb j)"
proof
  assume "find_mid ms sent mb 0 = None"
  then show "\<forall>j < 256. taken_at ms sent mb j" using find_mid_reaches [of ms sent mb _ 0] by fastforce
next
  assume all: "\<forall>j < 256. taken_at ms sent mb j"
  have "taken_at ms sent mb j" for j
    using all [rule_format, of "j mod 256"] taken_at_wrap [of ms sent mb j] by simp
  then show "find_mid ms sent mb 0 = None" using find_mid_Some [of ms sent mb 0] by (cases "find_mid ms sent mb 0") blast+
qed

text \<open>A messager that knows the messages it took and takes those it acknowledges.\<close>

definition messager_ok :: "messager \<Rightarrow> bool" where
  "messager_ok ms = ((\<forall>sent c. c \<in> fst ` set sent \<longrightarrow> ms_HasMessageByUid ms sent c \<noteq> Inr False) \<and>
     (\<forall>sent c msg spec u. fst (ms_PushMessageWithId ms sent c msg spec) = Inr u \<longrightarrow> snd (ms_PushMessageWithId ms sent c msg spec)))"

lemma pushMessageD:
  assumes "pushMessage lib ms src mid value method feeCfg params sent = Some (r, sent1)"
  shows "sent1 = sent \<and> (messager_ok ms \<longrightarrow> (\<exists>e. r = Inl e)) \<or>
    (\<exists>dst mcid. cl_NewIDAddress lib mid = Inr dst \<and> ms_HasMessageByUid ms sent mcid = Inr False \<and>
       sent1 = sent @ [(mcid, message_of dst src value method feeCfg params, GetSendSpec feeCfg)] \<and>
       (r = Inr mcid \<or> (\<exists>e. r = Inl e)))"
proof -
  have found: "ms_HasMessageByUid ms sent c = Inr False" if "find_mid ms sent mb 0 = Some (Inr c)" for mb c
  proof -
    from find_mid_Some [OF that] obtain j where "\<not> taken_at ms sent mb j" by blast
    from find_mid_reaches [OF this le0] that show ?thesis by auto
  qed
  from assms consider (none) "sent1 = sent" "\<exists>e. r = Inl e"
    | (push) dst mb mcid where "cl_NewIDAddress lib mid = Inr dst" "find_mid ms sent mb 0 = Some (Inr mcid)"
        "push_found ms mcid (message_of dst src value method feeCfg params) (GetSendSpec feeCfg) sent = (r, sent1)"
    by (auto simp: pushMessage_def Let_def split: sum.splits option.splits)
  then show ?thesis
  proof cases
    case push
    let ?p = "ms_PushMessageWithId ms sent mcid (message_of dst src value method feeCfg params) (GetSendSpec feeCfg)"
    have took: "messager_ok ms \<longrightarrow> fst ?p = Inr u \<longrightarrow> snd ?p" for u unfolding messager_ok_def by blast
    show ?thesis
    proof (cases "snd ?p")
      case True
      then have "sent1 = sent @ [(mcid, message_of dst src value method feeCfg params, GetSendSpec feeCfg)]"
        "r = Inr mcid \<or> (\<exists>e. r = Inl e)"
        using push(3) by (auto simp: push_found_def split: prod.splits sum.splits if_splits)
      with push(1) found [OF push(2)] show ?thesis by blast
    next
      case False
      then have "sent1 = sent" "(\<exists>e. fst ?p = Inl e) \<longrightarrow> (\<exists>e. r = Inl e)"
        using push(3) by (auto simp: push_found_def split: prod.splits sum.splits if_splits)
      with False took show ?thesis by (cases "fst ?p") auto
    qed
  qed simp
qed

text \<open>What the messager holds after any sequence of pushes, of any messages.\<close>

inductive push_reachable :: "commit_libs \<Rightarrow> messager \<Rightarrow> sent \<Rightarrow> bool" for lib ms where
  start: "push_reachable lib ms []"
| push: "push_reachable lib ms sent1" if "push_reachable lib ms sent"
    "pushMessage lib ms src mid value method feeCfg params sent = Some (r, sent1)"

section \<open>Properties\<close>

text \<open>C34. \<open>pushMessage\<close> fails to return in exactly one situation: the miner has an address, the message has
  bytes, and all 256 identifiers that the counting byte can form are in use; since the byte wraps, the
  loop then tries the same identifiers for ever.\<close>

theorem pushMessage_diverges_iff:
  "pushMessage lib ms src mid value method feeCfg params sent = None \<longleftrightarrow>
    (\<exists>dst mb. cl_NewIDAddress lib mid = Inr dst \<and>
       ms_RawData ms (message_of dst src value method feeCfg params) = Inr mb \<and> (\<forall>j < 256. taken_at ms sent mb j))"
proof -
  have "pushMessage lib ms src mid value method feeCfg params sent = None \<longleftrightarrow>
    (\<exists>dst mb. cl_NewIDAddress lib mid = Inr dst \<and>
       ms_RawData ms (message_of dst src value method feeCfg params) = Inr mb \<and> find_mid ms sent mb 0 = None)"
    by (auto simp: pushMessage_def Let_def split: sum.splits option.splits)
  then show ?thesis unfolding find_mid_None_iff .
qed

text \<open>No two messages are given to the messager under one identifier, over any sequence of pushes, as long as it knows the
  messages it took.\<close>

theorem pushed_ids_distinct:
  assumes "push_reachable lib ms sent" "messager_ok ms"
  shows "distinct (map fst sent)"
  using assms(1)
proof induction
  case (push sent src mid v mt feeCfg params r sent1)
  have "c \<notin> fst ` set sent" if "ms_HasMessageByUid ms sent c = Inr False" for c
    using assms(2) that unfolding messager_ok_def by blast
  with pushMessageD [OF push(2)] push.IH show ?case by auto
qed simp

section \<open>Instances\<close>

definition demo_messager :: messager where
  "demo_messager = \<lparr>ms_RawData = (\<lambda>m. Inr (cg_Params m)), ms_Sum = (\<lambda>b. Inr (map (\<lambda>x. char_of (unat x)) b)),
     ms_HasMessageByUid = (\<lambda>sent c. Inr (c \<in> fst ` set sent)), ms_PushMessageWithId = (\<lambda>_ c _ _. (Inr c, True))\<rparr>"

definition demo_address_lib :: commit_libs where
  "demo_address_lib = \<lparr>cl_ZeroPieceCommitment = (\<lambda>_. ''zero''), cl_NewIDAddress = (\<lambda>i. Inr (IDAddress i)),
     cl_IDFromAddress = (\<lambda>_. Inr 0), cl_MarshalCBOR = (\<lambda>_. None), cl_GenerateUnsealedCID = (\<lambda>_ _. Inr ''commd'')\<rparr>"

lemma demo_messager_ok: "messager_ok demo_messager"
  by (simp add: messager_ok_def demo_messager_def)

theorem pushMessage_diverges_iff_witness:
  "pushMessage demo_address_lib (demo_messager\<lparr>ms_HasMessageByUid := (\<lambda>_ _. Inr True)\<rparr>) Undef 1 0 TerminateSectors defaultFeeConfig [] [] = None"
  unfolding pushMessage_diverges_iff
  by (simp add: taken_at_def NewMIdFromBytes_def demo_messager_def demo_address_lib_def message_of_def)

theorem pushed_ids_distinct_witness:
  "\<exists>sent. push_reachable demo_address_lib demo_messager sent \<and> length sent = 1 \<and> distinct (map fst sent)"
proof -
  let ?msg = "message_of (IDAddress 1) Undef 0 TerminateSectors defaultFeeConfig []"
  let ?c = "[char_of (unat (0 :: u8))] :: string"
  have "find_mid demo_messager [] [] 0 = Some (Inr ?c)"
    by (subst find_mid.simps) (simp add: NewMIdFromBytes_def demo_messager_def)
  then have "pushMessage demo_address_lib demo_messager Undef 1 0 TerminateSectors defaultFeeConfig [] [] =
      Some (Inr ?c, [(?c, ?msg, GetSendSpec defaultFeeConfig)])"
    by (simp add: pushMessage_def push_found_def Let_def demo_address_lib_def)
      (simp add: demo_messager_def message_of_def push_found_def)
  from push [OF start this] have r: "push_reachable demo_address_lib demo_messager [(?c, ?msg, GetSendSpec defaultFeeConfig)]" .
  from pushed_ids_distinct [OF this demo_messager_ok] r show ?thesis by (intro exI conjI) auto
qed

end
