(* ===== verification/Terminate_Processor.thy ===== *)
theory Terminate_Processor
  imports Commit_Manager Message_Push "HOL-Library.AList"
begin

text \<open>
  The processor of terminations (\<open>modules/impl/commitmgr/terminate_processor.go\<close>): the sectors of a batch are grouped by
  their deadline and partition, groups that are being challenged are left out, the rest is cut to the
  limits of a message, and the sectors of the message are marked with its identifier. Bitfields, the chain
  node and the order in which Go walks over a map are parameters.
\<close>

section \<open>Parameters\<close>

record 'b bits_lib =
  bt_New :: 'b
  bt_Set :: "u64 \<Rightarrow> 'b \<Rightarrow> 'b"
  bt_Count :: "'b \<Rightarrow> u64 res"
  bt_Copy :: "'b \<Rightarrow> 'b res"
  bt_Intersect :: "'b \<Rightarrow> 'b \<Rightarrow> 'b res"
  bt_Slice :: "'b \<Rightarrow> u64 \<Rightarrow> 'b res"
  bt_Subtract :: "'b \<Rightarrow> 'b \<Rightarrow> 'b res"
  bt_All :: "'b \<Rightarrow> u64 list res"

text \<open>What go-bitfield documents of the operations the processor uses; \<open>Slice\<close> takes the first bits of a set.\<close>

definition bits_ok :: "'b bits_lib \<Rightarrow> ('b \<Rightarrow> u64 set) \<Rightarrow> bool" where
  "bits_ok bt bits = (bits (bt_New bt) = {} \<and> (\<forall>n b. bits (bt_Set bt n b) = insert n (bits b)) \<and>
     (\<forall>b c. bt_Count bt b = Inr c \<longrightarrow> unat c = card (bits b)) \<and> (\<forall>b c. bt_Copy bt b = Inr c \<longrightarrow> bits c = bits b) \<and>
     (\<forall>a b c. bt_Intersect bt a b = Inr c \<longrightarrow> bits c = bits a \<inter> bits b) \<and>
     (\<forall>b n c. bt_Slice bt b n = Inr c \<longrightarrow> bits c \<subseteq> bits b \<and> card (bits c) \<le> unat n) \<and>
     (\<forall>b ns. bt_All bt b = Inr ns \<longrightarrow> set ns = bits b))"

record 'b termination_decl =
  td_Deadline :: u64
  td_Partition :: u64
  td_Sectors :: 'b

record 'b term_api =
  ta_bits :: "'b bits_lib"
  ta_ProvingDeadline :: "address \<Rightarrow> u64 res"
  ta_MinerPartitions :: "address \<Rightarrow> u64 \<Rightarrow> 'b list res"
  ta_WPoStPeriodDeadlines :: u64
  ta_AddressedSectorsMax :: u64
  ta_DeclarationsMax :: nat
  ta_MarshalTerminations :: "'b termination_decl list \<Rightarrow> bytes res"
  ta_Order :: "(sector_location \<times> 'b) list \<Rightarrow> (sector_location \<times> 'b) list"

section \<open>Processing\<close>

fun group_sectors :: "commit_env \<Rightarrow> 'b bits_lib \<Rightarrow> address \<Rightarrow> sector_state list \<Rightarrow> (sector_location \<times> 'b) list \<Rightarrow> (sector_location \<times> 'b) list" where
  "group_sectors env bt maddr [] todo = todo"
| "group_sectors env bt maddr (s # ss) todo = (case ce_SectorPartition env maddr (sid_Number (ss_ID s)) of
     Inr (Some loc) \<Rightarrow> group_sectors env bt maddr ss (AList.update loc
       (bt_Set bt (sid_Number (ss_ID s)) (case map_of todo loc of None \<Rightarrow> bt_New bt | Some b \<Rightarrow> b)) todo)
   | _ \<Rightarrow> group_sectors env bt maddr ss todo)"

definition challenged :: "u64 \<Rightarrow> u64 \<Rightarrow> u64 \<Rightarrow> bool" where
  "challenged deadlines current dl = (dl = (current + 1) mod deadlines \<or> dl = current \<or> (dl + 1) mod deadlines = current)"

text \<open>One group. \<open>Inr None\<close> is a \<open>continue\<close>; otherwise the declaration and the number it is counted with, which
  is taken before the dead sectors are removed.\<close>

definition declare_group :: "'b term_api \<Rightarrow> address \<Rightarrow> u64 \<Rightarrow> u64 \<Rightarrow> sector_location \<Rightarrow> 'b \<Rightarrow> ('b termination_decl \<times> u64) option res" where
  "declare_group ta maddr current tot loc b = (let bt = ta_bits ta in case bt_Count bt b of
     Inl e \<Rightarrow> Inr None
   | Inr n \<Rightarrow>
      if challenged (ta_WPoStPeriodDeadlines ta) current (lo_Deadline loc) then Inr None
      else if n < 1 then Inr None
      else (case bt_Copy bt b of
        Inl e \<Rightarrow> Inr None
      | Inr b1 \<Rightarrow> (case ta_MinerPartitions ta maddr (lo_Deadline loc) of
          Inl e \<Rightarrow> Inr None
        | Inr ps \<Rightarrow>
           if unat (lo_Partition loc) \<ge> length ps then Inl (Panic ''index out of range'')
           else (case bt_Intersect bt (ps ! unat (lo_Partition loc)) b1 of
             Inl e \<Rightarrow> Inr None
           | Inr b2 \<Rightarrow> (let decl = (\<lambda>x. \<lparr>td_Deadline = lo_Deadline loc, td_Partition = lo_Partition loc, td_Sectors = x\<rparr>);
                 room = ta_AddressedSectorsMax ta - tot in
               if tot + n > ta_AddressedSectorsMax ta then
                 (case bt_Slice bt b2 room of
                    Inl e \<Rightarrow> Inr None
                  | Inr b3 \<Rightarrow> (case bt_Subtract bt b b3 of Inl e \<Rightarrow> Inr None | Inr _ \<Rightarrow> Inr (Some (decl b3, room))))
               else Inr (Some (decl b2, n)))))))"

fun declare_groups :: "'b term_api \<Rightarrow> address \<Rightarrow> u64 \<Rightarrow> (sector_location \<times> 'b) list \<Rightarrow> u64 \<Rightarrow> 'b termination_decl list \<Rightarrow> 'b termination_decl list res" where
  "declare_groups ta maddr current [] tot ds = Inr ds"
| "declare_groups ta maddr current ((loc, b) # gs) tot ds = (case declare_group ta maddr current tot loc b of
     Inl e \<Rightarrow> Inl e
   | Inr None \<Rightarrow> declare_groups ta maddr current gs tot ds
   | Inr (Some (d, n)) \<Rightarrow> (let ds1 = ds @ [d]; tot1 = tot + n in
       if tot1 \<ge> ta_AddressedSectorsMax ta \<or> length ds1 \<ge> ta_DeclarationsMax ta then Inr ds1
       else declare_groups ta maddr current gs tot1 ds1))"

text \<open>Marking stops at a declaration whose bits do not decode.\<close>

fun mark_terminated :: "'b bits_lib \<Rightarrow> cid \<Rightarrow> 'b termination_decl list \<Rightarrow> sector_state list \<Rightarrow> unit res \<times> sector_state list" where
  "mark_terminated bt mcid [] sectors = (Inr (), sectors)"
| "mark_terminated bt mcid (d # ds) sectors = (case bt_All bt (td_Sectors d) of
     Inl e \<Rightarrow> (Inl (Wrap ''sectors foreach'' e), sectors)
   | Inr ns \<Rightarrow> mark_terminated bt mcid ds (map (\<lambda>s. if sid_Number (ss_ID s) \<in> set ns
       then s\<lparr>ss_TerminateInfo := (ss_TerminateInfo s)\<lparr>ti_TerminateCid := Some mcid\<rparr>\<rparr> else s) sectors))"

definition term_declarations :: "commit_env \<Rightarrow> 'b term_api \<Rightarrow> sector_state list \<Rightarrow> u64 \<Rightarrow> 'b termination_decl list res" where
  "term_declarations env ta sectors mid = (case cl_NewIDAddress (ce_lib env) mid of
     Inl e \<Rightarrow> Inl (Wrap ''actor id'' e)
   | Inr maddr \<Rightarrow> (case ta_ProvingDeadline ta maddr of
       Inl e \<Rightarrow> Inl (Wrap ''getting proving deadline info'' e)
     | Inr current \<Rightarrow> declare_groups ta maddr current (ta_Order ta (group_sectors env (ta_bits ta) maddr sectors [])) 0 []))"

definition terminate_body :: "commit_env \<Rightarrow> messager \<Rightarrow> 'b term_api \<Rightarrow> sector_state list \<Rightarrow> u64 \<Rightarrow> address \<Rightarrow> sent \<Rightarrow>
    (unit res \<times> sector_state list \<times> sent) option" where
  "terminate_body env ms ta sectors mid ctrlAddr sent = (let stop = (\<lambda>r. Some (r, sectors, sent)) in
     case term_declarations env ta sectors mid of
       Inl e \<Rightarrow> stop (Inl e)
     | Inr ds \<Rightarrow> if ds = [] then stop (Inr ())
         else (case ta_MarshalTerminations ta ds of
           Inl e \<Rightarrow> stop (Inl (Wrap ''couldn't serialize TerminateSectorsParams'' e))
         | Inr enc \<Rightarrow> (case MustMinerConfig (ce_cfg env) mid of
             Inl e \<Rightarrow> stop (Inl e)
           | Inr mcfg \<Rightarrow> (case pushMessage (ce_lib env) ms ctrlAddr mid 0 TerminateSectors
                 (bp_FeeConfig (cp_Batch (cc_Terminate (mc_Commitment mcfg)))) enc sent of
               None \<Rightarrow> None
             | Some (Inl e, sent1) \<Rightarrow> Some (Inl (Wrap ''push aggregate terminate message failed'' e), sectors, sent1)
             | Some (Inr mcid, sent1) \<Rightarrow> (case mark_terminated (ta_bits ta) mcid ds sectors of
                 (r, sectors1) \<Rightarrow> Some (r, sectors1, sent1))))))"

text \<open>The deferred write-back: only sectors with an identifier.\<close>

fun updateTerminated :: "sector_state list \<Rightarrow> state_mgr \<Rightarrow> state_mgr" where
  "updateTerminated [] sm = sm"
| "updateTerminated (s # ss) sm = updateTerminated ss
     (if ti_TerminateCid (ss_TerminateInfo s) \<noteq> None
      then snd (Update (ss_ID s) WorkerOffline [FTerminateInfo (ss_TerminateInfo s)] sm) else sm)"

definition terminate_Process :: "commit_env \<Rightarrow> messager \<Rightarrow> 'b term_api \<Rightarrow> sector_state list \<Rightarrow> u64 \<Rightarrow> address \<Rightarrow> state_mgr \<times> sent \<Rightarrow>
    (unit res \<times> state_mgr \<times> sent) option" where
  "terminate_Process env ms ta sectors mid ctrlAddr s = map_option (\<lambda>(r, sectors1, sent1). (r, updateTerminated sectors1 (fst s), sent1))
     (terminate_body env ms ta sectors mid ctrlAddr (snd s))"

section \<open>Lemmas\<close>

text \<open>A declaration that a group of sectors may give rise to: of the group's deadline and partition, not challenged, of sectors
  of the group that are alive.\<close>

definition decl_of :: "'b term_api \<Rightarrow> ('b \<Rightarrow> u64 set) \<Rightarrow> address \<Rightarrow> u64 \<Rightarrow> sector_location \<times> 'b \<Rightarrow> 'b termination_decl \<Rightarrow> bool" where
  "decl_of ta bits maddr current g d = (case g of (loc, b) \<Rightarrow>
     td_Deadline d = lo_Deadline loc \<and> td_Partition d = lo_Partition loc \<and>
     \<not> challenged (ta_WPoStPeriodDeadlines ta) current (td_Deadline d) \<and> bits (td_Sectors d) \<subseteq> bits b \<and>
     (\<exists>ps. ta_MinerPartitions ta maddr (td_Deadline d) = Inr ps \<and> unat (td_Partition d) < length ps \<and>
        bits (td_Sectors d) \<subseteq> bits (ps ! unat (td_Partition d))))"

lemma declare_groupD:
  assumes "declare_group ta maddr current tot loc b = Inr (Some (d, n))" "bits_ok (ta_bits ta) bits"
    "tot \<le> ta_AddressedSectorsMax ta" "unat (ta_AddressedSectorsMax ta) + card (bits b) < 2 ^ 64"
  shows "decl_of ta bits maddr current (loc, b) d \<and> card (bits (td_Sectors d)) \<le> unat n \<and>
    unat (tot + n) = unat tot + unat n \<and> tot + n \<le> ta_AddressedSectorsMax ta"
proof -
  let ?M = "ta_AddressedSectorsMax ta" and ?bt = "ta_bits ta"
  from assms(1) obtain n0 b1 ps b2 where c: "bt_Count ?bt b = Inr n0" "\<not> challenged (ta_WPoStPeriodDeadlines ta) current (lo_Deadline loc)"
      "bt_Copy ?bt b = Inr b1" "ta_MinerPartitions ta maddr (lo_Deadline loc) = Inr ps" "unat (lo_Partition loc) < length ps"
      "bt_Intersect ?bt (ps ! unat (lo_Partition loc)) b1 = Inr b2"
    and e: "(\<exists>b3. tot + n0 > ?M \<and> bt_Slice ?bt b2 (?M - tot) = Inr b3 \<and> n = ?M - tot \<and>
         d = \<lparr>td_Deadline = lo_Deadline loc, td_Partition = lo_Partition loc, td_Sectors = b3\<rparr>) \<or>
       \<not> tot + n0 > ?M \<and> n = n0 \<and> d = \<lparr>td_Deadline = lo_Deadline loc, td_Partition = lo_Partition loc, td_Sectors = b2\<rparr>"
    by (auto simp: declare_group_def Let_def not_le split: sum.splits if_splits)
  have b2: "bits b2 = bits (ps ! unat (lo_Partition loc)) \<inter> bits b" and n0: "unat n0 = card (bits b)"
    using assms(2) c(1,3,6) unfolding bits_ok_def by metis+
  have sub: "card (bits b2) \<le> unat n0" unfolding b2 n0 by (rule card_mono) auto
  from assms(3) have le: "unat tot \<le> unat ?M" by (simp add: word_le_nat_alt)
  have nowrap: "unat (tot + n0) = unat tot + unat n0" using assms(4) le n0 by (intro unat_plus_simple [THEN iffD1]) (simp add: no_olen_add_nat)
  from e show ?thesis
  proof (elim disjE exE conjE)
    fix b3 assume s: "bt_Slice ?bt b2 (?M - tot) = Inr b3" "n = ?M - tot"
      "d = \<lparr>td_Deadline = lo_Deadline loc, td_Partition = lo_Partition loc, td_Sectors = b3\<rparr>"
    have "bits b3 \<subseteq> bits b2" "card (bits b3) \<le> unat (?M - tot)" using assms(2) s(1) unfolding bits_ok_def by blast+
    moreover have "tot + n = ?M" "unat ?M = unat tot + unat n" using s(2) assms(3) le by (simp_all add: unat_sub)
    ultimately show ?thesis using c s b2 by (auto simp: decl_of_def)
  next
    assume s: "\<not> ?M < tot + n0" "n = n0" "d = \<lparr>td_Deadline = lo_Deadline loc, td_Partition = lo_Partition loc, td_Sectors = b2\<rparr>"
    then show ?thesis using c b2 sub nowrap by (auto simp: decl_of_def)
  qed
qed

lemma set_alist_update: "set (AList.update k v xs) \<subseteq> insert (k, v) (set xs)"
  by (induction xs) auto

definition located_in :: "commit_env \<Rightarrow> address \<Rightarrow> sector_state list \<Rightarrow> sector_location \<Rightarrow> u64 set" where
  "located_in env maddr sectors loc = (\<lambda>s. sid_Number (ss_ID s)) `
     {s \<in> set sectors. ce_SectorPartition env maddr (sid_Number (ss_ID s)) = Inr (Some loc)}"

lemma group_sectors_bits:
  assumes "bits_ok bt bits" "set ss \<subseteq> set sectors" "\<forall>(loc, b) \<in> set todo. bits b \<subseteq> located_in env maddr sectors loc"
  shows "\<forall>(loc, b) \<in> set (group_sectors env bt maddr ss todo). bits b \<subseteq> located_in env maddr sectors loc"
  using assms(2,3)
proof (induction ss arbitrary: todo)
  case (Cons s ss)
  show ?case
  proof (cases "\<exists>loc. ce_SectorPartition env maddr (sid_Number (ss_ID s)) = Inr (Some loc)")
    case True
    then obtain loc where loc: "ce_SectorPartition env maddr (sid_Number (ss_ID s)) = Inr (Some loc)" ..
    let ?b = "bt_Set bt (sid_Number (ss_ID s)) (case map_of todo loc of None \<Rightarrow> bt_New bt | Some b \<Rightarrow> b)"
    have "bits ?b \<subseteq> located_in env maddr sectors loc"
      using assms(1) Cons.prems loc map_of_SomeD [of todo loc]
      by (fastforce simp: bits_ok_def located_in_def split: option.splits)
    with Cons.prems(2) set_alist_update [of loc ?b todo]
    have "\<forall>(loc, b) \<in> set (AList.update loc ?b todo). bits b \<subseteq> located_in env maddr sectors loc" by blast
    with Cons.IH Cons.prems(1) loc show ?thesis by simp
  next
    case False
    with Cons show ?thesis by (auto split: sum.splits option.splits)
  qed
qed simp

lemma declare_groups_inv:
  assumes "declare_groups ta maddr current gs tot ds = Inr ds1" "bits_ok (ta_bits ta) bits" "tot \<le> ta_AddressedSectorsMax ta"
    "\<forall>(loc, b) \<in> set gs. unat (ta_AddressedSectorsMax ta) + card (bits b) < 2 ^ 64"
    "sum_list (map (\<lambda>d. card (bits (td_Sectors d))) ds) \<le> unat tot" "length ds < max 1 (ta_DeclarationsMax ta)"
  shows "sum_list (map (\<lambda>d. card (bits (td_Sectors d))) ds1) \<le> unat (ta_AddressedSectorsMax ta) \<and>
    length ds1 \<le> max 1 (ta_DeclarationsMax ta) \<and>
    (\<forall>d \<in> set ds1. d \<in> set ds \<or> (\<exists>g \<in> set gs. decl_of ta bits maddr current g d))"
  using assms(1,3-6)
proof (induction gs arbitrary: tot ds)
  case Nil
  then show ?case by (auto simp: word_le_nat_alt)
next
  case (Cons g gs)
  obtain loc b where g: "g = (loc, b)" by fastforce
  show ?case
  proof (cases "declare_group ta maddr current tot loc b")
    case (Inr o1)
    show ?thesis
    proof (cases o1)
      case None
      with Inr Cons.prems g have "declare_groups ta maddr current gs tot ds = Inr ds1" by simp
      from Cons.IH [OF this] Cons.prems show ?thesis by auto
    next
      case (Some dn)
      obtain d n where dn: "dn = (d, n)" by fastforce
      have fit: "unat (ta_AddressedSectorsMax ta) + card (bits b) < 2 ^ 64" using Cons.prems(3) g by simp
      from declare_groupD [OF Inr [unfolded Some dn] assms(2) Cons.prems(2) fit] have D:
        "decl_of ta bits maddr current (loc, b) d" "card (bits (td_Sectors d)) \<le> unat n" "unat (tot + n) = unat tot + unat n"
        "tot + n \<le> ta_AddressedSectorsMax ta" by auto
      have sum: "sum_list (map (\<lambda>d. card (bits (td_Sectors d))) (ds @ [d])) \<le> unat (tot + n)" using Cons.prems(4) D(2,3) by simp
      show ?thesis
      proof (cases "tot + n \<ge> ta_AddressedSectorsMax ta \<or> length (ds @ [d]) \<ge> ta_DeclarationsMax ta")
        case True
        with Cons.prems(1) g Inr Some dn have "ds1 = ds @ [d]" by (simp add: Let_def)
        with sum D(1,4) Cons.prems(5) g show ?thesis by (auto simp: word_le_nat_alt)
      next
        case False
        with Cons.prems(1) g Inr Some dn have "declare_groups ta maddr current gs (tot + n) (ds @ [d]) = Inr ds1" by (simp add: Let_def)
        from Cons.IH [OF this D(4) _ sum] Cons.prems(3) False D(1) g show ?thesis by auto
      qed
    qed
  qed (use Cons.prems g in simp)
qed

lemma group_sectors_locs:
  "(loc, b) \<in> set (group_sectors env bt maddr ss todo) \<Longrightarrow>
   loc \<in> fst ` set todo \<or> (\<exists>s \<in> set ss. ce_SectorPartition env maddr (sid_Number (ss_ID s)) = Inr (Some loc))"
proof (induction ss arbitrary: todo)
  case (Cons s ss)
  show ?case
  proof (cases "\<exists>l. ce_SectorPartition env maddr (sid_Number (ss_ID s)) = Inr (Some l)")
    case True
    then obtain l where l: "ce_SectorPartition env maddr (sid_Number (ss_ID s)) = Inr (Some l)" ..
    let ?t = "AList.update l (bt_Set bt (sid_Number (ss_ID s)) (case map_of todo l of None \<Rightarrow> bt_New bt | Some b \<Rightarrow> b)) todo"
    have "fst ` set ?t \<subseteq> insert l (fst ` set todo)" using set_alist_update [of l _ todo] by fastforce
    moreover have "(loc, b) \<in> set (group_sectors env bt maddr ss ?t)" using Cons.prems l by simp
    ultimately show ?thesis using Cons.IH [of ?t] l by auto
  next
    case False
    with Cons show ?thesis by (auto split: sum.splits option.splits)
  qed
qed force

lemma declare_groups_challenged:
  "\<forall>(loc, b) \<in> set gs. challenged (ta_WPoStPeriodDeadlines ta) current (lo_Deadline loc) \<Longrightarrow>
   declare_groups ta maddr current gs tot ds = Inr ds"
proof (induction gs)
  case (Cons g gs)
  obtain loc b where "g = (loc, b)" by fastforce
  moreover from this Cons.prems have "declare_group ta maddr current tot loc b = Inr None"
    by (auto simp: declare_group_def Let_def split: sum.splits)
  ultimately show ?case using Cons by simp
qed simp

lemma updateTerminated_none: "\<forall>s \<in> set ss. ti_TerminateCid (ss_TerminateInfo s) = None \<Longrightarrow> updateTerminated ss sm = sm"
  by (induction ss) auto

section \<open>Properties\<close>

text \<open>C32. The declarations of a termination message respect the limits of the actor, and every sector they name is a
  sector of the batch, at that deadline and partition, alive there, and not in a deadline that is
  being challenged, comes next or was challenged last.\<close>

theorem terminations_valid:
  assumes "term_declarations env ta sectors mid = Inr ds" "bits_ok (ta_bits ta) bits" "\<And>xs. set (ta_Order ta xs) = set xs"
    "unat (ta_AddressedSectorsMax ta) + length sectors < 2 ^ 64"
  shows "sum_list (map (\<lambda>d. card (bits (td_Sectors d))) ds) \<le> unat (ta_AddressedSectorsMax ta) \<and>
    length ds \<le> max 1 (ta_DeclarationsMax ta) \<and>
    (\<exists>maddr current. cl_NewIDAddress (ce_lib env) mid = Inr maddr \<and> ta_ProvingDeadline ta maddr = Inr current \<and>
      (\<forall>d \<in> set ds. \<not> challenged (ta_WPoStPeriodDeadlines ta) current (td_Deadline d) \<and>
        bits (td_Sectors d) \<subseteq> located_in env maddr sectors \<lparr>lo_Deadline = td_Deadline d, lo_Partition = td_Partition d\<rparr> \<and>
        (\<exists>ps. ta_MinerPartitions ta maddr (td_Deadline d) = Inr ps \<and> unat (td_Partition d) < length ps \<and>
           bits (td_Sectors d) \<subseteq> bits (ps ! unat (td_Partition d)))))"
proof -
  from assms(1) obtain maddr current where c: "cl_NewIDAddress (ce_lib env) mid = Inr maddr" "ta_ProvingDeadline ta maddr = Inr current"
    and run: "declare_groups ta maddr current (ta_Order ta (group_sectors env (ta_bits ta) maddr sectors [])) 0 [] = Inr ds"
    by (auto simp: term_declarations_def split: sum.splits)
  let ?gs = "ta_Order ta (group_sectors env (ta_bits ta) maddr sectors [])"
  have bits: "\<forall>(loc, b) \<in> set ?gs. bits b \<subseteq> located_in env maddr sectors loc"
    unfolding assms(3) by (rule group_sectors_bits [OF assms(2) subset_refl]) simp
  have "card (located_in env maddr sectors loc) \<le> length sectors" for loc
  proof -
    have "card (located_in env maddr sectors loc) \<le> card {s \<in> set sectors. ce_SectorPartition env maddr (sid_Number (ss_ID s)) = Inr (Some loc)}"
      unfolding located_in_def by (rule card_image_le) simp
    also have "\<dots> \<le> card (set sectors)" by (rule card_mono) auto
    also have "\<dots> \<le> length sectors" by (rule card_length)
    finally show ?thesis .
  qed
  moreover have "card (bits b) \<le> card (located_in env maddr sectors loc)" if "(loc, b) \<in> set ?gs" for loc b
    using bits that by (intro card_mono) auto
  ultimately have fit: "\<forall>(loc, b) \<in> set ?gs. unat (ta_AddressedSectorsMax ta) + card (bits b) < 2 ^ 64"
    using assms(4) by (fastforce intro: le_less_trans [OF add_left_mono])
  note inv = declare_groups_inv [OF run assms(2) _ fit]
  have declared: "\<exists>g \<in> set ?gs. decl_of ta bits maddr current g d" if "d \<in> set ds" for d using inv that by auto
  have each: "\<not> challenged (ta_WPoStPeriodDeadlines ta) current (td_Deadline d) \<and>
        bits (td_Sectors d) \<subseteq> located_in env maddr sectors \<lparr>lo_Deadline = td_Deadline d, lo_Partition = td_Partition d\<rparr> \<and>
        (\<exists>ps. ta_MinerPartitions ta maddr (td_Deadline d) = Inr ps \<and> unat (td_Partition d) < length ps \<and>
           bits (td_Sectors d) \<subseteq> bits (ps ! unat (td_Partition d)))" if d: "d \<in> set ds" for d
  proof -
    from declared [OF d] obtain loc b where g: "(loc, b) \<in> set ?gs" "decl_of ta bits maddr current (loc, b) d" by fast
    then have "loc = \<lparr>lo_Deadline = td_Deadline d, lo_Partition = td_Partition d\<rparr>" by (simp add: decl_of_def)
    moreover have "bits (td_Sectors d) \<subseteq> located_in env maddr sectors loc"
      using g(2) bspec [OF bits g(1)] by (auto simp: decl_of_def)
    ultimately show ?thesis using g(2) by (simp add: decl_of_def)
  qed
  from inv each c show ?thesis by auto
qed

text \<open>Sectors whose deadline is being challenged are dropped: a batch of them is processed with success, without a message and
  without a trace in the store, and since their height stays recorded they cannot be submitted again.\<close>

theorem challenged_terminations_dropped:
  assumes "cl_NewIDAddress (ce_lib env) mid = Inr maddr" "ta_ProvingDeadline ta maddr = Inr current" "\<And>xs. set (ta_Order ta xs) = set xs"
    "\<forall>s \<in> set sectors. \<exists>loc. ce_SectorPartition env maddr (sid_Number (ss_ID s)) = Inr (Some loc) \<and>
       challenged (ta_WPoStPeriodDeadlines ta) current (lo_Deadline loc)"
    "\<forall>s \<in> set sectors. ti_TerminateCid (ss_TerminateInfo s) = None"
    "\<forall>s \<in> set sectors. \<exists>st. stored c WorkerOffline (ss_ID s) = Some (Json st) \<and> 0 < ti_AddedHeight (ss_TerminateInfo st)"
  shows "terminate_Process env ms ta sectors mid ctrlAddr (cm_smgr c, sent) = Some (Inr (), cm_smgr c, sent) \<and>
    (\<forall>s \<in> set sectors. same c (snd (SubmitTerminate env (ss_ID s) c)) \<and> fst (SubmitTerminate env (ss_ID s) c) \<noteq> respond SubmitAccepted None)"
proof -
  let ?gs = "ta_Order ta (group_sectors env (ta_bits ta) maddr sectors [])"
  have "\<forall>(loc, b) \<in> set ?gs. challenged (ta_WPoStPeriodDeadlines ta) current (lo_Deadline loc)"
    unfolding assms(3) using group_sectors_locs [of _ _ env "ta_bits ta" maddr sectors "[]"] assms(4) by fastforce
  from declare_groups_challenged [OF this] have "term_declarations env ta sectors mid = Inr []"
    using assms(1,2) by (simp add: term_declarations_def)
  then have "terminate_Process env ms ta sectors mid ctrlAddr (cm_smgr c, sent) = Some (Inr (), cm_smgr c, sent)"
    by (simp add: terminate_Process_def terminate_body_def Let_def updateTerminated_none [OF assms(5)])
  moreover have "same c (snd (SubmitTerminate env (ss_ID s) c)) \<and> fst (SubmitTerminate env (ss_ID s) c) \<noteq> respond SubmitAccepted None"
    if "s \<in> set sectors" for s
    using bspec [OF assms(6) that] SubmitTerminate_dup by blast
  ultimately show ?thesis by blast
qed

section \<open>Instances\<close>

definition demo_bits :: "u64 list bits_lib" where
  "demo_bits = \<lparr>bt_New = [], bt_Set = List.insert, bt_Count = (\<lambda>b. Inr (of_nat (card (set b)))), bt_Copy = Inr,
     bt_Intersect = (\<lambda>a b. Inr (filter (\<lambda>x. x \<in> set a) b)), bt_Slice = (\<lambda>b n. Inr (take (unat n) b)),
     bt_Subtract = (\<lambda>a b. Inr (filter (\<lambda>x. x \<notin> set b) a)), bt_All = Inr\<rparr>"

text \<open>A list with more than $2^{64}$ different numbers does not exist, but the count must say so.\<close>

definition demo_bits_checked :: "u64 list bits_lib" where
  "demo_bits_checked = demo_bits\<lparr>bt_Count := (\<lambda>b. if length (remdups b) < 2 ^ 64 then Inr (of_nat (length (remdups b))) else Inl (Ext ''overflow''))\<rparr>"

lemma demo_bits_ok: "bits_ok demo_bits_checked set"
proof -
  have "card (set (take n b)) \<le> n" for n and b :: "u64 list" using card_length [of "take n b"] by simp
  moreover have "set (take n b) \<subseteq> set b" for n and b :: "u64 list" by (rule set_take_subset)
  ultimately show ?thesis
    by (auto simp: bits_ok_def demo_bits_checked_def demo_bits_def unat_of_nat length_remdups_card_conv split: if_splits)
qed

definition demo_term :: "u64 list term_api" where
  "demo_term = \<lparr>ta_bits = demo_bits_checked, ta_ProvingDeadline = (\<lambda>_. Inr 5), ta_MinerPartitions = (\<lambda>_ _. Inr [[7, 9]]),
     ta_WPoStPeriodDeadlines = 48, ta_AddressedSectorsMax = 10, ta_DeclarationsMax = 3, ta_MarshalTerminations = (\<lambda>_. Inr [4]), ta_Order = id\<rparr>"

theorem terminations_valid_witness:
  "\<exists>ds. term_declarations demo_env demo_term [demo_permfailed] 1000 = Inr ds \<and> length ds = 1 \<and>
     sum_list (map (\<lambda>d. card (set (td_Sectors d))) ds) \<le> 10"
proof -
  have "term_declarations demo_env demo_term [demo_permfailed] 1000 =
      Inr [\<lparr>td_Deadline = 0, td_Partition = 0, td_Sectors = [7]\<rparr>]"
    by (simp add: term_declarations_def declare_group_def challenged_def Let_def demo_term_def demo_bits_checked_def demo_bits_def
        demo_permfailed_def demo_commit_defs)
  from terminations_valid [OF this, of set] this show ?thesis
    by (simp add: demo_bits_ok demo_term_def)
qed

theorem challenged_terminations_dropped_witness:
  "let c = demo_commit\<lparr>cm_smgr := demo_mgr\<lparr>sm_offline := demo_store (Json demo_permfailed)\<rparr>\<rparr>;
       s = demo_permfailed\<lparr>ss_TerminateInfo := (ss_TerminateInfo demo_permfailed)\<lparr>ti_TerminateCid := None\<rparr>\<rparr>
   in terminate_Process demo_env demo_messager (demo_term\<lparr>ta_ProvingDeadline := (\<lambda>_. Inr 0)\<rparr>) [s] 1000 Undef (cm_smgr c, []) =
      Some (Inr (), cm_smgr c, [])"
proof -
  let ?c = "demo_commit\<lparr>cm_smgr := demo_mgr\<lparr>sm_offline := demo_store (Json demo_permfailed)\<rparr>\<rparr>"
  let ?s = "demo_permfailed\<lparr>ss_TerminateInfo := (ss_TerminateInfo demo_permfailed)\<lparr>ti_TerminateCid := None\<rparr>\<rparr>"
  have a: "stored ?c WorkerOffline demo_sid = Some (Json demo_permfailed)" by (simp add: view_def demo_defs)
  have "ss_ID ?s = demo_sid" "0 < ti_AddedHeight (ss_TerminateInfo demo_permfailed)" by (simp_all add: demo_permfailed_def new_sector_state_def)
  with a challenged_terminations_dropped [of demo_env 1000 "IDAddress 1000" "demo_term\<lparr>ta_ProvingDeadline := (\<lambda>_. Inr 0)\<rparr>" 0 "[?s]" ?c
      demo_messager Undef "[]"] show ?thesis
    by (simp add: demo_term_def demo_env_def demo_libs_def challenged_def Let_def)
qed

end
