(* ===== verification/Commit_Processors.thy ===== *)
theory Commit_Processors
  imports Commit_Manager Message_Push
begin

text \<open>
  The processors behind the batchers (\<open>modules/impl/commitmgr/precommit_processor.go\<close>,
  \<open>commit_processor.go\<close>, \<open>params.go\<close>, \<open>modules/util/piece\<close>, \<open>modules/util/pledge\<close>): a batch of sectors becomes the
  parameters of one message, the message is pushed, its identifier goes into the sectors of the
  batch and their message information is written back. CBOR encodings, the chain node and the prover are
  parameters. A run is \<open>None\<close> when \<open>pushMessage\<close> never returns. The write-back is deferred in the
  code: it runs on every other exit, with the sectors as they are then.
\<close>

section \<open>Parameters and data\<close>

record precommit_params =
  pq_Expiration :: epoch
  pq_SectorNumber :: u64
  pq_SealProof :: seal_proof
  pq_SealedCID :: cid
  pq_SealRandEpoch :: epoch
  pq_DealIDs :: "u64 list"
  pq_UnsealedCid :: "cid option"

record allocation_key =
  ak_Client :: u64
  ak_ID :: u64

record piece_manifest =
  pm_CID :: cid
  pm_Size :: u64
  pm_VerifiedAllocationKey :: "allocation_key option"
  pm_Notify :: "(address \<times> bytes) list"

record aggregate_info =
  ag_Number :: u64
  ag_Randomness :: bytes
  ag_InteractiveRandomness :: bytes
  ag_SealedCID :: cid
  ag_UnsealedCID :: cid

datatype aggregate_proof_type = SnarkPackV1 | SnarkPackV2

record prove_params =
  pv_SectorActivations :: "(u64 \<times> piece_manifest list) list"
  pv_SectorProofs :: "bytes list"
  pv_Aggregate :: "(bytes \<times> aggregate_proof_type) option"
  pv_RequireActivationSuccess :: bool
  pv_RequireNotificationSuccess :: bool

record ni_activation =
  ni_SealingNumber :: u64
  ni_SealerID :: u64
  ni_SealedCID :: cid
  ni_SectorNumber :: u64
  ni_SealRandEpoch :: epoch
  ni_Expiration :: epoch

record ni_params =
  nq_Sectors :: "ni_activation list"
  nq_SealProofType :: seal_proof
  nq_AggregateProofType :: aggregate_proof_type
  nq_ProvingDeadline :: u64
  nq_AggregateProof :: bytes
  nq_RequireActivationSuccess :: bool

text \<open>The chain node, the encodings and the prover; a tipset comes with its key and height.\<close>

record proc_api =
  ca_StateNetworkVersion :: "tipset option \<Rightarrow> u64 res"
  ca_AllocationIdForPendingDeal :: "u64 \<Rightarrow> u64 res"
  ca_StateLookupID :: "address \<Rightarrow> address res"
  ca_TipSetKeyFromBytes :: "tipset \<Rightarrow> tipset res"
  ca_ChainGetTipSet :: "tipset \<Rightarrow> (tipset \<times> epoch) res"
  ca_InitialPledgeForSector :: "epoch \<Rightarrow> u64 \<Rightarrow> u64 \<Rightarrow> tipset \<Rightarrow> int res"
  ca_PreCommitDepositForPower :: "address \<Rightarrow> precommit_params \<Rightarrow> tipset \<Rightarrow> int res"
  ca_InitialPledgeCollateral :: "address \<Rightarrow> precommit_params \<Rightarrow> tipset \<Rightarrow> int res"
  ca_ProvingDeadline :: "address \<Rightarrow> tipset \<Rightarrow> u64 res"
  ca_SectorSize :: "seal_proof \<Rightarrow> u64 res"
  ca_IsNonInteractive :: "seal_proof \<Rightarrow> bool"
  ca_MarketAddress :: address
  ca_MinAggregatedSectors :: nat
  ca_WPoStPeriodDeadlines :: u64
  ca_DumpDealID :: "u64 \<Rightarrow> bytes res"
  ca_MarshalPreCommits :: "precommit_params list \<Rightarrow> bytes res"
  ca_MarshalProve :: "prove_params \<Rightarrow> bytes res"
  ca_MarshalNI :: "ni_params \<Rightarrow> bytes res"
  ca_AggregateSealProofs :: "u64 \<Rightarrow> seal_proof \<Rightarrow> aggregate_proof_type \<Rightarrow> aggregate_info list \<Rightarrow> bytes list \<Rightarrow> bytes res"
  ca_SortSectors :: "sector_state list \<Rightarrow> sector_state list"
  ca_SortInfos :: "aggregate_info list \<Rightarrow> aggregate_info list"
  ca_SortActivations :: "ni_activation list \<Rightarrow> ni_activation list"

text \<open>What a processor works with: the environment of the commitment manager, the messager and the rest of the
  chain node.\<close>

record proc_env =
  pe_env :: commit_env
  pe_ms :: messager
  pe_ca :: proc_api

section \<open>Parameters of a pre-commit\<close>

definition precommit_failure :: "check_kind \<Rightarrow> err \<Rightarrow> err" where
  "precommit_failure k e = (case k of
     GoPanic \<Rightarrow> e
   | ErrAPI \<Rightarrow> Wrap ''call api failed'' (check_error k e)
   | ErrBadCommD \<Rightarrow> Wrap ''bad CommD error'' (check_error k e)
   | ErrExpiredTicket \<Rightarrow> Wrap ''ticket expired'' (check_error k e)
   | ErrBadTicket \<Rightarrow> Wrap ''bad ticket'' (check_error k e)
   | ErrInvalidDeals \<Rightarrow> Wrap ''invalid deals'' (check_error k e)
   | ErrExpiredDeals \<Rightarrow> Wrap ''sector deals expired'' (check_error k e)
   | ErrPrecommitOnChain \<Rightarrow> Errorf ''precommit land on chain''
   | ErrSectorNumberAllocated \<Rightarrow> ErrSectorAllocated
   | _ \<Rightarrow> Wrap ''checkPrecommit sanity check error'' (check_error k e))"

definition preCommitInfo :: "proc_env \<Rightarrow> sector_state \<Rightarrow> (precommit_params \<times> int) res" where
  "preCommitInfo pe sector = (let env = pe_env pe in case sa_ChainHead (ce_api env) of
     Inl e \<Rightarrow> Inl e
   | Inr (tok, _) \<Rightarrow> (case cl_NewIDAddress (ce_lib env) (sid_Miner (ss_ID sector)) of
       Inl e \<Rightarrow> Inl e
     | Inr maddr \<Rightarrow> (case checkPrecommit (ce_np env) (ce_api env) (ce_lib env) maddr sector of
         Inl (k, e) \<Rightarrow> Inl (precommit_failure k e)
       | Inr _ \<Rightarrow> (case sectorExpiration (ce_np env) (ce_api env) (ce_cfg env) sector of
           Inl e \<Rightarrow> Inl (if is_panic e then e else Wrap ''handlePreCommitting: failed to compute pre-commit expiry'' e)
         | Inr expiration \<Rightarrow> (case (ss_Pre sector, ss_Ticket sector) of
             (Some pre, Some tk) \<Rightarrow>
               (let params = \<lparr>pq_Expiration = expiration, pq_SectorNumber = sid_Number (ss_ID sector),
                      pq_SealProof = ss_SectorType sector, pq_SealedCID = pc_CommR pre, pq_SealRandEpoch = tk_Epoch tk,
                      pq_DealIDs = [], pq_UnsealedCid =
                        (if ss_Pieces sector \<noteq> [] \<or> ss_LegacyPieces sector \<noteq> [] then Some (pc_CommD pre) else None)\<rparr> in
                case ca_PreCommitDepositForPower (pe_ca pe) maddr params tok of
                  Inl e \<Rightarrow> Inl (Wrap ''getting initial pledge collateral'' e)
                | Inr deposit \<Rightarrow> Inr (params, deposit))
           | _ \<Rightarrow> nil_deref)))))"

section \<open>Pre-commit batches\<close>

text \<open>The entries of a batch: a sector without parameters is skipped with a log line; a panic ends the process.\<close>

fun precommit_entries :: "proc_env \<Rightarrow> sector_state list \<Rightarrow> (sector_state \<times> (precommit_params \<times> int) option) list res" where
  "precommit_entries pe [] = Inr []"
| "precommit_entries pe (s # ss) = (case preCommitInfo pe s of
     Inl e \<Rightarrow> if is_panic e then Inl e
       else map_sum id (Cons (s, None)) (precommit_entries pe ss)
   | Inr info \<Rightarrow> map_sum id (Cons (s, Some info)) (precommit_entries pe ss))"

definition batch_entries :: "(sector_state \<times> (precommit_params \<times> int) option) list \<Rightarrow> (sector_state \<times> precommit_params \<times> int) list" where
  "batch_entries es = List.map_filter (\<lambda>(s, i). map_option (Pair s) i) es"

definition sent_params :: "sector_state \<Rightarrow> precommit_params \<Rightarrow> precommit_params" where
  "sent_params s q = (if HasDDODeal s then q\<lparr>pq_DealIDs := []\<rparr> else q)"

definition mark_precommit :: "cid \<Rightarrow> sector_state \<Rightarrow> sector_state" where
  "mark_precommit ccid s = s\<lparr>ss_MessageInfo := (ss_MessageInfo s)\<lparr>mi_PreCommitCid := Some ccid\<rparr>\<rparr>"

definition sendPrecommit :: "proc_env \<Rightarrow> miner_config \<Rightarrow> u64 \<Rightarrow> address \<Rightarrow>
    (sector_state \<times> (precommit_params \<times> int) option) list \<Rightarrow> sent \<Rightarrow> (unit res \<times> sector_state list \<times> sent) option" where
  "sendPrecommit pe mcfg mid ctrlAddr es sent =
    (let infos = batch_entries es; pol = cc_Pre (mc_Commitment mcfg);
         deposit = (if cp_SendFund pol then sum_list (map (\<lambda>(s, q, d). d) infos) else 0)
     in case ca_MarshalPreCommits (pe_ca pe) (map (\<lambda>(s, q, d). sent_params s q) infos) of
          Inl e \<Rightarrow> Some (Inl (Wrap ''couldn't serialize PreCommitSectorBatchParams'' e), map fst es, sent)
        | Inr enc \<Rightarrow> (case pushMessage (ce_lib (pe_env pe)) (pe_ms pe) ctrlAddr mid deposit PreCommitSectorBatch2
              (if length infos > 1 then bp_FeeConfig (cp_Batch pol) else cp_FeeConfig pol) enc sent of
            None \<Rightarrow> None
          | Some (Inl e, sent1) \<Rightarrow> Some (Inl (Wrap ''push message failed'' e), map fst es, sent1)
          | Some (Inr ccid, sent1) \<Rightarrow>
              Some (Inr (), map (\<lambda>(s, i). if i = None then s else mark_precommit ccid s) es, sent1)))"

definition precommit_body :: "proc_env \<Rightarrow> sector_state list \<Rightarrow> u64 \<Rightarrow> address \<Rightarrow> sent \<Rightarrow>
    (unit res \<times> sector_state list \<times> sent) option" where
  "precommit_body pe sectors mid ctrlAddr sent = (case MinerConfig (ce_cfg (pe_env pe)) mid of
     Inl e \<Rightarrow> Some (Inl (Wrap ''get miner config'' e), sectors, sent)
   | Inr mcfg \<Rightarrow> (case precommit_entries pe sectors of
       Inl e \<Rightarrow> Some (Inl e, sectors, sent)
     | Inr es \<Rightarrow> if batch_entries es = [] then Some (Inl (Errorf ''no available sector infos for pre commit ''), sectors, sent)
         else sendPrecommit pe mcfg mid ctrlAddr es sent))"

text \<open>The deferred write-back.\<close>

definition deferred :: "(unit res \<times> sector_state list \<times> sent) option \<Rightarrow> state_mgr \<Rightarrow> (unit res \<times> state_mgr \<times> sent) option" where
  "deferred run sm = map_option (\<lambda>(r, sectors, sent). (r, updateSector sectors sm, sent)) run"

definition precommit_Process :: "proc_env \<Rightarrow> sector_state list \<Rightarrow> u64 \<Rightarrow> address \<Rightarrow> state_mgr \<times> sent \<Rightarrow>
    (unit res \<times> state_mgr \<times> sent) option" where
  "precommit_Process pe sectors mid ctrlAddr s = deferred (precommit_body pe sectors mid ctrlAddr (snd s)) (fst s)"

section \<open>Piece manifests\<close>

text \<open>The lookup of a deal's client. \<open>Client\<close> panics on a legacy deal without a proposal.\<close>

definition client_id :: "proc_env \<Rightarrow> sector_piece \<Rightarrow> u64 res" where
  "client_id pe p = (case Client p of
     Inl e \<Rightarrow> Inl e
   | Inr client \<Rightarrow> map_err (Wrap ''getting client address for deal'') (case ca_StateLookupID (pe_ca pe) client of
       Inl e \<Rightarrow> Inl e | Inr clid \<Rightarrow> cl_IDFromAddress (ce_lib (pe_env pe)) clid))"

definition allocation_key_of :: "proc_env \<Rightarrow> sector_piece \<Rightarrow> allocation_key option res" where
  "allocation_key_of pe p = (case ca_AllocationIdForPendingDeal (pe_ca pe) (DealID p) of
     Inl e \<Rightarrow> Inl (Wrap ''getting allocation for deal'' e)
   | Inr alloc \<Rightarrow> if alloc = 0 then Inr None
       else (case client_id pe p of Inl e \<Rightarrow> Inl e | Inr cl \<Rightarrow> Inr (Some \<lparr>ak_Client = cl, ak_ID = alloc\<rparr>)))"

definition market_manifest :: "proc_env \<Rightarrow> sector_piece \<Rightarrow> piece_manifest res" where
  "market_manifest pe p = (case ca_StateNetworkVersion (pe_ca pe) None of
     Inl e \<Rightarrow> Inl (Wrap ''getting network version'' e)
   | Inr nv \<Rightarrow> (case (if nv < 29 then allocation_key_of pe p else Inr None) of
       Inl e \<Rightarrow> Inl e
     | Inr vac \<Rightarrow> (case ca_DumpDealID (pe_ca pe) (DealID p) of
         Inl e \<Rightarrow> Inl (Wrap ''serializing deal id'' e)
       | Inr payload \<Rightarrow> Inr \<lparr>pm_CID = pi_Cid (PieceInfo p), pm_Size = pi_Size (PieceInfo p), pm_VerifiedAllocationKey = vac,
           pm_Notify = [(ca_MarketAddress (pe_ca pe), payload)]\<rparr>)))"

definition direct_manifest :: "proc_env \<Rightarrow> sector_piece \<Rightarrow> piece_manifest res" where
  "direct_manifest pe p = (case client_id pe p of
     Inl e \<Rightarrow> Inl e
   | Inr cl \<Rightarrow> Inr \<lparr>pm_CID = pi_Cid (PieceInfo p), pm_Size = pi_Size (PieceInfo p),
       pm_VerifiedAllocationKey = Some \<lparr>ak_Client = cl, ak_ID = AllocationID p\<rparr>, pm_Notify = []\<rparr>)"

text \<open>One piece: what it adds to the manifests and to the deal identifiers.\<close>

definition process_piece :: "proc_env \<Rightarrow> sector_piece \<Rightarrow> (piece_manifest list \<times> u64 list) res" where
  "process_piece pe p =
    (if \<not> HasDealInfo p then Inr ([], [])
     else if IsBuiltinMarket p then map_sum id (\<lambda>m. ([m], [])) (market_manifest pe p)
     else if IsBuiltinMarket p then Inr ([], [DealID p])
     else map_sum id (\<lambda>m. ([m], [])) (direct_manifest pe p))"

fun process_pieces :: "proc_env \<Rightarrow> sector_piece list \<Rightarrow> (piece_manifest list \<times> u64 list) res" where
  "process_pieces pe [] = Inr ([], [])"
| "process_pieces pe (p # ps) = (case process_piece pe p of
     Inl e \<Rightarrow> Inl e
   | Inr (ms, ds) \<Rightarrow> map_sum id (\<lambda>(ms', ds'). (ms @ ms', ds @ ds')) (process_pieces pe ps))"

definition ProcessPieces :: "proc_env \<Rightarrow> sector_state \<Rightarrow> (piece_manifest list \<times> u64 list) res" where
  "ProcessPieces pe sector = process_pieces pe (SectorPiece sector)"

section \<open>Collateral\<close>

definition VerifiedSectorSize :: "u64 \<Rightarrow> u64 \<Rightarrow> u64 \<Rightarrow> u64" where
  "VerifiedSectorSize nv ssize sumVerified = (if nv \<ge> 29 then ssize else sumVerified)"

definition sum_verified :: "piece_manifest list \<Rightarrow> u64" where
  "sum_verified ms = fold (\<lambda>m acc. if pm_VerifiedAllocationKey m \<noteq> None then acc + pm_Size m else acc) ms 0"

definition getSectorCollateral :: "proc_env \<Rightarrow> sector_state \<Rightarrow> u64 \<Rightarrow> tipset \<times> epoch \<Rightarrow> piece_manifest list \<Rightarrow> int res" where
  "getSectorCollateral pe sector mid ts pieces = (case ts of (key, height) \<Rightarrow>
     (case cl_NewIDAddress (ce_lib (pe_env pe)) mid of
        Inl e \<Rightarrow> Inl (Wrap ''invalid miner actor id'' e)
      | Inr maddr \<Rightarrow> (case sa_StateSectorPreCommitInfo (ce_api (pe_env pe)) maddr (sid_Number (ss_ID sector)) (Some key) of
          Inl e \<Rightarrow> Inl (Wrap ''getting precommit info'' e)
        | Inr None \<Rightarrow> Inl (Errorf ''precommit info not found on chain'')
        | Inr (Some pci) \<Rightarrow> (case ca_SectorSize (pe_ca pe) (po_SealProof pci) of
            Inl e \<Rightarrow> Inl (Wrap ''failed to resolve sector size for seal proof'' e)
          | Inr ssize \<Rightarrow> (case ca_StateNetworkVersion (pe_ca pe) (Some key) of
              Inl e \<Rightarrow> Inl (Wrap ''getting network version'' e)
            | Inr nv \<Rightarrow> (case ca_InitialPledgeForSector (pe_ca pe) (po_Expiration pci - height) ssize
                  (VerifiedSectorSize nv ssize (sum_verified pieces)) key of
                Inl e \<Rightarrow> Inl (Wrap ''getting initial pledge collateral'' e)
              | Inr pledge \<Rightarrow>
                  (let collateral = pledge - po_PreCommitDeposit pci in
                   Inr (if collateral < 0 then 0 else collateral))))))))"

section \<open>Proof batches\<close>

record v2_acc =
  va_map :: "u64 \<rightharpoonup> sector_state"
  va_failed :: "sector_id list"
  va_collateral :: int
  va_acts :: "(u64 \<times> piece_manifest list) list"
  va_proofs :: "bytes list"
  va_infos :: "aggregate_info list"

definition empty_v2 :: v2_acc where
  "empty_v2 = \<lparr>va_map = Map.empty, va_failed = [], va_collateral = 0, va_acts = [], va_proofs = [], va_infos = []\<rparr>"

definition aggregate_info_of :: "sector_state \<Rightarrow> aggregate_info option" where
  "aggregate_info_of p = (case (ss_Ticket p, ss_Seed p, ss_Pre p) of
     (Some tk, Some sd, Some pre) \<Rightarrow> Some \<lparr>ag_Number = sid_Number (ss_ID p), ag_Randomness = tk_Ticket tk,
       ag_InteractiveRandomness = sd_Seed sd, ag_SealedCID = pc_CommR pre, ag_UnsealedCID = pc_CommD pre\<rparr>
   | _ \<Rightarrow> None)"

fun v2_collect :: "proc_env \<Rightarrow> bool \<Rightarrow> u64 \<Rightarrow> tipset \<times> epoch \<Rightarrow> sector_state list \<Rightarrow> v2_acc \<Rightarrow> v2_acc res" where
  "v2_collect pe sendFund mid ts [] acc = Inr acc"
| "v2_collect pe sendFund mid ts (p # ps) acc = (case ProcessPieces pe p of
     Inl e \<Rightarrow> Inl e
   | Inr (manifest, dealIDs) \<Rightarrow>
       if dealIDs \<noteq> [] then v2_collect pe sendFund mid ts ps acc
       else (let acc1 = acc\<lparr>va_map := (va_map acc)(sid_Number (ss_ID p) \<mapsto> p)\<rparr> in
         case (if sendFund then getSectorCollateral pe p mid ts manifest else Inr 0) of
           Inl e \<Rightarrow> v2_collect pe sendFund mid ts ps (acc1\<lparr>va_failed := va_failed acc @ [ss_ID p]\<rparr>)
         | Inr sc \<Rightarrow> (case (ss_Proof p, aggregate_info_of p) of
             (Some pf, Some info) \<Rightarrow> v2_collect pe sendFund mid ts ps
               (acc1\<lparr>va_collateral := va_collateral acc + sc,
                  va_acts := va_acts acc @ [(sid_Number (ss_ID p), manifest)],
                  va_proofs := va_proofs acc @ [pf_Proof pf], va_infos := va_infos acc @ [info]\<rparr>)
           | _ \<Rightarrow> nil_deref)))"

definition aggregateProofType :: "u64 \<Rightarrow> aggregate_proof_type res" where
  "aggregateProofType nv = Inr (if nv < 16 then SnarkPackV1 else SnarkPackV2)"

text \<open>The proofs, read from the map by number: a number that is missing reads the zero value, whose proof is
  nil.\<close>

fun map_proofs :: "(u64 \<rightharpoonup> sector_state) \<Rightarrow> aggregate_info list \<Rightarrow> bytes list res" where
  "map_proofs m [] = Inr []"
| "map_proofs m (i # is) = (case Option.bind (m (ag_Number i)) ss_Proof of
     None \<Rightarrow> nil_deref | Some pf \<Rightarrow> map_sum id (Cons (pf_Proof pf)) (map_proofs m is))"

definition first_type :: "(u64 \<rightharpoonup> sector_state) \<Rightarrow> aggregate_info list \<Rightarrow> seal_proof" where
  "first_type m is = (case m (ag_Number (hd is)) of None \<Rightarrow> 0 | Some s \<Rightarrow> ss_SectorType s)"

definition aggregate_all :: "proc_env \<Rightarrow> u64 \<Rightarrow> (u64 \<rightharpoonup> sector_state) \<Rightarrow> aggregate_info list \<Rightarrow> aggregate_proof_type \<Rightarrow> bytes res" where
  "aggregate_all pe mid m infos arp = (case map_proofs m infos of
     Inl e \<Rightarrow> Inl e
   | Inr proofs \<Rightarrow> map_err (Wrap ''aggregate sector failed'')
       (ca_AggregateSealProofs (pe_ca pe) mid (first_type m infos) arp infos proofs))"

definition v2_params :: "proc_env \<Rightarrow> miner_config \<Rightarrow> u64 \<Rightarrow> u64 \<Rightarrow> bool \<Rightarrow> v2_acc \<Rightarrow> prove_params res" where
  "v2_params pe mcfg mid nv aggregate acc =
    (let params = \<lparr>pv_SectorActivations = va_acts acc, pv_SectorProofs = va_proofs acc, pv_Aggregate = None,
           pv_RequireActivationSuccess = msl_RequireActivationSuccess (mc_Sealing mcfg),
           pv_RequireNotificationSuccess = msl_RequireNotificationSuccess (mc_Sealing mcfg)\<rparr> in
     if \<not> aggregate then Inr params
     else (case aggregateProofType nv of
        Inl e \<Rightarrow> Inl (Wrap ''get aggregate proof type'' e)
      | Inr arp \<Rightarrow> (case aggregate_all pe mid (va_map acc) (va_infos acc) arp of
          Inl e \<Rightarrow> Inl e
        | Inr pr \<Rightarrow> Inr (params\<lparr>pv_SectorProofs := [], pv_Aggregate := Some (pr, arp)\<rparr>))))"

definition mark_commit :: "sector_id list \<Rightarrow> cid \<Rightarrow> sector_state \<Rightarrow> sector_state" where
  "mark_commit failed ccid s = (if ss_ID s \<in> set failed then s
     else s\<lparr>ss_MessageInfo := (ss_MessageInfo s)\<lparr>mi_CommitCid := Some ccid\<rparr>\<rparr>)"

definition push_prove :: "proc_env \<Rightarrow> miner_config \<Rightarrow> u64 \<Rightarrow> address \<Rightarrow> miner_method \<Rightarrow> int \<Rightarrow> bytes \<Rightarrow> sector_id list \<Rightarrow>
    sector_state list \<Rightarrow> sent \<Rightarrow> (unit res \<times> sector_state list \<times> sent) option" where
  "push_prove pe mcfg mid ctrlAddr method collateral enc failed sectors sent =
    (case pushMessage (ce_lib (pe_env pe)) (pe_ms pe) ctrlAddr mid collateral method
         (bp_FeeConfig (cp_Batch (cc_Prove (mc_Commitment mcfg)))) enc sent of
       None \<Rightarrow> None
     | Some (Inl e, sent1) \<Rightarrow> Some (Inl (Wrap ''push aggregate prove message failed'' e), sectors, sent1)
     | Some (Inr ccid, sent1) \<Rightarrow> Some (Inr (), map (mark_commit failed ccid) sectors, sent1))"

definition v2_body :: "proc_env \<Rightarrow> sector_state list \<Rightarrow> u64 \<Rightarrow> address \<Rightarrow> tipset \<Rightarrow> u64 \<Rightarrow> bool \<Rightarrow> sent \<Rightarrow>
    (unit res \<times> sector_state list \<times> sent) option" where
  "v2_body pe sectors mid ctrlAddr tok nv aggregate sent = (case MinerConfig (ce_cfg (pe_env pe)) mid of
     Inl e \<Rightarrow> Some (Inl (Wrap ''get miner config'' e), sectors, sent)
   | Inr mcfg \<Rightarrow> (let sorted_sectors = ca_SortSectors (pe_ca pe) sectors;
         stop = (\<lambda>r. Some (r, sorted_sectors, sent)) in
      case ca_TipSetKeyFromBytes (pe_ca pe) tok of
        Inl e \<Rightarrow> stop (Inl (Wrap ''failed to unmarshal TipSetToken to TipSetKey'' e))
      | Inr tsk \<Rightarrow> (case ca_ChainGetTipSet (pe_ca pe) tsk of
          Inl e \<Rightarrow> stop (Inl e)
        | Inr ts \<Rightarrow> (case v2_collect pe (cp_SendFund (cc_Prove (mc_Commitment mcfg))) mid ts sorted_sectors
              empty_v2 of
            Inl e \<Rightarrow> stop (Inl e)
          | Inr acc \<Rightarrow> if va_infos acc = [] then stop (Inr ())
              else (case v2_params pe mcfg mid nv aggregate acc of
                Inl e \<Rightarrow> stop (Inl e)
              | Inr params \<Rightarrow> (case ca_MarshalProve (pe_ca pe) params of
                  Inl e \<Rightarrow> stop (Inl (Wrap ''couldn't serialize ProveCommitSectors3Params'' e))
                | Inr enc \<Rightarrow> push_prove pe mcfg mid ctrlAddr ProveCommitSectors3 (va_collateral acc) enc (va_failed acc)
                    sorted_sectors sent))))))"

definition ProcessV2 :: "proc_env \<Rightarrow> sector_state list \<Rightarrow> u64 \<Rightarrow> address \<Rightarrow> tipset \<Rightarrow> u64 \<Rightarrow> bool \<Rightarrow> state_mgr \<times> sent \<Rightarrow>
    (unit res \<times> state_mgr \<times> sent) option" where
  "ProcessV2 pe sectors mid ctrlAddr tok nv aggregate s =
     deferred (v2_body pe sectors mid ctrlAddr tok nv aggregate (snd s)) (fst s)"

section \<open>Non-interactive proofs\<close>

text \<open>The loop of \<open>ProcessNiPoRep\<close>. It assigns to a slice by index; out of range is a panic.\<close>

record ni_acc =
  na_map :: "u64 \<rightharpoonup> sector_state"
  na_failed :: "sector_id list"
  na_collateral :: int
  na_infos :: "aggregate_info list"
  na_acts :: "ni_activation list"

definition getSectorCollateralNiPoRep :: "proc_env \<Rightarrow> u64 \<Rightarrow> sector_state \<Rightarrow> tipset \<Rightarrow> epoch \<Rightarrow> int res" where
  "getSectorCollateralNiPoRep pe mid p tok expire = (case cl_NewIDAddress (ce_lib (pe_env pe)) mid of
     Inl e \<Rightarrow> Inl (Wrap ''invalid miner actor id'' e)
   | Inr maddr \<Rightarrow> (case (ss_Pre p, ss_Ticket p) of
       (Some pre, Some tk) \<Rightarrow> map_err (Wrap ''getting initial pledge collateral'')
         (ca_InitialPledgeCollateral (pe_ca pe) maddr \<lparr>pq_Expiration = expire, pq_SectorNumber = sid_Number (ss_ID p),
            pq_SealProof = ss_SectorType p, pq_SealedCID = pc_CommR pre, pq_SealRandEpoch = tk_Epoch tk, pq_DealIDs = [],
            pq_UnsealedCid = None\<rparr> tok)
     | _ \<Rightarrow> nil_deref))"

definition ni_activation_of :: "u64 \<Rightarrow> epoch \<Rightarrow> sector_state \<Rightarrow> ni_activation option" where
  "ni_activation_of mid expire p = (case (ss_Pre p, ss_Seed p) of
     (Some pre, Some sd) \<Rightarrow> Some \<lparr>ni_SealingNumber = sid_Number (ss_ID p), ni_SealerID = mid, ni_SealedCID = pc_CommR pre,
       ni_SectorNumber = sid_Number (ss_ID p), ni_SealRandEpoch = sd_Epoch sd, ni_Expiration = expire\<rparr>
   | _ \<Rightarrow> None)"

fun ni_collect :: "proc_env \<Rightarrow> bool \<Rightarrow> u64 \<Rightarrow> tipset \<Rightarrow> nat \<Rightarrow> sector_state list \<Rightarrow> ni_acc \<Rightarrow> ni_acc res" where
  "ni_collect pe sendFund mid tok i [] acc = Inr acc"
| "ni_collect pe sendFund mid tok i (p # ps) acc =
    (let env = pe_env pe; acc1 = acc\<lparr>na_map := (na_map acc)(sid_Number (ss_ID p) \<mapsto> p)\<rparr>;
         failed = acc1\<lparr>na_failed := na_failed acc @ [ss_ID p]\<rparr> in
     case sectorExpiration (ce_np env) (ce_api env) (ce_cfg env) p of
       Inl e \<Rightarrow> if is_panic e then Inl e else ni_collect pe sendFund mid tok (Suc i) ps failed
     | Inr expire \<Rightarrow> (case (if sendFund then getSectorCollateralNiPoRep pe mid p tok expire else Inr 0) of
         Inl e \<Rightarrow> if is_panic e then Inl e else ni_collect pe sendFund mid tok (Suc i) ps failed
       | Inr sc \<Rightarrow> (case (aggregate_info_of p, ni_activation_of mid expire p) of
           (Some info, Some act) \<Rightarrow>
             if i < length (na_acts acc) then ni_collect pe sendFund mid tok (Suc i) ps
               (acc1\<lparr>na_collateral := na_collateral acc + sc, na_infos := na_infos acc @ [info],
                  na_acts := (na_acts acc)[i := act]\<rparr>)
             else Inl (Panic ''index out of range'')
         | _ \<Rightarrow> nil_deref)))"

definition getProvingDeadline :: "proc_env \<Rightarrow> u64 \<Rightarrow> tipset \<Rightarrow> u64 res" where
  "getProvingDeadline pe mid tok = (case cl_NewIDAddress (ce_lib (pe_env pe)) mid of
     Inl e \<Rightarrow> Inl (Wrap ''invalid miner actor id'' e)
   | Inr maddr \<Rightarrow> map_err (Wrap ''getting miner proving deadline'') (ca_ProvingDeadline (pe_ca pe) maddr tok))"

definition ni_params_of :: "proc_env \<Rightarrow> miner_config \<Rightarrow> u64 \<Rightarrow> tipset \<Rightarrow> aggregate_proof_type \<Rightarrow> ni_acc \<Rightarrow> ni_params res" where
  "ni_params_of pe mcfg mid tok arp acc =
    (let infos = ca_SortInfos (pe_ca pe) (na_infos acc); acts = ca_SortActivations (pe_ca pe) (na_acts acc) in
     case getProvingDeadline pe mid tok of
       Inl e \<Rightarrow> Inl (Wrap ''get miner proving deadline'' e)
     | Inr deadline \<Rightarrow> (case aggregate_all pe mid (na_map acc) infos arp of
         Inl e \<Rightarrow> Inl e
       | Inr pr \<Rightarrow> Inr \<lparr>nq_Sectors = acts, nq_SealProofType = first_type (na_map acc) infos, nq_AggregateProofType = arp,
           nq_ProvingDeadline = (deadline + msl_SealingSectorDeadlineDelayNi (mc_Sealing mcfg)) mod ca_WPoStPeriodDeadlines (pe_ca pe),
           nq_AggregateProof = pr, nq_RequireActivationSuccess = True\<rparr>))"

definition ni_body :: "proc_env \<Rightarrow> sector_state list \<Rightarrow> u64 \<Rightarrow> address \<Rightarrow> tipset \<Rightarrow> u64 \<Rightarrow> sent \<Rightarrow>
    (unit res \<times> sector_state list \<times> sent) option" where
  "ni_body pe sectors mid ctrlAddr tok nv sent = (let stop = (\<lambda>r. Some (r, sectors, sent)) in
     case MinerConfig (ce_cfg (pe_env pe)) mid of
       Inl e \<Rightarrow> stop (Inl (Wrap ''get miner config'' e))
     | Inr mcfg \<Rightarrow> (case aggregateProofType nv of
         Inl e \<Rightarrow> stop (Inl (Wrap ''get aggregate proof type'' e))
       | Inr arp \<Rightarrow> (case ni_collect pe (cp_SendFund (cc_Prove (mc_Commitment mcfg))) mid tok 0 sectors
             \<lparr>na_map = Map.empty, na_failed = [], na_collateral = 0, na_infos = [], na_acts = []\<rparr> of
           Inl e \<Rightarrow> stop (Inl e)
         | Inr acc \<Rightarrow> if na_infos acc = [] then stop (Inr ())
             else (case ni_params_of pe mcfg mid tok arp acc of
               Inl e \<Rightarrow> stop (Inl e)
             | Inr params \<Rightarrow> (case ca_MarshalNI (pe_ca pe) params of
                 Inl e \<Rightarrow> stop (Inl (Wrap ''couldn't serialize ProveCommitAggregateParams'' e))
               | Inr enc \<Rightarrow> push_prove pe mcfg mid ctrlAddr ProveCommitSectorsNI (na_collateral acc) enc (na_failed acc)
                   sectors sent)))))"

definition ProcessNiPoRep :: "proc_env \<Rightarrow> sector_state list \<Rightarrow> u64 \<Rightarrow> address \<Rightarrow> tipset \<Rightarrow> u64 \<Rightarrow> state_mgr \<times> sent \<Rightarrow>
    (unit res \<times> state_mgr \<times> sent) option" where
  "ProcessNiPoRep pe sectors mid ctrlAddr tok nv s = deferred (ni_body pe sectors mid ctrlAddr tok nv (snd s)) (fst s)"

definition commit_Process :: "proc_env \<Rightarrow> sector_state list \<Rightarrow> u64 \<Rightarrow> address \<Rightarrow> state_mgr \<times> sent \<Rightarrow>
    (unit res \<times> state_mgr \<times> sent) option" where
  "commit_Process pe sectors mid ctrlAddr s = (case sa_ChainHead (ce_api (pe_env pe)) of
     Inl e \<Rightarrow> Some (Inl (Wrap ''get chain head failed'' e), s)
   | Inr (tok, _) \<Rightarrow> (case sa_StateNetworkVersion (ce_api (pe_env pe)) tok of
       Inl e \<Rightarrow> Some (Inl (Wrap ''get network version'' e), s)
     | Inr nv \<Rightarrow>
        (let ni = filter (\<lambda>x. ca_IsNonInteractive (pe_ca pe) (ss_SectorType x)) sectors;
             rest = filter (\<lambda>x. \<not> ca_IsNonInteractive (pe_ca pe) (ss_SectorType x)) sectors;
             ddo = filter (\<lambda>x. \<not> HasBuiltinMarketDeal x) rest; market = filter HasBuiltinMarketDeal rest
         in if ni \<noteq> [] then ProcessNiPoRep pe ni mid ctrlAddr tok nv s
            else ProcessV2 pe (ddo @ market) mid ctrlAddr tok nv
              (length sectors \<ge> ca_MinAggregatedSectors (pe_ca pe)) s)))"

section \<open>Lemmas\<close>

lemma updateSector_other:
  "ws \<noteq> WorkerOnline \<or> sid \<notin> ss_ID ` set sectors \<Longrightarrow> view (updateSector sectors sm) ws sid = view sm ws sid"
proof (induction sectors arbitrary: sm)
  case (Cons x xs)
  obtain r sm1 where u: "Update (ss_ID x) WorkerOnline [FMessageInfo ((ss_MessageInfo x)\<lparr>mi_NeedSend := False\<rparr>)] sm = (r, sm1)"
    by fastforce
  from UpdateD [OF u] Cons.prems have "view sm1 ws sid = view sm ws sid" by (auto simp: view_put_def)
  with Cons u show ?case by simp
qed simp

text \<open>The write-back of a batch, one write per sector in order: what each write answers, and what the writes leave in the
  store. A sector whose own write succeeds carries the given message information, with nothing left to send; one
  whose write fails is as it was; all other documents are as they were. On an engine that works every write to a
  document that is there succeeds.\<close>

type_synonym marks = "(sector_id \<times> message_info) list"

definition message_left :: "message_info \<Rightarrow> sector_state \<Rightarrow> sector_state" where
  "message_left info st = st\<lparr>ss_MessageInfo := info\<lparr>mi_NeedSend := False\<rparr>\<rparr>"

fun write_answers :: "marks \<Rightarrow> state_mgr \<Rightarrow> (sector_id \<times> unit res) list" where
  "write_answers [] sm = []"
| "write_answers ((sid, info) # ms) sm =
     (let (r, sm1) = Update sid WorkerOnline [FMessageInfo (info\<lparr>mi_NeedSend := False\<rparr>)] sm in (sid, r) # write_answers ms sm1)"

definition written_back :: "state_mgr \<Rightarrow> state_mgr \<Rightarrow> marks \<Rightarrow> bool" where
  "written_back sm sm1 ms =
    ((\<forall>(sid, info) \<in> set ms. case map_of (write_answers ms sm) sid of
        Some (Inr _) \<Rightarrow> (\<exists>st. view sm WorkerOnline sid = Some (Json st) \<and> view sm1 WorkerOnline sid = Some (Json (message_left info st)))
      | _ \<Rightarrow> view sm1 WorkerOnline sid = view sm WorkerOnline sid) \<and>
     (kv_script (sm_online sm) = [] \<longrightarrow> (\<forall>(sid, info) \<in> set ms. \<forall>st. view sm WorkerOnline sid = Some (Json st) \<longrightarrow>
        view sm1 WorkerOnline sid = Some (Json (message_left info st)))) \<and>
     (\<forall>ws sid. ws \<noteq> WorkerOnline \<or> sid \<notin> fst ` set ms \<longrightarrow> view sm1 ws sid = view sm ws sid))"

definition marks_of :: "sector_state list \<Rightarrow> marks" where
  "marks_of sectors = map (\<lambda>s. (ss_ID s, ss_MessageInfo s)) sectors"

text \<open>One write.\<close>

lemma message_write:
  assumes "Update sid WorkerOnline [FMessageInfo (info\<lparr>mi_NeedSend := False\<rparr>)] sm = (r, sm1)"
  shows "(r = Inr () \<and> (\<exists>st. view sm WorkerOnline sid = Some (Json st) \<and> view sm1 WorkerOnline sid = Some (Json (message_left info st))) \<or>
      (\<exists>e. r = Inl e) \<and> view sm1 WorkerOnline sid = view sm WorkerOnline sid) \<and>
    (sid' \<noteq> sid \<longrightarrow> view sm1 WorkerOnline sid' = view sm WorkerOnline sid')"
  using UpdateD [OF assms] by (auto simp: view_put_def message_left_def)

lemma message_write_works:
  assumes "Update sid WorkerOnline [FMessageInfo (info\<lparr>mi_NeedSend := False\<rparr>)] sm = (r, sm1)" "kv_script (sm_online sm) = []"
  shows "kv_script (sm_online sm1) = [] \<and> (view sm WorkerOnline sid = Some (Json st) \<longrightarrow> r = Inr ())"
proof (cases "map_of (kv_data (sm_online sm)) (makeSectorKey sid)")
  case (Some d)
  with assms show ?thesis
    by (cases d) (auto simp: Update_def loadInner_def save_def view_def notify_def put_store_def unmarshal_def Let_def)
qed (use assms in \<open>auto simp: Update_def loadInner_def view_def put_store_def Let_def\<close>)

lemma updateSector_answers:
  assumes "distinct (map ss_ID sectors)" "s \<in> set sectors"
  shows "case map_of (write_answers (marks_of sectors) sm) (ss_ID s) of
      Some (Inr _) \<Rightarrow> (\<exists>st. view sm WorkerOnline (ss_ID s) = Some (Json st) \<and>
         view (updateSector sectors sm) WorkerOnline (ss_ID s) = Some (Json (message_left (ss_MessageInfo s) st)))
    | _ \<Rightarrow> view (updateSector sectors sm) WorkerOnline (ss_ID s) = view sm WorkerOnline (ss_ID s)"
  using assms
proof (induction sectors arbitrary: sm)
  case (Cons x xs)
  obtain r sm1 where u: "Update (ss_ID x) WorkerOnline [FMessageInfo ((ss_MessageInfo x)\<lparr>mi_NeedSend := False\<rparr>)] sm = (r, sm1)"
    by fastforce
  have eq: "updateSector (x # xs) sm = updateSector xs sm1"
    "write_answers (marks_of (x # xs)) sm = (ss_ID x, r) # write_answers (marks_of xs) sm1" using u by (simp_all add: marks_of_def)
  show ?case
  proof (cases "s = x")
    case True
    then have "view (updateSector xs sm1) WorkerOnline (ss_ID s) = view sm1 WorkerOnline (ss_ID s)"
      using Cons.prems by (intro updateSector_other) auto
    with message_write [OF u, of "ss_ID s"] True show ?thesis unfolding eq by auto
  next
    case False
    then have s: "s \<in> set xs" using Cons.prems by simp
    have "ss_ID s \<noteq> ss_ID x" using Cons.prems(1) imageI [OF s, of ss_ID] by (auto simp del: imageI)
    moreover from this have "view sm1 WorkerOnline (ss_ID s) = view sm WorkerOnline (ss_ID s)"
      using message_write [OF u, of "ss_ID s"] by simp
    ultimately show ?thesis using Cons.IH [of sm1] Cons.prems s unfolding eq by (simp split: option.splits sum.splits)
  qed
qed simp

lemma updateSector_works:
  assumes "distinct (map ss_ID sectors)" "s \<in> set sectors" "kv_script (sm_online sm) = []"
    "view sm WorkerOnline (ss_ID s) = Some (Json st)"
  shows "\<exists>u. map_of (write_answers (marks_of sectors) sm) (ss_ID s) = Some (Inr u)"
  using assms
proof (induction sectors arbitrary: sm)
  case (Cons x xs)
  obtain r sm1 where u: "Update (ss_ID x) WorkerOnline [FMessageInfo ((ss_MessageInfo x)\<lparr>mi_NeedSend := False\<rparr>)] sm = (r, sm1)"
    by fastforce
  note w = message_write_works [OF u Cons.prems(3)]
  show ?case
  proof (cases "ss_ID s = ss_ID x")
    case True
    then show ?thesis using w [of st] Cons.prems(4) u by (simp add: marks_of_def)
  next
    case False
    then have "view sm1 WorkerOnline (ss_ID s) = Some (Json st)" using message_write [OF u, of "ss_ID s"] Cons.prems(4) by simp
    with Cons.IH [of sm1] Cons.prems(1,2) w False u show ?thesis by (auto simp: marks_of_def)
  qed
qed simp

lemma updateSector_written:
  assumes "distinct (map ss_ID sectors)"
  shows "written_back sm (updateSector sectors sm) (marks_of sectors)"
proof -
  have "\<exists>st. view sm WorkerOnline (ss_ID s) = Some (Json st) \<and>
      view (updateSector sectors sm) WorkerOnline (ss_ID s) = Some (Json (message_left (ss_MessageInfo s) st))"
    if "s \<in> set sectors" "kv_script (sm_online sm) = []" "view sm WorkerOnline (ss_ID s) = Some (Json st)" for s st
    using updateSector_answers [OF assms that(1), of sm] updateSector_works [OF assms that] by auto
  moreover have "fst ` set (marks_of sectors) = ss_ID ` set sectors" by (simp add: marks_of_def image_image)
  ultimately show ?thesis unfolding written_back_def
    using updateSector_answers [OF assms, of _ sm] updateSector_other [of _ _ sectors sm] by (force simp: marks_of_def)
qed

lemma precommit_entriesD:
  "precommit_entries pe ss = Inr es \<Longrightarrow>
   es = map (\<lambda>s. (s, case preCommitInfo pe s of Inl _ \<Rightarrow> None | Inr i \<Rightarrow> Some i)) ss"
proof (induction ss arbitrary: es)
  case (Cons s ss)
  then show ?case
    by (cases "precommit_entries pe ss") (auto split: sum.splits if_splits)
qed simp

text \<open>The sectors of a batch that get parameters, and these parameters.\<close>

definition precommitted :: "proc_env \<Rightarrow> sector_state list \<Rightarrow> sector_state list" where
  "precommitted pe sectors = filter (\<lambda>s. \<not> isl (preCommitInfo pe s)) sectors"

definition precommit_of :: "proc_env \<Rightarrow> sector_state \<Rightarrow> precommit_params \<times> int" where
  "precommit_of pe s = projr (preCommitInfo pe s)"

lemma batch_entries_eq:
  "batch_entries (map (\<lambda>s. (s, case preCommitInfo pe s of Inl _ \<Rightarrow> None | Inr i \<Rightarrow> Some i)) ss) =
   map (\<lambda>s. (s, precommit_of pe s)) (precommitted pe ss)"
  by (induction ss) (auto simp: batch_entries_def precommitted_def precommit_of_def map_filter_simps split: sum.splits)

lemma process_piece_no_deals: "process_piece pe p = Inr (ms, ds) \<Longrightarrow> ds = []"
  by (auto simp: process_piece_def split: if_splits)
    (auto simp: map_sum_def split: sum.splits)

lemma process_pieces_no_deals: "process_pieces pe ps = Inr (ms, ds) \<Longrightarrow> ds = []"
proof (induction ps arbitrary: ms ds)
  case (Cons p ps)
  from Cons.prems obtain ms1 ds1 where p: "process_piece pe p = Inr (ms1, ds1)" by (auto split: sum.splits)
  with Cons.prems obtain ms2 ds2 where "process_pieces pe ps = Inr (ms2, ds2)" "ds = ds1 @ ds2"
    by (auto simp: map_sum_def split: sum.splits)
  with Cons.IH process_piece_no_deals [OF p] show ?case by simp
qed simp

text \<open>The sectors that go into a proof message, and their manifests.\<close>

definition manifest_of :: "proc_env \<Rightarrow> sector_state \<Rightarrow> piece_manifest list" where
  "manifest_of pe p = fst (projr (ProcessPieces pe p))"

definition funded :: "proc_env \<Rightarrow> bool \<Rightarrow> u64 \<Rightarrow> tipset \<times> epoch \<Rightarrow> sector_state \<Rightarrow> bool" where
  "funded pe sendFund mid ts p = (\<not> sendFund \<or> \<not> isl (getSectorCollateral pe p mid ts (manifest_of pe p)))"

text \<open>The proof of a sector and what the aggregation has to know of it.\<close>

definition proof_of :: "sector_state \<Rightarrow> bytes" where
  "proof_of p = pf_Proof (the (ss_Proof p))"

definition info_of :: "sector_state \<Rightarrow> aggregate_info" where
  "info_of p = the (aggregate_info_of p)"

text \<open>The proofs of a message: each sector's own, in the order of the activations, or the aggregate of all of them.\<close>

definition proofs_sent :: "proc_env \<Rightarrow> u64 \<Rightarrow> u64 \<Rightarrow> bool \<Rightarrow> sector_state list \<Rightarrow> prove_params \<Rightarrow> bool" where
  "proofs_sent pe mid nv aggregate ok params =
    (if aggregate
     then let arp = (if nv < 16 then SnarkPackV1 else SnarkPackV2) in pv_SectorProofs params = [] \<and>
       (\<exists>pr. pv_Aggregate params = Some (pr, arp) \<and>
          ca_AggregateSealProofs (pe_ca pe) mid (ss_SectorType (hd ok)) arp (map info_of ok) (map proof_of ok) = Inr pr)
     else pv_SectorProofs params = map proof_of ok \<and> pv_Aggregate params = None)"

lemma v2_collectD:
  assumes "v2_collect pe sendFund mid ts ps acc = Inr acc1"
  shows "va_acts acc1 = va_acts acc @ map (\<lambda>p. (sid_Number (ss_ID p), manifest_of pe p)) (filter (funded pe sendFund mid ts) ps) \<and>
    set (va_failed acc1) = set (va_failed acc) \<union> ss_ID ` {p \<in> set ps. \<not> funded pe sendFund mid ts p} \<and>
    va_infos acc1 = va_infos acc @ map info_of (filter (funded pe sendFund mid ts) ps) \<and>
    va_proofs acc1 = va_proofs acc @ map proof_of (filter (funded pe sendFund mid ts) ps) \<and>
    va_map acc1 = va_map acc ++ map_of (rev (map (\<lambda>p. (sid_Number (ss_ID p), p)) ps)) \<and>
    (\<forall>p \<in> set ps. funded pe sendFund mid ts p \<longrightarrow> ss_Proof p \<noteq> None \<and> aggregate_info_of p \<noteq> None) \<and>
    va_collateral acc1 = va_collateral acc + (if sendFund then
      sum_list (map (\<lambda>p. projr (getSectorCollateral pe p mid ts (manifest_of pe p))) (filter (funded pe sendFund mid ts) ps)) else 0)"
  using assms
proof (induction ps arbitrary: acc)
  case (Cons p ps)
  from Cons.prems obtain ms where pp: "ProcessPieces pe p = Inr (ms, [])"
    using process_pieces_no_deals [of pe "SectorPiece p"] by (fastforce simp: ProcessPieces_def split: sum.splits)
  then have m: "manifest_of pe p = ms" by (simp add: manifest_of_def)
  let ?acc1 = "acc\<lparr>va_map := (va_map acc)(sid_Number (ss_ID p) \<mapsto> p)\<rparr>"
  show ?case
  proof (cases "funded pe sendFund mid ts p")
    case True
    then have "\<exists>sc. (if sendFund then getSectorCollateral pe p mid ts ms else Inr 0) = Inr sc"
      by (cases "getSectorCollateral pe p mid ts ms"; cases sendFund) (auto simp: funded_def m)
    then obtain sc where sc: "(if sendFund then getSectorCollateral pe p mid ts ms else Inr 0) = Inr sc" by blast
    with Cons.prems pp obtain pf info where e: "ss_Proof p = Some pf" "aggregate_info_of p = Some info"
      by (auto simp: Let_def nil_deref_def split: option.splits)
    have sc': "sendFund \<Longrightarrow> getSectorCollateral pe p mid ts ms = Inr sc" "\<not> sendFund \<Longrightarrow> sc = 0" using sc by auto
    have run: "v2_collect pe sendFund mid ts ps (?acc1\<lparr>va_collateral := va_collateral acc + sc,
        va_acts := va_acts acc @ [(sid_Number (ss_ID p), ms)],
        va_proofs := va_proofs acc @ [pf_Proof pf], va_infos := va_infos acc @ [info]\<rparr>) = Inr acc1"
      using Cons.prems pp sc e by (simp add: Let_def)
    from Cons.IH [OF run] True e m sc' show ?thesis by (cases sendFund) (auto simp: proof_of_def info_of_def map_add_def fun_eq_iff split: option.splits)
  next
    case False
    then obtain e where "sendFund" "getSectorCollateral pe p mid ts ms = Inl e"
      by (auto simp: funded_def m isl_def)
    with Cons.prems pp have run: "v2_collect pe sendFund mid ts ps (?acc1\<lparr>va_failed := va_failed acc @ [ss_ID p]\<rparr>) = Inr acc1"
      by (simp add: Let_def)
    from Cons.IH [OF run] False show ?thesis by (auto simp: map_add_def fun_eq_iff split: option.splits)
  qed
qed simp

lemma pushMessage_Inr:
  assumes "pushMessage lib ms src mid v meth feeCfg params sent = Some (Inr c, sent1)" "messager_ok ms"
  shows "\<exists>dst. cl_NewIDAddress lib mid = Inr dst \<and> sent1 = sent @ [(c, message_of dst src v meth feeCfg params, GetSendSpec feeCfg)]"
  using pushMessageD [OF assms(1)] assms(2) by auto

lemma precommit_bodyD:
  assumes "precommit_body pe sectors mid ctrlAddr sent = Some (Inr (), sectors1, sent1)" "messager_ok (pe_ms pe)"
  shows "\<exists>ccid msg spec mcfg. sent1 = sent @ [(ccid, msg, spec)] \<and> cg_Method msg = PreCommitSectorBatch2 \<and>
    precommitted pe sectors \<noteq> [] \<and> MinerConfig (ce_cfg (pe_env pe)) mid = Inr mcfg \<and>
    ca_MarshalPreCommits (pe_ca pe) (map (\<lambda>s. sent_params s (fst (precommit_of pe s))) (precommitted pe sectors)) = Inr (cg_Params msg) \<and>
    cg_Value msg = (if cp_SendFund (cc_Pre (mc_Commitment mcfg)) then sum_list (map (snd \<circ> precommit_of pe) (precommitted pe sectors)) else 0) \<and>
    sectors1 = map (\<lambda>s. if s \<in> set (precommitted pe sectors) then mark_precommit ccid s else s) sectors"
proof -
  from assms(1) obtain mcfg es where c: "MinerConfig (ce_cfg (pe_env pe)) mid = Inr mcfg" "precommit_entries pe sectors = Inr es"
      "batch_entries es \<noteq> []" "sendPrecommit pe mcfg mid ctrlAddr es sent = Some (Inr (), sectors1, sent1)"
    by (auto simp: precommit_body_def split: sum.splits if_splits)
  note es = precommit_entriesD [OF c(2)]
  have be: "batch_entries es = map (\<lambda>s. (s, precommit_of pe s)) (precommitted pe sectors)"
    unfolding es by (rule batch_entries_eq)
  let ?qs = "map (\<lambda>s. sent_params s (fst (precommit_of pe s))) (precommitted pe sectors)"
  let ?v = "if cp_SendFund (cc_Pre (mc_Commitment mcfg)) then sum_list (map (snd \<circ> precommit_of pe) (precommitted pe sectors)) else 0"
  have fold: "map (\<lambda>(s, q, d). sent_params s q) (batch_entries es) = ?qs"
    "map (\<lambda>(s, q, d). d) (batch_entries es) = map (snd \<circ> precommit_of pe) (precommitted pe sectors)"
    unfolding be by (simp_all add: case_prod_beta comp_def)
  from c(4) obtain enc ccid fee where run: "ca_MarshalPreCommits (pe_ca pe) ?qs = Inr enc"
      "pushMessage (ce_lib (pe_env pe)) (pe_ms pe) ctrlAddr mid ?v PreCommitSectorBatch2 fee enc sent = Some (Inr ccid, sent1)"
      "sectors1 = map (\<lambda>(s, i). if i = None then s else mark_precommit ccid s) es"
    unfolding sendPrecommit_def Let_def fold by (auto split: sum.splits option.splits)
  have marked: "sectors1 = map (\<lambda>s. if s \<in> set (precommitted pe sectors) then mark_precommit ccid s else s) sectors"
    unfolding run(3) es by (auto simp: precommitted_def isl_def split: sum.splits)
  from pushMessage_Inr [OF run(2) assms(2)] obtain dst spec where
    "sent1 = sent @ [(ccid, message_of dst ctrlAddr ?v PreCommitSectorBatch2 fee enc, spec)]" by blast
  with run(1) marked c(1,3) be show ?thesis
    by (intro exI [of _ ccid] exI [of _ "message_of dst ctrlAddr ?v PreCommitSectorBatch2 fee enc"] exI [of _ spec] exI [of _ mcfg])
      (simp add: message_of_def)
qed

lemma mark_commit_id [simp]: "ss_ID (mark_commit failed c s) = ss_ID s"
  by (simp add: mark_commit_def)

lemma push_proveD:
  assumes "push_prove pe mcfg mid ctrlAddr meth collateral enc failed sectors sent = Some (Inr (), sectors1, sent1)" "messager_ok (pe_ms pe)"
  shows "\<exists>ccid msg spec. sent1 = sent @ [(ccid, msg, spec)] \<and> cg_Method msg = meth \<and> cg_Params msg = enc \<and> cg_Value msg = collateral \<and>
    sectors1 = map (mark_commit failed ccid) sectors"
proof -
  from assms(1) obtain fee ccid where run:
    "pushMessage (ce_lib (pe_env pe)) (pe_ms pe) ctrlAddr mid collateral meth fee enc sent = Some (Inr ccid, sent1)"
    "sectors1 = map (mark_commit failed ccid) sectors"
    by (auto simp: push_prove_def split: option.splits sum.splits)
  from pushMessage_Inr [OF run(1) assms(2)] obtain dst where
    "sent1 = sent @ [(ccid, message_of dst ctrlAddr collateral meth fee enc, GetSendSpec fee)]" by blast
  with run(2) show ?thesis
    by (intro exI [of _ ccid] exI [of _ "message_of dst ctrlAddr collateral meth fee enc"] exI [of _ "GetSendSpec fee"])
      (simp add: message_of_def)
qed

lemma map_proofs_own:
  assumes "\<forall>p \<in> set ps. m (sid_Number (ss_ID p)) = Some p \<and> ss_Proof p \<noteq> None \<and> aggregate_info_of p \<noteq> None"
  shows "map_proofs m (map info_of ps) = Inr (map proof_of ps)"
proof -
  have "ag_Number (info_of p) = sid_Number (ss_ID p)" if "aggregate_info_of p \<noteq> None" for p
    using that by (auto simp: info_of_def aggregate_info_of_def split: option.splits)
  then show ?thesis using assms by (induction ps) (auto simp: proof_of_def)
qed

lemma v2_paramsD:
  assumes "v2_params pe mcfg mid nv aggregate acc = Inr params" "va_infos acc = map info_of ok" "va_proofs acc = map proof_of ok" "ok \<noteq> []"
    and "\<forall>p \<in> set ok. va_map acc (sid_Number (ss_ID p)) = Some p \<and> ss_Proof p \<noteq> None \<and> aggregate_info_of p \<noteq> None"
  shows "pv_SectorActivations params = va_acts acc \<and> proofs_sent pe mid nv aggregate ok params \<and>
    pv_RequireActivationSuccess params = msl_RequireActivationSuccess (mc_Sealing mcfg) \<and>
    pv_RequireNotificationSuccess params = msl_RequireNotificationSuccess (mc_Sealing mcfg)"
proof (cases aggregate)
  case True
  have "ag_Number (info_of (hd ok)) = sid_Number (ss_ID (hd ok))"
    using assms(4,5) by (cases ok) (auto simp: info_of_def aggregate_info_of_def split: option.splits)
  then have "first_type (va_map acc) (map info_of ok) = ss_SectorType (hd ok)"
    using assms(4,5) by (cases ok) (auto simp: first_type_def)
  with assms(1) True show ?thesis
    by (auto simp: v2_params_def aggregateProofType_def aggregate_all_def assms(2) map_proofs_own [OF assms(5)] proofs_sent_def map_err_def
        Let_def split: sum.splits if_splits)
qed (use assms(1,3) in \<open>auto simp: v2_params_def proofs_sent_def Let_def\<close>)

lemma v2_bodyD:
  assumes "v2_body pe sectors mid ctrlAddr tok nv aggregate sent = Some (Inr (), sectors1, sent1)" "messager_ok (pe_ms pe)"
  shows "\<exists>mcfg tsk ts acc. MinerConfig (ce_cfg (pe_env pe)) mid = Inr mcfg \<and>
    ca_TipSetKeyFromBytes (pe_ca pe) tok = Inr tsk \<and> ca_ChainGetTipSet (pe_ca pe) tsk = Inr ts \<and>
    v2_collect pe (cp_SendFund (cc_Prove (mc_Commitment mcfg))) mid ts (ca_SortSectors (pe_ca pe) sectors) empty_v2 = Inr acc \<and>
    (va_infos acc = [] \<and> sectors1 = ca_SortSectors (pe_ca pe) sectors \<and> sent1 = sent \<or>
     (\<exists>ccid msg spec params. va_infos acc \<noteq> [] \<and> sent1 = sent @ [(ccid, msg, spec)] \<and> cg_Method msg = ProveCommitSectors3 \<and>
        ca_MarshalProve (pe_ca pe) params = Inr (cg_Params msg) \<and> v2_params pe mcfg mid nv aggregate acc = Inr params \<and>
        cg_Value msg = va_collateral acc \<and> sectors1 = map (mark_commit (va_failed acc) ccid) (ca_SortSectors (pe_ca pe) sectors)))"
proof -
  let ?ss = "ca_SortSectors (pe_ca pe) sectors"
  from assms(1) obtain mcfg tsk ts acc where c: "MinerConfig (ce_cfg (pe_env pe)) mid = Inr mcfg"
    "ca_TipSetKeyFromBytes (pe_ca pe) tok = Inr tsk" "ca_ChainGetTipSet (pe_ca pe) tsk = Inr ts"
    "v2_collect pe (cp_SendFund (cc_Prove (mc_Commitment mcfg))) mid ts ?ss empty_v2 = Inr acc"
    and run: "va_infos acc = [] \<and> sectors1 = ?ss \<and> sent1 = sent \<or> (\<exists>params enc. va_infos acc \<noteq> [] \<and>
      v2_params pe mcfg mid nv aggregate acc = Inr params \<and> ca_MarshalProve (pe_ca pe) params = Inr enc \<and>
      push_prove pe mcfg mid ctrlAddr ProveCommitSectors3 (va_collateral acc) enc (va_failed acc) ?ss sent = Some (Inr (), sectors1, sent1))"
    by (auto simp: v2_body_def Let_def split: sum.splits if_splits)
  from run show ?thesis
  proof (elim disjE exE conjE)
    fix params enc
    assume a: "va_infos acc \<noteq> []" "v2_params pe mcfg mid nv aggregate acc = Inr params" "ca_MarshalProve (pe_ca pe) params = Inr enc"
      "push_prove pe mcfg mid ctrlAddr ProveCommitSectors3 (va_collateral acc) enc (va_failed acc) ?ss sent = Some (Inr (), sectors1, sent1)"
    from push_proveD [OF a(4) assms(2)] obtain ccid msg spec where "sent1 = sent @ [(ccid, msg, spec)]" "cg_Method msg = ProveCommitSectors3"
      "cg_Params msg = enc" "cg_Value msg = va_collateral acc" "sectors1 = map (mark_commit (va_failed acc) ccid) ?ss" by blast
    with a(1-3) c show ?thesis by blast
  qed (use c in blast)
qed

text \<open>A sector for which the loop over the non-interactive sectors gets as far as the assignment.\<close>

definition ni_ready :: "proc_env \<Rightarrow> bool \<Rightarrow> u64 \<Rightarrow> tipset \<Rightarrow> sector_state \<Rightarrow> bool" where
  "ni_ready pe sendFund mid tok p = (\<exists>expire. sectorExpiration (ce_np (pe_env pe)) (ce_api (pe_env pe)) (ce_cfg (pe_env pe)) p = Inr expire \<and>
     (sendFund \<longrightarrow> \<not> isl (getSectorCollateralNiPoRep pe mid p tok expire)))"

lemma ni_collect_panics:
  assumes "na_acts acc = []"
  shows "(\<exists>e. ni_collect pe sendFund mid tok i ps acc = Inl e \<and> is_panic e) \<or>
    (\<exists>acc1. ni_collect pe sendFund mid tok i ps acc = Inr acc1 \<and> na_infos acc1 = na_infos acc \<and>
       (\<forall>p \<in> set ps. \<not> ni_ready pe sendFund mid tok p))"
  using assms
proof (induction ps arbitrary: i acc)
  case (Cons p ps)
  let ?acc1 = "acc\<lparr>na_map := (na_map acc)(sid_Number (ss_ID p) \<mapsto> p)\<rparr>"
  let ?failed = "?acc1\<lparr>na_failed := na_failed acc @ [ss_ID p]\<rparr>"
  let ?x = "sectorExpiration (ce_np (pe_env pe)) (ce_api (pe_env pe)) (ce_cfg (pe_env pe)) p"
  have rec: "(\<exists>e. ni_collect pe sendFund mid tok (Suc i) ps ?failed = Inl e \<and> is_panic e) \<or>
    (\<exists>acc1. ni_collect pe sendFund mid tok (Suc i) ps ?failed = Inr acc1 \<and> na_infos acc1 = na_infos acc \<and>
       (\<forall>p \<in> set ps. \<not> ni_ready pe sendFund mid tok p))"
    using Cons.IH [of ?failed "Suc i"] Cons.prems by simp
  show ?case
  proof (cases "ni_ready pe sendFund mid tok p")
    case True
    then obtain x where x: "?x = Inr x" "sendFund \<longrightarrow> \<not> isl (getSectorCollateralNiPoRep pe mid p tok x)"
      by (auto simp: ni_ready_def)
    then have "\<exists>sc. (if sendFund then getSectorCollateralNiPoRep pe mid p tok x else Inr 0) = Inr sc"
      by (cases "getSectorCollateralNiPoRep pe mid p tok x"; cases sendFund) auto
    then obtain sc where "(if sendFund then getSectorCollateralNiPoRep pe mid p tok x else Inr 0) = Inr sc" ..
    with x Cons.prems show ?thesis
      by (auto simp: Let_def nil_deref_def is_panic_def split: option.splits)
  next
    case False
    then have "(\<exists>e. ?x = Inl e) \<or> (\<exists>x e. ?x = Inr x \<and> sendFund \<and> getSectorCollateralNiPoRep pe mid p tok x = Inl e)"
      by (cases ?x) (auto simp: ni_ready_def isl_def)
    then have "(\<exists>e. ni_collect pe sendFund mid tok i (p # ps) acc = Inl e \<and> is_panic e) \<or>
        ni_collect pe sendFund mid tok i (p # ps) acc = ni_collect pe sendFund mid tok (Suc i) ps ?failed"
      by (auto simp: Let_def)
    with rec False show ?thesis by auto
  qed
qed simp

lemma ni_body_sends_nothing:
  "\<exists>r. ni_body pe sectors mid ctrlAddr tok nv sent = Some (r, sectors, sent) \<and>
    (\<forall>mcfg x. MinerConfig (ce_cfg (pe_env pe)) mid = Inr mcfg \<longrightarrow> x \<in> set sectors \<longrightarrow>
       ni_ready pe (cp_SendFund (cc_Prove (mc_Commitment mcfg))) mid tok x \<longrightarrow> (\<exists>e. r = Inl e \<and> is_panic e))"
proof (cases "MinerConfig (ce_cfg (pe_env pe)) mid")
  case (Inr mcfg)
  let ?acc = "\<lparr>na_map = Map.empty, na_failed = [], na_collateral = 0, na_infos = [], na_acts = []\<rparr>"
  from ni_collect_panics [of ?acc pe "cp_SendFund (cc_Prove (mc_Commitment mcfg))" mid tok 0 sectors] Inr show ?thesis
    by (auto simp: ni_body_def Let_def aggregateProofType_def)
qed (simp add: ni_body_def Let_def)

section \<open>Properties\<close>

text \<open>C8. A batch of pre-commits that is processed without an error puts exactly one message before the messager. Its
  parameters are those of the sectors of the batch that pass the checks, in order, and its value their deposits.
  Every sector of the batch is written back, the ones in the message with its identifier and the others with the
  message information they came with: a sector whose own write succeeds carries it, a sector whose own write
  fails is as it was, on an engine that works no write to a stored sector fails, and nothing else changes.\<close>

theorem precommit_batch_covers:
  assumes "precommit_Process pe sectors mid ctrlAddr (sm, sent) = Some (Inr (), sm1, sent1)" "messager_ok (pe_ms pe)"
    "distinct (map ss_ID sectors)"
  shows "\<exists>ccid msg spec mcfg. sent1 = sent @ [(ccid, msg, spec)] \<and> cg_Method msg = PreCommitSectorBatch2 \<and>
    precommitted pe sectors \<noteq> [] \<and> MinerConfig (ce_cfg (pe_env pe)) mid = Inr mcfg \<and>
    ca_MarshalPreCommits (pe_ca pe) (map (\<lambda>s. sent_params s (fst (precommit_of pe s))) (precommitted pe sectors)) = Inr (cg_Params msg) \<and>
    cg_Value msg = (if cp_SendFund (cc_Pre (mc_Commitment mcfg)) then sum_list (map (snd \<circ> precommit_of pe) (precommitted pe sectors)) else 0) \<and>
    written_back sm sm1 (map (\<lambda>s. (ss_ID s, if s \<in> set (precommitted pe sectors)
      then (ss_MessageInfo s)\<lparr>mi_PreCommitCid := Some ccid\<rparr> else ss_MessageInfo s)) sectors)"
proof -
  from assms(1) obtain sectors1 where body: "precommit_body pe sectors mid ctrlAddr sent = Some (Inr (), sectors1, sent1)"
    and sm1: "sm1 = updateSector sectors1 sm" by (auto simp: precommit_Process_def deferred_def)
  from precommit_bodyD [OF body assms(2)] obtain ccid msg spec mcfg where b: "sent1 = sent @ [(ccid, msg, spec)]"
    "cg_Method msg = PreCommitSectorBatch2" "precommitted pe sectors \<noteq> []" "MinerConfig (ce_cfg (pe_env pe)) mid = Inr mcfg"
    "ca_MarshalPreCommits (pe_ca pe) (map (\<lambda>s. sent_params s (fst (precommit_of pe s))) (precommitted pe sectors)) = Inr (cg_Params msg)"
    "cg_Value msg = (if cp_SendFund (cc_Pre (mc_Commitment mcfg)) then sum_list (map (snd \<circ> precommit_of pe) (precommitted pe sectors)) else 0)"
    and s1: "sectors1 = map (\<lambda>s. if s \<in> set (precommitted pe sectors) then mark_precommit ccid s else s) sectors" by blast
  have "map ss_ID sectors1 = map ss_ID sectors" unfolding s1 by (simp add: mark_precommit_def)
  with assms(3) have "written_back sm sm1 (marks_of sectors1)" unfolding sm1 by (intro updateSector_written) simp
  moreover have "marks_of sectors1 = map (\<lambda>s. (ss_ID s, if s \<in> set (precommitted pe sectors)
      then (ss_MessageInfo s)\<lparr>mi_PreCommitCid := Some ccid\<rparr> else ss_MessageInfo s)) sectors"
    unfolding s1 by (simp add: marks_of_def mark_precommit_def)
  ultimately show ?thesis using b
    by (intro exI [of _ ccid] exI [of _ msg] exI [of _ spec] exI [of _ mcfg]) simp
qed

text \<open>C9. A batch of interactive proofs (of one miner, so with different numbers) that is processed without an error puts
  at most one message before the messager, and none only if no sector of the batch can be funded at the tipset
  of the token. The message activates exactly the funded sectors in the order of their sorting, with their manifests and their
  own proofs, or the aggregate of these proofs; its value is their collateral. Every sector is written back, with the
  identifier of the message exactly when it activates the sector: a sector whose own write succeeds carries it,
  a sector whose own write fails is as it was, on an engine that works no write to a stored sector fails, and
  nothing else changes.\<close>

theorem prove_batch_covers:
  assumes "ProcessV2 pe sectors mid ctrlAddr tok nv aggregate (sm, sent) = Some (Inr (), sm1, sent1)" "messager_ok (pe_ms pe)"
    "distinct (map (\<lambda>s. sid_Number (ss_ID s)) sectors)" "\<And>xs. mset (ca_SortSectors (pe_ca pe) xs) = mset xs"
  shows "\<exists>mcfg tsk ts ok. MinerConfig (ce_cfg (pe_env pe)) mid = Inr mcfg \<and>
    ca_TipSetKeyFromBytes (pe_ca pe) tok = Inr tsk \<and> ca_ChainGetTipSet (pe_ca pe) tsk = Inr ts \<and>
    ok = filter (funded pe (cp_SendFund (cc_Prove (mc_Commitment mcfg))) mid ts) (ca_SortSectors (pe_ca pe) sectors) \<and>
    (ok = [] \<and> sent1 = sent \<and> written_back sm sm1 (marks_of (ca_SortSectors (pe_ca pe) sectors)) \<or>
     (\<exists>ccid msg spec params. ok \<noteq> [] \<and> sent1 = sent @ [(ccid, msg, spec)] \<and> cg_Method msg = ProveCommitSectors3 \<and>
        ca_MarshalProve (pe_ca pe) params = Inr (cg_Params msg) \<and>
        pv_SectorActivations params = map (\<lambda>p. (sid_Number (ss_ID p), manifest_of pe p)) ok \<and>
        proofs_sent pe mid nv aggregate ok params \<and>
        pv_RequireActivationSuccess params = msl_RequireActivationSuccess (mc_Sealing mcfg) \<and>
        pv_RequireNotificationSuccess params = msl_RequireNotificationSuccess (mc_Sealing mcfg) \<and>
        cg_Value msg = (if cp_SendFund (cc_Prove (mc_Commitment mcfg))
          then sum_list (map (\<lambda>p. projr (getSectorCollateral pe p mid ts (manifest_of pe p))) ok) else 0) \<and>
        written_back sm sm1 (map (\<lambda>s. (ss_ID s, if s \<in> set ok then (ss_MessageInfo s)\<lparr>mi_CommitCid := Some ccid\<rparr>
          else ss_MessageInfo s)) (ca_SortSectors (pe_ca pe) sectors))))"
proof -
  let ?ss = "ca_SortSectors (pe_ca pe) sectors"
  from assms(1) obtain sectors1 where body: "v2_body pe sectors mid ctrlAddr tok nv aggregate sent = Some (Inr (), sectors1, sent1)"
    and sm1: "sm1 = updateSector sectors1 sm" by (auto simp: ProcessV2_def deferred_def)
  have num: "distinct (map (\<lambda>s. sid_Number (ss_ID s)) ?ss)"
    using assms(3) mset_eq_imp_distinct_iff [of "map (\<lambda>s. sid_Number (ss_ID s)) ?ss" "map (\<lambda>s. sid_Number (ss_ID s)) sectors"]
    by (simp add: assms(4))
  then have dist: "distinct (map ss_ID ?ss)" by (auto simp: distinct_map inj_on_def)
  from v2_bodyD [OF body assms(2)] obtain mcfg tsk ts acc where c: "MinerConfig (ce_cfg (pe_env pe)) mid = Inr mcfg"
    "ca_TipSetKeyFromBytes (pe_ca pe) tok = Inr tsk" "ca_ChainGetTipSet (pe_ca pe) tsk = Inr ts"
    "v2_collect pe (cp_SendFund (cc_Prove (mc_Commitment mcfg))) mid ts ?ss empty_v2 = Inr acc"
    "va_infos acc = [] \<and> sectors1 = ?ss \<and> sent1 = sent \<or>
     (\<exists>ccid msg spec params. va_infos acc \<noteq> [] \<and> sent1 = sent @ [(ccid, msg, spec)] \<and> cg_Method msg = ProveCommitSectors3 \<and>
        ca_MarshalProve (pe_ca pe) params = Inr (cg_Params msg) \<and> v2_params pe mcfg mid nv aggregate acc = Inr params \<and>
        cg_Value msg = va_collateral acc \<and> sectors1 = map (mark_commit (va_failed acc) ccid) ?ss)" by blast
  define ok where "ok = filter (funded pe (cp_SendFund (cc_Prove (mc_Commitment mcfg))) mid ts) ?ss"
  note d = v2_collectD [OF c(4), folded ok_def]
  have none: "va_infos acc = [] \<longleftrightarrow> ok = []" using d by (auto simp: empty_v2_def)
  have fail: "s \<in> set ?ss \<Longrightarrow> ss_ID s \<in> set (va_failed acc) \<longleftrightarrow> s \<notin> set ok" for s
    using d dist by (auto simp: empty_v2_def ok_def distinct_map inj_on_def)
  have own: "\<forall>p \<in> set ok. va_map acc (sid_Number (ss_ID p)) = Some p \<and> ss_Proof p \<noteq> None \<and> aggregate_info_of p \<noteq> None"
    using d num by (auto simp: empty_v2_def ok_def comp_def rev_map [symmetric] intro!: map_of_is_SomeI)
  from c(5) show ?thesis
  proof (elim disjE exE conjE)
    assume "va_infos acc = []" "sectors1 = ?ss" "sent1 = sent"
    then show ?thesis using none c(1-3) ok_def updateSector_written [OF dist] unfolding sm1 by blast
  next
    fix ccid msg spec params
    assume a: "va_infos acc \<noteq> []" "sent1 = sent @ [(ccid, msg, spec)]" "cg_Method msg = ProveCommitSectors3"
      "ca_MarshalProve (pe_ca pe) params = Inr (cg_Params msg)" "v2_params pe mcfg mid nv aggregate acc = Inr params"
      "cg_Value msg = va_collateral acc" "sectors1 = map (mark_commit (va_failed acc) ccid) ?ss"
    have "map ss_ID sectors1 = map ss_ID ?ss" unfolding a(7) by simp
    with dist have "written_back sm sm1 (marks_of sectors1)" unfolding sm1 by (intro updateSector_written) simp
    moreover have "marks_of sectors1 = map (\<lambda>s. (ss_ID s, if s \<in> set ok then (ss_MessageInfo s)\<lparr>mi_CommitCid := Some ccid\<rparr>
        else ss_MessageInfo s)) ?ss"
      unfolding a(7) using fail by (simp add: marks_of_def mark_commit_def)
    moreover have ok: "ok \<noteq> []" using a(1) none by simp
    moreover have "pv_SectorActivations params = map (\<lambda>p. (sid_Number (ss_ID p), manifest_of pe p)) ok \<and>
        proofs_sent pe mid nv aggregate ok params \<and>
        pv_RequireActivationSuccess params = msl_RequireActivationSuccess (mc_Sealing mcfg) \<and>
        pv_RequireNotificationSuccess params = msl_RequireNotificationSuccess (mc_Sealing mcfg)"
      using v2_paramsD [OF a(5) _ _ ok own] d by (simp add: empty_v2_def)
    moreover have "cg_Value msg = (if cp_SendFund (cc_Prove (mc_Commitment mcfg))
          then sum_list (map (\<lambda>p. projr (getSectorCollateral pe p mid ts (manifest_of pe p))) ok) else 0)"
      using a(6) d by (simp add: empty_v2_def)
    ultimately show ?thesis using c(1-3) a(2-4)
      by (intro exI [of _ mcfg] exI [of _ tsk] exI [of _ ts] exI [of _ ok] conjI disjI2 exI [of _ ccid] exI [of _ msg] exI [of _ spec]
          exI [of _ params]) (simp_all add: ok_def)
  qed
qed

text \<open>C40. A batch with a sector of a non-interactive proof type is never sent: no message reaches the messager, what is
  stored of the interactive sectors of the batch is not touched, and if the non-interactive sector has an
  expiration and can be funded the processor panics.\<close>

theorem noninteractive_batch_lost:
  assumes "x \<in> set sectors" "ca_IsNonInteractive (pe_ca pe) (ss_SectorType x)"
  shows "\<exists>r sm1. commit_Process pe sectors mid ctrlAddr (sm, sent) = Some (r, sm1, sent) \<and>
    (\<forall>sid. sid \<notin> ss_ID ` {s \<in> set sectors. ca_IsNonInteractive (pe_ca pe) (ss_SectorType s)} \<longrightarrow>
       view sm1 WorkerOnline sid = view sm WorkerOnline sid) \<and>
    (\<forall>tok height nv mcfg. sa_ChainHead (ce_api (pe_env pe)) = Inr (tok, height) \<longrightarrow>
       sa_StateNetworkVersion (ce_api (pe_env pe)) tok = Inr nv \<longrightarrow> MinerConfig (ce_cfg (pe_env pe)) mid = Inr mcfg \<longrightarrow>
       ni_ready pe (cp_SendFund (cc_Prove (mc_Commitment mcfg))) mid tok x \<longrightarrow> (\<exists>e. r = Inl e \<and> is_panic e))"
proof -
  let ?ni = "filter (\<lambda>x. ca_IsNonInteractive (pe_ca pe) (ss_SectorType x)) sectors"
  have ne: "?ni \<noteq> []" "x \<in> set ?ni" using assms by (auto simp: filter_empty_conv)
  have other: "sid \<notin> ss_ID ` {s \<in> set sectors. ca_IsNonInteractive (pe_ca pe) (ss_SectorType s)} \<Longrightarrow>
      view (updateSector ?ni sm) WorkerOnline sid = view sm WorkerOnline sid" for sid
    by (rule updateSector_other) auto
  show ?thesis
  proof (cases "\<exists>tok height nv. sa_ChainHead (ce_api (pe_env pe)) = Inr (tok, height) \<and> sa_StateNetworkVersion (ce_api (pe_env pe)) tok = Inr nv")
    case True
    then obtain tok height nv where c: "sa_ChainHead (ce_api (pe_env pe)) = Inr (tok, height)"
      "sa_StateNetworkVersion (ce_api (pe_env pe)) tok = Inr nv" by blast
    then have eq: "commit_Process pe sectors mid ctrlAddr (sm, sent) = ProcessNiPoRep pe ?ni mid ctrlAddr tok nv (sm, sent)"
      using ne(1) by (simp add: commit_Process_def Let_def)
    from ni_body_sends_nothing [of pe ?ni mid ctrlAddr tok nv sent] obtain r where r:
      "ni_body pe ?ni mid ctrlAddr tok nv sent = Some (r, ?ni, sent)"
      "\<forall>mcfg x. MinerConfig (ce_cfg (pe_env pe)) mid = Inr mcfg \<longrightarrow> x \<in> set ?ni \<longrightarrow>
       ni_ready pe (cp_SendFund (cc_Prove (mc_Commitment mcfg))) mid tok x \<longrightarrow> (\<exists>e. r = Inl e \<and> is_panic e)"
      by (elim exE conjE)
    then have "commit_Process pe sectors mid ctrlAddr (sm, sent) = Some (r, updateSector ?ni sm, sent)"
      unfolding eq by (simp add: ProcessNiPoRep_def deferred_def)
    with r(2) ne(2) other c show ?thesis by auto
  next
    case False
    then have "\<exists>r. commit_Process pe sectors mid ctrlAddr (sm, sent) = Some (r, sm, sent)"
      by (auto simp: commit_Process_def split: sum.splits)
    with False show ?thesis by auto
  qed
qed

section \<open>Instances\<close>

definition demo_proc_api :: proc_api where
  "demo_proc_api = \<lparr>ca_StateNetworkVersion = (\<lambda>_. Inr 22), ca_AllocationIdForPendingDeal = (\<lambda>_. Inr 0), ca_StateLookupID = Inr,
     ca_TipSetKeyFromBytes = Inr, ca_ChainGetTipSet = (\<lambda>k. Inr (k, 1000)),
     ca_InitialPledgeForSector = (\<lambda>_ _ _ _. Inr 50), ca_PreCommitDepositForPower = (\<lambda>_ _ _. Inr 20),
     ca_InitialPledgeCollateral = (\<lambda>_ _ _. Inr 50), ca_ProvingDeadline = (\<lambda>_ _. Inr 3), ca_SectorSize = (\<lambda>_. Inr 64),
     ca_IsNonInteractive = (\<lambda>t. t = 18), ca_MarketAddress = IDAddress 5, ca_MinAggregatedSectors = 4, ca_WPoStPeriodDeadlines = 48,
     ca_DumpDealID = (\<lambda>_. Inr []), ca_MarshalPreCommits = (\<lambda>ps. Inr (replicate (length ps) 1)),
     ca_MarshalProve = (\<lambda>p. Inr (replicate (length (pv_SectorActivations p)) 2)), ca_MarshalNI = (\<lambda>_. Inr [3]),
     ca_AggregateSealProofs = (\<lambda>_ _ _ _ _. Inr [9]), ca_SortSectors = id, ca_SortInfos = id, ca_SortActivations = id\<rparr>"

definition demo_proc :: proc_env where
  "demo_proc = \<lparr>pe_env = demo_env, pe_ms = demo_messager, pe_ca = demo_proc_api\<rparr>"

definition demo_proving :: proc_env where
  "demo_proving = demo_proc\<lparr>pe_env := demo_env\<lparr>ce_api := demo_sealing\<lparr>sa_StateSectorPreCommitInfo := (\<lambda>_ _ _. Inr (Some
     \<lparr>po_SealRandEpoch = 900, po_SealedCID = ''commr'', po_SealProof = 8, po_PreCommitEpoch = 950, po_Expiration = 600000,
      po_PreCommitDeposit = 20\<rparr>))\<rparr>\<rparr>\<rparr>"

definition demo_precommitting :: sector_state where
  "demo_precommitting = demo_committing\<lparr>ss_Pre := Some demo_pre\<rparr>"

definition demo_proven :: sector_state where
  "demo_proven = demo_precommitting\<lparr>ss_Seed := Some \<lparr>sd_Seed = [1], sd_Epoch = 1100\<rparr>, ss_Proof := Some \<lparr>pf_Proof = [7]\<rparr>\<rparr>"

lemma demo_push: "pushMessage demo_libs demo_messager src mid v meth fee params [] =
    (let c = map (\<lambda>x. char_of (unat x)) (0 # params)
     in Some (Inr c, [(c, message_of (IDAddress mid) src v meth fee params, GetSendSpec fee)]))"
proof -
  let ?c = "map (\<lambda>x. char_of (unat x)) (0 # params) :: string"
  have "find_mid demo_messager [] params 0 = Some (Inr ?c)"
    by (subst find_mid.simps) (simp add: NewMIdFromBytes_def demo_messager_def)
  moreover have "ms_RawData demo_messager m = Inr (cg_Params m)" "ms_PushMessageWithId demo_messager x c y z = (Inr c, True)" for m x y z c
    by (simp_all add: demo_messager_def)
  ultimately show ?thesis by (simp add: pushMessage_def push_found_def Let_def message_of_def demo_libs_def)
qed

lemma demo_info: "\<exists>i. preCommitInfo demo_proc demo_precommitting = Inr i"
proof -
  have "checkPrecommit demo_np demo_sealing demo_libs (IDAddress 1000) demo_precommitting = Inr ()"
    unfolding demo_precommitting_def by (rule demo_precheck)
  moreover have "\<exists>x. sectorExpiration demo_np demo_sealing (ce_cfg demo_env) demo_precommitting = Inr x"
    by (simp add: sectorExpiration_def sectorEnd_def ccSectorLifetime_def MaxPreCommitRandomnessLookback_def
        SealRandomnessLookback_def GetPreCommitChallengeDelay_def Let_def demo_precommitting_def demo_commit_defs
        DefaultMinerConfig_def defaultMinerSectorConfig_def)
  moreover have "ce_np demo_env = demo_np" "ce_api demo_env = demo_sealing" "ce_lib demo_env = demo_libs"
    "sid_Miner (ss_ID demo_precommitting) = 1000" "sa_ChainHead demo_sealing = Inr ([], 1000)" "cl_NewIDAddress demo_libs 1000 = Inr (IDAddress 1000)"
    "ss_Pre demo_precommitting = Some demo_pre" "ss_Ticket demo_precommitting = Some \<lparr>tk_Ticket = [3], tk_Epoch = 900\<rparr>"
    by (simp_all add: demo_precommitting_def demo_commit_defs)
  ultimately show ?thesis by (auto simp: preCommitInfo_def demo_proc_def demo_proc_api_def Let_def)
qed

lemma demo_written: "written_back demo_mgr sm1 [(demo_sid, info)] \<Longrightarrow>
    view sm1 WorkerOnline demo_sid = Some (Json (message_left info (new_sector_state demo_sid 8)))"
  by (auto simp: written_back_def demo_mgr_def demo_store_def view_def)

theorem precommit_batch_covers_witness:
  "\<exists>sm1 c msg spec st. precommit_Process demo_proc [demo_precommitting] 1000 Undef (demo_mgr, []) = Some (Inr (), sm1, [(c, msg, spec)]) \<and>
     view sm1 WorkerOnline demo_sid = Some (Json st) \<and> mi_PreCommitCid (ss_MessageInfo st) = Some c"
proof -
  obtain i where i: "preCommitInfo demo_proc demo_precommitting = Inr i" using demo_info ..
  obtain m where m: "MinerConfig (ce_cfg (pe_env demo_proc)) 1000 = Inr m" by (simp add: demo_proc_def demo_env_def)
  have "\<exists>sm1 sent1. precommit_Process demo_proc [demo_precommitting] 1000 Undef (demo_mgr, []) = Some (Inr (), sm1, sent1)"
    using i m
    by (simp add: precommit_Process_def precommit_body_def sendPrecommit_def batch_entries_def map_filter_simps deferred_def Let_def)
      (simp add: demo_proc_def demo_proc_api_def demo_env_def demo_push Let_def)
  then obtain sm1 sent1 where run: "precommit_Process demo_proc [demo_precommitting] 1000 Undef (demo_mgr, []) = Some (Inr (), sm1, sent1)" by blast
  have "messager_ok (pe_ms demo_proc)" by (simp add: demo_proc_def demo_messager_ok)
  from precommit_batch_covers [OF run this] obtain c msg spec where sent: "sent1 = [(c, msg, spec)]" and
    w: "written_back demo_mgr sm1 [(demo_sid, (ss_MessageInfo demo_precommitting)\<lparr>mi_PreCommitCid := Some c\<rparr>)]"
    using i by (auto simp: precommitted_def demo_precommitting_def demo_committing_def new_sector_state_def)
  from demo_written [OF w] run show ?thesis unfolding sent by (auto simp: message_left_def)
qed

theorem prove_batch_covers_witness:
  "\<exists>sm1 c msg spec st. ProcessV2 demo_proving [demo_proven] 1000 Undef [] 22 False (demo_mgr, []) = Some (Inr (), sm1, [(c, msg, spec)]) \<and>
     view sm1 WorkerOnline demo_sid = Some (Json st) \<and> mi_CommitCid (ss_MessageInfo st) = Some c"
proof -
  let ?pe = demo_proving
  obtain m where m: "MinerConfig (ce_cfg (pe_env ?pe)) 1000 = Inr m" by (simp add: demo_proving_def demo_env_def)
  have ca: "pe_ca ?pe = demo_proc_api" "ce_lib (pe_env ?pe) = demo_libs" "pe_ms ?pe = demo_messager"
    by (simp_all add: demo_proving_def demo_proc_def demo_env_def)
  have pp: "ProcessPieces ?pe demo_proven = Inr ([], [])"
    by (simp add: ProcessPieces_def demo_proven_def demo_precommitting_def demo_commit_defs)
  have col: "getSectorCollateral ?pe demo_proven 1000 ([], 1000) [] = Inr 30"
    by (simp add: getSectorCollateral_def ca) (simp add: demo_proving_def demo_proc_def demo_proc_api_def demo_libs_def Let_def)
  have sec: "\<exists>pf. ss_Proof demo_proven = Some pf" "\<exists>i. aggregate_info_of demo_proven = Some i"
    by (simp_all add: demo_proven_def demo_precommitting_def demo_commit_defs aggregate_info_of_def)
  then obtain pf i where sec: "ss_Proof demo_proven = Some pf" "aggregate_info_of demo_proven = Some i" by blast
  have "\<exists>acc. v2_collect ?pe b 1000 ([], 1000) [demo_proven] empty_v2 = Inr acc \<and> va_infos acc \<noteq> []" for b
    by (cases b) (simp_all add: pp col sec Let_def)
  then obtain acc where acc: "v2_collect ?pe (cp_SendFund (cc_Prove (mc_Commitment m))) 1000 ([], 1000) [demo_proven] empty_v2 = Inr acc"
    "va_infos acc \<noteq> []" by blast
  have api: "ca_SortSectors demo_proc_api xs = xs" "ca_TipSetKeyFromBytes demo_proc_api k = Inr k"
    "ca_ChainGetTipSet demo_proc_api k = Inr (k, 1000)" "\<exists>enc. ca_MarshalProve demo_proc_api q = Inr enc" for xs k q
    by (simp_all add: demo_proc_api_def)
  obtain q where q: "v2_params ?pe m 1000 22 False acc = Inr q" by (simp add: v2_params_def Let_def)
  obtain enc where enc: "ca_MarshalProve demo_proc_api q = Inr enc" using api(4) by blast
  have "\<exists>sm1 sent1. ProcessV2 ?pe [demo_proven] 1000 Undef [] 22 False (demo_mgr, []) = Some (Inr (), sm1, sent1) \<and> sent1 \<noteq> []"
    using acc(2) by (simp add: ProcessV2_def v2_body_def m ca api acc(1) q enc push_prove_def demo_push Let_def deferred_def del: v2_collect.simps)
  then obtain sm1 sent1 where run: "ProcessV2 ?pe [demo_proven] 1000 Undef [] 22 False (demo_mgr, []) = Some (Inr (), sm1, sent1)"
    and ne: "sent1 \<noteq> []" by blast
  have "messager_ok (pe_ms ?pe)" "mset (ca_SortSectors (pe_ca ?pe) xs) = mset xs" for xs by (simp_all add: ca demo_messager_ok demo_proc_api_def)
  from prove_batch_covers [OF run this(1) _ this(2)] ne obtain c msg spec where sent: "sent1 = [(c, msg, spec)]" and
    w: "written_back demo_mgr sm1 [(demo_sid, (ss_MessageInfo demo_proven)\<lparr>mi_CommitCid := Some c\<rparr>)]"
    by (auto simp: ca api(1) demo_proven_def demo_precommitting_def demo_committing_def new_sector_state_def split: if_splits)
  from demo_written [OF w] run show ?thesis unfolding sent by (auto simp: message_left_def)
qed

theorem noninteractive_batch_lost_witness:
  "\<exists>r sm1. commit_Process demo_proc [demo_proven\<lparr>ss_SectorType := 18\<rparr>, demo_proven] 1000 Undef (demo_mgr, []) = Some (r, sm1, [])"
  using noninteractive_batch_lost [of "demo_proven\<lparr>ss_SectorType := 18\<rparr>" "[demo_proven\<lparr>ss_SectorType := 18\<rparr>, demo_proven]" demo_proc 1000 Undef demo_mgr "[]"]
  by (fastforce simp: demo_proc_def demo_proc_api_def)

end
