(* ===== verification/Event_Bus.thy ===== *)
theory Event_Bus
  imports Damocles_Prelude "HOL-Library.Multiset"
begin

text \<open>
  The event bus (\<open>pkg/chain/eventbus.go\<close>): callbacks to run once the chain has reached a height. The
  callbacks are kept in descending order of their heights; a new chain head starts those at the end of the
  list whose height it has reached and forgets them. \<open>sort.Slice\<close> is not stable: it is a parameter that
  gives some descending permutation of the list.
\<close>

section \<open>The bus\<close>

record 'f callback =
  cb_h :: epoch
  cb_f :: 'f

type_synonym 'f bus = "'f callback list"

definition At :: "('f bus \<Rightarrow> 'f bus) \<Rightarrow> epoch \<Rightarrow> epoch \<Rightarrow> 'f option \<Rightarrow> 'f bus \<Rightarrow> 'f bus" where
  "At srt height confidential fn cbs = (case fn of
     None \<Rightarrow> cbs
   | Some f \<Rightarrow> srt (cbs @ [\<lparr>cb_h = height + confidential, cb_f = f\<rparr>]))"

fun first_due :: "epoch \<Rightarrow> 'f bus \<Rightarrow> nat \<Rightarrow> nat option" where
  "first_due tsh [] i = None"
| "first_due tsh (cb # cbs) i = (if cb_h cb \<le> tsh then Some i else first_due tsh cbs (Suc i))"

text \<open>The callbacks a head starts, and the ones that stay.\<close>

definition trigger :: "epoch \<Rightarrow> 'f bus \<Rightarrow> 'f bus \<times> 'f bus" where
  "trigger tsh cbs = (if length cbs = 0 then ([], cbs)
     else (case first_due tsh cbs 0 of
        None \<Rightarrow> ([], cbs)
      | Some start \<Rightarrow> (List.drop start cbs, take start cbs)))"

text \<open>One round of \<open>Run\<close>: the node's answer to \<open>ChainHead\<close>, whose tipset may be nil.\<close>

definition bus_tick :: "epoch option res \<Rightarrow> 'f bus \<Rightarrow> 'f bus \<times> 'f bus" where
  "bus_tick head cbs = (case head of
     Inl e \<Rightarrow> ([], cbs)
   | Inr None \<Rightarrow> ([], cbs)
   | Inr (Some tsh) \<Rightarrow> trigger tsh cbs)"

section \<open>Runs\<close>

text \<open>A history of registrations and ticks: the bus after it, with what was registered and what was
  started.\<close>

datatype 'f bus_event = Registered epoch epoch "'f option" | Ticked "epoch option res"

fun bus_run :: "('f bus \<Rightarrow> 'f bus) \<Rightarrow> 'f bus_event list \<Rightarrow> 'f bus \<Rightarrow> 'f bus \<times> 'f bus" where
  "bus_run srt [] cbs = ([], cbs)"
| "bus_run srt (Registered h c fn # evs) cbs = bus_run srt evs (At srt h c fn cbs)"
| "bus_run srt (Ticked head # evs) cbs = (case bus_tick head cbs of (started, cbs1) \<Rightarrow>
     (case bus_run srt evs cbs1 of (later, cbs2) \<Rightarrow> (started @ later, cbs2)))"

fun registrations :: "'f bus_event list \<Rightarrow> 'f bus" where
  "registrations [] = []"
| "registrations (Registered h c (Some f) # evs) = \<lparr>cb_h = h + c, cb_f = f\<rparr> # registrations evs"
| "registrations (_ # evs) = registrations evs"

definition descending :: "'f bus \<Rightarrow> bool" where
  "descending cbs = sorted_wrt (\<lambda>a b. cb_h b \<le> cb_h a) cbs"

definition sorts_desc :: "('f bus \<Rightarrow> 'f bus) \<Rightarrow> bool" where
  "sorts_desc srt = (\<forall>cbs. mset (srt cbs) = mset cbs \<and> descending (srt cbs))"

section \<open>Lemmas\<close>

lemma first_due_Some:
  "first_due tsh cbs i = Some j \<Longrightarrow> i \<le> j \<and> j - i < length cbs \<and> cb_h (cbs ! (j - i)) \<le> tsh \<and>
     (\<forall>cb \<in> set (take (j - i) cbs). tsh < cb_h cb)"
proof (induction cbs arbitrary: i)
  case (Cons a cbs)
  show ?case
  proof (cases "cb_h a \<le> tsh")
    case False
    with Cons have "Suc i \<le> j \<and> j - Suc i < length cbs \<and> cb_h (cbs ! (j - Suc i)) \<le> tsh \<and>
      (\<forall>cb \<in> set (take (j - Suc i) cbs). tsh < cb_h cb)" by simp
    moreover from this have "j - i = Suc (j - Suc i)" by linarith
    ultimately show ?thesis using False by auto
  qed (use Cons in auto)
qed simp

lemma first_due_None: "first_due tsh cbs i = None \<Longrightarrow> \<forall>cb \<in> set cbs. tsh < cb_h cb"
  by (induction cbs arbitrary: i) (auto split: if_splits)

lemma descending_split:
  assumes "descending cbs" "j < length cbs" "cb_h (cbs ! j) \<le> tsh"
  shows "\<forall>cb \<in> set (List.drop j cbs). cb_h cb \<le> tsh"
proof
  fix cb assume "cb \<in> set (List.drop j cbs)"
  then obtain k where k: "k < length cbs - j" "cb = cbs ! (j + k)" by (auto simp: in_set_conv_nth)
  show "cb_h cb \<le> tsh"
  proof (cases k)
    case (Suc n)
    with k assms(1) have "cb_h cb \<le> cb_h (cbs ! j)" by (auto simp: descending_def intro: sorted_wrt_nth_less)
    with assms(3) show ?thesis by simp
  qed (use k assms in simp)
qed

lemma filter_split:
  assumes "cbs = xs @ ys" "\<forall>cb \<in> set xs. \<not> P cb" "\<forall>cb \<in> set ys. P cb"
  shows "filter P cbs = ys" "filter (\<lambda>cb. \<not> P cb) cbs = xs"
  using assms by (simp_all add: filter_empty_conv)

lemma trigger_descending:
  assumes "descending cbs"
  shows "trigger tsh cbs = (filter (\<lambda>cb. cb_h cb \<le> tsh) cbs, filter (\<lambda>cb. \<not> cb_h cb \<le> tsh) cbs)"
proof (cases "first_due tsh cbs 0")
  case None
  from first_due_None [OF this] have "\<forall>cb \<in> set cbs. \<not> cb_h cb \<le> tsh" by auto
  then have "filter (\<lambda>cb. cb_h cb \<le> tsh) cbs = []" "filter (\<lambda>cb. \<not> cb_h cb \<le> tsh) cbs = cbs"
    by (auto simp: filter_empty_conv)
  with None show ?thesis by (simp add: trigger_def)
next
  case (Some j)
  from first_due_Some [OF this] have j: "j < length cbs" "cb_h (cbs ! j) \<le> tsh" "\<forall>cb \<in> set (take j cbs). \<not> cb_h cb \<le> tsh"
    by (simp_all add: not_le)
  have "filter (\<lambda>cb. cb_h cb \<le> tsh) cbs = List.drop j cbs" "filter (\<lambda>cb. \<not> cb_h cb \<le> tsh) cbs = take j cbs"
    using filter_split [of cbs "take j cbs" "List.drop j cbs" "\<lambda>cb. cb_h cb \<le> tsh"] descending_split [OF assms j(1,2)] j(3) by simp_all
  with Some j(1) show ?thesis by (auto simp: trigger_def)
qed

lemma descending_filter: "descending cbs \<Longrightarrow> descending (filter P cbs)"
  by (simp add: descending_def sorted_wrt_filter)

lemma bus_tick_effect:
  assumes "descending cbs" "bus_tick head cbs = (started, cbs1)"
  shows "descending cbs1 \<and> mset cbs = mset started + mset cbs1"
proof (cases "\<exists>tsh. head = Inr (Some tsh)")
  case True
  then obtain tsh where "head = Inr (Some tsh)" by blast
  with assms have "started = filter (\<lambda>cb. cb_h cb \<le> tsh) cbs" "cbs1 = filter (\<lambda>cb. \<not> cb_h cb \<le> tsh) cbs"
    by (simp_all add: bus_tick_def trigger_descending)
  with assms(1) show ?thesis by (simp add: descending_filter multiset_partition)
next
  case False
  with assms show ?thesis by (auto simp: bus_tick_def split: sum.splits option.splits)
qed

lemma At_effect:
  assumes "sorts_desc srt" "descending cbs"
  shows "descending (At srt h c fn cbs) \<and> mset (At srt h c fn cbs) = mset cbs + mset (registrations [Registered h c fn])"
  using assms by (cases fn) (auto simp: At_def sorts_desc_def)

lemma registrations_Cons: "mset (registrations (ev # evs)) = mset (registrations [ev]) + mset (registrations evs)"
  by (cases ev; cases "case ev of Registered _ _ fn \<Rightarrow> fn | _ \<Rightarrow> None") (auto split: bus_event.splits)

lemma bus_run_conserves:
  assumes "sorts_desc srt" "descending cbs" "bus_run srt evs cbs = (started, cbs1)"
  shows "descending cbs1 \<and> mset started + mset cbs1 = mset cbs + mset (registrations evs)"
  using assms(2,3)
proof (induction evs arbitrary: cbs started)
  case (Cons ev evs)
  show ?case
  proof (cases ev)
    case (Registered h c fn)
    have run: "bus_run srt evs (At srt h c fn cbs) = (started, cbs1)" using Cons.prems(2) Registered by simp
    from At_effect [OF assms(1) Cons.prems(1)] have d: "descending (At srt h c fn cbs)"
      and m: "mset (At srt h c fn cbs) = mset cbs + mset (registrations [ev])" unfolding Registered by blast+
    from Cons.IH [OF d run] show ?thesis unfolding m by (simp only: registrations_Cons [of ev evs]) (simp add: ac_simps)
  next
    case (Ticked head)
    obtain now cbs2 where t: "bus_tick head cbs = (now, cbs2)" by fastforce
    obtain later cbs3 where r: "bus_run srt evs cbs2 = (later, cbs3)" by fastforce
    from bus_tick_effect [OF Cons.prems(1) t] have d: "descending cbs2" and m: "mset cbs = mset now + mset cbs2" by blast+
    from Cons.prems(2) Ticked t r have eq: "started = now @ later" "cbs1 = cbs3" by simp_all
    from Cons.IH [OF d r [folded eq(2)]] show ?thesis using Ticked by (simp add: eq(1) m ac_simps)
  qed
qed simp

section \<open>Properties\<close>

text \<open>C38. Whatever was registered before and however the chain moved, a head starts exactly the waiting callbacks whose height
  it has reached and keeps exactly the others; over the whole history every registered callback was started once or is still
  waiting.\<close>

theorem callbacks_fire_when_due:
  assumes "sorts_desc srt" "bus_run srt evs [] = (started, cbs)"
  shows "bus_tick (Inr (Some tsh)) cbs = (filter (\<lambda>cb. cb_h cb \<le> tsh) cbs, filter (\<lambda>cb. \<not> cb_h cb \<le> tsh) cbs) \<and>
    mset started + mset cbs = mset (registrations evs)"
proof -
  have "descending ([] :: 'a bus)" by (simp add: descending_def)
  from bus_run_conserves [OF assms(1) this assms(2)] have "descending cbs" "mset started + mset cbs = mset (registrations evs)"
    by simp_all
  then show ?thesis by (simp add: bus_tick_def trigger_descending)
qed

definition demo_sort :: "'f bus \<Rightarrow> 'f bus" where
  "demo_sort cbs = rev (sort_key cb_h cbs)"

lemma demo_sorts: "sorts_desc demo_sort"
  unfolding sorts_desc_def
proof (intro allI conjI)
  fix cbs :: "'a bus"
  have "sorted_wrt (\<lambda>a b. cb_h a \<le> cb_h b) (sort_key cb_h cbs)"
    using sorted_sort_key [of cb_h cbs] by (simp add: sorted_map)
  then show "descending (demo_sort cbs)" by (simp add: descending_def demo_sort_def sorted_wrt_rev)
qed (simp add: demo_sort_def)

theorem callbacks_fire_when_due_witness:
  "bus_tick (Inr (Some 40)) (snd (bus_run demo_sort [Registered 30 5 (Some 1), Ticked (Inr (Some 20)), Registered 50 5 (Some 2)] [])) =
     ([\<lparr>cb_h = 35, cb_f = 1\<rparr>], [\<lparr>cb_h = 55, cb_f = 2 :: nat\<rparr>])"
proof -
  have "bus_run demo_sort [Registered 30 5 (Some 1), Ticked (Inr (Some 20)), Registered 50 5 (Some 2)] [] =
      ([], [\<lparr>cb_h = 55, cb_f = 2\<rparr>, \<lparr>cb_h = 35, cb_f = 1 :: nat\<rparr>])"
    by (simp add: At_def bus_tick_def trigger_def demo_sort_def)
  from callbacks_fire_when_due [OF demo_sorts this, of 40] show ?thesis
    by (simp add: At_def bus_tick_def trigger_def demo_sort_def)
qed

end
