(* ===== verification/Sender_Selector.thy ===== *)
theory Sender_Selector
  imports Manager_Config "HOL-Library.Multiset"
begin

text \<open>
  The choice of the address that pays for a message (\<open>modules/address/sender_selector.go\<close>,
  \<open>lookup_id.go\<close>, the \<open>GetSenders\<close> methods of \<open>modules/config.go\<close>). The chain node, the set functions of the library
  \<open>lo\<close>, the hash, the encoding of an address and the expiring cache are parameters; \<open>singleflight\<close> runs
  the function it is given, which is all it does for one caller at a time. A cached value is an interface: \<open>None\<close> is nil.
\<close>

section \<open>Libraries\<close>

record lo_lib =
  lo_Union :: "address list \<Rightarrow> address list \<Rightarrow> address list"
  lo_Uniq :: "address list \<Rightarrow> address list"
  lo_Intersect :: "address list \<Rightarrow> address list \<Rightarrow> address list"

record 'c cache_lib =
  cache_Get :: "'c \<Rightarrow> string \<Rightarrow> address option option"
  cache_Set :: "string \<Rightarrow> address option \<Rightarrow> 'c \<Rightarrow> 'c"

text \<open>\<open>StateMinerInfo\<close> answers with the owner, the worker and the control addresses.\<close>

record select_api =
  sl_StateLookupID :: "address \<Rightarrow> address res"
  sl_NewIDAddress :: "u64 \<Rightarrow> address res"
  sl_StateMinerInfo :: "address \<Rightarrow> (address \<times> address \<times> address list) res"
  sl_StateGetActor :: "address \<Rightarrow> int res"
  sl_Bytes :: "address \<Rightarrow> bytes"
  sl_Hash :: "bytes \<Rightarrow> u64"
  sl_Sort :: "(address \<Rightarrow> int) \<Rightarrow> address list \<Rightarrow> address list"

section \<open>Configured senders\<close>

definition senders_of :: "lo_lib \<Rightarrow> address option \<Rightarrow> address list \<Rightarrow> address list" where
  "senders_of lo single many = (case single of
     Some a \<Rightarrow> lo_Union lo many [a]
   | None \<Rightarrow> lo_Uniq lo many)"

definition snapup_GetSenders :: "lo_lib \<Rightarrow> miner_snapup_config \<Rightarrow> address list" where
  "snapup_GetSenders lo m = senders_of lo (msu_Sender m) (msu_Senders m)"

definition policy_GetSenders :: "lo_lib \<Rightarrow> commitment_policy_config \<Rightarrow> address list" where
  "policy_GetSenders lo m = senders_of lo (cp_Sender m) (cp_Senders m)"

definition post_GetSenders :: "lo_lib \<Rightarrow> miner_post_config \<Rightarrow> address list" where
  "post_GetSenders lo m = senders_of lo (mp_Sender m) (mp_Senders m)"

section \<open>The lookup of identifiers\<close>

type_synonym id_mapping = "address \<rightharpoonup> address"

definition lookup_StateLookupID :: "select_api \<Rightarrow> address \<Rightarrow> (id_mapping, address) step" where
  "lookup_StateLookupID api nonF0 m = (case m nonF0 of
     Some f0 \<Rightarrow> (Inr f0, m)
   | None \<Rightarrow> (case sl_StateLookupID api nonF0 of
       Inl e \<Rightarrow> (Inl (Wrap ''convert non-f0 address to f0 address'' e), m)
     | Inr idAddr \<Rightarrow> (Inr idAddr, m(nonF0 \<mapsto> idAddr))))"

section \<open>The choice\<close>

definition is_id :: "address \<Rightarrow> bool" where
  "is_id a = (case a of IDAddress _ \<Rightarrow> True | _ \<Rightarrow> False)"

fun resolve_senders :: "select_api \<Rightarrow> address list \<Rightarrow> (id_mapping, address list) step" where
  "resolve_senders api [] m = (Inr [], m)"
| "resolve_senders api (a # as) m = (case (if is_id a then (Inr a, m) else lookup_StateLookupID api a m) of
     (Inl e, m1) \<Rightarrow> (Inl e, m1)
   | (Inr a1, m1) \<Rightarrow> (case resolve_senders api as m1 of
       (Inl e, m2) \<Rightarrow> (Inl e, m2)
     | (Inr as1, m2) \<Rightarrow> (Inr (a1 # as1), m2)))"

definition getBalance :: "select_api \<Rightarrow> address \<Rightarrow> int \<Rightarrow> int" where
  "getBalance api a defaultBalance = (case sl_StateGetActor api a of Inl e \<Rightarrow> defaultBalance | Inr b \<Rightarrow> b)"

definition miner_addrs :: "address \<times> address \<times> address list \<Rightarrow> address list" where
  "miner_addrs info = (case info of (owner, worker, controls) \<Rightarrow> [owner, worker] @ controls)"

definition selectInner :: "lo_lib \<Rightarrow> select_api \<Rightarrow> u64 \<Rightarrow> address list \<Rightarrow> (id_mapping, address) step" where
  "selectInner lo api mid senders m = (case resolve_senders api senders m of
     (Inl e, m1) \<Rightarrow> (Inl e, m1)
   | (Inr senders1, m1) \<Rightarrow> (case sl_NewIDAddress api mid of
       Inl e \<Rightarrow> (Inl e, m1)
     | Inr maddr \<Rightarrow> (case sl_StateMinerInfo api maddr of
         Inl e \<Rightarrow> (Inl (Wrap ''get miner info'' e), m1)
       | Inr info \<Rightarrow> (let validAddrs = lo_Intersect lo senders1 (miner_addrs info) in
           if length validAddrs = 0 then (Inl (Errorf ''no valid sender found''), m1)
           else (case sl_Sort api (\<lambda>a. getBalance api a 0) validAddrs of
               [] \<Rightarrow> (Inl (Panic ''index out of range''), m1)
             | a # _ \<Rightarrow> (Inr a, m1))))))"

text \<open>\<open>binary.LittleEndian.PutUint64\<close> and \<open>base64.StdEncoding\<close>.\<close>

definition le_bytes :: "u64 \<Rightarrow> bytes" where
  "le_bytes w = map (\<lambda>i. ucast (drop_bit (8 * i) w)) [0..<8]"

definition b64_alphabet :: string where
  "b64_alphabet = ''ABCDEFGHIJKLMNOPQRSTUVWXYZabcdefghijklmnopqrstuvwxyz0123456789+/''"

definition b64_char :: "nat \<Rightarrow> char" where
  "b64_char n = b64_alphabet ! (n mod 64)"

fun base64 :: "bytes \<Rightarrow> string" where
  "base64 (a # b # c # bs) = (let n = (unat a * 256 + unat b) * 256 + unat c in
     b64_char (n div 262144) # b64_char (n div 4096) # b64_char (n div 64) # b64_char n # base64 bs)"
| "base64 [a, b] = (let n = (unat a * 256 + unat b) * 4 in
     [b64_char (n div 4096), b64_char (n div 64), b64_char n, CHR ''=''])"
| "base64 [a] = (let n = unat a * 16 in [b64_char (n div 64), b64_char n, CHR ''='', CHR ''=''])"
| "base64 [] = []"

definition cacheKey :: "select_api \<Rightarrow> u64 \<Rightarrow> address list \<Rightarrow> string" where
  "cacheKey api mid senders = base64 (le_bytes (sl_Hash api (le_bytes mid @ concat (map (sl_Bytes api) senders))))"

text \<open>\<open>Select\<close>. The function given to \<open>singleflight\<close> tests the outer \<open>err\<close>, which is nil at that point, and
  caches the outer \<open>sender\<close>, which is the nil \<open>Get\<close> returned, not the address it has just chosen. The type
  assertion on a nil found in the cache panics.\<close>

definition Select :: "lo_lib \<Rightarrow> 'c cache_lib \<Rightarrow> select_api \<Rightarrow> u64 \<Rightarrow> address list \<Rightarrow> ('c \<times> id_mapping, address) step" where
  "Select lo cl api mid senders st = (case st of (c, m) \<Rightarrow>
     (let k = cacheKey api mid senders in
      case cache_Get cl c k of
        Some None \<Rightarrow> (Inl (Panic ''interface conversion: interface is nil, not address.Address''), c, m)
      | Some (Some a) \<Rightarrow> (Inr a, c, m)
      | None \<Rightarrow> (case selectInner lo api mid senders m of
          (r, m1) \<Rightarrow> (r, cache_Set cl k None c, m1))))"

section \<open>Laws of the libraries\<close>

definition lo_ok :: "lo_lib \<Rightarrow> bool" where
  "lo_ok lo = ((\<forall>xs ys. set (lo_Intersect lo xs ys) = set xs \<inter> set ys) \<and> (\<forall>xs ys. set (lo_Union lo xs ys) = set xs \<union> set ys) \<and>
     (\<forall>xs. set (lo_Uniq lo xs) = set xs))"

definition sort_ok :: "select_api \<Rightarrow> bool" where
  "sort_ok api = (\<forall>f xs. mset (sl_Sort api f xs) = mset xs \<and> sorted_wrt (\<lambda>a b. f b \<le> f a) (sl_Sort api f xs))"

text \<open>What is found in a cache was there before or has just been set; it may also have expired.\<close>

definition sender_cache_ok :: "'c cache_lib \<Rightarrow> bool" where
  "sender_cache_ok cl = (\<forall>c k v k' w. cache_Get cl (cache_Set cl k v c) k' = Some w \<longrightarrow>
     (k' = k \<and> w = v) \<or> cache_Get cl c k' = Some w)"

definition expired :: "'c cache_lib \<Rightarrow> 'c \<Rightarrow> 'c \<Rightarrow> bool" where
  "expired cl c c1 = (\<forall>k w. cache_Get cl c1 k = Some w \<longrightarrow> cache_Get cl c k = Some w)"

text \<open>A history of selections, with time passing between them.\<close>

inductive selections :: "lo_lib \<Rightarrow> 'c cache_lib \<Rightarrow> select_api \<Rightarrow> 'c \<times> id_mapping \<Rightarrow> bool" for lo cl api where
  sel_empty: "(\<forall>k. cache_Get cl c k = None) \<Longrightarrow> selections lo cl api (c, Map.empty)"
| sel_time: "selections lo cl api (c, m) \<Longrightarrow> expired cl c c1 \<Longrightarrow> selections lo cl api (c1, m)"
| sel_call: "selections lo cl api s \<Longrightarrow> Select lo cl api mid senders s = (r, s1) \<Longrightarrow> selections lo cl api s1"

section \<open>Lemmas\<close>

definition resolves :: "select_api \<Rightarrow> id_mapping \<Rightarrow> bool" where
  "resolves api m = (\<forall>a b. m a = Some b \<longrightarrow> sl_StateLookupID api a = Inr b)"

definition resolved :: "select_api \<Rightarrow> address \<Rightarrow> address \<Rightarrow> bool" where
  "resolved api a b = (if is_id a then b = a else sl_StateLookupID api a = Inr b)"

lemma lookup_resolves:
  assumes "resolves api m" "lookup_StateLookupID api a m = (r, m1)"
  shows "resolves api m1 \<and> (\<forall>b. r = Inr b \<longrightarrow> sl_StateLookupID api a = Inr b)"
  using assms by (auto simp: lookup_StateLookupID_def resolves_def split: option.splits sum.splits if_splits)

lemma resolve_senders_resolves:
  assumes "resolves api m" "resolve_senders api as m = (r, m1)"
  shows "resolves api m1 \<and> (\<forall>bs. r = Inr bs \<longrightarrow> list_all2 (resolved api) as bs)"
  using assms
proof (induction as arbitrary: m r)
  case (Cons a as)
  obtain q m2 where q: "(if is_id a then (Inr a, m) else lookup_StateLookupID api a m) = (q, m2)" by fastforce
  have one: "resolves api m2 \<and> (\<forall>b. q = Inr b \<longrightarrow> resolved api a b)"
    using q Cons.prems(1) lookup_resolves [of api m a q m2] by (auto simp: resolved_def split: if_splits)
  obtain rs m3 where rest: "resolve_senders api as m2 = (rs, m3)" by fastforce
  from Cons.IH [of m2 rs] one show ?case
    using Cons.prems(2) q rest by (auto split: sum.splits)
qed simp

lemma selectInner_resolves:
  "resolves api m \<Longrightarrow> selectInner lo api mid senders m = (r, m1) \<Longrightarrow> resolves api m1"
  using resolve_senders_resolves [of api m senders]
  by (fastforce simp: selectInner_def Let_def split: sum.splits prod.splits if_splits list.splits)

lemma selections_inv:
  assumes "selections lo cl api s" "sender_cache_ok cl"
  shows "(\<forall>k w. cache_Get cl (fst s) k = Some w \<longrightarrow> w = None) \<and> resolves api (snd s)"
  using assms(1)
proof induction
  case (sel_empty c)
  then show ?case by (simp add: resolves_def)
next
  case (sel_time c m c1)
  then show ?case by (auto simp: expired_def)
next
  case (sel_call s mid senders r s1)
  obtain c m where s: "s = (c, m)" by fastforce
  let ?k = "cacheKey api mid senders"
  show ?case
  proof (cases "cache_Get cl c ?k")
    case None
    obtain q m1 where q: "selectInner lo api mid senders m = (q, m1)" by fastforce
    with sel_call.hyps(2) None s have "s1 = (cache_Set cl ?k None c, m1)" by (simp add: Select_def)
    moreover have "w = None" if "cache_Get cl (cache_Set cl ?k None c) k = Some w" for k w
      using assms(2) that sel_call.IH s unfolding sender_cache_ok_def by fastforce
    moreover have "resolves api m1" using selectInner_resolves [OF _ q] sel_call.IH s by simp
    ultimately show ?thesis by simp
  next
    case (Some w)
    with sel_call s show ?thesis by (auto simp: Select_def split: option.splits)
  qed
qed

lemma selectInner_richest:
  assumes "lo_ok lo" "sort_ok api" "resolves api m" "selectInner lo api mid senders m = (Inr a, m1)"
  shows "\<exists>bs maddr info. list_all2 (resolved api) senders bs \<and> sl_NewIDAddress api mid = Inr maddr \<and>
    sl_StateMinerInfo api maddr = Inr info \<and> a \<in> set bs \<inter> set (miner_addrs info) \<and>
    (\<forall>b \<in> set bs \<inter> set (miner_addrs info). getBalance api b 0 \<le> getBalance api a 0)"
proof -
  obtain bs m2 maddr info rest where h: "resolve_senders api senders m = (Inr bs, m2)" "sl_NewIDAddress api mid = Inr maddr"
      "sl_StateMinerInfo api maddr = Inr info" "sl_Sort api (\<lambda>a. getBalance api a 0) (lo_Intersect lo bs (miner_addrs info)) = a # rest"
    using assms(4) by (auto simp: selectInner_def Let_def split: sum.splits prod.splits if_splits list.splits)
  have m: "mset (a # rest) = mset (lo_Intersect lo bs (miner_addrs info))" and srt: "sorted_wrt (\<lambda>a b. getBalance api b 0 \<le> getBalance api a 0) (a # rest)"
    using assms(2) h(4) unfolding sort_ok_def by metis+
  from mset_eq_setD [OF m] have "set (a # rest) = set bs \<inter> set (miner_addrs info)" using assms(1) by (simp add: lo_ok_def)
  with srt have "a \<in> set bs \<inter> set (miner_addrs info)" "\<forall>b \<in> set bs \<inter> set (miner_addrs info). getBalance api b 0 \<le> getBalance api a 0"
    by auto
  with h resolve_senders_resolves [OF assms(3) h(1)] show ?thesis by blast
qed

section \<open>Properties\<close>

text \<open>Whatever was selected before, a sender \<open>Select\<close> answers with is one of the configured senders, as the chain resolves them,
  is the owner, the worker or a control address of the miner, and no other such sender has a larger balance.\<close>

theorem sender_is_valid_and_richest:
  assumes "lo_ok lo" "sort_ok api" "sender_cache_ok cl" "selections lo cl api s" "Select lo cl api mid senders s = (Inr a, s1)"
  shows "\<exists>bs maddr info. list_all2 (resolved api) senders bs \<and> sl_NewIDAddress api mid = Inr maddr \<and>
    sl_StateMinerInfo api maddr = Inr info \<and> a \<in> set bs \<inter> set (miner_addrs info) \<and>
    (\<forall>b \<in> set bs \<inter> set (miner_addrs info). getBalance api b 0 \<le> getBalance api a 0)"
proof -
  obtain c m where s: "s = (c, m)" by fastforce
  from selections_inv [OF assms(4,3)] s have inv: "\<forall>k w. cache_Get cl c k = Some w \<longrightarrow> w = None" "resolves api m" by simp_all
  have "cache_Get cl c (cacheKey api mid senders) = None"
    using assms(5) s inv(1) by (fastforce simp: Select_def Let_def split: option.splits)
  then obtain m1 where "selectInner lo api mid senders m = (Inr a, m1)"
    using assms(5) s by (auto simp: Select_def split: prod.splits)
  from selectInner_richest [OF assms(1,2) inv(2) this] show ?thesis .
qed

text \<open>The cache of \<open>Select\<close> never holds a sender: after any history every entry that is still alive is nil, and a
  selection that finds one panics.\<close>

theorem cached_sender_is_nil:
  assumes "sender_cache_ok cl" "selections lo cl api (c, m)" "cache_Get cl c (cacheKey api mid senders) = Some w"
  shows "w = None \<and> (\<exists>e. Select lo cl api mid senders (c, m) = (Inl (Panic e), c, m))"
proof -
  from selections_inv [OF assms(2,1)] assms(3) have "w = None" by simp
  with assms(3) show ?thesis by (simp add: Select_def)
qed

section \<open>Instances\<close>

definition demo_lo :: lo_lib where
  "demo_lo = \<lparr>lo_Union = (\<lambda>xs ys. remdups (xs @ ys)), lo_Uniq = remdups, lo_Intersect = (\<lambda>xs ys. filter (\<lambda>y. y \<in> set xs) ys)\<rparr>"

definition demo_cache :: "(string \<times> address option) list cache_lib" where
  "demo_cache = \<lparr>cache_Get = map_of, cache_Set = (\<lambda>k v c. (k, v) # c)\<rparr>"

definition demo_select :: select_api where
  "demo_select = \<lparr>sl_StateLookupID = (\<lambda>a. if a = OtherAddress ''f3abc'' then Inr (IDAddress 20) else Inl (Ext ''not found'')),
     sl_NewIDAddress = (\<lambda>i. Inr (IDAddress i)), sl_StateMinerInfo = (\<lambda>_. Inr (IDAddress 10, IDAddress 20, [IDAddress 30])),
     sl_StateGetActor = (\<lambda>a. if a = IDAddress 20 then Inr 5 else if a = IDAddress 30 then Inr 9 else Inl (Ext ''no actor'')),
     sl_Bytes = (\<lambda>_. [1]), sl_Hash = (\<lambda>bs. of_nat (length bs)), sl_Sort = (\<lambda>f xs. rev (sort_key f xs))\<rparr>"

lemmas demo_select_defs = demo_lo_def demo_cache_def demo_select_def

lemma demo_lo_ok: "lo_ok demo_lo"
  by (auto simp: lo_ok_def demo_lo_def)

lemma demo_sender_cache_ok: "sender_cache_ok demo_cache"
  by (simp add: sender_cache_ok_def demo_cache_def)

lemma demo_sort_ok: "sort_ok demo_select"
  unfolding sort_ok_def
proof (intro allI conjI)
  fix f :: "address \<Rightarrow> int" and xs
  have "sorted_wrt (\<lambda>a b. f a \<le> f b) (sort_key f xs)" using sorted_sort_key [of f xs] by (simp add: sorted_map)
  then show "sorted_wrt (\<lambda>a b. f b \<le> f a) (sl_Sort demo_select f xs)" by (simp add: demo_select_def sorted_wrt_rev)
qed (simp add: demo_select_def)

lemma demo_selections: "selections demo_lo demo_cache demo_select ([], Map.empty)"
  by (rule sel_empty) (simp add: demo_cache_def)

definition demo_senders :: "address list" where
  "demo_senders = [OtherAddress ''f3abc'', IDAddress 30, IDAddress 40]"

definition demo_selected :: "(string \<times> address option) list \<times> id_mapping" where
  "demo_selected = ([(cacheKey demo_select 1000 demo_senders, None)], [OtherAddress ''f3abc'' \<mapsto> IDAddress 20])"

lemma demo_Select: "Select demo_lo demo_cache demo_select 1000 demo_senders ([], Map.empty) = (Inr (IDAddress 30), demo_selected)"
  by (simp add: Select_def selectInner_def lookup_StateLookupID_def is_id_def miner_addrs_def getBalance_def Let_def demo_senders_def demo_selected_def
      demo_select_defs)

theorem sender_is_valid_and_richest_witness:
  "\<exists>bs maddr info. list_all2 (resolved demo_select) demo_senders bs \<and> sl_NewIDAddress demo_select 1000 = Inr maddr \<and>
    sl_StateMinerInfo demo_select maddr = Inr info \<and> IDAddress 30 \<in> set bs \<inter> set (miner_addrs info) \<and>
    (\<forall>b \<in> set bs \<inter> set (miner_addrs info). getBalance demo_select b 0 \<le> getBalance demo_select (IDAddress 30) 0)"
  by (rule sender_is_valid_and_richest [OF demo_lo_ok demo_sort_ok demo_sender_cache_ok demo_selections demo_Select])

theorem cached_sender_is_nil_witness:
  "\<exists>e. fst (Select demo_lo demo_cache demo_select 1000 demo_senders demo_selected) = Inl (Panic e)"
proof -
  from sel_call [OF demo_selections demo_Select] have sel: "selections demo_lo demo_cache demo_select demo_selected" .
  obtain c m where s: "demo_selected = (c, m)" by fastforce
  have "cache_Get demo_cache c (cacheKey demo_select 1000 demo_senders) = Some None"
    using s by (auto simp: demo_selected_def demo_cache_def)
  from cached_sender_is_nil [OF demo_sender_cache_ok sel [unfolded s] this] s show ?thesis by auto
qed

end
