(* ===== verification/Store_Reservation.thy ===== *)
theory Store_Reservation
  imports Document_Store
begin

text \<open>
  The object store manager (\<open>pkg/objstore/mgr.go\<close>): the selection of a store for a sector's files and
  the reservations of space, kept as one JSON document per manager. The stores are drivers of plugins:
  a store is its name and its answer to \<open>InstanceInfo\<close>. The weighted random choice of the library
  \<open>weightedrand\<close> is the parameter \<open>chooser\<close>; the clock is \<open>now\<close>. Go maps decoded from the document are
  association lists in key order.
\<close>

section \<open>Data\<close>

definition FormatSectorID :: "sector_id \<Rightarrow> string" where
  "FormatSectorID sid = ''s-t0'' @ dec64 (sid_Miner sid) @ ''-'' @ dec64 (sid_Number sid)"

record store_config =
  oc_Name :: string
  oc_Path :: string
  oc_Meta :: "(string \<times> string) list"
  oc_Strict :: bool
  oc_ReadOnly :: bool
  oc_Weight :: u64

text \<open>\<open>UsedPercent\<close>, a floating-point number that is only displayed, is left out.\<close>

record instance_info =
  ii_Config :: store_config
  ii_Type :: string
  ii_Total :: u64
  ii_Free :: u64
  ii_Used :: u64

record store =
  st_Instance :: string
  st_InstanceInfo :: "instance_info res"

record store_reserved =
  rv_By :: string
  rv_Size :: u64
  rv_At :: int

record reserve_stat =
  rs_ReservedSize :: u64
  rs_Reserved :: "(string \<times> store_reserved) list"

type_synonym reserve_summary = "(string \<times> reserve_stat) list"

definition emptyStoreReserveStat :: reserve_stat where
  "emptyStoreReserveStat = \<lparr>rs_ReservedSize = 0, rs_Reserved = []\<rparr>"

record select_policy =
  sp_AllowMiners :: "u64 list"
  sp_DenyMiners :: "u64 list"

definition policy_Allowed :: "select_policy \<Rightarrow> u64 \<Rightarrow> bool" where
  "policy_Allowed p miner =
    (if miner \<in> set (sp_DenyMiners p) then False
     else if length (sp_AllowMiners p) > 0 then miner \<in> set (sp_AllowMiners p)
     else True)"

record store_manager =
  mg_stores :: "store list"
  mg_policy :: "string \<Rightarrow> select_policy option"

type_synonym reserve_db = "reserve_summary json kvs"

section \<open>Operations\<close>

definition storeReserveSummaryKey :: key where
  "storeReserveSummaryKey = ''StoreReserveSummary''"

text \<open>\<open>storeIdxes\<close> maps a name to the last store of that name.\<close>

definition GetInstance :: "store_manager \<Rightarrow> string \<Rightarrow> store res" where
  "GetInstance m nm = (case find (\<lambda>st. st_Instance st = nm) (rev (mg_stores m)) of
     None \<Rightarrow> Inl (Wrap nm ErrObjectStoreInstanceNotFound) | Some st \<Rightarrow> Inr st)"

definition modifyReserved :: "(reserve_summary \<Rightarrow> ('a \<times> reserve_summary option) res) \<Rightarrow> (reserve_db, 'a) step" where
  "modifyReserved = doc_cycle unmarshal ''view store reserve summary'' ''save modified store reserve summary''
     storeReserveSummaryKey []"

definition stat_of :: "reserve_summary \<Rightarrow> string \<Rightarrow> reserve_stat" where
  "stat_of d nm = (case map_of d nm of None \<Rightarrow> emptyStoreReserveStat | Some rs \<Rightarrow> rs)"

fun list_infos :: "store list \<Rightarrow> reserve_summary \<Rightarrow> (instance_info \<times> reserve_stat) list" where
  "list_infos [] d = []"
| "list_infos (st # sts) d = (case st_InstanceInfo st of
     Inl e \<Rightarrow> list_infos sts d
   | Inr info \<Rightarrow> (info, stat_of d (st_Instance st)) # list_infos sts d)"

definition ListInstances :: "store_manager \<Rightarrow> (reserve_db, (instance_info \<times> reserve_stat) list) step" where
  "ListInstances m kv = (case modifyReserved (\<lambda>d. Inr (list_infos (mg_stores m) d, None)) kv of
     (Inl e, kv1) \<Rightarrow> (Inl (Wrap ''get reserved info'' e), kv1)
   | (Inr infos, kv1) \<Rightarrow> (Inr infos, kv1))"

text \<open>The loop over the stores ends early with a store on which the sector has a reservation of the
  same size, or gives the stores to chooser from with their weights.\<close>

datatype scan = Already instance_info | Choices "(instance_info \<times> u64) list"

fun scan_stores :: "store_manager \<Rightarrow> u64 \<Rightarrow> string \<Rightarrow> u64 \<Rightarrow> string list \<Rightarrow> reserve_summary \<Rightarrow>
    store list \<Rightarrow> (instance_info \<times> u64) list \<Rightarrow> scan" where
  "scan_stores m miner owner want candidates d [] acc = Choices acc"
| "scan_stores m miner owner want candidates d (st # sts) acc =
    (let insName = st_Instance st;
         skip = scan_stores m miner owner want candidates d sts acc in
     if (case mg_policy m insName of None \<Rightarrow> False | Some p \<Rightarrow> \<not> policy_Allowed p miner) then skip
     else if candidates = [] \<or> insName \<in> set candidates then
       (case st_InstanceInfo st of
          Inl e \<Rightarrow> skip
        | Inr info \<Rightarrow>
            (let resStat = map_of d insName;
                 resSize = (case resStat of None \<Rightarrow> 0 | Some rs \<Rightarrow> rs_ReservedSize rs) in
             if (case resStat of None \<Rightarrow> False | Some rs \<Rightarrow>
                  (case map_of (rs_Reserved rs) owner of None \<Rightarrow> False | Some rv \<Rightarrow> rv_Size rv = want))
             then Already info
             else if oc_ReadOnly (ii_Config info) \<or> ii_Free info < resSize + want then skip
             else scan_stores m miner owner want candidates d sts
               (acc @ [(info, if oc_Weight (ii_Config info) = 0 then 1 else oc_Weight (ii_Config info))])))
     else skip)"

definition add_reserved :: "int \<Rightarrow> string \<Rightarrow> u64 \<Rightarrow> string \<Rightarrow> reserve_summary \<Rightarrow> reserve_summary" where
  "add_reserved now owner want nm d = (let rs = stat_of d nm in
     put_entry nm (rs\<lparr>rs_Reserved := put_entry owner \<lparr>rv_By = owner, rv_Size = want, rv_At = now\<rparr> (rs_Reserved rs),
       rs_ReservedSize := rs_ReservedSize rs + want\<rparr>) d)"

definition reserve_modifier :: "((instance_info \<times> u64) list \<Rightarrow> instance_info res) \<Rightarrow> store_manager \<Rightarrow> int \<Rightarrow>
    sector_id \<Rightarrow> u64 \<Rightarrow> string list \<Rightarrow> reserve_summary \<Rightarrow> (store_config option \<times> reserve_summary option) res" where
  "reserve_modifier chooser m now sid want candidates d = (let owner = FormatSectorID sid in
     case scan_stores m (sid_Miner sid) owner want candidates d (mg_stores m) [] of
       Already info \<Rightarrow> Inr (Some (ii_Config info), None)
     | Choices [] \<Rightarrow> Inr (None, None)
     | Choices cs \<Rightarrow> (case chooser cs of
         Inl e \<Rightarrow> Inr (None, None)
       | Inr chosen \<Rightarrow> Inr (Some (ii_Config chosen),
           Some (add_reserved now owner want (oc_Name (ii_Config chosen)) d))))"

definition ReserveSpace :: "((instance_info \<times> u64) list \<Rightarrow> instance_info res) \<Rightarrow> store_manager \<Rightarrow> int \<Rightarrow>
    sector_id \<Rightarrow> u64 \<Rightarrow> string list \<Rightarrow> (reserve_db, store_config option) step" where
  "ReserveSpace chooser m now sid want candidates kv =
    (case modifyReserved (reserve_modifier chooser m now sid want candidates) kv of
       (Inl e, kv1) \<Rightarrow> (Inl (Wrap ''attempt to select a store'' e), kv1)
     | (Inr selected, kv1) \<Rightarrow> (Inr selected, kv1))"

definition release_stat :: "string \<Rightarrow> reserve_stat \<Rightarrow> reserve_stat" where
  "release_stat owner rs = (case map_of (rs_Reserved rs) owner of
     None \<Rightarrow> rs
   | Some rv \<Rightarrow> rs\<lparr>rs_ReservedSize := (if rs_ReservedSize rs > rv_Size rv then rs_ReservedSize rs - rv_Size rv else 0),
       rs_Reserved := del_entry owner (rs_Reserved rs)\<rparr>)"

definition ReleaseReserved :: "sector_id \<Rightarrow> (reserve_db, bool) step" where
  "ReleaseReserved sid kv = (let owner = FormatSectorID sid in
    case modifyReserved (\<lambda>d. let hit = list_ex (\<lambda>p. map_of (rs_Reserved (snd p)) owner \<noteq> None) d in
        Inr (hit, if hit then Some (map (\<lambda>p. (fst p, release_stat owner (snd p))) d) else None)) kv of
      (Inl e, kv1) \<Rightarrow> (Inl (Wrap ''release reserved'' e), kv1)
    | (Inr released, kv1) \<Rightarrow> (Inr released, kv1))"

section \<open>Accounting\<close>

text \<open>The sum of the recorded reservations of a store; a document is in order when the counter of every
  store is that sum, is at most the bound \<open>B\<close>, and every reservation of a sector has the size the
  sector asks for.\<close>

definition reserved_sum :: "reserve_stat \<Rightarrow> nat" where
  "reserved_sum rs = sum_list (map (\<lambda>p. unat (rv_Size (snd p))) (rs_Reserved rs))"

definition stat_ok :: "(string \<Rightarrow> u64) \<Rightarrow> nat \<Rightarrow> reserve_stat \<Rightarrow> bool" where
  "stat_ok sz B rs = (ordered_entries (rs_Reserved rs) \<and> unat (rs_ReservedSize rs) = reserved_sum rs \<and>
     reserved_sum rs \<le> B \<and> (\<forall>p \<in> set (rs_Reserved rs). rv_Size (snd p) = sz (fst p)))"

definition summary_ok :: "(string \<Rightarrow> u64) \<Rightarrow> nat \<Rightarrow> reserve_summary \<Rightarrow> bool" where
  "summary_ok sz B d = (ordered_entries d \<and> (\<forall>p \<in> set d. stat_ok sz B (snd p)))"

definition reservations :: "reserve_db \<Rightarrow> reserve_summary" where
  "reservations = document storeReserveSummaryKey []"

interpretation rdb: document_owner modifyReserved reservations
  unfolding modifyReserved_def reservations_def by (rule plain_doc.document_owner_axioms)

lemma sum_insort: "sum_list (map f (insort_key k x xs)) = f x + sum_list (map f xs)" for f :: "'a \<Rightarrow> nat"
  by (induction xs) auto

lemma sum_del: "distinct (map fst ps) \<Longrightarrow> map_of ps k = Some v \<Longrightarrow>
    sum_list (map f ps) = f (k, v) + sum_list (map f (del_entry k ps))" for f :: "'a \<times> 'b \<Rightarrow> nat"
proof (induction ps)
  case (Cons p ps)
  show ?case
  proof (cases "fst p = k")
    case True
    with Cons.prems have "filter (\<lambda>p. fst p \<noteq> k) ps = ps" by (auto intro!: filter_True intro: rev_image_eqI)
    with True Cons.prems show ?thesis by (cases p) (simp add: del_entry_def)
  next
    case False
    with Cons show ?thesis by (cases p) (auto simp: del_entry_def)
  qed
qed simp

lemma sum_put_new: "map_of ps k = None \<Longrightarrow>
    sum_list (map f (put_entry k v ps)) = f (k, v) + sum_list (map f ps)" for f :: "'a::linorder \<times> 'b \<Rightarrow> nat"
proof -
  assume "map_of ps k = None"
  then have "filter (\<lambda>p. fst p \<noteq> k) ps = ps" by (force simp: map_of_eq_None_iff intro!: filter_True)
  then show ?thesis by (simp add: put_entry_def sum_insort)
qed

lemma stat_ok_empty [simp]: "stat_ok sz B emptyStoreReserveStat"
  by (simp add: stat_ok_def emptyStoreReserveStat_def reserved_sum_def)

lemma summary_ok_stat: "summary_ok sz B d \<Longrightarrow> stat_ok sz B (stat_of d nm)"
  by (auto simp: summary_ok_def stat_of_def split: option.splits dest!: map_of_SomeD)

lemma summary_ok_put: "summary_ok sz B d \<Longrightarrow> stat_ok sz B rs \<Longrightarrow> summary_ok sz B (put_entry nm rs d)"
  by (auto simp: summary_ok_def set_put_entry)

lemma stat_ok_sizeD: "stat_ok sz B rs \<Longrightarrow> map_of (rs_Reserved rs) k = Some rv \<Longrightarrow> rv_Size rv = sz k"
  by (auto simp: stat_ok_def dest!: map_of_SomeD)

lemma stat_ok_add:
  assumes "stat_ok sz B rs" "map_of (rs_Reserved rs) k = None" "unat (rs_ReservedSize rs) + unat (sz k) \<le> B"
    "B < 2 ^ 64"
  shows "stat_ok sz B (rs\<lparr>rs_Reserved := put_entry k \<lparr>rv_By = k, rv_Size = sz k, rv_At = now\<rparr> (rs_Reserved rs),
    rs_ReservedSize := rs_ReservedSize rs + sz k\<rparr>)"
proof -
  have "unat (rs_ReservedSize rs + sz k) = unat (rs_ReservedSize rs) + unat (sz k)"
    using assms(3,4) unat_add_lem [of "rs_ReservedSize rs" "sz k"] by simp
  with assms show ?thesis
    by (auto simp: stat_ok_def reserved_sum_def sum_put_new set_put_entry)
qed

lemma stat_ok_release:
  assumes "stat_ok sz B rs"
  shows "stat_ok sz B (release_stat k rs)" "map_of (rs_Reserved (release_stat k rs)) = (map_of (rs_Reserved rs))(k := None)"
    "map_of (rs_Reserved rs) k = Some rv \<Longrightarrow> reserved_sum rs = unat (rv_Size rv) + reserved_sum (release_stat k rs)"
proof -
  note S = assms [unfolded stat_ok_def ordered_entries_def reserved_sum_def]
  have del: "reserved_sum rs = unat (rv_Size rv) + sum_list (map (\<lambda>p. unat (rv_Size (snd p))) (del_entry k (rs_Reserved rs)))"
    if "map_of (rs_Reserved rs) k = Some rv" for rv
    using sum_del [of "rs_Reserved rs" k rv "\<lambda>p. unat (rv_Size (snd p))"] S that by (simp add: reserved_sum_def)
  have want: "unat (rs_ReservedSize (release_stat k rs)) = reserved_sum (release_stat k rs)"
    if rv: "map_of (rs_Reserved rs) k = Some rv" for rv
  proof -
    have "unat (rs_ReservedSize rs) = reserved_sum rs" using assms by (simp add: stat_ok_def)
    then have "unat (if rs_ReservedSize rs > rv_Size rv then rs_ReservedSize rs - rv_Size rv else 0) =
        reserved_sum rs - unat (rv_Size rv)"
      by (auto simp: word_less_nat_alt unat_sub word_le_nat_alt not_less)
    with del [OF rv] rv show ?thesis by (simp add: release_stat_def reserved_sum_def)
  qed
  show "map_of (rs_Reserved rs) k = Some rv \<Longrightarrow> reserved_sum rs = unat (rv_Size rv) + reserved_sum (release_stat k rs)"
    using del by (simp add: release_stat_def reserved_sum_def)
  then show "stat_ok sz B (release_stat k rs)"
  proof (cases "map_of (rs_Reserved rs) k")
    case None
    with assms show ?thesis by (simp add: release_stat_def)
  next
    case (Some rv)
    have "reserved_sum (release_stat k rs) \<le> B" using del [OF Some] assms Some
      by (simp add: release_stat_def reserved_sum_def stat_ok_def)
    with Some assms want [OF Some] show ?thesis by (auto simp: stat_ok_def release_stat_def set_del_entry)
  qed
  show "map_of (rs_Reserved (release_stat k rs)) = (map_of (rs_Reserved rs))(k := None)"
    by (auto simp: release_stat_def fun_upd_idem split: option.splits)
qed

section \<open>The choice of a store\<close>

definition permitted :: "store_manager \<Rightarrow> u64 \<Rightarrow> string list \<Rightarrow> string \<Rightarrow> bool" where
  "permitted m miner candidates nm = ((candidates = [] \<or> nm \<in> set candidates) \<and>
     (\<forall>p. mg_policy m nm = Some p \<longrightarrow> policy_Allowed p miner))"

definition holds :: "reserve_summary \<Rightarrow> string \<Rightarrow> string \<Rightarrow> u64 \<Rightarrow> bool" where
  "holds d nm owner want = (\<exists>rv. map_of (rs_Reserved (stat_of d nm)) owner = Some rv \<and> rv_Size rv = want)"

definition offered :: "store_manager \<Rightarrow> u64 \<Rightarrow> string \<Rightarrow> u64 \<Rightarrow> string list \<Rightarrow> reserve_summary \<Rightarrow> store \<Rightarrow> instance_info \<Rightarrow> bool" where
  "offered m miner owner want candidates d st info = (permitted m miner candidates (st_Instance st) \<and>
     st_InstanceInfo st = Inr info \<and> \<not> holds d (st_Instance st) owner want \<and> \<not> oc_ReadOnly (ii_Config info) \<and>
     rs_ReservedSize (stat_of d (st_Instance st)) + want \<le> ii_Free info)"

lemma stat_of_cases: "(case map_of d nm of None \<Rightarrow> 0 | Some rs \<Rightarrow> rs_ReservedSize rs) = rs_ReservedSize (stat_of d nm)"
  "(case map_of d nm of None \<Rightarrow> False | Some rs \<Rightarrow>
      (case map_of (rs_Reserved rs) owner of None \<Rightarrow> False | Some rv \<Rightarrow> rv_Size rv = want)) = holds d nm owner want"
  by (auto simp: stat_of_def emptyStoreReserveStat_def holds_def split: option.splits)

lemma scan_stores_step:
  "scan_stores m miner owner want candidates d (st # sts) acc =
    (if \<not> permitted m miner candidates (st_Instance st) then scan_stores m miner owner want candidates d sts acc
     else case st_InstanceInfo st of
       Inl e \<Rightarrow> scan_stores m miner owner want candidates d sts acc
     | Inr info \<Rightarrow> if holds d (st_Instance st) owner want then Already info
         else if \<not> offered m miner owner want candidates d st info then scan_stores m miner owner want candidates d sts acc
         else scan_stores m miner owner want candidates d sts
           (acc @ [(info, if oc_Weight (ii_Config info) = 0 then 1 else oc_Weight (ii_Config info))]))"
  by (auto simp: Let_def stat_of_cases permitted_def offered_def not_less split: sum.splits option.splits)

lemma scan_AlreadyD:
  "scan_stores m miner owner want candidates d sts acc = Already info \<Longrightarrow>
   \<exists>st \<in> set sts. st_InstanceInfo st = Inr info \<and> permitted m miner candidates (st_Instance st) \<and>
     holds d (st_Instance st) owner want"
  by (induction sts arbitrary: acc)
    (auto simp: scan_stores_step simp del: scan_stores.simps(2) split: if_splits sum.splits)

lemma scan_ChoicesD:
  "scan_stores m miner owner want candidates d sts acc = Choices cs \<Longrightarrow> (info, wt) \<in> set cs \<Longrightarrow>
   (info, wt) \<in> set acc \<or> (\<exists>st \<in> set sts. offered m miner owner want candidates d st info)"
proof (induction sts arbitrary: acc)
  case (Cons st sts)
  then show ?case
    by (auto simp: scan_stores_step simp del: scan_stores.simps(2) split: if_splits sum.splits) (fastforce dest: Cons.IH)+
qed simp

definition chooser_ok :: "((instance_info \<times> u64) list \<Rightarrow> instance_info res) \<Rightarrow> bool" where
  "chooser_ok chooser = (\<forall>cs c. chooser cs = Inr c \<longrightarrow> c \<in> fst ` set cs)"

lemma reserve_modifierD:
  assumes "reserve_modifier chooser m now sid want candidates d = r" "chooser_ok chooser"
  shows "(r = Inr (None, None)) \<or>
    (\<exists>info. r = Inr (Some (ii_Config info), None) \<and> (\<exists>st \<in> set (mg_stores m). st_InstanceInfo st = Inr info \<and>
       permitted m (sid_Miner sid) candidates (st_Instance st) \<and> holds d (st_Instance st) (FormatSectorID sid) want)) \<or>
    (\<exists>info st. st \<in> set (mg_stores m) \<and> offered m (sid_Miner sid) (FormatSectorID sid) want candidates d st info \<and>
       r = Inr (Some (ii_Config info), Some (add_reserved now (FormatSectorID sid) want (oc_Name (ii_Config info)) d)))"
proof (cases "scan_stores m (sid_Miner sid) (FormatSectorID sid) want candidates d (mg_stores m) []")
  case (Already info)
  with assms scan_AlreadyD [OF Already] show ?thesis by (auto simp: reserve_modifier_def Let_def)
next
  case (Choices cs)
  show ?thesis
  proof (cases "chooser cs")
    case (Inr c)
    then have "c \<in> fst ` set cs" using assms(2) unfolding chooser_ok_def by blast
    then obtain wt where "(c, wt) \<in> set cs" by auto
    from scan_ChoicesD [OF Choices this] Choices Inr assms(1) show ?thesis
      by (cases cs) (auto simp: reserve_modifier_def Let_def)
  qed (use assms(1) Choices in \<open>cases cs; auto simp: reserve_modifier_def Let_def\<close>)
qed

definition named_stores :: "store_manager \<Rightarrow> nat \<Rightarrow> bool" where
  "named_stores m B = (\<forall>st \<in> set (mg_stores m). \<forall>info. st_InstanceInfo st = Inr info \<longrightarrow>
     oc_Name (ii_Config info) = st_Instance st \<and> unat (ii_Free info) \<le> B)"

lemma FormatSectorID_inject: "FormatSectorID a = FormatSectorID b \<longleftrightarrow> a = b"
proof
  assume "FormatSectorID a = FormatSectorID b"
  then have "dec64 (sid_Miner a) @ CHR ''-'' # dec64 (sid_Number a) = dec64 (sid_Miner b) @ CHR ''-'' # dec64 (sid_Number b)"
    by (simp add: FormatSectorID_def)
  from separator_inject [OF dec64_no_dash dec64_no_dash this] show "a = b" by simp
qed simp

lemma stat_of_put [simp]: "stat_of (put_entry nm rs d) nm' = (if nm' = nm then rs else stat_of d nm')"
  by (simp add: stat_of_def)

lemma no_wrap: "a + b \<le> f \<Longrightarrow> unat a + unat b < 2 ^ 64 \<Longrightarrow> unat a + unat b \<le> unat f" for a b f :: u64
  using unat_add_lem [of a b] by (simp add: word_le_nat_alt)

lemma offered_room:
  assumes "offered m miner owner want candidates d st info" "summary_ok sz B d" "B + unat want < 2 ^ 64"
  shows "unat (rs_ReservedSize (stat_of d (st_Instance st))) + unat want \<le> unat (ii_Free info)"
proof (rule no_wrap)
  show "rs_ReservedSize (stat_of d (st_Instance st)) + want \<le> ii_Free info"
    using assms(1) by (simp add: offered_def)
  show "unat (rs_ReservedSize (stat_of d (st_Instance st))) + unat want < 2 ^ 64"
    using summary_ok_stat [OF assms(2), of "st_Instance st"] assms(3) by (simp add: stat_ok_def)
qed

lemma add_reserved_ok:
  assumes "offered m miner owner (sz owner) candidates d st info" "summary_ok sz B d" "B + unat (sz owner) < 2 ^ 64"
    "unat (ii_Free info) \<le> B"
  shows "summary_ok sz B (add_reserved now owner (sz owner) (st_Instance st) d)"
proof -
  note S = summary_ok_stat [OF assms(2), of "st_Instance st"]
  have "map_of (rs_Reserved (stat_of d (st_Instance st))) owner = None"
    using assms(1) stat_ok_sizeD [OF S, of owner] by (cases "map_of (rs_Reserved (stat_of d (st_Instance st))) owner")
      (auto simp: offered_def holds_def)
  moreover have "unat (rs_ReservedSize (stat_of d (st_Instance st))) + unat (sz owner) \<le> B"
    using offered_room [OF assms(1-3)] assms(4) by simp
  ultimately show ?thesis using assms(3) unfolding add_reserved_def Let_def
    by (intro summary_ok_put [OF assms(2)] stat_ok_add [OF S]) auto
qed

lemma stat_of_add_reserved:
  "rs_ReservedSize (stat_of (add_reserved now owner want nm d) nm') =
     (if nm' = nm then rs_ReservedSize (stat_of d nm) + want else rs_ReservedSize (stat_of d nm'))"
  "rs_Reserved (stat_of (add_reserved now owner want nm d) nm') =
     (if nm' = nm then put_entry owner \<lparr>rv_By = owner, rv_Size = want, rv_At = now\<rparr> (rs_Reserved (stat_of d nm))
      else rs_Reserved (stat_of d nm'))"
  by (simp_all add: add_reserved_def Let_def)

lemma new_reservation:
  assumes "offered m miner owner (sz owner) candidates d st info" "summary_ok sz B d" "B + unat (sz owner) < 2 ^ 64"
    "unat (ii_Free info) \<le> B" "d1 = add_reserved now owner (sz owner) (st_Instance st) d"
  shows "summary_ok sz B d1 \<and> reserved_sum (stat_of d1 (st_Instance st)) \<le> unat (ii_Free info) \<and>
    holds d1 (st_Instance st) owner (sz owner)"
proof -
  have ok: "summary_ok sz B d1" unfolding assms(5) by (rule add_reserved_ok [OF assms(1-4)])
  have "reserved_sum (stat_of d1 (st_Instance st)) = unat (rs_ReservedSize (stat_of d1 (st_Instance st)))"
    using summary_ok_stat [OF ok, of "st_Instance st"] by (simp add: stat_ok_def)
  also have "\<dots> \<le> unat (ii_Free info)"
    using assms(1) by (simp add: offered_def word_le_nat_alt assms(5) stat_of_add_reserved)
  finally show ?thesis using ok by (simp add: holds_def assms(5) stat_of_add_reserved)
qed

lemma ReserveSpaceD:
  assumes "ReserveSpace chooser m now sid want candidates kv = (r, kv1)" "chooser_ok chooser"
  shows "((\<exists>e. r = Inl e) \<or> r = Inr None) \<and> reservations kv1 = reservations kv \<or>
    (\<exists>info st. r = Inr (Some (ii_Config info)) \<and> st \<in> set (mg_stores m) \<and> st_InstanceInfo st = Inr info \<and>
       permitted m (sid_Miner sid) candidates (st_Instance st) \<and>
       (holds (reservations kv) (st_Instance st) (FormatSectorID sid) want \<and> reservations kv1 = reservations kv \<or>
        offered m (sid_Miner sid) (FormatSectorID sid) want candidates (reservations kv) st info \<and>
        reservations kv1 = add_reserved now (FormatSectorID sid) want (oc_Name (ii_Config info)) (reservations kv)))"
proof -
  obtain r0 where run: "modifyReserved (reserve_modifier chooser m now sid want candidates) kv = (r0, kv1)"
    and r: "r = (case r0 of Inl e \<Rightarrow> Inl (Wrap ''attempt to select a store'' e) | Inr x \<Rightarrow> Inr x)"
    using assms(1) by (auto simp: ReserveSpace_def split: prod.splits sum.splits)
  show ?thesis
  proof (cases r0)
    case (Inl e)
    with rdb.cycle_error [of _ kv e kv1] run r show ?thesis by auto
  next
    case (Inr sel)
    from rdb.cycle_result [of _ kv sel kv1] run Inr obtain w where
      w: "reserve_modifier chooser m now sid want candidates (reservations kv) = Inr (sel, w)"
        "reservations kv1 = (case w of None \<Rightarrow> reservations kv | Some d \<Rightarrow> d)" by blast
    from reserve_modifierD [OF w(1) assms(2)] show ?thesis
    proof (elim disjE exE conjE bexE)
      assume "Inr (sel, w) = Inr (None, None)"
      with r Inr w(2) show ?thesis by simp
    next
      fix info st
      assume "Inr (sel, w) = Inr (Some (ii_Config info), None)" "st \<in> set (mg_stores m)" "st_InstanceInfo st = Inr info"
        "permitted m (sid_Miner sid) candidates (st_Instance st)" "holds (reservations kv) (st_Instance st) (FormatSectorID sid) want"
      with r Inr w(2) show ?thesis by (intro disjI2 exI [of _ info] exI [of _ st]) simp
    next
      fix info st
      assume "st \<in> set (mg_stores m)" "offered m (sid_Miner sid) (FormatSectorID sid) want candidates (reservations kv) st info"
        "Inr (sel, w) = Inr (Some (ii_Config info), Some (add_reserved now (FormatSectorID sid) want (oc_Name (ii_Config info)) (reservations kv)))"
      with r Inr w(2) show ?thesis by (intro disjI2 exI [of _ info] exI [of _ st]) (simp add: offered_def)
    qed
  qed
qed

lemma same_sum:
  assumes "stat_ok sz B a" "stat_ok sz' B' b" "map_of (rs_Reserved a) = map_of (rs_Reserved b)"
  shows "rs_ReservedSize a = rs_ReservedSize b"
proof -
  have d: "distinct (map fst (rs_Reserved a))" "distinct (map fst (rs_Reserved b))"
    using assms(1,2) by (auto simp: stat_ok_def ordered_entries_def)
  have "set (rs_Reserved a) = set (rs_Reserved b)" using map_of_inject_set [OF d] assms(3) by simp
  moreover have "distinct (rs_Reserved a)" "distinct (rs_Reserved b)" using d by (auto simp: distinct_map)
  ultimately have "reserved_sum a = reserved_sum b"
    unfolding reserved_sum_def by (simp add: sum_list_distinct_conv_sum_set)
  then have "unat (rs_ReservedSize a) = unat (rs_ReservedSize b)" using assms(1,2) by (simp add: stat_ok_def)
  then show ?thesis by (simp add: word_unat_eq_iff)
qed

definition release_all :: "string \<Rightarrow> reserve_summary \<Rightarrow> reserve_summary" where
  "release_all owner d = map (\<lambda>p. (fst p, release_stat owner (snd p))) d"

lemma map_of_snd: "map_of (map (\<lambda>p. (fst p, f (snd p))) d) k = map_option f (map_of d k)"
  by (induction d) auto

lemma stat_of_release: "stat_of (release_all owner d) nm = release_stat owner (stat_of d nm)"
  by (cases "map_of d nm") (simp_all add: stat_of_def release_all_def map_of_snd release_stat_def [of _ emptyStoreReserveStat]
      emptyStoreReserveStat_def [THEN arg_cong, of rs_Reserved])

lemma release_all_ok: "summary_ok sz B d \<Longrightarrow> summary_ok sz B (release_all owner d)"
  by (auto simp: summary_ok_def release_all_def ordered_entries_def o_def stat_ok_release)

lemma release_idle: "map_of (rs_Reserved (stat_of d nm)) owner = None \<Longrightarrow> release_stat owner (stat_of d nm) = stat_of d nm"
  by (simp add: release_stat_def)

lemma reserved_nowhere:
  "ordered_entries d \<Longrightarrow> list_ex (\<lambda>p. map_of (rs_Reserved (snd p)) owner \<noteq> None) d \<longleftrightarrow>
   (\<exists>nm. map_of (rs_Reserved (stat_of d nm)) owner \<noteq> None)"
  unfolding list_ex_iff
proof (intro iffI)
  assume "ordered_entries d" "\<exists>p \<in> set d. map_of (rs_Reserved (snd p)) owner \<noteq> None"
  then obtain nm rs where "map_of d nm = Some rs" "map_of (rs_Reserved rs) owner \<noteq> None"
    by (force simp: ordered_entries_def)
  then have "map_of (rs_Reserved (stat_of d nm)) owner \<noteq> None" by (simp add: stat_of_def)
  then show "\<exists>nm. map_of (rs_Reserved (stat_of d nm)) owner \<noteq> None" by blast
next
  assume "\<exists>nm. map_of (rs_Reserved (stat_of d nm)) owner \<noteq> None"
  then obtain nm where nm: "map_of (rs_Reserved (stat_of d nm)) owner \<noteq> None" by blast
  then obtain rs where "map_of d nm = Some rs"
    by (cases "map_of d nm") (auto simp: stat_of_def emptyStoreReserveStat_def)
  with nm show "\<exists>p \<in> set d. map_of (rs_Reserved (snd p)) owner \<noteq> None"
    by (intro bexI [of _ "(nm, rs)"]) (auto simp: stat_of_def dest: map_of_SomeD)
qed

lemma ReleaseReservedD:
  assumes "ReleaseReserved sid kv = (Inr released, kv1)" "ordered_entries (reservations kv)"
  shows "(released \<longleftrightarrow> (\<exists>nm. map_of (rs_Reserved (stat_of (reservations kv) nm)) (FormatSectorID sid) \<noteq> None)) \<and>
    (reservations kv1 = reservations kv \<or> reservations kv1 = release_all (FormatSectorID sid) (reservations kv)) \<and>
    (\<forall>nm. stat_of (reservations kv1) nm = release_stat (FormatSectorID sid) (stat_of (reservations kv) nm))"
proof -
  let ?d = "reservations kv" and ?by = "FormatSectorID sid"
  let ?hit = "list_ex (\<lambda>p. map_of (rs_Reserved (snd p)) ?by \<noteq> None) ?d"
  let ?f = "\<lambda>d. let hit = list_ex (\<lambda>p. map_of (rs_Reserved (snd p)) ?by \<noteq> None) d in
        Inr (hit, if hit then Some (map (\<lambda>p. (fst p, release_stat ?by (snd p))) d) else None)"
  have "modifyReserved ?f kv = (Inr released, kv1)"
    using assms(1) by (auto simp: ReleaseReserved_def Let_def split: prod.splits sum.splits)
  from rdb.cycle_result [OF this] have "released = ?hit" "reservations kv1 = (if ?hit then release_all ?by ?d else ?d)"
    by (auto simp: Let_def release_all_def split: if_splits)
  then show ?thesis
    unfolding reserved_nowhere [OF assms(2)] using release_idle by (auto simp: stat_of_release)
qed

lemma filter_insort_key_other: "\<not> P x \<Longrightarrow> filter P (insort_key f x xs) = filter P xs"
  by (induction xs) auto

section \<open>Properties\<close>

text \<open>C23. Reserving keeps the accounts, under two conditions: every sector always asks for one size of its own (a sector that asks
  again with another size leaves its old reservation behind, see \<open>resized_reservation_leaks\<close>), and no sum of sizes reaches 2^64, as the
  stores' capacities and the size asked for are together below it. Then every store's counter stays the sum of its
  reservations and below the capacity; a store that is returned is permitted for the miner and the request and
  holds the reservation; if the reservation is new the store is writable and its free space covers
  everything reserved on it. Without a result nothing changes.\<close>

theorem ReserveSpace_accounts:
  assumes "ReserveSpace chooser m now sid (sz (FormatSectorID sid)) candidates kv = (r, kv1)"
    "summary_ok sz B (reservations kv)" "chooser_ok chooser" "named_stores m B"
    "B + unat (sz (FormatSectorID sid)) < 2 ^ 64"
  shows "summary_ok sz B (reservations kv1) \<and>
    (case r of
       Inr (Some cfg) \<Rightarrow> \<exists>info. ii_Config info = cfg \<and> (\<exists>st \<in> set (mg_stores m). st_InstanceInfo st = Inr info) \<and>
         permitted m (sid_Miner sid) candidates (oc_Name cfg) \<and>
         holds (reservations kv1) (oc_Name cfg) (FormatSectorID sid) (sz (FormatSectorID sid)) \<and>
         (reservations kv1 = reservations kv \<or> \<not> oc_ReadOnly cfg \<and>
            reserved_sum (stat_of (reservations kv1) (oc_Name cfg)) \<le> unat (ii_Free info))
     | _ \<Rightarrow> reservations kv1 = reservations kv)"
proof -
  let ?by = "FormatSectorID sid"
  have name: "oc_Name (ii_Config info) = st_Instance st" "unat (ii_Free info) \<le> B"
    if "st \<in> set (mg_stores m)" "st_InstanceInfo st = Inr info" for st info
    using assms(4) that by (auto simp: named_stores_def)
  from ReserveSpaceD [OF assms(1,3)] show ?thesis
  proof (elim disjE exE conjE)
    fix info st
    assume r: "r = Inr (Some (ii_Config info))" and st: "st \<in> set (mg_stores m)" "st_InstanceInfo st = Inr info"
      and new: "offered m (sid_Miner sid) ?by (sz ?by) candidates (reservations kv) st info"
        "reservations kv1 = add_reserved now ?by (sz ?by) (oc_Name (ii_Config info)) (reservations kv)"
    from new_reservation [OF new(1) assms(2,5) name(2) [OF st] new(2) [unfolded name(1) [OF st]]] new(1) st name(1) [OF st]
    show ?thesis unfolding r by (auto simp: offered_def)
  qed (use assms(2) name in \<open>auto 4 3\<close>)
qed

text \<open>Releasing a sector removes its reservation everywhere, takes exactly its size off the counters, keeps
  the accounts, and answers whether there was one.\<close>

theorem ReleaseReserved_accounts:
  assumes "ReleaseReserved sid kv = (Inr released, kv1)" "summary_ok sz B (reservations kv)"
  shows "summary_ok sz B (reservations kv1) \<and>
    (released \<longleftrightarrow> (\<exists>nm. map_of (rs_Reserved (stat_of (reservations kv) nm)) (FormatSectorID sid) \<noteq> None)) \<and>
    (\<forall>nm. map_of (rs_Reserved (stat_of (reservations kv1) nm)) =
        (map_of (rs_Reserved (stat_of (reservations kv) nm)))(FormatSectorID sid := None) \<and>
      reserved_sum (stat_of (reservations kv) nm) = reserved_sum (stat_of (reservations kv1) nm) +
        (case map_of (rs_Reserved (stat_of (reservations kv) nm)) (FormatSectorID sid) of
           None \<Rightarrow> 0 | Some rv \<Rightarrow> unat (rv_Size rv)))"
proof -
  have ord: "ordered_entries (reservations kv)" using assms(2) by (simp add: summary_ok_def)
  note R = ReleaseReservedD [OF assms(1) ord]
  have "summary_ok sz B (reservations kv1)" using R assms(2) release_all_ok by auto
  moreover have "map_of (rs_Reserved (stat_of (reservations kv1) nm)) =
        (map_of (rs_Reserved (stat_of (reservations kv) nm)))(FormatSectorID sid := None) \<and>
      reserved_sum (stat_of (reservations kv) nm) = reserved_sum (stat_of (reservations kv1) nm) +
        (case map_of (rs_Reserved (stat_of (reservations kv) nm)) (FormatSectorID sid) of
           None \<Rightarrow> 0 | Some rv \<Rightarrow> unat (rv_Size rv))" for nm
    using R stat_ok_release(2,3) [OF summary_ok_stat [OF assms(2), of nm], of "FormatSectorID sid"] release_idle
    by (auto split: option.splits)
  ultimately show ?thesis using R by blast
qed

text \<open>Releasing undoes a new reservation: the reservations and the counters of all stores are as before.\<close>

theorem reserve_release_roundtrip:
  assumes "ReserveSpace chooser m now sid (sz (FormatSectorID sid)) candidates kv = (Inr sel, kv1)"
    "ReleaseReserved sid kv1 = (Inr released, kv2)"
    "summary_ok sz B (reservations kv)" "chooser_ok chooser" "named_stores m B"
    "B + unat (sz (FormatSectorID sid)) < 2 ^ 64"
    "\<And>nm. map_of (rs_Reserved (stat_of (reservations kv) nm)) (FormatSectorID sid) = None"
  shows "(released \<longleftrightarrow> sel \<noteq> None) \<and>
    (\<forall>nm. map_of (rs_Reserved (stat_of (reservations kv2) nm)) = map_of (rs_Reserved (stat_of (reservations kv) nm)) \<and>
      rs_ReservedSize (stat_of (reservations kv2) nm) = rs_ReservedSize (stat_of (reservations kv) nm))"
proof -
  let ?by = "FormatSectorID sid"
  have idle: "\<not> holds (reservations kv) nm ?by want" for nm want using assms(7) by (simp add: holds_def)
  from ReserveSpaceD [OF assms(1,4)] have "sel = None \<and> reservations kv1 = reservations kv \<or> (\<exists>info st. sel \<noteq> None \<and>
      st \<in> set (mg_stores m) \<and> st_InstanceInfo st = Inr info \<and> offered m (sid_Miner sid) ?by (sz ?by) candidates (reservations kv) st info \<and>
      reservations kv1 = add_reserved now ?by (sz ?by) (oc_Name (ii_Config info)) (reservations kv))"
    using idle by (auto 0 3)
  then show ?thesis
  proof (elim disjE exE conjE)
    assume none: "sel = None" "reservations kv1 = reservations kv"
    have "ordered_entries (reservations kv1)" using assms(3) none by (simp add: summary_ok_def)
    from ReleaseReservedD [OF assms(2) this] none assms(7) release_idle show ?thesis by simp
  next
    fix info st
    assume st: "sel \<noteq> None" "st \<in> set (mg_stores m)" "st_InstanceInfo st = Inr info"
      "offered m (sid_Miner sid) ?by (sz ?by) candidates (reservations kv) st info"
      "reservations kv1 = add_reserved now ?by (sz ?by) (oc_Name (ii_Config info)) (reservations kv)"
    have nm: "oc_Name (ii_Config info) = st_Instance st" "unat (ii_Free info) \<le> B"
      using assms(5) st(2,3) by (auto simp: named_stores_def)
    have ok: "summary_ok sz B (reservations kv1)" using new_reservation [OF st(4) assms(3,6) nm(2)] st(5) nm(1) by simp
    then have "ordered_entries (reservations kv1)" by (simp add: summary_ok_def)
    note R = ReleaseReservedD [OF assms(2) this]
    have ok2: "summary_ok sz B (reservations kv2)" using R ok release_all_ok by auto
    have res: "map_of (rs_Reserved (stat_of (reservations kv2) n)) = map_of (rs_Reserved (stat_of (reservations kv) n))" for n
      using R stat_ok_release(2) [OF summary_ok_stat [OF ok, of n], of ?by] assms(7) [of n]
      by (auto simp: st(5) stat_of_add_reserved fun_eq_iff)
    have "\<exists>n. map_of (rs_Reserved (stat_of (reservations kv1) n)) ?by \<noteq> None"
      by (rule exI [of _ "oc_Name (ii_Config info)"]) (simp add: st(5) stat_of_add_reserved)
    with R st(1) have "released \<longleftrightarrow> sel \<noteq> None" by blast
    moreover have "rs_ReservedSize (stat_of (reservations kv2) n) = rs_ReservedSize (stat_of (reservations kv) n)" for n
      using same_sum [OF summary_ok_stat [OF ok2, of n] summary_ok_stat [OF assms(3), of n] res] .
    ultimately show ?thesis using res by blast
  qed
qed

text \<open>When a sector that holds a reservation asks again for another size and is given the same store, the old size
  stays in the counter: after the sector's space is released the counter exceeds the sum of the
  reservations by the old size, for good.\<close>

theorem resized_reservation_leaks:
  assumes "ReserveSpace chooser m now sid want candidates kv = (Inr (Some cfg), kv1)"
    "ReleaseReserved sid kv1 = (Inr released, kv2)"
    "summary_ok sz B (reservations kv)" "chooser_ok chooser" "named_stores m B" "B + unat want < 2 ^ 64"
    "map_of (rs_Reserved (stat_of (reservations kv) (oc_Name cfg))) (FormatSectorID sid) = Some rv"
    "rv_Size rv \<noteq> want"
  shows "unat (rs_ReservedSize (stat_of (reservations kv2) (oc_Name cfg))) =
    reserved_sum (stat_of (reservations kv2) (oc_Name cfg)) + unat (rv_Size rv)"
proof -
  let ?by = "FormatSectorID sid" and ?nm = "oc_Name cfg"
  let ?rs = "stat_of (reservations kv) ?nm"
  from ReserveSpaceD [OF assms(1,4)] obtain info st where st: "cfg = ii_Config info" "st \<in> set (mg_stores m)"
      "st_InstanceInfo st = Inr info"
      "holds (reservations kv) (st_Instance st) ?by want \<or>
       offered m (sid_Miner sid) ?by want candidates (reservations kv) st info \<and>
        reservations kv1 = add_reserved now ?by want ?nm (reservations kv)" by blast
  have nm: "st_Instance st = ?nm" using assms(5) st by (auto simp: named_stores_def)
  then have new: "offered m (sid_Miner sid) ?by want candidates (reservations kv) st info"
    "reservations kv1 = add_reserved now ?by want ?nm (reservations kv)"
    using st(4) assms(7,8) by (auto simp: holds_def)
  have "ordered_entries (reservations kv1)" using assms(3) by (simp add: new(2) add_reserved_def Let_def summary_ok_def)
  from ReleaseReservedD [OF assms(2) this] have kv2: "stat_of (reservations kv2) ?nm = release_stat ?by (stat_of (reservations kv1) ?nm)"
    by simp
  note S = summary_ok_stat [OF assms(3), of ?nm]
  have sum: "reserved_sum ?rs = unat (rv_Size rv) + sum_list (map (\<lambda>p. unat (rv_Size (snd p))) (del_entry ?by (rs_Reserved ?rs)))"
    using sum_del [of "rs_Reserved ?rs" ?by rv "\<lambda>p. unat (rv_Size (snd p))"] S assms(7)
    by (simp add: reserved_sum_def stat_ok_def ordered_entries_def)
  have "unat (rs_ReservedSize ?rs) + unat want < 2 ^ 64" using S assms(6) by (simp add: stat_ok_def)
  then have add: "unat (rs_ReservedSize ?rs + want) = unat (rs_ReservedSize ?rs) + unat want"
    using unat_add_lem [of "rs_ReservedSize ?rs" want] by simp
  have "(if rs_ReservedSize ?rs + want > want then rs_ReservedSize ?rs + want - want else 0) = rs_ReservedSize ?rs"
    using add by (auto simp: word_less_nat_alt word_unat_eq_iff)
  then have size2: "rs_ReservedSize (stat_of (reservations kv2) ?nm) = rs_ReservedSize ?rs"
    unfolding kv2 release_stat_def by (simp add: new(2) stat_of_add_reserved split: if_splits)
  have "del_entry ?by (put_entry ?by v xs) = del_entry ?by xs" for v and xs :: "(string \<times> store_reserved) list"
    unfolding del_entry_def put_entry_def by (simp add: filter_insort_key_other)
  then have "rs_Reserved (stat_of (reservations kv2) ?nm) = del_entry ?by (rs_Reserved ?rs)"
    unfolding kv2 release_stat_def by (simp add: new(2) stat_of_add_reserved)
  with sum S size2 show ?thesis by (simp add: reserved_sum_def [of "stat_of (reservations kv2) ?nm"] stat_ok_def)
qed

section \<open>Instances\<close>

definition demo_store_info :: instance_info where
  "demo_store_info = \<lparr>ii_Config = \<lparr>oc_Name = ''st1'', oc_Path = ''/st1'', oc_Meta = [], oc_Strict = False,
     oc_ReadOnly = False, oc_Weight = 0\<rparr>, ii_Type = ''fs'', ii_Total = 100, ii_Free = 50, ii_Used = 50\<rparr>"

definition demo_stores :: store_manager where
  "demo_stores = \<lparr>mg_stores = [\<lparr>st_Instance = ''st1'', st_InstanceInfo = Inr demo_store_info\<rparr>], mg_policy = (\<lambda>_. None)\<rparr>"

definition demo_chooser :: "(instance_info \<times> u64) list \<Rightarrow> instance_info res" where
  "demo_chooser cs = (case cs of [] \<Rightarrow> Inl (Ext ''no choices'') | c # _ \<Rightarrow> Inr (fst c))"

definition demo_owner :: sector_id where
  "demo_owner = \<lparr>sid_Miner = 1, sid_Number = 2\<rparr>"

definition demo_rdb :: "reserve_summary \<Rightarrow> reserve_db" where
  "demo_rdb d = \<lparr>kv_data = [(storeReserveSummaryKey, Json d)], kv_script = []\<rparr>"

definition demo_stat :: "u64 \<Rightarrow> u64 \<Rightarrow> reserve_stat" where
  "demo_stat tot n = \<lparr>rs_ReservedSize = tot,
     rs_Reserved = [(FormatSectorID demo_owner, \<lparr>rv_By = FormatSectorID demo_owner, rv_Size = n, rv_At = 7\<rparr>)]\<rparr>"

lemma demo_chooser_ok: "chooser_ok demo_chooser"
  by (auto simp: chooser_ok_def demo_chooser_def split: list.splits)

lemma demo_named: "named_stores demo_stores 100"
  by (simp add: named_stores_def demo_stores_def demo_store_info_def)

lemma reservations_demo [simp]: "reservations (demo_rdb d) = d"
  by (simp add: reservations_def document_def demo_rdb_def)

lemmas demo_reserve_defs = ReserveSpace_def ReleaseReserved_def modifyReserved_def doc_cycle_def doc_save_def
  reserve_modifier_def scan_stores_step add_reserved_def release_stat_def Let_def stat_of_def demo_rdb_def demo_stores_def
  demo_store_info_def demo_chooser_def demo_stat_def emptyStoreReserveStat_def permitted_def holds_def offered_def put_entry_def
  del_entry_def

lemma demo_reserve: "ReserveSpace demo_chooser demo_stores 7 demo_owner 20 [] (demo_rdb []) =
    (Inr (Some (ii_Config demo_store_info)), demo_rdb [(''st1'', demo_stat 20 20)])"
  by (simp add: demo_reserve_defs del: scan_stores.simps(2))

lemma demo_reserve_again: "ReserveSpace demo_chooser demo_stores 7 demo_owner 30 [] (demo_rdb [(''st1'', demo_stat 20 20)]) =
    (Inr (Some (ii_Config demo_store_info)), demo_rdb [(''st1'', demo_stat 50 30)])"
  by (simp add: demo_reserve_defs del: scan_stores.simps(2))

lemma demo_release: "ReleaseReserved demo_owner (demo_rdb [(''st1'', demo_stat 20 20)]) =
    (Inr True, demo_rdb [(''st1'', \<lparr>rs_ReservedSize = 0, rs_Reserved = []\<rparr>)])"
  "ReleaseReserved demo_owner (demo_rdb [(''st1'', demo_stat 50 30)]) =
    (Inr True, demo_rdb [(''st1'', \<lparr>rs_ReservedSize = 20, rs_Reserved = []\<rparr>)])"
  by (simp_all add: demo_reserve_defs)

lemma demo_ok: "summary_ok (\<lambda>_. 20) 100 []" "summary_ok (\<lambda>_. 20) 100 [(''st1'', demo_stat 20 20)]"
  by (simp_all add: summary_ok_def stat_ok_def reserved_sum_def demo_stat_def)

theorem ReserveSpace_accounts_witness:
  "summary_ok (\<lambda>_. 20) 100 [(''st1'', demo_stat 20 20)] \<and> reserved_sum (demo_stat 20 20) \<le> 50"
  using ReserveSpace_accounts [of demo_chooser demo_stores 7 demo_owner "\<lambda>_. 20" "[]" "demo_rdb []", OF demo_reserve]
    demo_ok(1) demo_chooser_ok demo_named
  by (auto simp: demo_store_info_def demo_stores_def stat_of_def)

theorem ReleaseReserved_accounts_witness:
  "summary_ok (\<lambda>_. 20) 100 [(''st1'', \<lparr>rs_ReservedSize = 0, rs_Reserved = []\<rparr>)] \<and>
   reserved_sum (demo_stat 20 20) = 20"
  using ReleaseReserved_accounts [OF demo_release(1), of "\<lambda>_. 20" 100] demo_ok(2)
  by (simp add: reserved_sum_def demo_stat_def)

theorem reserve_release_roundtrip_witness:
  "rs_ReservedSize (stat_of [(''st1'', \<lparr>rs_ReservedSize = 0, rs_Reserved = []\<rparr>)] ''st1'') =
   rs_ReservedSize (stat_of [] ''st1'')"
  using reserve_release_roundtrip [of demo_chooser demo_stores 7 demo_owner "\<lambda>_. 20" "[]" "demo_rdb []",
      OF demo_reserve demo_release(1)] demo_ok(1) demo_chooser_ok demo_named
  by (auto simp: stat_of_def emptyStoreReserveStat_def)

theorem resized_reservation_leaks_witness:
  "unat (rs_ReservedSize (stat_of [(''st1'', \<lparr>rs_ReservedSize = 20, rs_Reserved = []\<rparr>)] ''st1'')) =
   reserved_sum (stat_of [(''st1'', \<lparr>rs_ReservedSize = 20, rs_Reserved = []\<rparr>)] ''st1'') + 20"
proof -
  have n: "oc_Name (ii_Config demo_store_info) = ''st1''" by (simp add: demo_store_info_def)
  have "map_of (rs_Reserved (stat_of [(''st1'', demo_stat 20 20)] ''st1'')) (FormatSectorID demo_owner) =
      Some \<lparr>rv_By = FormatSectorID demo_owner, rv_Size = 20, rv_At = 7\<rparr>" by (simp add: stat_of_def demo_stat_def)
  from resized_reservation_leaks [OF demo_reserve_again demo_release(2), of "\<lambda>_. 20" 100, unfolded reservations_demo n,
      OF demo_ok(2) demo_chooser_ok demo_named _ this]
  show ?thesis by simp
qed

end
