(* ===== verification/Sector_Tracker.thy ===== *)
theory Sector_Tracker
  imports Sector_Index Store_Reservation
begin

text \<open>
  From a sector to its files (\<open>modules/impl/sectors/tracker.go\<close>), the check that a sector can be proven
  (\<open>proving.go\<close>) and the paths of the files (\<open>modules/util/util.go\<close>). The object stores, the chain node and the prover
  are parameters. The checks of \<open>Provable\<close> run in parallel and only read: the model runs them one after
  the other; which of them finds the partition's time limit passed before it starts is the parameter \<open>late\<close>.
\<close>

section \<open>Paths\<close>

text \<open>\<open>filepath.Join\<close> of two elements that are clean already.\<close>

definition path_join :: "string \<Rightarrow> string \<Rightarrow> string" where
  "path_join a b = a @ ''/'' @ b"

datatype path_type = PathCache | PathSealed | PathUpdate | PathUpdateCache

fun path_name :: "path_type \<Rightarrow> string" where
  "path_name PathCache = ''cache''"
| "path_name PathSealed = ''sealed''"
| "path_name PathUpdate = ''update''"
| "path_name PathUpdateCache = ''update-cache''"

definition SectorPath :: "path_type \<Rightarrow> sector_id \<Rightarrow> string" where
  "SectorPath typ sid = path_join (path_name typ) (FormatSectorID sid)"

definition ss2KiB :: u64 where "ss2KiB = push_bit 10 2"
definition ss8MiB :: u64 where "ss8MiB = push_bit 20 8"
definition ss512MiB :: u64 where "ss512MiB = push_bit 20 512"
definition ss32GiB :: u64 where "ss32GiB = push_bit 30 32"
definition ss64GiB :: u64 where "ss64GiB = push_bit 30 64"

definition tree_files :: "string \<Rightarrow> nat \<Rightarrow> string list" where
  "tree_files cacheDir n = map (\<lambda>i. path_join cacheDir (''sc-02-data-tree-r-last-'' @ dec i @ ''.dat'')) [0..<n]"

definition CachedFilesForSectorSize :: "string \<Rightarrow> u64 \<Rightarrow> string list" where
  "CachedFilesForSectorSize cacheDir ssize = [path_join cacheDir ''p_aux'', path_join cacheDir ''t_aux''] @
     (if ssize \<in> {ss2KiB, ss8MiB, ss512MiB} then [path_join cacheDir ''sc-02-data-tree-r-last.dat'']
      else if ssize = ss32GiB then tree_files cacheDir 8
      else if ssize = ss64GiB then tree_files cacheDir 16
      else [])"

section \<open>The tracker\<close>

record sector_ref =
  ref_ID :: sector_id
  ref_ProofType :: seal_proof

record private_info =
  pvt_Accesses :: access_stores
  pvt_CacheDirPath :: string
  pvt_SealedSectorPath :: string
  pvt_CacheDirURI :: string
  pvt_SealedSectorURI :: string

record extended_sector =
  xs_SealProof :: seal_proof
  xs_SectorNumber :: u64
  xs_SealedCID :: cid
  xs_SectorKey :: "cid option"

record ffi_private =
  fp_SealProof :: seal_proof
  fp_SectorNumber :: u64
  fp_SealedCID :: cid
  fp_CacheDirPath :: string
  fp_PoStProofType :: int
  fp_SealedSectorPath :: string

text \<open>The drivers behind the store instances: the full path and the size of an object.\<close>

record object_lib =
  ob_FullPath :: "string \<Rightarrow> string \<Rightarrow> string"
  ob_Stat :: "string \<Rightarrow> string \<Rightarrow> int res"

type_synonym locator = "sector_id \<Rightarrow> (access_stores \<times> bool) res"

definition locate :: "locator option \<Rightarrow> bool \<Rightarrow> sector_id \<Rightarrow> (indexer, access_stores \<times> bool) step" where
  "locate loc upgrade sid ix = (case loc of
     Some f \<Rightarrow> (f sid, ix)
   | None \<Rightarrow> if upgrade then (case index_Find sid (ix_upgrade ix) of (r, kv) \<Rightarrow> (r, ix\<lparr>ix_upgrade := kv\<rparr>))
       else (case index_Find sid (ix_normal ix) of (r, kv) \<Rightarrow> (r, ix\<lparr>ix_normal := kv\<rparr>)))"

definition getObjInstanceForSector :: "store_manager \<Rightarrow> sector_id \<Rightarrow> locator option \<Rightarrow> bool \<Rightarrow>
    (indexer, access_stores \<times> store \<times> store) step" where
  "getObjInstanceForSector sm sid loc upgrade ix = (case locate loc upgrade sid ix of
     (Inl e, ix1) \<Rightarrow> (Inl (Wrap ''find objstore instance'' e), ix1)
   | (Inr (access, has), ix1) \<Rightarrow>
       if \<not> has then (Inl (Errorf ''object not found''), ix1)
       else (case GetInstance sm (ac_SealedFile access) of
         Inl e \<Rightarrow> (Inl (Wrap ''get objstore instance for sealed file'' e), ix1)
       | Inr sealedFile \<Rightarrow> (case GetInstance sm (ac_CacheDir access) of
           Inl e \<Rightarrow> (Inl (Wrap ''get objstore instance for cache dir'' e), ix1)
         | Inr cacheDir \<Rightarrow> (Inr (access, sealedFile, cacheDir), ix1))))"

definition getPrivateInfo :: "object_lib \<Rightarrow> store_manager \<Rightarrow> sector_ref \<Rightarrow> bool \<Rightarrow> locator option \<Rightarrow>
    (indexer, private_info) step" where
  "getPrivateInfo ob sm sref upgrade loc ix = (case getObjInstanceForSector sm (ref_ID sref) loc upgrade ix of
     (Inl e, ix1) \<Rightarrow> (Inl (Wrap ''get location'' e), ix1)
   | (Inr (info, sealedFile, cacheDir), ix1) \<Rightarrow>
       (let cache = SectorPath (if upgrade then PathUpdateCache else PathCache) (ref_ID sref);
            sealed = SectorPath (if upgrade then PathUpdate else PathSealed) (ref_ID sref)
        in (Inr \<lparr>pvt_Accesses = info, pvt_CacheDirPath = ob_FullPath ob (st_Instance cacheDir) cache,
              pvt_SealedSectorPath = ob_FullPath ob (st_Instance sealedFile) sealed,
              pvt_CacheDirURI = cache, pvt_SealedSectorURI = sealed\<rparr>, ix1)))"

definition SinglePrivateInfo :: "object_lib \<Rightarrow> store_manager \<Rightarrow> sector_ref \<Rightarrow> bool \<Rightarrow> locator option \<Rightarrow>
    (indexer, private_info) step" where
  "SinglePrivateInfo ob sm sref upgrade loc ix = (case getPrivateInfo ob sm sref upgrade loc ix of
     (Inl e, ix1) \<Rightarrow> (Inl (Wrap ''get private info'' e), ix1)
   | (Inr p, ix1) \<Rightarrow> (Inr p, ix1))"

definition SinglePubToPrivateInfo :: "object_lib \<Rightarrow> store_manager \<Rightarrow> u64 \<Rightarrow> extended_sector \<Rightarrow> locator option \<Rightarrow>
    (indexer, private_info) step" where
  "SinglePubToPrivateInfo ob sm mid x loc = SinglePrivateInfo ob sm
     \<lparr>ref_ID = \<lparr>sid_Miner = mid, sid_Number = xs_SectorNumber x\<rparr>, ref_ProofType = xs_SealProof x\<rparr> (xs_SectorKey x \<noteq> None) loc"

definition ToFFI :: "private_info \<Rightarrow> seal_proof \<Rightarrow> u64 \<Rightarrow> cid \<Rightarrow> int \<Rightarrow> ffi_private" where
  "ToFFI p sealProof number sealedCID postType = \<lparr>fp_SealProof = sealProof, fp_SectorNumber = number, fp_SealedCID = sealedCID,
     fp_CacheDirPath = pvt_CacheDirPath p, fp_PoStProofType = postType, fp_SealedSectorPath = pvt_SealedSectorPath p\<rparr>"

fun PubToPrivate :: "object_lib \<Rightarrow> store_manager \<Rightarrow> u64 \<Rightarrow> int \<Rightarrow> extended_sector list \<Rightarrow> (indexer, ffi_private list) step" where
  "PubToPrivate ob sm aid postType [] ix = (Inr [], ix)"
| "PubToPrivate ob sm aid postType (x # xs) ix = (case SinglePubToPrivateInfo ob sm aid x None ix of
     (Inl e, ix1) \<Rightarrow> (Inl (Wrap ''construct private info'' e), ix1)
   | (Inr priv, ix1) \<Rightarrow> (case PubToPrivate ob sm aid postType xs ix1 of
       (Inl e, ix2) \<Rightarrow> (Inl e, ix2)
     | (Inr out, ix2) \<Rightarrow> (Inr (ToFFI priv (xs_SealProof x) (xs_SectorNumber x) (xs_SealedCID x) postType # out), ix2)))"

section \<open>Provability\<close>

record sector_chain =
  sg_SealedCID :: cid
  sg_SectorKeyCID :: "cid option"

record proving_env =
  pg_stores :: store_manager
  pg_objects :: object_lib
  pg_SectorSize :: "seal_proof \<Rightarrow> u64 res"
  pg_NewIDAddress :: "u64 \<Rightarrow> address res"
  pg_SectorGetInfo :: "address \<Rightarrow> u64 \<Rightarrow> sector_chain option res"
  pg_Vanilla :: "ffi_private \<Rightarrow> u64 list \<Rightarrow> bytes res"
  pg_Undef :: cid

record proving_state =
  pg_index :: indexer
  pg_smgr :: state_mgr

text \<open>The targets of a check with their sizes in units of the sector size, 0 for any size. Go ranges over
  the map of targets in any order; the order decides only which failure is reported.\<close>

fun check_targets :: "object_lib \<Rightarrow> string \<Rightarrow> u64 \<Rightarrow> bool \<Rightarrow> (string \<times> int) list \<Rightarrow> unit res" where
  "check_targets ob ins ssize strict [] = Inr ()"
| "check_targets ob ins ssize strict ((p, sz) # ts) = (case ob_Stat ob ins p of
     Inl e \<Rightarrow> Inl (Wrap ''stat object'' e)
   | Inr st_size \<Rightarrow> if sz \<noteq> 0 \<and> strict \<and> st_size \<noteq> uint ssize * sz then Inl (Errorf ''with wrong size'')
       else check_targets ob ins ssize strict ts)"

definition consistent :: "cid \<Rightarrow> bool \<Rightarrow> sector_chain \<Rightarrow> sector_state \<Rightarrow> unit res" where
  "consistent undef upgrade sinfo ss = (case ss_Pre ss of
     None \<Rightarrow> nil_deref
   | Some pre \<Rightarrow>
       if \<not> upgrade then
         (if pc_CommR pre \<noteq> sg_SealedCID sinfo then Inl (Errorf ''the SealedCID on the local and the chain is inconsistent'') else Inr ())
       else (case sg_SectorKeyCID sinfo of
           None \<Rightarrow> nil_deref
         | Some keyCid \<Rightarrow> if keyCid \<noteq> pc_CommR pre then Inl (Errorf ''the SectorKeyCID on the local and the chain is inconsistent'')
             else (case ss_UpgradedInfo ss of
                 None \<Rightarrow> nil_deref
               | Some ui \<Rightarrow> if ui_SealedCID ui \<noteq> undef \<and> sg_SealedCID sinfo \<noteq> ui_SealedCID ui
                   then Inl (Errorf ''the SealedCID on the local and the chain is inconsistent'') else Inr ())))"

definition vanilla_check :: "proving_env \<Rightarrow> u64 \<Rightarrow> int \<Rightarrow> sector_ref \<Rightarrow> private_info \<Rightarrow> u64 \<Rightarrow> cid \<Rightarrow> unit res" where
  "vanilla_check env rnd postType sref p ssize sealedCID =
    (if ssize div 32 = 0 then Inl (Panic ''integer divide by zero'')
     else (case pg_Vanilla env (ToFFI p (ref_ProofType sref) (sid_Number (ref_ID sref)) sealedCID postType) [rnd mod (ssize div 32)] of
         Inl e \<Rightarrow> Inl (Wrap ''generate vanilla proof failed'' e)
       | Inr _ \<Rightarrow> Inr ()))"

text \<open>The strict part: the chain, the sector's state and a proof over one random challenge.\<close>

definition strict_check :: "proving_env \<Rightarrow> u64 \<Rightarrow> int \<Rightarrow> sector_ref \<Rightarrow> bool \<Rightarrow> bool \<Rightarrow> private_info \<Rightarrow> u64 \<Rightarrow> (state_mgr, unit) step" where
  "strict_check env rnd postType sref upgrade stateCheck p ssize sm = (case pg_NewIDAddress env (sid_Miner (ref_ID sref)) of
     Inl e \<Rightarrow> (Inl e, sm)
   | Inr addr \<Rightarrow> (case pg_SectorGetInfo env addr (sid_Number (ref_ID sref)) of
       Inl e \<Rightarrow> (Inl e, sm)
     | Inr sinfo \<Rightarrow>
        (let prove = (case sinfo of None \<Rightarrow> nil_deref | Some si \<Rightarrow> vanilla_check env rnd postType sref p ssize (sg_SealedCID si)) in
         if \<not> stateCheck then (prove, sm)
         else (case Load (ref_ID sref) WorkerOffline sm of
             (Inl e, sm1) \<Rightarrow> (Inl (Wrap ''not exist in Offline, maybe in Online'' e), sm1)
           | (Inr ss, sm1) \<Rightarrow> (case sinfo of
                 None \<Rightarrow> (nil_deref, sm1)
               | Some si \<Rightarrow> (case consistent (pg_Undef env) upgrade si ss of
                     Inl e \<Rightarrow> (Inl e, sm1)
                   | Inr _ \<Rightarrow> (prove, sm1)))))))"

definition file_checks :: "object_lib \<Rightarrow> store_manager \<Rightarrow> private_info \<Rightarrow> u64 \<Rightarrow> bool \<Rightarrow> unit res" where
  "file_checks ob stores p ssize strict = (case GetInstance stores (ac_SealedFile (pvt_Accesses p)) of
     Inl e \<Rightarrow> Inl (Wrap ''get objstore instance for sealed file'' e)
   | Inr sealedIns \<Rightarrow> (case GetInstance stores (ac_CacheDir (pvt_Accesses p)) of
       Inl e \<Rightarrow> Inl (Wrap ''get objstore instance for cache dir'' e)
     | Inr cacheIns \<Rightarrow> (case check_targets ob (st_Instance sealedIns) ssize strict [(pvt_SealedSectorURI p, 1)] of
         Inl e \<Rightarrow> Inl e
       | Inr _ \<Rightarrow> check_targets ob (st_Instance cacheIns) ssize strict
           (map (\<lambda>f. (f, 0)) (CachedFilesForSectorSize (pvt_CacheDirURI p) ssize)))))"

definition SingleProvable :: "proving_env \<Rightarrow> u64 \<Rightarrow> int \<Rightarrow> sector_ref \<Rightarrow> bool \<Rightarrow> locator option \<Rightarrow> bool \<Rightarrow> bool \<Rightarrow>
    (proving_state, unit) step" where
  "SingleProvable env rnd postType sref upgrade loc strict stateCheck st = (case pg_SectorSize env (ref_ProofType sref) of
     Inl e \<Rightarrow> (Inl (Wrap ''get sector size'' e), st)
   | Inr ssize \<Rightarrow> (case SinglePrivateInfo (pg_objects env) (pg_stores env) sref upgrade loc (pg_index st) of
       (Inl e, ix) \<Rightarrow> (Inl (Wrap ''get private info'' e), st\<lparr>pg_index := ix\<rparr>)
     | (Inr p, ix) \<Rightarrow> (case file_checks (pg_objects env) (pg_stores env) p ssize strict of
         Inl e \<Rightarrow> (Inl e, st\<lparr>pg_index := ix\<rparr>)
       | Inr _ \<Rightarrow> if \<not> strict then (Inr (), st\<lparr>pg_index := ix\<rparr>)
           else (case strict_check env rnd postType sref upgrade stateCheck p ssize (pg_smgr st) of
               (r, sm) \<Rightarrow> (r, st\<lparr>pg_index := ix, pg_smgr := sm\<rparr>)))))"

definition sector_ref_of :: "u64 \<Rightarrow> extended_sector \<Rightarrow> sector_ref" where
  "sector_ref_of mid x = \<lparr>ref_ID = \<lparr>sid_Miner = mid, sid_Number = xs_SectorNumber x\<rparr>, ref_ProofType = xs_SealProof x\<rparr>"

text \<open>The results of the checks, one per sector, then the map of the bad ones. A panic in a check ends the
  process; it is the result of the whole run.\<close>

fun provable_results :: "proving_env \<Rightarrow> (nat \<Rightarrow> u64) \<Rightarrow> (nat \<Rightarrow> bool) \<Rightarrow> u64 \<Rightarrow> int \<Rightarrow> bool \<Rightarrow> bool \<Rightarrow> nat \<Rightarrow> extended_sector list \<Rightarrow>
    (proving_state, err option list) step" where
  "provable_results env rnd late mid postType strict stateCheck i [] st = (Inr [], st)"
| "provable_results env rnd late mid postType strict stateCheck i (x # xs) st =
    (case (if late i then (Inl (Errorf ''waiting for check worker''), st)
           else SingleProvable env (rnd i) postType (sector_ref_of mid x) (xs_SectorKey x \<noteq> None) None strict stateCheck st) of
       (r, st1) \<Rightarrow> (case r of
           Inl (Panic m) \<Rightarrow> (Inl (Panic m), st1)
         | _ \<Rightarrow> (case provable_results env rnd late mid postType strict stateCheck (Suc i) xs st1 of
             (Inl e, st2) \<Rightarrow> (Inl e, st2)
           | (Inr rs, st2) \<Rightarrow> (Inr ((case r of Inl e \<Rightarrow> Some e | Inr _ \<Rightarrow> None) # rs), st2))))"

definition bad_map :: "extended_sector list \<Rightarrow> err option list \<Rightarrow> (u64 \<rightharpoonup> err)" where
  "bad_map xs rs = foldl (\<lambda>m (x, r). case r of None \<Rightarrow> m | Some e \<Rightarrow> m(xs_SectorNumber x \<mapsto> e)) Map.empty (zip xs rs)"

definition Provable :: "proving_env \<Rightarrow> (nat \<Rightarrow> u64) \<Rightarrow> (nat \<Rightarrow> bool) \<Rightarrow> u64 \<Rightarrow> int \<Rightarrow> extended_sector list \<Rightarrow> bool \<Rightarrow> bool \<Rightarrow>
    (proving_state, u64 \<rightharpoonup> err) step" where
  "Provable env rnd late mid postType sectors strict stateCheck st =
    (case provable_results env rnd late mid postType strict stateCheck 0 sectors st of
       (Inl e, st1) \<Rightarrow> (Inl e, st1)
     | (Inr rs, st1) \<Rightarrow> (Inr (bad_map sectors rs), st1))"

section \<open>Lemmas\<close>

lemma locateD:
  assumes "locate None upgrade sid ix = (r, ix1)"
  shows "located_at (ix_upgrade ix1) = located_at (ix_upgrade ix) \<and> located_at (ix_normal ix1) = located_at (ix_normal ix) \<and>
    (\<forall>a. r = Inr (a, True) \<longrightarrow> located_at (if upgrade then ix_upgrade ix else ix_normal ix) sid = Some a)"
proof -
  obtain q kv where f: "index_Find sid (if upgrade then ix_upgrade ix else ix_normal ix) = (q, kv)" by fastforce
  from ixr.find_law [OF f] have law: "located_at kv = located_at (if upgrade then ix_upgrade ix else ix_normal ix)"
    "\<forall>a. q = Inr (a, True) \<longrightarrow> located_at (if upgrade then ix_upgrade ix else ix_normal ix) sid = Some a" by auto
  have "r = q \<and> ix1 = (if upgrade then ix\<lparr>ix_upgrade := kv\<rparr> else ix\<lparr>ix_normal := kv\<rparr>)"
    using assms f by (cases upgrade) (simp_all add: locate_def)
  with law show ?thesis by (cases upgrade) simp_all
qed

lemma GetInstance_named: "GetInstance m nm = Inr st \<Longrightarrow> st_Instance st = nm"
  by (auto simp: GetInstance_def find_Some_iff split: option.splits)

lemma getObjInstanceForSectorD:
  assumes "getObjInstanceForSector sm sid loc upgrade ix = (r, ix1)"
  shows "\<exists>q. locate loc upgrade sid ix = (q, ix1) \<and> (\<forall>access si ci. r = Inr (access, si, ci) \<longrightarrow> q = Inr (access, True))"
proof -
  obtain q ix2 where q: "locate loc upgrade sid ix = (q, ix2)" by fastforce
  show ?thesis
  proof (cases q)
    case (Inr ah)
    obtain access has where ah: "ah = (access, has)" by fastforce
    show ?thesis
      by (cases has; cases "GetInstance sm (ac_SealedFile access)"; cases "GetInstance sm (ac_CacheDir access)")
        (use assms q Inr ah in \<open>auto simp: getObjInstanceForSector_def\<close>)
  qed (use assms q in \<open>auto simp: getObjInstanceForSector_def\<close>)
qed

lemma SinglePrivateInfoD:
  assumes "SinglePrivateInfo ob sm sref upgrade None ix = (r, ix1)"
  shows "located_at (ix_upgrade ix1) = located_at (ix_upgrade ix) \<and> located_at (ix_normal ix1) = located_at (ix_normal ix) \<and>
    (\<forall>p. r = Inr p \<longrightarrow> located_at (if upgrade then ix_upgrade ix else ix_normal ix) (ref_ID sref) = Some (pvt_Accesses p) \<and>
      pvt_CacheDirURI p = SectorPath (if upgrade then PathUpdateCache else PathCache) (ref_ID sref) \<and>
      pvt_SealedSectorURI p = SectorPath (if upgrade then PathUpdate else PathSealed) (ref_ID sref))"
proof -
  obtain q ix2 where q: "getObjInstanceForSector sm (ref_ID sref) None upgrade ix = (q, ix2)" by fastforce
  from getObjInstanceForSectorD [OF q] obtain l where l: "locate None upgrade (ref_ID sref) ix = (l, ix2)"
    and found: "\<forall>access si ci. q = Inr (access, si, ci) \<longrightarrow> l = Inr (access, True)" by blast
  show ?thesis
  proof (cases q)
    case (Inl e)
    then show ?thesis using assms q locateD [OF l] by (auto simp: SinglePrivateInfo_def getPrivateInfo_def)
  next
    case (Inr x)
    obtain access si ci where x: "x = (access, si, ci)" by (cases x) auto
    with Inr found have "l = Inr (access, True)" by simp
    with locateD [OF l] show ?thesis using assms q Inr x by (auto simp: SinglePrivateInfo_def getPrivateInfo_def Let_def)
  qed
qed

lemma check_targets_ok:
  "check_targets ob ins ssize strict ts = Inr u \<longleftrightarrow>
    (\<forall>(p, sz) \<in> set ts. \<exists>n. ob_Stat ob ins p = Inr n \<and> (sz \<noteq> 0 \<and> strict \<longrightarrow> n = uint ssize * sz))"
proof (induction ts)
  case (Cons t ts)
  obtain p sz where t: "t = (p, sz)" by fastforce
  show ?case
    by (cases "ob_Stat ob ins p"; cases "sz \<noteq> 0 \<and> strict \<and> projr (ob_Stat ob ins p) \<noteq> uint ssize * sz")
      (use Cons t in auto)
qed simp

text \<open>The files of a sector: the sealed file, which has exactly the size of the sector when the check is strict, and every cache file.\<close>

definition files_in_place :: "object_lib \<Rightarrow> access_stores \<Rightarrow> sector_id \<Rightarrow> bool \<Rightarrow> u64 \<Rightarrow> bool \<Rightarrow> bool" where
  "files_in_place ob access sid upgrade ssize strict =
    ((\<exists>n. ob_Stat ob (ac_SealedFile access) (SectorPath (if upgrade then PathUpdate else PathSealed) sid) = Inr n \<and>
       (strict \<longrightarrow> n = uint ssize)) \<and>
     (\<forall>f \<in> set (CachedFilesForSectorSize (SectorPath (if upgrade then PathUpdateCache else PathCache) sid) ssize).
       \<not> isl (ob_Stat ob (ac_CacheDir access) f)))"

lemma file_checksD:
  assumes "file_checks ob stores p ssize strict = Inr u"
    and "pvt_CacheDirURI p = SectorPath (if upgrade then PathUpdateCache else PathCache) sid"
    and "pvt_SealedSectorURI p = SectorPath (if upgrade then PathUpdate else PathSealed) sid"
  shows "files_in_place ob (pvt_Accesses p) sid upgrade ssize strict"
proof -
  obtain si ci where g: "GetInstance stores (ac_SealedFile (pvt_Accesses p)) = Inr si" "GetInstance stores (ac_CacheDir (pvt_Accesses p)) = Inr ci"
      and c: "check_targets ob (st_Instance si) ssize strict [(pvt_SealedSectorURI p, 1)] = Inr ()"
        "check_targets ob (st_Instance ci) ssize strict (map (\<lambda>f. (f, 0)) (CachedFilesForSectorSize (pvt_CacheDirURI p) ssize)) = Inr ()"
    using assms(1) by (auto simp: file_checks_def split: sum.splits)
  from g GetInstance_named have "st_Instance si = ac_SealedFile (pvt_Accesses p)" "st_Instance ci = ac_CacheDir (pvt_Accesses p)" by blast+
  with c assms(2,3) show ?thesis by (auto simp: files_in_place_def check_targets_ok not_isl_iff simp del: check_targets.simps)
qed

text \<open>What the manager knows of the sectors, as the checks see it.\<close>

definition same_records :: "proving_state \<Rightarrow> proving_state \<Rightarrow> bool" where
  "same_records st st1 = (located_at (ix_upgrade (pg_index st1)) = located_at (ix_upgrade (pg_index st)) \<and>
     located_at (ix_normal (pg_index st1)) = located_at (ix_normal (pg_index st)) \<and> view (pg_smgr st1) = view (pg_smgr st))"

definition state_agrees :: "proving_env \<Rightarrow> proving_state \<Rightarrow> sector_ref \<Rightarrow> bool \<Rightarrow> bool" where
  "state_agrees env st sref upgrade = (\<exists>addr si ss. pg_NewIDAddress env (sid_Miner (ref_ID sref)) = Inr addr \<and>
     pg_SectorGetInfo env addr (sid_Number (ref_ID sref)) = Inr (Some si) \<and>
     view (pg_smgr st) WorkerOffline (ref_ID sref) = Some (Json ss) \<and> consistent (pg_Undef env) upgrade si ss = Inr ())"

definition in_order :: "proving_env \<Rightarrow> proving_state \<Rightarrow> sector_ref \<Rightarrow> bool \<Rightarrow> bool \<Rightarrow> bool \<Rightarrow> bool" where
  "in_order env st sref upgrade strict stateCheck = (\<exists>ssize access. pg_SectorSize env (ref_ProofType sref) = Inr ssize \<and>
     located_at (if upgrade then ix_upgrade (pg_index st) else ix_normal (pg_index st)) (ref_ID sref) = Some access \<and>
     files_in_place (pg_objects env) access (ref_ID sref) upgrade ssize strict \<and>
     (strict \<and> stateCheck \<longrightarrow> state_agrees env st sref upgrade))"

lemma strict_checkD:
  assumes "strict_check env rnd postType sref upgrade stateCheck p ssize sm = (r, sm1)"
  shows "view sm1 = view sm \<and> (r = Inr () \<and> stateCheck \<longrightarrow> (\<forall>st. view (pg_smgr st) = view sm \<longrightarrow> state_agrees env st sref upgrade))"
proof (cases "\<exists>addr sinfo. pg_NewIDAddress env (sid_Miner (ref_ID sref)) = Inr addr \<and>
    pg_SectorGetInfo env addr (sid_Number (ref_ID sref)) = Inr sinfo \<and> stateCheck")
  case True
  then obtain addr sinfo where h: "pg_NewIDAddress env (sid_Miner (ref_ID sref)) = Inr addr"
    "pg_SectorGetInfo env addr (sid_Number (ref_ID sref)) = Inr sinfo" "stateCheck" by blast
  obtain q sm2 where q: "Load (ref_ID sref) WorkerOffline sm = (q, sm2)" by fastforce
  show ?thesis
  proof (cases q)
    case (Inl e)
    with smgr.load_InlD q assms h show ?thesis by (auto simp: strict_check_def Let_def)
  next
    case (Inr ss)
    with smgr.load_InrD q have v: "view sm WorkerOffline (ref_ID sref) = Some (Json ss)" "view sm2 = view sm" by blast+
    have sm1: "sm1 = sm2" "r = Inr () \<Longrightarrow> \<exists>si. sinfo = Some si \<and> consistent (pg_Undef env) upgrade si ss = Inr ()"
      using assms h q Inr by (auto simp: strict_check_def Let_def nil_deref_def split: option.splits sum.splits)
    from sm1(2) h v show ?thesis unfolding sm1(1) state_agrees_def by auto
  qed
next
  case False
  then show ?thesis using assms by (auto simp: strict_check_def Let_def split: sum.splits)
qed

lemma SingleProvableD:
  assumes "SingleProvable env rnd postType sref upgrade None strict stateCheck st = (r, st1)"
  shows "same_records st st1 \<and> (r = Inr () \<longrightarrow> in_order env st sref upgrade strict stateCheck)"
proof (cases "pg_SectorSize env (ref_ProofType sref)")
  case (Inl e)
  then show ?thesis using assms by (auto simp: SingleProvable_def same_records_def)
next
  case (Inr ssize)
  obtain q ix where q: "SinglePrivateInfo (pg_objects env) (pg_stores env) sref upgrade None (pg_index st) = (q, ix)" by fastforce
  note d = SinglePrivateInfoD [OF q]
  show ?thesis
  proof (cases q)
    case (Inl e)
    then show ?thesis using assms Inr q d by (auto simp: SingleProvable_def same_records_def)
  next
    case p: (Inr p)
    let ?f = "file_checks (pg_objects env) (pg_stores env) p ssize strict"
    obtain r2 sm2 where sc: "strict_check env rnd postType sref upgrade stateCheck p ssize (pg_smgr st) = (r2, sm2)" by fastforce
    have files: "files_in_place (pg_objects env) (pvt_Accesses p) (ref_ID sref) upgrade ssize strict" if "?f = Inr u" for u
      using file_checksD [OF that] d p by simp
    show ?thesis
    proof (cases ?f)
      case (Inl e)
      then show ?thesis using assms Inr q d p by (auto simp: SingleProvable_def same_records_def)
    next
      case f: (Inr u)
      have "in_order env st sref upgrade strict stateCheck" if "strict \<and> stateCheck \<longrightarrow> state_agrees env st sref upgrade"
        using that files [OF f] Inr d p by (auto simp: in_order_def)
      moreover have "same_records st st1" "r = Inr () \<Longrightarrow> strict \<and> stateCheck \<longrightarrow> state_agrees env st sref upgrade"
        using assms Inr q d p f sc strict_checkD [OF sc] by (auto simp: SingleProvable_def same_records_def split: if_splits)
      ultimately show ?thesis by blast
    qed
  qed
qed

lemma in_order_same: "same_records st st1 \<Longrightarrow> in_order env st1 sref upgrade strict stateCheck = in_order env st sref upgrade strict stateCheck"
  by (simp add: same_records_def in_order_def state_agrees_def)

lemma same_records_trans: "same_records a b \<Longrightarrow> same_records b c \<Longrightarrow> same_records a c"
  by (simp add: same_records_def)

lemma provable_resultsD:
  assumes "provable_results env rnd late mid postType strict stateCheck i xs st = (r, st1)"
  shows "same_records st st1 \<and> (\<forall>rs. r = Inr rs \<longrightarrow> length rs = length xs \<and>
    (\<forall>(x, q) \<in> set (zip xs rs). q = None \<longrightarrow> in_order env st (sector_ref_of mid x) (xs_SectorKey x \<noteq> None) strict stateCheck))"
  using assms
proof (induction xs arbitrary: i st r st1)
  case Nil
  then show ?case by (auto simp: same_records_def)
next
  case (Cons x xs)
  obtain q st2 where q: "(if late i then (Inl (Errorf ''waiting for check worker''), st)
      else SingleProvable env (rnd i) postType (sector_ref_of mid x) (xs_SectorKey x \<noteq> None) None strict stateCheck st) = (q, st2)" by fastforce
  have one: "same_records st st2 \<and> (q = Inr () \<longrightarrow> in_order env st (sector_ref_of mid x) (xs_SectorKey x \<noteq> None) strict stateCheck)"
    using q SingleProvableD [of env "rnd i" postType "sector_ref_of mid x"] by (auto simp: same_records_def split: if_splits)
  obtain rs st3 where rest: "provable_results env rnd late mid postType strict stateCheck (Suc i) xs st2 = (rs, st3)" by fastforce
  note ih = Cons.IH [OF rest]
  show ?case
  proof (cases "\<exists>m. q = Inl (Panic m)")
    case True
    with Cons.prems q one show ?thesis by auto
  next
    case False
    then have eq: "st1 = st3" "r = (case rs of Inl e \<Rightarrow> Inl e | Inr rs \<Rightarrow> Inr ((case q of Inl e \<Rightarrow> Some e | Inr _ \<Rightarrow> None) # rs))"
      using Cons.prems q rest by (auto split: sum.splits err.splits)
    have same: "same_records st st1" using one ih same_records_trans unfolding eq(1) by blast
    show ?thesis
    proof (cases rs)
      case (Inr l)
      with ih one same eq show ?thesis by (auto simp: in_order_same split: sum.splits)
    qed (use eq same in simp)
  qed
qed

lemma bad_map_step:
  "foldl (\<lambda>m (x, r). case r of None \<Rightarrow> m | Some e \<Rightarrow> m(xs_SectorNumber x \<mapsto> e)) m0 ps n = None \<longleftrightarrow>
    m0 n = None \<and> (\<forall>(x, r) \<in> set ps. xs_SectorNumber x = n \<longrightarrow> r = None)"
  by (induction ps arbitrary: m0) (auto split: option.splits if_splits)

lemma bad_map_None: "bad_map xs rs n = None \<longleftrightarrow> (\<forall>(x, r) \<in> set (zip xs rs). xs_SectorNumber x = n \<longrightarrow> r = None)"
  by (simp add: bad_map_def bad_map_step)

section \<open>Properties\<close>

text \<open>A sector \<open>Provable\<close> does not report is in order: the index knows the instances that hold it, its sealed file is there, with exactly
  the size of the sector under a strict check, every cache file its sector size asks for is there, and with the state check its
  commitments agree with the chain. Every reported number is that of a checked sector.\<close>

theorem unreported_sector_is_in_order:
  assumes "Provable env rnd late mid postType sectors strict stateCheck st = (Inr bad, st1)"
  shows "(\<forall>x \<in> set sectors. bad (xs_SectorNumber x) = None \<longrightarrow> in_order env st (sector_ref_of mid x) (xs_SectorKey x \<noteq> None) strict stateCheck) \<and>
    dom bad \<subseteq> xs_SectorNumber ` set sectors"
proof -
  obtain rs where rs: "provable_results env rnd late mid postType strict stateCheck 0 sectors st = (Inr rs, st1)" "bad = bad_map sectors rs"
    using assms by (auto simp: Provable_def split: prod.splits sum.splits)
  note d = provable_resultsD [OF rs(1)]
  then have len: "length rs = length sectors" by simp
  show ?thesis
  proof (intro conjI ballI impI subsetI)
    fix x assume "x \<in> set sectors" "bad (xs_SectorNumber x) = None"
    then obtain k where "k < length sectors" "x = sectors ! k" by (auto simp: in_set_conv_nth)
    with len have "(x, rs ! k) \<in> set (zip sectors rs)" by (auto simp: in_set_zip)
    with \<open>bad (xs_SectorNumber x) = None\<close> rs(2) d show "in_order env st (sector_ref_of mid x) (xs_SectorKey x \<noteq> None) strict stateCheck"
      by (auto simp: bad_map_None)
  next
    fix n assume "n \<in> dom bad"
    then show "n \<in> xs_SectorNumber ` set sectors" using rs(2) bad_map_None [of sectors rs n] by (auto dest: set_zip_leftD)
  qed
qed

definition demo_proving_env :: proving_env where
  "demo_proving_env = \<lparr>pg_stores = \<lparr>mg_stores = [\<lparr>st_Instance = ''s1'', st_InstanceInfo = Inl (Ext ''down'')\<rparr>], mg_policy = (\<lambda>_. None)\<rparr>,
     pg_objects = \<lparr>ob_FullPath = (\<lambda>i p. p), ob_Stat = (\<lambda>i p. if p = ''sealed/s-t01000-7'' then Inr 2048 else Inr 10)\<rparr>,
     pg_SectorSize = (\<lambda>_. Inr 2048), pg_NewIDAddress = (\<lambda>i. Inr (IDAddress i)), pg_SectorGetInfo = (\<lambda>_ _. Inr (Some \<lparr>sg_SealedCID = ''r'', sg_SectorKeyCID = None\<rparr>)),
     pg_Vanilla = (\<lambda>_ _. Inr []), pg_Undef = []\<rparr>"

definition demo_proving_state :: proving_state where
  "demo_proving_state = \<lparr>pg_index = \<lparr>ix_normal = \<lparr>kv_data = [(''m-1000-n-7'', ''s1'')], kv_script = []\<rparr>, ix_upgrade = empty_store\<rparr>, pg_smgr = demo_mgr\<rparr>"

definition demo_extended :: extended_sector where
  "demo_extended = \<lparr>xs_SealProof = 5, xs_SectorNumber = 7, xs_SealedCID = ''r'', xs_SectorKey = None\<rparr>"

lemma demo_Provable:
  "Provable demo_proving_env (\<lambda>_. 3) (\<lambda>_. False) 1000 1 [demo_extended] True False demo_proving_state = (Inr Map.empty, demo_proving_state)"
proof -
  have d: "dec64 1000 = ''1000''" "dec64 7 = ''7''" by code_simp+
  show ?thesis
    by (simp add: Provable_def SingleProvable_def SinglePrivateInfo_def getPrivateInfo_def getObjInstanceForSector_def locate_def
        index_Find_def GetInstance_def file_checks_def strict_check_def vanilla_check_def bad_map_def sector_ref_of_def Let_def d
        demo_proving_env_def demo_proving_state_def demo_extended_def CachedFilesForSectorSize_def ss2KiB_def SectorPath_def
        FormatSectorID_def path_join_def makeSectorKeySealedFile_def makeSectorKey_def makeSectorKeyForCacheDir_def)
qed

theorem unreported_sector_is_in_order_witness:
  "in_order demo_proving_env demo_proving_state (sector_ref_of 1000 demo_extended) False True False"
  using unreported_sector_is_in_order [OF demo_Provable] by (simp add: demo_extended_def)

end
