(* ===== verification/SnapUp_Commit.thy ===== *)
theory SnapUp_Commit
  imports Commit_Processors Event_Bus Sender_Selector Sector_Tracker
begin

text \<open>
  Committing upgraded sectors (\<open>modules/impl/sectors/snapup_commit.go\<close>). Every upgraded sector has a job that submits the
  replica update, waits for its message, waits until the chain has moved past the landing and then removes the files of
  the old replica and finalizes the sector. The messager, the chain node, the object stores and the deadline arithmetic of
  the miner actor are parameters. A round of a job is \<open>None\<close> while it has not returned: the search for a free message identifier
  has no bound, and \<open>landed\<close> waits for the event bus.
\<close>

section \<open>Data\<close>

record update_manifest =
  um_Sector :: u64
  um_Deadline :: u64
  um_Partition :: u64
  um_NewSealedCID :: cid
  um_Pieces :: "piece_manifest list"

record update_params =
  upd_SectorUpdates :: "update_manifest list"
  upd_SectorProofs :: "bytes list"
  upd_UpdateProofsType :: int
  upd_RequireActivationSuccess :: bool
  upd_RequireNotificationSuccess :: bool

record snap_message =
  sq_State :: message_state
  sq_Confidence :: int
  sq_Receipt :: "receipt option"
  sq_TipSetKey :: tipset

text \<open>An error of a round: a \<open>snapupCommitTempError\<close> with the time to wait, or any other error. A panic ends the
  process; it is \<open>Permanent\<close> here.\<close>

datatype fault = Temporary err duration | Permanent err

record snap_env =
  sn_pe :: proc_env
  sn_lo :: lo_lib
  sn_select :: "u64 \<Rightarrow> address list \<Rightarrow> address res"
  sn_SectorPartition :: "address \<Rightarrow> u64 \<Rightarrow> tipset \<Rightarrow> sector_location option res"
  sn_UpdateProof :: "seal_proof \<Rightarrow> int res"
  sn_PeriodStart :: "address \<Rightarrow> tipset \<Rightarrow> epoch res"
  sn_NextNotElapsed :: "epoch \<Rightarrow> u64 \<Rightarrow> epoch \<Rightarrow> epoch \<times> epoch"
  sn_WPoStChallengeWindow :: epoch
  sn_BlockDelaySecs :: u64
  sn_MarshalUpdates :: "update_params \<Rightarrow> bytes res"
  sn_MsgCid :: "chain_message \<Rightarrow> string"
  sn_SectorExpiration :: "address \<Rightarrow> u64 \<Rightarrow> tipset \<Rightarrow> epoch option res"
  sn_GetMessageByUid :: "sent \<Rightarrow> string \<Rightarrow> snap_message res"
  sn_TipSetHeight :: "tipset \<Rightarrow> epoch res"
  sn_sort :: "unit bus \<Rightarrow> unit bus"
  sn_stores :: store_manager
  sn_objects :: object_lib
  sn_Del :: "(string \<times> string) list \<Rightarrow> string \<Rightarrow> string \<Rightarrow> unit res"

abbreviation sn_cfg :: "snap_env \<Rightarrow> safe_config" where
  "sn_cfg env \<equiv> ce_cfg (pe_env (sn_pe env))"

text \<open>The stores a job works on, the objects deleted so far and the messages pushed.\<close>

record committer =
  ct_smgr :: state_mgr
  ct_index :: indexer
  ct_deleted :: "(string \<times> string) list"
  ct_sent :: sent

text \<open>What a round leaves: the error, the handler's copy of the sector's state and the stores.\<close>

type_synonym handled = "fault option \<times> sector_state \<times> committer"

section \<open>Submitting\<close>

definition deadlineIsMutable :: "snap_env \<Rightarrow> epoch \<Rightarrow> u64 \<Rightarrow> epoch \<Rightarrow> epoch \<Rightarrow> bool \<times> epoch" where
  "deadlineIsMutable env periodStart deadlineIdx currentEpoch msgExecInterval =
    (case sn_NextNotElapsed env periodStart deadlineIdx currentEpoch of (opens, closes) \<Rightarrow>
       if currentEpoch < opens - sn_WPoStChallengeWindow env - msgExecInterval then (True, 0)
       else (False, closes - currentEpoch))"

text \<open>\<open>time.Duration(BlockDelaySecs*uint64(delayBlock)) * time.Second\<close> in 64 bits.\<close>

definition delay_time :: "u64 \<Rightarrow> epoch \<Rightarrow> duration" where
  "delay_time blockDelaySecs delayBlock = sint (blockDelaySecs * word_of_int delayBlock * 1000000000)"

definition sum_deals :: "sector_piece list \<Rightarrow> u64" where
  "sum_deals ps = fold (\<lambda>p acc. if HasDealInfo p then acc + pi_Size (PieceInfo p) else acc) ps 0"

definition calcCollateral :: "snap_env \<Rightarrow> sector_state \<Rightarrow> address \<Rightarrow> tipset \<times> epoch \<Rightarrow> int res" where
  "calcCollateral env h maddr ts = (case ts of (key, height) \<Rightarrow>
     (case sn_SectorExpiration env maddr (sid_Number (ss_ID h)) key of
        Inl e \<Rightarrow> Inl (Wrap ''StateSectorGetInfo'' e)
      | Inr None \<Rightarrow> Inl (Errorf ''on chain info was nil'')
      | Inr (Some expiration) \<Rightarrow> (case ca_SectorSize (pe_ca (sn_pe env)) (ss_SectorType h) of
          Inl e \<Rightarrow> Inl (Wrap ''failed get sector size'' e)
        | Inr ssize \<Rightarrow> (case ca_StateNetworkVersion (pe_ca (sn_pe env)) (Some key) of
            Inl e \<Rightarrow> Inl (Wrap ''getting network version'' e)
          | Inr nv \<Rightarrow> map_err (Wrap ''getting initial pledge collateral'')
              (ca_InitialPledgeForSector (pe_ca (sn_pe env)) (expiration - height) ssize
                 (VerifiedSectorSize nv ssize (sum_deals (SectorPiece h))) key)))))"

text \<open>The search for an identifier the messager does not know.\<close>

definition uid_at :: "string \<Rightarrow> nat \<Rightarrow> string" where
  "uid_at mcid i = mcid @ ''-'' @ dec i"

partial_function (option) find_uid :: "messager \<Rightarrow> sent \<Rightarrow> string \<Rightarrow> nat \<Rightarrow> string res option" where
  "find_uid ms sent mcid i = (case ms_HasMessageByUid ms sent (uid_at mcid i) of
     Inl e \<Rightarrow> Some (Inl e)
   | Inr has \<Rightarrow> if \<not> has then Some (Inr (uid_at mcid i)) else find_uid ms sent mcid (Suc i))"

definition update_params_of :: "miner_config \<Rightarrow> sector_state \<Rightarrow> sector_location \<Rightarrow> sector_upgraded_info \<Rightarrow> piece_manifest list \<Rightarrow> int \<Rightarrow> update_params" where
  "update_params_of mcfg h sl ui pams updateProof =
    \<lparr>upd_SectorUpdates = [\<lparr>um_Sector = sid_Number (ss_ID h), um_Deadline = lo_Deadline sl, um_Partition = lo_Partition sl,
       um_NewSealedCID = ui_SealedCID ui, um_Pieces = pams\<rparr>],
     upd_SectorProofs = [ui_Proof ui], upd_UpdateProofsType = updateProof,
     upd_RequireActivationSuccess = msl_RequireActivationSuccessUpdate (mc_Sealing mcfg),
     upd_RequireNotificationSuccess = msl_RequireNotificationSuccessUpdate (mc_Sealing mcfg)\<rparr>"

text \<open>Everything before the message is handed over: a fault, the answer \<open>None\<close> when \<open>StateSectorPartition\<close> fails (the round
  ends without an error), or the message.\<close>

definition build_message :: "snap_env \<Rightarrow> miner_config \<Rightarrow> sector_state \<Rightarrow> address \<Rightarrow> fault + chain_message option" where
  "build_message env mcfg h maddr =
    (let wait = mrc_APIFailureWait (msu_Retry (mc_SnapUp mcfg)) in
     if \<not> msu_Enabled (mc_SnapUp mcfg) then Inl (Permanent (Errorf ''snapup disabled''))
     else case sn_select env (sid_Miner (ss_ID h)) (snapup_GetSenders (sn_lo env) (mc_SnapUp mcfg)) of
       Inl e \<Rightarrow> Inl (Permanent (Wrap ''select sender'' e))
     | Inr src \<Rightarrow> (case sa_ChainHead (ce_api (pe_env (sn_pe env))) of
         Inl e \<Rightarrow> Inl (Temporary (Wrap ''get chain head'' e) wait)
       | Inr ts \<Rightarrow> (case sn_SectorPartition env maddr (sid_Number (ss_ID h)) (fst ts) of
           Inl e \<Rightarrow> Inr None
         | Inr sl \<Rightarrow> (case sn_UpdateProof env (ss_SectorType h) of
             Inl e \<Rightarrow> Inl (Permanent (Wrap ''get registered update proof type'' e))
           | Inr updateProof \<Rightarrow> (case sn_PeriodStart env maddr (fst ts) of
               Inl e \<Rightarrow> Inl (Temporary (Wrap ''get proving deadline'' e) wait)
             | Inr periodStart \<Rightarrow> (case sl of
                 None \<Rightarrow> Inl (Permanent (Panic ''invalid memory address or nil pointer dereference''))
               | Some loc \<Rightarrow> (case deadlineIsMutable env periodStart (lo_Deadline loc) (snd ts) 10 of
                   (False, delayBlock) \<Rightarrow> Inl (Temporary (Errorf ''cannot upgrade sectors in immutable deadline'')
                        (delay_time (sn_BlockDelaySecs env) delayBlock))
                 | (True, _) \<Rightarrow> (case ProcessPieces (sn_pe env) h of
                     Inl e \<Rightarrow> Inl (if is_panic e then Permanent e else Temporary (Wrap ''failed to process pieces'' e) wait)
                   | Inr (pams, _) \<Rightarrow> (case ss_UpgradedInfo h of
                       None \<Rightarrow> Inl (Permanent (Panic ''invalid memory address or nil pointer dereference''))
                     | Some ui \<Rightarrow> (case sn_MarshalUpdates env (update_params_of mcfg h loc ui pams updateProof) of
                         Inl e \<Rightarrow> Inl (Permanent (Wrap ''serialize params'' e))
                       | Inr enc \<Rightarrow> (case (if msu_SendFund (mc_SnapUp mcfg) then calcCollateral env h maddr ts else Inr 0) of
                           Inl e \<Rightarrow> Inl (Temporary e wait)
                         | Inr msgValue \<Rightarrow> Inr (Some (message_of maddr src msgValue ProveReplicaUpdates3
                               (msu_FeeConfig (mc_SnapUp mcfg)) enc)))))))))))))"

definition push_update :: "snap_env \<Rightarrow> miner_config \<Rightarrow> sector_state \<Rightarrow> chain_message \<Rightarrow> committer \<Rightarrow> handled option" where
  "push_update env mcfg h msg ct =
    (let rc = msu_Retry (mc_SnapUp mcfg); ms = pe_ms (sn_pe env); spec = GetSendSpec (msu_FeeConfig (mc_SnapUp mcfg)) in
     case find_uid ms (ct_sent ct) (sn_MsgCid env msg) 0 of
       None \<Rightarrow> None
     | Some (Inl e) \<Rightarrow> Some (Some (Temporary (Wrap ''check if message exists'' e) (mrc_APIFailureWait rc)), h, ct)
     | Some (Inr mcid) \<Rightarrow> (case ms_PushMessageWithId ms (ct_sent ct) mcid msg spec of (r, took) \<Rightarrow>
         (let ct1 = (if took then ct\<lparr>ct_sent := ct_sent ct @ [(mcid, msg, spec)]\<rparr> else ct) in
          case r of
            Inl e \<Rightarrow> Some (Some (Temporary (Wrap ''push ProveReplicaUpdates message'' e) (mrc_APIFailureWait rc)), h, ct1)
          | Inr uid \<Rightarrow> (case Update (ss_ID h) WorkerOnline [FUpgradeMessageID (Some uid)] (ct_smgr ct1) of
              (Inl e, sm) \<Rightarrow> Some (Some (Temporary (Wrap ''update UpgradeMessageID'' e) (mrc_LocalFailureWait rc)), h, ct1\<lparr>ct_smgr := sm\<rparr>)
            | (Inr _, sm) \<Rightarrow> Some (None, h\<lparr>ss_UpgradeMessageID := Some uid\<rparr>, ct1\<lparr>ct_smgr := sm\<rparr>)))))"

definition submitMessage :: "snap_env \<Rightarrow> address \<Rightarrow> sector_state \<Rightarrow> committer \<Rightarrow> handled option" where
  "submitMessage env maddr h ct = (case MinerConfig (sn_cfg env) (sid_Miner (ss_ID h)) of
     Inl e \<Rightarrow> Some (Some (Permanent (Wrap ''get miner config'' e)), h, ct)
   | Inr mcfg \<Rightarrow> (case build_message env mcfg h maddr of
       Inl f \<Rightarrow> Some (Some f, h, ct)
     | Inr None \<Rightarrow> Some (None, h, ct)
     | Inr (Some msg) \<Rightarrow> push_update env mcfg h msg ct))"

section \<open>Waiting for the message\<close>

text \<open>The verdict on the message: a fault, the request to send it again, or the tipset it landed in.\<close>

datatype verdict = Failing fault | Resend | LandedIn tipset

definition judge_message :: "miner_snapup_config \<Rightarrow> snap_message \<Rightarrow> verdict" where
  "judge_message su msg = (let poll = mrc_PollInterval (msu_Retry su) in
     case sq_State msg of
       FailedMsg \<Rightarrow> Failing (Permanent (Errorf ''failed off-chain message''))
     | OtherMsg _ \<Rightarrow> Failing (Temporary (Errorf ''pending msg'') poll)
     | _ \<Rightarrow>
        if sq_Confidence msg < GetMessageConfidence su then Failing (Temporary (Errorf ''msg not landed'') poll)
        else (case sq_Receipt msg of
            None \<Rightarrow> Failing (Temporary (Errorf ''msg without receipt'') poll)
          | Some rc \<Rightarrow> (case rc_ExitCode rc of
              ExitOk \<Rightarrow> if sq_TipSetKey msg = [] then Failing (Temporary (Errorf ''get empty tipset key'') poll)
                else LandedIn (sq_TipSetKey msg)
            | SysErrInsufficientFunds \<Rightarrow> Resend
            | SysErrOutOfGas \<Rightarrow> Resend
            | _ \<Rightarrow> Failing (Permanent (Errorf ''failed on-chain message'')))))"

text \<open>To send a message again the code forgets the identifier in the handler and passes the whole state as a field
  value to \<open>Update\<close>, which has no field of that type.\<close>

definition waitForMessage :: "snap_env \<Rightarrow> sector_state \<Rightarrow> committer \<Rightarrow> handled" where
  "waitForMessage env h ct = (case MinerConfig (sn_cfg env) (sid_Miner (ss_ID h)) of
     Inl e \<Rightarrow> (Some (Permanent (Wrap ''get miner config'' e)), h, ct)
   | Inr mcfg \<Rightarrow> (let su = mc_SnapUp mcfg; rc = msu_Retry su in
      case ss_UpgradeMessageID h of
        None \<Rightarrow> (Some (Permanent (Panic ''invalid memory address or nil pointer dereference'')), h, ct)
      | Some msgID \<Rightarrow> (case sn_GetMessageByUid env (ct_sent ct) msgID of
          Inl e \<Rightarrow> (Some (Temporary e (mrc_APIFailureWait rc)), h, ct)
        | Inr msg \<Rightarrow> (case judge_message su msg of
            Failing f \<Rightarrow> (Some f, h, ct)
          | Resend \<Rightarrow> (case Update (ss_ID h) WorkerOnline [FOther ''*core.SectorState''] (ct_smgr ct) of
              (Inl e, sm) \<Rightarrow> (Some (Temporary (Wrap ''update sector state'' e) (mrc_LocalFailureWait rc)),
                 h\<lparr>ss_UpgradeMessageID := None\<rparr>, ct\<lparr>ct_smgr := sm\<rparr>)
            | (Inr _, sm) \<Rightarrow> (Some (Temporary (Errorf ''msg temp error'') (mrc_PollInterval rc)),
                 h\<lparr>ss_UpgradeMessageID := None\<rparr>, ct\<lparr>ct_smgr := sm\<rparr>))
          | LandedIn key \<Rightarrow> (case sn_TipSetHeight env key of
              Inl e \<Rightarrow> (Some (Temporary (Wrap ''get tipset'' e) (mrc_APIFailureWait rc)), h, ct)
            | Inr height \<Rightarrow> (case Update (ss_ID h) WorkerOnline [FUpgradeLandedEpoch (Some height)] (ct_smgr ct) of
                (Inl e, sm) \<Rightarrow> (Some (Temporary (Wrap ''update sector state'' e) (mrc_LocalFailureWait rc)), h, ct\<lparr>ct_smgr := sm\<rparr>)
              | (Inr _, sm) \<Rightarrow> (None, h\<lparr>ss_UpgradeLandedEpoch := Some height\<rparr>, ct\<lparr>ct_smgr := sm\<rparr>)))))))"

section \<open>After the landing\<close>

text \<open>The deletions of a group run in parallel; all of them run, and the group fails when one of them does.\<close>

fun del_files :: "snap_env \<Rightarrow> string \<Rightarrow> string list \<Rightarrow> (string \<times> string) list \<Rightarrow> unit res \<times> (string \<times> string) list" where
  "del_files env ins [] gone = (Inr (), gone)"
| "del_files env ins (uri # uris) gone =
    (let r = sn_Del env gone ins uri;
         gone1 = (case r of Inl e \<Rightarrow> gone | Inr _ \<Rightarrow> gone @ [(ins, uri)]);
         failed = (case r of Inl e \<Rightarrow> \<not> errors_is e ErrObjectNotFound | Inr _ \<Rightarrow> False)
     in case del_files env ins uris gone1 of
          (q, gone2) \<Rightarrow> (if failed then Inl (Errorf ''attempt to del obj'') else q, gone2))"

fun cleanup_targets :: "snap_env \<Rightarrow> (string \<times> string list) list \<Rightarrow> (string \<times> string) list \<Rightarrow> unit res \<times> (string \<times> string) list" where
  "cleanup_targets env [] gone = (Inr (), gone)"
| "cleanup_targets env ((ins, uris) # ts) gone = (case GetInstance (sn_stores env) ins of
     Inl e \<Rightarrow> (Inl (Wrap ''get store instance'' e), gone)
   | Inr st \<Rightarrow> (case del_files env (st_Instance st) uris gone of
       (Inl e, gone1) \<Rightarrow> (Inl e, gone1)
     | (Inr _, gone1) \<Rightarrow> cleanup_targets env ts gone1))"

definition cc_targets :: "private_info \<Rightarrow> u64 \<Rightarrow> (string \<times> string list) list" where
  "cc_targets p ssize = [(ac_SealedFile (pvt_Accesses p), [pvt_SealedSectorURI p]),
     (ac_CacheDir (pvt_Accesses p), CachedFilesForSectorSize (pvt_CacheDirURI p) ssize)]"

definition cleanupForSector :: "snap_env \<Rightarrow> u64 \<Rightarrow> sector_state \<Rightarrow> (committer, unit) step" where
  "cleanupForSector env ssize h ct = (case MinerConfig (sn_cfg env) (sid_Miner (ss_ID h)) of
     Inl e \<Rightarrow> (Inl (Wrap ''get miner config'' e), ct)
   | Inr mcfg \<Rightarrow> if \<not> msu_CleanupCCData (mc_SnapUp mcfg) then (Inr (), ct)
       else (case SinglePrivateInfo (sn_objects env) (sn_stores env) \<lparr>ref_ID = ss_ID h, ref_ProofType = ss_SectorType h\<rparr> False None (ct_index ct) of
           (Inl e, ix) \<Rightarrow> (Inl (Wrap ''get private info from tracker'' e), ct\<lparr>ct_index := ix\<rparr>)
         | (Inr p, ix) \<Rightarrow> (case cleanup_targets env (cc_targets p ssize) (ct_deleted ct) of
             (r, gone) \<Rightarrow> (r, ct\<lparr>ct_index := ix, ct_deleted := gone\<rparr>))))"

text \<open>The callback \<open>landed\<close> registers, and whether the head \<open>head\<close> starts it. While it has not run, \<open>landed\<close> waits.\<close>

definition landed_callback :: "snap_env \<Rightarrow> u64 \<Rightarrow> sector_state \<Rightarrow> (committer, unit) step" where
  "landed_callback env ssize h ct = (case cleanupForSector env ssize h ct of
     (Inl e, ct1) \<Rightarrow> (Inl (Wrap ''cleanup data before upgrading'' e), ct1)
   | (Inr _, ct1) \<Rightarrow> (case Finalize (ss_ID h) (None :: unit hook option) (ct_smgr ct1, ()) of
       (Inl e, sm, _) \<Rightarrow> (Inl (Wrap ''finalize sector'' e), ct1\<lparr>ct_smgr := sm\<rparr>)
     | (Inr _, sm, _) \<Rightarrow> (Inr (), ct1\<lparr>ct_smgr := sm\<rparr>)))"

definition callback_started :: "snap_env \<Rightarrow> miner_config \<Rightarrow> epoch \<Rightarrow> epoch \<Rightarrow> bool" where
  "callback_started env mcfg landedAt head =
    (fst (bus_tick (Inr (Some head)) (At (sn_sort env) (landedAt + np_ChainFinality (ce_np (pe_env (sn_pe env))))
       (GetReleaseConfidence (mc_SnapUp mcfg)) (Some ()) [])) \<noteq> [])"

definition landed :: "snap_env \<Rightarrow> epoch \<Rightarrow> u64 \<Rightarrow> epoch \<Rightarrow> sector_state \<Rightarrow> committer \<Rightarrow> handled option" where
  "landed env head ssize landedAt h ct = (case MinerConfig (sn_cfg env) (sid_Miner (ss_ID h)) of
     Inl e \<Rightarrow> Some (Some (Permanent (Wrap ''get miner config'' e)), h, ct)
   | Inr mcfg \<Rightarrow> if \<not> callback_started env mcfg landedAt head then None
       else (case landed_callback env ssize h ct of
           (Inl e, ct1) \<Rightarrow> Some (Some (Temporary e 0), h, ct1)
         | (Inr _, ct1) \<Rightarrow> Some (None, h, ct1)))"

section \<open>A round\<close>

text \<open>\<open>handle\<close> says also whether the job is finished.\<close>

definition handle :: "snap_env \<Rightarrow> epoch \<Rightarrow> address \<Rightarrow> u64 \<Rightarrow> sector_state \<Rightarrow> committer \<Rightarrow> (bool \<times> handled) option" where
  "handle env head maddr ssize h ct =
    (if ss_UpgradePublic h = None then Some (False, Some (Permanent (Errorf ''public info missing'')), h, ct)
     else if ss_UpgradedInfo h = None then Some (False, Some (Permanent (Errorf ''sector still in progress'')), h, ct)
     else case ss_UpgradeLandedEpoch h of
       Some landedAt \<Rightarrow> map_option (\<lambda>(f, h1, ct1). (f = None, f, h1, ct1)) (landed env head ssize landedAt h ct)
     | None \<Rightarrow> if ss_UpgradeMessageID h \<noteq> None then Some (False, waitForMessage env h ct)
         else map_option (Pair False) (submitMessage env maddr h ct))"

section \<open>A job\<close>

text \<open>What \<open>commitSector\<close> does before its loop; \<open>None\<close> when the job ends there.\<close>

definition commit_prologue :: "snap_env \<Rightarrow> sector_state \<Rightarrow> committer \<Rightarrow> (address \<times> u64) option \<times> committer" where
  "commit_prologue env h ct = (case cl_NewIDAddress (ce_lib (pe_env (sn_pe env))) (sid_Miner (ss_ID h)) of
     Inl e \<Rightarrow> (None, ct)
   | Inr maddr \<Rightarrow> (case ca_SectorSize (pe_ca (sn_pe env)) (ss_SectorType h) of
       Inl e \<Rightarrow> (None, ct)
     | Inr ssize \<Rightarrow> (case ss_UpgradedInfo h of
         None \<Rightarrow> (None, ct)
       | Some ui \<Rightarrow> (case index_Update (ss_ID h) \<lparr>ac_SealedFile = ui_AccessInstance ui, ac_CacheDir = ui_AccessInstance ui\<rparr> (ix_upgrade (ct_index ct)) of
           (Inl e, kv) \<Rightarrow> (None, ct\<lparr>ct_index := (ct_index ct)\<lparr>ix_upgrade := kv\<rparr>\<rparr>)
         | (Inr _, kv) \<Rightarrow> (Some (maddr, ssize), ct\<lparr>ct_index := (ct_index ct)\<lparr>ix_upgrade := kv\<rparr>\<rparr>)))))"

definition second :: duration where
  "second = 1000000000"

text \<open>After a round: the new count of attempts and the time to wait, or \<open>None\<close> when the job ends.\<close>

definition after_round :: "safe_config \<Rightarrow> u64 \<Rightarrow> int \<Rightarrow> bool \<Rightarrow> fault option \<Rightarrow> (int \<times> duration) option" where
  "after_round cfg miner retried finished f = (case f of
     None \<Rightarrow> if finished then None else Some (0, 30 * second)
   | Some (Permanent e) \<Rightarrow> None
   | Some (Temporary e delay) \<Rightarrow> (case MinerConfig cfg miner of
       Inl e \<Rightarrow> None
     | Inr mcfg \<Rightarrow> (case mrc_MaxAttempts (msu_Retry (mc_SnapUp mcfg)) of
         Some mx \<Rightarrow> if retried \<ge> mx then None else Some (retried + 1, if delay > 0 then delay else 30 * second)
       | None \<Rightarrow> Some (retried + 1, if delay > 0 then delay else 30 * second))))"

text \<open>The loop over the rounds of a job, each with what the world outside answers and the chain's head in it. The result says whether the job
  has ended and lists the outcomes of the rounds; \<open>None\<close> when a round has not returned.\<close>

fun job_rounds :: "(snap_env \<times> epoch) list \<Rightarrow> address \<Rightarrow> u64 \<Rightarrow> int \<Rightarrow> sector_state \<Rightarrow> committer \<Rightarrow>
    (bool \<times> fault option list \<times> sector_state \<times> committer) option" where
  "job_rounds [] maddr ssize retried h ct = Some (False, [], h, ct)"
| "job_rounds ((env, head) # rounds) maddr ssize retried h ct = (case handle env head maddr ssize h ct of
     None \<Rightarrow> None
   | Some (finished, f, h1, ct1) \<Rightarrow> (case after_round (sn_cfg env) (sid_Miner (ss_ID h)) retried finished f of
       None \<Rightarrow> Some (True, [f], h1, ct1)
     | Some (retried1, _) \<Rightarrow> map_option (\<lambda>(ended, fs, r). (ended, f # fs, r)) (job_rounds rounds maddr ssize retried1 h1 ct1)))"

section \<open>The committer\<close>

text \<open>The map \<open>jobs\<close> holds the cancel function of a job, which is the job's number here. A job is ready once its prologue is done.\<close>

record snap_job =
  jb_state :: sector_state
  jb_ready :: "(address \<times> u64) option"
  jb_retried :: int
  jb_cancelled :: bool

record snap_sys =
  sy_ct :: committer
  sy_jobs :: "sector_id \<rightharpoonup> nat"
  sy_run :: "nat \<rightharpoonup> snap_job"
  sy_next :: nat

definition spawn :: "nat \<Rightarrow> sector_state \<Rightarrow> snap_sys \<Rightarrow> snap_sys" where
  "spawn i st sys = sys\<lparr>sy_run := (sy_run sys)(i \<mapsto> \<lparr>jb_state = st, jb_ready = None, jb_retried = 0, jb_cancelled = False\<rparr>)\<rparr>"

definition add_entry :: "sector_id \<Rightarrow> snap_sys \<Rightarrow> snap_sys" where
  "add_entry sid sys = sys\<lparr>sy_jobs := (sy_jobs sys)(sid \<mapsto> sy_next sys), sy_next := Suc (sy_next sys)\<rparr>"

definition start_one :: "sector_state \<Rightarrow> (snap_sys, unit) step" where
  "start_one st sys = (if \<not> ss_Upgraded st then (Inr (), sys)
     else (Inr (), spawn (sy_next sys) st (add_entry (ss_ID st) sys)))"

definition with_ct_smgr :: "state_mgr \<Rightarrow> snap_sys \<Rightarrow> snap_sys" where
  "with_ct_smgr sm sys = sys\<lparr>sy_ct := (sy_ct sys)\<lparr>ct_smgr := sm\<rparr>\<rparr>"

definition snap_Start :: "(snap_sys, unit) step" where
  "snap_Start sys = (case ForEach WorkerOnline JobSnapUp start_one (ct_smgr (sy_ct sys), sys) of
     (r, sm, sys1) \<Rightarrow> (r, with_ct_smgr sm sys1))"

definition snap_Commit :: "sector_id \<Rightarrow> (snap_sys, unit) step" where
  "snap_Commit sid sys = (if sy_jobs sys sid \<noteq> None then (Inl (Errorf ''duplicate commit job''), sys)
     else (let sys1 = add_entry sid sys in
       case Load sid WorkerOnline (ct_smgr (sy_ct sys1)) of
         (Inl e, sm) \<Rightarrow> (Inl (Wrap ''load sector state'' e), with_ct_smgr sm sys1)
       | (Inr st, sm) \<Rightarrow> if \<not> ss_Upgraded st then (Inl (Errorf ''sector is not upgraded''), with_ct_smgr sm sys1)
           else (Inr (), spawn (sy_next sys) st (with_ct_smgr sm sys1))))"

definition CancelCommitment :: "sector_id \<Rightarrow> snap_sys \<Rightarrow> snap_sys" where
  "CancelCommitment sid sys = (case sy_jobs sys sid of
     None \<Rightarrow> sys
   | Some i \<Rightarrow> sys\<lparr>sy_jobs := (sy_jobs sys)(sid := None),
       sy_run := (sy_run sys)(i := map_option (\<lambda>j. j\<lparr>jb_cancelled := True\<rparr>) (sy_run sys i))\<rparr>)"

text \<open>The end of a job runs the deferred deletion of its sector's entry, whichever job the entry belongs to.\<close>

definition job_exit :: "nat \<Rightarrow> snap_job \<Rightarrow> snap_sys \<Rightarrow> snap_sys" where
  "job_exit i job sys = sys\<lparr>sy_run := (sy_run sys)(i := None), sy_jobs := (sy_jobs sys)(ss_ID (jb_state job) := None)\<rparr>"

definition upjob_step :: "snap_env \<Rightarrow> epoch \<Rightarrow> nat \<Rightarrow> snap_sys \<Rightarrow> snap_sys option" where
  "upjob_step env head i sys = (case sy_run sys i of
     None \<Rightarrow> None
   | Some job \<Rightarrow> (case jb_ready job of
       None \<Rightarrow> (case commit_prologue env (jb_state job) (sy_ct sys) of
           (None, ct) \<Rightarrow> Some (job_exit i job (sys\<lparr>sy_ct := ct\<rparr>))
         | (Some ready, ct) \<Rightarrow> Some (sys\<lparr>sy_ct := ct, sy_run := (sy_run sys)(i \<mapsto> job\<lparr>jb_ready := Some ready\<rparr>)\<rparr>))
     | Some (maddr, ssize) \<Rightarrow> (case handle env head maddr ssize (jb_state job) (sy_ct sys) of
           None \<Rightarrow> None
         | Some (finished, f, h1, ct1) \<Rightarrow>
            (case after_round (sn_cfg env) (sid_Miner (ss_ID (jb_state job))) (jb_retried job) finished f of
               None \<Rightarrow> Some (job_exit i job (sys\<lparr>sy_ct := ct1\<rparr>))
             | Some (retried1, _) \<Rightarrow> Some (sys\<lparr>sy_ct := ct1,
                 sy_run := (sy_run sys)(i \<mapsto> job\<lparr>jb_state := h1, jb_retried := retried1\<rparr>)\<rparr>)))))"

text \<open>A job that sees its context done between two rounds ends.\<close>

definition job_stop :: "nat \<Rightarrow> snap_sys \<Rightarrow> snap_sys option" where
  "job_stop i sys = (case sy_run sys i of
     None \<Rightarrow> None
   | Some job \<Rightarrow> if jb_cancelled job \<and> jb_ready job \<noteq> None then Some (job_exit i job sys) else None)"

text \<open>The committer's histories. Between two steps other components may change the stores.\<close>

datatype snap_event = EvCommit sector_id | EvCancel sector_id | EvRound snap_env epoch nat | EvStop nat | EvWorld committer

fun snap_event_step :: "snap_event \<Rightarrow> snap_sys \<Rightarrow> snap_sys option" where
  "snap_event_step (EvCommit sid) sys = Some (snd (snap_Commit sid sys))"
| "snap_event_step (EvCancel sid) sys = Some (CancelCommitment sid sys)"
| "snap_event_step (EvRound env head i) sys = upjob_step env head i sys"
| "snap_event_step (EvStop i) sys = job_stop i sys"
| "snap_event_step (EvWorld ct) sys = Some (sys\<lparr>sy_ct := ct\<rparr>)"

fun snap_history :: "snap_event list \<Rightarrow> snap_sys \<Rightarrow> snap_sys option" where
  "snap_history [] sys = Some sys"
| "snap_history (ev # evs) sys = (case snap_event_step ev sys of None \<Rightarrow> None | Some sys1 \<Rightarrow> snap_history evs sys1)"

fun is_cancel :: "snap_event \<Rightarrow> bool" where
  "is_cancel (EvCancel _) = True"
| "is_cancel _ = False"

definition fresh_sys :: "snap_sys \<Rightarrow> bool" where
  "fresh_sys sys = (sy_jobs sys = Map.empty \<and> sy_run sys = Map.empty)"

section \<open>Lemmas\<close>

lemma waitForMessage_ID: "waitForMessage env h ct = (f, h1, ct1) \<Longrightarrow> ss_ID h1 = ss_ID h"
  by (auto simp: waitForMessage_def Let_def split: sum.splits option.splits verdict.splits prod.splits)

lemma push_update_ID: "push_update env mcfg h msg ct = Some (f, h1, ct1) \<Longrightarrow> ss_ID h1 = ss_ID h"
  by (auto simp: push_update_def Let_def split: sum.splits option.splits prod.splits)

lemma submitMessage_ID: "submitMessage env maddr h ct = Some (f, h1, ct1) \<Longrightarrow> ss_ID h1 = ss_ID h"
  by (auto simp: submitMessage_def dest: push_update_ID split: sum.splits option.splits)

lemma landed_keeps: "landed env head ssize landedAt h ct = Some (f, h1, ct1) \<Longrightarrow> h1 = h"
  by (auto simp: landed_def split: sum.splits if_splits prod.splits)

lemma handle_ID:
  assumes "handle env head maddr ssize h ct = Some (fin, f, h1, ct1)"
  shows "ss_ID h1 = ss_ID h"
  using assms waitForMessage_ID [of env h ct f h1 ct1] submitMessage_ID [of env maddr h ct f h1 ct1] landed_keeps [of env head ssize _ h ct f h1 ct1]
  by (auto simp: handle_def split: if_splits option.splits)

text \<open>Without cancellations every running job is the one its sector's entry names.\<close>

definition entries_ok :: "snap_sys \<Rightarrow> bool" where
  "entries_ok sys = ((\<forall>i job. sy_run sys i = Some job \<longrightarrow> sy_jobs sys (ss_ID (jb_state job)) = Some i \<and> i < sy_next sys) \<and>
     (\<forall>sid i. sy_jobs sys sid = Some i \<longrightarrow> i < sy_next sys))"

lemma entries_ok_exit:
  assumes "entries_ok sys" "sy_run sys i = Some job"
  shows "entries_ok (job_exit i job (sys\<lparr>sy_ct := ct\<rparr>))"
proof -
  have own: "sy_jobs sys (ss_ID (jb_state job)) = Some i" using assms by (auto simp: entries_ok_def)
  have "ss_ID (jb_state job') \<noteq> ss_ID (jb_state job)" if "sy_run sys j = Some job'" "j \<noteq> i" for j job'
  proof
    assume "ss_ID (jb_state job') = ss_ID (jb_state job)"
    with own have "sy_jobs sys (ss_ID (jb_state job')) = Some i" by simp
    moreover have "sy_jobs sys (ss_ID (jb_state job')) = Some j" using assms(1) that by (simp add: entries_ok_def)
    ultimately show False using that(2) by simp
  qed
  with assms show ?thesis by (auto simp: entries_ok_def job_exit_def)
qed

lemma entries_ok_update:
  assumes "entries_ok sys" "sy_run sys i = Some job" "ss_ID (jb_state job1) = ss_ID (jb_state job)"
  shows "entries_ok (sys\<lparr>sy_ct := ct, sy_run := (sy_run sys)(i \<mapsto> job1)\<rparr>)"
  using assms by (auto simp: entries_ok_def)

lemma entries_ok_upjob_step:
  assumes "entries_ok sys" "upjob_step env head i sys = Some sys1"
  shows "entries_ok sys1"
proof -
  from assms(2) obtain job where job: "sy_run sys i = Some job" by (auto simp: upjob_step_def split: option.splits)
  show ?thesis
  proof (cases "jb_ready job")
    case None
    obtain r ct where "commit_prologue env (jb_state job) (sy_ct sys) = (r, ct)" by fastforce
    with assms None job entries_ok_exit [OF assms(1) job] entries_ok_update [OF assms(1) job, of "job\<lparr>jb_ready := r\<rparr>"] show ?thesis
      by (cases r) (auto simp: upjob_step_def)
  next
    case (Some ready)
    obtain maddr ssize where ready: "ready = (maddr, ssize)" by fastforce
    obtain fin f h1 ct1 where h: "handle env head maddr ssize (jb_state job) (sy_ct sys) = Some (fin, f, h1, ct1)"
      using assms(2) job Some ready by (auto simp: upjob_step_def split: option.splits)
    from handle_ID [OF h] have id: "ss_ID h1 = ss_ID (jb_state job)" .
    show ?thesis
    proof (cases "after_round (sn_cfg env) (sid_Miner (ss_ID (jb_state job))) (jb_retried job) fin f")
      case None
      with assms(2) job Some ready h entries_ok_exit [OF assms(1) job] show ?thesis by (simp add: upjob_step_def) blast
    next
      case (Some x)
      obtain retried w where "x = (retried, w)" by fastforce
      with assms(2) job \<open>jb_ready job = Some ready\<close> ready h Some
      have "sys1 = sys\<lparr>sy_ct := ct1, sy_run := (sy_run sys)(i \<mapsto> job\<lparr>jb_state := h1, jb_retried := retried\<rparr>)\<rparr>"
        by (simp add: upjob_step_def)
      with entries_ok_update [OF assms(1) job] id show ?thesis by simp
    qed
  qed
qed

lemma entries_ok_spawn:
  assumes "entries_ok sys" "sy_jobs sys (ss_ID st) = None"
  shows "entries_ok (spawn (sy_next sys) st (with_ct_smgr sm (add_entry (ss_ID st) sys)))"
proof -
  have "i < sy_next sys \<and> ss_ID (jb_state job) \<noteq> ss_ID st" if "sy_run sys i = Some job" for i job
    using assms that unfolding entries_ok_def by (metis option.distinct(1))
  with assms(1) show ?thesis by (fastforce simp: entries_ok_def spawn_def add_entry_def with_ct_smgr_def)
qed

lemma entries_ok_add:
  assumes "entries_ok sys" "sy_jobs sys sid = None"
  shows "entries_ok (with_ct_smgr sm (add_entry sid sys))"
proof -
  have "i < sy_next sys \<and> ss_ID (jb_state job) \<noteq> sid" if "sy_run sys i = Some job" for i job
    using assms that unfolding entries_ok_def by (metis option.distinct(1))
  with assms(1) show ?thesis by (fastforce simp: entries_ok_def add_entry_def with_ct_smgr_def)
qed

lemma entries_ok_Commit:
  assumes "entries_ok sys" "keyed (view (ct_smgr (sy_ct sys)))"
  shows "entries_ok (snd (snap_Commit sid sys)) \<and> keyed (view (ct_smgr (sy_ct (snd (snap_Commit sid sys)))))"
proof (cases "sy_jobs sys sid")
  case None
  obtain q sm where q: "Load sid WorkerOnline (ct_smgr (sy_ct sys)) = (q, sm)" by fastforce
  have ct: "sy_ct (add_entry sid sys) = sy_ct sys" by (simp add: add_entry_def)
  show ?thesis
  proof (cases q)
    case (Inl e)
    with q ct None smgr.load_InlD assms(2) have "snd (snap_Commit sid sys) = with_ct_smgr sm (add_entry sid sys)"
      "keyed (view sm)" by (auto simp: snap_Commit_def)
    with entries_ok_add [OF assms(1) None] show ?thesis by (simp add: with_ct_smgr_def)
  next
    case (Inr st)
    from smgr.load_InrD [OF q [unfolded Inr]] assms(2) have st: "ss_ID st = sid" "keyed (view sm)" by (auto simp: keyed_def)
    have "snd (snap_Commit sid sys) = (if \<not> ss_Upgraded st then with_ct_smgr sm (add_entry sid sys)
        else spawn (sy_next sys) st (with_ct_smgr sm (add_entry sid sys)))"
      using q ct None Inr by (simp add: snap_Commit_def)
    with entries_ok_add [OF assms(1) None] entries_ok_spawn [OF assms(1), of st] None st show ?thesis
      by (auto simp: with_ct_smgr_def spawn_def)
  qed
qed (use assms in \<open>simp add: snap_Commit_def\<close>)

lemma waitForMessage_keyed: "waitForMessage env h ct = (f, h1, ct1) \<Longrightarrow> keyed (view (ct_smgr ct)) \<Longrightarrow> keyed (view (ct_smgr ct1))"
  by (auto simp: waitForMessage_def Let_def intro: keyed_Update [rotated] split: sum.splits option.splits verdict.splits prod.splits)

lemma push_update_keyed: "push_update env mcfg h msg ct = Some (f, h1, ct1) \<Longrightarrow> keyed (view (ct_smgr ct)) \<Longrightarrow> keyed (view (ct_smgr ct1))"
  by (auto simp: push_update_def Let_def intro: keyed_Update [rotated] split: sum.splits option.splits prod.splits if_splits)

lemma cleanupForSector_smgr: "cleanupForSector env ssize h ct = (r, ct1) \<Longrightarrow> ct_smgr ct1 = ct_smgr ct \<and> ct_sent ct1 = ct_sent ct"
  by (auto simp: cleanupForSector_def split: sum.splits prod.splits if_splits)

lemma landed_keyed:
  assumes "landed env head ssize landedAt h ct = Some (f, h1, ct1)" "keyed (view (ct_smgr ct))"
  shows "keyed (view (ct_smgr ct1))"
proof -
  have hk: "hook_keeps_id (None :: unit hook option)" by (simp add: hook_keeps_id_def run_hook_def)
  obtain r ct2 where c: "cleanupForSector env ssize h ct = (r, ct2)" by fastforce
  obtain q sm u where fin: "Finalize (ss_ID h) (None :: unit hook option) (ct_smgr ct2, ()) = (q, sm, u)" by (metis prod_cases3)
  from cleanupForSector_smgr [OF c] keyed_Finalize [OF hk fin] assms(2) have "keyed (view (ct_smgr ct2))" "keyed (view sm)" by simp_all
  with assms c fin show ?thesis
    by (cases r; cases q) (auto simp: landed_def landed_callback_def split: sum.splits if_splits)
qed

lemma handle_keyed:
  assumes "handle env head maddr ssize h ct = Some (fin, f, h1, ct1)" "keyed (view (ct_smgr ct))"
  shows "keyed (view (ct_smgr ct1))"
  using assms waitForMessage_keyed [of env h ct f h1 ct1] push_update_keyed [of env _ h _ ct f h1 ct1] landed_keyed [of env head ssize _ h ct f h1 ct1]
  by (auto simp: handle_def submitMessage_def split: if_splits option.splits sum.splits)

lemma upjob_step_keyed:
  assumes "upjob_step env head i sys = Some sys1" "keyed (view (ct_smgr (sy_ct sys)))"
  shows "keyed (view (ct_smgr (sy_ct sys1)))"
proof -
  from assms(1) obtain job where job: "sy_run sys i = Some job" by (auto simp: upjob_step_def split: option.splits)
  show ?thesis
  proof (cases "jb_ready job")
    case None
    obtain r ct where p: "commit_prologue env (jb_state job) (sy_ct sys) = (r, ct)" by fastforce
    then have "ct_smgr ct = ct_smgr (sy_ct sys)" by (auto simp: commit_prologue_def split: sum.splits option.splits prod.splits)
    with assms None job p show ?thesis by (cases r) (auto simp: upjob_step_def job_exit_def)
  next
    case (Some ready)
    obtain maddr ssize where ready: "ready = (maddr, ssize)" by fastforce
    obtain fin f h1 ct1 where h: "handle env head maddr ssize (jb_state job) (sy_ct sys) = Some (fin, f, h1, ct1)"
      using assms(1) job Some ready by (auto simp: upjob_step_def split: option.splits)
    have "sy_ct sys1 = ct1"
      using assms(1) job Some ready h by (auto simp: upjob_step_def job_exit_def split: option.splits)
    with handle_keyed [OF h assms(2)] show ?thesis by simp
  qed
qed

fun world_keyed :: "snap_event \<Rightarrow> bool" where
  "world_keyed (EvWorld ct) = keyed (view (ct_smgr ct))"
| "world_keyed _ = True"

lemma history_entries_ok:
  assumes "snap_history evs sys = Some sys1" "entries_ok sys" "keyed (view (ct_smgr (sy_ct sys)))"
    "list_all world_keyed evs" "\<not> list_ex is_cancel evs"
  shows "entries_ok sys1"
  using assms
proof (induction evs arbitrary: sys)
  case (Cons ev evs)
  then obtain sys2 where s: "snap_event_step ev sys = Some sys2" "snap_history evs sys2 = Some sys1"
    by (auto split: option.splits)
  have "entries_ok sys2 \<and> keyed (view (ct_smgr (sy_ct sys2)))"
  proof (cases ev)
    case (EvCommit sid)
    with s(1) have "sys2 = snd (snap_Commit sid sys)" by simp
    with entries_ok_Commit [OF Cons.prems(2,3)] show ?thesis by blast
  next
    case (EvRound env head i)
    with s entries_ok_upjob_step [OF Cons.prems(2)] upjob_step_keyed [OF _ Cons.prems(3)] show ?thesis by auto
  next
    case (EvStop i)
    with s obtain job where job: "sy_run sys i = Some job" "sys2 = job_exit i job sys"
      by (auto simp: job_stop_def split: option.splits if_splits)
    with entries_ok_exit [OF Cons.prems(2) job(1), of "sy_ct sys"] Cons.prems(3) show ?thesis by (simp add: job_exit_def)
  next
    case (EvWorld ct)
    with s Cons.prems(2,4) show ?thesis by (auto simp: entries_ok_def)
  qed (use Cons.prems(5) in simp)
  with Cons.IH [OF s(2)] Cons.prems(4,5) show ?case by simp
qed simp

text \<open>The states \<open>Start\<close> finds.\<close>

definition stored_states :: "(key \<times> sector_state json) list \<Rightarrow> sector_state list" where
  "stored_states es = List.map_filter (\<lambda>(k, d). case d of Json st \<Rightarrow> Some st | Malformed _ \<Rightarrow> None) es"

lemma stored_states_Cons [simp]:
  "stored_states ((k, Json st) # es) = st # stored_states es" "stored_states ((k, Malformed b) # es) = stored_states es"
  by (simp_all add: stored_states_def List.map_filter_simps)

lemma foreach_start:
  assumes "foreach_states JobSnapUp start_one es (kv, sys) = (r, kv1, sys1)" "entries_ok sys"
    "distinct (map ss_ID (stored_states es))" "\<forall>st \<in> set (stored_states es). sy_jobs sys (ss_ID st) = None"
  shows "entries_ok sys1 \<and> sy_ct sys1 = sy_ct sys"
  using assms
proof (induction es arbitrary: kv sys)
  case (Cons e es)
  obtain k d where e: "e = (k, d)" by fastforce
  show ?case
  proof (cases "iter_View d unmarshal kv")
    case (Pair q kv2)
    show ?thesis
    proof (cases q)
      case (Inl x)
      with Pair Cons.prems(1,2) e show ?thesis by simp
    next
      case (Inr st)
      with Pair have d: "d = Json st" by (auto simp: iter_View_def split: prod.splits outcome.splits)
      let ?sys2 = "if ss_Upgraded st then spawn (sy_next sys) st (add_entry (ss_ID st) sys) else sys"
      have one: "start_one st sys = (Inr (), ?sys2)" by (simp add: start_one_def)
      have run: "foreach_states JobSnapUp start_one es (kv2, if MatchWorkerJob st JobSnapUp then ?sys2 else sys) = (r, kv1, sys1)"
        using Cons.prems(1) Pair Inr e one by (cases "MatchWorkerJob st JobSnapUp") (simp_all del: MatchWorkerJob.simps)
      have "entries_ok (spawn (sy_next sys) st (add_entry (ss_ID st) sys))"
        using entries_ok_spawn [OF Cons.prems(2), of st "ct_smgr (sy_ct sys)"] Cons.prems(4) e d
        by (simp add: with_ct_smgr_def add_entry_def)
      moreover have "\<forall>s \<in> set (stored_states es). sy_jobs (spawn (sy_next sys) st (add_entry (ss_ID st) sys)) (ss_ID s) = None"
        using Cons.prems(3,4) e d by (auto simp: spawn_def add_entry_def image_iff)
      moreover have "sy_ct (spawn (sy_next sys) st (add_entry (ss_ID st) sys)) = sy_ct sys" by (simp add: spawn_def add_entry_def)
      ultimately show ?thesis using Cons.IH [OF run] Cons.prems(2-4) e d by (auto split: if_splits)
    qed
  qed
next
  case Nil
  then show ?case by simp
qed

lemma Start_entries_ok:
  assumes "fresh_sys sys" "distinct (map ss_ID (stored_states (kv_data (sm_online (ct_smgr (sy_ct sys))))))"
    "snap_Start sys = (r, sys1)"
  shows "entries_ok sys1"
proof -
  let ?kv = "sm_online (ct_smgr (sy_ct sys))"
  obtain q kv1 sys2 where q: "foreach_states JobSnapUp start_one (kv_data ?kv) (?kv, sys) = (q, kv1, sys2)" by (metis prod_cases3)
  have "entries_ok sys" "\<forall>st \<in> set (stored_states (kv_data ?kv)). sy_jobs sys (ss_ID st) = None"
    using assms(1) by (simp_all add: fresh_sys_def entries_ok_def)
  from foreach_start [OF q this(1) assms(2) this(2)] have "entries_ok sys2" by simp
  moreover have "\<exists>sm. sys1 = with_ct_smgr sm sys2"
    using assms(3) q by (auto simp: snap_Start_def ForEach_def getIter_def kv_Scan_def scan_entries_def)
  ultimately show ?thesis by (auto simp: entries_ok_def with_ct_smgr_def)
qed

section \<open>Properties of the jobs\<close>

text \<open>C19. As long as no commitment is cancelled a sector is never worked on by two jobs, however \<open>Commit\<close> calls, rounds and the changes of other
  components interleave after \<open>Start\<close>.\<close>

theorem one_job_per_sector:
  assumes "fresh_sys sys" "distinct (map ss_ID (stored_states (kv_data (sm_online (ct_smgr (sy_ct sys))))))"
    and "snap_Start sys = (r, sys1)" "keyed (view (ct_smgr (sy_ct sys1)))"
    and "snap_history evs sys1 = Some sys2" "list_all world_keyed evs" "\<not> list_ex is_cancel evs"
    and "sy_run sys2 i = Some job" "sy_run sys2 j = Some job'" "ss_ID (jb_state job) = ss_ID (jb_state job')"
  shows "i = j"
proof -
  have "entries_ok sys2" using history_entries_ok [OF assms(5) Start_entries_ok [OF assms(1-3)] assms(4,6,7)] .
  then have "sy_jobs sys2 (ss_ID (jb_state job)) = Some i" "sy_jobs sys2 (ss_ID (jb_state job')) = Some j"
    using assms(8,9) by (simp_all add: entries_ok_def)
  with assms(10) show ?thesis by simp
qed

text \<open>A \<open>Commit\<close> that fails because the sector cannot be loaded or is not upgraded leaves its entry behind: until a cancellation every later
  \<open>Commit\<close> of the sector is refused as a duplicate, though no job runs for it.\<close>

theorem failed_Commit_blocks_sector:
  assumes "snap_Commit sid sys = (Inl e, sys1)" "sy_jobs sys sid = None"
  shows "sy_run sys1 = sy_run sys \<and> fst (snap_Commit sid sys1) = Inl (Errorf ''duplicate commit job'') \<and>
    sy_jobs (CancelCommitment sid sys1) sid = None"
proof -
  have "sy_run sys1 = sy_run sys" "sy_jobs sys1 sid = Some (sy_next sys)"
    using assms by (auto simp: snap_Commit_def add_entry_def with_ct_smgr_def Let_def split: sum.splits prod.splits if_splits)
  then show ?thesis by (simp add: snap_Commit_def CancelCommitment_def)
qed

section \<open>Lemmas on rounds\<close>

lemma find_uid_free:
  assumes "find_uid ms sent mcid i = Some r"
  shows "\<forall>u. r = Inr u \<longrightarrow> ms_HasMessageByUid ms sent u = Inr False"
  using assms
proof (induction rule: find_uid.raw_induct [rotated 1, consumes 1])
  case (1 find_uid ms sent mcid i r)
  then show ?case by (auto split: sum.splits if_splits)
qed

lemma find_uid_reaches:
  assumes "ms_HasMessageByUid ms sent (uid_at mcid j) \<noteq> Inr True" "i \<le> j"
  shows "\<exists>r. find_uid ms sent mcid i = Some r"
  using assms(2)
proof (induction "j - i" arbitrary: i)
  case 0
  with assms(1) show ?case by (subst find_uid.simps) (auto split: sum.splits)
next
  case (Suc n)
  then have "\<exists>r. find_uid ms sent mcid (Suc i) = Some r" by auto
  then show ?case by (subst find_uid.simps) (auto split: sum.splits)
qed

lemma uid_at_inject: "uid_at mcid i = uid_at mcid j \<longleftrightarrow> i = j"
  by (simp add: uid_at_def)

lemma find_uid_returns:
  assumes "finite {u. ms_HasMessageByUid ms sent u = Inr True}"
  shows "\<exists>r. find_uid ms sent mcid i = Some r"
proof -
  have "\<not> (\<forall>j \<ge> i. ms_HasMessageByUid ms sent (uid_at mcid j) = Inr True)"
  proof
    assume all: "\<forall>j \<ge> i. ms_HasMessageByUid ms sent (uid_at mcid j) = Inr True"
    then have "uid_at mcid ` {i..} \<subseteq> {u. ms_HasMessageByUid ms sent u = Inr True}" by auto
    then have "finite (uid_at mcid ` {i..})" using assms by (rule finite_subset)
    moreover have "inj_on (uid_at mcid) {i..}" by (simp add: inj_on_def uid_at_inject)
    ultimately show False using finite_imageD infinite_Ici by blast
  qed
  then obtain j where "i \<le> j" "ms_HasMessageByUid ms sent (uid_at mcid j) \<noteq> Inr True" by blast
  then show ?thesis using find_uid_reaches by blast
qed

lemma build_messageD:
  assumes "build_message env mcfg h maddr = Inr (Some msg)"
  shows "\<exists>tok height loc ps pams ds ui updateProof. msu_Enabled (mc_SnapUp mcfg) \<and>
    sa_ChainHead (ce_api (pe_env (sn_pe env))) = Inr (tok, height) \<and>
    sn_SectorPartition env maddr (sid_Number (ss_ID h)) tok = Inr (Some loc) \<and> sn_PeriodStart env maddr tok = Inr ps \<and>
    height + 10 + sn_WPoStChallengeWindow env < fst (sn_NextNotElapsed env ps (lo_Deadline loc) height) \<and>
    ProcessPieces (sn_pe env) h = Inr (pams, ds) \<and> ss_UpgradedInfo h = Some ui \<and>
    sn_MarshalUpdates env (update_params_of mcfg h loc ui pams updateProof) = Inr (cg_Params msg) \<and>
    cg_To msg = maddr \<and> cg_Method msg = ProveReplicaUpdates3"
proof -
  obtain src where src: "msu_Enabled (mc_SnapUp mcfg)"
      "sn_select env (sid_Miner (ss_ID h)) (snapup_GetSenders (sn_lo env) (mc_SnapUp mcfg)) = Inr src"
    using assms by (auto simp: build_message_def Let_def split: if_splits sum.splits)
  obtain tok height where ts: "sa_ChainHead (ce_api (pe_env (sn_pe env))) = Inr (tok, height)"
    using assms src by (auto simp: build_message_def Let_def split: sum.splits)
  obtain sl where sl: "sn_SectorPartition env maddr (sid_Number (ss_ID h)) tok = Inr sl"
    using assms src ts by (auto simp: build_message_def Let_def split: sum.splits)
  obtain up where up: "sn_UpdateProof env (ss_SectorType h) = Inr up"
    using assms src ts sl by (auto simp: build_message_def Let_def split: sum.splits)
  obtain ps where ps: "sn_PeriodStart env maddr tok = Inr ps"
    using assms src ts sl up by (auto simp: build_message_def Let_def split: sum.splits)
  obtain loc d where loc: "sl = Some loc" "deadlineIsMutable env ps (lo_Deadline loc) height 10 = (True, d)"
    using assms src ts sl up ps by (auto simp: build_message_def Let_def split: option.splits prod.splits bool.splits)
  obtain pams ds where pams: "ProcessPieces (sn_pe env) h = Inr (pams, ds)"
    using assms src ts sl up ps loc by (auto simp: build_message_def Let_def split: sum.splits)
  obtain ui where ui: "ss_UpgradedInfo h = Some ui"
    using assms src ts sl up ps loc pams by (auto simp: build_message_def Let_def split: option.splits)
  obtain enc where enc: "sn_MarshalUpdates env (update_params_of mcfg h loc ui pams up) = Inr enc"
    using assms src ts sl up ps loc pams ui by (auto simp: build_message_def Let_def split: sum.splits)
  have "cg_Params msg = enc" "cg_To msg = maddr" "cg_Method msg = ProveReplicaUpdates3"
    using assms src ts sl up ps loc pams ui enc by (auto simp: build_message_def Let_def message_of_def split: sum.splits)
  moreover have "height + 10 + sn_WPoStChallengeWindow env < fst (sn_NextNotElapsed env ps (lo_Deadline loc) height)"
    using loc(2) by (auto simp: deadlineIsMutable_def split: prod.splits if_splits)
  ultimately show ?thesis using src(1) ts sl ps loc(1) pams ui enc by blast
qed

lemma push_updateD:
  assumes "push_update env mcfg h msg ct = Some (f, h1, ct1)"
  shows "(ct_sent ct1 = ct_sent ct \<or> (\<exists>mcid. ms_HasMessageByUid (pe_ms (sn_pe env)) (ct_sent ct) mcid = Inr False \<and>
      ct_sent ct1 = ct_sent ct @ [(mcid, msg, GetSendSpec (msu_FeeConfig (mc_SnapUp mcfg)))])) \<and>
    (f \<noteq> None \<longrightarrow> h1 = h \<and> view (ct_smgr ct1) = view (ct_smgr ct)) \<and>
    (f = None \<longrightarrow> (\<exists>uid st. h1 = h\<lparr>ss_UpgradeMessageID := Some uid\<rparr> \<and> view (ct_smgr ct) WorkerOnline (ss_ID h) = Some (Json st) \<and>
      view (ct_smgr ct1) = view_put WorkerOnline (ss_ID h) (st\<lparr>ss_UpgradeMessageID := Some uid\<rparr>) (view (ct_smgr ct))))"
proof -
  let ?ms = "pe_ms (sn_pe env)" and ?spec = "GetSendSpec (msu_FeeConfig (mc_SnapUp mcfg))"
  obtain u where u: "find_uid ?ms (ct_sent ct) (sn_MsgCid env msg) 0 = Some u"
    using assms by (auto simp: push_update_def Let_def split: option.splits)
  show ?thesis
  proof (cases u)
    case (Inl e)
    with assms u show ?thesis by (auto simp: push_update_def)
  next
    case (Inr mcid)
    with find_uid_free [OF u] have free: "ms_HasMessageByUid ?ms (ct_sent ct) mcid = Inr False" by simp
    obtain r took where p: "ms_PushMessageWithId ?ms (ct_sent ct) mcid msg ?spec = (r, took)" by fastforce
    let ?ct1 = "if took then ct\<lparr>ct_sent := ct_sent ct @ [(mcid, msg, ?spec)]\<rparr> else ct"
    show ?thesis
    proof (cases r)
      case (Inl e)
      with assms u Inr p have "f \<noteq> None" "h1 = h" "ct1 = ?ct1" by (auto simp: push_update_def Let_def)
      with free show ?thesis by (cases took) auto
    next
      case uid: (Inr uid)
      obtain q sm where q: "Update (ss_ID h) WorkerOnline [FUpgradeMessageID (Some uid)] (ct_smgr ?ct1) = (q, sm)" by fastforce
      have eq: "ct1 = ?ct1\<lparr>ct_smgr := sm\<rparr>" "f = None \<longleftrightarrow> q = Inr ()" "h1 = (if q = Inr () then h\<lparr>ss_UpgradeMessageID := Some uid\<rparr> else h)"
        using assms u Inr p uid q by (auto simp: push_update_def Let_def split: sum.splits)
      have sm0: "ct_smgr ?ct1 = ct_smgr ct" by simp
      from UpdateD [OF q [unfolded sm0]] show ?thesis using eq free by auto
    qed
  qed
qed

section \<open>Properties of a round\<close>

text \<open>A replica update is handed to the messager only while snapup is enabled and the sector's deadline can still change: the head is more than a
  challenge window and ten epochs before the deadline next opens. The message is for the sector, in its deadline and partition, with the new
  replica and the manifests of its pieces, and its identifier is one the messager did not know.\<close>

theorem update_pushed_only_when_mutable:
  assumes "submitMessage env maddr h ct = Some (f, h1, ct1)" "ct_sent ct1 \<noteq> ct_sent ct"
  shows "\<exists>mcfg tok height loc ps pams ds ui updateProof mcid msg. MinerConfig (sn_cfg env) (sid_Miner (ss_ID h)) = Inr mcfg \<and>
    msu_Enabled (mc_SnapUp mcfg) \<and> sa_ChainHead (ce_api (pe_env (sn_pe env))) = Inr (tok, height) \<and>
    sn_SectorPartition env maddr (sid_Number (ss_ID h)) tok = Inr (Some loc) \<and> sn_PeriodStart env maddr tok = Inr ps \<and>
    height + 10 + sn_WPoStChallengeWindow env < fst (sn_NextNotElapsed env ps (lo_Deadline loc) height) \<and>
    ProcessPieces (sn_pe env) h = Inr (pams, ds) \<and> ss_UpgradedInfo h = Some ui \<and>
    sn_MarshalUpdates env (update_params_of mcfg h loc ui pams updateProof) = Inr (cg_Params msg) \<and>
    ms_HasMessageByUid (pe_ms (sn_pe env)) (ct_sent ct) mcid = Inr False \<and>
    ct_sent ct1 = ct_sent ct @ [(mcid, msg, GetSendSpec (msu_FeeConfig (mc_SnapUp mcfg)))]"
proof -
  obtain mcfg msg where b: "MinerConfig (sn_cfg env) (sid_Miner (ss_ID h)) = Inr mcfg" "build_message env mcfg h maddr = Inr (Some msg)"
      and p: "push_update env mcfg h msg ct = Some (f, h1, ct1)"
    using assms by (auto simp: submitMessage_def split: sum.splits option.splits)
  from push_updateD [OF p] assms(2) obtain mcid where "ms_HasMessageByUid (pe_ms (sn_pe env)) (ct_sent ct) mcid = Inr False"
    "ct_sent ct1 = ct_sent ct @ [(mcid, msg, GetSendSpec (msu_FeeConfig (mc_SnapUp mcfg)))]" by blast
  with b(1) build_messageD [OF b(2)] show ?thesis by (elim exE conjE) (intro exI conjI)
qed

text \<open>A file of the old replica that is gone: deleted, or not found by the store.\<close>

definition removed :: "snap_env \<Rightarrow> (string \<times> string) list \<Rightarrow> string \<Rightarrow> string \<Rightarrow> bool" where
  "removed env gone ins uri = ((ins, uri) \<in> set gone \<or> (\<exists>g e. sn_Del env g ins uri = Inl e \<and> errors_is e ErrObjectNotFound))"

lemma del_filesD:
  assumes "del_files env ins uris gone = (r, gone1)"
  shows "set gone \<subseteq> set gone1 \<and> (r = Inr () \<longrightarrow> (\<forall>uri \<in> set uris. removed env gone1 ins uri))"
  using assms
proof (induction uris arbitrary: gone r)
  case (Cons uri uris)
  let ?gone2 = "case sn_Del env gone ins uri of Inl e \<Rightarrow> gone | Inr _ \<Rightarrow> gone @ [(ins, uri)]"
  obtain q where q: "del_files env ins uris ?gone2 = (q, gone1)" "r = Inr () \<Longrightarrow> q = Inr ()"
      "r = Inr () \<Longrightarrow> (\<forall>e. sn_Del env gone ins uri = Inl e \<longrightarrow> errors_is e ErrObjectNotFound)"
    using Cons.prems by (auto simp: Let_def split: prod.splits sum.splits if_splits)
  have own: "removed env gone1 ins uri" if "r = Inr ()"
    using Cons.IH [OF q(1)] q(3) [OF that] unfolding removed_def by (cases "sn_Del env gone ins uri") auto
  have "set gone \<subseteq> set ?gone2" by (auto split: sum.splits)
  with Cons.IH [OF q(1)] q(2) own show ?case by auto
qed simp

lemma removed_mono: "removed env gone ins uri \<Longrightarrow> set gone \<subseteq> set gone1 \<Longrightarrow> removed env gone1 ins uri"
  by (auto simp: removed_def)

lemma cleanup_targetsD:
  assumes "cleanup_targets env ts gone = (r, gone1)"
  shows "set gone \<subseteq> set gone1 \<and> (r = Inr () \<longrightarrow> (\<forall>(ins, uris) \<in> set ts. \<forall>uri \<in> set uris. removed env gone1 ins uri))"
  using assms
proof (induction ts arbitrary: gone)
  case (Cons t ts)
  obtain ins uris where t: "t = (ins, uris)" by fastforce
  show ?case
  proof (cases "GetInstance (sn_stores env) ins")
    case (Inr st)
    obtain q gone2 where d: "del_files env (st_Instance st) uris gone = (q, gone2)" by fastforce
    note dd = del_filesD [OF d] and nm = GetInstance_named [OF Inr]
    show ?thesis
    proof (cases q)
      case q: (Inr u)
      with Cons.prems t Inr d have "cleanup_targets env ts gone2 = (r, gone1)" by simp
      from Cons.IH [OF this] dd q nm t show ?thesis by (auto intro: removed_mono)
    qed (use Cons.prems t Inr d dd in auto)
  qed (use Cons.prems t in auto)
qed auto

lemma callback_started_iff:
  assumes "sorts_desc (sn_sort env)"
  shows "callback_started env mcfg landedAt head \<longleftrightarrow>
    landedAt + np_ChainFinality (ce_np (pe_env (sn_pe env))) + GetReleaseConfidence (mc_SnapUp mcfg) \<le> head"
proof -
  have "sn_sort env [cb] = [cb]" for cb
    using assms unfolding sorts_desc_def by (metis mset_single_iff mset_eq_length_filter mset.simps(1,2))
  then show ?thesis by (simp add: callback_started_def At_def bus_tick_def trigger_def)
qed

lemma cleanupForSectorD:
  assumes "cleanupForSector env ssize h ct = (Inr u, ct1)" "MinerConfig (sn_cfg env) (sid_Miner (ss_ID h)) = Inr mcfg"
    "msu_CleanupCCData (mc_SnapUp mcfg)"
  shows "\<exists>access. located_at (ix_normal (ct_index ct)) (ss_ID h) = Some access \<and>
    removed env (ct_deleted ct1) (ac_SealedFile access) (SectorPath PathSealed (ss_ID h)) \<and>
    (\<forall>f \<in> set (CachedFilesForSectorSize (SectorPath PathCache (ss_ID h)) ssize). removed env (ct_deleted ct1) (ac_CacheDir access) f)"
proof -
  let ?ref = "\<lparr>ref_ID = ss_ID h, ref_ProofType = ss_SectorType h\<rparr>"
  obtain p ix gone where p: "SinglePrivateInfo (sn_objects env) (sn_stores env) ?ref False None (ct_index ct) = (Inr p, ix)"
      and c: "cleanup_targets env (cc_targets p ssize) (ct_deleted ct) = (Inr u, gone)" "ct_deleted ct1 = gone"
    using assms by (auto simp: cleanupForSector_def split: prod.splits sum.splits)
  from SinglePrivateInfoD [OF p] have "located_at (ix_normal (ct_index ct)) (ss_ID h) = Some (pvt_Accesses p)"
    "pvt_CacheDirURI p = SectorPath PathCache (ss_ID h)" "pvt_SealedSectorURI p = SectorPath PathSealed (ss_ID h)" by simp_all
  with cleanup_targetsD [OF c(1)] c(2) show ?thesis by (auto simp: cc_targets_def)
qed

text \<open>C7. A job finishes only for a sector whose message has landed, and only once the chain is past the landing by the finality and the release
  confidence; by then the files of the old replica are gone, when they are to be cleaned up, and the sector has moved to the offline store.\<close>

theorem finished_upgrade_is_final:
  assumes "handle env head maddr ssize h ct = Some (True, f, h1, ct1)" "sorts_desc (sn_sort env)"
  shows "\<exists>mcfg landedAt st. MinerConfig (sn_cfg env) (sid_Miner (ss_ID h)) = Inr mcfg \<and> ss_UpgradeLandedEpoch h = Some landedAt \<and>
    landedAt + np_ChainFinality (ce_np (pe_env (sn_pe env))) + GetReleaseConfidence (mc_SnapUp mcfg) \<le> head \<and>
    (msu_CleanupCCData (mc_SnapUp mcfg) \<longrightarrow> (\<exists>access. located_at (ix_normal (ct_index ct)) (ss_ID h) = Some access \<and>
      removed env (ct_deleted ct1) (ac_SealedFile access) (SectorPath PathSealed (ss_ID h)) \<and>
      (\<forall>c \<in> set (CachedFilesForSectorSize (SectorPath PathCache (ss_ID h)) ssize). removed env (ct_deleted ct1) (ac_CacheDir access) c))) \<and>
    view (ct_smgr ct) WorkerOnline (ss_ID h) = Some (Json st) \<and>
    view (ct_smgr ct1) WorkerOffline (ss_ID h) = Some (Json (st\<lparr>ss_Finalized := True\<rparr>)) \<and> view (ct_smgr ct1) WorkerOnline (ss_ID h) = None"
proof -
  obtain landedAt where l: "ss_UpgradeLandedEpoch h = Some landedAt" "landed env head ssize landedAt h ct = Some (None, h1, ct1)"
    using assms(1) by (auto simp: handle_def split: if_splits option.splits)
  then obtain mcfg where m: "MinerConfig (sn_cfg env) (sid_Miner (ss_ID h)) = Inr mcfg" "callback_started env mcfg landedAt head"
      and c: "landed_callback env ssize h ct = (Inr (), ct1)"
    by (auto simp: landed_def split: sum.splits if_splits prod.splits)
  obtain r ct2 where r: "cleanupForSector env ssize h ct = (r, ct2)" by fastforce
  obtain q sm u where fin: "Finalize (ss_ID h) (None :: unit hook option) (ct_smgr ct2, ()) = (q, sm, u)" by (metis prod_cases3)
  from c r fin have eq: "r = Inr ()" "q = Inr ()" "ct1 = ct2\<lparr>ct_smgr := sm\<rparr>"
    by (auto simp: landed_callback_def split: sum.splits)
  from cleanupForSector_smgr [OF r] FinalizeD [OF fin] eq(2) obtain st where
    "view (ct_smgr ct) WorkerOnline (ss_ID h) = Some (Json st)"
    "view sm = view_del WorkerOnline (ss_ID h) (view_put WorkerOffline (ss_ID h) (st\<lparr>ss_Finalized := True\<rparr>) (view (ct_smgr ct)))"
    by (auto simp: run_hook_def)
  with m l(1) callback_started_iff [OF assms(2)] cleanupForSectorD [of env ssize h ct "()" ct2 mcfg] r eq show ?thesis
    by (intro exI [of _ mcfg] exI [of _ landedAt] exI [of _ st]) (simp add: view_del_def view_put_def)
qed

text \<open>A round returns, unless it waits for the chain: when the messager knows finitely many messages the search for a free identifier ends.\<close>

theorem round_returns:
  assumes "finite {u. ms_HasMessageByUid (pe_ms (sn_pe env)) (ct_sent ct) u = Inr True}" "sorts_desc (sn_sort env)"
    and "\<And>landedAt mcfg. ss_UpgradeLandedEpoch h = Some landedAt \<Longrightarrow> MinerConfig (sn_cfg env) (sid_Miner (ss_ID h)) = Inr mcfg \<Longrightarrow>
      landedAt + np_ChainFinality (ce_np (pe_env (sn_pe env))) + GetReleaseConfidence (mc_SnapUp mcfg) \<le> head"
  shows "\<exists>r. handle env head maddr ssize h ct = Some r"
proof -
  have "\<exists>r. push_update env mcfg h msg ct = Some r" for mcfg msg
    using find_uid_returns [OF assms(1), of "sn_MsgCid env msg" 0]
    by (auto simp: push_update_def Let_def split: sum.splits prod.splits)
  then have "\<exists>r. submitMessage env maddr h ct = Some r" by (auto simp: submitMessage_def split: sum.splits option.splits)
  moreover have "\<exists>r. landed env head ssize landedAt h ct = Some r" if "ss_UpgradeLandedEpoch h = Some landedAt" for landedAt
    using assms(3) [OF that] callback_started_iff [OF assms(2)] by (auto simp: landed_def split: sum.splits prod.splits)
  ultimately show ?thesis by (cases "waitForMessage env h ct") (auto simp: handle_def split: option.splits)
qed

text \<open>A message that ran out of gas or funds is forgotten in the handler only: the write-back fails, so the stored sector keeps the identifier of the
  failed message, and the round ends with a temporary error.\<close>

theorem resend_keeps_stored_id:
  assumes "MinerConfig (sn_cfg env) (sid_Miner (ss_ID h)) = Inr mcfg" "ss_UpgradeMessageID h = Some msgID"
    and "sn_GetMessageByUid env (ct_sent ct) msgID = Inr msg" "judge_message (mc_SnapUp mcfg) msg = Resend"
    and "waitForMessage env h ct = (f, h1, ct1)"
  shows "view (ct_smgr ct1) = view (ct_smgr ct) \<and> ct_sent ct1 = ct_sent ct \<and> h1 = h\<lparr>ss_UpgradeMessageID := None\<rparr> \<and> (\<exists>e w. f = Some (Temporary e w))"
proof -
  obtain q sm where q: "Update (ss_ID h) WorkerOnline [FOther ''*core.SectorState''] (ct_smgr ct) = (q, sm)" by fastforce
  from UpdateD [OF q] have "view sm = view (ct_smgr ct)" by auto
  with assms q show ?thesis by (cases q) (auto simp: waitForMessage_def Let_def)
qed

fun is_temp :: "fault option \<Rightarrow> bool" where
  "is_temp (Some (Temporary e w)) = True"
| "is_temp _ = False"

definition attempts_limited :: "u64 \<Rightarrow> int \<Rightarrow> snap_env \<Rightarrow> bool" where
  "attempts_limited miner mx env = (\<exists>mcfg. MinerConfig (sn_cfg env) miner = Inr mcfg \<and> mrc_MaxAttempts (msu_Retry (mc_SnapUp mcfg)) = Some mx)"

lemma after_round_limited:
  assumes "attempts_limited miner mx env" "after_round (sn_cfg env) miner retried fin f = Some (retried1, w)"
  shows "if is_temp f then retried < mx \<and> retried1 = retried + 1 else retried1 = 0"
  using assms by (auto simp: after_round_def attempts_limited_def split: option.splits fault.splits if_splits)

lemma job_rounds_limited:
  assumes "job_rounds rounds maddr ssize retried h ct = Some (ended, fs, r)" "0 \<le> retried" "retried \<le> mx"
    and "\<forall>(env, head) \<in> set rounds. attempts_limited (sid_Miner (ss_ID h)) mx env"
  shows "length (takeWhile is_temp fs) \<le> nat (mx - retried) + 1 \<and> (\<forall>k. length (takeWhile is_temp (List.drop k fs)) \<le> nat mx + 1)"
  using assms
proof (induction rounds arbitrary: retried h ct ended fs r)
  case (Cons rd rounds)
  obtain env head where rd: "rd = (env, head)" by fastforce
  obtain fin f h1 ct1 where h: "handle env head maddr ssize h ct = Some (fin, f, h1, ct1)"
    using Cons.prems(1) rd by (auto split: option.splits)
  have lim: "attempts_limited (sid_Miner (ss_ID h)) mx env" using Cons.prems(4) rd by simp
  have one: "length (takeWhile is_temp (List.drop k [f])) \<le> nat mx + 1" for k
    using length_takeWhile_le [of is_temp "List.drop k [f]"] by (simp add: le_trans)
  show ?case
  proof (cases "after_round (sn_cfg env) (sid_Miner (ss_ID h)) retried fin f")
    case None
    with Cons.prems(1) rd h have "fs = [f]" by simp
    with one show ?thesis by auto
  next
    case (Some x)
    obtain retried1 w where x: "x = (retried1, w)" by fastforce
    obtain fs1 where fs: "job_rounds rounds maddr ssize retried1 h1 ct1 = Some (ended, fs1, r)" "fs = f # fs1"
      using Cons.prems(1) rd h Some x by auto
    note step = after_round_limited [OF lim Some [unfolded x]]
    have bounds: "0 \<le> retried1" "retried1 \<le> mx" using step Cons.prems(2,3) by (auto split: if_splits)
    have "\<forall>(env, head) \<in> set rounds. attempts_limited (sid_Miner (ss_ID h1)) mx env"
      using Cons.prems(4) handle_ID [OF h] by simp
    from Cons.IH [OF fs(1) bounds this] have ih: "length (takeWhile is_temp fs1) \<le> nat (mx - retried1) + 1"
      "\<And>k. length (takeWhile is_temp (List.drop k fs1)) \<le> nat mx + 1" by blast+
    have here: "length (takeWhile is_temp fs) \<le> nat (mx - retried) + 1"
      using fs(2) ih(1) step by (cases "is_temp f") auto
    then have "length (takeWhile is_temp (List.drop k fs)) \<le> nat mx + 1" for k
      using fs(2) ih(2) Cons.prems(2) by (cases k) auto
    with here show ?thesis by blast
  qed
qed simp

text \<open>The attempts of a job are bounded: with a configured maximum there are never more than that many retries in a row, so never more temporary errors
  in a row than the maximum and one.\<close>

theorem retries_bounded:
  assumes "job_rounds rounds maddr ssize 0 h ct = Some (ended, fs, r)" "0 \<le> mx"
    and "\<forall>(env, head) \<in> set rounds. attempts_limited (sid_Miner (ss_ID h)) mx env"
  shows "length (takeWhile is_temp (List.drop k fs)) \<le> nat mx + 1"
  using job_rounds_limited [OF assms(1) _ assms(2,3)] by simp

section \<open>Instances\<close>

definition demo_upgraded :: sector_state where
  "demo_upgraded = (new_sector_state demo_sid 8)\<lparr>ss_Upgraded := True,
     ss_UpgradePublic := Some \<lparr>pub_CommR = [], pub_SealedCID = ''old'', pub_Activation = 0, pub_Expiration = 9000\<rparr>,
     ss_UpgradedInfo := Some \<lparr>ui_AccessInstance = ''s1'', ui_SealedCID = ''new'', ui_UnsealedCID = ''d'', ui_Proof = [7]\<rparr>\<rparr>"

definition demo_miner :: miner_config where
  "demo_miner = (let m = DefaultMinerConfig Undef False in m\<lparr>mc_Actor := 1000,
     mc_SnapUp := (mc_SnapUp m)\<lparr>msu_Enabled := True, msu_SendFund := False,
       msu_Retry := (msu_Retry (mc_SnapUp m))\<lparr>mrc_MaxAttempts := Some 1\<rparr>\<rparr>\<rparr>)"

definition demo_upenv :: snap_env where
  "demo_upenv = \<lparr>sn_pe = demo_proc\<lparr>pe_env := demo_env\<lparr>ce_cfg := [demo_miner]\<rparr>\<rparr>, sn_lo = demo_lo, sn_select = (\<lambda>_ _. Inr (IDAddress 10)),
     sn_SectorPartition = (\<lambda>_ _ _. Inr (Some \<lparr>lo_Deadline = 3, lo_Partition = 1\<rparr>)), sn_UpdateProof = (\<lambda>_. Inr 3),
     sn_PeriodStart = (\<lambda>_ _. Inr 0), sn_NextNotElapsed = (\<lambda>_ _ cur. (cur + 500, cur + 560)), sn_WPoStChallengeWindow = 60,
     sn_BlockDelaySecs = 30, sn_MarshalUpdates = (\<lambda>_. Inr [1]), sn_MsgCid = (\<lambda>_. ''bafy''),
     sn_SectorExpiration = (\<lambda>_ _ _. Inr None), sn_GetMessageByUid = (\<lambda>_ _. Inr \<lparr>sq_State = OnChainMsg, sq_Confidence = 100,
       sq_Receipt = Some \<lparr>rc_ExitCode = SysErrOutOfGas, rc_String = []\<rparr>, sq_TipSetKey = [1]\<rparr>),
     sn_TipSetHeight = (\<lambda>_. Inr 2000), sn_sort = demo_sort,
     sn_stores = \<lparr>mg_stores = [\<lparr>st_Instance = ''s1'', st_InstanceInfo = Inl (Ext ''down'')\<rparr>], mg_policy = (\<lambda>_. None)\<rparr>,
     sn_objects = \<lparr>ob_FullPath = (\<lambda>i p. p), ob_Stat = (\<lambda>_ _. Inr 0)\<rparr>, sn_Del = (\<lambda>_ _ _. Inr ())\<rparr>"

definition demo_ct :: "sector_state \<Rightarrow> committer" where
  "demo_ct st = \<lparr>ct_smgr = \<lparr>sm_online = demo_store (Json st), sm_offline = empty_store, sm_events = []\<rparr>,
     ct_index = \<lparr>ix_normal = \<lparr>kv_data = [(makeSectorKey demo_sid, ''s1'')], kv_script = []\<rparr>, ix_upgrade = empty_store\<rparr>,
     ct_deleted = [], ct_sent = []\<rparr>"

definition demo_sys :: snap_sys where
  "demo_sys = \<lparr>sy_ct = demo_ct demo_upgraded, sy_jobs = Map.empty, sy_run = Map.empty, sy_next = 0\<rparr>"

lemmas demo_upenv_defs = demo_upgraded_def demo_miner_def demo_upenv_def demo_ct_def demo_sys_def demo_proc_def demo_proc_api_def
  demo_env_def demo_check_defs demo_defs DefaultMinerConfig_def defaultMinerSnapUpConfig_def defaultMinerSnapUpRetryConfig_def

lemma demo_upenv_cfg: "MinerConfig (sn_cfg demo_upenv) 1000 = Inr demo_miner"
  by (simp add: demo_upenv_defs Let_def)

lemma demo_sid_Miner [simp]: "sid_Miner demo_sid = 1000" "ss_ID demo_upgraded = demo_sid"
  by (simp_all add: demo_sid_def demo_upgraded_def new_sector_state_def)

lemma demo_find_uid: "find_uid (pe_ms (sn_pe demo_upenv)) [] ''bafy'' 0 = Some (Inr ''bafy-0'')"
proof -
  have "dec 0 = ''0''" by code_simp
  then show ?thesis by (subst find_uid.simps) (simp add: demo_upenv_def demo_proc_def demo_messager_def uid_at_def)
qed

definition demo_msg :: chain_message where
  "demo_msg = message_of (IDAddress 1000) (IDAddress 10) 0 ProveReplicaUpdates3 (msu_FeeConfig (mc_SnapUp demo_miner)) [1]"

lemma demo_build: "build_message demo_upenv demo_miner demo_upgraded (IDAddress 1000) = Inr (Some demo_msg)"
proof -
  have m: "deadlineIsMutable demo_upenv 0 3 1000 10 = (True, 0)" by (simp add: deadlineIsMutable_def demo_upenv_def)
  have p: "ProcessPieces (sn_pe demo_upenv) demo_upgraded = Inr ([], [])"
    by (simp add: ProcessPieces_def SectorPiece_def demo_upgraded_def new_sector_state_def)
  have u: "\<exists>ui. ss_UpgradedInfo demo_upgraded = Some ui" by (simp add: demo_upgraded_def)
  have su: "msu_Enabled (mc_SnapUp demo_miner)" "\<not> msu_SendFund (mc_SnapUp demo_miner)" by (simp_all add: demo_miner_def Let_def)
  have env: "sn_select demo_upenv i as = Inr (IDAddress 10)" "sa_ChainHead (ce_api (pe_env (sn_pe demo_upenv))) = Inr ([], 1000)"
    "sn_SectorPartition demo_upenv a n tk = Inr (Some \<lparr>lo_Deadline = 3, lo_Partition = 1\<rparr>)" "sn_UpdateProof demo_upenv t = Inr 3"
    "sn_PeriodStart demo_upenv a tk = Inr 0" "sn_MarshalUpdates demo_upenv q = Inr [1]" for i as a n tk t q
    by (simp_all add: demo_upenv_def demo_proc_def demo_env_def demo_check_defs)
  from u show ?thesis by (auto simp: build_message_def Let_def su env m p demo_msg_def)
qed

definition demo_pushed :: committer where
  "demo_pushed = (demo_ct demo_upgraded)\<lparr>ct_sent := [(''bafy-0'', demo_msg, GetSendSpec (msu_FeeConfig (mc_SnapUp demo_miner)))],
     ct_smgr := \<lparr>sm_online = demo_store (Json (demo_upgraded\<lparr>ss_UpgradeMessageID := Some ''bafy-0''\<rparr>)), sm_offline = empty_store,
       sm_events = [OnUpdate demo_sid WorkerOnline [FUpgradeMessageID (Some ''bafy-0'')]]\<rparr>\<rparr>"

lemma demo_upsubmit: "submitMessage demo_upenv (IDAddress 1000) demo_upgraded (demo_ct demo_upgraded) =
    Some (None, demo_upgraded\<lparr>ss_UpgradeMessageID := Some ''bafy-0''\<rparr>, demo_pushed)"
proof -
  have cid: "sn_MsgCid demo_upenv demo_msg = ''bafy''" "ct_sent (demo_ct demo_upgraded) = []" by (simp_all add: demo_upenv_def demo_ct_def)
  have ms: "ms_PushMessageWithId (pe_ms (sn_pe demo_upenv)) [] c m sp = (Inr c, True)" for c m sp
    by (simp add: demo_upenv_def demo_proc_def demo_messager_def)
  show ?thesis
    by (simp add: submitMessage_def demo_upenv_cfg demo_build push_update_def demo_find_uid cid ms Let_def Update_def loadInner_def save_def
        put_store_def notify_def demo_pushed_def)
      (simp add: demo_ct_def demo_defs Update_def loadInner_def save_def put_store_def notify_def put_entry_def)
qed

theorem update_pushed_only_when_mutable_witness:
  "\<exists>mcid msg spec. ct_sent demo_pushed = [(mcid, msg, spec)] \<and> ms_HasMessageByUid (pe_ms (sn_pe demo_upenv)) [] mcid = Inr False"
proof -
  have ne: "ct_sent demo_pushed \<noteq> ct_sent (demo_ct demo_upgraded)" and e: "ct_sent (demo_ct demo_upgraded) = []"
    by (simp_all add: demo_pushed_def demo_ct_def)
  from update_pushed_only_when_mutable [OF demo_upsubmit ne] e show ?thesis by (elim exE conjE) auto
qed

definition demo_landed :: sector_state where
  "demo_landed = demo_upgraded\<lparr>ss_UpgradeMessageID := Some ''bafy-0'', ss_UpgradeLandedEpoch := Some 2000\<rparr>"

lemma demo_landed_simps [simp]: "ss_ID demo_landed = demo_sid" "ss_UpgradeLandedEpoch demo_landed = Some 2000"
  by (simp_all add: demo_landed_def)

lemma demo_stored_landed: "view (ct_smgr (demo_ct st)) WorkerOnline demo_sid = Some (Json st)"
  by (simp add: view_def demo_ct_def demo_defs)

theorem round_returns_witness:
  "\<exists>r. handle demo_upenv 1 (IDAddress 1000) 2048 demo_upgraded (demo_ct demo_upgraded) = Some r"
proof (rule round_returns)
  show "finite {u. ms_HasMessageByUid (pe_ms (sn_pe demo_upenv)) (ct_sent (demo_ct demo_upgraded)) u = Inr True}"
    by (simp add: demo_upenv_def demo_proc_def demo_messager_def demo_ct_def)
  show "sorts_desc (sn_sort demo_upenv)" using demo_sorts by (simp add: demo_upenv_def)
qed (simp add: demo_upgraded_def new_sector_state_def)

lemma demo_finishes: "\<exists>ct1. handle demo_upenv 50000 (IDAddress 1000) 2048 demo_landed (demo_ct demo_landed) = Some (True, None, demo_landed, ct1)"
proof -
  have d: "dec64 1000 = ''1000''" "dec64 7 = ''7''" by code_simp+
  have up: "ss_UpgradePublic demo_landed \<noteq> None" "ss_UpgradedInfo demo_landed \<noteq> None" by (simp_all add: demo_landed_def demo_upgraded_def)
  have started: "callback_started demo_upenv demo_miner 2000 50000"
    by (simp add: callback_started_def At_def bus_tick_def trigger_def demo_sort_def demo_upenv_defs Let_def GetReleaseConfidence_def)
  have idx: "index_Find demo_sid (ix_normal (ct_index (demo_ct st))) = (Inr (\<lparr>ac_SealedFile = ''s1'', ac_CacheDir = ''s1''\<rparr>, True), ix_normal (ct_index (demo_ct st)))" for st
    by (simp add: index_Find_def demo_ct_def makeSectorKeySealedFile_def makeSectorKeyForCacheDir_def makeSectorKey_def)
  have gi: "GetInstance (sn_stores demo_upenv) ''s1'' = Inr \<lparr>st_Instance = ''s1'', st_InstanceInfo = Inl (Ext ''down'')\<rparr>"
    by (simp add: GetInstance_def demo_upenv_def)
  have del: "sn_Del demo_upenv g i u = Inr ()" for g i u by (simp add: demo_upenv_def)
  have cl: "\<exists>ct2. cleanupForSector demo_upenv 2048 demo_landed (demo_ct demo_landed) = (Inr (), ct2)"
    by (simp add: cleanupForSector_def demo_upenv_cfg SinglePrivateInfo_def getPrivateInfo_def getObjInstanceForSector_def
        locate_def idx gi del cc_targets_def CachedFilesForSectorSize_def ss2KiB_def Let_def)
  have fin: "\<exists>sm. Finalize demo_sid (None :: unit hook option) (ct_smgr (demo_ct demo_landed), ()) = (Inr (), sm, ())"
    by (simp add: demo_ct_def demo_defs Finalize_def loadInner_def save_def run_hook_def put_store_def Let_def)
  have "\<exists>ct1. landed_callback demo_upenv 2048 demo_landed (demo_ct demo_landed) = (Inr (), ct1)"
    using cl fin cleanupForSector_smgr [of demo_upenv 2048 demo_landed "demo_ct demo_landed"]
    by (fastforce simp: landed_callback_def)
  then show ?thesis using up started by (auto simp: handle_def landed_def demo_upenv_cfg)
qed

theorem finished_upgrade_is_final_witness:
  "\<exists>ct1. handle demo_upenv 50000 (IDAddress 1000) 2048 demo_landed (demo_ct demo_landed) = Some (True, None, demo_landed, ct1) \<and>
    view (ct_smgr ct1) WorkerOffline demo_sid = Some (Json (demo_landed\<lparr>ss_Finalized := True\<rparr>))"
proof -
  obtain ct1 where run: "handle demo_upenv 50000 (IDAddress 1000) 2048 demo_landed (demo_ct demo_landed) = Some (True, None, demo_landed, ct1)"
    using demo_finishes by blast
  have "sorts_desc (sn_sort demo_upenv)" using demo_sorts by (simp add: demo_upenv_def)
  from finished_upgrade_is_final [OF run this] run demo_stored_landed [of demo_landed] show ?thesis by auto
qed

theorem resend_keeps_stored_id_witness:
  "\<exists>f h1 ct1. waitForMessage demo_upenv (demo_upgraded\<lparr>ss_UpgradeMessageID := Some ''bafy-0''\<rparr>) demo_pushed = (f, h1, ct1) \<and>
    ss_UpgradeMessageID h1 = None \<and> view (ct_smgr ct1) = view (ct_smgr demo_pushed)"
proof -
  let ?h = "demo_upgraded\<lparr>ss_UpgradeMessageID := Some ''bafy-0''\<rparr>"
  let ?m = "\<lparr>sq_State = OnChainMsg, sq_Confidence = 100, sq_Receipt = Some \<lparr>rc_ExitCode = SysErrOutOfGas, rc_String = []\<rparr>, sq_TipSetKey = [1]\<rparr>"
  obtain f h1 ct1 where run: "waitForMessage demo_upenv ?h demo_pushed = (f, h1, ct1)" by (metis prod_cases3)
  have "MinerConfig (sn_cfg demo_upenv) (sid_Miner (ss_ID ?h)) = Inr demo_miner" "ss_UpgradeMessageID ?h = Some ''bafy-0''"
    "sn_GetMessageByUid demo_upenv (ct_sent demo_pushed) ''bafy-0'' = Inr ?m" "judge_message (mc_SnapUp demo_miner) ?m = Resend"
    by (simp_all add: demo_upenv_cfg judge_message_def demo_upenv_def demo_miner_def GetMessageConfidence_def DefaultMinerConfig_def
        defaultMinerSnapUpConfig_def Let_def)
  from resend_keeps_stored_id [OF this run] run show ?thesis by auto
qed

lemma demo_limited: "attempts_limited 1000 1 demo_upenv"
  using demo_upenv_cfg by (simp add: attempts_limited_def) (simp add: demo_miner_def Let_def)

theorem retries_bounded_witness:
  "\<exists>fs. length fs = 1 \<and> length (takeWhile is_temp fs) \<le> nat 1 + 1"
proof -
  obtain ct1 where run: "handle demo_upenv 50000 (IDAddress 1000) 2048 demo_landed (demo_ct demo_landed) = Some (True, None, demo_landed, ct1)"
    using demo_finishes by blast
  then have "job_rounds [(demo_upenv, 50000)] (IDAddress 1000) 2048 0 demo_landed (demo_ct demo_landed) = Some (True, [None], demo_landed, ct1)"
    by (simp add: after_round_def)
  from retries_bounded [OF this, of 1 0] demo_limited show ?thesis by (intro exI [of _ "[None]"]) simp
qed

definition demo_upjob :: snap_job where
  "demo_upjob = \<lparr>jb_state = demo_upgraded, jb_ready = None, jb_retried = 0, jb_cancelled = False\<rparr>"

lemma demo_start: "snap_Start demo_sys = (Inr (), demo_sys\<lparr>sy_jobs := [demo_sid \<mapsto> 0], sy_run := [0 \<mapsto> demo_upjob], sy_next := 1\<rparr>)"
proof -
  have m: "MatchWorkerJob demo_upgraded JobSnapUp" "ss_Upgraded demo_upgraded" by (simp_all add: demo_upgraded_def new_sector_state_def)
  have one: "start_one demo_upgraded demo_sys = (Inr (), demo_sys\<lparr>sy_jobs := [demo_sid \<mapsto> 0], sy_run := [0 \<mapsto> demo_upjob], sy_next := 1\<rparr>)"
    using m(2) by (simp add: start_one_def spawn_def add_entry_def demo_upjob_def) (simp add: demo_sys_def)
  have "ct_smgr (sy_ct demo_sys) = \<lparr>sm_online = demo_store (Json demo_upgraded), sm_offline = empty_store, sm_events = []\<rparr>"
    by (simp add: demo_sys_def demo_ct_def)
  with one m(1) show ?thesis
    by (simp add: snap_Start_def ForEach_def getIter_def kv_Scan_def scan_entries_def iter_View_def demo_store_def pop_outcome_def put_store_def
        with_ct_smgr_def demo_sys_def demo_ct_def del: MatchWorkerJob.simps)
qed

lemma demo_keyed: "keyed (view (ct_smgr (demo_ct demo_upgraded)))"
  by (auto simp: keyed_def view_def demo_ct_def demo_store_def empty_store_def pickStore_def split: worker_state.splits if_splits)

theorem one_job_per_sector_witness:
  "{j. \<exists>job. sy_run (snd (snap_Commit demo_sid (snd (snap_Start demo_sys)))) j = Some job \<and> ss_ID (jb_state job) = demo_sid} = {0}"
proof -
  let ?s1 = "demo_sys\<lparr>sy_jobs := [demo_sid \<mapsto> 0], sy_run := [0 \<mapsto> demo_upjob], sy_next := 1\<rparr>"
  let ?s2 = "snd (snap_Commit demo_sid ?s1)"
  have fresh: "fresh_sys demo_sys" "distinct (map ss_ID (stored_states (kv_data (sm_online (ct_smgr (sy_ct demo_sys))))))"
    "keyed (view (ct_smgr (sy_ct ?s1)))"
    using demo_keyed by (simp_all add: fresh_sys_def demo_sys_def) (simp add: demo_ct_def demo_store_def stored_states_def List.map_filter_simps)
  have hist: "snap_history [EvCommit demo_sid] ?s1 = Some ?s2" by simp
  have zero: "sy_run ?s2 0 = Some demo_upjob" "ss_ID (jb_state demo_upjob) = demo_sid" by (simp_all add: snap_Commit_def demo_upjob_def)
  have "0 = j" if "sy_run ?s2 j = Some job" "ss_ID (jb_state job) = demo_sid" for j job
    using one_job_per_sector [OF fresh(1,2) demo_start fresh(3) hist _ _ zero(1) that(1)] zero(2) that(2) by simp
  then show ?thesis using zero demo_start by auto
qed

text \<open>A cancellation breaks this: the cancelled job still deletes its sector's entry when it ends, although the entry belongs to the job a second
  \<open>Commit\<close> has started, so a third one starts another job. Two jobs, none of them cancelled, then work on one sector.\<close>

definition demo_trace :: "snap_event list" where
  "demo_trace = [EvCommit demo_sid, EvRound demo_upenv 0 0, EvCancel demo_sid, EvCommit demo_sid, EvStop 0, EvCommit demo_sid]"

theorem cancel_lets_two_jobs_run:
  "\<exists>sys. snap_history demo_trace demo_sys = Some sys \<and>
    (\<exists>i j job job'. i \<noteq> j \<and> sy_run sys i = Some job \<and> sy_run sys j = Some job' \<and> ss_ID (jb_state job) = ss_ID (jb_state job') \<and>
      \<not> jb_cancelled job \<and> \<not> jb_cancelled job')"
proof -
  have up: "ss_Upgraded demo_upgraded" by (simp add: demo_upgraded_def)
  have load: "Load demo_sid WorkerOnline (ct_smgr (demo_ct demo_upgraded)) = (Inr demo_upgraded, ct_smgr (demo_ct demo_upgraded))"
    by (simp add: Load_def loadInner_def demo_ct_def demo_store_def put_store_def)
  obtain kv where pro: "commit_prologue demo_upenv demo_upgraded (demo_ct demo_upgraded) =
      (Some (IDAddress 1000, 64), (demo_ct demo_upgraded)\<lparr>ct_index := (ct_index (demo_ct demo_upgraded))\<lparr>ix_upgrade := kv\<rparr>\<rparr>)"
  proof -
    have "\<exists>kv. index_Update demo_sid \<lparr>ac_SealedFile = ''s1'', ac_CacheDir = ''s1''\<rparr> (ix_upgrade (ct_index (demo_ct demo_upgraded))) = (Inr (), kv)"
      by (simp add: index_Update_def index_put_def demo_ct_def empty_store_def)
    moreover have "cl_NewIDAddress (ce_lib (pe_env (sn_pe demo_upenv))) 1000 = Inr (IDAddress 1000)" "ca_SectorSize (pe_ca (sn_pe demo_upenv)) t = Inr 64"
      "\<exists>ui. ss_UpgradedInfo demo_upgraded = Some ui \<and> ui_AccessInstance ui = ''s1''" for t
      by (simp_all add: demo_upenv_def demo_proc_def demo_proc_api_def demo_env_def demo_check_defs demo_upgraded_def)
    ultimately show ?thesis using that by (fastforce simp: commit_prologue_def)
  qed
  let ?ct1 = "(demo_ct demo_upgraded)\<lparr>ct_index := (ct_index (demo_ct demo_upgraded))\<lparr>ix_upgrade := kv\<rparr>\<rparr>"
  have load1: "Load demo_sid WorkerOnline (ct_smgr ?ct1) = (Inr demo_upgraded, ct_smgr ?ct1)" using load by simp
  have commit: "snap_Commit demo_sid sys = (Inr (), spawn (sy_next sys) demo_upgraded (with_ct_smgr (ct_smgr (sy_ct sys)) (add_entry demo_sid sys)))"
    if "sy_jobs sys demo_sid = None" "sy_ct sys = demo_ct demo_upgraded \<or> sy_ct sys = ?ct1" for sys
    using that load load1 up by (auto simp: snap_Commit_def add_entry_def)
  show ?thesis
    by (simp add: demo_trace_def commit upjob_step_def job_stop_def job_exit_def CancelCommitment_def pro spawn_def add_entry_def with_ct_smgr_def
        demo_sys_def) (intro exI [of _ 1] exI [of _ 2], simp)
qed

theorem failed_Commit_blocks_sector_witness:
  "fst (snap_Commit demo_sid (snd (snap_Commit demo_sid (demo_sys\<lparr>sy_ct := demo_ct (new_sector_state demo_sid 8)\<rparr>)))) = Inl (Errorf ''duplicate commit job'')"
proof -
  let ?sys = "demo_sys\<lparr>sy_ct := demo_ct (new_sector_state demo_sid 8)\<rparr>"
  have "Load demo_sid WorkerOnline (ct_smgr (demo_ct (new_sector_state demo_sid 8))) = (Inr (new_sector_state demo_sid 8), ct_smgr (demo_ct (new_sector_state demo_sid 8)))"
    by (simp add: Load_def loadInner_def demo_ct_def demo_store_def put_store_def)
  then have "snap_Commit demo_sid ?sys = (Inl (Errorf ''sector is not upgraded''), snd (snap_Commit demo_sid ?sys))"
    by (simp add: snap_Commit_def add_entry_def demo_sys_def new_sector_state_def)
  from failed_Commit_blocks_sector [OF this] show ?thesis by (simp add: demo_sys_def)
qed

end
