(* ===== verification/Sector_Locker.thy ===== *)
theory Sector_Locker
  imports Core_Types
begin

text \<open>
  The locks on sectors (\<open>modules/impl/sectors/sector_locker.go\<close>), which the state manager and the number allocator take
  for the duration of an operation. The map from sectors to locks only grows; the mutex of a sector is free or held by one
  caller. A caller asks for a list of sectors and takes their mutexes one after the other in the order of
  the list; when its operation is over it gives them all back. A single \<open>lock\<close> is a list of one sector.
\<close>

section \<open>The locker\<close>

text \<open>The entries with the time they were last asked for.\<close>

type_synonym lock_entries = "sector_id \<rightharpoonup> int"

definition touch :: "int \<Rightarrow> sector_id \<Rightarrow> lock_entries \<Rightarrow> lock_entries" where
  "touch now sid m = m(sid \<mapsto> now)"

definition touch_all :: "int \<Rightarrow> sector_id list \<Rightarrow> lock_entries \<Rightarrow> lock_entries" where
  "touch_all now sids m = fold (touch now) sids m"

text \<open>Owners of the mutexes, and for every caller what it holds and what it still has to take; \<open>None\<close> when it is not in an operation.\<close>

record lock_sys =
  lk_entries :: lock_entries
  lk_owner :: "sector_id \<rightharpoonup> nat"
  lk_held :: "nat \<Rightarrow> sector_id list"
  lk_todo :: "nat \<Rightarrow> sector_id list option"

definition idle :: "lock_sys \<Rightarrow> bool" where
  "idle s = (lk_owner s = Map.empty \<and> (\<forall>i. lk_todo s i = None))"

definition lockBatch :: "int \<Rightarrow> nat \<Rightarrow> sector_id list \<Rightarrow> lock_sys \<Rightarrow> lock_sys" where
  "lockBatch now i sids s = s\<lparr>lk_entries := touch_all now sids (lk_entries s),
     lk_held := (lk_held s)(i := []), lk_todo := (lk_todo s)(i := Some sids)\<rparr>"

definition take_mutex :: "nat \<Rightarrow> sector_id \<Rightarrow> sector_id list \<Rightarrow> lock_sys \<Rightarrow> lock_sys" where
  "take_mutex i sid rest s = s\<lparr>lk_owner := (lk_owner s)(sid \<mapsto> i), lk_held := (lk_held s)(i := lk_held s i @ [sid]),
     lk_todo := (lk_todo s)(i := Some rest)\<rparr>"

definition unlock_all :: "nat \<Rightarrow> lock_sys \<Rightarrow> lock_sys" where
  "unlock_all i s = s\<lparr>lk_owner := (\<lambda>sid. if sid \<in> set (lk_held s i) then None else lk_owner s sid),
     lk_held := (lk_held s)(i := []), lk_todo := (lk_todo s)(i := None)\<rparr>"

text \<open>A step of a caller: to ask, to take the next mutex when it is free, to give all back.\<close>

inductive lock_step :: "nat \<Rightarrow> lock_sys \<Rightarrow> lock_sys \<Rightarrow> bool" where
  ask: "lk_todo s i = None \<Longrightarrow> lock_step i s (lockBatch now i sids s)"
| take: "lk_todo s i = Some (sid # rest) \<Longrightarrow> lk_owner s sid = None \<Longrightarrow> lock_step i s (take_mutex i sid rest s)"
| give: "lk_todo s i = Some [] \<Longrightarrow> lock_step i s (unlock_all i s)"

inductive_cases lock_stepE: "lock_step i s s1"

inductive lock_reachable :: "(sector_id list \<Rightarrow> bool) \<Rightarrow> lock_sys \<Rightarrow> bool" for P where
  lk_start: "idle s \<Longrightarrow> lock_reachable P s"
| lk_ask: "lock_reachable P s \<Longrightarrow> lk_todo s i = None \<Longrightarrow> P sids \<Longrightarrow> lock_reachable P (lockBatch now i sids s)"
| lk_go: "lock_reachable P s \<Longrightarrow> lk_todo s i \<noteq> None \<Longrightarrow> lock_step i s s1 \<Longrightarrow> lock_reachable P s1"

definition active :: "lock_sys \<Rightarrow> nat set" where
  "active s = {i. lk_todo s i \<noteq> None}"

section \<open>Lemmas\<close>

text \<open>The order of sectors by miner and number.\<close>

definition sid_less :: "sector_id \<Rightarrow> sector_id \<Rightarrow> bool" where
  "sid_less a b = (sid_Miner a < sid_Miner b \<or> sid_Miner a = sid_Miner b \<and> sid_Number a < sid_Number b)"

definition sid_nat :: "sector_id \<Rightarrow> nat" where
  "sid_nat a = unat (sid_Miner a) * 2 ^ 64 + unat (sid_Number a)"

lemma sid_less_nat: "sid_less a b \<Longrightarrow> sid_nat a < sid_nat b"
proof -
  have b: "unat (sid_Number x) < 2 ^ 64" for x using unsigned_less [of "sid_Number x"] by simp
  assume "sid_less a b"
  then consider "unat (sid_Miner a) < unat (sid_Miner b)" | "sid_Miner a = sid_Miner b" "unat (sid_Number a) < unat (sid_Number b)"
    by (auto simp: sid_less_def word_less_nat_alt)
  then show ?thesis
  proof cases
    case 1
    then have "Suc (unat (sid_Miner a)) * 2 ^ 64 \<le> unat (sid_Miner b) * 2 ^ 64" by (intro mult_le_mono1) simp
    with b [of a] show ?thesis by (simp add: sid_nat_def)
  qed (simp add: sid_nat_def)
qed

definition in_order_batch :: "sector_id list \<Rightarrow> bool" where
  "in_order_batch sids = sorted_wrt (\<lambda>a b. sid_nat a < sid_nat b) sids"

definition owners_ok :: "lock_sys \<Rightarrow> bool" where
  "owners_ok s = (\<forall>sid i. lk_owner s sid = Some i \<longleftrightarrow> lk_todo s i \<noteq> None \<and> sid \<in> set (lk_held s i))"

definition todo_ordered :: "lock_sys \<Rightarrow> bool" where
  "todo_ordered s = (\<forall>i todo. lk_todo s i = Some todo \<longrightarrow> in_order_batch (lk_held s i @ todo))"

lemma owners_ok_take:
  assumes "owners_ok s" "lk_todo s i = Some (sid # rest)" "lk_owner s sid = None"
  shows "owners_ok (take_mutex i sid rest s)"
proof -
  have "sid \<notin> set (lk_held s j)" if "lk_todo s j \<noteq> None" for j
    using assms(1,3) that unfolding owners_ok_def by (metis option.distinct(1))
  with assms show ?thesis unfolding owners_ok_def take_mutex_def by auto
qed

lemma owners_ok_give:
  assumes "owners_ok s" "lk_todo s i = Some todo"
  shows "owners_ok (unlock_all i s)"
proof -
  have "j = i" if "sid \<in> set (lk_held s i)" "lk_todo s j \<noteq> None" "sid \<in> set (lk_held s j)" for sid j
  proof -
    have "lk_owner s sid = Some i" "lk_owner s sid = Some j" using assms that by (auto simp: owners_ok_def)
    then show ?thesis by simp
  qed
  then show ?thesis using assms by (fastforce simp: owners_ok_def unlock_all_def)
qed

lemma owners_ok_ask: "owners_ok s \<Longrightarrow> lk_todo s i = None \<Longrightarrow> owners_ok (lockBatch now i sids s)"
  by (auto simp: owners_ok_def lockBatch_def)

lemma owners_ok_step: "owners_ok s \<Longrightarrow> lock_step i s s1 \<Longrightarrow> owners_ok s1"
  by (erule lock_stepE) (auto intro: owners_ok_take owners_ok_give owners_ok_ask)

lemma lock_reachable_owners: "lock_reachable P s \<Longrightarrow> owners_ok s"
proof (induction rule: lock_reachable.induct)
  case (lk_start s)
  then show ?case by (simp add: idle_def owners_ok_def)
next
  case (lk_ask s i sids now)
  then show ?case by (simp add: owners_ok_ask)
qed (blast intro: owners_ok_step)

lemma lock_reachable_ordered: "lock_reachable in_order_batch s \<Longrightarrow> todo_ordered s"
proof (induction rule: lock_reachable.induct)
  case (lk_go s i s1)
  from lk_go.hyps(3) show ?case
    by (cases rule: lock_stepE) (use lk_go.hyps(2) lk_go.IH in \<open>auto simp: todo_ordered_def take_mutex_def unlock_all_def\<close>)
qed (auto simp: idle_def todo_ordered_def lockBatch_def)

section \<open>Properties\<close>

text \<open>C33. When every batch names its sectors in the order of miners and numbers, the callers never block each other for good: as long as
  finitely many of them are in an operation, one of these can go on.\<close>

theorem ordered_batches_never_deadlock:
  assumes "lock_reachable in_order_batch s" "finite (active s)" "active s \<noteq> {}"
  shows "\<exists>i s1. i \<in> active s \<and> lock_step i s s1"
proof (rule ccontr)
  assume stuck: "\<not> ?thesis"
  have inv: "owners_ok s" "todo_ordered s" using lock_reachable_owners lock_reachable_ordered assms(1) by blast+
  have blocked: "\<exists>sid rest j. lk_todo s i = Some (sid # rest) \<and> lk_owner s sid = Some j" if i: "i \<in> active s" for i
  proof -
    obtain todo where t: "lk_todo s i = Some todo" using i by (auto simp: active_def)
    with stuck i give [of s i] obtain sid rest where "todo = sid # rest" by (cases todo) auto
    with stuck i t take [of s i sid rest] show ?thesis by (cases "lk_owner s sid") auto
  qed
  define want where "want i = (case lk_todo s i of Some (sid # _) \<Rightarrow> sid_nat sid | _ \<Rightarrow> 0)" for i
  have "Max (want ` active s) \<in> want ` active s" using assms(2,3) by (intro Max_in) simp_all
  then obtain i where i: "i \<in> active s" "want i = Max (want ` active s)" by (metis imageE)
  then have mx: "want j \<le> want i" if "j \<in> active s" for j using that assms(2) by (simp add: Max_ge)
  from blocked [OF i(1)] obtain sid rest j where b: "lk_todo s i = Some (sid # rest)" "lk_owner s sid = Some j" by blast
  then have j: "j \<in> active s" "sid \<in> set (lk_held s j)" using inv(1) by (auto simp: owners_ok_def active_def)
  from blocked [OF j(1)] obtain sid' rest' where w: "lk_todo s j = Some (sid' # rest')" by blast
  then have "sid_nat sid < sid_nat sid'" using inv(2) j(2) by (auto simp: todo_ordered_def in_order_batch_def sorted_wrt_append)
  moreover have "want j = sid_nat sid'" "want i = sid_nat sid" using w b by (simp_all add: want_def)
  ultimately show False using mx [OF j(1)] by simp
qed

text \<open>Without the order they can: two batches of the same two sectors in opposite orders reach a state in which each caller waits for a mutex the other one
  holds, and no caller that is in an operation has a step.\<close>

definition demo_a :: sector_id where "demo_a = \<lparr>sid_Miner = 1000, sid_Number = 1\<rparr>"
definition demo_b :: sector_id where "demo_b = \<lparr>sid_Miner = 1000, sid_Number = 2\<rparr>"

definition demo_idle :: lock_sys where
  "demo_idle = \<lparr>lk_entries = Map.empty, lk_owner = Map.empty, lk_held = (\<lambda>_. []), lk_todo = (\<lambda>_. None)\<rparr>"

definition demo_dead :: lock_sys where
  "demo_dead = take_mutex 1 demo_b [demo_a] (take_mutex 0 demo_a [demo_b] (lockBatch 0 1 [demo_b, demo_a] (lockBatch 0 0 [demo_a, demo_b] demo_idle)))"

theorem unordered_batches_can_deadlock:
  "\<exists>s. lock_reachable (\<lambda>_. True) s \<and> active s = {0, 1} \<and> \<not> (\<exists>i s1. i \<in> active s \<and> lock_step i s s1)"
proof -
  have ab: "demo_a \<noteq> demo_b" by (simp add: demo_a_def demo_b_def)
  let ?s0 = "lockBatch 0 0 [demo_a, demo_b] demo_idle"
  let ?s1 = "lockBatch 0 1 [demo_b, demo_a] ?s0"
  let ?s2 = "take_mutex 0 demo_a [demo_b] ?s1"
  have "lock_reachable (\<lambda>_. True) demo_idle" by (rule lk_start) (simp add: idle_def demo_idle_def)
  then have "lock_reachable (\<lambda>_. True) ?s0" by (rule lk_ask) (simp_all add: demo_idle_def)
  then have "lock_reachable (\<lambda>_. True) ?s1" by (rule lk_ask) (simp_all add: demo_idle_def lockBatch_def)
  then have "lock_reachable (\<lambda>_. True) ?s2"
    by (rule lk_go [of _ _ 0]) (auto simp: demo_idle_def lockBatch_def intro: lock_step.take)
  moreover have "lock_step 1 ?s2 demo_dead" unfolding demo_dead_def
    by (rule lock_step.take) (use ab in \<open>simp_all add: demo_idle_def lockBatch_def take_mutex_def\<close>)
  moreover have "lk_todo ?s2 1 \<noteq> None" by (simp add: demo_idle_def lockBatch_def take_mutex_def)
  ultimately have r: "lock_reachable (\<lambda>_. True) demo_dead" using lk_go by blast
  have t: "lk_todo demo_dead 0 = Some [demo_b]" "lk_todo demo_dead 1 = Some [demo_a]" "lk_owner demo_dead demo_a = Some 0"
    "lk_owner demo_dead demo_b = Some 1" "\<And>i. i \<noteq> 0 \<Longrightarrow> i \<noteq> 1 \<Longrightarrow> lk_todo demo_dead i = None"
    using ab by (simp_all add: demo_dead_def take_mutex_def lockBatch_def demo_idle_def)
  have act: "active demo_dead = {0, 1}" using t by (auto simp: active_def) (metis option.distinct(1))
  have "\<not> lock_step i demo_dead s1" if "i \<in> active demo_dead" for i s1
  proof
    assume st: "lock_step i demo_dead s1"
    have "i = 0 \<or> i = 1" using that act by simp
    then show False
    proof
      assume "i = 0"
      with st show False by (elim lock_stepE) (simp_all add: t(1,4))
    next
      assume "i = 1"
      with st show False by (elim lock_stepE) (simp_all add: t(2,3) del: One_nat_def)
    qed
  qed
  with r act show ?thesis by blast
qed

text \<open>A batch that names a sector twice never gets its locks: once the caller waits for a mutex it holds itself, it does so after every later step
  of anyone.\<close>

lemma self_blocked_step:
  assumes "owners_ok s" "lk_todo s i = Some (sid # rest)" "lk_owner s sid = Some i" "lock_step j s s1"
  shows "owners_ok s1 \<and> lk_todo s1 i = Some (sid # rest) \<and> lk_owner s1 sid = Some i"
proof -
  have "j \<noteq> i"
  proof
    assume "j = i"
    with assms(4) assms(2,3) show False by (auto elim: lock_stepE)
  qed
  moreover have "sid \<notin> set (lk_held s j)" if "lk_todo s j \<noteq> None"
    using assms(1,3) that \<open>j \<noteq> i\<close> unfolding owners_ok_def by (metis option.inject)
  ultimately show ?thesis using assms(2-4) owners_ok_step [OF assms(1,4)]
    by (auto elim!: lock_stepE simp: lockBatch_def take_mutex_def unlock_all_def)
qed

theorem repeated_sector_blocks_forever:
  assumes "lock_reachable P s" "lk_todo s i = Some (sid # rest)" "lk_owner s sid = Some i" "(\<lambda>a b. \<exists>j. lock_step j a b)\<^sup>*\<^sup>* s s1"
  shows "lk_todo s1 i = Some (sid # rest)"
proof -
  have "owners_ok s1 \<and> lk_todo s1 i = Some (sid # rest) \<and> lk_owner s1 sid = Some i"
    using assms(4)
  proof induction
    case base
    then show ?case using lock_reachable_owners [OF assms(1)] assms(2,3) by blast
  next
    case (step y z)
    then show ?case using self_blocked_step by blast
  qed
  then show ?thesis by blast
qed

theorem ordered_batches_never_deadlock_witness:
  "\<exists>i s1. i \<in> active (lockBatch 0 0 [demo_a, demo_b] demo_idle) \<and> lock_step i (lockBatch 0 0 [demo_a, demo_b] demo_idle) s1"
proof (rule ordered_batches_never_deadlock)
  have "lock_reachable in_order_batch demo_idle" by (rule lk_start) (simp add: idle_def demo_idle_def)
  then show "lock_reachable in_order_batch (lockBatch 0 0 [demo_a, demo_b] demo_idle)"
    by (rule lk_ask) (simp_all add: demo_idle_def in_order_batch_def sid_nat_def demo_a_def demo_b_def)
  have "active (lockBatch 0 0 [demo_a, demo_b] demo_idle) = {0}" by (auto simp: active_def lockBatch_def demo_idle_def)
  then show "finite (active (lockBatch 0 0 [demo_a, demo_b] demo_idle))" "active (lockBatch 0 0 [demo_a, demo_b] demo_idle) \<noteq> {}" by simp_all
qed

end
