(* ===== verification/Deal_Manager.thy ===== *)
theory Deal_Manager
  imports Sector_Allocation
begin

text \<open>
  The deal manager (\<open>modules/impl/dealmgr/dealmgr.go\<close>): deals for a sector are assigned by the market, a service, and given
  back to it. The market's answers are parameters that may depend on what it did before, which is the state of the model: the
  assignments and releases it carried out.
\<close>

section \<open>The market\<close>

record market_deal =
  md_DealID :: u64
  md_AllocationID :: u64
  md_PieceCID :: cid
  md_PieceSize :: u64
  md_Offset :: u64
  md_Client :: address
  md_StartEpoch :: epoch
  md_EndEpoch :: epoch

record get_deal_spec =
  gs_MaxPiece :: int
  gs_MinUsedSpace :: u64
  gs_StartEpoch :: epoch
  gs_EndEpoch :: epoch
  gs_SectorExpiration :: "epoch option"

datatype market_call =
    Assigned sector_id "market_deal list"
  | ReleasedDeals address "u64 list"
  | ReleasedDirect address "u64 list"

type_synonym market = "market_call list"

record market_api =
  mk_AssignDeals :: "market \<Rightarrow> sector_id \<Rightarrow> u64 \<Rightarrow> get_deal_spec \<Rightarrow> market_deal list res"
  mk_ReleaseDeals :: "market \<Rightarrow> address \<Rightarrow> u64 list \<Rightarrow> unit res"
  mk_ReleaseDirectDeals :: "market \<Rightarrow> address \<Rightarrow> u64 list \<Rightarrow> unit res"
  mk_IsBuiltinMarket :: "market_deal \<Rightarrow> bool"
  mk_NewIDAddress :: "u64 \<Rightarrow> address res"

record acquire_spec =
  aq_MaxDeals :: "u64 option"
  aq_MinUsedSpace :: "u64 option"

record acquire_lifetime =
  al_Start :: epoch
  al_End :: epoch
  al_SectorExpiration :: "epoch option"

record deal_state =
  dm_cache :: info_cache
  dm_market :: market

section \<open>Operations\<close>

definition deals_enabled :: "miner_config \<Rightarrow> worker_job \<Rightarrow> bool" where
  "deals_enabled mcfg job = (case job of
     JobSealing \<Rightarrow> msc_EnableDeals (mc_Sector mcfg)
   | JobSnapUp \<Rightarrow> msu_Enabled (mc_SnapUp mcfg)
   | _ \<Rightarrow> False)"

text \<open>\<open>int(*spec.MaxDeals)\<close> keeps the bits of the unsigned number.\<close>

definition get_deal_spec_of :: "acquire_spec \<Rightarrow> acquire_lifetime option \<Rightarrow> get_deal_spec" where
  "get_deal_spec_of spec lifetime =
    \<lparr>gs_MaxPiece = (case aq_MaxDeals spec of None \<Rightarrow> 0 | Some n \<Rightarrow> sint n),
     gs_MinUsedSpace = (case aq_MinUsedSpace spec of None \<Rightarrow> 0 | Some n \<Rightarrow> n),
     gs_StartEpoch = (case lifetime of None \<Rightarrow> 0 | Some l \<Rightarrow> al_Start l),
     gs_EndEpoch = (case lifetime of None \<Rightarrow> 0 | Some l \<Rightarrow> al_End l),
     gs_SectorExpiration = (case lifetime of None \<Rightarrow> None | Some l \<Rightarrow> al_SectorExpiration l)\<rparr>"

definition piece_of :: "market_api \<Rightarrow> market_deal \<Rightarrow> sector_piece_v2" where
  "piece_of mk d = \<lparr>sp_Piece = \<lparr>ap_Size = md_PieceSize d, ap_PieceCID = md_PieceCID d\<rparr>,
     sp_DealInfo = Some \<lparr>di_DealID = md_DealID d, di_AllocationID = md_AllocationID d, di_PieceCID = md_PieceCID d,
       di_Offset = md_Offset d, di_Client = md_Client d, di_StartEpoch = md_StartEpoch d, di_EndEpoch = md_EndEpoch d,
       di_IsBuiltinMarket = mk_IsBuiltinMarket mk d, di_IsCompatible = False\<rparr>\<rparr>"

text \<open>The history holds what the market is known to have assigned: an assignment that answers with an error is not in it. Whether
  the market keeps such an assignment all the same is its own affair; the manager has no deals to give back then.\<close>

definition Acquire :: "market_api \<Rightarrow> miner_chain \<Rightarrow> safe_config \<Rightarrow> sector_id \<Rightarrow> acquire_spec \<Rightarrow> acquire_lifetime option \<Rightarrow> worker_job \<Rightarrow>
    (deal_state, sector_piece_v2 list) step" where
  "Acquire mk ca cfg sid spec lifetime job s = (case MinerConfig cfg (sid_Miner sid) of
     Inl e \<Rightarrow> (Inl (Wrap ''get miner config'' e), s)
   | Inr mcfg \<Rightarrow> if \<not> deals_enabled mcfg job then (Inr [], s)
       else (case GetInfo ca cfg (sid_Miner sid) (dm_cache s) of
           (Inl e, c) \<Rightarrow> (Inl (Wrap ''get miner info'' e), s\<lparr>dm_cache := c\<rparr>)
         | (Inr minfo, c) \<Rightarrow> (case mk_AssignDeals mk (dm_market s) sid (min_SectorSize minfo) (get_deal_spec_of spec lifetime) of
             Inl e \<Rightarrow> (Inl (Wrap ''assign non-packed deals'' e), s\<lparr>dm_cache := c\<rparr>)
           | Inr ds \<Rightarrow> (Inr (map (piece_of mk) ds), s\<lparr>dm_cache := c, dm_market := dm_market s @ [Assigned sid ds]\<rparr>))))"

definition builtin_ids :: "sector_piece_v2 list \<Rightarrow> u64 list" where
  "builtin_ids ps = map (DealID \<circ> PieceV2) (filter (\<lambda>p. HasDealInfo (PieceV2 p) \<and> IsBuiltinMarket (PieceV2 p)) ps)"

definition direct_ids :: "sector_piece_v2 list \<Rightarrow> u64 list" where
  "direct_ids ps = map (AllocationID \<circ> PieceV2) (filter (\<lambda>p. HasDealInfo (PieceV2 p) \<and> \<not> IsBuiltinMarket (PieceV2 p)) ps)"

definition release_builtin :: "market_api \<Rightarrow> address \<Rightarrow> u64 list \<Rightarrow> (market, unit) step" where
  "release_builtin mk maddr ids m = (if length ids > 0 then
     (case mk_ReleaseDeals mk m maddr ids of
        Inl e \<Rightarrow> (Inl (Wrap ''release builtin market deals'' e), m)
      | Inr _ \<Rightarrow> (Inr (), m @ [ReleasedDeals maddr ids]))
     else (Inr (), m))"

definition release_direct :: "market_api \<Rightarrow> address \<Rightarrow> u64 list \<Rightarrow> (market, unit) step" where
  "release_direct mk maddr ids m = (if length ids > 0 then
     (case mk_ReleaseDirectDeals mk m maddr ids of
        Inl e \<Rightarrow> (Inl (Wrap ''release ddo deals'' e), m)
      | Inr _ \<Rightarrow> (Inr (), m @ [ReleasedDirect maddr ids]))
     else (Inr (), m))"

definition deal_Release :: "market_api \<Rightarrow> sector_id \<Rightarrow> sector_piece_v2 list \<Rightarrow> (market, unit) step" where
  "deal_Release mk sid ps m = (case mk_NewIDAddress mk (sid_Miner sid) of
     Inl e \<Rightarrow> (Inl (Wrap ''invalid miner id'' e), m)
   | Inr maddr \<Rightarrow> (case release_builtin mk maddr (builtin_ids ps) m of
       (Inl e, m1) \<Rightarrow> (Inl e, m1)
     | (Inr _, m1) \<Rightarrow> release_direct mk maddr (direct_ids ps) m1))"

definition ReleaseLegacyDeal :: "market_api \<Rightarrow> sector_id \<Rightarrow> legacy_deal_info list \<Rightarrow> (market, unit) step" where
  "ReleaseLegacyDeal mk sid deals m = (case mk_NewIDAddress mk (sid_Miner sid) of
     Inl e \<Rightarrow> (Inl (Wrap ''invalid miner id'' e), m)
   | Inr maddr \<Rightarrow> release_builtin mk maddr (map ld_ID deals) m)"

section \<open>Lemmas\<close>

text \<open>What a release that succeeds adds to the market's history.\<close>

definition releases :: "market_api \<Rightarrow> sector_id \<Rightarrow> sector_piece_v2 list \<Rightarrow> market" where
  "releases mk sid ps = (case mk_NewIDAddress mk (sid_Miner sid) of
     Inl e \<Rightarrow> []
   | Inr maddr \<Rightarrow> (if builtin_ids ps = [] then [] else [ReleasedDeals maddr (builtin_ids ps)]) @
       (if direct_ids ps = [] then [] else [ReleasedDirect maddr (direct_ids ps)]))"

lemma deal_Release_ok: "deal_Release mk sid ps m = (Inr u, m1) \<Longrightarrow> m1 = m @ releases mk sid ps"
  by (auto simp: deal_Release_def release_builtin_def release_direct_def releases_def split: sum.splits if_splits prod.splits)

lemma AcquireD:
  assumes "Acquire mk ca cfg sid spec lifetime job s = (r, s1)"
  shows "(\<exists>ds. r = Inr (map (piece_of mk) ds) \<and> dm_market s1 = dm_market s @ [Assigned sid ds]) \<or>
    (r = Inr [] \<and> dm_market s1 = dm_market s) \<or> (\<exists>e. r = Inl e \<and> dm_market s1 = dm_market s)"
  using assms by (auto simp: Acquire_def split: sum.splits if_splits prod.splits)

text \<open>A deal the market assigned that is identified: a built-in deal by its deal, a direct one by its allocation.\<close>

definition identified :: "market_api \<Rightarrow> market_deal \<Rightarrow> bool" where
  "identified mk d = (if mk_IsBuiltinMarket mk d then md_DealID d \<noteq> 0 else md_AllocationID d \<noteq> 0)"

lemma piece_of_simps:
  "HasDealInfo (PieceV2 (piece_of mk d)) \<longleftrightarrow> md_DealID d \<noteq> 0 \<or> md_AllocationID d \<noteq> 0"
  "HasDealInfo (PieceV2 (piece_of mk d)) \<Longrightarrow> IsBuiltinMarket (PieceV2 (piece_of mk d)) = mk_IsBuiltinMarket mk d"
  "HasDealInfo (PieceV2 (piece_of mk d)) \<Longrightarrow> mk_IsBuiltinMarket mk d \<Longrightarrow> DealID (PieceV2 (piece_of mk d)) = md_DealID d"
  "HasDealInfo (PieceV2 (piece_of mk d)) \<Longrightarrow> AllocationID (PieceV2 (piece_of mk d)) = md_AllocationID d"
  by (simp_all add: piece_of_def)

lemma identified_HasDealInfo: "identified mk d \<Longrightarrow> HasDealInfo (PieceV2 (piece_of mk d))"
  unfolding piece_of_simps(1) by (auto simp: identified_def split: if_splits)

lemma acquired_ids:
  assumes "list_all (identified mk) ds"
  shows "builtin_ids (map (piece_of mk) ds) = map md_DealID (filter (mk_IsBuiltinMarket mk) ds) \<and>
    direct_ids (map (piece_of mk) ds) = map md_AllocationID (filter (\<lambda>d. \<not> mk_IsBuiltinMarket mk d) ds)"
  using assms
proof (induction ds)
  case (Cons d ds)
  then have h: "HasDealInfo (PieceV2 (piece_of mk d))" by (intro identified_HasDealInfo) simp
  from piece_of_simps(2-4) [OF h] Cons show ?case
    by (auto simp: builtin_ids_def direct_ids_def h simp del: IsBuiltinMarket.simps DealID.simps AllocationID.simps HasDealInfo.simps)
qed (simp add: builtin_ids_def direct_ids_def)

section \<open>Properties\<close>


section \<open>Instances\<close>

definition demo_deal :: market_deal where
  "demo_deal = \<lparr>md_DealID = 3, md_AllocationID = 0, md_PieceCID = ''p'', md_PieceSize = 2048, md_Offset = 0, md_Client = Undef,
     md_StartEpoch = 100, md_EndEpoch = 200\<rparr>"

definition demo_market_api :: market_api where
  "demo_market_api = \<lparr>mk_AssignDeals = (\<lambda>_ _ _ _. Inr [demo_deal]), mk_ReleaseDeals = (\<lambda>_ _ _. Inr ()),
     mk_ReleaseDirectDeals = (\<lambda>_ _ _. Inr ()), mk_IsBuiltinMarket = (\<lambda>d. md_DealID d \<noteq> 0), mk_NewIDAddress = (\<lambda>i. Inr (IDAddress i))\<rparr>"

definition demo_deal_cfg :: safe_config where
  "demo_deal_cfg = map (\<lambda>m. m\<lparr>mc_Sector := (mc_Sector m)\<lparr>msc_EnableDeals := True\<rparr>\<rparr>) demo_cfg"

lemma demo_Acquire: "\<exists>c. Acquire demo_market_api demo_chain demo_deal_cfg \<lparr>sid_Miner = 1000, sid_Number = 7\<rparr> \<lparr>aq_MaxDeals = None, aq_MinUsedSpace = None\<rparr> None JobSealing
    \<lparr>dm_cache = Map.empty, dm_market = []\<rparr> = (Inr [piece_of demo_market_api demo_deal],
      \<lparr>dm_cache = c, dm_market = [Assigned \<lparr>sid_Miner = 1000, sid_Number = 7\<rparr> [demo_deal]]\<rparr>)"
proof -
  have "\<exists>c mi. GetInfo demo_chain demo_deal_cfg 1000 Map.empty = (Inr mi, c)"
    by (simp add: GetInfo_def fetch_info_def demo_chain_def Let_def)
  moreover have "\<exists>m. MinerConfig demo_deal_cfg 1000 = Inr m \<and> deals_enabled m JobSealing"
    by (simp add: demo_deal_cfg_def demo_cfg_def deals_enabled_def)
  moreover have "mk_AssignDeals demo_market_api m sid z g = Inr [demo_deal]" for m sid z g by (simp add: demo_market_api_def)
  ultimately show ?thesis by (fastforce simp: Acquire_def)
qed


end
