(* ===== verification/Worker_Manager.thy ===== *)
theory Worker_Manager
  imports KV_Store
begin

text \<open>
  The manager of worker information (\<open>modules/impl/worker/mgr.go\<close>, \<open>core/worker.go\<close>): the last ping of every worker, by name, and
  the counts the metrics thread derives from them. Go's \<open>uint\<close> has 64 bits.
\<close>

section \<open>Data\<close>

record worker_summary =
  ws_Threads :: u64
  ws_Empty :: u64
  ws_Paused :: u64
  ws_Running :: u64
  ws_Waiting :: u64
  ws_Errors :: u64

record worker_info =
  wk_Name :: string
  wk_Dest :: string
  wk_Version :: string
  wk_Summary :: worker_summary

record worker_ping =
  wp_Info :: worker_info
  wp_LastPing :: int

definition summary_Map :: "worker_summary \<Rightarrow> (string \<times> u64) list" where
  "summary_Map s = [(''empty'', ws_Empty s), (''paused'', ws_Paused s), (''running'', ws_Running s),
     (''waiting'', ws_Waiting s), (''errors'', ws_Errors s)]"

type_synonym worker_store = "worker_ping json kvs"

section \<open>Operations\<close>

definition makeWorkerKey :: "string \<Rightarrow> key" where
  "makeWorkerKey nm = nm"

definition worker_Load :: "string \<Rightarrow> (worker_store, worker_ping) step" where
  "worker_Load nm kv = (case kv_Peek (makeWorkerKey nm) unmarshal kv of
     (Inl e, kv1) \<Rightarrow> (Inl (Wrap ''load worker info'' e), kv1)
   | (Inr w, kv1) \<Rightarrow> (Inr w, kv1))"

definition worker_Update :: "worker_ping \<Rightarrow> (worker_store, unit) step" where
  "worker_Update w = kv_Put (makeWorkerKey (wk_Name (wp_Info w))) (Json w)"

fun scan_workers :: "(worker_ping \<Rightarrow> bool) option \<Rightarrow> (key \<times> worker_ping json) list \<Rightarrow> (worker_store, worker_ping list) step" where
  "scan_workers flt [] kv = (Inr [], kv)"
| "scan_workers flt ((k, d) # es) kv = (case iter_View d unmarshal kv of
     (Inl e, kv1) \<Rightarrow> (Inl (Wrap (''scan state item of key '' @ k) e), kv1)
   | (Inr w, kv1) \<Rightarrow> (case scan_workers flt es kv1 of
       (Inl e, kv2) \<Rightarrow> (Inl e, kv2)
     | (Inr ws, kv2) \<Rightarrow> (Inr (if (case flt of None \<Rightarrow> True | Some f \<Rightarrow> f w) then w # ws else ws), kv2)))"

definition worker_All :: "(worker_ping \<Rightarrow> bool) option \<Rightarrow> (worker_store, worker_ping list) step" where
  "worker_All flt kv = scan_workers flt (kv_Scan [] kv) kv"

definition worker_Remove :: "string \<Rightarrow> (worker_store, unit) step" where
  "worker_Remove nm kv = (case kv_Del (makeWorkerKey nm) kv of
     (Inl e, kv1) \<Rightarrow> (Inl (Wrap ''try to remove the worker meta'' e), kv1)
   | (Inr _, kv1) \<Rightarrow> (Inr (), kv1))"

section \<open>Metrics\<close>

definition latency_class :: "int \<Rightarrow> string" where
  "latency_class l = (if l \<le> 60 then ''latency<=60s'' else if l \<le> 120 then ''latency<=120s''
     else if l \<le> 300 then ''latency<=300s'' else ''latency>300s'')"

definition latency_counts :: "int \<Rightarrow> worker_ping list \<Rightarrow> string \<Rightarrow> nat" where
  "latency_counts now infos c = length (filter (\<lambda>w. latency_class (now - wp_LastPing w) = c) infos)"

definition thread_counts :: "worker_ping list \<Rightarrow> string \<Rightarrow> u64" where
  "thread_counts infos k = sum_list (map (\<lambda>w. case map_of (summary_Map (wk_Summary (wp_Info w))) k of None \<Rightarrow> 0 | Some v \<Rightarrow> v) infos)"

section \<open>Properties\<close>

text \<open>A worker's last ping is what is loaded under its name, whatever was stored before, and the pings of other workers stay.\<close>

theorem worker_ping_roundtrip:
  assumes "worker_Update w kv = (Inr (), kv1)" "worker_Load nm kv1 = (Inr v, kv2)"
  shows "if nm = wk_Name (wp_Info w) then v = w else map_of (kv_data kv) nm = Some (Json v)"
proof -
  from kv_PutD [OF assms(1) [unfolded worker_Update_def]]
  have put: "kv_data kv1 = put_entry (makeWorkerKey (wk_Name (wp_Info w))) (Json w) (kv_data kv)" by auto
  obtain q kv3 where q: "kv_Peek (makeWorkerKey nm) unmarshal kv1 = (q, kv3)" by fastforce
  with assms(2) have "q = Inr v" by (auto simp: worker_Load_def split: sum.splits)
  with kv_PeekJsonD [OF q] have "map_of (kv_data kv1) nm = Some (Json v)" by (auto simp: makeWorkerKey_def)
  with put show ?thesis by (auto simp: makeWorkerKey_def split: if_splits)
qed

text \<open>Every worker is counted in exactly one latency class.\<close>

lemma latency_classes_partition:
  "latency_counts now infos ''latency<=60s'' + latency_counts now infos ''latency<=120s'' +
   latency_counts now infos ''latency<=300s'' + latency_counts now infos ''latency>300s'' = length infos"
  by (induction infos) (auto simp: latency_counts_def latency_class_def)

end
