(* ===== verification/Randomness.thy ===== *)
theory Randomness
  imports Core_Types
begin

text \<open>
  Chain randomness (\<open>modules/impl/randomness/rand.go\<close>): the tickets and seeds of sealing and the randomness of window PoSt, drawn
  from the chain's tickets or its beacon under the domain of their use, with the miner's encoded address as
  entropy. The chain node and the encoding of addresses are parameters.
\<close>

datatype rand_domain = SealRandomness | InteractiveSealChallengeSeed | WindowedPoStChallengeSeed | PoStChainCommit

text \<open>A tipset key is a byte string; the empty one stands for the head.\<close>

record rand_api =
  ra_NewIDAddress :: "u64 \<Rightarrow> address res"
  ra_MarshalCBOR :: "address \<Rightarrow> bytes res"
  ra_ChainHead :: "bytes res"
  ra_FromTickets :: "rand_domain \<Rightarrow> epoch \<Rightarrow> bytes option \<Rightarrow> bytes \<Rightarrow> bytes res"
  ra_FromBeacon :: "rand_domain \<Rightarrow> epoch \<Rightarrow> bytes option \<Rightarrow> bytes \<Rightarrow> bytes res"

definition getRandomnessEntropy :: "rand_api \<Rightarrow> u64 \<Rightarrow> bytes res" where
  "getRandomnessEntropy api mid = (case ra_NewIDAddress api mid of
     Inl e \<Rightarrow> Inl e | Inr maddr \<Rightarrow> ra_MarshalCBOR api maddr)"

definition head_if_empty :: "rand_api \<Rightarrow> bytes \<Rightarrow> bytes res" where
  "head_if_empty api tsk = (if tsk = [] then ra_ChainHead api else Inr tsk)"

definition GetTicket :: "rand_api \<Rightarrow> bytes \<Rightarrow> epoch \<Rightarrow> u64 \<Rightarrow> ticket res" where
  "GetTicket api tsk ep mid = (case getRandomnessEntropy api mid of
     Inl e \<Rightarrow> Inl e
   | Inr entropy \<Rightarrow> (case head_if_empty api tsk of
       Inl e \<Rightarrow> Inl e
     | Inr key \<Rightarrow> (case ra_FromTickets api SealRandomness ep (Some entropy) key of
         Inl e \<Rightarrow> Inl e | Inr r \<Rightarrow> Inr \<lparr>tk_Ticket = r, tk_Epoch = ep\<rparr>)))"

definition GetSeed :: "rand_api \<Rightarrow> bytes \<Rightarrow> epoch \<Rightarrow> u64 \<Rightarrow> seed res" where
  "GetSeed api tsk ep mid = (case getRandomnessEntropy api mid of
     Inl e \<Rightarrow> Inl e
   | Inr entropy \<Rightarrow> (case head_if_empty api tsk of
       Inl e \<Rightarrow> Inl e
     | Inr key \<Rightarrow> (case ra_FromBeacon api InteractiveSealChallengeSeed ep (Some entropy) key of
         Inl e \<Rightarrow> Inl e | Inr r \<Rightarrow> Inr \<lparr>sd_Seed = r, sd_Epoch = ep\<rparr>)))"

record post_randomness =
  pr_Epoch :: epoch
  pr_Rand :: bytes

definition GetWindowPoStChanlleengeRand :: "rand_api \<Rightarrow> bytes \<Rightarrow> epoch \<Rightarrow> u64 \<Rightarrow> post_randomness res" where
  "GetWindowPoStChanlleengeRand api tsk ep mid = (case getRandomnessEntropy api mid of
     Inl e \<Rightarrow> Inl e
   | Inr entropy \<Rightarrow> (case head_if_empty api tsk of
       Inl e \<Rightarrow> Inl e
     | Inr key \<Rightarrow> (case ra_FromBeacon api WindowedPoStChallengeSeed ep (Some entropy) key of
         Inl e \<Rightarrow> Inl e | Inr r \<Rightarrow> Inr \<lparr>pr_Epoch = ep, pr_Rand = r\<rparr>)))"

definition GetWindowPoStCommitRand :: "rand_api \<Rightarrow> bytes \<Rightarrow> epoch \<Rightarrow> post_randomness res" where
  "GetWindowPoStCommitRand api tsk ep = (case head_if_empty api tsk of
     Inl e \<Rightarrow> Inl e
   | Inr key \<Rightarrow> (case ra_FromTickets api PoStChainCommit ep None key of
       Inl e \<Rightarrow> Inl e | Inr r \<Rightarrow> Inr \<lparr>pr_Epoch = ep, pr_Rand = r\<rparr>))"

end
