(* ===== verification/Sealer.thy ===== *)
theory Sealer
  imports Deal_Manager Worker_Manager Randomness SnapUp_Commit SnapUp_Allocator Sector_Unseal
begin

text \<open>
  The API the sealing workers call (\<open>modules/sealer/sealer.go\<close>): every handler composes the components of the other theories
  over one state. The state manager, the index and the market are shared; a component that has a copy of one of
  them in its own state is given the shared one for a call and hands it back. The chain node, the market, the FFI conversions, the
  provers and the object stores are parameters. Metrics and logs are left out.
\<close>

section \<open>State and parameters\<close>

record 'b sealer_state =
  se_smgr :: state_mgr
  se_alloc :: alloc_state
  se_deals :: deal_state
  se_commit :: commit_state
  se_snap :: "'b snap_state"
  se_up :: snap_sys
  se_rebuild :: rebuild_state
  se_unseal :: unseal_mgr
  se_workers :: worker_store
  se_index :: indexer
  se_reserve :: reserve_db

record 'b sealer_env =
  ee_cfg :: safe_config
  ee_miners :: miner_chain
  ee_head :: "(tipset \<times> epoch) res"
  ee_NewIDAddress :: "u64 \<Rightarrow> address res"
  ee_MinerAllocated :: "address \<Rightarrow> tipset \<Rightarrow> 'b res"
  ee_NewFromSet :: "u64 list \<Rightarrow> 'b"
  ee_Intersect :: "'b \<Rightarrow> 'b \<Rightarrow> 'b res"
  ee_AllBits :: "'b \<Rightarrow> u64 \<Rightarrow> u64 list res"
  ee_pick :: "nat \<Rightarrow> nat"
  ee_market :: market_api
  ee_rand :: rand_api
  ee_np :: net_policy
  ee_PreCommitEpoch :: "address \<Rightarrow> u64 \<Rightarrow> tipset \<Rightarrow> epoch option res"
  ee_IsNonInteractive :: "seal_proof \<Rightarrow> bool"
  ee_InteractivePoRepConfidence :: epoch
  ee_BlockDelaySecs :: u64
  ee_commit :: commit_env
  ee_ReplicaToCID :: "bytes \<Rightarrow> cid res"
  ee_DataToCID :: "bytes \<Rightarrow> cid res"
  ee_CIDToReplica :: "cid \<Rightarrow> bytes res"
  ee_CIDToData :: "cid \<Rightarrow> bytes res"
  ee_proving :: proving_env
  ee_NetworkVersion :: "u64 res"
  ee_WindowPoStProof :: "seal_proof \<Rightarrow> u64 \<Rightarrow> int res"
  ee_random :: u64
  ee_bitfields :: "'b bitfield_lib"
  ee_snap_chain :: "'b snap_chain"
  ee_DealMinDuration :: epoch
  ee_pickDeadline :: "nat \<Rightarrow> nat"
  ee_pickNumber :: "nat \<Rightarrow> nat"
  ee_chooser :: "(instance_info \<times> u64) list \<Rightarrow> instance_info res"
  ee_stores :: store_manager
  ee_InstanceConfig :: "string \<Rightarrow> store_config"
  ee_now :: int

section \<open>Errors\<close>

definition APIErrCodeSectorStateNotFound :: err where
  "APIErrCodeSectorStateNotFound = Ext ''11001''"

text \<open>A panic is not an error value and passes through.\<close>

definition sectorStateErr :: "err \<Rightarrow> err" where
  "sectorStateErr e = (if is_panic e then e
     else if errors_is e ErrKeyNotFound then Wrap ''sector state not found'' APIErrCodeSectorStateNotFound
     else Wrap ''sector state'' e)"

section \<open>Commitments\<close>

text \<open>\<open>modules/util/commitment.go\<close>; the undefined identifier is the empty string.\<close>

definition CID2Commitment :: "(cid \<Rightarrow> bytes res) \<Rightarrow> cid \<Rightarrow> bytes res" where
  "CID2Commitment convert c = (if c = [] then Inl (Errorf ''undefined cid'')
     else (case convert c of
         Inl e \<Rightarrow> Inl (Wrap ''convert to commitment'' e)
       | Inr b \<Rightarrow> if length b \<noteq> 32 then Inl (Errorf ''get bytes for commitment'') else Inr b))"

text \<open>\<open>copy\<close> into an array of 32 bytes.\<close>

definition copy32 :: "bytes \<Rightarrow> bytes" where
  "copy32 b = take 32 (b @ replicate 32 0)"

section \<open>Shared state\<close>

definition on_smgr :: "(state_mgr, 'a) step \<Rightarrow> ('b sealer_state, 'a) step" where
  "on_smgr f st = (case f (se_smgr st) of (r, sm) \<Rightarrow> (r, st\<lparr>se_smgr := sm\<rparr>))"

definition on_market :: "(market, 'a) step \<Rightarrow> ('b sealer_state, 'a) step" where
  "on_market f st = (case f (dm_market (se_deals st)) of (r, m) \<Rightarrow> (r, st\<lparr>se_deals := (se_deals st)\<lparr>dm_market := m\<rparr>\<rparr>))"

definition on_commit :: "(commit_state, 'a) step \<Rightarrow> ('b sealer_state, 'a) step" where
  "on_commit f st = (case f ((se_commit st)\<lparr>cm_smgr := se_smgr st\<rparr>) of (r, c) \<Rightarrow> (r, st\<lparr>se_commit := c, se_smgr := cm_smgr c\<rparr>))"

definition up_in :: "'b sealer_state \<Rightarrow> snap_sys" where
  "up_in st = (se_up st)\<lparr>sy_ct := (sy_ct (se_up st))\<lparr>ct_smgr := se_smgr st, ct_index := se_index st\<rparr>\<rparr>"

definition up_out :: "snap_sys \<Rightarrow> 'b sealer_state \<Rightarrow> 'b sealer_state" where
  "up_out sys st = st\<lparr>se_up := sys, se_smgr := ct_smgr (sy_ct sys), se_index := ct_index (sy_ct sys)\<rparr>"

section \<open>Allocation\<close>

definition checkSectorNumbers :: "'b sealer_env \<Rightarrow> u64 \<Rightarrow> u64 list \<Rightarrow> u64 list res" where
  "checkSectorNumbers env mid sids = (case ee_NewIDAddress env mid of
     Inl e \<Rightarrow> Inl e
   | Inr maddr \<Rightarrow> (case ee_head env of
       Inl e \<Rightarrow> Inl e
     | Inr (key, height) \<Rightarrow> (case ee_MinerAllocated env maddr key of
         Inl e \<Rightarrow> Inl e
       | Inr allocated \<Rightarrow> (case ee_Intersect env allocated (ee_NewFromSet env sids) of
           Inl e \<Rightarrow> Inl (Wrap ''calculate duplicate allocated sectors'' e)
         | Inr duplicates \<Rightarrow> ee_AllBits env duplicates (of_nat (length sids))))))"

definition AllocateSectorsBatch :: "'b sealer_env \<Rightarrow> allocate_spec \<Rightarrow> u32 \<Rightarrow> ('b sealer_state, allocated_sector list option) step" where
  "AllocateSectorsBatch env spec cnt st = (case Allocate (ee_miners env) (ee_cfg env) (ee_pick env) spec cnt (se_alloc st) of
     (r, al) \<Rightarrow> (let st1 = st\<lparr>se_alloc := al\<rparr> in case r of
         Inl e \<Rightarrow> (Inl e, st1)
       | Inr None \<Rightarrow> (Inr None, st1)
       | Inr (Some []) \<Rightarrow> (Inr None, st1)
       | Inr (Some (a # as)) \<Rightarrow>
          (case checkSectorNumbers env (sid_Miner (as_ID a)) (map (sid_Number \<circ> as_ID) (a # as)) of
             Inl e \<Rightarrow> (Inl e, st1)
           | Inr duplicates \<Rightarrow> if length duplicates > 0 then (Inl (Wrap ''miner, sectors'' ErrSectorAllocated), st1)
               else (case on_smgr (Init (a # as) WorkerOnline) st1 of
                   (Inl e, st2) \<Rightarrow> (Inl e, st2)
                 | (Inr _, st2) \<Rightarrow> (Inr (Some (a # as)), st2)))))"

definition AllocateSector :: "'b sealer_env \<Rightarrow> allocate_spec \<Rightarrow> ('b sealer_state, allocated_sector option) step" where
  "AllocateSector env spec st = (case AllocateSectorsBatch env spec 1 st of
     (Inl e, st1) \<Rightarrow> (Inl e, st1)
   | (Inr (Some (a # as)), st1) \<Rightarrow> (Inr (Some a), st1)
   | (Inr _, st1) \<Rightarrow> (Inr None, st1))"

section \<open>Deals\<close>

fun sealer_checkPieces :: "(u64 \<Rightarrow> cid) \<Rightarrow> sector_piece_v2 list \<Rightarrow> unit res" where
  "sealer_checkPieces zero [] = Inr ()"
| "sealer_checkPieces zero (p # ps) = (if \<not> HasDealInfo (PieceV2 p) then
      (case sp_DealInfo p of
         None \<Rightarrow> nil_deref
       | Some d \<Rightarrow> if zero (ap_Size (sp_Piece p)) \<noteq> di_PieceCID d then Inl (Errorf ''got unexpected non-deal piece'') else sealer_checkPieces zero ps)
     else sealer_checkPieces zero ps)"

text \<open>The commitment of an all-zero piece, by its padded size.\<close>

definition zero_piece :: "'b sealer_env \<Rightarrow> u64 \<Rightarrow> cid" where
  "zero_piece env = cl_ZeroPieceCommitment (ce_lib (ee_commit env))"

text \<open>The deferred release of acquired deals; its error is only logged.\<close>

definition give_back :: "'b sealer_env \<Rightarrow> sector_id \<Rightarrow> sector_piece_v2 list \<Rightarrow> 'b sealer_state \<Rightarrow> 'b sealer_state" where
  "give_back env sid ps st = snd (on_market (deal_Release (ee_market env) sid ps) st)"

definition keep_pieces :: "'b sealer_env \<Rightarrow> sector_id \<Rightarrow> sector_piece_v2 list \<Rightarrow> ('b sealer_state, sector_piece_v2 list) step" where
  "keep_pieces env sid ps st = (case sealer_checkPieces (zero_piece env) ps of
     Inl e \<Rightarrow> (Inl e, give_back env sid ps st)
   | Inr _ \<Rightarrow> (case on_smgr (Update sid WorkerOnline [FPieces ps]) st of
       (Inl e, st1) \<Rightarrow> (Inl (sectorStateErr e), give_back env sid ps st1)
     | (Inr _, st1) \<Rightarrow> (Inr ps, st1)))"

definition sealing_lifetime :: "'b sealer_env \<Rightarrow> miner_config \<Rightarrow> acquire_lifetime option res" where
  "sealing_lifetime env mcfg = (if msl_SealingEpochDuration (mc_Sealing mcfg) = 0 then Inr None
     else (case ee_head env of
         Inl e \<Rightarrow> Inl (Wrap ''get chain head'' e)
       | Inr (key, height) \<Rightarrow> Inr (Some \<lparr>al_Start = height + msl_SealingEpochDuration (mc_Sealing mcfg),
           al_End = 2 ^ 63 - 1, al_SectorExpiration = None\<rparr>)))"

definition acquire :: "'b sealer_env \<Rightarrow> sector_id \<Rightarrow> acquire_spec \<Rightarrow> acquire_lifetime option \<Rightarrow> worker_job \<Rightarrow>
    ('b sealer_state, sector_piece_v2 list) step" where
  "acquire env sid spec lifetime job st = (case Acquire (ee_market env) (ee_miners env) (ee_cfg env) sid spec lifetime job (se_deals st) of
     (r, d) \<Rightarrow> (r, st\<lparr>se_deals := d\<rparr>))"

definition release_legacy :: "'b sealer_env \<Rightarrow> sector_id \<Rightarrow> sector_state \<Rightarrow> ('b sealer_state, unit) step" where
  "release_legacy env sid state st =
    (if length (ss_LegacyPieces state) \<noteq> 0 then on_market (ReleaseLegacyDeal (ee_market env) sid (ss_LegacyPieces state)) st else (Inr (), st))"

definition acquire_new :: "'b sealer_env \<Rightarrow> sector_id \<Rightarrow> acquire_spec \<Rightarrow> ('b sealer_state, sector_piece_v2 list) step" where
  "acquire_new env sid spec st = (case MinerConfig (ee_cfg env) (sid_Miner sid) of
     Inl e \<Rightarrow> (Inl e, st)
   | Inr mcfg \<Rightarrow> (case sealing_lifetime env mcfg of
       Inl e \<Rightarrow> (Inl e, st)
     | Inr lifetime \<Rightarrow> (case acquire env sid spec lifetime JobSealing st of
         (Inl e, st1) \<Rightarrow> (Inl e, st1)
       | (Inr ps, st1) \<Rightarrow> keep_pieces env sid ps st1)))"

definition AcquireDeals :: "'b sealer_env \<Rightarrow> sector_id \<Rightarrow> acquire_spec \<Rightarrow> ('b sealer_state, sector_piece_v2 list) step" where
  "AcquireDeals env sid spec st = (case on_smgr (Load sid WorkerOnline) st of
     (Inl e, st1) \<Rightarrow> (Inl (sectorStateErr e), st1)
   | (Inr state, st1) \<Rightarrow> (case release_legacy env sid state st1 of
         (Inl e, st2) \<Rightarrow> (Inl e, st2)
       | (Inr _, st2) \<Rightarrow> if length (ss_Pieces state) \<noteq> 0 then (Inr (ss_Pieces state), st2) else acquire_new env sid spec st2))"

section \<open>Sealing\<close>

definition AssignTicket :: "'b sealer_env \<Rightarrow> sector_id \<Rightarrow> ('b sealer_state, ticket) step" where
  "AssignTicket env sid st = (case ee_head env of
     Inl e \<Rightarrow> (Inl e, st)
   | Inr (key, height) \<Rightarrow> (case GetTicket (ee_rand env) key (height - SealRandomnessLookback (ee_np env)) (sid_Miner sid) of
       Inl e \<Rightarrow> (Inl e, st)
     | Inr tk \<Rightarrow> (case on_smgr (Update sid WorkerOnline [FTicket (Some tk)]) st of
         (Inl e, st1) \<Rightarrow> (Inl (sectorStateErr e), st1)
       | (Inr _, st1) \<Rightarrow> (Inr tk, st1))))"

record precommit_on_chain_info =
  poi_CommR :: bytes
  poi_CommD :: bytes
  poi_Ticket :: ticket

definition IntoPreCommitInfo :: "'b sealer_env \<Rightarrow> precommit_on_chain_info \<Rightarrow> precommit_info res" where
  "IntoPreCommitInfo env pi = (case ee_ReplicaToCID env (poi_CommR pi) of
     Inl e \<Rightarrow> Inl e
   | Inr commR \<Rightarrow> (case ee_DataToCID env (poi_CommD pi) of
       Inl e \<Rightarrow> Inl e
     | Inr commD \<Rightarrow> Inr \<lparr>pc_CommR = commR, pc_CommD = commD, pc_Ticket = poi_Ticket pi\<rparr>))"

definition IntoPreCommitOnChainInfo :: "'b sealer_env \<Rightarrow> precommit_info \<Rightarrow> precommit_on_chain_info res" where
  "IntoPreCommitOnChainInfo env pc = (case ee_CIDToReplica env (pc_CommR pc) of
     Inl e \<Rightarrow> Inl (Wrap ''convert to replica commitment'' e)
   | Inr commR \<Rightarrow> (case ee_CIDToData env (pc_CommD pc) of
       Inl e \<Rightarrow> Inl (Wrap ''convert to data commitment'' e)
     | Inr commD \<Rightarrow> Inr \<lparr>poi_CommR = copy32 commR, poi_CommD = copy32 commD, poi_Ticket = pc_Ticket pc\<rparr>))"

definition sealer_SubmitPreCommit :: "'b sealer_env \<Rightarrow> allocated_sector \<Rightarrow> precommit_on_chain_info \<Rightarrow> bool \<Rightarrow> ('b sealer_state, submit_resp) step" where
  "sealer_SubmitPreCommit env sector info hardReset st = (case IntoPreCommitInfo env info of
     Inl e \<Rightarrow> (Inl e, st)
   | Inr pinfo \<Rightarrow> (case on_commit (SubmitPreCommit (ee_commit env) (as_ID sector) pinfo hardReset) st of
       (r, st1) \<Rightarrow> (map_err sectorStateErr r, st1)))"

definition PollPreCommitState :: "'b sealer_env \<Rightarrow> sector_id \<Rightarrow> ('b sealer_state, poll_resp) step" where
  "PollPreCommitState env sid st = (case on_commit (PreCommitState (ee_commit env) sid) st of (r, st1) \<Rightarrow> (map_err sectorStateErr r, st1))"

definition sealer_SubmitProof :: "'b sealer_env \<Rightarrow> sector_id \<Rightarrow> proof_info \<Rightarrow> bool \<Rightarrow> ('b sealer_state, submit_resp) step" where
  "sealer_SubmitProof env sid info hardReset st = (case on_commit (SubmitProof (ee_commit env) sid info hardReset) st of
     (r, st1) \<Rightarrow> (map_err sectorStateErr r, st1))"

definition PollProofState :: "'b sealer_env \<Rightarrow> sector_id \<Rightarrow> ('b sealer_state, poll_resp) step" where
  "PollProofState env sid st = (case on_commit (ProofState (ee_commit env) sid) st of (r, st1) \<Rightarrow> (map_err sectorStateErr r, st1))"

text \<open>The locator of the check finds the sector it is asked about in the given instance.\<close>

definition instance_locator :: "sector_id \<Rightarrow> string \<Rightarrow> locator" where
  "instance_locator sid ins lsid = (if lsid \<noteq> sid then Inr (\<lparr>ac_SealedFile = [], ac_CacheDir = []\<rparr>, False)
     else Inr (\<lparr>ac_SealedFile = ins, ac_CacheDir = ins\<rparr>, True))"

definition checkPersistedFiles :: "'b sealer_env \<Rightarrow> sector_id \<Rightarrow> seal_proof \<Rightarrow> string \<Rightarrow> bool \<Rightarrow> ('b sealer_state, bool) step" where
  "checkPersistedFiles env sid proofType ins upgrade st = (case ee_NetworkVersion env of
     Inl e \<Rightarrow> (Inl (Wrap ''get network version'' e), st)
   | Inr nv \<Rightarrow> (case ee_WindowPoStProof env proofType nv of
       Inl e \<Rightarrow> (Inl (Wrap ''convert to v1_1 post proof'' e), st)
     | Inr ppt \<Rightarrow> (case SingleProvable (ee_proving env) (ee_random env) ppt \<lparr>ref_ID = sid, ref_ProofType = proofType\<rparr> upgrade
           (Some (instance_locator sid ins)) False False \<lparr>pg_index = se_index st, pg_smgr = se_smgr st\<rparr> of
         (r, pg) \<Rightarrow> (let st1 = st\<lparr>se_index := pg_index pg, se_smgr := pg_smgr pg\<rparr> in case r of
             Inr _ \<Rightarrow> (Inr True, st1)
           | Inl e \<Rightarrow> if errors_is e ErrObjectNotFound then (Inr False, st1)
               else (Inl (if is_panic e then e else Wrap ''check provable for sector'' e), st1)))))"

definition SubmitPersistedEx :: "'b sealer_env \<Rightarrow> sector_id \<Rightarrow> string \<Rightarrow> bool \<Rightarrow> ('b sealer_state, bool) step" where
  "SubmitPersistedEx env sid ins isUpgrade st = (case on_smgr (Load sid WorkerOnline) st of
     (Inl e, st1) \<Rightarrow> (Inl (sectorStateErr e), st1)
   | (Inr state, st1) \<Rightarrow> (case checkPersistedFiles env sid (ss_SectorType state) ins isUpgrade st1 of
       (Inl e, st2) \<Rightarrow> (Inl (if is_panic e then e else Wrap ''check persisted filed'' e), st2)
     | (Inr False, st2) \<Rightarrow> (Inr False, st2)
     | (Inr True, st2) \<Rightarrow>
        (case index_Update sid \<lparr>ac_SealedFile = ins, ac_CacheDir = ins\<rparr> (if isUpgrade then ix_upgrade (se_index st2) else ix_normal (se_index st2)) of
           (r, kv) \<Rightarrow> (let st3 = st2\<lparr>se_index := (if isUpgrade then (se_index st2)\<lparr>ix_upgrade := kv\<rparr> else (se_index st2)\<lparr>ix_normal := kv\<rparr>)\<rparr> in
              case r of
                Inl e \<Rightarrow> (Inl (Wrap ''unable to update sector indexer'' e), st3)
              | Inr _ \<Rightarrow> (Inr True, st3)))))"

definition SubmitPersisted :: "'b sealer_env \<Rightarrow> sector_id \<Rightarrow> string \<Rightarrow> ('b sealer_state, bool) step" where
  "SubmitPersisted env sid ins = SubmitPersistedEx env sid ins False"

record wait_seed_resp =
  wr_ShouldWait :: bool
  wr_Delay :: int
  wr_Seed :: "seed option"

text \<open>The epoch the seed is drawn at, or the time to wait for it.\<close>

definition seed_epoch :: "'b sealer_env \<Rightarrow> address \<Rightarrow> sector_id \<Rightarrow> seal_proof \<Rightarrow> tipset \<Rightarrow> epoch \<Rightarrow> (int + epoch) res" where
  "seed_epoch env maddr sid proofType key curEpoch =
    (if ee_IsNonInteractive env proofType then Inr (Inr (curEpoch - 1))
     else (case ee_PreCommitEpoch env maddr (sid_Number sid) key of
         Inl e \<Rightarrow> Inl e
       | Inr None \<Rightarrow> Inl (Errorf ''precommit info not found on chain'')
       | Inr (Some preEpoch) \<Rightarrow>
          (let seedEpoch = preEpoch + GetPreCommitChallengeDelay (ee_np env);
               confEpoch = seedEpoch + ee_InteractivePoRepConfidence env in
           if curEpoch < confEpoch then Inr (Inl (sint (word_of_int (confEpoch - curEpoch) * ee_BlockDelaySecs env))) else Inr (Inr seedEpoch))))"

definition WaitSeed :: "'b sealer_env \<Rightarrow> sector_id \<Rightarrow> seal_proof \<Rightarrow> ('b sealer_state, wait_seed_resp) step" where
  "WaitSeed env sid proofType st = (case ee_NewIDAddress env (sid_Miner sid) of
     Inl e \<Rightarrow> (Inl e, st)
   | Inr maddr \<Rightarrow> (case ee_head env of
       Inl e \<Rightarrow> (Inl e, st)
     | Inr (key, curEpoch) \<Rightarrow> (case seed_epoch env maddr sid proofType key curEpoch of
         Inl e \<Rightarrow> (Inl e, st)
       | Inr (Inl delay) \<Rightarrow> (Inr \<lparr>wr_ShouldWait = True, wr_Delay = delay, wr_Seed = None\<rparr>, st)
       | Inr (Inr ep) \<Rightarrow> (case GetSeed (ee_rand env) key ep (sid_Miner sid) of
           Inl e \<Rightarrow> (Inl e, st)
         | Inr sd \<Rightarrow> (case on_smgr (Update sid WorkerOnline [FSeed (Some sd)]) st of
             (Inl e, st1) \<Rightarrow> (Inl (sectorStateErr e), st1)
           | (Inr _, st1) \<Rightarrow> (Inr \<lparr>wr_ShouldWait = False, wr_Delay = 0, wr_Seed = Some sd\<rparr>, st1))))))"

section \<open>Reports\<close>

record state_resp =
  sp_ID :: sector_id
  sp_Finalized :: bool
  sp_AbortReason :: string

definition state_resp_of :: "sector_state \<Rightarrow> state_resp" where
  "state_resp_of s = \<lparr>sp_ID = ss_ID s, sp_Finalized = ss_Finalized s, sp_AbortReason = ss_AbortReason s\<rparr>"

definition ReportState :: "sector_id \<Rightarrow> report_state_req \<Rightarrow> ('b sealer_state, state_resp) step" where
  "ReportState sid req st = (case on_smgr (Load sid WorkerOnline) st of
     (Inl e, st1) \<Rightarrow> if \<not> errors_is e ErrKeyNotFound then (Inl (sectorStateErr e), st1)
       else (case on_smgr (Load sid WorkerOffline) st1 of
           (Inl e, st2) \<Rightarrow> (Inl (sectorStateErr e), st2)
         | (Inr state, st2) \<Rightarrow> (Inr (state_resp_of state), st2))
   | (Inr state, st1) \<Rightarrow> (case on_smgr (Update sid WorkerOnline [FLatestState (Some req)]) st1 of
       (Inl e, st2) \<Rightarrow> (Inl (sectorStateErr e), st2)
     | (Inr _, st2) \<Rightarrow> (Inr (state_resp_of state), st2)))"

definition finalize_hook :: "unit hook" where
  "finalize_hook s u = (if ss_Unsealing s then (Inr (True, s\<lparr>ss_Unsealing := False\<rparr>), u)
     else if ss_NeedRebuild s then (Inr (True, s\<lparr>ss_NeedRebuild := False\<rparr>), u)
     else if ss_Upgraded s then (Inr (False, s), u)
     else (Inr (True, s), u))"

text \<open>The release of the reserved space; its error is only logged.\<close>

definition release_reserved :: "sector_id \<Rightarrow> 'b sealer_state \<Rightarrow> 'b sealer_state" where
  "release_reserved sid st = st\<lparr>se_reserve := snd (ReleaseReserved sid (se_reserve st))\<rparr>"

definition ReportFinalized :: "sector_id \<Rightarrow> ('b sealer_state, unit) step" where
  "ReportFinalized sid st = (case Finalize sid (Some finalize_hook) (se_smgr st, ()) of
     (Inl e, sm, _) \<Rightarrow> (Inl (sectorStateErr e), st\<lparr>se_smgr := sm\<rparr>)
   | (Inr _, sm, _) \<Rightarrow> (Inr (), release_reserved sid (st\<lparr>se_smgr := sm\<rparr>)))"

definition clear_upgrade :: "sector_state \<Rightarrow> sector_state" where
  "clear_upgrade s = s\<lparr>ss_Upgraded := False, ss_UpgradeMessageID := None, ss_UpgradeLandedEpoch := None, ss_UpgradePublic := None,
     ss_UpgradedInfo := None\<rparr>"

definition abort_hook :: "'b sealer_env \<Rightarrow> sector_id \<Rightarrow> string \<Rightarrow> (market \<times> snap_sys) hook" where
  "abort_hook env sid reason s me = (case me of (m, up) \<Rightarrow>
     (case (if length (ss_LegacyPieces s) > 0 then ReleaseLegacyDeal (ee_market env) sid (ss_LegacyPieces s) m else (Inr (), m)) of
        (Inl e, m1) \<Rightarrow> (Inl (Wrap ''release legacy deals in sector'' e), m1, up)
      | (Inr _, m1) \<Rightarrow> (case (if length (ss_Pieces s) > 0 then deal_Release (ee_market env) sid (ss_Pieces s) m1 else (Inr (), m1)) of
          (Inl e, m2) \<Rightarrow> (Inl (Wrap ''release deals in sector'' e), m2, up)
        | (Inr _, m2) \<Rightarrow> (Inr (True, (if ss_Upgraded s then clear_upgrade s else s)\<lparr>ss_AbortReason := reason\<rparr>),
            m2, if ss_Upgraded s then CancelCommitment sid up else up))))"

definition ReportAborted :: "'b sealer_env \<Rightarrow> sector_id \<Rightarrow> string \<Rightarrow> ('b sealer_state, unit) step" where
  "ReportAborted env sid reason st =
    (case Finalize sid (Some (abort_hook env sid reason)) (se_smgr st, dm_market (se_deals st), se_up st) of
       (r, sm, m, up) \<Rightarrow> (let st1 = st\<lparr>se_smgr := sm, se_deals := (se_deals st)\<lparr>dm_market := m\<rparr>, se_up := up\<rparr> in
          case r of
            Inl e \<Rightarrow> (Inl (sectorStateErr e), st1)
          | Inr _ \<Rightarrow> (Inr (), release_reserved sid st1)))"

section \<open>Upgrades\<close>

text \<open>\<open>StartEpoch\<close> and \<open>EndEpoch\<close> do not fail on a piece with deal information.\<close>

fun checkForLifetime :: "sector_public_info \<Rightarrow> sector_piece_v2 list \<Rightarrow> bool res" where
  "checkForLifetime pub [] = Inr True"
| "checkForLifetime pub (p # ps) = (if \<not> HasDealInfo (PieceV2 p) then checkForLifetime pub ps
     else (case StartEpoch (PieceV2 p) of
         Inl e \<Rightarrow> Inl e
       | Inr start \<Rightarrow> if pub_Activation pub > start then Inr False
           else (case EndEpoch (PieceV2 p) of
               Inl e \<Rightarrow> Inl e
             | Inr ends \<Rightarrow> if ends \<ge> pub_Expiration pub then Inr False else checkForLifetime pub ps)))"

record allocated_snapup =
  au_Sector :: allocated_sector
  au_Pieces :: "sector_piece_v2 list"
  au_Public :: sector_public_info
  au_AccessInstance :: string

definition restore_hook :: "sector_piece_v2 list \<Rightarrow> sector_public_info \<Rightarrow> unit hook" where
  "restore_hook ps pub s u = (Inr (True, s\<lparr>ss_Pieces := ps, ss_Upgraded := True, ss_UpgradePublic := Some pub\<rparr>), u)"

text \<open>Putting the sector to work again: from the offline store, or as a new state when it is not there.\<close>

definition open_upgrade :: "snapup_candidate \<Rightarrow> sector_piece_v2 list \<Rightarrow> (state_mgr, unit) step" where
  "open_upgrade cand ps sm = (case Restore (as_ID (su_Sector cand)) (Some (restore_hook ps (su_Public cand))) (sm, ()) of
     (Inr _, sm1, _) \<Rightarrow> (Inr (), sm1)
   | (Inl e, sm1, _) \<Rightarrow> if \<not> errors_is e ErrKeyNotFound then (Inl (Wrap ''restore sector for snapup'' e), sm1)
       else (case InitWith [su_Sector cand] WorkerOnline [FUpgraded True, FPieces ps, FUpgradePublic (Some (su_Public cand))] sm1 of
           (Inl e, sm2) \<Rightarrow> (Inl (Wrap ''init non-exist snapup sector'' e), sm2)
         | (Inr _, sm2) \<Rightarrow> (Inr (), sm2)))"

text \<open>The deferred release of the candidate; its error is only logged.\<close>

definition release_candidate :: "'b sealer_env \<Rightarrow> snapup_candidate \<Rightarrow> 'b sealer_state \<Rightarrow> 'b sealer_state" where
  "release_candidate env cand st = st\<lparr>se_snap := (se_snap st)\<lparr>ns_kv := snd (Release (ee_bitfields env) cand (ns_kv (se_snap st)))\<rparr>\<rparr>"

definition pack_upgrade :: "'b sealer_env \<Rightarrow> snapup_candidate \<Rightarrow> sector_piece_v2 list \<Rightarrow> ('b sealer_state, allocated_snapup option) step" where
  "pack_upgrade env cand ps st =
    (let failed = (\<lambda>r st1. (r, release_candidate env cand (give_back env (as_ID (su_Sector cand)) ps st1))) in
     case sealer_checkPieces (zero_piece env) ps of
       Inl e \<Rightarrow> failed (Inl (if is_panic e then e else Wrap ''check pieces'' e)) st
     | Inr _ \<Rightarrow> (case checkForLifetime (su_Public cand) ps of
         Inl e \<Rightarrow> failed (Inl e) st
       | Inr False \<Rightarrow> failed (Inr None) st
       | Inr True \<Rightarrow> (case on_smgr (open_upgrade cand ps) st of
           (Inl e, st1) \<Rightarrow> failed (Inl e) st1
         | (Inr _, st1) \<Rightarrow> (Inr (Some \<lparr>au_Sector = su_Sector cand, au_Pieces = ps, au_Public = su_Public cand,
             au_AccessInstance = su_AccessInstance cand\<rparr>), st1))))"

definition snap_allocate :: "'b sealer_env \<Rightarrow> allocate_spec \<Rightarrow> ('b sealer_state, snapup_candidate option) step" where
  "snap_allocate env spec st = (case snapup_Allocate (ee_bitfields env) (ee_snap_chain env) (ee_miners env) (ee_cfg env) (CID2Commitment (ee_CIDToReplica env))
       (ee_DealMinDuration env) (ee_pick env) (ee_pickDeadline env) (ee_pickNumber env) spec
       ((se_snap st)\<lparr>ns_index := ix_normal (se_index st)\<rparr>) of
     (r, sn) \<Rightarrow> (r, st\<lparr>se_snap := sn, se_index := (se_index st)\<lparr>ix_normal := ns_index sn\<rparr>\<rparr>))"

definition AllocateSanpUpSector :: "'b sealer_env \<Rightarrow> allocate_spec \<Rightarrow> acquire_spec \<Rightarrow> ('b sealer_state, allocated_snapup option) step" where
  "AllocateSanpUpSector env sector deals st = (case snap_allocate env sector st of
     (Inl e, st1) \<Rightarrow> (Inl (if is_panic e then e else Wrap ''allocate snapup sector'' e), st1)
   | (Inr None, st1) \<Rightarrow> (Inr None, st1)
   | (Inr (Some cand), st1) \<Rightarrow> (case acquire env (as_ID (su_Sector cand)) deals
         (Some \<lparr>al_Start = pub_Activation (su_Public cand), al_End = pub_Expiration (su_Public cand),
            al_SectorExpiration = Some (pub_Expiration (su_Public cand))\<rparr>) JobSnapUp st1 of
       (Inl e, st2) \<Rightarrow> (Inl (Wrap ''acquire deals'' e), release_candidate env cand st2)
     | (Inr ps, st2) \<Rightarrow> if length ps = 0 then (Inr None, release_candidate env cand st2) else pack_upgrade env cand ps st2))"

record snapup_info =
  sni_CommR :: bytes
  sni_CommD :: bytes
  sni_AccessInstance :: string
  sni_Pieces :: "cid list"
  sni_Proof :: bytes

definition reject :: "string \<Rightarrow> submit_resp res" where
  "reject d = Inr \<lparr>sr_Res = SubmitRejected, sr_Desc = Some d\<rparr>"

definition store_upgraded :: "sector_id \<Rightarrow> sector_upgraded_info \<Rightarrow> ('b sealer_state, submit_resp) step" where
  "store_upgraded sid ui st = (case on_smgr (Update sid WorkerOnline [FUpgradedInfo (Some ui)]) st of
     (Inl e, st1) \<Rightarrow> (Inl (sectorStateErr e), st1)
   | (Inr _, st1) \<Rightarrow> (case snap_Commit sid (up_in st1) of
       (Inl e, sys) \<Rightarrow> (Inl (Wrap ''commit snapup sector'' e), up_out sys st1)
     | (Inr _, sys) \<Rightarrow> (Inr \<lparr>sr_Res = SubmitAccepted, sr_Desc = None\<rparr>, up_out sys st1)))"

definition SubmitSnapUpProof :: "'b sealer_env \<Rightarrow> sector_id \<Rightarrow> snapup_info \<Rightarrow> ('b sealer_state, submit_resp) step" where
  "SubmitSnapUpProof env sid info st =
    (if length (sni_Proof info) = 0 then (reject ''empty proof is invalid'', st)
     else (case on_smgr (Load sid WorkerOnline) st of
       (Inl e, st1) \<Rightarrow> (Inl (sectorStateErr e), st1)
     | (Inr state, st1) \<Rightarrow>
        if length (PieceInfos state) \<noteq> length (sni_Pieces info) then (reject ''pieces count not match'', st1)
        else if map pi_Cid (PieceInfos state) \<noteq> sni_Pieces info then (reject ''piece cid not match'', st1)
        else (case ee_ReplicaToCID env (sni_CommR info) of
            Inl e \<Rightarrow> (reject ''convert comm_r to cid'', st1)
          | Inr newSealed \<Rightarrow> (case ee_DataToCID env (sni_CommD info) of
              Inl e \<Rightarrow> (reject ''convert comm_d to cid'', st1)
            | Inr newUnsealed \<Rightarrow> (case checkPersistedFiles env sid (ss_SectorType state) (sni_AccessInstance info) True st1 of
                (Inl e, st2) \<Rightarrow> (Inl (if is_panic e then e else Wrap ''check persisted files'' e), st2)
              | (Inr False, st2) \<Rightarrow> (Inr \<lparr>sr_Res = SubmitFilesMissed, sr_Desc = Some ''not all files persisted''\<rparr>, st2)
              | (Inr True, st2) \<Rightarrow> store_upgraded sid \<lparr>ui_AccessInstance = sni_AccessInstance info, ui_SealedCID = newSealed,
                  ui_UnsealedCID = newUnsealed, ui_Proof = sni_Proof info\<rparr> st2)))))"

section \<open>Workers and stores\<close>

definition WorkerPing :: "'b sealer_env \<Rightarrow> worker_info \<Rightarrow> ('b sealer_state, unit) step" where
  "WorkerPing env winfo st =
    (if wk_Name winfo = [] then (Inl (Errorf ''worker name is required''), st)
     else if wk_Dest winfo = [] then (Inl (Errorf ''worker dest is required''), st)
     else (case worker_Update \<lparr>wp_Info = winfo, wp_LastPing = ee_now env\<rparr> (se_workers st) of
         (Inl e, kv) \<Rightarrow> (Inl (Wrap ''update worker info'' e), st\<lparr>se_workers := kv\<rparr>)
       | (Inr _, kv) \<Rightarrow> (Inr (), st\<lparr>se_workers := kv\<rparr>)))"

text \<open>\<open>storeConfig2StoreBasic\<close> copies the fields of a configuration; the model hands the configuration on.\<close>

definition StoreReserveSpace :: "'b sealer_env \<Rightarrow> sector_id \<Rightarrow> u64 \<Rightarrow> string list \<Rightarrow> ('b sealer_state, store_config option) step" where
  "StoreReserveSpace env sid sz cands st = (case on_smgr (Load sid WorkerOnline) st of
     (Inl e, st1) \<Rightarrow> (Inl (sectorStateErr e), st1)
   | (Inr _, st1) \<Rightarrow> (case ReserveSpace (ee_chooser env) (ee_stores env) (ee_now env) sid sz cands (se_reserve st1) of
       (Inl e, kv) \<Rightarrow> (Inl (Wrap ''reserve space'' e), st1\<lparr>se_reserve := kv\<rparr>)
     | (Inr c, kv) \<Rightarrow> (Inr c, st1\<lparr>se_reserve := kv\<rparr>)))"

definition StoreBasicInfo :: "'b sealer_env \<Rightarrow> string \<Rightarrow> store_config option res" where
  "StoreBasicInfo env nm = (case GetInstance (ee_stores env) nm of
     Inl e \<Rightarrow> if errors_is e ErrObjectStoreInstanceNotFound then Inr None else Inl (Wrap ''get store'' e)
   | Inr s \<Rightarrow> Inr (Some (ee_InstanceConfig env (st_Instance s))))"

section \<open>Rebuild and unseal\<close>

definition AllocateRebuildSector :: "'b sealer_env \<Rightarrow> allocate_spec \<Rightarrow> ('b sealer_state, rebuild_info option) step" where
  "AllocateRebuildSector env spec st = (case rebuild_Allocate (ee_miners env) (ee_cfg env) (ee_pick env) spec (se_rebuild st) of
     (r, rb) \<Rightarrow> (let st1 = st\<lparr>se_rebuild := rb\<rparr> in case r of
         Inl e \<Rightarrow> (Inl (Wrap ''allocate rebuild sector'' e), st1)
       | Inr None \<Rightarrow> (Inr None, st1)
       | Inr (Some info) \<Rightarrow> (case on_smgr (Load (as_ID (rb_Sector info)) WorkerOnline) st1 of
           (Inl e, st2) \<Rightarrow> (Inl (Wrap ''load sector state from online database'' e), st2)
         | (Inr _, st2) \<Rightarrow> (Inr (Some info), st2))))"

definition unseal_hook :: "unit hook" where
  "unseal_hook s u = (Inr (True, s\<lparr>ss_Unsealing := True\<rparr>), u)"

definition open_unseal :: "'b sealer_env \<Rightarrow> unseal_info \<Rightarrow> ('b sealer_state, unseal_info option) step" where
  "open_unseal env info st = (let sid = as_ID (us_Sector info) in
     case on_smgr (Load sid WorkerOffline) st of
       (Inl e, st1) \<Rightarrow> (Inl (Wrap ''load sector state'' e), st1)
     | (Inr state, st1) \<Rightarrow> (case ss_Pre state of
         None \<Rightarrow> (nil_deref, st1)
       | Some pre \<Rightarrow> (case IntoPreCommitOnChainInfo env pre of
           Inl e \<Rightarrow> (Inl (Wrap ''load sector state'' e), st1)
         | Inr chainInfo \<Rightarrow> (case index_Find sid (ix_normal (se_index st1)) of
             (r, kv) \<Rightarrow> (let st2 = st1\<lparr>se_index := (se_index st1)\<lparr>ix_normal := kv\<rparr>\<rparr> in case r of
                 Inl e \<Rightarrow> (Inl (Wrap ''find sector access store'' e), st2)
               | Inr (access, False) \<Rightarrow> (Inl (Errorf ''sector access store not found''), st2)
               | Inr (access, True) \<Rightarrow>
                  (case Restore sid (Some unseal_hook) (se_smgr st2, ()) of
                     (q, sm, _) \<Rightarrow> (let st3 = st2\<lparr>se_smgr := sm\<rparr> in case q of
                         Inl e \<Rightarrow> if \<not> errors_is e ErrKeyNotFound then (Inl (Wrap ''restore sector for unseal'' e), st3)
                           else (Inr (Some (info\<lparr>us_CommD := poi_CommD chainInfo, us_Ticket := poi_Ticket chainInfo,
                             us_AccessInstance := ac_SealedFile access\<rparr>)), st3)
                       | Inr _ \<Rightarrow> (Inr (Some (info\<lparr>us_CommD := poi_CommD chainInfo, us_Ticket := poi_Ticket chainInfo,
                             us_AccessInstance := ac_SealedFile access\<rparr>)), st3))))))))"

definition AllocateUnsealSector :: "'b sealer_env \<Rightarrow> allocate_spec \<Rightarrow> ('b sealer_state, unseal_info option) step" where
  "AllocateUnsealSector env spec st = (case unseal_Allocate (ee_miners env) (ee_cfg env) (ee_pick env) spec (se_unseal st) of
     (r, um) \<Rightarrow> (let st1 = st\<lparr>se_unseal := um\<rparr> in case r of
         Inl e \<Rightarrow> (Inl (if is_panic e then e else Wrap ''allocate unseal sector'' e), st1)
       | Inr None \<Rightarrow> (Inr None, st1)
       | Inr (Some info) \<Rightarrow> open_unseal env info st1))"

definition AchieveUnsealSector :: "sector_id \<Rightarrow> cid \<Rightarrow> string \<Rightarrow> ('b sealer_state, unit) step" where
  "AchieveUnsealSector sid pieceCid errInfo st = (case Achieve sid pieceCid errInfo (se_unseal st) of (r, um) \<Rightarrow> (r, st\<lparr>se_unseal := um\<rparr>))"

definition AcquireUnsealDest :: "sector_id \<Rightarrow> cid \<Rightarrow> ('b sealer_state, string list) step" where
  "AcquireUnsealDest sid pieceCid st = (case AcquireDest sid pieceCid (se_unseal st) of (r, um) \<Rightarrow> (r, st\<lparr>se_unseal := um\<rparr>))"

section \<open>Lemmas\<close>

abbreviation sectors_of :: "'b sealer_state \<Rightarrow> sector_view" where
  "sectors_of st \<equiv> view (se_smgr st)"

abbreviation calls_of :: "'b sealer_state \<Rightarrow> market" where
  "calls_of st \<equiv> dm_market (se_deals st)"

lemma on_smgrD: "on_smgr f st = (r, st1) \<Longrightarrow> \<exists>sm. f (se_smgr st) = (r, sm) \<and> st1 = st\<lparr>se_smgr := sm\<rparr>"
  by (auto simp: on_smgr_def split: prod.splits)

lemma on_marketD: "on_market f st = (r, st1) \<Longrightarrow> \<exists>m. f (calls_of st) = (r, m) \<and> st1 = st\<lparr>se_deals := (se_deals st)\<lparr>dm_market := m\<rparr>\<rparr>"
  by (auto simp: on_market_def split: prod.splits)

lemma sealer_loadD:
  assumes "on_smgr (Load sid ws) st = (r, st1)"
  shows "sectors_of st1 = sectors_of st \<and> se_deals st1 = se_deals st \<and> se_snap st1 = se_snap st \<and>
    (\<forall>s. r = Inr s \<longrightarrow> sectors_of st ws sid = Some (Json s))"
proof -
  from on_smgrD [OF assms] obtain sm where l: "Load sid ws (se_smgr st) = (r, sm)" "st1 = st\<lparr>se_smgr := sm\<rparr>" by blast
  with smgr.load_law [OF l(1)] show ?thesis by auto
qed

lemma sealer_updateD:
  assumes "on_smgr (Update sid ws fvs) st = (r, st1)"
  shows "se_deals st1 = se_deals st \<and> se_snap st1 = se_snap st \<and>
    ((\<exists>s s1. r = Inr () \<and> sectors_of st ws sid = Some (Json s) \<and> apply_fields fvs s = Inr s1 \<and>
       sectors_of st1 = view_put ws sid s1 (sectors_of st)) \<or>
     (\<exists>e. r = Inl e \<and> sectors_of st1 = sectors_of st))"
proof -
  from on_smgrD [OF assms] obtain sm where u: "Update sid ws fvs (se_smgr st) = (r, sm)" "st1 = st\<lparr>se_smgr := sm\<rparr>" by blast
  with smgr.update_law [OF u(1)] show ?thesis by auto
qed

lemma give_back_simps [simp]:
  "sectors_of (give_back env sid ps st) = sectors_of st"
  "se_snap (give_back env sid ps st) = se_snap st"
  "calls_of (give_back env sid ps st) = snd (deal_Release (ee_market env) sid ps (calls_of st))"
  by (simp_all add: give_back_def on_market_def split: prod.splits)

text \<open>What happened to deals the market assigned to a sector: kept, or offered back.\<close>

definition offered_back :: "'b sealer_env \<Rightarrow> sector_id \<Rightarrow> sector_piece_v2 list \<Rightarrow> market \<Rightarrow> market \<Rightarrow> bool" where
  "offered_back env sid ps before after = (after = snd (deal_Release (ee_market env) sid ps before))"

lemma keep_piecesD:
  assumes "keep_pieces env sid ps st = (r, st1)"
  shows "(r = Inr ps \<and> calls_of st1 = calls_of st \<and>
      (\<exists>s. sectors_of st WorkerOnline sid = Some (Json s) \<and> sectors_of st1 = view_put WorkerOnline sid (s\<lparr>ss_Pieces := ps\<rparr>) (sectors_of st))) \<or>
    (\<exists>e. r = Inl e \<and> sectors_of st1 = sectors_of st \<and> offered_back env sid ps (calls_of st) (calls_of st1))"
proof (cases "sealer_checkPieces (zero_piece env) ps")
  case (Inl e)
  with assms show ?thesis by (auto simp: keep_pieces_def offered_back_def)
next
  case (Inr u)
  obtain q st2 where q: "on_smgr (Update sid WorkerOnline [FPieces ps]) st = (q, st2)" by fastforce
  note d = sealer_updateD [OF q]
  show ?thesis
  proof (cases q)
    case (Inl e)
    with assms q \<open>sealer_checkPieces (zero_piece env) ps = Inr u\<close> d show ?thesis by (auto simp: keep_pieces_def offered_back_def)
  next
    case Inr2: (Inr v)
    with d obtain s where "sectors_of st WorkerOnline sid = Some (Json s)"
      "sectors_of st2 = view_put WorkerOnline sid (s\<lparr>ss_Pieces := ps\<rparr>) (sectors_of st)" by auto
    with assms q Inr Inr2 d show ?thesis by (auto simp: keep_pieces_def)
  qed
qed

lemma acquireD:
  assumes "acquire env sid spec lifetime job st = (r, st1)"
  shows "sectors_of st1 = sectors_of st \<and> se_snap st1 = se_snap st \<and>
    ((\<exists>ds. r = Inr (map (piece_of (ee_market env)) ds) \<and> calls_of st1 = calls_of st @ [Assigned sid ds]) \<or>
     (r = Inr [] \<and> calls_of st1 = calls_of st) \<or> (\<exists>e. r = Inl e \<and> calls_of st1 = calls_of st))"
proof -
  obtain q d where q: "Acquire (ee_market env) (ee_miners env) (ee_cfg env) sid spec lifetime job (se_deals st) = (q, d)" by fastforce
  with assms have "r = q" "st1 = st\<lparr>se_deals := d\<rparr>" by (simp_all add: acquire_def)
  with AcquireD [OF q] show ?thesis by auto
qed

lemma ReleaseLegacyDealD:
  assumes "ReleaseLegacyDeal mk sid deals m = (r, m1)"
  shows "m1 = m \<or> (\<exists>maddr. m1 = m @ [ReleasedDeals maddr (map ld_ID deals)])"
  using assms by (auto simp: ReleaseLegacyDeal_def release_builtin_def split: sum.splits if_splits)

lemma deal_Release_nil: "fst (deal_Release mk sid [] m) = Inr u \<Longrightarrow> snd (deal_Release mk sid [] m) = m"
  by (auto simp: deal_Release_def release_builtin_def release_direct_def builtin_ids_def direct_ids_def split: sum.splits)

lemma deal_Release_nothing: "snd (deal_Release mk sid [] m) = m"
  by (auto simp: deal_Release_def release_builtin_def release_direct_def builtin_ids_def direct_ids_def split: sum.splits)

section \<open>Properties\<close>

definition holds_pieces :: "'b sealer_state \<Rightarrow> sector_id \<Rightarrow> sector_piece_v2 list \<Rightarrow> bool" where
  "holds_pieces st sid ps = (case sectors_of st WorkerOnline sid of Some (Json s) \<Rightarrow> ss_Pieces s = ps | _ \<Rightarrow> False)"

lemma release_legacyD:
  assumes "release_legacy env sid s st = (r, st1)"
  obtains legacy where "set legacy \<subseteq> range (case_prod ReleasedDeals)" "calls_of st1 = calls_of st @ legacy" "sectors_of st1 = sectors_of st"
proof (cases "length (ss_LegacyPieces s) \<noteq> 0")
  case True
  with assms obtain m where m: "ReleaseLegacyDeal (ee_market env) sid (ss_LegacyPieces s) (calls_of st) = (r, m)"
    "st1 = st\<lparr>se_deals := (se_deals st)\<lparr>dm_market := m\<rparr>\<rparr>" by (auto simp: release_legacy_def dest: on_marketD)
  from ReleaseLegacyDealD [OF m(1)] show thesis
  proof
    assume "m = calls_of st"
    with m(2) that [of "[]"] show thesis by simp
  next
    assume "\<exists>maddr. m = calls_of st @ [ReleasedDeals maddr (map ld_ID (ss_LegacyPieces s))]"
    then obtain maddr where "m = calls_of st @ [ReleasedDeals maddr (map ld_ID (ss_LegacyPieces s))]" ..
    moreover have "ReleasedDeals maddr (map ld_ID (ss_LegacyPieces s)) \<in> range (case_prod ReleasedDeals)"
      by (rule image_eqI [of _ _ "(maddr, map ld_ID (ss_LegacyPieces s))"]) simp_all
    ultimately show thesis using m(2) by (intro that [of "[ReleasedDeals maddr (map ld_ID (ss_LegacyPieces s))]"]) simp_all
  qed
next
  case False
  with assms that [of "[]"] show thesis by (auto simp: release_legacy_def)
qed

text \<open>Where the deals are after a call: nothing was assigned since \<open>before\<close>, or what was assigned is in the sector's stored state, or the call failed,
  left the sectors as they were and offered the deals back.\<close>

definition deals_accounted :: "'b sealer_env \<Rightarrow> sector_id \<Rightarrow> market \<Rightarrow> sector_piece_v2 list res \<Rightarrow> sector_view \<Rightarrow> 'b sealer_state \<Rightarrow> bool" where
  "deals_accounted env sid before r sectors st1 \<longleftrightarrow> (\<forall>ps. r = Inr ps \<longrightarrow> holds_pieces st1 sid ps) \<and>
    (calls_of st1 = before \<or>
     (\<exists>ds. let ps = map (piece_of (ee_market env)) ds; assigned = before @ [Assigned sid ds] in
        (r = Inr ps \<and> calls_of st1 = assigned) \<or>
        (isl r \<and> sectors_of st1 = sectors \<and> offered_back env sid ps assigned (calls_of st1))))"

lemma acquire_newD:
  assumes "acquire_new env sid spec st = (r, st1)"
  shows "deals_accounted env sid (calls_of st) r (sectors_of st) st1"
proof -
  consider "\<exists>e. r = Inl e" "st1 = st"
    | lifetime q st2 where "acquire env sid spec lifetime JobSealing st = (q, st2)"
        "(r, st1) = (case q of Inl e \<Rightarrow> (Inl e, st2) | Inr ps \<Rightarrow> keep_pieces env sid ps st2)"
  proof (cases "MinerConfig (ee_cfg env) (sid_Miner sid)")
    case (Inr mcfg)
    show thesis
    proof (cases "sealing_lifetime env mcfg")
      case Inr2: (Inr lifetime)
      obtain q st2 where "acquire env sid spec lifetime JobSealing st = (q, st2)" by fastforce
      with assms Inr Inr2 that(2) [of lifetime q st2] show thesis by (cases q) (auto simp: acquire_new_def)
    qed (use assms Inr that(1) in \<open>auto simp: acquire_new_def\<close>)
  qed (use assms that(1) in \<open>auto simp: acquire_new_def\<close>)
  then show ?thesis
  proof cases
    case 2
    note a = acquireD [OF 2(1)]
    show ?thesis
    proof (cases q)
      case (Inl e)
      with 2 a show ?thesis by (auto simp: deals_accounted_def)
    next
      case (Inr ps)
      with 2(2) have k: "keep_pieces env sid ps st2 = (r, st1)" by simp
      from keep_piecesD [OF k] a Inr show ?thesis
        by (auto simp: deals_accounted_def Let_def holds_pieces_def view_put_def offered_back_def deal_Release_nothing)
    qed
  qed (auto simp: deals_accounted_def)
qed

text \<open>C10. No call of \<open>AcquireDeals\<close> loses deals: whatever fails, the deals the market assigned in it are the pieces of the sector's stored state when the
  call succeeds, and are offered back to the market when it does not; before that at most the sector's legacy deals were given back. A call that
  succeeds returns the pieces of the stored state.\<close>

theorem acquired_deals_kept_or_returned:
  assumes "AcquireDeals env sid spec st = (r, st1)"
  shows "\<exists>legacy. set legacy \<subseteq> range (case_prod ReleasedDeals) \<and> deals_accounted env sid (calls_of st @ legacy) r (sectors_of st) st1"
proof -
  obtain q sta where l: "on_smgr (Load sid WorkerOnline) st = (q, sta)" by fastforce
  note ld = sealer_loadD [OF l]
  show ?thesis
  proof (cases q)
    case (Inl e)
    with assms l ld show ?thesis by (intro exI [of _ "[]"]) (auto simp: AcquireDeals_def deals_accounted_def)
  next
    case (Inr s)
    obtain lr stb where b: "release_legacy env sid s sta = (lr, stb)" by fastforce
    from release_legacyD [OF b] obtain legacy where
      g: "set legacy \<subseteq> range (case_prod ReleasedDeals)" "calls_of stb = calls_of sta @ legacy" "sectors_of stb = sectors_of sta" by blast
    have run: "(r, st1) = (case lr of Inl e \<Rightarrow> (Inl e, stb)
        | Inr _ \<Rightarrow> if length (ss_Pieces s) \<noteq> 0 then (Inr (ss_Pieces s), stb) else acquire_new env sid spec stb)"
      using assms l Inr b by (cases lr) (simp_all add: AcquireDeals_def)
    then consider "isl r" "st1 = stb" | "r = Inr (ss_Pieces s)" "st1 = stb" | "acquire_new env sid spec stb = (r, st1)"
      by (cases lr; cases "length (ss_Pieces s) \<noteq> 0") simp_all
    then show ?thesis
    proof cases
      case 3
      from acquire_newD [OF 3] g ld show ?thesis by auto
    next
      case 1
      with g ld show ?thesis by (intro exI [of _ legacy]) (auto simp: deals_accounted_def)
    next
      case 2
      with g ld Inr show ?thesis by (intro exI [of _ legacy]) (simp add: holds_pieces_def deals_accounted_def)
    qed
  qed
qed

section \<open>Upgrades\<close>

text \<open>A sector that is open for an upgrade with the given pieces.\<close>

definition open_for_upgrade :: "sector_view \<Rightarrow> sector_id \<Rightarrow> sector_piece_v2 list \<Rightarrow> sector_public_info \<Rightarrow> bool" where
  "open_for_upgrade v sid ps pub = (case v WorkerOnline sid of
     Some (Json s) \<Rightarrow> ss_Pieces s = ps \<and> ss_Upgraded s \<and> ss_UpgradePublic s = Some pub \<and> \<not> ss_Finalized s
   | _ \<Rightarrow> False)"

definition lifetime_ok :: "sector_public_info \<Rightarrow> sector_piece_v2 \<Rightarrow> bool" where
  "lifetime_ok pub p = (HasDealInfo (PieceV2 p) \<longrightarrow> (\<exists>start ends. StartEpoch (PieceV2 p) = Inr start \<and> EndEpoch (PieceV2 p) = Inr ends \<and>
     pub_Activation pub \<le> start \<and> ends < pub_Expiration pub))"

lemma checkForLifetime_ok: "checkForLifetime pub ps = Inr True \<Longrightarrow> list_all (lifetime_ok pub) ps"
  by (induction ps) (auto simp: lifetime_ok_def simp del: HasDealInfo.simps StartEpoch.simps EndEpoch.simps split: if_splits sum.splits)

lemma open_upgradeD:
  assumes "open_upgrade cand ps sm = (Inr u, sm1)"
  shows "open_for_upgrade (view sm1) (as_ID (su_Sector cand)) ps (su_Public cand)"
proof -
  obtain q sma e where q: "Restore (as_ID (su_Sector cand)) (Some (restore_hook ps (su_Public cand))) (sm, ()) = (q, sma, e)"
    by (metis prod_cases3)
  show ?thesis
  proof (cases q)
    case (Inr v)
    with assms q have "sma = sm1" by (simp add: open_upgrade_def)
    with RestoreD [OF q] Inr show ?thesis
      by (auto simp: run_hook_def restore_hook_def open_for_upgrade_def view_put_def view_del_def)
  next
    case (Inl e)
    obtain i smb where i: "InitWith [su_Sector cand] WorkerOnline [FUpgraded True, FPieces ps, FUpgradePublic (Some (su_Public cand))] sma = (i, smb)"
      by fastforce
    with assms q Inl have "i = Inr ()" "smb = sm1" by (auto simp: open_upgrade_def split: if_splits sum.splits)
    with InitWithD [OF i] show ?thesis by (auto simp: initialized_def open_for_upgrade_def new_sector_state_def)
  qed
qed

lemma release_candidate_simps [simp]:
  "sectors_of (release_candidate env cand st) = sectors_of st" "calls_of (release_candidate env cand st) = calls_of st"
  "ns_kv (se_snap (release_candidate env cand st)) = snd (Release (ee_bitfields env) cand (ns_kv (se_snap st)))"
  by (simp_all add: release_candidate_def)

text \<open>An upgrade that was packed, and one that was given up.\<close>

definition packed :: "snapup_candidate \<Rightarrow> allocated_snapup \<Rightarrow> 'b sealer_state \<Rightarrow> bool" where
  "packed cand a st = (au_Sector a = su_Sector cand \<and> au_Pieces a \<noteq> [] \<and> list_all (lifetime_ok (su_Public cand)) (au_Pieces a) \<and>
     open_for_upgrade (sectors_of st) (as_ID (su_Sector cand)) (au_Pieces a) (su_Public cand))"

definition given_up :: "'b sealer_env \<Rightarrow> snapup_candidate \<Rightarrow> 'b sealer_state \<Rightarrow> 'b sealer_state \<Rightarrow> bool" where
  "given_up env cand st st1 = (ns_kv (se_snap st1) = snd (Release (ee_bitfields env) cand (ns_kv (se_snap st))) \<and>
     (calls_of st1 = calls_of st \<or> (\<exists>ds. let sid = as_ID (su_Sector cand) in
        offered_back env sid (map (piece_of (ee_market env)) ds) (calls_of st @ [Assigned sid ds]) (calls_of st1))))"

lemma pack_upgradeD:
  assumes "pack_upgrade env cand ps st = (r, st1)" "ps \<noteq> []"
  shows "(\<exists>a. r = Inr (Some a) \<and> au_Pieces a = ps \<and> packed cand a st1 \<and> calls_of st1 = calls_of st) \<or>
    ((\<forall>a. r \<noteq> Inr (Some a)) \<and> ns_kv (se_snap st1) = snd (Release (ee_bitfields env) cand (ns_kv (se_snap st))) \<and>
      offered_back env (as_ID (su_Sector cand)) ps (calls_of st) (calls_of st1))"
proof (cases "sealer_checkPieces (zero_piece env) ps")
  case (Inl e)
  with assms show ?thesis by (auto simp: pack_upgrade_def offered_back_def)
next
  case (Inr u)
  note c = Inr
  show ?thesis
  proof (cases "checkForLifetime (su_Public cand) ps = Inr True")
    case True
    obtain q st2 where q: "on_smgr (open_upgrade cand ps) st = (q, st2)" by fastforce
    then obtain sm where sm: "open_upgrade cand ps (se_smgr st) = (q, sm)" "st2 = st\<lparr>se_smgr := sm\<rparr>" by (blast dest: on_smgrD)
    show ?thesis
    proof (cases q)
      case (Inl e)
      with assms c True q sm(2) show ?thesis by (auto simp: pack_upgrade_def offered_back_def)
    next
      case (Inr v)
      with assms c True q sm(2) open_upgradeD [of cand ps "se_smgr st" v sm] sm(1) checkForLifetime_ok [OF True] show ?thesis
        by (auto simp: pack_upgrade_def packed_def)
    qed
  next
    case False
    then consider e where "checkForLifetime (su_Public cand) ps = Inl e" | "checkForLifetime (su_Public cand) ps = Inr False"
      by (metis (full_types) sum.exhaust)
    then show ?thesis using assms c by cases (auto simp: pack_upgrade_def offered_back_def)
  qed
qed

text \<open>The outcomes of \<open>AllocateSanpUpSector\<close> once a candidate is found.\<close>

lemma upgrade_outcome:
  assumes "AllocateSanpUpSector env sector deals st = (r, st1)" "snap_allocate env sector st = (Inr (Some cand), st2)"
  shows "case r of Inr (Some a) \<Rightarrow> packed cand a st1 \<and> (\<exists>ds. calls_of st1 = calls_of st @ [Assigned (as_ID (su_Sector cand)) ds] \<and>
      au_Pieces a = map (piece_of (ee_market env)) ds) | _ \<Rightarrow> given_up env cand st2 st1"
proof -
  let ?l = "Some \<lparr>al_Start = pub_Activation (su_Public cand), al_End = pub_Expiration (su_Public cand),
            al_SectorExpiration = Some (pub_Expiration (su_Public cand))\<rparr>"
  obtain q st3 where q: "acquire env (as_ID (su_Sector cand)) deals ?l JobSnapUp st2 = (q, st3)" by fastforce
  note a = acquireD [OF q]
  have d: "calls_of st2 = calls_of st" using assms(2) by (auto simp: snap_allocate_def split: prod.splits)
  have run: "(r, st1) = (case q of Inl e \<Rightarrow> (Inl (Wrap ''acquire deals'' e), release_candidate env cand st3)
      | Inr ps \<Rightarrow> if length ps = 0 then (Inr None, release_candidate env cand st3) else pack_upgrade env cand ps st3)"
    using assms q by (simp add: AllocateSanpUpSector_def split: sum.splits)
  show ?thesis
  proof (cases "\<exists>ps. q = Inr ps \<and> ps \<noteq> []")
    case True
    then obtain ps where ps: "q = Inr ps" "ps \<noteq> []" by blast
    with run have "pack_upgrade env cand ps st3 = (r, st1)" by simp
    from pack_upgradeD [OF this ps(2)] ps a d show ?thesis
      by (auto simp: given_up_def Let_def split: sum.splits option.splits)
  next
    case False
    have "\<exists>ds. m @ [Assigned sid []] = snd (deal_Release (ee_market env) sid (map (piece_of (ee_market env)) ds) (m @ [Assigned sid ds]))" for m sid
      by (rule exI [of _ "[]"]) (simp add: deal_Release_nothing)
    with False run a have "(\<forall>a. r \<noteq> Inr (Some a)) \<and> given_up env cand st2 st1"
      by (cases q) (auto simp: given_up_def Let_def offered_back_def deal_Release_nothing)
    then show ?thesis by (auto split: sum.splits option.splits)
  qed
qed

text \<open>C11. A worker that asks for a sector to upgrade gets it ready: online, open for the upgrade, with at least one piece and every deal within the sector's
  lifetime. When the call ends otherwise, by an error or for want of deals, the candidate is released and the deals that were assigned are offered back.\<close>

theorem upgrade_packed_or_given_up:
  assumes "AllocateSanpUpSector env sector deals st = (r, st1)" "snap_allocate env sector st = (Inr (Some cand), st2)"
  shows "case r of Inr (Some a) \<Rightarrow> packed cand a st1 \<and> (\<exists>ds. calls_of st1 = calls_of st @ [Assigned (as_ID (su_Sector cand)) ds] \<and>
      au_Pieces a = map (piece_of (ee_market env)) ds) | _ \<Rightarrow> given_up env cand st2 st1"
  using upgrade_outcome [OF assms] .

text \<open>An upgrade that is given up costs nothing: when the release of the candidate goes through, the sectors on offer for upgrades are what they
  were before the call.\<close>

theorem given_up_upgrade_restores_offers:
  assumes "AllocateSanpUpSector env sector deals st = (r, st1)" "snap_allocate env sector st = (Inr (Some cand), st2)"
    and "r = Inr None \<or> isl r" "fst (Release (ee_bitfields env) cand (ns_kv (se_snap st2))) = Inr ()"
    and "bitfield_ok (ee_bitfields env) bits" "picks (ee_pick env)" "picks (ee_pickDeadline env)" "picks (ee_pickNumber env)"
    and "deadlines_fit (ns_kv (se_snap st))"
  shows "avail bits (ns_kv (se_snap st1)) = avail bits (ns_kv (se_snap st))"
proof -
  have g: "given_up env cand st2 st1" using upgrade_outcome [OF assms(1,2)] assms(3) by (auto split: sum.splits option.splits)
  obtain kv where kv: "Release (ee_bitfields env) cand (ns_kv (se_snap st2)) = (Inr (), kv)" using assms(4) by (metis surjective_pairing)
  from assms(2) have "snapup_Allocate (ee_bitfields env) (ee_snap_chain env) (ee_miners env) (ee_cfg env) (CID2Commitment (ee_CIDToReplica env))
       (ee_DealMinDuration env) (ee_pick env) (ee_pickDeadline env) (ee_pickNumber env) sector
       ((se_snap st)\<lparr>ns_index := ix_normal (se_index st)\<rparr>) = (Inr (Some cand), se_snap st2)"
    by (auto simp: snap_allocate_def split: prod.splits)
  from snapup_Release_restores [OF this assms(5-8) _ kv] assms(9) g kv show ?thesis by (simp add: given_up_def)
qed

section \<open>Persisted files and proofs of upgrades\<close>

lemma instance_private:
  assumes "SinglePrivateInfo ob sm \<lparr>ref_ID = sid, ref_ProofType = pt\<rparr> up (Some (instance_locator sid ins)) ix = (r, ix1)"
  shows "ix1 = ix \<and> (\<forall>p. r = Inr p \<longrightarrow> pvt_Accesses p = \<lparr>ac_SealedFile = ins, ac_CacheDir = ins\<rparr> \<and>
    pvt_CacheDirURI p = SectorPath (if up then PathUpdateCache else PathCache) sid \<and>
    pvt_SealedSectorURI p = SectorPath (if up then PathUpdate else PathSealed) sid)"
proof -
  have l: "locate (Some (instance_locator sid ins)) up sid ix = (Inr (\<lparr>ac_SealedFile = ins, ac_CacheDir = ins\<rparr>, True), ix)"
    by (simp add: locate_def instance_locator_def)
  show ?thesis
    by (cases "GetInstance sm ins")
      (use assms in \<open>auto simp: SinglePrivateInfo_def getPrivateInfo_def getObjInstanceForSector_def l Let_def\<close>)
qed

text \<open>The files of a sector are in the given instance.\<close>

definition files_persisted :: "'b sealer_env \<Rightarrow> sector_id \<Rightarrow> seal_proof \<Rightarrow> string \<Rightarrow> bool \<Rightarrow> bool" where
  "files_persisted env sid pt ins up = (\<exists>ssize. pg_SectorSize (ee_proving env) pt = Inr ssize \<and>
     files_in_place (pg_objects (ee_proving env)) \<lparr>ac_SealedFile = ins, ac_CacheDir = ins\<rparr> sid up ssize False)"

lemma checkPersistedFilesD:
  assumes "checkPersistedFiles env sid pt ins up st = (r, st1)"
  shows "st1 = st \<and> (r = Inr True \<longrightarrow> files_persisted env sid pt ins up)"
proof -
  have single: "st' = pst \<and> (q = Inr () \<longrightarrow> files_persisted env sid pt ins up)"
    if "SingleProvable (ee_proving env) rnd ppt \<lparr>ref_ID = sid, ref_ProofType = pt\<rparr> up (Some (instance_locator sid ins)) False False pst = (q, st')"
    for rnd ppt pst q st'
  proof (cases "pg_SectorSize (ee_proving env) pt")
    case (Inr ssize)
    obtain w ix where w: "SinglePrivateInfo (pg_objects (ee_proving env)) (pg_stores (ee_proving env)) \<lparr>ref_ID = sid, ref_ProofType = pt\<rparr> up
        (Some (instance_locator sid ins)) (pg_index pst) = (w, ix)" by fastforce
    note pr = instance_private [OF w]
    show ?thesis
    proof (cases w)
      case (Inl e)
      with that Inr w pr show ?thesis by (auto simp: SingleProvable_def)
    next
      case Inr2: (Inr p)
      show ?thesis
      proof (cases "file_checks (pg_objects (ee_proving env)) (pg_stores (ee_proving env)) p ssize False")
        case (Inl e)
        with that Inr w pr Inr2 show ?thesis by (auto simp: SingleProvable_def)
      next
        case fc: (Inr u)
        with pr Inr2 file_checksD [OF fc] Inr have "files_persisted env sid pt ins up" by (auto simp: files_persisted_def)
        with that Inr w pr Inr2 fc show ?thesis by (auto simp: SingleProvable_def)
      qed
    qed
  qed (use that in \<open>auto simp: SingleProvable_def\<close>)
  show ?thesis
  proof (cases "\<exists>nv ppt. ee_NetworkVersion env = Inr nv \<and> ee_WindowPoStProof env pt nv = Inr ppt")
    case True
    then obtain nv ppt where n: "ee_NetworkVersion env = Inr nv" "ee_WindowPoStProof env pt nv = Inr ppt" by blast
    obtain q pg where q: "SingleProvable (ee_proving env) (ee_random env) ppt \<lparr>ref_ID = sid, ref_ProofType = pt\<rparr> up
        (Some (instance_locator sid ins)) False False \<lparr>pg_index = se_index st, pg_smgr = se_smgr st\<rparr> = (q, pg)" by fastforce
    from single [OF q] assms n q show ?thesis
      by (cases q) (auto simp: checkPersistedFiles_def Let_def split: if_splits)
  qed (use assms in \<open>auto simp: checkPersistedFiles_def split: sum.splits\<close>)
qed

lemma store_upgradedD:
  assumes "store_upgraded sid ui st = (Inr resp, st1)"
  shows "\<exists>s. sectors_of st WorkerOnline sid = Some (Json s) \<and> ss_Upgraded s \<and>
    sectors_of st1 = view_put WorkerOnline sid (s\<lparr>ss_UpgradedInfo := Some ui\<rparr>) (sectors_of st) \<and>
    (\<exists>i. sy_jobs (se_up st1) sid = Some i \<and> i \<in> dom (sy_run (se_up st1)))"
proof -
  obtain q st2 where q: "on_smgr (Update sid WorkerOnline [FUpgradedInfo (Some ui)]) st = (q, st2)" by fastforce
  with assms have "q = Inr ()" by (cases q) (auto simp: store_upgraded_def)
  with sealer_updateD [OF q] obtain s where s: "sectors_of st WorkerOnline sid = Some (Json s)"
    "sectors_of st2 = view_put WorkerOnline sid (s\<lparr>ss_UpgradedInfo := Some ui\<rparr>) (sectors_of st)" by auto
  obtain c sys where c: "snap_Commit sid (up_in st2) = (c, sys)" by fastforce
  with assms q \<open>q = Inr ()\<close> have c1: "c = Inr ()" "st1 = up_out sys st2" by (auto simp: store_upgraded_def split: sum.splits)
  obtain l sm where l: "Load sid WorkerOnline (se_smgr st2) = (l, sm)" by fastforce
  note lw = smgr.load_law [OF l]
  from c c1(1) l have "\<exists>s1. l = Inr s1 \<and> ss_Upgraded s1 \<and> sy_jobs (up_in st2) sid = None \<and>
      sys = spawn (sy_next (up_in st2)) s1 (with_ct_smgr sm (add_entry sid (up_in st2)))"
    by (auto simp: snap_Commit_def Let_def up_in_def add_entry_def split: if_splits sum.splits)
  with lw s c1(2) show ?thesis
    by (auto simp: up_out_def spawn_def with_ct_smgr_def add_entry_def view_put_def)
qed

text \<open>C16. The proof of an upgrade is accepted only when it is there, names the sector's pieces in their order and the new files are in the named instance; then
  the sector's state holds it and a committer runs for the sector.\<close>

theorem accepted_upgrade_is_stored_and_runs:
  assumes "SubmitSnapUpProof env sid info st = (Inr resp, st1)" "sr_Res resp = SubmitAccepted"
  shows "\<exists>s sealed unsealed. sectors_of st WorkerOnline sid = Some (Json s) \<and> ss_Upgraded s \<and> sni_Proof info \<noteq> [] \<and>
    map pi_Cid (PieceInfos s) = sni_Pieces info \<and> files_persisted env sid (ss_SectorType s) (sni_AccessInstance info) True \<and>
    ee_ReplicaToCID env (sni_CommR info) = Inr sealed \<and> ee_DataToCID env (sni_CommD info) = Inr unsealed \<and>
    sectors_of st1 = view_put WorkerOnline sid (s\<lparr>ss_UpgradedInfo := Some \<lparr>ui_AccessInstance = sni_AccessInstance info, ui_SealedCID = sealed,
      ui_UnsealedCID = unsealed, ui_Proof = sni_Proof info\<rparr>\<rparr>) (sectors_of st) \<and>
    (\<exists>i. sy_jobs (se_up st1) sid = Some i \<and> i \<in> dom (sy_run (se_up st1)))"
proof -
  obtain q sta where l: "on_smgr (Load sid WorkerOnline) st = (q, sta)" by fastforce
  note ld = sealer_loadD [OF l]
  from assms l obtain s where s: "q = Inr s" by (cases q) (auto simp: SubmitSnapUpProof_def reject_def split: if_splits)
  obtain cr stb where c: "checkPersistedFiles env sid (ss_SectorType s) (sni_AccessInstance info) True sta = (cr, stb)" by fastforce
  note cd = checkPersistedFilesD [OF c]
  from assms l s c obtain sealed unsealed where g: "sni_Proof info \<noteq> []" "map pi_Cid (PieceInfos s) = sni_Pieces info"
      "ee_ReplicaToCID env (sni_CommR info) = Inr sealed" "ee_DataToCID env (sni_CommD info) = Inr unsealed" "cr = Inr True"
    by (auto simp: SubmitSnapUpProof_def reject_def split: if_splits sum.splits bool.splits)
  with assms l s c have "store_upgraded sid \<lparr>ui_AccessInstance = sni_AccessInstance info, ui_SealedCID = sealed,
      ui_UnsealedCID = unsealed, ui_Proof = sni_Proof info\<rparr> stb = (Inr resp, st1)"
    by (auto simp: SubmitSnapUpProof_def reject_def split: if_splits)
  from store_upgradedD [OF this] g cd ld s show ?thesis by auto
qed

section \<open>Allocation, seeds and reports\<close>

text \<open>The bit field library, with \<open>bits\<close> the numbers of a bit field.\<close>

definition numbers_ok :: "'b sealer_env \<Rightarrow> ('b \<Rightarrow> u64 set) \<Rightarrow> bool" where
  "numbers_ok env bits = ((\<forall>ns. bits (ee_NewFromSet env ns) = set ns) \<and>
     (\<forall>a b c. ee_Intersect env a b = Inr c \<longrightarrow> bits c = bits a \<inter> bits b) \<and> (\<forall>a n ns. ee_AllBits env a n = Inr ns \<longrightarrow> set ns = bits a))"

lemma checkSectorNumbers_new:
  assumes "checkSectorNumbers env mid ns = Inr []" "numbers_ok env bits"
  shows "\<exists>maddr key height allocated. ee_NewIDAddress env mid = Inr maddr \<and> ee_head env = Inr (key, height) \<and>
    ee_MinerAllocated env maddr key = Inr allocated \<and> bits allocated \<inter> set ns = {}"
proof -
  obtain maddr key height allocated dup where h: "ee_NewIDAddress env mid = Inr maddr" "ee_head env = Inr (key, height)"
      "ee_MinerAllocated env maddr key = Inr allocated" "ee_Intersect env allocated (ee_NewFromSet env ns) = Inr dup"
      "ee_AllBits env dup (of_nat (length ns)) = Inr []"
    using assms(1) by (auto simp: checkSectorNumbers_def split: sum.splits)
  with assms(2) have "bits dup = {}" "bits dup = bits allocated \<inter> set ns" by (fastforce simp: numbers_ok_def)+
  with h show ?thesis by auto
qed

text \<open>Sectors handed to a worker are new to the chain, by the miner's allocations at the head, and each has a fresh state in the online store.\<close>

theorem batch_is_new_and_initialized:
  assumes "AllocateSectorsBatch env spec cnt st = (Inr (Some as), st1)" "numbers_ok env bits"
  shows "as \<noteq> [] \<and> (\<exists>maddr key height allocated. ee_NewIDAddress env (sid_Miner (as_ID (hd as))) = Inr maddr \<and> ee_head env = Inr (key, height) \<and>
      ee_MinerAllocated env maddr key = Inr allocated \<and> bits allocated \<inter> (sid_Number \<circ> as_ID) ` set as = {}) \<and>
    (\<forall>a \<in> set as. sectors_of st1 WorkerOnline (as_ID a) = Some (Json (new_sector_state (as_ID a) (as_ProofType a))))"
proof -
  obtain r al where al: "Allocate (ee_miners env) (ee_cfg env) (ee_pick env) spec cnt (se_alloc st) = (r, al)" by fastforce
  from assms(1) al have r: "r = Inr (Some as)" "as \<noteq> []"
    by (auto simp: AllocateSectorsBatch_def Let_def split: sum.splits option.splits list.splits if_splits prod.splits)
  then obtain a as' where aas: "as = a # as'" by (cases as) auto
  obtain d where d: "checkSectorNumbers env (sid_Miner (as_ID a)) (map (sid_Number \<circ> as_ID) as) = Inr d" "d = []"
    using assms(1) al r aas by (auto simp: AllocateSectorsBatch_def Let_def split: sum.splits if_splits)
  have i: "\<exists>st2. on_smgr (Init as WorkerOnline) (st\<lparr>se_alloc := al\<rparr>) = (Inr (), st2) \<and> st1 = st2"
    using assms(1) al r aas d by (auto simp: AllocateSectorsBatch_def Let_def split: sum.splits if_splits prod.splits)
  then obtain sm where sm: "Init as WorkerOnline (se_smgr st) = (Inr (), sm)" "se_smgr st1 = sm" by (auto dest!: on_smgrD)
  have ini: "initialized as WorkerOnline [] (view sm)" using sm(1) InitWithD by (auto simp: Init_def)
  have "\<forall>a \<in> set as. sectors_of st1 WorkerOnline (as_ID a) = Some (Json (new_sector_state (as_ID a) (as_ProofType a)))"
    using ini sm(2) by (auto simp: initialized_def)
  moreover have "set (map (sid_Number \<circ> as_ID) as) = (sid_Number \<circ> as_ID) ` set as" by simp
  moreover have "hd as = a" using aas by simp
  ultimately show ?thesis using checkSectorNumbers_new [OF d(1) [unfolded d(2)] assms(2)] r(2) by metis
qed

text \<open>A seed that has to wait for the pre-commitment is drawn exactly the challenge delay after it, never before the head is the confidence past
  that epoch, and is stored in the sector's state; asked too early the caller is told to wait, and nothing changes.\<close>

theorem seed_not_before_confidence:
  assumes "WaitSeed env sid proofType st = (Inr resp, st1)" "\<not> ee_IsNonInteractive env proofType"
  shows "\<exists>maddr key cur pre. ee_NewIDAddress env (sid_Miner sid) = Inr maddr \<and> ee_head env = Inr (key, cur) \<and>
    ee_PreCommitEpoch env maddr (sid_Number sid) key = Inr (Some pre) \<and>
    (let at = pre + GetPreCommitChallengeDelay (ee_np env); due = at + ee_InteractivePoRepConfidence env in
     if cur < due then wr_ShouldWait resp \<and> wr_Seed resp = None \<and> st1 = st
     else \<not> wr_ShouldWait resp \<and> (\<exists>sd s. wr_Seed resp = Some sd \<and> GetSeed (ee_rand env) key at (sid_Miner sid) = Inr sd \<and>
       sectors_of st WorkerOnline sid = Some (Json s) \<and> sectors_of st1 = view_put WorkerOnline sid (s\<lparr>ss_Seed := Some sd\<rparr>) (sectors_of st)))"
proof -
  obtain maddr key cur ep where e: "ee_NewIDAddress env (sid_Miner sid) = Inr maddr" "ee_head env = Inr (key, cur)"
      "seed_epoch env maddr sid proofType key cur = Inr ep"
    using assms(1) by (auto simp: WaitSeed_def split: sum.splits)
  then obtain pre where pre: "ee_PreCommitEpoch env maddr (sid_Number sid) key = Inr (Some pre)"
    using assms(2) by (auto simp: seed_epoch_def split: sum.splits option.splits)
  let ?at = "pre + GetPreCommitChallengeDelay (ee_np env)"
  show ?thesis
  proof (cases "cur < ?at + ee_InteractivePoRepConfidence env")
    case True
    with assms e pre show ?thesis by (auto simp: WaitSeed_def seed_epoch_def Let_def)
  next
    case False
    with e(3) pre assms(2) have ep: "seed_epoch env maddr sid proofType key cur = Inr (Inr ?at)" by (simp add: seed_epoch_def Let_def)
    with assms(1) e obtain sd where sd: "GetSeed (ee_rand env) key ?at (sid_Miner sid) = Inr sd" by (auto simp: WaitSeed_def split: sum.splits)
    obtain q st2 where q: "on_smgr (Update sid WorkerOnline [FSeed (Some sd)]) st = (q, st2)" by fastforce
    with assms(1) e ep sd have "q = Inr ()" "st2 = st1" "wr_Seed resp = Some sd" "\<not> wr_ShouldWait resp"
      by (auto simp: WaitSeed_def split: sum.splits)
    with sealer_updateD [OF q] False e pre sd show ?thesis by (auto simp: Let_def)
  qed
qed

text \<open>A report that a sector is done takes it offline, less the flag of the task it was online for; a sector under upgrade stays online, for the committer to
  finish. The flags are looked at in the order unsealing, rebuild, upgrade.\<close>

theorem finalized_by_task:
  assumes "ReportFinalized sid st = (Inr u, st1)"
  shows "\<exists>s. sectors_of st WorkerOnline sid = Some (Json s) \<and>
    (let off = (\<lambda>s1. view_del WorkerOnline sid (view_put WorkerOffline sid (s1\<lparr>ss_Finalized := True\<rparr>) (sectors_of st))) in
     sectors_of st1 = (if ss_Unsealing s then off (s\<lparr>ss_Unsealing := False\<rparr>)
       else if ss_NeedRebuild s then off (s\<lparr>ss_NeedRebuild := False\<rparr>)
       else if ss_Upgraded s then sectors_of st else off s))"
proof -
  obtain r sm x where f: "Finalize sid (Some finalize_hook) (se_smgr st, ()) = (r, sm, x)" by (metis prod_cases3)
  with assms have "r = Inr ()" "se_smgr st1 = sm" by (auto simp: ReportFinalized_def release_reserved_def split: sum.splits)
  with FinalizeD [OF f] show ?thesis by (auto simp: run_hook_def finalize_hook_def Let_def split: if_splits)
qed

text \<open>What the release of the legacy deals adds to the market's history.\<close>

definition legacy_releases :: "market_api \<Rightarrow> sector_id \<Rightarrow> legacy_deal_info list \<Rightarrow> market" where
  "legacy_releases mk sid ls = (case mk_NewIDAddress mk (sid_Miner sid) of
     Inl e \<Rightarrow> [] | Inr maddr \<Rightarrow> if ls = [] then [] else [ReleasedDeals maddr (map ld_ID ls)])"

lemma ReleaseLegacyDeal_ok: "ReleaseLegacyDeal mk sid ls m = (Inr u, m1) \<Longrightarrow> m1 = m @ legacy_releases mk sid ls"
  by (auto simp: ReleaseLegacyDeal_def release_builtin_def legacy_releases_def split: sum.splits if_splits)

lemma abort_hookD:
  assumes "abort_hook env sid reason s (m, up) = (Inr (b, s1), m2, up2)"
  shows "b \<and> s1 = (if ss_Upgraded s then clear_upgrade s else s)\<lparr>ss_AbortReason := reason\<rparr> \<and>
    up2 = (if ss_Upgraded s then CancelCommitment sid up else up) \<and>
    m2 = m @ legacy_releases (ee_market env) sid (ss_LegacyPieces s) @ releases (ee_market env) sid (ss_Pieces s)"
proof -
  obtain q m1 where q: "(if length (ss_LegacyPieces s) > 0 then ReleaseLegacyDeal (ee_market env) sid (ss_LegacyPieces s) m else (Inr (), m)) = (q, m1)"
    by fastforce
  obtain w m3 where w: "(if length (ss_Pieces s) > 0 then deal_Release (ee_market env) sid (ss_Pieces s) m1 else (Inr (), m1)) = (w, m3)" by fastforce
  from assms q obtain u where u: "q = Inr u" by (cases q) (auto simp: abort_hook_def)
  with assms q w obtain v where v: "w = Inr v" by (cases w) (auto simp: abort_hook_def)
  have "m1 = m @ legacy_releases (ee_market env) sid (ss_LegacyPieces s)"
    using q u ReleaseLegacyDeal_ok by (auto simp: legacy_releases_def split: if_splits sum.splits)
  moreover have "m3 = m1 @ releases (ee_market env) sid (ss_Pieces s)"
    using w v deal_Release_ok by (auto simp: releases_def builtin_ids_def direct_ids_def split: if_splits sum.splits)
  ultimately show ?thesis using assms q w u v by (auto simp: abort_hook_def)
qed

text \<open>The job of a sector is cancelled: it has no entry any more and, if it runs, its context is cancelled; all other jobs
  are as they were.\<close>

definition commit_cancelled :: "sector_id \<Rightarrow> snap_sys \<Rightarrow> snap_sys \<Rightarrow> bool" where
  "commit_cancelled sid up up1 = (sy_jobs up1 = (sy_jobs up)(sid := None) \<and>
     (\<forall>i. sy_run up1 i = (if sy_jobs up sid = Some i then map_option (\<lambda>j. j\<lparr>jb_cancelled := True\<rparr>) (sy_run up i) else sy_run up i)))"

lemma CancelCommitment_cancels: "commit_cancelled sid up (CancelCommitment sid up)"
  by (auto simp: commit_cancelled_def CancelCommitment_def fun_eq_iff split: option.splits)

text \<open>C39. A sector that is aborted without an error goes offline with the reason. Its legacy deals are released first, all of them and in one call
  that is left out only when there are none, and then the deals of its pieces. If it was being upgraded, the upgrade is forgotten in its state, its entry among the
  commitment jobs is gone and its running job is cancelled, and no other job is touched; otherwise no job is. Its reserved space is released.\<close>

theorem aborted_sector_gives_up_everything:
  assumes "ReportAborted env sid reason st = (Inr u, st1)"
  shows "\<exists>s. sectors_of st WorkerOnline sid = Some (Json s) \<and>
    calls_of st1 = calls_of st @ legacy_releases (ee_market env) sid (ss_LegacyPieces s) @ releases (ee_market env) sid (ss_Pieces s) \<and>
    sectors_of st1 = view_del WorkerOnline sid (view_put WorkerOffline sid
      ((if ss_Upgraded s then clear_upgrade s else s)\<lparr>ss_AbortReason := reason, ss_Finalized := True\<rparr>) (sectors_of st)) \<and>
    (if ss_Upgraded s then commit_cancelled sid (se_up st) (se_up st1) else se_up st1 = se_up st) \<and>
    se_reserve st1 = snd (ReleaseReserved sid (se_reserve st))"
proof -
  obtain r sm m up where f: "Finalize sid (Some (abort_hook env sid reason)) (se_smgr st, calls_of st, se_up st) = (r, sm, m, up)"
    by (metis prod_cases4)
  with assms have e: "r = Inr ()" "se_smgr st1 = sm" "calls_of st1 = m" "se_up st1 = up" "se_reserve st1 = snd (ReleaseReserved sid (se_reserve st))"
    by (auto simp: ReportAborted_def Let_def release_reserved_def split: sum.splits)
  from FinalizeD [OF f] e(1) obtain s b s1 where s: "sectors_of st WorkerOnline sid = Some (Json s)"
      "abort_hook env sid reason s (calls_of st, se_up st) = (Inr (b, s1), m, up)"
      "b \<longrightarrow> view sm = view_del WorkerOnline sid (view_put WorkerOffline sid (s1\<lparr>ss_Finalized := True\<rparr>) (sectors_of st))"
    by (auto simp: run_hook_def)
  from abort_hookD [OF s(2)] s e CancelCommitment_cancels show ?thesis by (intro exI [of _ s]) auto
qed

section \<open>Instances\<close>

definition demo_sealer_cfg :: safe_config where
  "demo_sealer_cfg = map (\<lambda>m. m\<lparr>mc_SnapUp := (mc_SnapUp m)\<lparr>msu_Enabled := True\<rparr>\<rparr>) demo_deal_cfg"

definition demo_sealer_env :: "u64 list sealer_env" where
  "demo_sealer_env = \<lparr>ee_cfg = demo_sealer_cfg, ee_miners = demo_chain, ee_head = Inr ([9], 2000), ee_NewIDAddress = (\<lambda>i. Inr (IDAddress i)),
     ee_MinerAllocated = (\<lambda>_ _. Inr [7]), ee_NewFromSet = (\<lambda>ns. ns), ee_Intersect = (\<lambda>a b. Inr (filter (\<lambda>n. n \<in> set b) a)),
     ee_AllBits = (\<lambda>b _. Inr b), ee_pick = (\<lambda>_. 0), ee_market = demo_market_api,
     ee_rand = \<lparr>ra_NewIDAddress = (\<lambda>i. Inr (IDAddress i)), ra_MarshalCBOR = (\<lambda>_. Inr [1]), ra_ChainHead = Inr [9],
       ra_FromTickets = (\<lambda>_ _ _ _. Inr [2]), ra_FromBeacon = (\<lambda>_ _ _ _. Inr [3])\<rparr>,
     ee_np = demo_np, ee_PreCommitEpoch = (\<lambda>_ _ _. Inr (Some 1000)), ee_IsNonInteractive = (\<lambda>_. False), ee_InteractivePoRepConfidence = 6,
     ee_BlockDelaySecs = 30, ee_commit = demo_env, ee_ReplicaToCID = (\<lambda>_. Inr ''r''), ee_DataToCID = (\<lambda>_. Inr ''d''),
     ee_CIDToReplica = (\<lambda>_. Inr (replicate 32 0)), ee_CIDToData = (\<lambda>_. Inr (replicate 32 0)), ee_proving = demo_proving_env,
     ee_NetworkVersion = Inr 22, ee_WindowPoStProof = (\<lambda>_ _. Inr 1), ee_random = 3, ee_bitfields = demo_bf, ee_snap_chain = demo_snap_chain,
     ee_DealMinDuration = 10, ee_pickDeadline = (\<lambda>_. 0), ee_pickNumber = (\<lambda>_. 0), ee_chooser = demo_chooser, ee_stores = demo_stores,
     ee_InstanceConfig = (\<lambda>_. ii_Config demo_store_info), ee_now = 7\<rparr>"

definition demo_sealer :: "state_mgr \<Rightarrow> u64 list sealer_state" where
  "demo_sealer sm = \<lparr>se_smgr = sm, se_alloc = demo_alloc, se_deals = \<lparr>dm_cache = Map.empty, dm_market = []\<rparr>, se_commit = demo_commit, se_snap = demo_snap,
     se_up = demo_sys, se_rebuild = demo_rebuild_state, se_unseal = demo_unseal, se_workers = empty_store,
     se_index = \<lparr>ix_normal = \<lparr>kv_data = [(makeSectorKeySealedFile demo_sid, ''store-1'')], kv_script = []\<rparr>, ix_upgrade = empty_store\<rparr>,
     se_reserve = demo_rdb []\<rparr>"

lemma demo_sealer_simps [simp]: "se_smgr (demo_sealer sm) = sm" "calls_of (demo_sealer sm) = []" "se_up (demo_sealer sm) = demo_sys"
  by (simp_all add: demo_sealer_def)

text \<open>A sector gets its first deals.\<close>

abbreviation demo_ask :: acquire_spec where
  "demo_ask \<equiv> \<lparr>aq_MaxDeals = None, aq_MinUsedSpace = None\<rparr>"

definition demo_sealer_miner :: miner_config where
  "demo_sealer_miner = hd demo_sealer_cfg"

lemmas demo_sealer_cfg_defs = demo_sealer_miner_def demo_sealer_cfg_def demo_deal_cfg_def demo_alloc_defs defaultMinerSnapUpConfig_def

lemma demo_acquire:
  assumes "job = JobSealing \<or> job = JobSnapUp"
  shows "\<exists>c. acquire demo_sealer_env demo_sid demo_ask lifetime job (demo_sealer sm) = (Inr [piece_of demo_market_api demo_deal],
    (demo_sealer sm)\<lparr>se_deals := \<lparr>dm_cache = c, dm_market = [Assigned demo_sid [demo_deal]]\<rparr>\<rparr>)"
proof -
  have m: "MinerConfig (ee_cfg demo_sealer_env) 1000 = Inr demo_sealer_miner" by (simp add: demo_sealer_env_def demo_sealer_cfg_defs)
  have d: "deals_enabled demo_sealer_miner job" using assms by (auto simp: deals_enabled_def demo_sealer_cfg_defs)
  have "\<exists>c mi. GetInfo demo_chain (ee_cfg demo_sealer_env) 1000 Map.empty = (Inr mi, c)"
    by (simp add: GetInfo_def fetch_info_def demo_chain_def Let_def)
  then obtain c mi where g: "GetInfo demo_chain (ee_cfg demo_sealer_env) 1000 Map.empty = (Inr mi, c)" by blast
  have a: "mk_AssignDeals demo_market_api mk sid z g = Inr [demo_deal]" for mk sid z g by (simp add: demo_market_api_def)
  have e: "ee_market demo_sealer_env = demo_market_api" "ee_miners demo_sealer_env = demo_chain" by (simp_all add: demo_sealer_env_def)
  have s: "se_deals (demo_sealer sm) = \<lparr>dm_cache = Map.empty, dm_market = []\<rparr>" by (simp add: demo_sealer_def)
  show ?thesis by (auto simp: acquire_def Acquire_def m d g a e s)
qed

lemma demo_AcquireDeals: "\<exists>st1. AcquireDeals demo_sealer_env demo_sid demo_ask (demo_sealer demo_mgr) =
    (Inr [piece_of demo_market_api demo_deal], st1) \<and> calls_of st1 = [Assigned demo_sid [demo_deal]]"
proof -
  let ?p = "piece_of demo_market_api demo_deal"
  have l: "on_smgr (Load demo_sid WorkerOnline) (demo_sealer demo_mgr) = (Inr (new_sector_state demo_sid 8), demo_sealer demo_mgr)"
    by (simp add: on_smgr_def Load_def loadInner_def put_store_def demo_sealer_def demo_defs)
  have m: "MinerConfig (ee_cfg demo_sealer_env) 1000 = Inr demo_sealer_miner" by (simp add: demo_sealer_env_def demo_sealer_cfg_defs)
  have t: "sealing_lifetime demo_sealer_env demo_sealer_miner = Inr None" by (simp add: sealing_lifetime_def demo_sealer_cfg_defs)
  obtain c where a: "acquire demo_sealer_env demo_sid demo_ask None JobSealing (demo_sealer demo_mgr) = (Inr [?p],
      (demo_sealer demo_mgr)\<lparr>se_deals := \<lparr>dm_cache = c, dm_market = [Assigned demo_sid [demo_deal]]\<rparr>\<rparr>)" using demo_acquire by blast
  have k: "sealer_checkPieces (zero_piece demo_sealer_env) [?p] = Inr ()" by (simp add: piece_of_def demo_deal_def)
  have "\<exists>sm1. Update demo_sid WorkerOnline [FPieces [?p]] demo_mgr = (Inr (), sm1)"
    by (simp add: Update_def loadInner_def put_store_def save_def Let_def demo_defs)
  then obtain sm1 where u: "Update demo_sid WorkerOnline [FPieces [?p]] demo_mgr = (Inr (), sm1)" by blast
  have "AcquireDeals demo_sealer_env demo_sid demo_ask (demo_sealer demo_mgr) = keep_pieces demo_sealer_env demo_sid [?p]
      ((demo_sealer demo_mgr)\<lparr>se_deals := \<lparr>dm_cache = c, dm_market = [Assigned demo_sid [demo_deal]]\<rparr>\<rparr>)"
    by (simp add: AcquireDeals_def l release_legacy_def new_sector_state_def acquire_new_def m t a)
  then show ?thesis by (simp add: keep_pieces_def k on_smgr_def u del: sealer_checkPieces.simps)
qed

theorem acquired_deals_kept_or_returned_witness:
  "\<exists>st1. AcquireDeals demo_sealer_env demo_sid demo_ask (demo_sealer demo_mgr) = (Inr [piece_of demo_market_api demo_deal], st1) \<and>
    holds_pieces st1 demo_sid [piece_of demo_market_api demo_deal]"
proof -
  obtain st1 where a: "AcquireDeals demo_sealer_env demo_sid demo_ask (demo_sealer demo_mgr) = (Inr [piece_of demo_market_api demo_deal], st1)"
    using demo_AcquireDeals by blast
  from acquired_deals_kept_or_returned [OF a] have "holds_pieces st1 demo_sid [piece_of demo_market_api demo_deal]" by (auto simp: deals_accounted_def)
  with a show ?thesis by blast
qed

text \<open>A sector is taken for an upgrade and given back: the market has no deals.\<close>

definition demo_cand :: snapup_candidate where
  "demo_cand = demo_snap_cand\<lparr>su_Public := (su_Public demo_snap_cand)\<lparr>pub_CommR := replicate 32 0\<rparr>\<rparr>"

lemmas demo_snap_eval = demo_sealer_def demo_sealer_env_def snapup_Allocate_def demo_sealer_cfg_def demo_deal_cfg_def demo_alloc_defs candidates_def
      partition_loop.simps GetInfo_def fetch_info_def slot_ok_def demo_snap_def
      allocateForMiner_def demo_snap_chain_def loadExists_def exists_decode_def updateExists_def
      deadline_candidates_def demo_bf_def finish_candidate_def sectorGoodForSnapup_def demo_sinfo_def
      index_Find_def demo_sid_def demo_snap_cand_def makeSectorKeySealedFile_def makeSectorKey_def
      makeSectorKeyForCacheDir_def upt_rec defaultMinerSnapUpConfig_def CID2Commitment_def

lemma demo_snap_alloc:
  "\<exists>st2. snap_allocate demo_sealer_env demo_spec (demo_sealer demo_mgr) = (Inr (Some demo_cand), st2) \<and>
    ns_kv (se_snap st2) = \<lparr>kv_data = [(kvKeyForMinerActorID 1000, Json [None, Some []])], kv_script = []\<rparr>"
  by (simp add: snap_allocate_def Let_def demo_cand_def put_entry_def demo_snap_eval)

theorem upgrade_packed_or_given_up_witness:
  "\<exists>st2. snap_allocate demo_sealer_env demo_spec (demo_sealer demo_mgr) = (Inr (Some demo_cand), st2) \<and>
    (case AllocateSanpUpSector demo_sealer_env demo_spec demo_ask (demo_sealer demo_mgr) of
       (Inr (Some a), st1) \<Rightarrow> packed demo_cand a st1 | (_, st1) \<Rightarrow> given_up demo_sealer_env demo_cand st2 st1)"
proof -
  obtain st2 where a: "snap_allocate demo_sealer_env demo_spec (demo_sealer demo_mgr) = (Inr (Some demo_cand), st2)" using demo_snap_alloc by blast
  obtain r st1 where r: "AllocateSanpUpSector demo_sealer_env demo_spec demo_ask (demo_sealer demo_mgr) = (r, st1)" by fastforce
  from upgrade_packed_or_given_up [OF r a] a r show ?thesis by (auto split: sum.splits option.splits)
qed

definition demo_no_deals :: "u64 list sealer_env" where
  "demo_no_deals = demo_sealer_env\<lparr>ee_market := demo_market_api\<lparr>mk_AssignDeals := \<lambda>_ _ _ _. Inl (Ext ''market down'')\<rparr>\<rparr>"

lemma demo_give_up: "\<exists>st2 e st1. snap_allocate demo_no_deals demo_spec (demo_sealer demo_mgr) = (Inr (Some demo_cand), st2) \<and>
    AllocateSanpUpSector demo_no_deals demo_spec demo_ask (demo_sealer demo_mgr) = (Inl e, st1) \<and>
    fst (Release (ee_bitfields demo_no_deals) demo_cand (ns_kv (se_snap st2))) = Inr ()"
proof -
  have same: "snap_allocate demo_no_deals = snap_allocate demo_sealer_env" by (rule ext, rule ext) (simp add: snap_allocate_def demo_no_deals_def)
  obtain st2 where a: "snap_allocate demo_no_deals demo_spec (demo_sealer demo_mgr) = (Inr (Some demo_cand), st2)"
      and kv: "ns_kv (se_snap st2) = \<lparr>kv_data = [(kvKeyForMinerActorID 1000, Json [None, Some []])], kv_script = []\<rparr>"
    using demo_snap_alloc unfolding same by blast
  have "\<exists>e d. Acquire (ee_market demo_no_deals) (ee_miners demo_no_deals) (ee_cfg demo_no_deals) sid spec l JobSnapUp ds = (Inl e, d)"
    if "sid_Miner sid = 1000" for sid spec l ds
    by (cases "GetInfo (ee_miners demo_no_deals) (ee_cfg demo_no_deals) 1000 (dm_cache ds)"; cases "fst (GetInfo (ee_miners demo_no_deals) (ee_cfg demo_no_deals) 1000 (dm_cache ds))")
      (use that in \<open>simp_all add: Acquire_def deals_enabled_def demo_no_deals_def demo_sealer_env_def demo_sealer_cfg_defs\<close>)
  moreover have "sid_Miner (as_ID (su_Sector demo_cand)) = 1000" by (simp add: demo_cand_def demo_snap_cand_def)
  ultimately have "\<exists>e d. acquire demo_no_deals (as_ID (su_Sector demo_cand)) spec l JobSnapUp st2 = (Inl e, st2\<lparr>se_deals := d\<rparr>)" for spec l
    by (metis (no_types, lifting) acquire_def case_prod_conv)
  then have "\<exists>e st1. AllocateSanpUpSector demo_no_deals demo_spec demo_ask (demo_sealer demo_mgr) = (Inl e, st1)"
    by (simp add: AllocateSanpUpSector_def a) (metis (no_types, lifting) case_prod_conv old.sum.simps(5))
  moreover have "fst (Release (ee_bitfields demo_no_deals) demo_cand (ns_kv (se_snap st2))) = Inr ()"
    by (simp add: kv Release_def Let_def demo_no_deals_def demo_cand_def demo_snap_eval)
  ultimately show ?thesis using a by blast
qed

theorem given_up_upgrade_restores_offers_witness:
  "\<exists>e st1. AllocateSanpUpSector demo_no_deals demo_spec demo_ask (demo_sealer demo_mgr) = (Inl e, st1) \<and>
    avail set (ns_kv (se_snap st1)) 1000 1 = {7}"
proof -
  obtain st2 e st1 where a: "snap_allocate demo_no_deals demo_spec (demo_sealer demo_mgr) = (Inr (Some demo_cand), st2)"
      "AllocateSanpUpSector demo_no_deals demo_spec demo_ask (demo_sealer demo_mgr) = (Inl e, st1)"
      "fst (Release (ee_bitfields demo_no_deals) demo_cand (ns_kv (se_snap st2))) = Inr ()" using demo_give_up by blast
  have "avail set (ns_kv (se_snap st1)) = avail set (ns_kv (se_snap (demo_sealer demo_mgr)))"
    by (rule given_up_upgrade_restores_offers [OF a(2,1) _ a(3)])
      (simp_all add: demo_no_deals_def demo_sealer_env_def demo_bf_ok picks_def demo_sealer_def demo_snap_fit)
  moreover have "se_snap (demo_sealer demo_mgr) = demo_snap" by (simp add: demo_sealer_def)
  ultimately have "avail set (ns_kv (se_snap st1)) 1000 1 = {7}" using demo_snap_avail by simp
  with a(2) show ?thesis by blast
qed

text \<open>A batch of three sectors.\<close>

lemma demo_batch: "\<exists>st1. AllocateSectorsBatch demo_sealer_env demo_spec 3 (demo_sealer demo_mgr) = (Inr (Some (number_run 1000 5 1 3)), st1)"
proof -
  have "fst (Allocate demo_chain demo_sealer_cfg (\<lambda>_. 0) demo_spec 3 demo_alloc) = Inr (Some (number_run 1000 5 1 3))"
    by (simp add: Allocate_def demo_sealer_cfg_def demo_deal_cfg_def demo_alloc_defs candidates_def partition_loop.simps
      allocate_loop.simps GetInfo_def fetch_info_def slot_ok_def NextN_def Let_def minNumber_def number_check_def)
  then obtain al where al: "Allocate demo_chain demo_sealer_cfg (\<lambda>_. 0) demo_spec 3 demo_alloc = (Inr (Some (number_run 1000 5 1 3)), al)"
    by (metis prod.collapse)
  have run: "number_run 1000 5 1 3 = map (\<lambda>n. \<lparr>as_ID = \<lparr>sid_Miner = 1000, sid_Number = n\<rparr>, as_ProofType = 5\<rparr>) [1, 2, 3]"
    by (simp add: numeral_eq_Suc)
  have chk: "checkSectorNumbers demo_sealer_env 1000 [1, 2, 3] = Inr []" by (simp add: checkSectorNumbers_def demo_sealer_env_def)
  have d: "dec64 1000 = ''1000''" "dec64 7 = ''7''" "dec64 1 = ''1''" "dec64 2 = ''2''" "dec64 3 = ''3''" by code_simp+
  have "\<exists>sm. Init (number_run 1000 5 1 3) WorkerOnline demo_mgr = (Inr (), sm)"
    by (simp add: run Init_def InitWith_def init_attempt_def peek_exists_def save_def put_store_def Let_def demo_defs demo_sid_def makeSectorKey_def attempts_def d decoder_def put_entry_def notify_def)
  then obtain sm where sm: "Init (number_run 1000 5 1 3) WorkerOnline demo_mgr = (Inr (), sm)" by blast
  have e: "ee_miners demo_sealer_env = demo_chain" "ee_cfg demo_sealer_env = demo_sealer_cfg" "ee_pick demo_sealer_env = (\<lambda>_. 0)"
    "se_alloc (demo_sealer demo_mgr) = demo_alloc" by (simp_all add: demo_sealer_env_def demo_sealer_def)
  show ?thesis using sm chk unfolding run by (simp add: AllocateSectorsBatch_def e al [unfolded run] on_smgr_def)
qed

lemma demo_numbers_ok: "numbers_ok demo_sealer_env set"
  by (auto simp: numbers_ok_def demo_sealer_env_def)

theorem batch_is_new_and_initialized_witness:
  "\<exists>st1. AllocateSectorsBatch demo_sealer_env demo_spec 3 (demo_sealer demo_mgr) = (Inr (Some (number_run 1000 5 1 3)), st1) \<and>
    (\<forall>a \<in> set (number_run 1000 5 1 3). sectors_of st1 WorkerOnline (as_ID a) = Some (Json (new_sector_state (as_ID a) (as_ProofType a))))"
proof -
  obtain st1 where b: "AllocateSectorsBatch demo_sealer_env demo_spec 3 (demo_sealer demo_mgr) = (Inr (Some (number_run 1000 5 1 3)), st1)"
    using demo_batch by blast
  with batch_is_new_and_initialized [OF b demo_numbers_ok] show ?thesis by blast
qed

text \<open>A seed, the end of a sealing task, an aborted upgrade and an accepted one.\<close>

lemma demo_seed: "\<exists>st1. WaitSeed demo_sealer_env demo_sid 8 (demo_sealer demo_mgr) = (Inr \<lparr>wr_ShouldWait = False, wr_Delay = 0, wr_Seed = Some \<lparr>sd_Seed = [3], sd_Epoch = 1150\<rparr>\<rparr>, st1)"
  by (simp add: WaitSeed_def seed_epoch_def demo_sealer_env_def Let_def GetPreCommitChallengeDelay_def demo_np_def GetSeed_def getRandomnessEntropy_def head_if_empty_def on_smgr_def
     Update_def loadInner_def put_store_def save_def demo_defs demo_sealer_def)

theorem seed_not_before_confidence_witness:
  "\<exists>st1. WaitSeed demo_sealer_env demo_sid 8 (demo_sealer demo_mgr) =
      (Inr \<lparr>wr_ShouldWait = False, wr_Delay = 0, wr_Seed = Some \<lparr>sd_Seed = [3], sd_Epoch = 1150\<rparr>\<rparr>, st1) \<and>
    (\<exists>s. sectors_of st1 WorkerOnline demo_sid = Some (Json s) \<and> ss_Seed s = Some \<lparr>sd_Seed = [3], sd_Epoch = 1150\<rparr>)"
proof -
  obtain st1 where w: "WaitSeed demo_sealer_env demo_sid 8 (demo_sealer demo_mgr) =
      (Inr \<lparr>wr_ShouldWait = False, wr_Delay = 0, wr_Seed = Some \<lparr>sd_Seed = [3], sd_Epoch = 1150\<rparr>\<rparr>, st1)" using demo_seed by blast
  have "\<not> ee_IsNonInteractive demo_sealer_env 8" by (simp add: demo_sealer_env_def)
  from seed_not_before_confidence [OF w this] have "\<exists>s. sectors_of st1 WorkerOnline demo_sid = Some (Json s) \<and> ss_Seed s = Some \<lparr>sd_Seed = [3], sd_Epoch = 1150\<rparr>"
    by (auto simp: Let_def view_put_def split: if_splits)
  with w show ?thesis by blast
qed

theorem finalized_by_task_witness:
  "\<exists>st1. ReportFinalized demo_sid (demo_sealer demo_mgr) = (Inr (), st1) \<and> sectors_of st1 WorkerOnline demo_sid = None \<and>
    sectors_of st1 WorkerOffline demo_sid \<noteq> None"
proof -
  have "\<exists>st1. ReportFinalized demo_sid (demo_sealer demo_mgr) = (Inr (), st1)"
    by (simp add: ReportFinalized_def Finalize_def loadInner_def put_store_def save_def run_hook_def finalize_hook_def new_sector_state_def Let_def demo_defs demo_sealer_def)
  then obtain st1 where f: "ReportFinalized demo_sid (demo_sealer demo_mgr) = (Inr (), st1)" by blast
  from finalized_by_task [OF f] f show ?thesis by (auto simp: Let_def view_put_def view_del_def new_sector_state_def)
qed

abbreviation demo_upgrading :: "u64 list sealer_state" where
  "demo_upgrading \<equiv> demo_sealer (ct_smgr (demo_ct demo_upgraded))"

text \<open>A sector under upgrade with a legacy deal, whose commitment job runs.\<close>

definition demo_aborting :: sector_state where
  "demo_aborting = demo_upgraded\<lparr>ss_LegacyPieces := [\<lparr>ld_ID = 12, ld_PayloadSize = 5, ld_Piece = \<lparr>pi_Size = 8, pi_Offset = 0, pi_Cid = ''p''\<rparr>,
     ld_Proposal = None, ld_IsCompatible = False\<rparr>]\<rparr>"

definition demo_aborted_run :: snap_job where
  "demo_aborted_run = \<lparr>jb_state = demo_aborting, jb_ready = None, jb_retried = 0, jb_cancelled = False\<rparr>"

definition demo_aborting_state :: "u64 list sealer_state" where
  "demo_aborting_state = (demo_sealer (ct_smgr (demo_ct demo_aborting)))\<lparr>se_up := demo_sys\<lparr>sy_jobs := [demo_sid \<mapsto> 0],
     sy_run := [0 \<mapsto> demo_aborted_run], sy_next := 1\<rparr>\<rparr>"

theorem aborted_sector_gives_up_everything_witness:
  "\<exists>st1. ReportAborted demo_sealer_env demo_sid ''bad'' demo_aborting_state = (Inr (), st1) \<and>
    sectors_of st1 WorkerOffline demo_sid = Some (Json ((clear_upgrade demo_aborting)\<lparr>ss_AbortReason := ''bad'', ss_Finalized := True\<rparr>)) \<and>
    calls_of st1 = [ReleasedDeals (IDAddress 1000) [12]] \<and> sy_run (se_up st1) 0 = Some (demo_aborted_run\<lparr>jb_cancelled := True\<rparr>)"
proof -
  have l: "length (ss_LegacyPieces demo_aborting) > 0" "ss_Pieces demo_aborting = []" "ss_Upgraded demo_aborting" "\<not> ss_Finalized demo_aborting"
    "map ld_ID (ss_LegacyPieces demo_aborting) = [12]"
    by (simp_all add: demo_aborting_def demo_upgraded_def new_sector_state_def)
  have mk: "ReleaseLegacyDeal (ee_market demo_sealer_env) demo_sid (ss_LegacyPieces demo_aborting) m = (Inr (), m @ [ReleasedDeals (IDAddress 1000) [12]])" for m
    by (simp add: ReleaseLegacyDeal_def release_builtin_def demo_sealer_env_def demo_market_api_def l(5) demo_sid_def)
  have "\<exists>st1. ReportAborted demo_sealer_env demo_sid ''bad'' demo_aborting_state = (Inr (), st1)"
    using l by (simp add: ReportAborted_def Finalize_def loadInner_def put_store_def save_def run_hook_def abort_hook_def mk demo_ct_def Let_def demo_defs
        demo_sealer_def demo_aborting_state_def)
  then obtain st1 where f: "ReportAborted demo_sealer_env demo_sid ''bad'' demo_aborting_state = (Inr (), st1)" by blast
  have v: "sectors_of demo_aborting_state WorkerOnline demo_sid = Some (Json demo_aborting)" "calls_of demo_aborting_state = []"
    by (simp_all add: demo_aborting_state_def demo_stored_landed)
  have "legacy_releases (ee_market demo_sealer_env) demo_sid (ss_LegacyPieces demo_aborting) = [ReleasedDeals (IDAddress 1000) [12]]"
    using ReleaseLegacyDeal_ok [OF mk, of "[]"] by simp
  moreover have "releases (ee_market demo_sealer_env) demo_sid [] = []"
    by (simp add: releases_def builtin_ids_def direct_ids_def split: sum.splits)
  moreover have "sy_run up1 0 = Some (demo_aborted_run\<lparr>jb_cancelled := True\<rparr>)" if "commit_cancelled demo_sid (se_up demo_aborting_state) up1" for up1
    using that by (simp add: commit_cancelled_def demo_aborting_state_def)
  ultimately show ?thesis using aborted_sector_gives_up_everything [OF f] f v l by (auto simp: view_put_def view_del_def)
qed

definition demo_snapup_info :: snapup_info where
  "demo_snapup_info = \<lparr>sni_CommR = [1], sni_CommD = [2], sni_AccessInstance = ''s1'', sni_Pieces = [], sni_Proof = [5]\<rparr>"

theorem accepted_upgrade_is_stored_and_runs_witness:
  "\<exists>st1 i. SubmitSnapUpProof demo_sealer_env demo_sid demo_snapup_info demo_upgrading = (Inr \<lparr>sr_Res = SubmitAccepted, sr_Desc = None\<rparr>, st1) \<and>
    sy_jobs (se_up st1) demo_sid = Some i \<and> i \<in> dom (sy_run (se_up st1))"
proof -
  have l: "on_smgr (Load demo_sid WorkerOnline) demo_upgrading = (Inr demo_upgraded, demo_upgrading)"
    by (simp add: on_smgr_def Load_def loadInner_def put_store_def demo_sealer_def demo_ct_def demo_defs)
  have p: "PieceInfos demo_upgraded = []" by (simp add: PieceInfos_def SectorPiece_def demo_upgraded_def new_sector_state_def)
  have c: "checkPersistedFiles demo_sealer_env demo_sid 8 ''s1'' True demo_upgrading = (Inr True, demo_upgrading)"
    by (simp add: checkPersistedFiles_def demo_sealer_env_def SingleProvable_def SinglePrivateInfo_def getPrivateInfo_def getObjInstanceForSector_def locate_def
        instance_locator_def GetInstance_def file_checks_def Let_def demo_proving_env_def CachedFilesForSectorSize_def ss2KiB_def demo_sealer_def)
  have t: "ss_SectorType demo_upgraded = 8" by (simp add: demo_upgraded_def new_sector_state_def)
  have e: "ee_ReplicaToCID demo_sealer_env x = Inr ''r''" "ee_DataToCID demo_sealer_env x = Inr ''d''" for x by (simp_all add: demo_sealer_env_def)
  let ?ui = "\<lparr>ui_AccessInstance = ''s1'', ui_SealedCID = ''r'', ui_UnsealedCID = ''d'', ui_Proof = [5]\<rparr>"
  have s: "\<exists>st1. store_upgraded demo_sid ?ui demo_upgrading = (Inr \<lparr>sr_Res = SubmitAccepted, sr_Desc = None\<rparr>, st1)"
    by (simp add: store_upgraded_def on_smgr_def Update_def loadInner_def put_store_def save_def Let_def demo_defs demo_ct_def demo_sealer_def
        snap_Commit_def up_in_def add_entry_def Load_def demo_sys_def demo_upgraded_def put_entry_def notify_def)
  have "\<exists>st1. SubmitSnapUpProof demo_sealer_env demo_sid demo_snapup_info demo_upgrading = (Inr \<lparr>sr_Res = SubmitAccepted, sr_Desc = None\<rparr>, st1)"
    using s by (simp add: SubmitSnapUpProof_def demo_snapup_info_def l p c t e)
  then obtain st1 where a: "SubmitSnapUpProof demo_sealer_env demo_sid demo_snapup_info demo_upgrading = (Inr \<lparr>sr_Res = SubmitAccepted, sr_Desc = None\<rparr>, st1)" by blast
  from accepted_upgrade_is_stored_and_runs [OF a] a show ?thesis by auto
qed

end
