(* ===== verification/PoSt_Scheduler.thy ===== *)
theory PoSt_Scheduler
  imports Sender_Selector Sector_Allocation "HOL-Library.AList"
begin

text \<open>
  The scheduling of window PoSt (\<open>modules/poster/poster.go\<close>, \<open>scheduler.go\<close>, \<open>deadline.go\<close>): every change of the chain's
  head starts, feeds or aborts one runner per miner and deadline. The runners are behind the interface \<open>PoStRunner\<close>, so the
  handler is defined over the operations of a runner; what the interface promises is the locale \<open>post_runner\<close>. A Go map that is
  ranged over is a list in the order of the range. The chain node and \<open>dline.NewInfo\<close> are parameters.
\<close>

section \<open>Deadlines\<close>

record dline_info =
  dl_CurrentEpoch :: epoch
  dl_PeriodStart :: epoch
  dl_Index :: u64
  dl_Open :: epoch
  dl_Close :: epoch
  dl_Challenge :: epoch
  dl_FaultCutoff :: epoch
  dl_WPoStPeriodDeadlines :: u64
  dl_WPoStProvingPeriod :: epoch
  dl_WPoStChallengeWindow :: epoch
  dl_WPoStChallengeLookback :: epoch
  dl_FaultDeclarationCutoff :: epoch

type_synonym new_info = "epoch \<Rightarrow> u64 \<Rightarrow> epoch \<Rightarrow> u64 \<Rightarrow> epoch \<Rightarrow> epoch \<Rightarrow> epoch \<Rightarrow> epoch \<Rightarrow> dline_info"

definition nextDeadline :: "new_info \<Rightarrow> dline_info \<Rightarrow> dline_info" where
  "nextDeadline NewInfo cur =
    (let newDeadlineIndex = dl_Index cur + 1; wraps = (newDeadlineIndex = dl_WPoStPeriodDeadlines cur) in
     NewInfo (if wraps then dl_PeriodStart cur + dl_WPoStProvingPeriod cur else dl_PeriodStart cur) (if wraps then 0 else newDeadlineIndex)
       (dl_CurrentEpoch cur) (dl_WPoStPeriodDeadlines cur) (dl_WPoStProvingPeriod cur) (dl_WPoStChallengeWindow cur)
       (dl_WPoStChallengeLookback cur) (dl_FaultDeclarationCutoff cur))"

definition deadlineIsActive :: "dline_info \<Rightarrow> epoch \<Rightarrow> bool" where
  "deadlineIsActive dl height = (height \<ge> dl_Challenge dl \<and> height < dl_Close dl)"

section \<open>Schedulers\<close>

record 'r scheduler =
  sd_dl :: dline_info
  sd_runner :: 'r

definition DefaultSubmitConfidence :: u64 where
  "DefaultSubmitConfidence = 4"

definition DefaultChallengeConfidence :: u64 where
  "DefaultChallengeConfidence = 10"

definition isActive :: "'r scheduler \<Rightarrow> epoch \<Rightarrow> bool" where
  "isActive s height = deadlineIsActive (sd_dl s) height"

definition shouldStart :: "'r scheduler \<Rightarrow> miner_post_config \<Rightarrow> epoch \<Rightarrow> bool" where
  "shouldStart s pcfg height = (mp_Enabled pcfg \<and>
     (let c = (if mp_ChallengeConfidence pcfg = 0 then DefaultChallengeConfidence else mp_ChallengeConfidence pcfg) in
      height \<ge> dl_Challenge (sd_dl s) + sint c))"

definition couldSubmit :: "'r scheduler \<Rightarrow> miner_post_config \<Rightarrow> epoch \<Rightarrow> bool" where
  "couldSubmit s pcfg height =
     (let c = (if mp_SubmitConfidence pcfg = 0 then DefaultSubmitConfidence else mp_SubmitConfidence pcfg) in
      height \<ge> dl_Open (sd_dl s) + sint c)"

definition shouldAbort :: "'r scheduler \<Rightarrow> epoch option \<Rightarrow> epoch \<Rightarrow> bool" where
  "shouldAbort s rvt adv = ((case rvt of Some h \<Rightarrow> h < dl_Challenge (sd_dl s) | None \<Rightarrow> False) \<or> adv \<ge> dl_Close (sd_dl s))"

section \<open>The handler of a head change\<close>

type_synonym ts = "bytes \<times> epoch"

record 'r runner_ops =
  ro_new :: "u64 \<Rightarrow> address \<Rightarrow> int \<Rightarrow> dline_info \<Rightarrow> 'r"
  ro_start :: "miner_post_config \<Rightarrow> ts \<Rightarrow> 'r \<Rightarrow> 'r"
  ro_submit :: "miner_post_config \<Rightarrow> ts \<Rightarrow> 'r \<Rightarrow> 'r"
  ro_abort :: "'r \<Rightarrow> 'r"

type_synonym 'r schedulers = "(u64 \<times> (epoch \<times> 'r scheduler) list) list"
type_synonym dinfos = "(u64 \<times> (epoch \<times> dline_info) list) list"

text \<open>The runners that were aborted are out of the scheduler's reach; they are kept to speak about them.\<close>

record 'r poster =
  po_schedulers :: "'r schedulers"
  po_cache :: info_cache
  po_aborted :: "'r list"

definition start_if :: "'r runner_ops \<Rightarrow> miner_post_config \<Rightarrow> ts \<Rightarrow> bool \<Rightarrow> 'r scheduler \<Rightarrow> 'r scheduler" where
  "start_if ops pcfg adv b s = (if b then s\<lparr>sd_runner := ro_start ops pcfg adv (sd_runner s)\<rparr> else s)"

definition submit_if :: "'r runner_ops \<Rightarrow> miner_post_config \<Rightarrow> ts \<Rightarrow> bool \<Rightarrow> 'r scheduler \<Rightarrow> 'r scheduler" where
  "submit_if ops pcfg adv b s = (if b then s\<lparr>sd_runner := ro_submit ops pcfg adv (sd_runner s)\<rparr> else s)"

definition feed :: "'r runner_ops \<Rightarrow> miner_post_config option \<Rightarrow> ts \<Rightarrow> 'r scheduler \<Rightarrow> 'r scheduler" where
  "feed ops pcfg adv s = (case pcfg of
     None \<Rightarrow> s
   | Some c \<Rightarrow> if isActive s (snd adv) then submit_if ops c adv (couldSubmit s c (snd adv)) (start_if ops c adv (shouldStart s c (snd adv)) s) else s)"

definition post_config :: "safe_config \<Rightarrow> u64 \<Rightarrow> miner_post_config option" where
  "post_config cfg mid = (case MinerConfig cfg mid of Inl e \<Rightarrow> None | Inr m \<Rightarrow> Some (mc_PoSt m))"

text \<open>One miner's schedulers in the first loop: the aborted runners and the schedulers that stay.\<close>

definition cleanup_miner :: "'r runner_ops \<Rightarrow> safe_config \<Rightarrow> epoch option \<Rightarrow> ts \<Rightarrow> u64 \<Rightarrow> (epoch \<times> 'r scheduler) list \<Rightarrow>
    'r list \<times> (epoch \<times> 'r scheduler) list" where
  "cleanup_miner ops cfg rvt adv mid scheds =
    (map (\<lambda>(op, s). ro_abort ops (sd_runner s)) (filter (\<lambda>(op, s). shouldAbort s rvt (snd adv)) scheds),
     map (\<lambda>(op, s). (op, feed ops (post_config cfg mid) adv s)) (filter (\<lambda>(op, s). \<not> shouldAbort s rvt (snd adv)) scheds))"

definition cleanup :: "'r runner_ops \<Rightarrow> safe_config \<Rightarrow> epoch option \<Rightarrow> ts \<Rightarrow> 'r poster \<Rightarrow> 'r poster" where
  "cleanup ops cfg rvt adv p = p\<lparr>
     po_schedulers := map (\<lambda>(mid, scheds). (mid, snd (cleanup_miner ops cfg rvt adv mid scheds))) (po_schedulers p),
     po_aborted := po_aborted p @ concat (map (\<lambda>(mid, scheds). fst (cleanup_miner ops cfg rvt adv mid scheds)) (po_schedulers p))\<rparr>"

definition scheds_of :: "'r schedulers \<Rightarrow> u64 \<Rightarrow> (epoch \<times> 'r scheduler) list" where
  "scheds_of ss mid = (case map_of ss mid of None \<Rightarrow> [] | Some s \<Rightarrow> s)"

text \<open>The deadlines that have a scheduler already are taken out of the ones to open.\<close>

definition unopened :: "'r schedulers \<Rightarrow> dinfos \<Rightarrow> dinfos" where
  "unopened ss ds = map (\<lambda>(mid, dls). (mid, filter (\<lambda>(op, dl). op \<notin> fst ` set (scheds_of ss mid)) dls)) ds"

definition open_runner :: "'r runner_ops \<Rightarrow> miner_post_config \<Rightarrow> ts \<Rightarrow> u64 \<Rightarrow> address \<Rightarrow> int \<Rightarrow> dline_info \<Rightarrow> 'r scheduler" where
  "open_runner ops pcfg adv mid maddr ppt dl =
    (let s = \<lparr>sd_dl = dl, sd_runner = ro_new ops mid maddr ppt dl\<rparr> in start_if ops pcfg adv (isActive s (snd adv) \<and> shouldStart s pcfg (snd adv)) s)"

definition put_sched :: "u64 \<Rightarrow> epoch \<Rightarrow> 'r scheduler \<Rightarrow> 'r schedulers \<Rightarrow> 'r schedulers" where
  "put_sched mid op s ss = AList.update mid (AList.update op s (scheds_of ss mid)) ss"

fun open_all :: "'r runner_ops \<Rightarrow> miner_post_config \<Rightarrow> ts \<Rightarrow> u64 \<Rightarrow> address \<Rightarrow> int \<Rightarrow> (epoch \<times> dline_info) list \<Rightarrow> 'r schedulers \<Rightarrow> 'r schedulers" where
  "open_all ops pcfg adv mid maddr ppt [] ss = ss"
| "open_all ops pcfg adv mid maddr ppt ((op, dl) # dls) ss =
     open_all ops pcfg adv mid maddr ppt dls (put_sched mid (dl_Open dl) (open_runner ops pcfg adv mid maddr ppt dl) ss)"

definition open_miner :: "'r runner_ops \<Rightarrow> miner_chain \<Rightarrow> safe_config \<Rightarrow> ts \<Rightarrow> u64 \<Rightarrow> (epoch \<times> dline_info) list \<Rightarrow> 'r poster \<Rightarrow> 'r poster" where
  "open_miner ops ca cfg adv mid dls p = (case mca_NewIDAddress ca mid of
     Inl e \<Rightarrow> p
   | Inr maddr \<Rightarrow> (case post_config cfg mid of
       None \<Rightarrow> p
     | Some pcfg \<Rightarrow> (case GetInfo ca cfg mid (po_cache p) of
         (Inl e, c) \<Rightarrow> p\<lparr>po_cache := c\<rparr>
       | (Inr minfo, c) \<Rightarrow> p\<lparr>po_cache := c,
           po_schedulers := open_all ops pcfg adv mid maddr (min_WindowPoStProofType minfo) dls (po_schedulers p)\<rparr>)))"

fun open_miners :: "'r runner_ops \<Rightarrow> miner_chain \<Rightarrow> safe_config \<Rightarrow> ts \<Rightarrow> dinfos \<Rightarrow> 'r poster \<Rightarrow> 'r poster" where
  "open_miners ops ca cfg adv [] p = p"
| "open_miners ops ca cfg adv ((mid, dls) # ds) p = open_miners ops ca cfg adv ds (open_miner ops ca cfg adv mid dls p)"

definition handleHeadChange :: "'r runner_ops \<Rightarrow> miner_chain \<Rightarrow> safe_config \<Rightarrow> ts option \<Rightarrow> ts \<Rightarrow> dinfos \<Rightarrow> 'r poster \<Rightarrow> 'r poster" where
  "handleHeadChange ops ca cfg rvt adv ds p =
     open_miners ops ca cfg adv (unopened (po_schedulers p) ds) (cleanup ops cfg (map_option snd rvt) adv p)"

section \<open>The loop over the chain's notifications\<close>

datatype change_type = HCCurrent | HCRevert | HCApply | HCOther

record head_change =
  hc_Type :: change_type
  hc_Val :: "ts option"

fun last_changes :: "head_change list \<Rightarrow> ts option \<times> ts option \<Rightarrow> ts option \<times> ts option" where
  "last_changes [] (lowest, highest) = (lowest, highest)"
| "last_changes (c # cs) (lowest, highest) = last_changes cs (case hc_Val c of
     None \<Rightarrow> (lowest, highest)
   | Some v \<Rightarrow> (case hc_Type c of
       HCRevert \<Rightarrow> (Some v, highest)
     | HCApply \<Rightarrow> (lowest, Some v)
     | _ \<Rightarrow> (lowest, highest)))"

definition head_of :: "head_change list \<Rightarrow> ts option \<times> ts option" where
  "head_of cs = (case cs of
     [c] \<Rightarrow> if hc_Type c = HCCurrent then (None, hc_Val c) else last_changes cs (None, None)
   | _ \<Rightarrow> last_changes cs (None, None))"

record post_chain =
  pt_miners :: miner_chain
  pt_ProvingDeadline :: "address \<Rightarrow> bytes \<Rightarrow> dline_info res"
  pt_NewInfo :: new_info
  pt_select :: "u64 \<Rightarrow> address list \<Rightarrow> address res"
  pt_lo :: lo_lib
  pt_NilTipSet :: "ts res"

definition getEnabledMiners :: "post_chain \<Rightarrow> safe_config \<Rightarrow> u64 list" where
  "getEnabledMiners pc cfg = map mc_Actor (filter (\<lambda>m. mp_Enabled (mc_PoSt m) \<and>
     \<not> isl (pt_select pc (mc_Actor m) (post_GetSenders (pt_lo pc) (mc_PoSt m)))) cfg)"

definition fetch_deadline :: "post_chain \<Rightarrow> ts \<Rightarrow> u64 \<Rightarrow> (epoch \<times> dline_info) list res" where
  "fetch_deadline pc t mid = (case mca_NewIDAddress (pt_miners pc) mid of
     Inl e \<Rightarrow> Inl (Wrap ''construct id address'' e)
   | Inr maddr \<Rightarrow> (case pt_ProvingDeadline pc maddr (fst t) of
       Inl e \<Rightarrow> Inl (Wrap ''rpc call'' e)
     | Inr dl \<Rightarrow> (let maybeNext = nextDeadline (pt_NewInfo pc) dl in
         Inr (if deadlineIsActive maybeNext (snd t) then AList.update (dl_Open maybeNext) maybeNext [(dl_Open dl, dl)] else [(dl_Open dl, dl)]))))"

text \<open>A miner that the configuration lists twice is fetched twice; the map keeps the later answer.\<close>

fun fetchMinerProvingDeadlineInfos :: "post_chain \<Rightarrow> ts \<Rightarrow> u64 list \<Rightarrow> dinfos" where
  "fetchMinerProvingDeadlineInfos pc t [] = []"
| "fetchMinerProvingDeadlineInfos pc t (mid # mids) = (case fetch_deadline pc t mid of
     Inl e \<Rightarrow> fetchMinerProvingDeadlineInfos pc t mids
   | Inr dls \<Rightarrow> (let rest = fetchMinerProvingDeadlineInfos pc t mids in if mid \<in> fst ` set rest then rest else (mid, dls) # rest))"

text \<open>One notification. A change that only reverts has no new head: the methods of the nil tipset are called, and what they do is a parameter
  (\<open>pt_NilTipSet\<close>).\<close>

definition poster_notified :: "'r runner_ops \<Rightarrow> post_chain \<Rightarrow> safe_config \<Rightarrow> head_change list \<Rightarrow> ('r poster, unit) step" where
  "poster_notified ops pc cfg cs p = (case head_of cs of
     (None, None) \<Rightarrow> (Inr (), p)
   | (lowest, highest) \<Rightarrow> (let mids = getEnabledMiners pc cfg in
       if mids = [] then (Inr (), p)
       else (case (case highest of None \<Rightarrow> pt_NilTipSet pc | Some t \<Rightarrow> Inr t) of
           Inl e \<Rightarrow> (Inl e, p)
         | Inr adv \<Rightarrow> (let ds = fetchMinerProvingDeadlineInfos pc adv mids in
             if ds = [] then (Inr (), p) else (Inr (), handleHeadChange ops (pt_miners pc) cfg lowest adv ds p)))))"

section \<open>Deadlines follow each other\<close>

text \<open>What \<open>dline.NewInfo\<close> computes, for an index within the period.\<close>

definition new_info_ok :: "new_info \<Rightarrow> bool" where
  "new_info_ok NewInfo = (\<forall>start i cur n period window lookback cutoff. i < n \<longrightarrow>
     (let d = NewInfo start i cur n period window lookback cutoff in
      dl_PeriodStart d = start \<and> dl_Index d = i \<and> dl_CurrentEpoch d = cur \<and> dl_WPoStPeriodDeadlines d = n \<and> dl_WPoStProvingPeriod d = period \<and>
      dl_WPoStChallengeWindow d = window \<and> dl_WPoStChallengeLookback d = lookback \<and>
      dl_Open d = start + uint i * window \<and> dl_Close d = dl_Open d + window \<and> dl_Challenge d = dl_Open d - lookback))"

text \<open>A deadline of a period that its windows fill.\<close>

definition regular :: "dline_info \<Rightarrow> bool" where
  "regular d = (dl_Index d < dl_WPoStPeriodDeadlines d \<and> dl_WPoStProvingPeriod d = uint (dl_WPoStPeriodDeadlines d) * dl_WPoStChallengeWindow d \<and>
     dl_Open d = dl_PeriodStart d + uint (dl_Index d) * dl_WPoStChallengeWindow d \<and> dl_Close d = dl_Open d + dl_WPoStChallengeWindow d \<and>
     dl_Challenge d = dl_Open d - dl_WPoStChallengeLookback d)"

lemma uint_Suc_less: "(i :: u64) < n \<Longrightarrow> uint (i + 1) = uint i + 1"
proof -
  assume "i < n"
  then have "uint i + 1 \<le> uint n" by (simp add: word_less_def)
  moreover have "uint n < 2 ^ 64" using uint_lt2p [of n] by simp
  ultimately show ?thesis by (simp add: uint_word_ariths)
qed

text \<open>The next deadline opens when the current one closes, also across the end of a proving period.\<close>

theorem next_deadline_adjacent:
  assumes "new_info_ok NewInfo" "regular d"
  shows "regular (nextDeadline NewInfo d) \<and> dl_Open (nextDeadline NewInfo d) = dl_Close d \<and>
    dl_WPoStChallengeLookback (nextDeadline NewInfo d) = dl_WPoStChallengeLookback d"
proof (cases "dl_Index d + 1 = dl_WPoStPeriodDeadlines d")
  case True
  from assms(2) uint_Suc_less have u: "uint (dl_WPoStPeriodDeadlines d) = uint (dl_Index d) + 1" by (metis True regular_def)
  have "0 < dl_WPoStPeriodDeadlines d" using assms(2) by (auto simp: regular_def intro: le_less_trans [of 0])
  with assms True u show ?thesis by (auto simp: new_info_ok_def regular_def nextDeadline_def Let_def algebra_simps)
next
  case False
  have "dl_Index d + 1 < dl_WPoStPeriodDeadlines d"
    using assms(2) False by (metis inc_le order_le_less regular_def)
  moreover have "uint (dl_Index d + 1) = uint (dl_Index d) + 1" using assms(2) uint_Suc_less by (auto simp: regular_def)
  ultimately show ?thesis using assms False by (auto simp: new_info_ok_def regular_def nextDeadline_def Let_def algebra_simps)
qed

definition demo_NewInfo :: new_info where
  "demo_NewInfo start i cur n period window lookback cutoff = \<lparr>dl_CurrentEpoch = cur, dl_PeriodStart = start, dl_Index = i,
     dl_Open = start + uint i * window, dl_Close = start + uint i * window + window, dl_Challenge = start + uint i * window - lookback,
     dl_FaultCutoff = start + uint i * window - cutoff, dl_WPoStPeriodDeadlines = n, dl_WPoStProvingPeriod = period, dl_WPoStChallengeWindow = window,
     dl_WPoStChallengeLookback = lookback, dl_FaultDeclarationCutoff = cutoff\<rparr>"

lemma demo_NewInfo_ok: "new_info_ok demo_NewInfo"
  by (simp add: new_info_ok_def demo_NewInfo_def)

text \<open>The last deadline of a period.\<close>

theorem next_deadline_adjacent_witness:
  "dl_Open (nextDeadline demo_NewInfo (demo_NewInfo 0 47 2870 48 2880 60 20 70)) = 2880 \<and> dl_Index (nextDeadline demo_NewInfo (demo_NewInfo 0 47 2870 48 2880 60 20 70)) = 0"
  using next_deadline_adjacent [OF demo_NewInfo_ok, of "demo_NewInfo 0 47 2870 48 2880 60 20 70"]
  by (simp add: demo_NewInfo_def regular_def nextDeadline_def Let_def)

section \<open>What a head change does\<close>

definition sched_at :: "'r schedulers \<Rightarrow> u64 \<Rightarrow> epoch \<Rightarrow> 'r scheduler option" where
  "sched_at ss mid op = map_of (scheds_of ss mid) op"

text \<open>The lists that stand for maps have each key once, and a scheduler is under the epoch its deadline opens at.\<close>

definition scheds_ok :: "'r schedulers \<Rightarrow> bool" where
  "scheds_ok ss = (distinct (map fst ss) \<and> (\<forall>(mid, scheds) \<in> set ss. distinct (map fst scheds) \<and> (\<forall>(op, s) \<in> set scheds. dl_Open (sd_dl s) = op)))"

definition dinfos_ok :: "dinfos \<Rightarrow> bool" where
  "dinfos_ok ds = (distinct (map fst ds) \<and> (\<forall>(mid, dls) \<in> set ds. distinct (map fst dls) \<and> (\<forall>(op, dl) \<in> set dls. dl_Open dl = op)))"

lemma map_of_filter_distinct:
  "distinct (map fst xs) \<Longrightarrow> map_of (filter (\<lambda>(k, v). P k v) xs) k = (case map_of xs k of None \<Rightarrow> None | Some v \<Rightarrow> if P k v then Some v else None)"
proof (induction xs)
  case (Cons x xs)
  then show ?case by (cases x) (auto simp: image_iff weak_map_of_SomeI split: option.splits if_splits dest: map_of_SomeD)
qed simp

lemma map_of_map_snd: "map_of (map (\<lambda>(k, v). (k, f k v)) xs) k = map_option (f k) (map_of xs k)"
  by (induction xs) auto

lemma scheds_okD: "scheds_ok ss \<Longrightarrow> distinct (map fst (scheds_of ss mid)) \<and> (\<forall>(op, s) \<in> set (scheds_of ss mid). dl_Open (sd_dl s) = op)"
  by (auto simp: scheds_ok_def scheds_of_def split: option.splits dest: map_of_SomeD)

lemma feed_dl [simp]: "sd_dl (feed ops pcfg adv s) = sd_dl s"
  by (simp add: feed_def start_if_def submit_if_def split: option.split)

lemma open_runner_dl [simp]: "sd_dl (open_runner ops pcfg adv mid maddr ppt dl) = dl"
  by (simp add: open_runner_def Let_def start_if_def)

lemma scheds_of_cleanup: "scheds_of (po_schedulers (cleanup ops cfg rvt adv p)) mid = snd (cleanup_miner ops cfg rvt adv mid (scheds_of (po_schedulers p) mid))"
  by (simp add: scheds_of_def cleanup_def map_of_map_snd cleanup_miner_def split: option.splits)

lemma cleanup_at:
  assumes "scheds_ok (po_schedulers p)"
  shows "sched_at (po_schedulers (cleanup ops cfg rvt adv p)) mid op = (case sched_at (po_schedulers p) mid op of
    None \<Rightarrow> None | Some s \<Rightarrow> if shouldAbort s rvt (snd adv) then None else Some (feed ops (post_config cfg mid) adv s))"
  using scheds_okD [OF assms, of mid]
  by (simp add: sched_at_def scheds_of_cleanup cleanup_miner_def map_of_map_snd [where f = "\<lambda>op. feed ops (post_config cfg mid) adv"]
      map_of_filter_distinct [where P = "\<lambda>op s. \<not> shouldAbort s rvt (snd adv)"] split: option.splits)

lemma cleanup_ok: "scheds_ok (po_schedulers p) \<Longrightarrow> scheds_ok (po_schedulers (cleanup ops cfg rvt adv p))"
  by (auto simp: scheds_ok_def cleanup_def cleanup_miner_def comp_def case_prod_beta distinct_map_filter)

lemma sched_at_put: "sched_at (put_sched mid op s ss) mid' op' = (if mid' = mid \<and> op' = op then Some s else sched_at ss mid' op')"
  by (simp add: sched_at_def put_sched_def scheds_of_def update_conv' split: option.splits)

lemma set_update_subset: "set (AList.update k v xs) \<subseteq> insert (k, v) (set xs)"
  by (induction xs) auto

lemma put_sched_ok:
  assumes "scheds_ok ss" "dl_Open (sd_dl s) = op"
  shows "scheds_ok (put_sched mid op s ss)"
proof -
  note o = scheds_okD [OF assms(1), of mid]
  have "distinct (map fst (AList.update op s (scheds_of ss mid)))" using o by (simp add: distinct_update)
  moreover have "\<forall>(op', s') \<in> set (AList.update op s (scheds_of ss mid)). dl_Open (sd_dl s') = op'"
    using o assms(2) set_update_subset [of op s "scheds_of ss mid"] by auto
  ultimately have "\<forall>(m, scheds) \<in> insert (mid, AList.update op s (scheds_of ss mid)) (set ss).
      distinct (map fst scheds) \<and> (\<forall>(op, s) \<in> set scheds. dl_Open (sd_dl s) = op)"
    using assms(1) by (simp add: scheds_ok_def)
  moreover have "distinct (map fst (put_sched mid op s ss))" using assms(1) by (simp add: scheds_ok_def put_sched_def distinct_update)
  ultimately show ?thesis
    using set_update_subset [of mid "AList.update op s (scheds_of ss mid)" ss] unfolding scheds_ok_def put_sched_def by blast
qed

lemma open_all_at:
  assumes "distinct (map fst dls)" "\<forall>(op, dl) \<in> set dls. dl_Open dl = op"
  shows "sched_at (open_all ops pcfg adv mid maddr ppt dls ss) mid' op = (if mid' = mid then
    (case map_of dls op of Some dl \<Rightarrow> Some (open_runner ops pcfg adv mid maddr ppt dl) | None \<Rightarrow> sched_at ss mid' op) else sched_at ss mid' op)"
  using assms
proof (induction dls arbitrary: ss)
  case (Cons x dls)
  obtain o' dl where x: "x = (o', dl)" by fastforce
  from Cons.prems x have "map_of dls o' = None" by (auto simp: map_of_eq_None_iff)
  with Cons x show ?case by (auto simp: sched_at_put split: option.splits)
qed simp

lemma open_all_ok: "scheds_ok ss \<Longrightarrow> scheds_ok (open_all ops pcfg adv mid maddr ppt dls ss)"
  by (induction dls arbitrary: ss) (auto simp: put_sched_ok)

text \<open>Whether a runner can be made for a miner, and with what.\<close>

definition runner_params :: "miner_chain \<Rightarrow> safe_config \<Rightarrow> info_cache \<Rightarrow> u64 \<Rightarrow> (address \<times> miner_post_config \<times> int) option" where
  "runner_params ca cfg cache mid = (case (mca_NewIDAddress ca mid, post_config cfg mid, fst (GetInfo ca cfg mid cache)) of
     (Inr maddr, Some pcfg, Inr mi) \<Rightarrow> Some (maddr, pcfg, min_WindowPoStProofType mi) | _ \<Rightarrow> None)"

lemma GetInfo_local: "c mid = c' mid \<Longrightarrow> fst (GetInfo ca cfg mid c) = fst (GetInfo ca cfg mid c')"
  by (auto simp: GetInfo_def fetch_info_def Let_def split: option.splits sum.splits)

lemma GetInfo_other: "mid \<noteq> mid' \<Longrightarrow> snd (GetInfo ca cfg mid c) mid' = c mid'"
  by (auto simp: GetInfo_def fetch_info_def Let_def split: option.splits sum.splits)

lemma open_miner_eq: "open_miner ops ca cfg adv mid dls p = (let p1 = p\<lparr>po_cache := (if isl (mca_NewIDAddress ca mid) \<or> post_config cfg mid = None then po_cache p
      else snd (GetInfo ca cfg mid (po_cache p)))\<rparr> in
    case runner_params ca cfg (po_cache p) mid of
      None \<Rightarrow> p1
    | Some (maddr, pcfg, ppt) \<Rightarrow> p1\<lparr>po_schedulers := open_all ops pcfg adv mid maddr ppt dls (po_schedulers p)\<rparr>)"
  by (cases "mca_NewIDAddress ca mid"; cases "post_config cfg mid"; cases "GetInfo ca cfg mid (po_cache p)"; cases "fst (GetInfo ca cfg mid (po_cache p))")
    (simp_all add: open_miner_def runner_params_def Let_def)

definition opened :: "'r runner_ops \<Rightarrow> miner_chain \<Rightarrow> safe_config \<Rightarrow> info_cache \<Rightarrow> ts \<Rightarrow> dinfos \<Rightarrow> u64 \<Rightarrow> epoch \<Rightarrow> 'r scheduler option" where
  "opened ops ca cfg cache adv ds mid op = (case map_of ds mid of
     None \<Rightarrow> None
   | Some dls \<Rightarrow> (case (map_of dls op, runner_params ca cfg cache mid) of
       (Some dl, Some (maddr, pcfg, ppt)) \<Rightarrow> Some (open_runner ops pcfg adv mid maddr ppt dl) | _ \<Rightarrow> None))"

lemma open_miners_at:
  assumes "dinfos_ok ds"
  shows "sched_at (po_schedulers (open_miners ops ca cfg adv ds p)) mid op = (case opened ops ca cfg (po_cache p) adv ds mid op of
    Some s \<Rightarrow> Some s | None \<Rightarrow> sched_at (po_schedulers p) mid op)"
  using assms
proof (induction ds arbitrary: p)
  case (Cons x ds)
  obtain m dls where x: "x = (m, dls)" by fastforce
  let ?p = "open_miner ops ca cfg adv m dls p"
  have ok: "dinfos_ok ds" "distinct (map fst dls)" "\<forall>(op, dl) \<in> set dls. dl_Open dl = op" "map_of ds m = None"
    using Cons.prems x by (auto simp: dinfos_ok_def map_of_eq_None_iff)
  have at: "sched_at (po_schedulers ?p) mid op = (case opened ops ca cfg (po_cache p) adv [(m, dls)] mid op of
      Some s \<Rightarrow> Some s | None \<Rightarrow> sched_at (po_schedulers p) mid op)"
    by (auto simp: open_miner_eq Let_def opened_def open_all_at [OF ok(2,3)] split: option.splits prod.splits)
  have other: "mid \<noteq> m \<Longrightarrow> po_cache ?p mid = po_cache p mid"
    by (auto simp: open_miner_eq Let_def GetInfo_other split: option.splits prod.splits)
  show ?case
  proof (cases "mid = m")
    case True
    with ok(4) Cons.IH [OF ok(1), of ?p] at x show ?thesis by (simp add: opened_def)
  next
    case False
    with GetInfo_local [of "po_cache ?p" mid "po_cache p"] other have "runner_params ca cfg (po_cache ?p) mid = runner_params ca cfg (po_cache p) mid"
      by (simp add: runner_params_def)
    then have "opened ops ca cfg (po_cache ?p) adv ds mid op = opened ops ca cfg (po_cache p) adv (x # ds) mid op"
      using False x by (simp add: opened_def split: option.split)
    moreover have "sched_at (po_schedulers ?p) mid op = sched_at (po_schedulers p) mid op" using at False by (simp add: opened_def)
    ultimately show ?thesis using Cons.IH [OF ok(1), of ?p] x by (simp split: option.split)
  qed
qed (simp add: opened_def)

lemma open_miners_ok: "scheds_ok (po_schedulers p) \<Longrightarrow> scheds_ok (po_schedulers (open_miners ops ca cfg adv ds p))"
proof (induction ds arbitrary: p)
  case (Cons x ds)
  obtain m dls where "x = (m, dls)" by fastforce
  with Cons show ?case by (auto simp: open_miner_eq Let_def open_all_ok split: option.splits)
qed simp

lemma unopened_ok: "dinfos_ok ds \<Longrightarrow> dinfos_ok (unopened ss ds)"
  by (auto simp: dinfos_ok_def unopened_def comp_def case_prod_beta distinct_map_filter)

lemma unopened_at: "dinfos_ok ds \<Longrightarrow> map_of (unopened ss ds) mid = map_option (filter (\<lambda>(op, dl). sched_at ss mid op = None)) (map_of ds mid)"
  by (simp add: unopened_def map_of_map_snd [where f = "\<lambda>mid. filter (\<lambda>(op, dl). op \<notin> fst ` set (scheds_of ss mid))"] sched_at_def map_of_eq_None_iff)

text \<open>The whole effect of a head change: a runner that is there is aborted or fed, and a deadline without a runner gets one when the miner's
  address, configuration and information can be had.\<close>

lemma handleHeadChange_at:
  assumes "scheds_ok (po_schedulers p)" "dinfos_ok ds"
  shows "scheds_ok (po_schedulers (handleHeadChange ops ca cfg rvt adv ds p)) \<and>
    sched_at (po_schedulers (handleHeadChange ops ca cfg rvt adv ds p)) mid op =
    (case sched_at (po_schedulers p) mid op of
       Some s \<Rightarrow> if shouldAbort s (map_option snd rvt) (snd adv) then None else Some (feed ops (post_config cfg mid) adv s)
     | None \<Rightarrow> opened ops ca cfg (po_cache p) adv ds mid op)"
proof -
  let ?c = "cleanup ops cfg (map_option snd rvt) adv p"
  have at: "sched_at (po_schedulers (handleHeadChange ops ca cfg rvt adv ds p)) mid op =
      (case opened ops ca cfg (po_cache p) adv (unopened (po_schedulers p) ds) mid op of Some s \<Rightarrow> Some s | None \<Rightarrow> sched_at (po_schedulers ?c) mid op)"
    using open_miners_at [OF unopened_ok [OF assms(2)], of ops ca cfg adv "po_schedulers p" ?c mid op] by (simp add: handleHeadChange_def cleanup_def)
  have op: "opened ops ca cfg (po_cache p) adv (unopened (po_schedulers p) ds) mid op =
      (if sched_at (po_schedulers p) mid op = None then opened ops ca cfg (po_cache p) adv ds mid op else None)"
  proof (cases "map_of ds mid")
    case (Some dls)
    then have "distinct (map fst dls)" using assms(2) by (auto simp: dinfos_ok_def dest: map_of_SomeD)
    then show ?thesis using Some
      by (auto simp: opened_def unopened_at [OF assms(2)] map_of_filter_distinct [where P = "\<lambda>op dl. sched_at (po_schedulers p) mid op = None"] split: option.splits)
  qed (simp add: opened_def unopened_at [OF assms(2)])
  have "scheds_ok (po_schedulers (handleHeadChange ops ca cfg rvt adv ds p))"
    by (simp add: handleHeadChange_def open_miners_ok cleanup_ok assms(1))
  with at op cleanup_at [OF assms(1), of ops cfg "map_option snd rvt" adv mid op] show ?thesis by (auto split: option.splits)
qed

lemmas handleHeadChange_ok = handleHeadChange_at [THEN conjunct1]

text \<open>What is fetched is fit for the handler, and holds the deadlines of every miner whose deadline could be fetched.\<close>

lemma fetch_deadline_ok:
  assumes "fetch_deadline pc t mid = Inr dls"
  shows "distinct (map fst dls) \<and> (\<forall>(op, dl) \<in> set dls. dl_Open dl = op)"
  using assms by (auto simp: fetch_deadline_def Let_def split: sum.splits if_splits)

lemma fetch_infos_at: "map_of (fetchMinerProvingDeadlineInfos pc t mids) mid =
    (if mid \<in> set mids then (case fetch_deadline pc t mid of Inl e \<Rightarrow> None | Inr dls \<Rightarrow> Some dls) else None)"
proof (induction mids)
  case (Cons m mids)
  have in_iff: "m \<in> fst ` set (fetchMinerProvingDeadlineInfos pc t mids) \<longleftrightarrow> map_of (fetchMinerProvingDeadlineInfos pc t mids) m \<noteq> None"
    by (metis map_of_eq_None_iff)
  show ?case
    by (cases "mid = m"; cases "fetch_deadline pc t m"; cases "m \<in> set mids") (use Cons in_iff in \<open>simp_all add: Let_def\<close>)
qed simp

lemma fetch_infos_distinct: "distinct (map fst (fetchMinerProvingDeadlineInfos pc t mids))"
  by (induction mids) (auto simp: Let_def split: sum.split)

lemma fetch_infos_ok: "dinfos_ok (fetchMinerProvingDeadlineInfos pc t mids)"
proof -
  have "distinct (map fst dls) \<and> (\<forall>(op, dl) \<in> set dls. dl_Open dl = op)" if "(mid, dls) \<in> set (fetchMinerProvingDeadlineInfos pc t mids)" for mid dls
  proof -
    from that have "map_of (fetchMinerProvingDeadlineInfos pc t mids) mid = Some dls" by (simp add: fetch_infos_distinct)
    then have "fetch_deadline pc t mid = Inr dls" by (simp add: fetch_infos_at split: if_splits sum.splits)
    then show ?thesis by (rule fetch_deadline_ok)
  qed
  then show ?thesis unfolding dinfos_ok_def by (intro conjI fetch_infos_distinct) blast
qed

text \<open>A notification with a new head is a head change with what was fetched for the enabled miners.\<close>

lemma poster_notified_head:
  assumes "head_of cs = (rvt, Some adv)" "mid \<in> set (getEnabledMiners pc cfg)" "fetch_deadline pc adv mid = Inr dls"
  shows "poster_notified ops pc cfg cs p = (Inr (), handleHeadChange ops (pt_miners pc) cfg rvt adv
    (fetchMinerProvingDeadlineInfos pc adv (getEnabledMiners pc cfg)) p)"
proof -
  let ?ds = "fetchMinerProvingDeadlineInfos pc adv (getEnabledMiners pc cfg)"
  have "map_of ?ds mid = Some dls" using assms(2,3) by (simp add: fetch_infos_at)
  then have "?ds \<noteq> []" by auto
  moreover have "getEnabledMiners pc cfg \<noteq> []" using assms(2) by auto
  ultimately show ?thesis using assms(1) by (simp add: poster_notified_def Let_def split: option.split)
qed

section \<open>The contract of a runner\<close>

text \<open>The history of a poster: head changes, and whatever the runners do on their own in between, which replaces a runner by a later state of it.\<close>

datatype 'r post_event = HeadChanged "ts option" ts dinfos | RunnerMoved u64 epoch 'r

definition move_runner :: "u64 \<Rightarrow> epoch \<Rightarrow> 'r \<Rightarrow> 'r poster \<Rightarrow> 'r poster" where
  "move_runner mid op r p = (case sched_at (po_schedulers p) mid op of
     None \<Rightarrow> p | Some s \<Rightarrow> p\<lparr>po_schedulers := put_sched mid op (s\<lparr>sd_runner := r\<rparr>) (po_schedulers p)\<rparr>)"

fun post_event_step :: "'r runner_ops \<Rightarrow> miner_chain \<Rightarrow> safe_config \<Rightarrow> 'r post_event \<Rightarrow> 'r poster \<Rightarrow> 'r poster" where
  "post_event_step ops ca cfg (HeadChanged rvt adv ds) p = handleHeadChange ops ca cfg rvt adv ds p"
| "post_event_step ops ca cfg (RunnerMoved mid op r) p = move_runner mid op r p"

inductive post_history :: "'r runner_ops \<Rightarrow> ('r \<Rightarrow> 'r \<Rightarrow> bool) \<Rightarrow> miner_chain \<Rightarrow> safe_config \<Rightarrow> 'r post_event list \<Rightarrow> 'r poster \<Rightarrow> bool"
  for ops moves ca cfg where
  begins: "post_history ops moves ca cfg [] \<lparr>po_schedulers = [], po_cache = c, po_aborted = []\<rparr>"
| head: "post_history ops moves ca cfg evs p \<Longrightarrow> dinfos_ok ds \<Longrightarrow>
    post_history ops moves ca cfg (evs @ [HeadChanged rvt adv ds]) (post_event_step ops ca cfg (HeadChanged rvt adv ds) p)"
| moves: "post_history ops moves ca cfg evs p \<Longrightarrow> sched_at (po_schedulers p) mid op = Some s \<Longrightarrow> moves (sd_runner s) r \<Longrightarrow>
    post_history ops moves ca cfg (evs @ [RunnerMoved mid op r]) (post_event_step ops ca cfg (RunnerMoved mid op r) p)"

lemma history_ok: "post_history ops moves ca cfg evs p \<Longrightarrow> scheds_ok (po_schedulers p)"
proof (induction rule: post_history.induct)
  case (moves evs p mid op s r)
  then have "dl_Open (sd_dl s) = op" using scheds_okD [of "po_schedulers p" mid] by (auto simp: sched_at_def dest!: map_of_SomeD)
  with moves show ?case by (simp add: move_runner_def put_sched_ok)
qed (auto simp: scheds_ok_def [of "[]"] handleHeadChange_ok)

text \<open>The epochs a configuration lets a deadline start in.\<close>

definition start_window :: "miner_post_config \<Rightarrow> dline_info \<Rightarrow> epoch set" where
  "start_window c dl = {h. mp_Enabled c \<and>
     dl_Challenge dl + sint (if mp_ChallengeConfidence c = 0 then DefaultChallengeConfidence else mp_ChallengeConfidence c) \<le> h \<and>
     dl_Challenge dl \<le> h \<and> h < dl_Close dl}"

text \<open>A runner keeps the deadline it was made with; the chain reports the deadline again with another current
  epoch. The window of a deadline is fixed by the challenge epoch and the close epoch.\<close>

definition same_window :: "dline_info \<Rightarrow> dline_info \<Rightarrow> bool" where
  "same_window dl dl' = (dl_Challenge dl = dl_Challenge dl' \<and> dl_Close dl = dl_Close dl')"

lemma same_start_window: "same_window dl dl' \<Longrightarrow> start_window c dl = start_window c dl'"
  by (simp add: same_window_def start_window_def)

lemma start_window_iff: "isActive s h \<and> shouldStart s c h \<longleftrightarrow> h \<in> start_window c (sd_dl s)"
  by (auto simp: isActive_def deadlineIsActive_def shouldStart_def start_window_def Let_def)

locale post_runner =
  fixes ops :: "'r runner_ops" and start_ctx :: "'r \<Rightarrow> (miner_post_config \<times> ts) option" and cancelled :: "'r \<Rightarrow> bool"
    and moves :: "'r \<Rightarrow> 'r \<Rightarrow> bool"
  assumes new_law: "start_ctx (ro_new ops mid maddr ppt dl) = None"
    and start_law: "start_ctx (ro_start ops c t r) = (case start_ctx r of None \<Rightarrow> Some (c, t) | Some x \<Rightarrow> Some x)"
    and submit_law: "start_ctx (ro_submit ops c t r) = start_ctx r"
    and abort_law: "cancelled (ro_abort ops r)"
    and moves_law: "moves r r' \<Longrightarrow> start_ctx r' = start_ctx r"
begin

definition started_at :: "'r poster \<Rightarrow> u64 \<Rightarrow> epoch \<Rightarrow> (miner_post_config \<times> ts) option" where
  "started_at p mid op = Option.bind (sched_at (po_schedulers p) mid op) (\<lambda>s. start_ctx (sd_runner s))"

text \<open>A runner that is started was started in the window of its deadline, by the configuration of the time.\<close>

definition starts_in_window :: "'r poster \<Rightarrow> bool" where
  "starts_in_window p = (\<forall>mid op s c t. sched_at (po_schedulers p) mid op = Some s \<longrightarrow> start_ctx (sd_runner s) = Some (c, t) \<longrightarrow>
     snd t \<in> start_window c (sd_dl s))"

lemma feed_ctx: "start_ctx (sd_runner (feed ops pcfg adv s)) = (case start_ctx (sd_runner s) of
    Some x \<Rightarrow> Some x
  | None \<Rightarrow> (case pcfg of Some c \<Rightarrow> if snd adv \<in> start_window c (sd_dl s) then Some (c, adv) else None | None \<Rightarrow> None))"
  using start_window_iff [of s "snd adv"]
  by (auto simp: feed_def start_if_def submit_if_def start_law submit_law split: option.splits)

lemma open_runner_ctx: "start_ctx (sd_runner (open_runner ops c adv mid maddr ppt dl)) =
    (if snd adv \<in> start_window c dl then Some (c, adv) else None)"
  using start_window_iff [of "\<lparr>sd_dl = dl, sd_runner = ro_new ops mid maddr ppt dl\<rparr>" "snd adv" c]
  by (auto simp: open_runner_def Let_def start_if_def start_law new_law)

lemma history_starts_in_window: "post_history ops moves ca cfg evs p \<Longrightarrow> starts_in_window p"
proof (induction rule: post_history.induct)
  case (head evs p ds rvt adv)
  note at = handleHeadChange_at [OF history_ok [OF head.hyps(1)] head.hyps(2), of ops ca cfg rvt adv]
  show ?case unfolding starts_in_window_def
  proof (intro allI impI)
    fix mid op s c t
    assume "sched_at (po_schedulers (post_event_step ops ca cfg (HeadChanged rvt adv ds) p)) mid op = Some s" "start_ctx (sd_runner s) = Some (c, t)"
    then show "snd t \<in> start_window c (sd_dl s)"
      using at [of mid op] head.IH
      by (auto simp: starts_in_window_def feed_ctx open_runner_ctx opened_def split: option.splits if_splits)
  qed
next
  case (moves evs p mid op s r)
  then show ?case by (auto simp: starts_in_window_def move_runner_def sched_at_put moves_law)
qed (simp add: starts_in_window_def sched_at_def scheds_of_def)

text \<open>A head change in the window of a deadline the chain reports leaves a started runner for it.\<close>

lemma head_change_starts:
  assumes "scheds_ok (po_schedulers p)" "dinfos_ok ds" "map_of ds mid = Some dls" "map_of dls op = Some dl"
    and "runner_params ca cfg (po_cache p) mid = Some (maddr, pcfg, ppt)" "snd adv \<in> start_window pcfg dl"
    and "\<forall>s. sched_at (po_schedulers p) mid op = Some s \<longrightarrow> same_window (sd_dl s) dl \<and> \<not> shouldAbort s (map_option snd rvt) (snd adv)"
  shows "started_at (handleHeadChange ops ca cfg rvt adv ds p) mid op \<noteq> None"
proof -
  have pc: "post_config cfg mid = Some pcfg" using assms(5) by (auto simp: runner_params_def split: option.splits sum.splits)
  show ?thesis
    using handleHeadChange_at [OF assms(1,2), of ops ca cfg rvt adv mid op] assms(3-7) pc
    by (auto simp: started_at_def feed_ctx open_runner_ctx opened_def dest: same_start_window split: option.splits)
qed

text \<open>What a runner was started with never changes while it is kept.\<close>

lemma head_change_once:
  assumes "scheds_ok (po_schedulers p)" "dinfos_ok ds" "started_at p mid op = Some x"
    and "sched_at (po_schedulers (handleHeadChange ops ca cfg rvt adv ds p)) mid op \<noteq> None"
  shows "started_at (handleHeadChange ops ca cfg rvt adv ds p) mid op = Some x"
  using handleHeadChange_at [OF assms(1,2), of ops ca cfg rvt adv mid op] assms(3,4)
  by (auto simp: started_at_def feed_ctx split: option.splits if_splits bind_splits)

end

end
