(* ===== verification/PoSt_Runner.thy ===== *)
theory PoSt_Runner
  imports PoSt_Scheduler Sector_Tracker SnapUp_Allocator Randomness Message_Push
begin

text \<open>
  The runner of one deadline (\<open>modules/poster/runner.go\<close>): it proves the partitions of the deadline in batches, skips what cannot be proved, hands the
  proofs to the messager, and declares recovered and new faults for the deadline two ahead. The chain node, the bit fields, the prover, the verifier,
  the encodings and the messager are parameters; the provability check is the one of \<open>Sector_Tracker\<close>. Counts that are only logged are
  left out, as is the wait for a message whose result is only logged.
\<close>

section \<open>Data\<close>

record 'b post_bits = "'b bitfield_lib" +
  pb_Subtract :: "'b \<Rightarrow> 'b \<Rightarrow> 'b res"
  pb_NewFromSet :: "u64 list \<Rightarrow> 'b"
  pb_ForEach :: "'b \<Rightarrow> u64 list res"

record 'b partition =
  pa_All :: 'b
  pa_Faulty :: 'b
  pa_Recovering :: 'b
  pa_Live :: 'b

record onchain_sector =
  on_SectorNumber :: u64
  on_SealedCID :: cid
  on_SealProof :: seal_proof
  on_SectorKeyCID :: "cid option"

definition SectorOnChainInfoToExtended :: "onchain_sector \<Rightarrow> extended_sector" where
  "SectorOnChainInfoToExtended s = \<lparr>xs_SealProof = on_SealProof s, xs_SectorNumber = on_SectorNumber s, xs_SealedCID = on_SealedCID s,
     xs_SectorKey = on_SectorKeyCID s\<rparr>"

record 'b post_partition =
  pp_Index :: u64
  pp_Skipped :: 'b

record 'b post_params =
  sw_Deadline :: u64
  sw_Partitions :: "'b post_partition list"
  sw_Proofs :: "bytes list"
  sw_ChainCommitEpoch :: epoch
  sw_ChainCommitRand :: bytes

record 'b sectors_decl =
  dc_Deadline :: u64
  dc_Partition :: u64
  dc_Sectors :: 'b

datatype 'b post_call = PostCall "'b post_params" | RecoverCall "'b sectors_decl list" | FaultCall "'b sectors_decl list"

record generate_params =
  gw_DeadlineIdx :: u64
  gw_MinerID :: u64
  gw_ProofType :: int
  gw_Partitions :: "u64 list"
  gw_Sectors :: "extended_sector list"
  gw_Randomness :: bytes

record verify_info =
  vi_Randomness :: bytes
  vi_Proofs :: "bytes list"
  vi_Sectors :: "(seal_proof \<times> u64 \<times> cid) list"
  vi_Prover :: u64

record 'b post_env =
  rv_bits :: "'b post_bits"
  rv_MinerSectors :: "address \<Rightarrow> 'b \<Rightarrow> bytes \<Rightarrow> onchain_sector list res"
  rv_MinerPartitions :: "address \<Rightarrow> u64 \<Rightarrow> bytes \<Rightarrow> 'b partition list res"
  rv_NetworkVersion :: "bytes \<Rightarrow> u64 res"
  rv_ToV1_1PostProof :: "int \<Rightarrow> int res"
  rv_WindowPoStProof :: "seal_proof \<Rightarrow> u64 \<Rightarrow> int res"
  rv_MaxPoStPartitions :: "u64 \<Rightarrow> int \<Rightarrow> int res"
  rv_DeclarationsMax :: int
  rv_rand :: rand_api
  rv_ChainHead :: "bytes res"
  rv_proving :: proving_env
  rv_challenges :: "nat \<Rightarrow> nat \<Rightarrow> u64"
  rv_late :: "nat \<Rightarrow> nat \<Rightarrow> bool"
  rv_Generate :: "generate_params \<Rightarrow> bytes list \<times> sector_id list \<times> err option"
  rv_Verify :: "verify_info \<Rightarrow> bool res"
  rv_ctx :: "err option"
  rv_UpgradeIgnitionHeight :: epoch
  rv_Serialize :: "'b post_call \<Rightarrow> bytes res"
  rv_select :: "u64 \<Rightarrow> address list \<Rightarrow> address res"
  rv_lo :: lo_lib
  rv_MsgCid :: "chain_message \<Rightarrow> cid"
  rv_messager :: messager
  rv_WaitMessage :: "cid \<Rightarrow> u64 \<Rightarrow> int option option res"

section \<open>The runner\<close>

text \<open>\<open>startOnce\<close> has run when \<open>pr_startCtx\<close> is set; a nil slice of proofs is \<open>None\<close>. The proofs that were taken for submission are kept to speak about
  them.\<close>

record 'b runner =
  pr_mid :: u64
  pr_maddr :: address
  pr_proofType :: int
  pr_dinfo :: dline_info
  pr_startCtx :: "(miner_post_config \<times> ts) option"
  pr_cancelled :: bool
  pr_proofs :: "'b post_params list option"
  pr_submitted :: "('b post_params list \<times> ts) list"

definition postRunnerConstructor :: "u64 \<Rightarrow> address \<Rightarrow> int \<Rightarrow> dline_info \<Rightarrow> 'b runner" where
  "postRunnerConstructor mid maddr ppt dl = \<lparr>pr_mid = mid, pr_maddr = maddr, pr_proofType = ppt, pr_dinfo = dl, pr_startCtx = None,
     pr_cancelled = False, pr_proofs = None, pr_submitted = []\<rparr>"

definition runner_start :: "miner_post_config \<Rightarrow> ts \<Rightarrow> 'b runner \<Rightarrow> 'b runner" where
  "runner_start pcfg t r = (case pr_startCtx r of None \<Rightarrow> r\<lparr>pr_startCtx := Some (pcfg, t)\<rparr> | Some _ \<Rightarrow> r)"

definition runner_submit :: "miner_post_config \<Rightarrow> ts \<Rightarrow> 'b runner \<Rightarrow> 'b runner" where
  "runner_submit pcfg t r = (case pr_proofs r of None \<Rightarrow> r | Some ps \<Rightarrow> r\<lparr>pr_proofs := None, pr_submitted := pr_submitted r @ [(ps, t)]\<rparr>)"

definition runner_abort :: "'b runner \<Rightarrow> 'b runner" where
  "runner_abort r = r\<lparr>pr_cancelled := True\<rparr>"

definition post_runner_ops :: "'b runner runner_ops" where
  "post_runner_ops = \<lparr>ro_new = postRunnerConstructor, ro_start = runner_start, ro_submit = runner_submit, ro_abort = runner_abort\<rparr>"

text \<open>The deferred step of a batch: its result joins the proofs.\<close>

definition add_proof :: "'b post_params \<Rightarrow> 'b runner \<Rightarrow> 'b runner" where
  "add_proof params r = r\<lparr>pr_proofs := Some ((case pr_proofs r of None \<Rightarrow> [] | Some ps \<Rightarrow> ps) @ [params])\<rparr>"

definition pcfg_of :: "'b runner \<Rightarrow> miner_post_config" where
  "pcfg_of r = fst (the (pr_startCtx r))"

definition tsk_of :: "'b runner \<Rightarrow> bytes" where
  "tsk_of r = fst (snd (the (pr_startCtx r)))"

definition tsh_of :: "'b runner \<Rightarrow> epoch" where
  "tsh_of r = snd (snd (the (pr_startCtx r)))"

section \<open>Publishing\<close>

text \<open>An epoch as \<open>fmt\<close> prints it.\<close>

definition dec_int :: "int \<Rightarrow> string" where
  "dec_int i = (if i < 0 then ''-'' @ dec (nat (- i)) else dec (nat i))"

definition publishMessage :: "'b post_env \<Rightarrow> 'b runner \<Rightarrow> miner_method \<Rightarrow> 'b post_call \<Rightarrow> bool \<Rightarrow> (sent, cid) step" where
  "publishMessage env r meth params useExtraMsgID sent = (case rv_Serialize env params of
     Inl e \<Rightarrow> (Inl (Wrap ''serialize params'' e), sent)
   | Inr encoded \<Rightarrow> (case rv_select env (pr_mid r) (post_GetSenders (rv_lo env) (pcfg_of r)) of
       Inl e \<Rightarrow> (Inl (Wrap ''select sender'' e), sent)
     | Inr src \<Rightarrow> (let msg = message_of (pr_maddr r) src 0 meth (mp_FeeConfig (pcfg_of r)) encoded;
           mid = (if \<not> useExtraMsgID then rv_MsgCid env msg
                  else rv_MsgCid env msg @ ''-'' @ dec64 (dl_Index (pr_dinfo r)) @ ''-'' @ dec_int (dl_Open (pr_dinfo r)));
           spec = GetSendSpec (mp_FeeConfig (pcfg_of r)) in
         case ms_PushMessageWithId (rv_messager env) sent mid msg spec of
           (q, took) \<Rightarrow> ((case q of Inl e \<Rightarrow> Inl (Wrap ''push msg with id'' e) | Inr uid \<Rightarrow> Inr uid),
             if took then sent @ [(mid, msg, spec)] else sent))))"

text \<open>What the channel of a published message delivers: the wait gives a message, its receipt or the exit code of the receipt.\<close>

definition msgResult :: "'b post_env \<Rightarrow> 'b runner \<Rightarrow> cid \<Rightarrow> err option" where
  "msgResult env r uid = (case rv_WaitMessage env uid (mp_Confidence (pcfg_of r)) of
     Inl e \<Rightarrow> Some e
   | Inr (Some (Some code)) \<Rightarrow> if code \<noteq> 0 then Some (Errorf ''got non-zero exit code'') else None
   | Inr _ \<Rightarrow> Some (Errorf ''invalid message returned''))"

definition submitSinglePost :: "'b post_env \<Rightarrow> 'b runner \<Rightarrow> 'b post_params \<Rightarrow> sent \<Rightarrow> sent" where
  "submitSinglePost env r post sent = snd (publishMessage env r SubmitWindowedPoSt (PostCall post) False sent)"

definition comm_epoch :: "'b post_env \<Rightarrow> 'b runner \<Rightarrow> ts \<Rightarrow> epoch" where
  "comm_epoch env r t = (case rv_NetworkVersion env (fst t) of
     Inl e \<Rightarrow> dl_Open (pr_dinfo r)
   | Inr ver \<Rightarrow> if ver \<ge> 4 then dl_Challenge (pr_dinfo r) else dl_Open (pr_dinfo r))"

fun submit_each :: "'b post_env \<Rightarrow> 'b runner \<Rightarrow> epoch \<Rightarrow> bytes \<Rightarrow> 'b post_params list \<Rightarrow> sent \<Rightarrow> sent" where
  "submit_each env r commEpoch commRand [] sent = sent"
| "submit_each env r commEpoch commRand (post # posts) sent =
    (if length (sw_Partitions post) = 0 \<or> length (sw_Proofs post) = 0 then submit_each env r commEpoch commRand posts sent
     else submit_each env r commEpoch commRand posts
       (submitSinglePost env r (post\<lparr>sw_ChainCommitEpoch := commEpoch, sw_ChainCommitRand := commRand\<rparr>) sent))"

definition submitPoSts :: "'b post_env \<Rightarrow> 'b runner \<Rightarrow> ts \<Rightarrow> 'b post_params list \<Rightarrow> sent \<Rightarrow> sent" where
  "submitPoSts env r t proofs sent = (if length proofs = 0 then sent
     else (case GetWindowPoStCommitRand (rv_rand env) (fst t) (comm_epoch env r t) of
         Inl e \<Rightarrow> sent
       | Inr commRand \<Rightarrow> submit_each env r (comm_epoch env r t) (pr_Rand commRand) proofs sent))"

section \<open>Checking sectors\<close>

text \<open>The good sectors of a check are put into a new bit field in the order of a map; the order of the chain's answer stands for it.\<close>

definition good_bits :: "'b post_bits \<Rightarrow> (u64 \<rightharpoonup> err) \<Rightarrow> onchain_sector list \<Rightarrow> 'b" where
  "good_bits pb badMap sectorInfos = fold (bf_Set pb) (filter (\<lambda>n. badMap n = None) (remdups (map on_SectorNumber sectorInfos))) (bf_New pb)"

definition checkSectors :: "'b post_env \<Rightarrow> 'b runner \<Rightarrow> nat \<Rightarrow> 'b \<Rightarrow> (proving_state, 'b) step" where
  "checkSectors env r k chk st = (case rv_MinerSectors env (pr_maddr r) chk (tsk_of r) of
     Inl e \<Rightarrow> (Inl (Wrap ''call StateMinerSectors'' e), st)
   | Inr sectorInfos \<Rightarrow> (case rv_NetworkVersion env [] of
       Inl e \<Rightarrow> (Inl (Wrap ''failed to get network version'' e), st)
     | Inr nv \<Rightarrow> (case (if nv \<ge> 19 then rv_ToV1_1PostProof env (pr_proofType r) else Inr (pr_proofType r)) of
         Inl e \<Rightarrow> (Inl (Wrap ''failed to convert to v1_1 post proof'' e), st)
       | Inr pp \<Rightarrow> (case Provable (rv_proving env) (rv_challenges env k) (rv_late env k) (pr_mid r) pp
             (map SectorOnChainInfoToExtended sectorInfos) (mp_StrictCheck (pcfg_of r)) False st of
           (Inl e, st1) \<Rightarrow> (Inl (if is_panic e then e else Wrap ''checking provable sectors'' e), st1)
         | (Inr badMap, st1) \<Rightarrow> (Inr (good_bits (rv_bits env) badMap sectorInfos), st1)))))"

definition sectorsForProof :: "'b post_env \<Rightarrow> 'b runner \<Rightarrow> 'b \<Rightarrow> 'b \<Rightarrow> extended_sector list res" where
  "sectorsForProof env r goodSectors allSectors = (case rv_MinerSectors env (pr_maddr r) goodSectors (tsk_of r) of
     Inl e \<Rightarrow> Inl e
   | Inr [] \<Rightarrow> Inr []
   | Inr (s # ss) \<Rightarrow> (let substitute = SectorOnChainInfoToExtended s;
         sectorByID = map_of (rev (map (\<lambda>x. (on_SectorNumber x, SectorOnChainInfoToExtended x)) (s # ss))) in
       case pb_ForEach (rv_bits env) allSectors of
         Inl e \<Rightarrow> Inl (Wrap ''iterating partition sector bitmap'' e)
       | Inr ns \<Rightarrow> Inr (map (\<lambda>n. case sectorByID n of Some info \<Rightarrow> info | None \<Rightarrow> substitute) ns)))"

section \<open>Batches\<close>

text \<open>The loop over the partitions, in steps of \<open>n\<close>.\<close>

function chunks :: "nat \<Rightarrow> 'a list \<Rightarrow> 'a list list" where
  "chunks n xs = (if n = 0 \<or> xs = [] then [] else take n xs # chunks n (List.drop n xs))"
  by pat_completeness auto
termination by (relation "measure (length \<circ> snd)") auto

declare chunks.simps [simp del]

text \<open>\<open>int\<close> arithmetic: the division panics for 0, and a negative number makes a negative capacity or slice bound.\<close>

definition batchPartitions :: "'b post_env \<Rightarrow> 'b runner \<Rightarrow> 'b partition list \<Rightarrow> u64 \<Rightarrow> 'b partition list list res" where
  "batchPartitions env r partitions nv = (case rv_MaxPoStPartitions env nv (pr_proofType r) of
     Inl e \<Rightarrow> Inl (Wrap ''getting sectors per partition'' e)
   | Inr perMsg \<Rightarrow> (let perMsg1 = (if perMsg > rv_DeclarationsMax env then rv_DeclarationsMax env else perMsg);
         mx = sint (mp_MaxPartitionsPerPoStMessage (pcfg_of r));
         perMsg2 = (if mx > 0 \<and> perMsg1 > mx then mx else perMsg1) in
       if perMsg2 = 0 then Inl (Panic ''runtime error: integer divide by zero'')
       else if perMsg2 < 0 then (if partitions = [] then Inr [] else Inl (Panic ''runtime error: out of range''))
       else Inr (chunks (nat perMsg2) partitions)))"

section \<open>Proving\<close>

text \<open>The sectors and partitions of one attempt.\<close>

fun collect_partitions :: "'b post_env \<Rightarrow> 'b runner \<Rightarrow> 'b \<Rightarrow> u64 \<Rightarrow> nat \<Rightarrow> 'b partition list \<Rightarrow>
    (proving_state, extended_sector list \<times> 'b post_partition list) step" where
  "collect_partitions env r postSkipped startIdx i [] st = (Inr ([], []), st)"
| "collect_partitions env r postSkipped startIdx i (p # ps) st = (case pb_Subtract (rv_bits env) (pa_Live p) (pa_Faulty p) of
     Inl e \<Rightarrow> (Inl (Wrap ''removing faults from set of sectors to prove'' e), st)
   | Inr nonFaulty \<Rightarrow> (case bf_Merge (rv_bits env) nonFaulty (pa_Recovering p) of
       Inl e \<Rightarrow> (Inl (Wrap ''adding recoveries to set of sectors to prove'' e), st)
     | Inr toProve \<Rightarrow> (case checkSectors env r i toProve st of
         (Inl e, st1) \<Rightarrow> (Inl (if is_panic e then e else Wrap ''checking sectors to skip'' e), st1)
       | (Inr checked, st1) \<Rightarrow> (case pb_Subtract (rv_bits env) checked postSkipped of
           Inl e \<Rightarrow> (Inl (Wrap ''toProve - postSkipped'' e), st1)
         | Inr good \<Rightarrow> (case pb_Subtract (rv_bits env) toProve good of
             Inl e \<Rightarrow> (Inl (Wrap ''toProve - good'' e), st1)
           | Inr skipped \<Rightarrow> (case bf_Count (rv_bits env) skipped of
               Inl e \<Rightarrow> (Inl (Wrap ''getting skipped sector count'' e), st1)
             | Inr _ \<Rightarrow> (case sectorsForProof env r good (pa_All p) of
                 Inl e \<Rightarrow> (Inl (Wrap ''getting sorted sector info'' e), st1)
               | Inr ssi \<Rightarrow> (case collect_partitions env r postSkipped startIdx (Suc i) ps st1 of
                   (Inl e, st2) \<Rightarrow> (Inl e, st2)
                 | (Inr (xs, qs), st2) \<Rightarrow> if length ssi = 0 then (Inr (xs, qs), st2)
                     else (Inr (ssi @ xs, \<lparr>pp_Index = startIdx + of_nat i, pp_Skipped = skipped\<rparr> # qs), st2)))))))))"

datatype 'b attempt =
    GaveUp "err option"
  | TryAgain "err option" "sector_id list"
  | Proved "'b post_partition list" "bytes list"

definition sector_infos :: "extended_sector list \<Rightarrow> (seal_proof \<times> u64 \<times> cid) list" where
  "sector_infos xs = map (\<lambda>x. (xs_SealProof x, xs_SectorNumber x, xs_SealedCID x)) xs"

text \<open>The proof is kept when the randomness is still the chain's and the proof verifies.\<close>

definition accept_proof :: "'b post_env \<Rightarrow> 'b runner \<Rightarrow> bytes \<Rightarrow> extended_sector list \<Rightarrow> 'b post_partition list \<Rightarrow> bytes list \<Rightarrow> 'b attempt" where
  "accept_proof env r rnd xs partitions postOut =
    (if length postOut = 0 then GaveUp (Some (Errorf ''received no proofs back from generate window post''))
     else (case rv_ChainHead env of
         Inl e \<Rightarrow> TryAgain (Some (Wrap ''getting current head'' e)) []
       | Inr head \<Rightarrow> (case GetWindowPoStChanlleengeRand (rv_rand env) head (dl_Challenge (pr_dinfo r)) (pr_mid r) of
           Inl e \<Rightarrow> TryAgain (Some (Wrap ''get chain randomness for checking from beacon for window post'' e)) []
         | Inr checkRand \<Rightarrow> if pr_Rand checkRand \<noteq> rnd then TryAgain None []
             else (case rv_Verify env \<lparr>vi_Randomness = pr_Rand checkRand, vi_Proofs = postOut, vi_Sectors = sector_infos xs, vi_Prover = pr_mid r\<rparr> of
                 Inl e \<Rightarrow> TryAgain (Some (Wrap ''window post verification failed'' e)) []
               | Inr correct \<Rightarrow> if \<not> correct then TryAgain (Some (Errorf ''incorrect window post proof'')) [] else Proved partitions postOut))))"

definition prove_sectors :: "'b post_env \<Rightarrow> 'b runner \<Rightarrow> bytes \<Rightarrow> extended_sector list \<Rightarrow> 'b post_partition list \<Rightarrow> 'b attempt" where
  "prove_sectors env r rnd xs partitions = (case xs of
     [] \<Rightarrow> GaveUp None
   | x # _ \<Rightarrow> (case rv_NetworkVersion env [] of
       Inl e \<Rightarrow> TryAgain (Some (Wrap ''get network version'' e)) []
     | Inr nv \<Rightarrow> (case rv_WindowPoStProof env (xs_SealProof x) nv of
         Inl e \<Rightarrow> GaveUp (Some (Wrap ''convert to v1_1 post proof'' e))
       | Inr pp \<Rightarrow> (case rv_Generate env \<lparr>gw_DeadlineIdx = dl_Index (pr_dinfo r), gw_MinerID = pr_mid r, gw_ProofType = pp,
             gw_Partitions = map pp_Index partitions, gw_Sectors = xs, gw_Randomness = rnd\<rparr> of
           (postOut, ps, None) \<Rightarrow> accept_proof env r rnd xs partitions postOut
         | (postOut, ps, Some e) \<Rightarrow> if length ps = 0 then GaveUp (Some (Wrap ''running window post failed'' e))
             else (case rv_ctx env of Some cerr \<Rightarrow> GaveUp (Some cerr) | None \<Rightarrow> TryAgain (Some e) ps)))))"

definition proveAttempt :: "'b post_env \<Rightarrow> 'b runner \<Rightarrow> bytes \<Rightarrow> u64 \<Rightarrow> 'b partition list \<Rightarrow> 'b \<Rightarrow> proving_state \<Rightarrow> 'b attempt res \<times> proving_state" where
  "proveAttempt env r rnd startIdx batch postSkipped st = (case collect_partitions env r postSkipped startIdx 0 batch st of
     (Inl e, st1) \<Rightarrow> (if is_panic e then Inl e else Inr (GaveUp (Some e)), st1)
   | (Inr (xs, partitions), st1) \<Rightarrow> (Inr (prove_sectors env r rnd xs partitions), st1))"

definition skip_sectors :: "'b post_env \<Rightarrow> sector_id list \<Rightarrow> 'b \<Rightarrow> 'b" where
  "skip_sectors env ps b = fold (bf_Set (rv_bits env)) (map sid_Number ps) b"

text \<open>The attempts at a batch, one environment for each. The loop has no bound: a run that has not ended when the environments are used up is \<open>None\<close>. After
  an attempt that asks for another one the context is looked at.\<close>

fun prove_rounds :: "'b post_env list \<Rightarrow> 'b runner \<Rightarrow> bytes \<Rightarrow> u64 \<Rightarrow> 'b partition list \<Rightarrow> 'b \<Rightarrow> proving_state \<Rightarrow>
    (('b post_partition list \<times> bytes list) res \<times> proving_state) option" where
  "prove_rounds [] r rnd startIdx batch postSkipped st = None"
| "prove_rounds (env # envs) r rnd startIdx batch postSkipped st = (case proveAttempt env r rnd startIdx batch postSkipped st of
     (Inl e, st1) \<Rightarrow> Some (Inl e, st1)
   | (Inr (GaveUp e), st1) \<Rightarrow> Some (Inr ([], []), st1)
   | (Inr (Proved qs out), st1) \<Rightarrow> Some (Inr (qs, out), st1)
   | (Inr (TryAgain e ps), st1) \<Rightarrow> if rv_ctx env \<noteq> None then Some (Inr ([], []), st1)
       else prove_rounds envs r rnd startIdx batch (skip_sectors env ps postSkipped) st1)"

definition batch_result :: "'b runner \<Rightarrow> 'b post_partition list \<times> bytes list \<Rightarrow> 'b post_params" where
  "batch_result r q = \<lparr>sw_Deadline = dl_Index (pr_dinfo r), sw_Partitions = fst q, sw_Proofs = snd q, sw_ChainCommitEpoch = 0, sw_ChainCommitRand = []\<rparr>"

text \<open>The deferred append runs whatever happened; a panic takes the process down.\<close>

definition generatePoStForPartitionBatch :: "'b post_env list \<Rightarrow> 'b \<Rightarrow> bytes \<Rightarrow> u64 \<Rightarrow> 'b partition list \<Rightarrow> 'b runner \<times> proving_state \<Rightarrow>
    (unit res \<times> 'b runner \<times> proving_state) option" where
  "generatePoStForPartitionBatch envs none rnd startIdx batch rs = (case prove_rounds envs (fst rs) rnd startIdx batch none (snd rs) of
     None \<Rightarrow> None
   | Some (Inl e, st) \<Rightarrow> Some (Inl e, fst rs, st)
   | Some (Inr q, st) \<Rightarrow> Some (Inr (), add_proof (batch_result (fst rs) q) (fst rs), st))"

text \<open>The batches of a deadline with the index of their first partition; each is proved by the operation above, one after the other or at once.\<close>

fun batch_starts :: "nat \<Rightarrow> 'a list list \<Rightarrow> (u64 \<times> 'a list) list" where
  "batch_starts i [] = []"
| "batch_starts i (b # bs) = (of_nat i, b) # batch_starts (i + length b) bs"

definition generatePoSt :: "'b post_env \<Rightarrow> 'b runner \<Rightarrow> (bytes \<times> (u64 \<times> 'b partition list) list) res" where
  "generatePoSt env r = (case GetWindowPoStChanlleengeRand (rv_rand env) (tsk_of r) (dl_Challenge (pr_dinfo r)) (pr_mid r) of
     Inl e \<Rightarrow> Inl e
   | Inr rnd \<Rightarrow> (case rv_MinerPartitions env (pr_maddr r) (dl_Index (pr_dinfo r)) (tsk_of r) of
       Inl e \<Rightarrow> Inl e
     | Inr partitions \<Rightarrow> (case rv_NetworkVersion env (tsk_of r) of
         Inl e \<Rightarrow> Inl e
       | Inr nv \<Rightarrow> (case batchPartitions env r partitions nv of
           Inl e \<Rightarrow> Inl e
         | Inr batches \<Rightarrow> Inr (pr_Rand rnd, batch_starts 0 batches)))))"

section \<open>Declarations\<close>

text \<open>What is done with one partition: nothing, an end of the loop, or a declaration of so many sectors.\<close>

datatype 'b recover_step = NextPartition | NoMore | Declare 'b u64

definition trim_recovered :: "'b post_env \<Rightarrow> u64 \<Rightarrow> 'b \<Rightarrow> u64 \<Rightarrow> 'b recover_step res" where
  "trim_recovered env maxNewRecoverable recovered recoveredCount = (if recoveredCount > maxNewRecoverable
     then (case bf_All (rv_bits env) (- 1) recovered of
         Inl e \<Rightarrow> Inr NoMore
       | Inr recoverySlice \<Rightarrow> if unat maxNewRecoverable > length recoverySlice then Inl (Panic ''runtime error: slice bounds out of range'')
           else Inr (Declare (pb_NewFromSet (rv_bits env) (take (unat maxNewRecoverable) recoverySlice)) maxNewRecoverable))
     else Inr (Declare recovered recoveredCount))"

definition recover_partition :: "'b post_env \<Rightarrow> 'b runner \<Rightarrow> nat \<Rightarrow> u64 \<Rightarrow> 'b partition \<Rightarrow> (proving_state, 'b recover_step) step" where
  "recover_partition env r partIdx recoverTotal p st = (case pb_Subtract (rv_bits env) (pa_Faulty p) (pa_Recovering p) of
     Inl e \<Rightarrow> (Inr NextPartition, st)
   | Inr unrecovered \<Rightarrow> (case bf_Count (rv_bits env) unrecovered of
       Inl e \<Rightarrow> (Inr NextPartition, st)
     | Inr uc \<Rightarrow> if uc = 0 then (Inr NextPartition, st)
         else (case checkSectors env r partIdx unrecovered st of
             (Inl e, st1) \<Rightarrow> (if is_panic e then Inl e else Inr NextPartition, st1)
           | (Inr recovered, st1) \<Rightarrow> (case bf_Count (rv_bits env) recovered of
               Inl e \<Rightarrow> (Inr NextPartition, st1)
             | Inr recoveredCount \<Rightarrow> (let lim = mp_MaxRecoverSectorLimit (pcfg_of r) in
                 if recoveredCount = 0 then (Inr NextPartition, st1)
                 else if lim > 0 \<and> lim < recoverTotal then (Inr NoMore, st1)
                 else if lim > 0 then (trim_recovered env (lim - recoverTotal) recovered recoveredCount, st1)
                 else (Inr (Declare recovered recoveredCount), st1))))))"

text \<open>The messages the loop hands out; the last one may be empty.\<close>

fun recover_loop :: "'b post_env \<Rightarrow> 'b runner \<Rightarrow> u64 \<Rightarrow> nat \<Rightarrow> u64 \<Rightarrow> 'b sectors_decl list \<Rightarrow> 'b partition list \<Rightarrow>
    (proving_state, 'b sectors_decl list list) step" where
  "recover_loop env r declIndex partIdx recoverTotal cur [] st = (Inr [cur], st)"
| "recover_loop env r declIndex partIdx recoverTotal cur (p # ps) st = (case recover_partition env r partIdx recoverTotal p st of
     (Inl e, st1) \<Rightarrow> (Inl e, st1)
   | (Inr NextPartition, st1) \<Rightarrow> recover_loop env r declIndex (Suc partIdx) recoverTotal cur ps st1
   | (Inr NoMore, st1) \<Rightarrow> (Inr [cur], st1)
   | (Inr (Declare recovered n), st1) \<Rightarrow>
      (let total = recoverTotal + n;
           cur1 = cur @ [\<lparr>dc_Deadline = declIndex, dc_Partition = of_nat partIdx, dc_Sectors = recovered\<rparr>];
           mx = mp_MaxPartitionsPerRecoveryMessage (pcfg_of r);
           full = (mx > 0 \<and> int (length cur1) \<ge> sint mx);
           handed = (if full then [cur1] else []);
           cur2 = (if full then [] else cur1);
           lim = mp_MaxRecoverSectorLimit (pcfg_of r) in
       if lim > 0 \<and> total \<ge> lim then (Inr (handed @ [cur2]), st1)
       else (case recover_loop env r declIndex (Suc partIdx) total cur2 ps st1 of
           (Inl e, st2) \<Rightarrow> (Inl e, st2)
         | (Inr ms, st2) \<Rightarrow> (Inr (handed @ ms), st2))))"

definition handleRecoverMessage :: "'b post_env \<Rightarrow> 'b runner \<Rightarrow> 'b sectors_decl list \<Rightarrow> sent \<Rightarrow> sent" where
  "handleRecoverMessage env r recoveries sent = (if length recoveries = 0 then sent
     else snd (publishMessage env r DeclareFaultsRecovered (RecoverCall recoveries) True sent))"

definition checkRecoveries :: "'b post_env \<Rightarrow> 'b runner \<Rightarrow> u64 \<Rightarrow> 'b partition list \<Rightarrow> (proving_state \<times> sent, unit) step" where
  "checkRecoveries env r declIndex partitions s = (case recover_loop env r declIndex 0 0 [] partitions (fst s) of
     (Inl e, st) \<Rightarrow> (Inl e, st, snd s)
   | (Inr ms, st) \<Rightarrow> (Inr (), st, fold (handleRecoverMessage env r) ms (snd s)))"

fun fault_loop :: "'b post_env \<Rightarrow> 'b runner \<Rightarrow> u64 \<Rightarrow> nat \<Rightarrow> 'b partition list \<Rightarrow> (proving_state, 'b sectors_decl list) step" where
  "fault_loop env r declIndex partIdx [] st = (Inr [], st)"
| "fault_loop env r declIndex partIdx (p # ps) st = (case pb_Subtract (rv_bits env) (pa_Live p) (pa_Faulty p) of
     Inl e \<Rightarrow> fault_loop env r declIndex (Suc partIdx) ps st
   | Inr nonFaulty \<Rightarrow> (case checkSectors env r partIdx nonFaulty st of
       (Inl e, st1) \<Rightarrow> if is_panic e then (Inl e, st1) else fault_loop env r declIndex (Suc partIdx) ps st1
     | (Inr good, st1) \<Rightarrow> (case Option.bind (case pb_Subtract (rv_bits env) nonFaulty good of Inl e \<Rightarrow> None | Inr b \<Rightarrow> Some b)
           (\<lambda>b. case bf_Count (rv_bits env) b of Inl e \<Rightarrow> None | Inr c \<Rightarrow> if c = 0 then None else Some b) of
         None \<Rightarrow> fault_loop env r declIndex (Suc partIdx) ps st1
       | Some newFaulty \<Rightarrow> (case fault_loop env r declIndex (Suc partIdx) ps st1 of
           (Inl e, st2) \<Rightarrow> (Inl e, st2)
         | (Inr ds, st2) \<Rightarrow> (Inr (\<lparr>dc_Deadline = declIndex, dc_Partition = of_nat partIdx, dc_Sectors = newFaulty\<rparr> # ds), st2)))))"

text \<open>The error of a failed wait wraps the error of the push, which is nil at this point.\<close>

definition checkFaults :: "'b post_env \<Rightarrow> 'b runner \<Rightarrow> u64 \<Rightarrow> 'b partition list \<Rightarrow> (proving_state \<times> sent, unit) step" where
  "checkFaults env r declIndex partitions s = (case fault_loop env r declIndex 0 partitions (fst s) of
     (Inl e, st) \<Rightarrow> (Inl e, st, snd s)
   | (Inr [], st) \<Rightarrow> (Inr (), st, snd s)
   | (Inr (d # ds), st) \<Rightarrow> (case publishMessage env r DeclareFaults (FaultCall (d # ds)) True (snd s) of
       (Inl e, sent) \<Rightarrow> (Inl (Wrap ''publish message'' e), st, sent)
     | (Inr uid, sent) \<Rightarrow> ((if msgResult env r uid \<noteq> None then Inl (Errorf ''declare faults wait error: %!w(<nil>)'') else Inr ()), st, sent)))"

definition handleFaults :: "'b post_env \<Rightarrow> 'b runner \<Rightarrow> (proving_state \<times> sent, unit) step" where
  "handleFaults env r s = (if dl_WPoStPeriodDeadlines (pr_dinfo r) = 0 then (Inl (Panic ''runtime error: integer divide by zero''), s)
     else (let declDeadlineIndex = (dl_Index (pr_dinfo r) + 2) mod dl_WPoStPeriodDeadlines (pr_dinfo r) in
       case rv_MinerPartitions env (pr_maddr r) declDeadlineIndex (tsk_of r) of
         Inl e \<Rightarrow> (Inr (), s)
       | Inr partitions \<Rightarrow> (case checkRecoveries env r declDeadlineIndex partitions s of
           (Inl e, s1) \<Rightarrow> (Inl e, s1)
         | (Inr _, s1) \<Rightarrow> if tsh_of r > rv_UpgradeIgnitionHeight env then (Inr (), s1)
             else (case checkFaults env r declDeadlineIndex partitions s1 of
                 (Inl e, s2) \<Rightarrow> (if is_panic e then Inl e else Inr (), s2)
               | (Inr _, s2) \<Rightarrow> (Inr (), s2)))))"

section \<open>Laws of the libraries\<close>

definition post_bits_ok :: "'b post_bits \<Rightarrow> ('b \<Rightarrow> u64 set) \<Rightarrow> bool" where
  "post_bits_ok pb bits = (bits (bf_New pb) = {} \<and>
     (\<forall>n b. bits (bf_Set pb n b) = insert n (bits b)) \<and>
     (\<forall>b c. bf_Count pb b = Inr c \<longrightarrow> unat c = card (bits b)) \<and>
     (\<forall>b c ns. bf_All pb c b = Inr ns \<longrightarrow> distinct ns \<and> set ns = bits b) \<and>
     (\<forall>a b c. bf_Merge pb a b = Inr c \<longrightarrow> bits c = bits a \<union> bits b) \<and>
     (\<forall>a b c. pb_Subtract pb a b = Inr c \<longrightarrow> bits c = bits a - bits b) \<and>
     (\<forall>ns. bits (pb_NewFromSet pb ns) = set ns) \<and>
     (\<forall>b ns. pb_ForEach pb b = Inr ns \<longrightarrow> set ns = bits b))"

text \<open>The chain answers a query for sectors with sectors that were asked for.\<close>

definition asked_only :: "'b post_env \<Rightarrow> ('b \<Rightarrow> u64 set) \<Rightarrow> bool" where
  "asked_only env bits = (\<forall>maddr b tsk xs. rv_MinerSectors env maddr b tsk = Inr xs \<longrightarrow> on_SectorNumber ` set xs \<subseteq> bits b)"

text \<open>A prover that names sectors it could not read names sectors it was given.\<close>

definition skips_given :: "'b post_env \<Rightarrow> bool" where
  "skips_given env = (\<forall>g postOut ps e. rv_Generate env g = (postOut, ps, Some e) \<longrightarrow> sid_Number ` set ps \<subseteq> xs_SectorNumber ` set (gw_Sectors g))"

section \<open>Lemmas\<close>

lemma fold_Set: "post_bits_ok pb bits \<Longrightarrow> bits (fold (bf_Set pb) ns b) = set ns \<union> bits b"
  by (induction ns arbitrary: b) (auto simp: post_bits_ok_def)

lemma skip_sectors_bits: "post_bits_ok (rv_bits env) bits \<Longrightarrow> bits (skip_sectors env ps b) = sid_Number ` set ps \<union> bits b"
  by (simp add: skip_sectors_def fold_Set)

lemma checkSectors_sub:
  assumes "post_bits_ok (rv_bits env) bits" "asked_only env bits" "checkSectors env r k chk st = (Inr b, st1)"
  shows "bits b \<subseteq> bits chk"
proof -
  from assms(3) obtain xs badMap where x: "rv_MinerSectors env (pr_maddr r) chk (tsk_of r) = Inr xs"
    "b = good_bits (rv_bits env) badMap xs"
    by (auto simp: checkSectors_def split: sum.splits prod.splits if_splits)
  with assms(1) have "bits b \<subseteq> on_SectorNumber ` set xs" by (auto simp: good_bits_def fold_Set post_bits_ok_def)
  moreover have "on_SectorNumber ` set xs \<subseteq> bits chk" using x(1) assms(2) by (auto simp: asked_only_def)
  ultimately show ?thesis by blast
qed

text \<open>A sector the check calls good is in order, for the index and the files of the moment.\<close>

definition checked_ok :: "'b post_env \<Rightarrow> 'b runner \<Rightarrow> u64 \<Rightarrow> bool" where
  "checked_ok env r n = (\<exists>st pt upgrade. in_order (rv_proving env) st \<lparr>ref_ID = \<lparr>sid_Miner = pr_mid r, sid_Number = n\<rparr>, ref_ProofType = pt\<rparr> upgrade
     (mp_StrictCheck (pcfg_of r)) False)"

lemma checkSectors_ok:
  assumes "post_bits_ok (rv_bits env) bits" "checkSectors env r k chk st = (Inr b, st1)" "n \<in> bits b"
  shows "checked_ok env r n"
proof -
  from assms(2) obtain xs badMap pp where x: "b = good_bits (rv_bits env) badMap xs"
      "Provable (rv_proving env) (rv_challenges env k) (rv_late env k) (pr_mid r) pp (map SectorOnChainInfoToExtended xs)
        (mp_StrictCheck (pcfg_of r)) False st = (Inr badMap, st1)"
    by (auto simp: checkSectors_def split: sum.splits prod.splits if_splits)
  with assms(1,3) obtain s where s: "s \<in> set xs" "on_SectorNumber s = n" "badMap n = None" by (auto simp: good_bits_def fold_Set post_bits_ok_def)
  from unreported_sector_is_in_order [OF x(2)] s show ?thesis
    by (fastforce simp: checked_ok_def sector_ref_of_def SectorOnChainInfoToExtended_def)
qed

lemma map_of_rev_image: "map_of (rev (map (\<lambda>x. (f x, g x)) xs)) n = Some y \<Longrightarrow> \<exists>x \<in> set xs. f x = n \<and> g x = y"
  by (auto dest!: map_of_SomeD)

text \<open>Every sector handed to the prover is one of the good ones.\<close>

lemma sectorsForProof_good:
  assumes "asked_only env bits" "sectorsForProof env r good al = Inr xs"
  shows "xs_SectorNumber ` set xs \<subseteq> bits good"
proof (cases "rv_MinerSectors env (pr_maddr r) good (tsk_of r)")
  case (Inr ss)
  have num: "xs_SectorNumber (SectorOnChainInfoToExtended s) = on_SectorNumber s" for s by (simp add: SectorOnChainInfoToExtended_def)
  from Inr assms(1) have sub: "on_SectorNumber ` set ss \<subseteq> bits good" by (auto simp: asked_only_def)
  show ?thesis
  proof (cases ss)
    case (Cons s rest)
    let ?m = "map_of (rev (map (\<lambda>x. (on_SectorNumber x, SectorOnChainInfoToExtended x)) ss))"
    from Cons assms(2) Inr obtain ns where xs: "xs = map (\<lambda>n. case ?m n of Some info \<Rightarrow> info | None \<Rightarrow> SectorOnChainInfoToExtended s) ns"
      by (auto simp: sectorsForProof_def Let_def split: sum.splits)
    have "xs_SectorNumber (case ?m n of Some info \<Rightarrow> info | None \<Rightarrow> SectorOnChainInfoToExtended s) \<in> on_SectorNumber ` set ss" for n
    proof (cases "?m n")
      case (Some y)
      then show ?thesis using map_of_rev_image [OF Some] num by auto
    next
      case None
      then have "(case ?m n of Some info \<Rightarrow> info | None \<Rightarrow> SectorOnChainInfoToExtended s) = SectorOnChainInfoToExtended s" by (simp only: option.case)
      with Cons show ?thesis by (simp only: num) simp
    qed
    then show ?thesis using sub xs by auto
  qed (use assms Inr in \<open>simp add: sectorsForProof_def\<close>)
qed (use assms in \<open>simp add: sectorsForProof_def\<close>)

text \<open>The live and not faulty sectors of a partition, and those that recover.\<close>

definition to_prove :: "('b \<Rightarrow> u64 set) \<Rightarrow> 'b partition \<Rightarrow> u64 set" where
  "to_prove bits p = bits (pa_Live p) - bits (pa_Faulty p) \<union> bits (pa_Recovering p)"

lemma collect_partitionsD:
  assumes "post_bits_ok (rv_bits env) bits" "asked_only env bits" "collect_partitions env r sk s i ps st = (Inr (xs, qs), st1)"
  shows "xs_SectorNumber ` set xs \<subseteq> (\<Union>p \<in> set ps. to_prove bits p) - bits sk \<and> (xs = [] \<longleftrightarrow> qs = []) \<and>
    (\<forall>q \<in> set qs. \<exists>j < length ps. pp_Index q = s + of_nat (i + j) \<and> bits (pp_Skipped q) \<subseteq> to_prove bits (ps ! j) \<and>
       to_prove bits (ps ! j) \<inter> bits sk \<subseteq> bits (pp_Skipped q)) \<and> (\<forall>x \<in> set xs. checked_ok env r (xs_SectorNumber x))"
  using assms(3)
proof (induction ps arbitrary: i st xs qs st1)
  case (Cons p ps)
  from Cons.prems obtain nf tp ck gd skd c ssi xs' qs' st2 where e: "pb_Subtract (rv_bits env) (pa_Live p) (pa_Faulty p) = Inr nf"
      "bf_Merge (rv_bits env) nf (pa_Recovering p) = Inr tp" "checkSectors env r i tp st = (Inr ck, st2)"
      "pb_Subtract (rv_bits env) ck sk = Inr gd" "pb_Subtract (rv_bits env) tp gd = Inr skd" "bf_Count (rv_bits env) skd = Inr c"
      "sectorsForProof env r gd (pa_All p) = Inr ssi" "collect_partitions env r sk s (Suc i) ps st2 = (Inr (xs', qs'), st1)"
      "(xs, qs) = (if length ssi = 0 then (xs', qs') else (ssi @ xs', \<lparr>pp_Index = s + of_nat i, pp_Skipped = skd\<rparr> # qs'))"
    by (auto split: sum.splits prod.splits if_splits)
  have b: "bits nf = bits (pa_Live p) - bits (pa_Faulty p)" "bits tp = bits nf \<union> bits (pa_Recovering p)" "bits gd = bits ck - bits sk"
      "bits skd = bits tp - bits gd" using e assms(1) by (auto simp: post_bits_ok_def)
  have tp: "bits tp = to_prove bits p" using b by (simp add: to_prove_def)
  have ck: "bits ck \<subseteq> bits tp" by (rule checkSectors_sub [OF assms(1,2) e(3)])
  have g: "xs_SectorNumber ` set ssi \<subseteq> bits gd" by (rule sectorsForProof_good [OF assms(2) e(7)])
  note IH = Cons.IH [OF e(8)]
  have later: "\<exists>j < length (p # ps). pp_Index q = s + of_nat (i + j) \<and> bits (pp_Skipped q) \<subseteq> to_prove bits ((p # ps) ! j) \<and>
      to_prove bits ((p # ps) ! j) \<inter> bits sk \<subseteq> bits (pp_Skipped q)" if "q \<in> set qs'" for q
  proof -
    from IH that obtain j where "j < length ps" "pp_Index q = s + of_nat (Suc i + j)" "bits (pp_Skipped q) \<subseteq> to_prove bits (ps ! j)"
      "to_prove bits (ps ! j) \<inter> bits sk \<subseteq> bits (pp_Skipped q)" by blast
    then show ?thesis by (intro exI [of _ "Suc j"]) simp
  qed
  have here: "bits skd \<subseteq> to_prove bits p \<and> to_prove bits p \<inter> bits sk \<subseteq> bits skd" using b tp by auto
  show ?case
  proof (cases "ssi = []")
    case True
    with e(9) IH later show ?thesis by auto
  next
    case False
    with e(9) have x: "xs = ssi @ xs'" "qs = \<lparr>pp_Index = s + of_nat i, pp_Skipped = skd\<rparr> # qs'" by auto
    have "xs_SectorNumber ` set ssi \<subseteq> to_prove bits p - bits sk" using g b(3) ck tp by auto
    with IH x(1) have "xs_SectorNumber ` set xs \<subseteq> (\<Union>p \<in> set (p # ps). to_prove bits p) - bits sk" by auto
    moreover have "\<exists>j < length (p # ps). pp_Index q = s + of_nat (i + j) \<and> bits (pp_Skipped q) \<subseteq> to_prove bits ((p # ps) ! j) \<and>
        to_prove bits ((p # ps) ! j) \<inter> bits sk \<subseteq> bits (pp_Skipped q)" if "q \<in> set qs" for q
    proof (cases "q \<in> set qs'")
      case False
      with that x(2) have "q = \<lparr>pp_Index = s + of_nat i, pp_Skipped = skd\<rparr>" by simp
      with here show ?thesis by (intro exI [of _ 0]) simp
    qed (rule later)
    moreover have "\<forall>x \<in> set xs. checked_ok env r (xs_SectorNumber x)"
      using IH x(1) g b(3) checkSectors_ok [OF assms(1) e(3)] by auto
    ultimately show ?thesis using x False by auto
  qed
qed auto

subsection \<open>The attempts at a batch\<close>

text \<open>The chain and the verifier as they are when nothing goes wrong: the version, the head and the randomness are answered, the randomness is the one
  of the start, and proofs verify.\<close>

definition settled :: "'b post_env \<Rightarrow> 'b runner \<Rightarrow> bytes \<Rightarrow> bool" where
  "settled env r rnd = (\<not> isl (rv_NetworkVersion env []) \<and> (\<forall>vi. rv_Verify env vi = Inr True) \<and>
     (case rv_ChainHead env of Inl _ \<Rightarrow> False
      | Inr headTs \<Rightarrow> (case GetWindowPoStChanlleengeRand (rv_rand env) headTs (dl_Challenge (pr_dinfo r)) (pr_mid r) of
          Inl _ \<Rightarrow> False | Inr cr \<Rightarrow> pr_Rand cr = rnd)))"

lemma accept_proof_settled: "settled env r rnd \<Longrightarrow> accept_proof env r rnd xs qs out \<noteq> TryAgain e ps"
  by (auto simp: accept_proof_def settled_def split: sum.splits)

lemma retry_skips:
  assumes "settled env r rnd" "skips_given env" "prove_sectors env r rnd xs qs = TryAgain e ps"
  shows "ps \<noteq> [] \<and> sid_Number ` set ps \<subseteq> xs_SectorNumber ` set xs"
proof -
  obtain x rest where xs: "xs = x # rest" using assms(3) by (cases xs) (auto simp: prove_sectors_def)
  obtain nv where nv: "rv_NetworkVersion env [] = Inr nv" using assms(1) by (cases "rv_NetworkVersion env []") (auto simp: settled_def)
  from assms(3) xs nv obtain pp where pp: "rv_WindowPoStProof env (xs_SealProof x) nv = Inr pp"
    by (cases "rv_WindowPoStProof env (xs_SealProof x) nv") (auto simp: prove_sectors_def)
  let ?g = "\<lparr>gw_DeadlineIdx = dl_Index (pr_dinfo r), gw_MinerID = pr_mid r, gw_ProofType = pp,
     gw_Partitions = map pp_Index qs, gw_Sectors = xs, gw_Randomness = rnd\<rparr>"
  obtain out ps' er where g: "rv_Generate env ?g = (out, ps', er)" by (cases "rv_Generate env ?g") auto
  show ?thesis
  proof (cases er)
    case None
    with assms(3) xs nv pp g have "accept_proof env r rnd xs qs out = TryAgain e ps" by (simp add: prove_sectors_def)
    with accept_proof_settled [OF assms(1)] show ?thesis by blast
  next
    case (Some er')
    with assms(3) xs nv pp g have "ps' = ps \<and> ps \<noteq> []" by (auto simp: prove_sectors_def split: if_splits option.splits)
    with g Some assms(2) show ?thesis unfolding skips_given_def by (metis generate_params.select_convs(5))
  qed
qed

lemma prove_rounds_end:
  assumes "\<forall>env \<in> set envs. post_bits_ok (rv_bits env) bits \<and> asked_only env bits \<and> skips_given env \<and> settled env r rnd"
    and "card ((\<Union>p \<in> set batch. to_prove bits p) - bits sk) < length envs"
  shows "prove_rounds envs r rnd s batch sk st \<noteq> None"
  using assms
proof (induction envs arbitrary: sk st)
  case (Cons env envs)
  let ?U = "\<Union>p \<in> set batch. to_prove bits p"
  obtain a st1 where a: "proveAttempt env r rnd s batch sk st = (a, st1)" by fastforce
  show ?case
  proof (cases "\<exists>e ps. a = Inr (TryAgain e ps)")
    case False
    then show ?thesis using a by (auto split: sum.split attempt.split)
  next
    case True
    then obtain e ps where t: "a = Inr (TryAgain e ps)" by blast
    with a obtain xs qs where c: "collect_partitions env r sk s 0 batch st = (Inr (xs, qs), st1)" "prove_sectors env r rnd xs qs = TryAgain e ps"
      by (auto simp: proveAttempt_def split: prod.splits sum.splits if_splits)
    have env: "post_bits_ok (rv_bits env) bits" "asked_only env bits" "skips_given env" "settled env r rnd" using Cons.prems(1) by auto
    from retry_skips [OF env(4,3) c(2)] have ps: "ps \<noteq> []" "sid_Number ` set ps \<subseteq> xs_SectorNumber ` set xs" by auto
    have in_u: "sid_Number ` set ps \<subseteq> ?U - bits sk" by (rule subset_trans [OF ps(2) collect_partitionsD [OF env(1,2) c(1), THEN conjunct1]])
    have "?U - bits (skip_sectors env ps sk) \<subset> ?U - bits sk"
      using ps(1) in_u skip_sectors_bits [OF env(1), of ps sk] by (cases ps) auto
    then have "card (?U - bits (skip_sectors env ps sk)) < card (?U - bits sk)" by (intro psubset_card_mono) auto
    with Cons.prems(2) have "card (?U - bits (skip_sectors env ps sk)) < length envs" by simp
    moreover from Cons.prems(1) have "\<forall>env \<in> set envs. post_bits_ok (rv_bits env) bits \<and> asked_only env bits \<and> skips_given env \<and> settled env r rnd"
      by simp
    ultimately have "prove_rounds envs r rnd s batch (skip_sectors env ps sk) st1 \<noteq> None" by (intro Cons.IH)
    with a t show ?thesis by simp
  qed
qed simp

text \<open>A proof that a batch ends with was verified against the randomness of the chain's head.\<close>

lemma proved_verified:
  assumes "prove_sectors env r rnd xs qs = Proved qs' out"
  shows "qs' = qs \<and> out \<noteq> [] \<and> (\<exists>headTs cr. rv_ChainHead env = Inr headTs \<and>
    GetWindowPoStChanlleengeRand (rv_rand env) headTs (dl_Challenge (pr_dinfo r)) (pr_mid r) = Inr cr \<and> pr_Rand cr = rnd \<and>
    rv_Verify env \<lparr>vi_Randomness = rnd, vi_Proofs = out, vi_Sectors = sector_infos xs, vi_Prover = pr_mid r\<rparr> = Inr True)"
  using assms by (auto simp: prove_sectors_def accept_proof_def split: list.splits sum.splits prod.splits option.splits if_splits)

lemma prove_rounds_verified:
  assumes "prove_rounds envs r rnd s batch sk st = Some (Inr (qs, out), st')" "out \<noteq> []"
  shows "\<exists>env xs sk' st0 st1. env \<in> set envs \<and> collect_partitions env r sk' s 0 batch st0 = (Inr (xs, qs), st1) \<and>
    prove_sectors env r rnd xs qs = Proved qs out"
  using assms(1)
proof (induction envs arbitrary: sk st)
  case (Cons env envs)
  obtain a st1 where a: "proveAttempt env r rnd s batch sk st = (a, st1)" by fastforce
  show ?case
  proof (cases "a = Inr (Proved qs out)")
    case True
    with a obtain xs qs' where c: "collect_partitions env r sk s 0 batch st = (Inr (xs, qs'), st1)" "prove_sectors env r rnd xs qs' = Proved qs out"
      by (auto simp: proveAttempt_def split: prod.splits sum.splits if_splits)
    moreover from proved_verified [OF c(2)] have "qs' = qs" by blast
    ultimately show ?thesis by (meson list.set_intros(1))
  next
    case False
    with Cons.prems a assms(2) obtain sk' where "prove_rounds envs r rnd s batch sk' st1 = Some (Inr (qs, out), st')"
      by (auto split: sum.splits attempt.splits if_splits)
    from Cons.IH [OF this] show ?thesis by (meson list.set_intros(2))
  qed
qed simp

lemma add_proof_inj: "add_proof a r = add_proof b r \<Longrightarrow> a = b"
  by (simp add: add_proof_def) (metis last_snoc option.sel runner.ext_inject runner.surjective runner.update_convs(7))

subsection \<open>Batches\<close>

lemma concat_chunks: "n > 0 \<Longrightarrow> concat (chunks n xs) = xs"
  by (induction n xs rule: chunks.induct) (subst chunks.simps, auto)

lemma chunks_bounds: "b \<in> set (chunks n xs) \<Longrightarrow> b \<noteq> [] \<and> length b \<le> n"
  by (induction n xs rule: chunks.induct) (subst (asm) (2) chunks.simps, auto split: if_splits)

lemma batchPartitionsD:
  assumes "batchPartitions env r partitions nv = Inr bs"
  shows "\<exists>perMsg. rv_MaxPoStPartitions env nv (pr_proofType r) = Inr perMsg \<and> concat bs = partitions \<and>
    (\<forall>b \<in> set bs. b \<noteq> [] \<and> int (length b) \<le> perMsg \<and> int (length b) \<le> rv_DeclarationsMax env \<and>
       (sint (mp_MaxPartitionsPerPoStMessage (pcfg_of r)) > 0 \<longrightarrow> int (length b) \<le> sint (mp_MaxPartitionsPerPoStMessage (pcfg_of r))))"
proof -
  let ?mx = "sint (mp_MaxPartitionsPerPoStMessage (pcfg_of r))"
  obtain perMsg where p: "rv_MaxPoStPartitions env nv (pr_proofType r) = Inr perMsg"
    using assms by (cases "rv_MaxPoStPartitions env nv (pr_proofType r)") (auto simp: batchPartitions_def)
  define n where "n = (let p1 = (if perMsg > rv_DeclarationsMax env then rv_DeclarationsMax env else perMsg) in if ?mx > 0 \<and> p1 > ?mx then ?mx else p1)"
  have le: "n \<le> perMsg" "n \<le> rv_DeclarationsMax env" "?mx > 0 \<longrightarrow> n \<le> ?mx" by (auto simp: n_def Let_def)
  have bs: "(n < 0 \<and> partitions = [] \<and> bs = []) \<or> (n > 0 \<and> bs = chunks (nat n) partitions)"
    using assms p by (auto simp: batchPartitions_def n_def Let_def split: if_splits)
  have "int (length b) \<le> n \<and> b \<noteq> []" if "b \<in> set bs" for b
    using bs that chunks_bounds [of b "nat n" partitions] by auto
  moreover have "concat bs = partitions" using bs by (auto simp: concat_chunks)
  ultimately show ?thesis using p le by fastforce
qed

lemma batch_starts_snd: "(s, b) \<in> set (batch_starts i bs) \<Longrightarrow> b \<in> set bs"
  by (induction bs arbitrary: i) auto

text \<open>The partitions of a list of batches with the index they are proved under.\<close>

definition at_index :: "(u64 \<times> 'a list) list \<Rightarrow> (u64 \<times> 'a) list" where
  "at_index ws = concat (map (\<lambda>(s, b). map (\<lambda>(i, p). (s + of_nat i, p)) (List.enumerate 0 b)) ws)"

lemma at_index_batch_starts: "at_index (batch_starts i bs) = map (\<lambda>(j, p). (of_nat j, p)) (List.enumerate i (concat bs))"
proof (induction bs arbitrary: i)
  case (Cons b bs)
  have "map (\<lambda>(j, p). (of_nat i + of_nat j :: u64, p)) (List.enumerate 0 b) = map (\<lambda>(j, p). (of_nat j, p)) (List.enumerate i b)"
    by (rule nth_equalityI) (auto simp: nth_enumerate_eq)
  with Cons show ?case by (simp add: at_index_def enumerate_append_eq)
qed (simp add: at_index_def)

subsection \<open>Recoveries\<close>

lemma trim_recoveredD:
  assumes "post_bits_ok (rv_bits env) bits" "bf_Count (rv_bits env) b = Inr c" "c \<noteq> 0" "0 < m" "trim_recovered env m b c = Inr (Declare b' n)"
  shows "bits b' \<subseteq> bits b \<and> unat n = card (bits b') \<and> n \<le> m \<and> n \<noteq> 0"
proof (cases "c > m")
  case True
  with assms(5) obtain ns where ns: "bf_All (rv_bits env) (- 1) b = Inr ns" "unat m \<le> length ns" "n = m"
      "b' = pb_NewFromSet (rv_bits env) (take (unat m) ns)"
    by (auto simp: trim_recovered_def split: sum.splits if_splits)
  with assms(1) have d: "distinct ns" "set ns = bits b" "bits b' = set (take (unat m) ns)" by (auto simp: post_bits_ok_def)
  from d(1,3) have "card (bits b') = length (take (unat m) ns)" by (simp add: distinct_card distinct_take)
  with d ns assms(4) show ?thesis by (auto dest: in_set_takeD)
next
  case False
  with assms show ?thesis by (auto simp: trim_recovered_def post_bits_ok_def)
qed

text \<open>What a declaration of the \<open>j\<close>-th partition declares.\<close>

definition recovers :: "('b \<Rightarrow> u64 set) \<Rightarrow> u64 \<Rightarrow> 'b partition list \<Rightarrow> nat \<Rightarrow> 'b sectors_decl \<Rightarrow> bool" where
  "recovers bits declIndex ps j d = (j < length ps \<and> dc_Deadline d = declIndex \<and> dc_Partition d = of_nat j \<and> bits (dc_Sectors d) \<noteq> {} \<and>
     bits (dc_Sectors d) \<subseteq> bits (pa_Faulty (ps ! j)) - bits (pa_Recovering (ps ! j)))"

lemma recover_partitionD:
  assumes "post_bits_ok (rv_bits env) bits" "asked_only env bits" "recover_partition env r i tot p st = (Inr (Declare b n), st1)"
    and "0 < mp_MaxRecoverSectorLimit (pcfg_of r) \<longrightarrow> tot < mp_MaxRecoverSectorLimit (pcfg_of r)"
  shows "bits b \<subseteq> bits (pa_Faulty p) - bits (pa_Recovering p) \<and> bits b \<noteq> {} \<and> unat n = card (bits b) \<and>
    (0 < mp_MaxRecoverSectorLimit (pcfg_of r) \<longrightarrow> n \<le> mp_MaxRecoverSectorLimit (pcfg_of r) - tot)"
proof -
  let ?lim = "mp_MaxRecoverSectorLimit (pcfg_of r)"
  from assms(3) obtain un uc rc c where e: "pb_Subtract (rv_bits env) (pa_Faulty p) (pa_Recovering p) = Inr un"
      "checkSectors env r i un st = (Inr rc, st1)" "bf_Count (rv_bits env) rc = Inr c" "c \<noteq> 0"
      "(if 0 < ?lim then trim_recovered env (?lim - tot) rc c else Inr (Declare rc c)) = Inr (Declare b n)"
    by (auto simp: recover_partition_def Let_def split: sum.splits prod.splits if_splits)
  have "bits un = bits (pa_Faulty p) - bits (pa_Recovering p)" using e(1) assms(1) by (simp add: post_bits_ok_def)
  with checkSectors_sub [OF assms(1,2) e(2)] have sub: "bits rc \<subseteq> bits (pa_Faulty p) - bits (pa_Recovering p)" by simp
  have "bits b \<subseteq> bits rc \<and> unat n = card (bits b) \<and> (0 < ?lim \<longrightarrow> n \<le> ?lim - tot) \<and> n \<noteq> 0"
  proof (cases "0 < ?lim")
    case True
    with assms(4) have "0 < ?lim - tot" by (simp add: word_gt_0)
    from trim_recoveredD [OF assms(1) e(3,4) this] e(5) True show ?thesis by auto
  next
    case False
    with e(3-5) assms(1) show ?thesis by (auto simp: post_bits_ok_def)
  qed
  with sub show ?thesis by (auto simp: unat_eq_0)
qed

lemma add_within:
  fixes tot n lim :: u64
  assumes "tot < lim" "n \<le> lim - tot"
  shows "unat (tot + n) = unat tot + unat n \<and> unat (tot + n) \<le> unat lim"
proof -
  have n: "unat n \<le> unat lim - unat tot" using assms unat_sub [of tot lim] by (simp add: word_le_nat_alt word_less_nat_alt)
  moreover have "unat tot < unat lim" using assms(1) by (simp add: word_less_nat_alt)
  moreover have "unat lim < 2 ^ 64" using unsigned_less [of lim] by simp
  ultimately show ?thesis by (simp add: unat_word_ariths)
qed

lemma sint_le_uint: "sint (w :: u64) \<le> uint w"
proof -
  have "take_bit 64 (uint w) \<le> uint w" by (rule take_bit_int_less_eq_self_iff [THEN iffD2]) simp
  then show ?thesis by (auto simp: sint_uint signed_take_bit_eq_take_bit_minus)
qed

lemma sint_lt_unat: "int k < sint (w :: u64) \<Longrightarrow> k < unat w"
  using sint_le_uint [of w] by (simp flip: of_nat_less_iff [where 'a = int])

text \<open>The loop declares partitions in order, each at most once, keeps to the limit of sectors and to the size of a message.\<close>

lemma recover_loopD:
  assumes "post_bits_ok (rv_bits env) bits" "asked_only env bits" "recover_loop env r d i tot cur (List.drop i al) st = (Inr ms, st1)"
    and "0 < mp_MaxRecoverSectorLimit (pcfg_of r) \<longrightarrow> tot < mp_MaxRecoverSectorLimit (pcfg_of r)"
    and "0 < mp_MaxPartitionsPerRecoveryMessage (pcfg_of r) \<longrightarrow> length cur < unat (mp_MaxPartitionsPerRecoveryMessage (pcfg_of r))"
  shows "\<exists>js ds. concat ms = cur @ ds \<and> sorted_wrt (<) js \<and> (\<forall>j \<in> set js. i \<le> j) \<and> list_all2 (recovers bits d al) js ds \<and>
    (0 < mp_MaxRecoverSectorLimit (pcfg_of r) \<longrightarrow> unat tot + (\<Sum>x\<leftarrow>ds. card (bits (dc_Sectors x))) \<le> unat (mp_MaxRecoverSectorLimit (pcfg_of r))) \<and>
    (0 < mp_MaxPartitionsPerRecoveryMessage (pcfg_of r) \<longrightarrow> (\<forall>m \<in> set ms. length m \<le> unat (mp_MaxPartitionsPerRecoveryMessage (pcfg_of r))))"
  using assms(3-5)
proof (induction "List.drop i al" arbitrary: i tot cur st ms)
  case Nil
  then show ?case by (intro exI [of _ "[]"]) (auto simp: word_less_nat_alt)
next
  case (Cons p ps)
  let ?lim = "mp_MaxRecoverSectorLimit (pcfg_of r)" and ?mx = "mp_MaxPartitionsPerRecoveryMessage (pcfg_of r)"
  from Cons.hyps(2) have i: "i < length al" "al ! i = p" "ps = List.drop (Suc i) al"
    by (metis drop_all leI list.distinct(1), metis drop_all leI list.distinct(1) hd_drop_conv_nth list.sel(1), metis drop_Suc tl_drop list.sel(3))
  obtain q st2 where q: "recover_partition env r i tot p st = (q, st2)" by fastforce
  note prem = Cons.prems(1) [folded Cons.hyps(2), unfolded recover_loop.simps q]
  have "(\<exists>e. q = Inl e) \<or> q = Inr NextPartition \<or> q = Inr NoMore \<or> (\<exists>b n. q = Inr (Declare b n))" by (metis recover_step.exhaust sum.exhaust)
  then consider "q = Inr NextPartition" | "q = Inr NoMore" | b n where "q = Inr (Declare b n)" using prem by auto
  then show ?case
  proof cases
    case 1
    with prem i(3) have "recover_loop env r d (Suc i) tot cur (List.drop (Suc i) al) st2 = (Inr ms, st1)" by simp
    from Cons.hyps(1) [OF i(3) this Cons.prems(2,3)] show ?thesis by (meson Suc_leD)
  next
    case 2
    with prem Cons.prems(2,3) show ?thesis by (intro exI [of _ "[]"]) (auto simp: word_less_nat_alt)
  next
    case (3 b n)
    from recover_partitionD [OF assms(1,2) q [unfolded 3] Cons.prems(2)]
    have b: "bits b \<subseteq> bits (pa_Faulty p) - bits (pa_Recovering p)" "bits b \<noteq> {}" "unat n = card (bits b)" "0 < ?lim \<longrightarrow> n \<le> ?lim - tot" by auto
    define x where "x = \<lparr>dc_Deadline = d, dc_Partition = of_nat i, dc_Sectors = b\<rparr>"
    define full where "full = (0 < ?mx \<and> sint ?mx \<le> int (length (cur @ [x])))"
    have rx: "recovers bits d al i x" using i b by (simp add: recovers_def x_def)
    have tot: "0 < ?lim \<longrightarrow> unat (tot + n) = unat tot + card (bits b) \<and> unat (tot + n) \<le> unat ?lim"
      using b(3,4) Cons.prems(2) add_within [of tot ?lim n] by auto
    have len: "0 < ?mx \<longrightarrow> length (cur @ [x]) \<le> unat ?mx" "0 < ?mx \<longrightarrow> \<not> full \<longrightarrow> length (cur @ [x]) < unat ?mx"
      using Cons.prems(3) sint_lt_unat [of "length (cur @ [x])" ?mx] by (auto simp: full_def)
    have pm: "(if 0 < ?lim \<and> ?lim \<le> tot + n then (Inr ((if full then [cur @ [x]] else []) @ [if full then [] else cur @ [x]]), st2)
       else (case recover_loop env r d (Suc i) (tot + n) (if full then [] else cur @ [x]) ps st2 of
           (Inl e, st3) \<Rightarrow> (Inl e, st3) | (Inr ms, st3) \<Rightarrow> (Inr ((if full then [cur @ [x]] else []) @ ms), st3))) = (Inr ms, st1)"
      using prem by (simp only: 3 prod.case sum.case recover_step.case Let_def x_def full_def)
    show ?thesis
    proof (cases "0 < ?lim \<and> ?lim \<le> tot + n")
      case True
      with pm have "ms = (if full then [cur @ [x]] else []) @ [if full then [] else cur @ [x]]" by simp
      with len tot rx show ?thesis by (intro exI [of _ "[i]"] exI [of _ "[x]"]) (auto simp: x_def)
    next
      case False
      with pm obtain ms' where l: "recover_loop env r d (Suc i) (tot + n) (if full then [] else cur @ [x]) (List.drop (Suc i) al) st2 = (Inr ms', st1)"
          "ms = (if full then [cur @ [x]] else []) @ ms'" using i(3) by (auto split: prod.splits sum.splits)
      have "0 < ?lim \<longrightarrow> tot + n < ?lim" using False by auto
      moreover have "0 < ?mx \<longrightarrow> length (if full then [] else cur @ [x]) < unat ?mx" using len by (auto simp: word_less_nat_alt)
      ultimately obtain js ds where h: "concat ms' = (if full then [] else cur @ [x]) @ ds" "sorted_wrt (<) js" "\<forall>j \<in> set js. Suc i \<le> j"
          "list_all2 (recovers bits d al) js ds" "0 < ?lim \<longrightarrow> unat (tot + n) + (\<Sum>x\<leftarrow>ds. card (bits (dc_Sectors x))) \<le> unat ?lim"
          "0 < ?mx \<longrightarrow> (\<forall>m \<in> set ms'. length m \<le> unat ?mx)" using Cons.hyps(1) [OF i(3) l(1)] by blast
      from h(1) l(2) have "concat ms = cur @ x # ds" by auto
      moreover have "0 < ?mx \<longrightarrow> (\<forall>m \<in> set ms. length m \<le> unat ?mx)" using h(6) len l(2) by auto
      moreover have "0 < ?lim \<longrightarrow> unat tot + (\<Sum>x\<leftarrow>x # ds. card (bits (dc_Sectors x))) \<le> unat ?lim" using h(5) tot by (auto simp: x_def)
      ultimately show ?thesis using h(2-4) rx by (intro exI [of _ "i # js"] exI [of _ "x # ds"]) auto
    qed
  qed
qed

section \<open>The runner keeps the scheduler's contract\<close>

text \<open>A runner that was started moves on its own when a batch ends.\<close>

definition runner_moves :: "'b runner \<Rightarrow> 'b runner \<Rightarrow> bool" where
  "runner_moves r r' = (pr_startCtx r \<noteq> None \<and> (\<exists>params. r' = add_proof params r))"

interpretation pru: post_runner "post_runner_ops :: 'b runner runner_ops" pr_startCtx pr_cancelled runner_moves
  by unfold_locales
    (auto simp: post_runner_ops_def postRunnerConstructor_def runner_start_def runner_submit_def runner_abort_def runner_moves_def add_proof_def
      split: option.splits)

definition submit_window :: "miner_post_config \<Rightarrow> dline_info \<Rightarrow> epoch set" where
  "submit_window c dl = {h. dl_Challenge dl \<le> h \<and> h < dl_Close dl \<and>
     dl_Open dl + sint (if mp_SubmitConfidence c = 0 then DefaultSubmitConfidence else mp_SubmitConfidence c) \<le> h}"

definition submits_in_window :: "safe_config \<Rightarrow> u64 \<Rightarrow> 'b runner scheduler \<Rightarrow> bool" where
  "submits_in_window cfg mid s = (\<forall>(ps, t) \<in> set (pr_submitted (sd_runner s)). case post_config cfg mid of
     None \<Rightarrow> False | Some c \<Rightarrow> snd t \<in> submit_window c (sd_dl s))"

lemma feed_submits: "submits_in_window cfg mid s \<Longrightarrow> submits_in_window cfg mid (feed post_runner_ops (post_config cfg mid) adv s)"
  by (auto simp: submits_in_window_def feed_def start_if_def submit_if_def post_runner_ops_def runner_start_def runner_submit_def
      isActive_def deadlineIsActive_def couldSubmit_def submit_window_def Let_def split: option.splits)

lemma open_runner_submits: "submits_in_window cfg mid (open_runner post_runner_ops c adv mid maddr ppt dl)"
  by (simp add: submits_in_window_def open_runner_def start_if_def post_runner_ops_def runner_start_def postRunnerConstructor_def Let_def)

lemma history_submits:
  "post_history post_runner_ops runner_moves ca cfg evs p \<Longrightarrow> sched_at (po_schedulers p) mid op = Some s \<Longrightarrow> submits_in_window cfg mid s"
proof (induction arbitrary: mid op s rule: post_history.induct)
  case (head evs p ds rvt adv)
  then show ?case
    using handleHeadChange_at [OF history_ok [OF head.hyps(1)] head.hyps(2), of post_runner_ops ca cfg rvt adv mid op]
    by (auto simp: feed_submits open_runner_submits opened_def split: option.splits if_splits)
next
  case (moves evs p mid' op' s' r)
  have "pr_submitted r = pr_submitted (sd_runner s')" using moves.hyps(3) by (auto simp: runner_moves_def add_proof_def)
  with moves.IH [OF moves.hyps(2)] have "submits_in_window cfg mid' (s'\<lparr>sd_runner := r\<rparr>)"
    by (simp add: submits_in_window_def split: option.splits)
  with moves show ?case by (auto simp: move_runner_def sched_at_put split: if_splits)
qed (simp add: sched_at_def scheds_of_def)

text \<open>The life of one runner, and the proofs it has made.\<close>

datatype 'b runner_event = Start miner_post_config ts | BatchDone "'b post_params" | Submit miner_post_config ts | Abort

fun runner_step :: "'b runner_event \<Rightarrow> 'b runner \<Rightarrow> 'b runner" where
  "runner_step (Start c t) r = runner_start c t r"
| "runner_step (BatchDone params) r = add_proof params r"
| "runner_step (Submit c t) r = runner_submit c t r"
| "runner_step Abort r = runner_abort r"

definition runner_proofs :: "'b runner \<Rightarrow> 'b post_params list" where
  "runner_proofs r = concat (map fst (pr_submitted r)) @ (case pr_proofs r of None \<Rightarrow> [] | Some ps \<Rightarrow> ps)"

fun proofs_made :: "'b runner_event list \<Rightarrow> 'b post_params list" where
  "proofs_made [] = []"
| "proofs_made (BatchDone params # evs) = params # proofs_made evs"
| "proofs_made (_ # evs) = proofs_made evs"

lemma runner_proofs_run: "runner_proofs (fold runner_step evs r) = runner_proofs r @ proofs_made evs"
proof (induction evs arbitrary: r)
  case (Cons e evs)
  have "runner_proofs (runner_step e r) = runner_proofs r @ proofs_made [e]"
    by (cases e) (auto simp: runner_proofs_def runner_start_def runner_submit_def runner_abort_def add_proof_def split: option.split)
  with Cons show ?case by (cases e) simp_all
qed simp

section \<open>Properties\<close>

text \<open>C13. A notification whose new head is in the window of a deadline of an enabled miner leaves a started runner for that deadline, whatever happened
  before, when the miner's information can be had and a runner that is already there, made at an earlier head, is for the same window (the same challenge
  and close epochs) and is not dropped because the revert goes below its challenge.\<close>

theorem window_is_started:
  assumes "post_history post_runner_ops runner_moves (pt_miners pc) cfg evs p"
    and "head_of cs = (rvt, Some adv)" "mid \<in> set (getEnabledMiners pc cfg)" "fetch_deadline pc adv mid = Inr dls" "map_of dls op = Some dl"
    and "runner_params (pt_miners pc) cfg (po_cache p) mid = Some (maddr, pcfg, ppt)" "snd adv \<in> start_window pcfg dl"
    and "\<forall>s. sched_at (po_schedulers p) mid op = Some s \<longrightarrow> same_window (sd_dl s) dl \<and> \<not> shouldAbort s (map_option snd rvt) (snd adv)"
  shows "\<exists>s. sched_at (po_schedulers (snd (poster_notified post_runner_ops pc cfg cs p))) mid op = Some s \<and> pr_startCtx (sd_runner s) \<noteq> None"
proof -
  let ?ds = "fetchMinerProvingDeadlineInfos pc adv (getEnabledMiners pc cfg)"
  have "map_of ?ds mid = Some dls" using assms(3,4) by (simp add: fetch_infos_at)
  from pru.head_change_starts [OF history_ok [OF assms(1)] fetch_infos_ok this assms(5-8)]
  show ?thesis by (auto simp: pru.started_at_def poster_notified_head [OF assms(2-4)] split: bind_splits)
qed

text \<open>C4. Whatever the chain notifies and whenever batches end: a runner that is scheduled was started, if at all, within the window of its deadline and the
  confidence the configuration asks for, and all it has submitted was submitted within the window for submissions.\<close>

theorem runner_keeps_to_its_window:
  assumes "post_history post_runner_ops runner_moves ca cfg evs p" "sched_at (po_schedulers p) mid op = Some s"
  shows "dl_Open (sd_dl s) = op \<and>
    (\<forall>c t. pr_startCtx (sd_runner s) = Some (c, t) \<longrightarrow> snd t \<in> start_window c (sd_dl s)) \<and>
    (\<forall>(ps, t) \<in> set (pr_submitted (sd_runner s)). case post_config cfg mid of None \<Rightarrow> False | Some c \<Rightarrow> snd t \<in> submit_window c (sd_dl s))"
proof (intro conjI allI impI)
  have "(op, s) \<in> set (scheds_of (po_schedulers p) mid)" using assms(2) by (simp add: sched_at_def map_of_SomeD)
  then show "dl_Open (sd_dl s) = op" using scheds_okD [OF history_ok [OF assms(1)], of mid] by auto
  show "snd t \<in> start_window c (sd_dl s)" if "pr_startCtx (sd_runner s) = Some (c, t)" for c t
    using pru.history_starts_in_window [OF assms(1)] assms(2) that unfolding pru.starts_in_window_def by blast
qed (use history_submits [OF assms] in \<open>simp add: submits_in_window_def\<close>)

text \<open>C14. The batches of a deadline are its partitions in order: every partition is in exactly one batch and is proved under its own index, no
  batch is empty, and none is larger than the chain's limits and the configured one allow.\<close>

theorem every_partition_in_one_batch:
  assumes "generatePoSt env r = Inr (rnd, ws)"
  shows "\<exists>partitions nv perMsg. rv_MinerPartitions env (pr_maddr r) (dl_Index (pr_dinfo r)) (tsk_of r) = Inr partitions \<and>
    rv_MaxPoStPartitions env nv (pr_proofType r) = Inr perMsg \<and>
    at_index ws = map (\<lambda>(i, p). (of_nat i, p)) (List.enumerate 0 partitions) \<and>
    (\<forall>(s, b) \<in> set ws. b \<noteq> [] \<and> int (length b) \<le> perMsg \<and> int (length b) \<le> rv_DeclarationsMax env \<and>
       (sint (mp_MaxPartitionsPerPoStMessage (pcfg_of r)) > 0 \<longrightarrow> int (length b) \<le> sint (mp_MaxPartitionsPerPoStMessage (pcfg_of r))))"
proof -
  from assms obtain partitions nv bs where p: "rv_MinerPartitions env (pr_maddr r) (dl_Index (pr_dinfo r)) (tsk_of r) = Inr partitions"
      "batchPartitions env r partitions nv = Inr bs" "ws = batch_starts 0 bs"
    by (auto simp: generatePoSt_def split: sum.splits)
  from batchPartitionsD [OF p(2)] obtain perMsg where b: "rv_MaxPoStPartitions env nv (pr_proofType r) = Inr perMsg" "concat bs = partitions"
      "\<forall>b \<in> set bs. b \<noteq> [] \<and> int (length b) \<le> perMsg \<and> int (length b) \<le> rv_DeclarationsMax env \<and>
       (sint (mp_MaxPartitionsPerPoStMessage (pcfg_of r)) > 0 \<longrightarrow> int (length b) \<le> sint (mp_MaxPartitionsPerPoStMessage (pcfg_of r)))" by blast
  show ?thesis
  proof (intro exI conjI)
    show "at_index ws = map (\<lambda>(i, p). (of_nat i, p)) (List.enumerate 0 partitions)" by (simp add: p(3) at_index_batch_starts b(2))
    show "\<forall>(s, b) \<in> set ws. b \<noteq> [] \<and> int (length b) \<le> perMsg \<and> int (length b) \<le> rv_DeclarationsMax env \<and>
       (sint (mp_MaxPartitionsPerPoStMessage (pcfg_of r)) > 0 \<longrightarrow> int (length b) \<le> sint (mp_MaxPartitionsPerPoStMessage (pcfg_of r)))"
      using b(3) by (auto simp: p(3) dest!: batch_starts_snd)
  qed (fact p(1), fact b(1))
qed

text \<open>Over any life of a runner, the proofs taken for submission followed by those still waiting are the proofs its batches made, in order: no proof is
  lost, and none is submitted twice.\<close>

theorem proofs_submitted_once:
  "concat (map fst (pr_submitted (fold runner_step evs (postRunnerConstructor mid maddr ppt dl)))) @
     (case pr_proofs (fold runner_step evs (postRunnerConstructor mid maddr ppt dl)) of None \<Rightarrow> [] | Some ps \<Rightarrow> ps) = proofs_made evs"
  using runner_proofs_run [of evs "postRunnerConstructor mid maddr ppt dl"] by (simp add: runner_proofs_def postRunnerConstructor_def)

text \<open>C25. The attempts at a batch come to an end, after at most one more attempt than there are sectors to prove, as long as the chain answers, its randomness
  stays, proofs verify and the prover blames only sectors it was given: every further attempt leaves at least one more sector out.\<close>

theorem batch_ends:
  assumes "\<forall>env \<in> set envs. post_bits_ok (rv_bits env) bits \<and> asked_only env bits \<and> skips_given env \<and> settled env r rnd"
    and "card (\<Union>p \<in> set batch. to_prove bits p) < length envs"
  shows "generatePoStForPartitionBatch envs none rnd s batch (r, st) \<noteq> None"
proof -
  have "card ((\<Union>p \<in> set batch. to_prove bits p) - bits none) \<le> card (\<Union>p \<in> set batch. to_prove bits p)" by (rule card_mono) auto
  with assms have "prove_rounds envs r rnd s batch none st \<noteq> None" by (intro prove_rounds_end) auto
  then show ?thesis by (auto simp: generatePoStForPartitionBatch_def split: sum.splits)
qed

text \<open>C5. A batch that ends with proofs ends with verified ones: the verifier accepted them for the challenge randomness of the head of that moment, which was
  still the one they were made for, every sector they speak of is a live sector that has to be proved and passed the provability check, and what the message
  says is skipped belongs to the partition it names.\<close>

theorem accepted_proof_is_sound:
  assumes "\<forall>env \<in> set envs. post_bits_ok (rv_bits env) bits \<and> asked_only env bits"
    and "generatePoStForPartitionBatch envs none rnd s batch (r, st) = Some (Inr (), add_proof params r, st')" "sw_Proofs params \<noteq> []"
  shows "\<exists>env xs headTs cr. env \<in> set envs \<and> rv_ChainHead env = Inr headTs \<and>
    GetWindowPoStChanlleengeRand (rv_rand env) headTs (dl_Challenge (pr_dinfo r)) (pr_mid r) = Inr cr \<and> pr_Rand cr = rnd \<and>
    rv_Verify env \<lparr>vi_Randomness = rnd, vi_Proofs = sw_Proofs params, vi_Sectors = sector_infos xs, vi_Prover = pr_mid r\<rparr> = Inr True \<and>
    (\<forall>x \<in> set xs. xs_SectorNumber x \<in> (\<Union>p \<in> set batch. to_prove bits p) \<and> checked_ok env r (xs_SectorNumber x)) \<and>
    sw_Partitions params \<noteq> [] \<and>
    (\<forall>q \<in> set (sw_Partitions params). \<exists>j < length batch. pp_Index q = s + of_nat j \<and> bits (pp_Skipped q) \<subseteq> to_prove bits (batch ! j))"
proof -
  from assms(2) obtain q where "prove_rounds envs r rnd s batch none st = Some (Inr q, st')" "add_proof params r = add_proof (batch_result r q) r"
    by (auto simp: generatePoStForPartitionBatch_def split: option.splits sum.splits prod.splits)
  then have q: "prove_rounds envs r rnd s batch none st = Some (Inr (sw_Partitions params, sw_Proofs params), st')"
    by (cases q) (auto dest!: add_proof_inj simp: batch_result_def)
  from prove_rounds_verified [OF q assms(3)] obtain env xs sk st0 st1 where v: "env \<in> set envs"
      "collect_partitions env r sk s 0 batch st0 = (Inr (xs, sw_Partitions params), st1)"
      "prove_sectors env r rnd xs (sw_Partitions params) = Proved (sw_Partitions params) (sw_Proofs params)" by blast
  from v(1) assms(1) have env: "post_bits_ok (rv_bits env) bits" "asked_only env bits" by auto
  from v(3) have "xs \<noteq> []" by (auto simp: prove_sectors_def)
  with collect_partitionsD [OF env v(2)] have c: "xs_SectorNumber ` set xs \<subseteq> (\<Union>p \<in> set batch. to_prove bits p)" "sw_Partitions params \<noteq> []"
      "\<forall>x \<in> set xs. checked_ok env r (xs_SectorNumber x)"
      "\<forall>q \<in> set (sw_Partitions params). \<exists>j < length batch. pp_Index q = s + of_nat j \<and> bits (pp_Skipped q) \<subseteq> to_prove bits (batch ! j)"
    by (fastforce+)
  from proved_verified [OF v(3)] v(1) c show ?thesis by blast
qed

text \<open>C24. The recoveries declared for a deadline: partitions in order and each at most once, of each only sectors that are faulty and not yet
  recovering, never more sectors in all than the configured limit, and never more partitions in a message than configured.\<close>

theorem recoveries_within_limits:
  fixes env :: "'b post_env"
  assumes "post_bits_ok (rv_bits env) bits" "asked_only env bits" "checkRecoveries env r d partitions (st, sent) = (Inr (), st1, sent1)"
  shows "\<exists>ms js. sent1 = fold (handleRecoverMessage env r) ms sent \<and> sorted_wrt (<) js \<and> list_all2 (recovers bits d partitions) js (concat ms) \<and>
    (0 < mp_MaxRecoverSectorLimit (pcfg_of r) \<longrightarrow> (\<Sum>x\<leftarrow>concat ms. card (bits (dc_Sectors x))) \<le> unat (mp_MaxRecoverSectorLimit (pcfg_of r))) \<and>
    (0 < mp_MaxPartitionsPerRecoveryMessage (pcfg_of r) \<longrightarrow> (\<forall>m \<in> set ms. length m \<le> unat (mp_MaxPartitionsPerRecoveryMessage (pcfg_of r))))"
proof -
  from assms(3) obtain ms where ms: "recover_loop env r d 0 0 [] (List.drop 0 partitions) st = (Inr ms, st1)" "sent1 = fold (handleRecoverMessage env r) ms sent"
    by (auto simp: checkRecoveries_def split: prod.splits sum.splits)
  have "0 < mp_MaxPartitionsPerRecoveryMessage (pcfg_of r) \<longrightarrow> length ([] :: 'b sectors_decl list) < unat (mp_MaxPartitionsPerRecoveryMessage (pcfg_of r))"
    by (simp add: word_less_nat_alt)
  from recover_loopD [OF assms(1,2) ms(1) impI this] ms(2) show ?thesis by (intro exI [of _ ms]) auto
qed

section \<open>Instances\<close>

definition demo_post_bits :: "u64 list post_bits" where
  "demo_post_bits = \<lparr>bf_New = [], bf_Set = (#), bf_Unset = removeAll, bf_IsSet = (\<lambda>n b. Inr (n \<in> set b)),
     bf_Count = (\<lambda>b. if length (remdups b) < 2 ^ 64 then Inr (of_nat (length (remdups b))) else Inl (Ext ''too many'')),
     bf_All = (\<lambda>_ b. Inr (remdups b)), bf_Merge = (\<lambda>a b. Inr (a @ b)),
     pb_Subtract = (\<lambda>a b. Inr (filter (\<lambda>n. n \<notin> set b) a)), pb_NewFromSet = (\<lambda>ns. ns), pb_ForEach = (\<lambda>b. Inr (sort (remdups b)))\<rparr>"

lemma demo_post_bits_ok: "post_bits_ok demo_post_bits set"
  by (auto simp: post_bits_ok_def demo_post_bits_def unat_of_nat length_remdups_card_conv split: if_splits)

definition demo_post_rand :: rand_api where
  "demo_post_rand = \<lparr>ra_NewIDAddress = (\<lambda>i. Inr (IDAddress i)), ra_MarshalCBOR = (\<lambda>_. Inr [0]), ra_ChainHead = Inr [9],
     ra_FromTickets = (\<lambda>_ _ _ _. Inr [4]), ra_FromBeacon = (\<lambda>_ _ _ _. Inr [5])\<rparr>"

text \<open>The chain knows sector 7, which can be proved. The prover proves what it is given.\<close>

definition demo_post_env :: "u64 list post_env" where
  "demo_post_env = \<lparr>rv_bits = demo_post_bits,
     rv_MinerSectors = (\<lambda>_ b _. Inr (if 7 \<in> set b then [\<lparr>on_SectorNumber = 7, on_SealedCID = ''r'', on_SealProof = 5, on_SectorKeyCID = None\<rparr>] else [])),
     rv_MinerPartitions = (\<lambda>_ _ _. Inr [\<lparr>pa_All = [7, 8], pa_Faulty = [8], pa_Recovering = [], pa_Live = [7, 8]\<rparr>]),
     rv_NetworkVersion = (\<lambda>_. Inr 20), rv_ToV1_1PostProof = (\<lambda>p. Inr 1), rv_WindowPoStProof = (\<lambda>_ _. Inr 1), rv_MaxPoStPartitions = (\<lambda>_ _. Inr 4),
     rv_DeclarationsMax = 3000, rv_rand = demo_post_rand, rv_ChainHead = Inr [9], rv_proving = demo_proving_env,
     rv_challenges = (\<lambda>_ _. 3), rv_late = (\<lambda>_ _. False), rv_Generate = (\<lambda>_. ([[1]], [], None)), rv_Verify = (\<lambda>_. Inr True), rv_ctx = None,
     rv_UpgradeIgnitionHeight = 0, rv_Serialize = (\<lambda>_. Inr []), rv_select = (\<lambda>_ _. Inr (IDAddress 30)), rv_lo = demo_lo, rv_MsgCid = (\<lambda>_. ''m''),
     rv_messager = demo_messager, rv_WaitMessage = (\<lambda>_ _. Inr (Some (Some 0)))\<rparr>"

definition demo_dline :: dline_info where
  "demo_dline = demo_NewInfo 0 1 100 48 2880 60 20 70"

definition demo_post_config :: miner_post_config where
  "demo_post_config = (DefaultMinerPoStConfig Undef False)\<lparr>mp_MaxRecoverSectorLimit := 1, mp_MaxPartitionsPerRecoveryMessage := 1\<rparr>"

definition demo_runner :: "u64 list runner" where
  "demo_runner = (postRunnerConstructor 1000 (IDAddress 1000) 1 demo_dline)\<lparr>pr_startCtx := Some (demo_post_config, [9], 100)\<rparr>"

lemmas demo_runner_defs = demo_runner_def demo_post_config_def demo_dline_def demo_NewInfo_def postRunnerConstructor_def DefaultMinerPoStConfig_def pcfg_of_def
  tsk_of_def tsh_of_def

lemma demo_asked_only: "asked_only demo_post_env set"
  by (auto simp: asked_only_def demo_post_env_def split: if_splits)

lemma demo_checkSectors: "checkSectors demo_post_env demo_runner k [7] demo_proving_state = (Inr [7], demo_proving_state)"
  using demo_Provable
  by (simp add: checkSectors_def demo_post_env_def SectorOnChainInfoToExtended_def demo_extended_def demo_runner_defs good_bits_def demo_post_bits_def)

theorem every_partition_in_one_batch_witness:
  "\<exists>partitions nv perMsg. rv_MinerPartitions demo_post_env (IDAddress 1000) 1 [9] = Inr partitions \<and>
    rv_MaxPoStPartitions demo_post_env nv 1 = Inr perMsg \<and>
    at_index [(0, [\<lparr>pa_All = [7, 8], pa_Faulty = [8], pa_Recovering = [], pa_Live = [7, 8]\<rparr>])] = map (\<lambda>(i, p). (of_nat i, p)) (List.enumerate 0 partitions)"
proof -
  have "generatePoSt demo_post_env demo_runner = Inr ([5], [(0, [\<lparr>pa_All = [7, 8], pa_Faulty = [8], pa_Recovering = [], pa_Live = [7, 8]\<rparr>])])"
    by (simp add: generatePoSt_def GetWindowPoStChanlleengeRand_def getRandomnessEntropy_def head_if_empty_def batchPartitions_def chunks.simps Let_def
        demo_post_rand_def demo_post_env_def demo_runner_defs)
  from every_partition_in_one_batch [OF this] show ?thesis by (fastforce simp: demo_runner_defs)
qed

definition demo_partition :: "u64 list partition" where
  "demo_partition = \<lparr>pa_All = [7, 8], pa_Faulty = [8], pa_Recovering = [], pa_Live = [7, 8]\<rparr>"

lemma demo_to_prove: "to_prove set demo_partition = {7}"
  by (auto simp: to_prove_def demo_partition_def)

lemma demo_rand: "GetWindowPoStChanlleengeRand demo_post_rand tsk ep mid = Inr \<lparr>pr_Epoch = ep, pr_Rand = [5]\<rparr>"
  by (simp add: GetWindowPoStChanlleengeRand_def getRandomnessEntropy_def head_if_empty_def demo_post_rand_def)

theorem batch_ends_witness:
  "generatePoStForPartitionBatch [demo_post_env, demo_post_env] [] [5] 0 [demo_partition] (demo_runner, demo_proving_state) \<noteq> None"
proof (rule batch_ends [of _ set])
  have "settled demo_post_env demo_runner [5]" by (simp add: settled_def demo_post_env_def demo_rand)
  moreover have "skips_given demo_post_env" by (simp add: skips_given_def demo_post_env_def)
  moreover have "post_bits_ok (rv_bits demo_post_env) set" by (simp add: demo_post_bits_ok demo_post_env_def)
  ultimately show "\<forall>env \<in> set [demo_post_env, demo_post_env]. post_bits_ok (rv_bits env) set \<and> asked_only env set \<and> skips_given env \<and>
      settled env demo_runner [5]" using demo_asked_only by simp
qed (simp add: demo_to_prove)

definition demo_proved :: "u64 list post_params" where
  "demo_proved = \<lparr>sw_Deadline = 1, sw_Partitions = [\<lparr>pp_Index = 0, pp_Skipped = []\<rparr>], sw_Proofs = [[1]], sw_ChainCommitEpoch = 0, sw_ChainCommitRand = []\<rparr>"

lemma demo_collect: "collect_partitions demo_post_env demo_runner [] 0 0 [demo_partition] demo_proving_state =
    (Inr ([demo_extended, demo_extended], [\<lparr>pp_Index = 0, pp_Skipped = []\<rparr>]), demo_proving_state)"
proof -
  have "rv_bits demo_post_env = demo_post_bits" by (simp add: demo_post_env_def)
  moreover have "sectorsForProof demo_post_env demo_runner [7] [7, 8] = Inr [demo_extended, demo_extended]"
    by (simp add: sectorsForProof_def demo_post_env_def demo_post_bits_def SectorOnChainInfoToExtended_def demo_extended_def Let_def)
  ultimately show ?thesis by (simp add: demo_checkSectors demo_partition_def) (simp add: demo_post_bits_def demo_checkSectors)
qed

theorem accepted_proof_is_sound_witness:
  "\<exists>xs. rv_Verify demo_post_env \<lparr>vi_Randomness = [5], vi_Proofs = [[1]], vi_Sectors = sector_infos xs, vi_Prover = 1000\<rparr> = Inr True \<and>
    (\<forall>x \<in> set xs. xs_SectorNumber x = 7 \<and> checked_ok demo_post_env demo_runner (xs_SectorNumber x))"
proof -
  have "prove_sectors demo_post_env demo_runner [5] [demo_extended, demo_extended] [\<lparr>pp_Index = 0, pp_Skipped = []\<rparr>] =
      Proved [\<lparr>pp_Index = 0, pp_Skipped = []\<rparr>] [[1]]"
    by (simp add: prove_sectors_def accept_proof_def demo_post_env_def demo_rand)
  then have "generatePoStForPartitionBatch [demo_post_env] [] [5] 0 [demo_partition] (demo_runner, demo_proving_state) =
      Some (Inr (), add_proof demo_proved demo_runner, demo_proving_state)"
    by (simp add: generatePoStForPartitionBatch_def proveAttempt_def demo_collect batch_result_def demo_proved_def del: collect_partitions.simps)
      (simp add: demo_runner_defs)
  from accepted_proof_is_sound [OF _ this, of set]
  have "\<exists>xs. rv_Verify demo_post_env \<lparr>vi_Randomness = [5], vi_Proofs = [[1]], vi_Sectors = sector_infos xs, vi_Prover = pr_mid demo_runner\<rparr> = Inr True \<and>
      (\<forall>x \<in> set xs. xs_SectorNumber x \<in> (\<Union>p \<in> set [demo_partition]. to_prove set p) \<and> checked_ok demo_post_env demo_runner (xs_SectorNumber x))"
    using demo_asked_only demo_post_bits_ok by (auto simp: demo_proved_def demo_post_env_def)
  then show ?thesis by (simp add: demo_to_prove) (simp add: demo_runner_defs)
qed

theorem recoveries_within_limits_witness:
  "\<exists>ms js. [(''m-1-60'', message_of (IDAddress 1000) (IDAddress 30) 0 DeclareFaultsRecovered defaultFeeConfig [], GetSendSpec defaultFeeConfig)] =
     fold (handleRecoverMessage demo_post_env demo_runner) ms [] \<and>
    list_all2 (recovers set 3 [demo_partition\<lparr>pa_Faulty := [7]\<rparr>]) js (concat ms) \<and> (\<Sum>x\<leftarrow>concat ms. card (set (dc_Sectors x))) \<le> 1 \<and>
    (\<forall>m \<in> set ms. length m \<le> 1)"
proof -
  have b: "rv_bits demo_post_env = demo_post_bits" "dec64 1 = ''1''" "dec_int 60 = ''60''" by (simp add: demo_post_env_def) code_simp+
  have "recover_partition demo_post_env demo_runner 0 0 (demo_partition\<lparr>pa_Faulty := [7]\<rparr>) demo_proving_state = (Inr (Declare [7] 1), demo_proving_state)"
    by (simp add: recover_partition_def b demo_partition_def Let_def)
      (simp add: demo_post_bits_def demo_checkSectors b Let_def, simp add: trim_recovered_def demo_runner_defs)
  then have "checkRecoveries demo_post_env demo_runner 3 [demo_partition\<lparr>pa_Faulty := [7]\<rparr>] (demo_proving_state, []) = (Inr (), demo_proving_state,
      [(''m-1-60'', message_of (IDAddress 1000) (IDAddress 30) 0 DeclareFaultsRecovered defaultFeeConfig [], GetSendSpec defaultFeeConfig)])"
    by (simp add: checkRecoveries_def handleRecoverMessage_def publishMessage_def Let_def)
      (simp add: demo_runner_defs demo_post_env_def demo_messager_def b Let_def)
  from recoveries_within_limits [OF _ demo_asked_only this] demo_post_bits_ok b(1) show ?thesis
    by (fastforce simp: demo_runner_defs)
qed

definition demo_post_chain :: post_chain where
  "demo_post_chain = \<lparr>pt_miners = demo_chain, pt_ProvingDeadline = (\<lambda>_ _. Inr demo_dline), pt_NewInfo = demo_NewInfo,
     pt_select = (\<lambda>_ _. Inr (IDAddress 30)), pt_lo = demo_lo, pt_NilTipSet = Inl (Ext ''nil'')\<rparr>"

definition demo_poster :: "u64 list runner poster" where
  "demo_poster = \<lparr>po_schedulers = [], po_cache = Map.empty, po_aborted = []\<rparr>"

lemma demo_post_history: "post_history post_runner_ops runner_moves demo_chain demo_cfg [] demo_poster"
  unfolding demo_poster_def by (rule begins)

lemma demo_runner_params: "runner_params demo_chain demo_cfg Map.empty 1000 = Some (IDAddress 1000, DefaultMinerPoStConfig Undef False, 0)"
  by (simp add: runner_params_def post_config_def GetInfo_def fetch_info_def demo_chain_def demo_cfg_def DefaultMinerConfig_def Let_def)

text \<open>The miner's runner is made at epoch 45, before the challenge is confirmed; the head at epoch 70 starts it.\<close>

definition demo_early :: dline_info where
  "demo_early = demo_dline\<lparr>dl_CurrentEpoch := 45\<rparr>"

definition demo_waiting :: "u64 list runner poster" where
  "demo_waiting = post_event_step post_runner_ops demo_chain demo_cfg (HeadChanged None ([7], 45) [(1000, [(60, demo_early)])]) demo_poster"

lemma demo_early_infos: "dinfos_ok [(1000, [(60, demo_early)])]"
  by (simp add: dinfos_ok_def demo_early_def demo_dline_def demo_NewInfo_def)

lemma demo_waiting_at: "sched_at (po_schedulers demo_waiting) 1000 60 =
    Some \<lparr>sd_dl = demo_early, sd_runner = postRunnerConstructor 1000 (IDAddress 1000) 0 demo_early\<rparr>"
  using handleHeadChange_at [OF history_ok [OF demo_post_history] demo_early_infos, of post_runner_ops demo_chain demo_cfg None "([7], 45)" 1000 60] demo_runner_params
  by (simp add: demo_waiting_def demo_poster_def sched_at_def [of "[]"] scheds_of_def opened_def open_runner_def start_if_def isActive_def deadlineIsActive_def
      shouldStart_def post_runner_ops_def Let_def)
    (simp add: demo_early_def demo_dline_def demo_NewInfo_def DefaultMinerPoStConfig_def DefaultChallengeConfidence_def)

lemma demo_cfg_post: "post_config demo_cfg 1000 = Some (DefaultMinerPoStConfig Undef False)"
  by (simp add: post_config_def demo_cfg_def DefaultMinerConfig_def)

lemma demo_waiting_cache: "po_cache demo_waiting 1000 =
    Some \<lparr>min_ID = 1000, min_Addr = IDAddress 1000, min_SectorSize = 2048, min_WindowPoStProofType = 0, min_SealProofType = 5\<rparr>"
  by (simp add: demo_waiting_def handleHeadChange_def demo_poster_def unopened_def cleanup_def open_miner_def demo_cfg_post GetInfo_def fetch_info_def
      demo_chain_def Let_def scheds_of_def)

theorem window_is_started_witness:
  "\<exists>s. sched_at (po_schedulers (snd (poster_notified post_runner_ops demo_post_chain demo_cfg [\<lparr>hc_Type = HCCurrent, hc_Val = Some ([9], 70)\<rparr>] demo_waiting)))
    1000 60 = Some s \<and> pr_startCtx (sd_runner s) \<noteq> None"
proof (rule window_is_started [where rvt = None and adv = "([9], 70)" and dls = "[(60, demo_dline)]"])
  show "post_history post_runner_ops runner_moves (pt_miners demo_post_chain) demo_cfg ([] @ [HeadChanged None ([7], 45) [(1000, [(60, demo_early)])]]) demo_waiting"
    using head [OF demo_post_history demo_early_infos] by (simp add: demo_waiting_def demo_post_chain_def)
  show "head_of [\<lparr>hc_Type = HCCurrent, hc_Val = Some ([9], 70)\<rparr>] = (None, Some ([9], 70))" by (simp add: head_of_def)
  show "1000 \<in> set (getEnabledMiners demo_post_chain demo_cfg)"
    by (simp add: getEnabledMiners_def demo_post_chain_def demo_cfg_def DefaultMinerConfig_def DefaultMinerPoStConfig_def)
  show "fetch_deadline demo_post_chain ([9], 70) 1000 = Inr [(60, demo_dline)]"
    by (simp add: fetch_deadline_def demo_post_chain_def demo_chain_def nextDeadline_def deadlineIsActive_def demo_dline_def demo_NewInfo_def Let_def)
  show "runner_params (pt_miners demo_post_chain) demo_cfg (po_cache demo_waiting) 1000 = Some (IDAddress 1000, DefaultMinerPoStConfig Undef False, 0)"
    by (simp add: runner_params_def post_config_def GetInfo_def fetch_info_def demo_post_chain_def demo_chain_def demo_cfg_def DefaultMinerConfig_def Let_def
        demo_waiting_cache)
  show "snd ([9], 70) \<in> start_window (DefaultMinerPoStConfig Undef False) demo_dline"
    by (simp add: start_window_def DefaultMinerPoStConfig_def DefaultChallengeConfidence_def demo_dline_def demo_NewInfo_def)
  show "\<forall>s. sched_at (po_schedulers demo_waiting) 1000 60 = Some s \<longrightarrow>
      same_window (sd_dl s) demo_dline \<and> \<not> shouldAbort s (map_option snd None) (snd ([9], 70))"
    unfolding demo_waiting_at by (simp add: same_window_def shouldAbort_def demo_early_def) (simp add: demo_dline_def demo_NewInfo_def)
qed simp

text \<open>A head at the challenge epoch and ten more, a batch that ends, and a head at which its proof is handed out.\<close>

definition demo_events :: "u64 list runner post_event list" where
  "demo_events = [HeadChanged None ([9], 50) [(1000, [(60, demo_dline)])],
     RunnerMoved 1000 60 (add_proof demo_proved ((postRunnerConstructor 1000 (IDAddress 1000) 0 demo_dline)\<lparr>pr_startCtx := Some (DefaultMinerPoStConfig Undef False, [9], 50)\<rparr>)),
     HeadChanged None ([8], 64) [(1000, [(60, demo_dline)])]]"

definition demo_scheduled :: "u64 list runner scheduler" where
  "demo_scheduled = \<lparr>sd_dl = demo_dline, sd_runner = (postRunnerConstructor 1000 (IDAddress 1000) 0 demo_dline)\<lparr>
     pr_startCtx := Some (DefaultMinerPoStConfig Undef False, [9], 50), pr_submitted := [([demo_proved], [8], 64)]\<rparr>\<rparr>"

lemma demo_dinfos: "dinfos_ok [(1000, [(60, demo_dline)])]"
  by (simp add: dinfos_ok_def demo_dline_def demo_NewInfo_def)

theorem runner_keeps_to_its_window_witness:
  "50 \<in> start_window (DefaultMinerPoStConfig Undef False) demo_dline \<and> 64 \<in> submit_window (DefaultMinerPoStConfig Undef False) demo_dline"
proof -
  let ?p1 = "post_event_step post_runner_ops demo_chain demo_cfg (demo_events ! 0) demo_poster"
  let ?r = "add_proof demo_proved ((postRunnerConstructor 1000 (IDAddress 1000) 0 demo_dline)\<lparr>pr_startCtx := Some (DefaultMinerPoStConfig Undef False, [9], 50)\<rparr>)"
  let ?s1 = "\<lparr>sd_dl = demo_dline, sd_runner = (postRunnerConstructor 1000 (IDAddress 1000) 0 demo_dline)\<lparr>pr_startCtx := Some (DefaultMinerPoStConfig Undef False, [9], 50)\<rparr>\<rparr>"
  let ?p2 = "post_event_step post_runner_ops demo_chain demo_cfg (RunnerMoved 1000 60 ?r) ?p1"
  let ?p3 = "post_event_step post_runner_ops demo_chain demo_cfg (demo_events ! 2) ?p2"
  have h1: "post_history post_runner_ops runner_moves demo_chain demo_cfg ([] @ [demo_events ! 0]) ?p1"
    unfolding demo_events_def nth_Cons_0 by (rule head [OF demo_post_history demo_dinfos])
  have at1: "sched_at (po_schedulers ?p1) 1000 60 = Some ?s1"
    using handleHeadChange_at [OF history_ok [OF demo_post_history] demo_dinfos, of post_runner_ops demo_chain demo_cfg None "([9], 50)" 1000 60] demo_runner_params
    by (simp add: demo_events_def demo_poster_def sched_at_def [of "[]"] scheds_of_def opened_def open_runner_def start_if_def isActive_def deadlineIsActive_def
        shouldStart_def post_runner_ops_def runner_start_def Let_def)
      (simp add: demo_dline_def demo_NewInfo_def DefaultMinerPoStConfig_def DefaultChallengeConfidence_def postRunnerConstructor_def)
  have mv: "runner_moves (sd_runner ?s1) ?r" by (auto simp: runner_moves_def)
  note h2 = moves [OF h1 at1 mv]
  have at2: "sched_at (po_schedulers ?p2) 1000 60 = Some (?s1\<lparr>sd_runner := ?r\<rparr>)" using at1 by (simp add: move_runner_def sched_at_put)
  have h3: "post_history post_runner_ops runner_moves demo_chain demo_cfg ((([] @ [demo_events ! 0]) @ [RunnerMoved 1000 60 ?r]) @ [demo_events ! 2]) ?p3"
    unfolding demo_events_def numeral_2_eq_2 nth_Cons_Suc nth_Cons_0 by (rule head [OF h2 [unfolded demo_events_def nth_Cons_0] demo_dinfos])
  have at3: "sched_at (po_schedulers ?p3) 1000 60 = Some demo_scheduled"
    using handleHeadChange_at [OF history_ok [OF h2] demo_dinfos, of post_runner_ops demo_chain demo_cfg None "([8], 64)" 1000 60] at2
    by (simp add: demo_events_def demo_cfg_post shouldAbort_def feed_def isActive_def deadlineIsActive_def shouldStart_def couldSubmit_def start_if_def
        submit_if_def post_runner_ops_def runner_start_def runner_submit_def add_proof_def demo_scheduled_def Let_def)
      (simp add: demo_dline_def demo_NewInfo_def DefaultMinerPoStConfig_def DefaultChallengeConfidence_def DefaultSubmitConfidence_def postRunnerConstructor_def)
  from runner_keeps_to_its_window [OF h3 at3] show ?thesis by (simp add: demo_scheduled_def demo_cfg_post)
qed

end
