(* ===== verification/Sealer_CLI.thy ===== *)
theory Sealer_CLI
  imports Sealer PoSt_Runner
begin

text \<open>
  The operator's side of the sealer (\<open>modules/sealer/sealer_cli.go\<close>): listing and searching sectors, moving them between the stores by hand,
  removing their files, setting them up for a rebuild, requesting an unsealed piece. The handlers work on the state of \<open>Sealer\<close>. The chain node,
  the file system and the parsing of destinations are parameters; the paths that were removed are kept to speak about them. The simulation of a window PoSt
  ends in a line of the log; the reader of the stream of an unsealed piece is taken to stay to its end.
\<close>

section \<open>State and parameters\<close>

record ('b, 'u) cli_env =
  ci_sealer :: "'b sealer_env"
  ci_IDFromAddress :: "address \<Rightarrow> u64 res"
  ci_SectorGetInfo :: "address \<Rightarrow> u64 \<Rightarrow> tipset \<Rightarrow> onchain_sector option res"
  ci_MinerSectors :: "address \<Rightarrow> 'b \<Rightarrow> tipset \<Rightarrow> onchain_sector list res"
  ci_NetworkVersion :: "tipset \<Rightarrow> u64 res"
  ci_WinningPoStSectorSetLookback :: "u64 \<Rightarrow> epoch"
  ci_RemoveAll :: "string \<Rightarrow> unit res"
  ci_Remove :: "string \<Rightarrow> unit res"
  ci_urls :: "'u url_lib"
  ci_defaultDest :: 'u

type_synonym 'b cli_state = "'b sealer_state \<times> (string \<times> bool) list"

section \<open>Listing and searching\<close>

definition ListSectors :: "worker_state \<Rightarrow> worker_job \<Rightarrow> ('b sealer_state, sector_state list) step" where
  "ListSectors ws job = on_smgr (All ws job)"

definition FindSector :: "worker_state \<Rightarrow> sector_id \<Rightarrow> ('b sealer_state, sector_state) step" where
  "FindSector ws sid = on_smgr (Load sid ws)"

fun find_in :: "worker_state list \<Rightarrow> sector_id \<Rightarrow> ('b sealer_state, sector_state) step" where
  "find_in [] sid st = (Inl ErrKeyNotFound, st)"
| "find_in (ws # wss) sid st = (case on_smgr (Load sid ws) st of
     (Inl e, st1) \<Rightarrow> if \<not> errors_is e ErrKeyNotFound then (Inl e, st1) else find_in wss sid st1
   | (Inr s, st1) \<Rightarrow> (Inr s, st1))"

definition FindSectorInAllStates :: "sector_id \<Rightarrow> ('b sealer_state, sector_state) step" where
  "FindSectorInAllStates = find_in [WorkerOnline, WorkerOffline]"

definition on_foreach :: "worker_state \<Rightarrow> (sector_state \<Rightarrow> ('e, unit) step) \<Rightarrow> 'e \<Rightarrow> ('b sealer_state, 'e) step" where
  "on_foreach ws fn e0 st = (case ForEach ws JobAll fn (se_smgr st, e0) of
     (Inl e, sm, _) \<Rightarrow> (Inl (Wrap ''iterate sectors'' e), st\<lparr>se_smgr := sm\<rparr>)
   | (Inr _, sm, e1) \<Rightarrow> (Inr e1, st\<lparr>se_smgr := sm\<rparr>))"

definition FindSectorsWithDeal :: "worker_state \<Rightarrow> u64 \<Rightarrow> ('b sealer_state, sector_state list) step" where
  "FindSectorsWithDeal ws dealID st = (if dealID = 0 then (Inl (Errorf ''empty deal id''), st)
     else on_foreach ws (\<lambda>ss sectors. (Inr (), if list_ex (\<lambda>d. d = dealID) (DealIDs ss) then sectors @ [ss] else sectors)) [] st)"

definition FindSectorWithPiece :: "worker_state \<Rightarrow> cid \<Rightarrow> ('b sealer_state, sector_state option) step" where
  "FindSectorWithPiece ws pieceCid =
     on_foreach ws (\<lambda>ss ret. (Inr (), if list_ex (\<lambda>p. pi_Cid (PieceInfo p) = pieceCid) (SectorPiece ss) then Some ss else ret)) None"

definition ImportSector :: "worker_state \<Rightarrow> sector_state option \<Rightarrow> bool \<Rightarrow> ('b sealer_state, bool) step" where
  "ImportSector ws s override st = (case s of None \<Rightarrow> (Inr False, st) | Some ss \<Rightarrow> on_smgr (Import ws ss override) st)"

definition SectorIndexerFind :: "index_type option \<Rightarrow> sector_id \<Rightarrow> ('b sealer_state, bool \<times> access_stores) step" where
  "SectorIndexerFind indexType sid st = (case indexType of
     None \<Rightarrow> (Inl (Errorf ''sector indexer is not supported''), st)
   | Some t \<Rightarrow> (case index_Find sid (if t = IndexNormal then ix_normal (se_index st) else ix_upgrade (se_index st)) of
       (r, kv) \<Rightarrow> ((case r of Inl e \<Rightarrow> Inl (Wrap ''find in indexer'' e) | Inr (access, found) \<Rightarrow> Inr (found, access)),
         st\<lparr>se_index := (if t = IndexNormal then (se_index st)\<lparr>ix_normal := kv\<rparr> else (se_index st)\<lparr>ix_upgrade := kv\<rparr>)\<rparr>)))"

section \<open>Provability\<close>

definition CheckProvable :: "('b, 'u) cli_env \<Rightarrow> (nat \<Rightarrow> u64) \<Rightarrow> (nat \<Rightarrow> bool) \<Rightarrow> u64 \<Rightarrow> int \<Rightarrow> extended_sector list \<Rightarrow> bool \<Rightarrow> bool \<Rightarrow>
    ('b sealer_state, u64 \<rightharpoonup> err) step" where
  "CheckProvable env rnd late mid postProofType sectors strict stateCheck st =
    (case Provable (ee_proving (ci_sealer env)) rnd late mid postProofType sectors strict stateCheck \<lparr>pg_index = se_index st, pg_smgr = se_smgr st\<rparr> of
       (r, ps) \<Rightarrow> (r, st\<lparr>se_index := pg_index ps, se_smgr := pg_smgr ps\<rparr>))"

definition SimulateWdPoSt :: "('b, 'u) cli_env \<Rightarrow> address \<Rightarrow> unit res" where
  "SimulateWdPoSt env maddr = (case ci_IDFromAddress env maddr of Inl e \<Rightarrow> Inl e | Inr mid \<Rightarrow> Inr ())"

definition ProvingSectorInfo :: "('b, 'u) cli_env \<Rightarrow> sector_id \<Rightarrow> ('b sealer_state, onchain_sector \<times> private_info) step" where
  "ProvingSectorInfo env sid st = (case ee_NewIDAddress (ci_sealer env) (sid_Miner sid) of
     Inl e \<Rightarrow> (Inl (Wrap ''invalid mienr actor id'' e), st)
   | Inr maddr \<Rightarrow> (case ci_SectorGetInfo env maddr (sid_Number sid) [] of
       Inl e \<Rightarrow> (Inl (Wrap ''get sector info'' e), st)
     | Inr None \<Rightarrow> (nil_deref, st)
     | Inr (Some sinfo) \<Rightarrow> (case SinglePubToPrivateInfo (pg_objects (ee_proving (ci_sealer env))) (pg_stores (ee_proving (ci_sealer env)))
           (sid_Miner sid) (SectorOnChainInfoToExtended sinfo) None (se_index st) of
         (Inl e, ix) \<Rightarrow> (Inl (Wrap ''get private sector info'' e), st\<lparr>se_index := ix\<rparr>)
       | (Inr private, ix) \<Rightarrow> (Inr (sinfo, private), st\<lparr>se_index := ix\<rparr>))))"

section \<open>Upgrades and workers\<close>

definition on_exists :: "('b exist_store, 'a) step \<Rightarrow> ('b sealer_state, 'a) step" where
  "on_exists f st = (case f (ns_kv (se_snap st)) of (r, kv) \<Rightarrow> (r, st\<lparr>se_snap := (se_snap st)\<lparr>ns_kv := kv\<rparr>\<rparr>))"

definition SnapUpPreFetch :: "('b, 'u) cli_env \<Rightarrow> u64 \<Rightarrow> u64 option \<Rightarrow> ('b sealer_state, u64 \<times> u64) step" where
  "SnapUpPreFetch env mid dlindex st =
    (case on_exists (PreFetch (ee_bitfields (ci_sealer env)) (ee_snap_chain (ci_sealer env)) (ee_DealMinDuration (ci_sealer env)) mid dlindex) st of
       (Inl e, st1) \<Rightarrow> (Inl (if is_panic e then e else Wrap ''prefetch'' e), st1)
     | (Inr cd, st1) \<Rightarrow> (Inr cd, st1))"

definition SnapUpCandidates :: "u64 \<Rightarrow> ('b sealer_state, 'b option list option) step" where
  "SnapUpCandidates mid = on_exists (Candidates mid)"

definition SnapUpCancelCommitment :: "sector_id \<Rightarrow> ('b sealer_state, unit) step" where
  "SnapUpCancelCommitment sid st = (Inr (), up_out (CancelCommitment sid (up_in st)) st)"

definition on_workers :: "(worker_store, 'a) step \<Rightarrow> ('b sealer_state, 'a) step" where
  "on_workers f st = (case f (se_workers st) of (r, kv) \<Rightarrow> (r, st\<lparr>se_workers := kv\<rparr>))"

definition WorkerGetPingInfo :: "string \<Rightarrow> ('b sealer_state, worker_ping option) step" where
  "WorkerGetPingInfo nm st = (case on_workers (worker_Load nm) st of
     (Inl e, st1) \<Rightarrow> if errors_is e ErrKeyNotFound then (Inr None, st1) else (Inl (Wrap ''load worker info'' e), st1)
   | (Inr w, st1) \<Rightarrow> (Inr (Some w), st1))"

definition WorkerPingInfoList :: "('b sealer_state, worker_ping list) step" where
  "WorkerPingInfoList st = (case on_workers (worker_All None) st of
     (Inl e, st1) \<Rightarrow> (Inl (Wrap ''load all worker infos'' e), st1) | (Inr ws, st1) \<Rightarrow> (Inr ws, st1))"

definition WorkerPingInfoRemove :: "string \<Rightarrow> ('b sealer_state, unit) step" where
  "WorkerPingInfoRemove nm = on_workers (worker_Remove nm)"

section \<open>Stores\<close>

record store_detailed =
  sx_Basic :: store_config
  sx_Type :: string
  sx_Total :: u64
  sx_Free :: u64
  sx_Used :: u64
  sx_Reserved :: u64
  sx_ReservedBy :: "store_reserved list"

text \<open>\<open>storeConfig2StoreBasic\<close> copies the configuration. Strings are compared byte by byte.\<close>

definition reserved_before :: "store_reserved \<Rightarrow> store_reserved \<Rightarrow> bool" where
  "reserved_before a b = (if rv_At a \<noteq> rv_At b then rv_At a < rv_At b else lexordp_eq (map of_char (rv_By a) :: nat list) (map of_char (rv_By b)))"

fun insert_reserved :: "store_reserved \<Rightarrow> store_reserved list \<Rightarrow> store_reserved list" where
  "insert_reserved a [] = [a]"
| "insert_reserved a (b # bs) = (if reserved_before a b then a # b # bs else b # insert_reserved a bs)"

definition sort_reserved :: "store_reserved list \<Rightarrow> store_reserved list" where
  "sort_reserved rs = foldr insert_reserved rs []"

definition detail_of :: "instance_info \<times> reserve_stat \<Rightarrow> store_detailed" where
  "detail_of x = (case x of (ii, rs) \<Rightarrow> \<lparr>sx_Basic = ii_Config ii, sx_Type = ii_Type ii, sx_Total = ii_Total ii, sx_Free = ii_Free ii, sx_Used = ii_Used ii,
     sx_Reserved = rs_ReservedSize rs, sx_ReservedBy = sort_reserved (map snd (rs_Reserved rs))\<rparr>)"

definition StoreList :: "('b, 'u) cli_env \<Rightarrow> ('b sealer_state, store_detailed list) step" where
  "StoreList env st = (case ListInstances (ee_stores (ci_sealer env)) (se_reserve st) of
     (Inl e, kv) \<Rightarrow> (Inl (Wrap ''list instances'' e), st\<lparr>se_reserve := kv\<rparr>)
   | (Inr infos, kv) \<Rightarrow> (Inr (map detail_of infos), st\<lparr>se_reserve := kv\<rparr>))"

definition StoreReleaseReserved :: "sector_id \<Rightarrow> ('b sealer_state, bool) step" where
  "StoreReleaseReserved sid st = (case ReleaseReserved sid (se_reserve st) of
     (Inl e, kv) \<Rightarrow> (Inl (Wrap ''release reserved'' e), st\<lparr>se_reserve := kv\<rparr>)
   | (Inr b, kv) \<Rightarrow> (Inr b, st\<lparr>se_reserve := kv\<rparr>))"

section \<open>Moving and removing\<close>

definition restore_aborted :: "unit hook" where
  "restore_aborted s u = (if length (PieceInfos s) \<noteq> 0 then (Inl (Errorf ''sector with deals can not be normally restored''), u)
     else if ss_AbortReason s = [] then (Inl (Errorf ''sector is not aborted, can not be normally restored''), u)
     else (Inr (True, s\<lparr>ss_AbortReason := []\<rparr>), u))"

definition RestoreSector :: "sector_id \<Rightarrow> bool \<Rightarrow> ('b sealer_state, unit) step" where
  "RestoreSector sid forced st = (case Restore sid (if forced then None else Some restore_aborted) (se_smgr st, ()) of (r, sm, _) \<Rightarrow> (r, st\<lparr>se_smgr := sm\<rparr>))"

definition FinalizeSector :: "('b, 'u) cli_env \<Rightarrow> sector_id \<Rightarrow> ('b sealer_state, unit) step" where
  "FinalizeSector env sid st = (case ee_NewIDAddress (ci_sealer env) (sid_Miner sid) of
     Inl e \<Rightarrow> (Inl (Wrap ''invalid mienr actor id'' e), st)
   | Inr maddr \<Rightarrow> (case ee_head (ci_sealer env) of
       Inl e \<Rightarrow> (Inl (Wrap ''getting chain head'' e), st)
     | Inr (tsk, h) \<Rightarrow> (case ci_SectorGetInfo env maddr (sid_Number sid) tsk of
         Inl e \<Rightarrow> (Inl e, st)
       | Inr None \<Rightarrow> (Inl (Errorf ''sector for miner not found''), st)
       | Inr (Some si) \<Rightarrow> (case Finalize sid (Some (\<lambda>s u. (Inr (True, s), u))) (se_smgr st, ()) of
           (Inl e, sm, _) \<Rightarrow> (Inl (sectorStateErr e), st\<lparr>se_smgr := sm\<rparr>)
         | (Inr _, sm, _) \<Rightarrow> (Inr (), release_reserved sid (st\<lparr>se_smgr := sm\<rparr>))))))"

definition TerminateSector :: "('b, 'u) cli_env \<Rightarrow> sector_id \<Rightarrow> ('b sealer_state, submit_resp) step" where
  "TerminateSector env sid = on_commit (SubmitTerminate (ee_commit (ci_sealer env)) sid)"

definition PollTerminateSectorState :: "sector_id \<Rightarrow> ('b sealer_state, terminate_info) step" where
  "PollTerminateSectorState sid = on_commit (TerminateState sid)"

text \<open>A terminated sector may still be challenged for a while.\<close>

definition removable :: "('b, 'u) cli_env \<Rightarrow> sector_state \<Rightarrow> unit res" where
  "removable env s = (if ti_TerminatedAt (ss_TerminateInfo s) > 0
     then (case ee_head (ci_sealer env) of
         Inl e \<Rightarrow> Inl (Wrap ''getting chain head'' e)
       | Inr (tsk, h) \<Rightarrow> (case ci_NetworkVersion env tsk of
           Inl e \<Rightarrow> Inl (Wrap ''getting network version'' e)
         | Inr nv \<Rightarrow> if h < ti_TerminatedAt (ss_TerminateInfo s) + ci_WinningPoStSectorSetLookback env nv
             then Inl (Errorf ''wait for expiration(+winning lookback?)'') else Inr ()))
     else Inr ())"

definition sector_files :: "('b, 'u) cli_env \<Rightarrow> sector_state \<Rightarrow> access_stores \<Rightarrow> (string \<times> string) res" where
  "sector_files env s access = (let stores = ee_stores (ci_sealer env); ob = pg_objects (ee_proving (ci_sealer env)) in
     case GetInstance stores (ac_SealedFile access) of
       Inl e \<Rightarrow> Inl (Wrap ''get objstore instance for sealed file'' e)
     | Inr sealedFile \<Rightarrow> (case GetInstance stores (ac_CacheDir access) of
         Inl e \<Rightarrow> Inl (Wrap ''get objstore instance for cache dir'' e)
       | Inr cacheDir \<Rightarrow>
           Inr (ob_FullPath ob (st_Instance cacheDir) (SectorPath (if ss_Upgraded s then PathUpdateCache else PathCache) (ss_ID s)),
                ob_FullPath ob (st_Instance sealedFile) (SectorPath (if ss_Upgraded s then PathUpdate else PathSealed) (ss_ID s)))))"

text \<open>The log of removals: each path in the order it was handed to the file system, and whether the removal was reported as done.
  A removal that fails may have removed a part.\<close>

definition remove_files :: "('b, 'u) cli_env \<Rightarrow> string \<times> string \<Rightarrow> ((string \<times> bool) list, unit) step" where
  "remove_files env paths gone = (case ci_RemoveAll env (fst paths) of
     Inl e \<Rightarrow> (Inl (Wrap ''remove cache'' e), gone @ [(fst paths, False)])
   | Inr _ \<Rightarrow> (case ci_Remove env (snd paths) of
       Inl e \<Rightarrow> (Inl (Wrap ''remove sealed file'' e), gone @ [(fst paths, True), (snd paths, False)])
     | Inr _ \<Rightarrow> (Inr (), gone @ [(fst paths, True), (snd paths, True)])))"

definition find_access :: "bool \<Rightarrow> sector_id \<Rightarrow> ('b sealer_state, access_stores) step" where
  "find_access upgraded sid st = (case index_Find sid (if upgraded then ix_upgrade (se_index st) else ix_normal (se_index st)) of
     (r, kv) \<Rightarrow> ((case r of Inl e \<Rightarrow> Inl (Wrap ''find objstore instance'' e)
        | Inr (access, has) \<Rightarrow> if has then Inr access else Inl (Errorf ''object not found'')),
       st\<lparr>se_index := (if upgraded then (se_index st)\<lparr>ix_upgrade := kv\<rparr> else (se_index st)\<lparr>ix_normal := kv\<rparr>)\<rparr>))"

definition remove_located :: "('b, 'u) cli_env \<Rightarrow> sector_id \<Rightarrow> sector_state \<Rightarrow> ('b cli_state, unit) step" where
  "remove_located env sid s x = (case find_access (ss_Upgraded s) sid (fst x) of
     (Inl e, st1) \<Rightarrow> (Inl e, st1, snd x)
   | (Inr access, st1) \<Rightarrow> (case sector_files env s access of
       Inl e \<Rightarrow> (Inl e, st1, snd x)
     | Inr paths \<Rightarrow> (case remove_files env paths (snd x) of
         (Inl e, gone) \<Rightarrow> (Inl e, st1, gone)
       | (Inr _, gone) \<Rightarrow> (case on_smgr (Update (ss_ID s) WorkerOffline [FRemoved True]) st1 of
           (Inl e, st2) \<Rightarrow> (Inl (Wrap ''update sector Removed failed'' e), st2, gone)
         | (Inr _, st2) \<Rightarrow> (Inr (), st2, gone)))))"

definition RemoveSector :: "('b, 'u) cli_env \<Rightarrow> sector_id \<Rightarrow> ('b cli_state, unit) step" where
  "RemoveSector env sid x = (case on_smgr (Load sid WorkerOffline) (fst x) of
     (Inl e, st1) \<Rightarrow> (Inl (Wrap ''load sector state'' e), st1, snd x)
   | (Inr s, st1) \<Rightarrow> if ss_Removed s then (Inr (), st1, snd x)
       else (case removable env s of
           Inl e \<Rightarrow> (Inl e, st1, snd x)
         | Inr _ \<Rightarrow> remove_located env sid s (st1, snd x)))"

section \<open>Rebuilding\<close>

definition pieces_unavailable :: "bool \<Rightarrow> bool \<Rightarrow> sector_state \<Rightarrow> bool" where
  "pieces_unavailable isSnapUp piecesAvailable s = (ss_Imported s \<and> length (DealIDs s) > 0 \<and> \<not> piecesAvailable \<and>
     (\<not> isSnapUp \<or> \<not> (case ss_UpgradedInfo s of None \<Rightarrow> False | Some u \<Rightarrow> length (ui_Proof u) > 0)))"

text \<open>The zero value of the information, which the callback fills.\<close>

definition no_rebuild :: rebuild_info where
  "no_rebuild = \<lparr>rb_Sector = \<lparr>as_ID = \<lparr>sid_Miner = 0, sid_Number = 0\<rparr>, as_ProofType = 0\<rparr>, rb_Ticket = \<lparr>tk_Ticket = [], tk_Epoch = 0\<rparr>, rb_Pieces = [],
     rb_PiecesV2 = [], rb_IsSnapUp = False, rb_UpgradePublic = None\<rparr>"

definition rebuild_of :: "bool \<Rightarrow> ticket \<Rightarrow> sector_state \<Rightarrow> rebuild_info" where
  "rebuild_of isSnapUp t s = \<lparr>rb_Sector = \<lparr>as_ID = ss_ID s, as_ProofType = ss_SectorType s\<rparr>, rb_Ticket = t, rb_Pieces = ss_LegacyPieces s,
     rb_PiecesV2 = ss_Pieces s, rb_IsSnapUp = isSnapUp, rb_UpgradePublic = ss_UpgradePublic s\<rparr>"

definition rebuild_hook :: "bool \<Rightarrow> bool \<Rightarrow> rebuild_info hook" where
  "rebuild_hook isSnapUp piecesAvailable s info = (if pieces_unavailable isSnapUp piecesAvailable s
     then (Inl (Errorf ''sector with unavailable deal pieces''), info)
     else (case ss_Ticket s of
         None \<Rightarrow> (Inl (Errorf ''invalid ticket info''), info)
       | Some t \<Rightarrow> if length (tk_Ticket t) = 0 then (Inl (Errorf ''invalid ticket info''), info)
           else if isSnapUp \<and> ss_UpgradePublic s = None then (Inl (Errorf ''unavailable upgrade public info''), info)
           else (Inr (True, s\<lparr>ss_NeedRebuild := True\<rparr>), rebuild_of isSnapUp t s)))"

definition set_rebuild :: "bool \<Rightarrow> bool \<Rightarrow> sector_id \<Rightarrow> ('b sealer_state, bool) step" where
  "set_rebuild isSnapUp piecesAvailable sid st =
    (case Restore sid (Some (rebuild_hook isSnapUp piecesAvailable)) (se_smgr st, no_rebuild) of
       (Inl e, sm, _) \<Rightarrow> (Inl (Wrap ''restore sector state'' e), st\<lparr>se_smgr := sm\<rparr>)
     | (Inr _, sm, info) \<Rightarrow> (case rebuild_Set sid info (rm_kv (se_rebuild st)) of
         (Inl e, kv) \<Rightarrow> (case Finalize sid (None :: unit hook option) (sm, ()) of
             (_, sm1, _) \<Rightarrow> (Inl (Wrap ''set rebuild info'' e), st\<lparr>se_smgr := sm1, se_rebuild := (se_rebuild st)\<lparr>rm_kv := kv\<rparr>\<rparr>))
       | (Inr _, kv) \<Rightarrow> (Inr True, st\<lparr>se_smgr := sm, se_rebuild := (se_rebuild st)\<lparr>rm_kv := kv\<rparr>\<rparr>)))"

definition SectorSetForRebuild :: "('b, 'u) cli_env \<Rightarrow> sector_id \<Rightarrow> bool \<Rightarrow> ('b sealer_state, bool) step" where
  "SectorSetForRebuild env sid piecesAvailable st = (case MinerConfig (ee_cfg (ci_sealer env)) (sid_Miner sid) of
     Inl e \<Rightarrow> (Inl (Wrap ''miner config unavailable'' e), st)
   | Inr _ \<Rightarrow> (case ee_NewIDAddress (ci_sealer env) (sid_Miner sid) of
       Inl e \<Rightarrow> (Inl (Wrap ''construct miner address'' e), st)
     | Inr maddr \<Rightarrow> (case ci_MinerSectors env maddr (ee_NewFromSet (ci_sealer env) [sid_Number sid]) [] of
         Inl e \<Rightarrow> (Inl (Wrap ''get miner sector info'' e), st)
       | Inr [] \<Rightarrow> (Inl (Errorf ''no available sector info''), st)
       | Inr (s # _) \<Rightarrow> set_rebuild (on_SectorKeyCID s \<noteq> None) piecesAvailable sid st)))"

section \<open>Unsealed pieces\<close>

text \<open>The state \<open>SetAndCheck\<close> reports, also beside an error.\<close>

definition reported_state :: "('b, 'u) cli_env \<Rightarrow> unseal_info \<Rightarrow> unseal_mgr \<Rightarrow> unseal_state" where
  "reported_state env req um = (case us_Dest req of
     [] \<Rightarrow> UnsealStateDefault
   | d # ds \<Rightarrow> (case checkDestURL (ci_urls env) (ci_defaultDest env) d of
       Inl e \<Rightarrow> UnsealStateFailed
     | Inr supplied \<Rightarrow> (let req1 = req\<lparr>us_Dest := supplied # ds\<rparr> in
         case doc_ran ''unseal infos'' unsealInfoKey no_infos (set_and_check (task_key req1) req1 supplied) (um_kv um) of
           Some (Inr ((state, _, _), _)) \<Rightarrow> state | _ \<Rightarrow> UnsealStateDefault)))"

definition unseal_request :: "sector_id \<Rightarrow> cid \<Rightarrow> u64 \<Rightarrow> u64 \<Rightarrow> string \<Rightarrow> unseal_info" where
  "unseal_request sid pieceCid offset sz dest = \<lparr>us_Sector = \<lparr>as_ID = sid, as_ProofType = 0\<rparr>, us_PieceCid = pieceCid, us_Offset = offset, us_Size = sz,
     us_AccessInstance = [], us_Ticket = \<lparr>tk_Ticket = [], tk_Epoch = 0\<rparr>, us_CommD = [], us_Dest = [dest], us_State = UnsealStateDefault, us_ErrorInfo = []\<rparr>"

text \<open>The answer says whether there is a stream. Without a destination the piece goes to the local store and a hook sends it into the stream; with
  one there is no stream, and closing it panics.\<close>

definition UnsealPiece :: "('b, 'u) cli_env \<Rightarrow> nat \<Rightarrow> sector_id \<Rightarrow> cid \<Rightarrow> u64 \<Rightarrow> u64 \<Rightarrow> string \<Rightarrow> ('b sealer_state, bool) step" where
  "UnsealPiece env hook sid pieceCid offset sz dest st =
    (let streaming = (dest = []);
         req = unseal_request sid pieceCid offset sz (if streaming then ''store:///'' @ pieceCid else dest);
         um = (if streaming then OnAchieve sid pieceCid hook (se_unseal st) else se_unseal st) in
     case SetAndCheck (ci_urls env) (ci_defaultDest env) req um of
       (Inl e, um1) \<Rightarrow> if is_panic e then (Inl e, st\<lparr>se_unseal := um1\<rparr>)
         else if reported_state env req um = UnsealStateFinished
           then (if streaming then Inl (Errorf ''unseal task has been done'') else Inl (Panic ''close of nil channel''), st\<lparr>se_unseal := um1\<rparr>)
         else (Inr streaming, st\<lparr>se_unseal := um1\<rparr>)
     | (Inr state, um1) \<Rightarrow> if state = UnsealStateFinished
           then (if streaming then Inl (Errorf ''unseal task has been done'') else Inl (Panic ''close of nil channel''), st\<lparr>se_unseal := um1\<rparr>)
         else (Inr streaming, st\<lparr>se_unseal := um1\<rparr>))"

text \<open>What the hook does when the piece has been unsealed: it sends what it reads from the piece store, an empty chunk after the end of the file, and asks
  for the task once more, which forgets it. When the piece cannot be opened nothing is sent and the stream stays open. The reads are a parameter.\<close>

datatype piece_read = ReadMore bytes | ReadEnd bytes | ReadFail

fun stream_chunks :: "piece_read list \<Rightarrow> bytes list" where
  "stream_chunks [] = []"
| "stream_chunks (ReadMore buf # rs) = buf # stream_chunks rs"
| "stream_chunks (ReadEnd buf # rs) = [buf, []]"
| "stream_chunks (ReadFail # rs) = []"

definition stream_hook :: "('b, 'u) cli_env \<Rightarrow> unseal_info \<Rightarrow> piece_read list res \<Rightarrow> ('b sealer_state, bytes list option) step" where
  "stream_hook env req got st = (case got of
     Inl e \<Rightarrow> (Inr None, st)
   | Inr reads \<Rightarrow> (case SetAndCheck (ci_urls env) (ci_defaultDest env) req (se_unseal st) of
       (r, um) \<Rightarrow> ((case r of Inl e \<Rightarrow> if is_panic e then Inl e else Inr (Some (stream_chunks reads)) | Inr _ \<Rightarrow> Inr (Some (stream_chunks reads))),
         st\<lparr>se_unseal := um\<rparr>)))"

section \<open>Lemmas\<close>

lemma find_accessD:
  assumes "find_access up sid st = (r, st1)"
  shows "se_smgr st1 = se_smgr st \<and> se_rebuild st1 = se_rebuild st \<and>
    (\<forall>a. r = Inr a \<longrightarrow> located_at (if up then ix_upgrade (se_index st) else ix_normal (se_index st)) sid = Some a)"
proof -
  obtain q kv where q: "index_Find sid (if up then ix_upgrade (se_index st) else ix_normal (se_index st)) = (q, kv)" by fastforce
  from ixr.find_law [OF q] assms q show ?thesis by (auto simp: find_access_def split: sum.splits if_splits)
qed

text \<open>The time in which a terminated sector may still be challenged is over at the present head.\<close>

definition past_lookback :: "('b, 'u) cli_env \<Rightarrow> sector_state \<Rightarrow> bool" where
  "past_lookback env s = (\<exists>tsk h nv. ee_head (ci_sealer env) = Inr (tsk, h) \<and>
     ci_NetworkVersion env tsk = Inr nv \<and> ti_TerminatedAt (ss_TerminateInfo s) + ci_WinningPoStSectorSetLookback env nv \<le> h)"

lemma removableD: "removable env s = Inr () \<longleftrightarrow> ti_TerminatedAt (ss_TerminateInfo s) \<le> 0 \<or> past_lookback env s"
  by (auto simp: removable_def past_lookback_def split: sum.splits)

lemma remove_filesD:
  assumes "remove_files env (c, f) gone = (r, gone1)"
  shows "gone1 = gone @ [(c, False)] \<and> isl r \<or> gone1 = gone @ [(c, True), (f, False)] \<and> isl r \<or> gone1 = gone @ [(c, True), (f, True)] \<and> r = Inr ()"
  using assms by (auto simp: remove_files_def split: sum.splits)

lemma remove_locatedD:
  assumes "remove_located env sid s (st, gone) = (r, st1, gone1)" "ss_ID s = sid" "view (se_smgr st) WorkerOffline sid = Some (Json s)"
  shows "(gone1 = gone \<and> isl r \<and> sectors_of st1 = sectors_of st) \<or>
    (\<exists>access c f. located_at (if ss_Upgraded s then ix_upgrade (se_index st) else ix_normal (se_index st)) sid = Some access \<and>
       sector_files env s access = Inr (c, f) \<and>
       (gone1 \<in> {gone @ [(c, False)], gone @ [(c, True), (f, False)], gone @ [(c, True), (f, True)]} \<and> isl r \<and> sectors_of st1 = sectors_of st \<or>
        gone1 = gone @ [(c, True), (f, True)] \<and> r = Inr () \<and> sectors_of st1 = view_put WorkerOffline sid (s\<lparr>ss_Removed := True\<rparr>) (sectors_of st)))"
proof -
  obtain a st2 where a: "find_access (ss_Upgraded s) sid st = (a, st2)" by fastforce
  note fa = find_accessD [OF a]
  show ?thesis
  proof (cases "\<exists>access c f. a = Inr access \<and> sector_files env s access = Inr (c, f)")
    case False
    then have "gone1 = gone \<and> isl r \<and> st1 = st2" using assms(1) a by (auto simp: remove_located_def split: sum.splits)
    with fa show ?thesis by simp
  next
    case True
    then obtain access c f where f: "a = Inr access" "sector_files env s access = Inr (c, f)" by blast
    obtain q g where q: "remove_files env (c, f) gone = (q, g)" by fastforce
    obtain u st3 where u: "on_smgr (Update sid WorkerOffline [FRemoved True]) st2 = (u, st3)" by fastforce
    from on_smgrD [OF u] obtain sm where sm: "Update sid WorkerOffline [FRemoved True] (se_smgr st2) = (u, sm)" "st3 = st2\<lparr>se_smgr := sm\<rparr>" by blast
    have up: "u = Inr () \<and> sectors_of st3 = view_put WorkerOffline sid (s\<lparr>ss_Removed := True\<rparr>) (sectors_of st) \<or> isl u \<and> sectors_of st3 = sectors_of st"
      using UpdateD [OF sm(1)] fa assms(3) sm(2) by auto
    have "(gone1, r, st1) = (case q of Inl e \<Rightarrow> (g, Inl e, st2)
       | Inr _ \<Rightarrow> (g, case u of Inl e \<Rightarrow> Inl (Wrap ''update sector Removed failed'' e) | Inr _ \<Rightarrow> Inr (), st3))"
      using assms(1,2) a f q u by (auto simp: remove_located_def split: sum.splits)
    with remove_filesD [OF q] up fa f show ?thesis by (cases q; cases u) auto
  qed
qed

text \<open>A piece that is read to its end is sent whole, and the stream ends with an empty chunk.\<close>

lemma stream_chunks_complete: "stream_chunks (map ReadMore bufs @ ReadEnd buf # rs) = bufs @ [buf, []]"
  by (induction bufs) simp_all

section \<open>Properties\<close>

text \<open>C20. \<open>RemoveSector\<close> touches only files of a sector that is stored offline and not removed yet; if the sector was terminated, only after the
  time in which it may still be challenged (a sector that was never terminated is removed at any time: the code does not ask the chain about it).
  It touches only the sector's own cache and then, once the cache is gone, its own sealed file, where the index says they are. Success means that both are
  gone and the sector is marked, or that it was marked before; after an error no document has changed, though files may be gone.\<close>

theorem removal_touches_own_files:
  assumes "RemoveSector env sid (st, gone) = (r, st1, gone1)" "keyed (sectors_of st)"
  shows "(gone1 = gone \<and> sectors_of st1 = sectors_of st \<and> (r = Inr () \<longrightarrow> (\<exists>s. sectors_of st WorkerOffline sid = Some (Json s) \<and> ss_Removed s))) \<or>
    (\<exists>s access c f. sectors_of st WorkerOffline sid = Some (Json s) \<and> \<not> ss_Removed s \<and> (ti_TerminatedAt (ss_TerminateInfo s) > 0 \<longrightarrow> past_lookback env s) \<and>
       located_at (if ss_Upgraded s then ix_upgrade (se_index st) else ix_normal (se_index st)) sid = Some access \<and>
       sector_files env s access = Inr (c, f) \<and>
       (gone1 \<in> {gone @ [(c, False)], gone @ [(c, True), (f, False)], gone @ [(c, True), (f, True)]} \<and> isl r \<and> sectors_of st1 = sectors_of st \<or>
        gone1 = gone @ [(c, True), (f, True)] \<and> r = Inr () \<and> sectors_of st1 = view_put WorkerOffline sid (s\<lparr>ss_Removed := True\<rparr>) (sectors_of st)))"
proof -
  obtain q st2 where q: "on_smgr (Load sid WorkerOffline) st = (q, st2)" by fastforce
  from on_smgrD [OF q] obtain sm where sm: "Load sid WorkerOffline (se_smgr st) = (q, sm)" "st2 = st\<lparr>se_smgr := sm\<rparr>" by blast
  from loadInnerD [of sid WorkerOffline "se_smgr st" q sm] sm(1)
  have v: "view sm = sectors_of st" "\<forall>s. q = Inr s \<longrightarrow> sectors_of st WorkerOffline sid = Some (Json s)" by (auto simp: Load_def)
  show ?thesis
  proof (cases "\<exists>s. q = Inr s \<and> \<not> ss_Removed s \<and> removable env s = Inr ()")
    case True
    then obtain s where s: "q = Inr s" "\<not> ss_Removed s" "removable env s = Inr ()" by blast
    have d: "sectors_of st WorkerOffline sid = Some (Json s)" using v s by simp
    have id: "ss_ID s = sid" using assms(2) d by (auto simp: keyed_def)
    have rl: "remove_located env sid s (st2, gone) = (r, st1, gone1)" using assms(1) q s by (simp add: RemoveSector_def)
    have "view (se_smgr st2) WorkerOffline sid = Some (Json s)" using d v(1) sm(2) by simp
    from remove_locatedD [OF rl id this] d s(2) removableD [THEN iffD1, OF s(3)] sm(2) v(1) s
    show ?thesis by (auto 0 3)
  next
    case False
    then have "gone1 = gone \<and> st1 = st2 \<and> (r = Inr () \<longrightarrow> (\<exists>s. q = Inr s \<and> ss_Removed s))"
      using assms(1) q by (auto simp: RemoveSector_def split: sum.splits if_splits)
    with v sm(2) show ?thesis by auto
  qed
qed

text \<open>C21. A sector set up for a rebuild was offline with a ticket, and with its upgrade's public information when it was upgraded; it is then online and marked,
  and the rebuild waiting for it carries its own data. A request that fails changes no waiting rebuild, loses no sector and touches no other one.\<close>

theorem rebuild_set_up_or_refused:
  assumes "SectorSetForRebuild env sid av st = (r, st1)"
  shows "(\<exists>isSnapUp s t. r = Inr True \<and> sectors_of st WorkerOffline sid = Some (Json s) \<and> ss_Ticket s = Some t \<and> tk_Ticket t \<noteq> [] \<and>
      (isSnapUp \<longrightarrow> ss_UpgradePublic s \<noteq> None) \<and> \<not> pieces_unavailable isSnapUp av s \<and>
      sectors_of st1 = view_del WorkerOffline sid (view_put WorkerOnline sid (s\<lparr>ss_NeedRebuild := True, ss_Finalized := False\<rparr>) (sectors_of st)) \<and>
      rebuild_pending (rm_kv (se_rebuild st1)) = (rebuild_pending (rm_kv (se_rebuild st)))(sid \<mapsto> rebuild_of isSnapUp t s)) \<or>
    (isl r \<and> rebuild_pending (rm_kv (se_rebuild st1)) = rebuild_pending (rm_kv (se_rebuild st)) \<and>
      (\<forall>ws sid'. sid' \<noteq> sid \<longrightarrow> sectors_of st1 ws sid' = sectors_of st ws sid') \<and>
      (sectors_of st WorkerOffline sid \<noteq> None \<longrightarrow> sectors_of st1 WorkerOnline sid \<noteq> None \<or> sectors_of st1 WorkerOffline sid \<noteq> None))"
proof (cases "\<exists>up. set_rebuild up av sid st = (r, st1)")
  case False
  then have "isl r \<and> st1 = st" using assms by (auto simp: SectorSetForRebuild_def split: sum.splits list.splits)
  then show ?thesis by simp
next
  case True
  then obtain up where up: "set_rebuild up av sid st = (r, st1)" by blast
  obtain q sm info where q: "Restore sid (Some (rebuild_hook up av)) (se_smgr st, no_rebuild) = (q, sm, info)" by (metis prod_cases3)
  note R = RestoreD [OF q]
  show ?thesis
  proof (cases q)
    case (Inl e)
    with up q have "isl r" "st1 = st\<lparr>se_smgr := sm\<rparr>" by (auto simp: set_rebuild_def)
    with R Inl show ?thesis by (intro disjI2) (auto simp: view_put_def)
  next
    case (Inr u)
    from R Inr obtain s t where s: "sectors_of st WorkerOffline sid = Some (Json s)" "ss_Ticket s = Some t" "tk_Ticket t \<noteq> []"
        "up \<longrightarrow> ss_UpgradePublic s \<noteq> None" "\<not> pieces_unavailable up av s" "info = rebuild_of up t s"
        "view sm = view_del WorkerOffline sid (view_put WorkerOnline sid (s\<lparr>ss_NeedRebuild := True, ss_Finalized := False\<rparr>) (sectors_of st))"
      by (auto simp: run_hook_def rebuild_hook_def split: if_splits option.splits)
    obtain z kv where z: "rebuild_Set sid info (rm_kv (se_rebuild st)) = (z, kv)" by fastforce
    note S = rebuild_SetD [OF z]
    show ?thesis
    proof (cases z)
      case (Inr w)
      with up q \<open>q = Inr u\<close> z have "r = Inr True" "st1 = st\<lparr>se_smgr := sm, se_rebuild := (se_rebuild st)\<lparr>rm_kv := kv\<rparr>\<rparr>" by (auto simp: set_rebuild_def)
      with s S Inr show ?thesis by (intro disjI1 exI [of _ up] exI [of _ s] exI [of _ t]) simp
    next
      case (Inl e)
      obtain y sm2 where y: "Finalize sid (None :: unit hook option) (sm, ()) = (y, sm2, ())" by (metis prod_cases3 old.unit.exhaust)
      from up q \<open>q = Inr u\<close> z Inl y have "isl r" "st1 = st\<lparr>se_smgr := sm2, se_rebuild := (se_rebuild st)\<lparr>rm_kv := kv\<rparr>\<rparr>" by (auto simp: set_rebuild_def)
      with S Inl FinalizeD [OF y] s(7) show ?thesis by (intro disjI2) (auto simp: view_put_def view_del_def)
    qed
  qed
qed

text \<open>Without force only an aborted sector that holds no pieces is restored; it comes back online without its reason.\<close>

theorem unforced_restore_of_aborted:
  assumes "RestoreSector sid False st = (Inr (), st1)"
  shows "\<exists>s. sectors_of st WorkerOffline sid = Some (Json s) \<and> SectorPiece s = [] \<and> ss_AbortReason s \<noteq> [] \<and>
    sectors_of st1 = view_del WorkerOffline sid (view_put WorkerOnline sid (s\<lparr>ss_AbortReason := [], ss_Finalized := False\<rparr>) (sectors_of st))"
proof -
  obtain sm where q: "Restore sid (Some restore_aborted) (se_smgr st, ()) = (Inr (), sm, ())" "st1 = st\<lparr>se_smgr := sm\<rparr>"
    using assms by (auto simp: RestoreSector_def split: prod.splits)
  from RestoreD [OF q(1)] q(2) show ?thesis by (auto simp: run_hook_def restore_aborted_def PieceInfos_def split: if_splits)
qed

text \<open>A search over both stores finds the online document first, and an answer that there is none is right.\<close>

theorem find_in_all_states:
  assumes "FindSectorInAllStates sid st = (r, st1)"
  shows "sectors_of st1 = sectors_of st \<and>
    (\<forall>s. r = Inr s \<longrightarrow> sectors_of st WorkerOnline sid = Some (Json s) \<or>
       sectors_of st WorkerOnline sid = None \<and> sectors_of st WorkerOffline sid = Some (Json s)) \<and>
    (\<forall>e. r = Inl e \<longrightarrow> errors_is e ErrKeyNotFound \<longrightarrow> sectors_of st WorkerOnline sid = None \<and> sectors_of st WorkerOffline sid = None)"
proof -
  obtain q1 sm1 where q1: "Load sid WorkerOnline (se_smgr st) = (q1, sm1)" by fastforce
  obtain q2 sm2 where q2: "Load sid WorkerOffline sm1 = (q2, sm2)" by fastforce
  note l1 = loadInnerD [OF q1 [unfolded Load_def]] and l2 = loadInnerD [OF q2 [unfolded Load_def]]
  show ?thesis using assms q1 q2 l1 l2
    by (auto simp: FindSectorInAllStates_def on_smgr_def split: sum.splits if_splits)
qed

text \<open>A request for a piece that names its destination panics when the task has been done, and the task is forgotten all the same.\<close>

theorem done_piece_request_panics:
  assumes "dest \<noteq> []" "checkDestURL (ci_urls env) (ci_defaultDest env) dest = Inr supplied"
    and "kv_script (um_kv (se_unseal st)) = []" "kv_data (um_kv (se_unseal st)) = [(unsealInfoKey, Json db)]"
    and "map_of (un_Data db) (UnsealInfoKey (sid_Miner sid) (sid_Number sid) pieceCid) = Some info"
    and "supplied \<in> set (us_Dest info)" "us_State info = UnsealStateFinished"
  shows "\<exists>st1. UnsealPiece env hook sid pieceCid offset sz dest st = (Inl (Panic ''close of nil channel''), st1)"
proof -
  have ex: "list_ex (\<lambda>v. v = supplied) (us_Dest info)" using assms(6) by (auto simp: list_ex_iff)
  let ?req = "(unseal_request sid pieceCid offset sz dest)\<lparr>us_Dest := [supplied]\<rparr>"
  have key: "task_key (unseal_request sid pieceCid offset sz dest) = UnsealInfoKey (sid_Miner sid) (sid_Number sid) pieceCid"
    by (simp add: task_key_def unseal_request_def)
  have sc: "set_and_check (task_key ?req) ?req supplied db = Inr ((UnsealStateFinished, None, True), Some (db\<lparr>un_Data := del_entry (task_key ?req) (un_Data db)\<rparr>))"
    using assms(5,7) ex by (simp add: set_and_check_def key)
  have dec: "doc_decode ''unseal infos'' (Json db) = Inr db" by simp
  have "fst (unseal_loadAndUpdate (set_and_check (task_key ?req) ?req supplied) (um_kv (se_unseal st))) = Inr (UnsealStateFinished, None, True)"
    using assms(3,4) sc by (simp add: unseal_loadAndUpdate_def doc_loadAndUpdate_def doc_cycle_def dec) (simp add: doc_save_def)
  then obtain kv where kv: "unseal_loadAndUpdate (set_and_check (task_key ?req) ?req supplied) (um_kv (se_unseal st)) = (Inr (UnsealStateFinished, None, True), kv)"
    by (metis prod.collapse)
  have "us_Dest (unseal_request sid pieceCid offset sz dest) = [dest]" by (simp add: unseal_request_def)
  with kv assms(2) have "fst (SetAndCheck (ci_urls env) (ci_defaultDest env) (unseal_request sid pieceCid offset sz dest) (se_unseal st)) = Inr UnsealStateFinished"
    by (simp add: SetAndCheck_def Let_def)
  then show ?thesis using assms(1) by (auto simp: UnsealPiece_def Let_def split: prod.splits)
qed

section \<open>Instances\<close>

definition demo_urls :: "string url_lib" where
  "demo_urls = \<lparr>ul_Parse = Inr, ul_Scheme = (\<lambda>_. ''file''), ul_Host = (\<lambda>_. []), ul_QueryGet = (\<lambda>_ _. []), ul_QuerySet = (\<lambda>_ u. u), ul_String = id\<rparr>"

definition demo_cli_env :: "(u64 list, string) cli_env" where
  "demo_cli_env = \<lparr>ci_sealer = demo_sealer_env\<lparr>ee_stores := demo_stores\<lparr>mg_stores := [\<lparr>st_Instance = ''store-1'', st_InstanceInfo = Inl (Ext ''down'')\<rparr>]\<rparr>\<rparr>,
     ci_IDFromAddress = (\<lambda>_. Inr 1000), ci_SectorGetInfo = (\<lambda>_ _ _. Inr None),
     ci_MinerSectors = (\<lambda>_ _ _. Inr [\<lparr>on_SectorNumber = 7, on_SealedCID = ''r'', on_SealProof = 8, on_SectorKeyCID = None\<rparr>]),
     ci_NetworkVersion = (\<lambda>_. Inr 22), ci_WinningPoStSectorSetLookback = (\<lambda>_. 900), ci_RemoveAll = (\<lambda>_. Inr ()), ci_Remove = (\<lambda>_. Inr ()),
     ci_urls = demo_urls, ci_defaultDest = []\<rparr>"

definition demo_terminated :: sector_state where
  "demo_terminated = (new_sector_state demo_sid 8)\<lparr>ss_Ticket := Some \<lparr>tk_Ticket = [1], tk_Epoch = 5\<rparr>,
     ss_TerminateInfo := \<lparr>ti_TerminateCid = None, ti_TerminatedAt = 100, ti_AddedHeight = 90\<rparr>\<rparr>"

definition demo_offline :: "u64 list sealer_state" where
  "demo_offline = demo_sealer \<lparr>sm_online = empty_store, sm_offline = demo_store (Json demo_terminated), sm_events = []\<rparr>"

lemma demo_offline_view: "sectors_of demo_offline WorkerOffline demo_sid = Some (Json demo_terminated)" "sectors_of demo_offline WorkerOnline demo_sid = None"
  by (simp_all add: demo_offline_def view_def demo_store_def empty_store_def pickStore_def)

theorem removal_touches_own_files_witness:
  "\<exists>st1. RemoveSector demo_cli_env demo_sid (demo_offline, []) = (Inr (), st1, [(''cache/s-t01000-7'', True), (''sealed/s-t01000-7'', True)]) \<and>
    sectors_of st1 WorkerOffline demo_sid = Some (Json (demo_terminated\<lparr>ss_Removed := True\<rparr>))"
proof -
  have d: "dec64 1000 = ''1000''" "dec64 7 = ''7''" by code_simp+
  have "\<exists>st1. RemoveSector demo_cli_env demo_sid (demo_offline, []) = (Inr (), st1, [(''cache/s-t01000-7'', True), (''sealed/s-t01000-7'', True)])"
    by (simp add: RemoveSector_def on_smgr_def Load_def loadInner_def pickStore_def demo_offline_def demo_sealer_def demo_store_def demo_terminated_def
        removable_def demo_cli_env_def demo_sealer_env_def remove_located_def find_access_def index_Find_def sector_files_def GetInstance_def demo_stores_def
        demo_store_info_def remove_files_def Update_def save_def put_store_def SectorPath_def path_join_def FormatSectorID_def demo_sid_def new_sector_state_def
        demo_proving_env_def d Let_def)
  then obtain st1 where r: "RemoveSector demo_cli_env demo_sid (demo_offline, []) = (Inr (), st1, [(''cache/s-t01000-7'', True), (''sealed/s-t01000-7'', True)])" by blast
  have "keyed (sectors_of demo_offline)"
    by (auto simp: keyed_def view_def pickStore_def demo_offline_def demo_store_def empty_store_def demo_terminated_def new_sector_state_def
        split: worker_state.splits if_splits)
  from removal_touches_own_files [OF r this] have "sectors_of st1 WorkerOffline demo_sid = Some (Json (demo_terminated\<lparr>ss_Removed := True\<rparr>))"
    by (auto simp: demo_offline_view view_put_def)
  with r show ?thesis by blast
qed

theorem rebuild_set_up_or_refused_witness:
  "rebuild_pending (rm_kv (se_rebuild (snd (SectorSetForRebuild demo_cli_env demo_sid False demo_offline)))) demo_sid =
     Some (rebuild_of False \<lparr>tk_Ticket = [1], tk_Epoch = 5\<rparr> demo_terminated)"
proof -
  have dec: "doc_decode what (Json d) = Inr d" for what and d :: rebuild_infos by simp
  let ?info = "rebuild_of False \<lparr>tk_Ticket = [1], tk_Epoch = 5\<rparr> demo_terminated"
  have "\<exists>sm. Restore demo_sid (Some (rebuild_hook False False)) (se_smgr demo_offline, no_rebuild) =
      (Inr (), sm, rebuild_of False \<lparr>tk_Ticket = [1], tk_Epoch = 5\<rparr> demo_terminated)"
    by (simp add: Restore_def loadInner_def save_def pickStore_def put_store_def run_hook_def rebuild_hook_def pieces_unavailable_def demo_offline_def
        demo_store_def empty_store_def demo_terminated_def new_sector_state_def rebuild_of_def Let_def)
  then obtain sm where sm: "Restore demo_sid (Some (rebuild_hook False False)) (se_smgr demo_offline, no_rebuild) = (Inr (), sm, ?info)" by blast
  have "\<exists>kv. rebuild_Set demo_sid ?info (rm_kv demo_rebuild_state) = (Inr (), kv)"
    by (simp add: rebuild_Set_def rebuild_loadAndUpdate_def doc_loadAndUpdate_def doc_cycle_def dec demo_rebuild_state_def) (simp add: doc_save_def)
  then obtain kv where "rebuild_Set demo_sid ?info (rm_kv demo_rebuild_state) = (Inr (), kv)" by blast
  moreover have "se_rebuild demo_offline = demo_rebuild_state" by (simp add: demo_offline_def demo_sealer_def)
  ultimately have "\<exists>st1. set_rebuild False False demo_sid demo_offline = (Inr True, st1)" using sm by (simp add: set_rebuild_def)
  then obtain st1 where r: "SectorSetForRebuild demo_cli_env demo_sid False demo_offline = (Inr True, st1)"
    by (auto simp: SectorSetForRebuild_def demo_cli_env_def demo_sealer_env_def demo_sealer_cfg_def demo_deal_cfg_def demo_cfg_def demo_sid_def DefaultMinerConfig_def)
  from rebuild_set_up_or_refused [OF r] have "\<exists>up s t. sectors_of demo_offline WorkerOffline demo_sid = Some (Json s) \<and> ss_Ticket s = Some t \<and>
      (up \<longrightarrow> ss_UpgradePublic s \<noteq> None) \<and>
      rebuild_pending (rm_kv (se_rebuild st1)) = (rebuild_pending (rm_kv (se_rebuild demo_offline)))(demo_sid \<mapsto> rebuild_of up t s)"
    by (elim disjE exE conjE) (blast, simp)
  then obtain up s t where w: "sectors_of demo_offline WorkerOffline demo_sid = Some (Json s)" "ss_Ticket s = Some t"
      "up \<longrightarrow> ss_UpgradePublic s \<noteq> None" "rebuild_pending (rm_kv (se_rebuild st1)) = (rebuild_pending (rm_kv (se_rebuild demo_offline)))(demo_sid \<mapsto> rebuild_of up t s)"
    by blast
  have "s = demo_terminated" using w(1) demo_offline_view by simp
  with w r show ?thesis by (auto simp: demo_terminated_def new_sector_state_def)
qed

end
