(* ===== verification/Gateway_Events.thy ===== *)
theory Gateway_Events
  imports Sector_Unseal Sector_Tracker
begin

text \<open>
  The requests that reach the manager through the gateway: proofs for winning blocks (\<open>modules/miner/proof_event.go\<close>) and pieces to unseal
  (\<open>modules/market/event.go\<close>). Each listener reads the events of one connection until it ends and answers the requests among them; the loops that
  connect again after a second are left out. The encodings, the prover and the addresses are parameters. An answer the gateway does not take is only
  logged, so the answers are those that were given.
\<close>

record gateway_event =
  gv_ID :: string
  gv_Method :: string
  gv_Payload :: bytes

record gateway_response =
  gr_ID :: string
  gr_Payload :: "bytes option"
  gr_Error :: "err option"

definition failed_response :: "string \<Rightarrow> err \<Rightarrow> gateway_response" where
  "failed_response rid e = \<lparr>gr_ID = rid, gr_Payload = None, gr_Error = Some e\<rparr>"

definition good_response :: "string \<Rightarrow> bytes \<Rightarrow> gateway_response" where
  "good_response rid payload = \<lparr>gr_ID = rid, gr_Payload = Some payload, gr_Error = None\<rparr>"

section \<open>Winning proofs\<close>

record compute_request =
  cq_SectorInfos :: "extended_sector list"
  cq_Rand :: bytes

record 'p proof_event =
  pe_actor :: u64
  pe_Connected :: "bytes \<Rightarrow> unit res"
  pe_Unmarshal :: "bytes \<Rightarrow> compute_request res"
  pe_WinningPoStProof :: "seal_proof \<Rightarrow> int res"
  pe_GenerateWinningPoSt :: "u64 \<Rightarrow> int \<Rightarrow> extended_sector list \<Rightarrow> bytes \<Rightarrow> 'p res"
  pe_Marshal :: "'p \<Rightarrow> bytes res"

definition postProofType :: "'p proof_event \<Rightarrow> extended_sector list \<Rightarrow> int res" where
  "postProofType pe sectorInfo = (case sectorInfo of
     [] \<Rightarrow> Inl (Errorf ''must provide sectors for winning post'')
   | s # _ \<Rightarrow> (case pe_WinningPoStProof pe (xs_SealProof s) of
       Inl e \<Rightarrow> Inl (Wrap ''failed to convert to winning post proof'' e) | Inr ppt \<Rightarrow> Inr ppt))"

definition processComputeProof :: "'p proof_event \<Rightarrow> string \<Rightarrow> compute_request \<Rightarrow> gateway_response" where
  "processComputeProof pe reqID req = (case postProofType pe (cq_SectorInfos req) of
     Inl e \<Rightarrow> failed_response reqID e
   | Inr ppt \<Rightarrow> (case pe_GenerateWinningPoSt pe (pe_actor pe) ppt (cq_SectorInfos req) (cq_Rand req) of
       Inl e \<Rightarrow> failed_response reqID e
     | Inr p \<Rightarrow> (case pe_Marshal pe p of Inl e \<Rightarrow> failed_response reqID e | Inr payload \<Rightarrow> good_response reqID payload)))"

definition proof_answer :: "'p proof_event \<Rightarrow> gateway_event \<Rightarrow> gateway_response" where
  "proof_answer pe ev = (case pe_Unmarshal pe (gv_Payload ev) of
     Inl e \<Rightarrow> failed_response (gv_ID ev) e | Inr req \<Rightarrow> processComputeProof pe (gv_ID ev) req)"

fun listenProofRequestOnce :: "'p proof_event \<Rightarrow> gateway_event list \<Rightarrow> (gateway_response list, unit) step" where
  "listenProofRequestOnce pe [] rs = (Inr (), rs)"
| "listenProofRequestOnce pe (ev # evs) rs =
    (if gv_Method ev = ''InitConnect'' then (case pe_Connected pe (gv_Payload ev) of
         Inl e \<Rightarrow> (Inl (Wrap ''odd error in connect'' e), rs) | Inr _ \<Rightarrow> listenProofRequestOnce pe evs rs)
     else if gv_Method ev = ''ComputeProof'' then listenProofRequestOnce pe evs (rs @ [proof_answer pe ev])
     else listenProofRequestOnce pe evs rs)"

section \<open>Pieces to unseal\<close>

record unseal_req =
  ur_Miner :: address
  ur_Sid :: u64
  ur_PieceCid :: cid
  ur_Offset :: u64
  ur_Size :: u64
  ur_Dest :: string

record 'u market_event =
  me_Connected :: "bytes \<Rightarrow> unit res"
  me_Unmarshal :: "bytes \<Rightarrow> unseal_req res"
  me_IDFromAddress :: "address \<Rightarrow> u64 res"
  me_MarshalState :: "unseal_state \<Rightarrow> bytes res"
  me_urls :: "'u url_lib"
  me_defaultDest :: 'u

definition unseal_info_of :: "u64 \<Rightarrow> unseal_req \<Rightarrow> unseal_info" where
  "unseal_info_of actor req = \<lparr>us_Sector = \<lparr>as_ID = \<lparr>sid_Miner = actor, sid_Number = ur_Sid req\<rparr>, as_ProofType = 0\<rparr>, us_PieceCid = ur_PieceCid req,
     us_Offset = ur_Offset req, us_Size = ur_Size req, us_AccessInstance = [], us_Ticket = \<lparr>tk_Ticket = [], tk_Epoch = 0\<rparr>, us_CommD = [], us_Dest = [ur_Dest req],
     us_State = UnsealStateDefault, us_ErrorInfo = []\<rparr>"

text \<open>The answer to one request. The destination is given, so \<open>SetAndCheck\<close> does not panic.\<close>

definition unseal_piece_request :: "'u market_event \<Rightarrow> gateway_event \<Rightarrow> unseal_mgr \<Rightarrow> gateway_response \<times> unseal_mgr" where
  "unseal_piece_request me ev um = (case me_Unmarshal me (gv_Payload ev) of
     Inl e \<Rightarrow> (failed_response (gv_ID ev) e, um)
   | Inr req \<Rightarrow> (case me_IDFromAddress me (ur_Miner req) of
       Inl e \<Rightarrow> (failed_response (gv_ID ev) e, um)
     | Inr actor \<Rightarrow> (case SetAndCheck (me_urls me) (me_defaultDest me) (unseal_info_of actor req) um of
         (Inl e, um1) \<Rightarrow> (failed_response (gv_ID ev) e, um1)
       | (Inr state, um1) \<Rightarrow> ((case me_MarshalState me state of Inl e \<Rightarrow> failed_response (gv_ID ev) e | Inr b \<Rightarrow> good_response (gv_ID ev) b), um1))))"

fun listenMarketRequestOnce :: "'u market_event \<Rightarrow> gateway_event list \<Rightarrow> (gateway_response list \<times> unseal_mgr, unit) step" where
  "listenMarketRequestOnce me [] (rs, um) = (Inr (), rs, um)"
| "listenMarketRequestOnce me (ev # evs) (rs, um) =
    (if gv_Method ev = ''InitConnect'' then (case me_Connected me (gv_Payload ev) of
         Inl e \<Rightarrow> (Inl (Wrap ''odd error in connect'' e), rs, um) | Inr _ \<Rightarrow> listenMarketRequestOnce me evs (rs, um))
     else if gv_Method ev = ''SectorsUnsealPiece'' then (case unseal_piece_request me ev um of
         (r, um1) \<Rightarrow> listenMarketRequestOnce me evs (rs @ [r], um1))
     else listenMarketRequestOnce me evs (rs, um))"

section \<open>Lemmas\<close>

lemma processComputeProof_ID [simp]: "gr_ID (processComputeProof pe rid req) = rid"
  by (simp add: processComputeProof_def failed_response_def good_response_def split: sum.split)

lemma proof_answer_ID [simp]: "gr_ID (proof_answer pe ev) = gv_ID ev"
  by (simp add: proof_answer_def failed_response_def split: sum.split)

lemma proof_answer_good:
  assumes "gr_Error (proof_answer pe ev) = None"
  shows "\<exists>req ppt p payload. pe_Unmarshal pe (gv_Payload ev) = Inr req \<and> postProofType pe (cq_SectorInfos req) = Inr ppt \<and>
    pe_GenerateWinningPoSt pe (pe_actor pe) ppt (cq_SectorInfos req) (cq_Rand req) = Inr p \<and> pe_Marshal pe p = Inr payload \<and>
    gr_Payload (proof_answer pe ev) = Some payload"
  using assms by (auto simp: proof_answer_def processComputeProof_def failed_response_def good_response_def split: sum.splits)

lemma unseal_piece_request_ID: "unseal_piece_request me ev um = (r, um1) \<Longrightarrow> gr_ID r = gv_ID ev"
  by (auto simp: unseal_piece_request_def failed_response_def good_response_def split: sum.splits prod.splits)

text \<open>Connections that are announced well.\<close>

definition well_connected :: "(bytes \<Rightarrow> unit res) \<Rightarrow> gateway_event list \<Rightarrow> bool" where
  "well_connected conn evs = list_all (\<lambda>ev. gv_Method ev = ''InitConnect'' \<longrightarrow> conn (gv_Payload ev) = Inr ()) evs"

lemma listenProof_answers:
  assumes "well_connected (pe_Connected pe) evs"
  shows "listenProofRequestOnce pe evs rs = (Inr (), rs @ map (proof_answer pe) (filter (\<lambda>ev. gv_Method ev = ''ComputeProof'') evs))"
  using assms by (induction evs arbitrary: rs) (auto simp: well_connected_def)

lemma listenMarket_answers:
  assumes "well_connected (me_Connected me) evs" "listenMarketRequestOnce me evs (rs, um) = (r, rs1, um1)"
  shows "r = Inr () \<and> map gr_ID rs1 = map gr_ID rs @ map gv_ID (filter (\<lambda>ev. gv_Method ev = ''SectorsUnsealPiece'') evs)"
  using assms
proof (induction evs arbitrary: rs um)
  case (Cons ev evs)
  have w: "well_connected (me_Connected me) evs" using Cons.prems(1) by (simp add: well_connected_def)
  show ?case
  proof (cases "gv_Method ev = ''SectorsUnsealPiece''")
    case True
    obtain a um2 where a: "unseal_piece_request me ev um = (a, um2)" by fastforce
    with Cons.prems True have "listenMarketRequestOnce me evs (rs @ [a], um2) = (r, rs1, um1)" by simp
    from Cons.IH [OF w this] unseal_piece_request_ID [OF a] True show ?thesis by simp
  next
    case False
    with Cons.prems have "listenMarketRequestOnce me evs (rs, um) = (r, rs1, um1)" by (auto simp: well_connected_def split: if_splits)
    from Cons.IH [OF w this] False show ?thesis by simp
  qed
qed simp

section \<open>Properties\<close>

text \<open>On a connection that is announced well every request gets exactly one answer, in the order of the requests; an answer without an error carries
  the encoding of a proof for the sectors and the randomness that were asked for.\<close>

theorem proof_requests_answered:
  assumes "well_connected (pe_Connected pe) evs"
  shows "\<exists>rs. listenProofRequestOnce pe evs [] = (Inr (), rs) \<and> map gr_ID rs = map gv_ID (filter (\<lambda>ev. gv_Method ev = ''ComputeProof'') evs) \<and>
    (\<forall>r \<in> set rs. gr_Error r = None \<longrightarrow> (\<exists>ev req ppt p payload. ev \<in> set evs \<and> gv_ID ev = gr_ID r \<and> pe_Unmarshal pe (gv_Payload ev) = Inr req \<and>
       postProofType pe (cq_SectorInfos req) = Inr ppt \<and>
       pe_GenerateWinningPoSt pe (pe_actor pe) ppt (cq_SectorInfos req) (cq_Rand req) = Inr p \<and> pe_Marshal pe p = Inr payload \<and> gr_Payload r = Some payload))"
proof -
  have "\<exists>ev req ppt p payload. ev \<in> set evs \<and> gv_ID ev = gr_ID r \<and> pe_Unmarshal pe (gv_Payload ev) = Inr req \<and>
       postProofType pe (cq_SectorInfos req) = Inr ppt \<and>
       pe_GenerateWinningPoSt pe (pe_actor pe) ppt (cq_SectorInfos req) (cq_Rand req) = Inr p \<and> pe_Marshal pe p = Inr payload \<and> gr_Payload r = Some payload"
    if "r = proof_answer pe ev" "ev \<in> set evs" "gr_Error r = None" for r ev
    using that proof_answer_good [of pe ev] by auto
  with listenProof_answers [OF assms, of "[]"] show ?thesis by (intro exI [of _ "map (proof_answer pe) (filter (\<lambda>ev. gv_Method ev = ''ComputeProof'') evs)"]) auto
qed

text \<open>The same of the requests for pieces.\<close>

theorem piece_requests_answered:
  assumes "well_connected (me_Connected me) evs" "listenMarketRequestOnce me evs ([], um) = (r, rs, um1)"
  shows "r = Inr () \<and> map gr_ID rs = map gv_ID (filter (\<lambda>ev. gv_Method ev = ''SectorsUnsealPiece'') evs)"
  using listenMarket_answers [OF assms] by simp

end
