(* ===== verification/Ext_Processor.thy ===== *)
theory Ext_Processor
  imports Sealer PoSt_Runner
begin

text \<open>
  The external processors (\<open>pkg/extproc/extproc.go\<close>, \<open>modules/impl/prover/ext/prover.go\<close>): proofs are made by child processes that read requests and write
  answers as lines. A processor is chosen by weight among those with a free slot; it numbers the requests, writes one at a time and hands an answer to the
  caller with its number. The callers, the two loops and the child are the steps of a transition system. Starting and killing the child, the encodings
  and the random choice are parameters or left out.
\<close>

section \<open>Choosing a processor\<close>

record ext_config =
  xc_Concurrent :: u64
  xc_Weight :: u64

definition concurrentLimit :: "ext_config \<Rightarrow> nat" where
  "concurrentLimit cfg = (if xc_Concurrent cfg = 0 then 1 else unat (xc_Concurrent cfg))"

definition ext_weight :: "ext_config \<Rightarrow> u64" where
  "ext_weight cfg = (if xc_Weight cfg = 0 then 1 else xc_Weight cfg)"

fun cumulative :: "u64 \<Rightarrow> u64 list \<Rightarrow> u64 list" where
  "cumulative tot [] = []"
| "cumulative tot (w # ws) = (tot + w) # cumulative (tot + w) ws"

definition chosenIdx :: "int \<Rightarrow> u64 list \<Rightarrow> nat" where
  "chosenIdx choice weights = (case find (\<lambda>i. choice < sint (weights ! (i + 1))) [0..<length weights - 1] of Some i \<Rightarrow> i | None \<Rightarrow> 0)"

text \<open>Processors with the number of their busy slots; \<open>rand.Intn\<close> panics for a bound that is not positive.\<close>

definition candidates_of :: "(ext_config \<times> nat) list \<Rightarrow> (ext_config \<times> nat) list" where
  "candidates_of exts = (let available = filter (\<lambda>(cfg, busy). concurrentLimit cfg > busy) exts in if length available = 0 then exts else available)"

definition findCandidateExt :: "(int \<Rightarrow> int) \<Rightarrow> (ext_config \<times> nat) list \<Rightarrow> (nat \<times> ext_config) option res" where
  "findCandidateExt Intn exts = (if length exts = 0 then Inr None
     else (let available = candidates_of exts; weights = cumulative 0 (map (ext_weight \<circ> fst) available); totalWeight = sint (last weights) in
       if totalWeight \<le> 0 then Inl (Panic ''invalid argument to Intn'')
       else (let i = chosenIdx (Intn totalWeight) weights in Inr (Some (i, fst (available ! i))))))"

section \<open>One processor\<close>

datatype caller = Entering | Admitted | Sent

type_synonym answer = "bytes res"

text \<open>The callers by the number of their request, the channels (of capacity 1), the table of requests, the answer the request loop is handing over,
  the callers' own channels (of capacity 1), and what was written, said by the child, refused by the pipe and returned.\<close>

record ext_proc =
  xp_limit :: nat
  xp_seq :: nat
  xp_callers :: "u64 \<rightharpoonup> caller"
  xp_reqCh :: "u64 list"
  xp_requests :: "u64 set"
  xp_respCh :: "(u64 \<times> answer) list"
  xp_hand :: "(u64 \<times> answer) option"
  xp_box :: "u64 \<rightharpoonup> answer"
  xp_written :: "u64 list"
  xp_said :: "(u64 \<times> answer) list"
  xp_refused :: "(u64 \<times> answer) list"
  xp_returned :: "(u64 \<times> answer) list"

definition newExtProcessor :: "ext_config \<Rightarrow> ext_proc" where
  "newExtProcessor cfg = \<lparr>xp_limit = concurrentLimit cfg, xp_seq = 0, xp_callers = Map.empty, xp_reqCh = [], xp_requests = {}, xp_respCh = [], xp_hand = None,
     xp_box = Map.empty, xp_written = [], xp_said = [], xp_refused = [], xp_returned = []\<rparr>"

definition in_progress :: "ext_proc \<Rightarrow> u64 set" where
  "in_progress s = {i. xp_callers s i = Some Admitted \<or> xp_callers s i = Some Sent}"

text \<open>The steps of \<open>process\<close> (a call with its number, the limiter, the request channel, the answer, giving up), of \<open>handleRequest\<close> (writing a request or failing
  to, taking an answer, handing it over) and of the child with \<open>handleResponse\<close>.\<close>

inductive ext_step :: "ext_proc \<Rightarrow> ext_proc \<Rightarrow> bool" where
  call: "ext_step s (s\<lparr>xp_seq := Suc (xp_seq s), xp_callers := (xp_callers s)(of_nat (Suc (xp_seq s)) \<mapsto> Entering)\<rparr>)"
| enter: "xp_callers s i = Some Entering \<Longrightarrow> card (in_progress s) < xp_limit s \<Longrightarrow> ext_step s (s\<lparr>xp_callers := (xp_callers s)(i \<mapsto> Admitted)\<rparr>)"
| send: "xp_callers s i = Some Admitted \<Longrightarrow> length (xp_reqCh s) < 1 \<Longrightarrow>
    ext_step s (s\<lparr>xp_callers := (xp_callers s)(i \<mapsto> Sent), xp_reqCh := xp_reqCh s @ [i]\<rparr>)"
| write_request: "xp_hand s = None \<Longrightarrow> xp_reqCh s = i # q \<Longrightarrow>
    ext_step s (s\<lparr>xp_reqCh := q, xp_requests := insert i (xp_requests s), xp_written := xp_written s @ [i]\<rparr>)"
| write_fails: "xp_hand s = None \<Longrightarrow> xp_reqCh s = i # q \<Longrightarrow>
    ext_step s (s\<lparr>xp_reqCh := q, xp_hand := Some (i, Inl e), xp_refused := xp_refused s @ [(i, Inl e)]\<rparr>)"
| says: "length (xp_respCh s) < 1 \<Longrightarrow> ext_step s (s\<lparr>xp_respCh := xp_respCh s @ [(i, a)], xp_said := xp_said s @ [(i, a)]\<rparr>)"
| take_answer: "xp_hand s = None \<Longrightarrow> xp_respCh s = (i, a) # q \<Longrightarrow>
    ext_step s (s\<lparr>xp_respCh := q, xp_hand := (if i \<in> xp_requests s then Some (i, a) else None)\<rparr>)"
| hand_over: "xp_hand s = Some (i, a) \<Longrightarrow> xp_box s i = None \<Longrightarrow> ext_step s (s\<lparr>xp_hand := None, xp_box := (xp_box s)(i \<mapsto> a)\<rparr>)"
| returns: "xp_callers s i = Some Sent \<Longrightarrow> xp_box s i = Some a \<Longrightarrow>
    ext_step s (s\<lparr>xp_callers := (xp_callers s)(i := None), xp_box := (xp_box s)(i := None), xp_returned := xp_returned s @ [(i, a)]\<rparr>)"
| gives_up: "xp_callers s i \<noteq> None \<Longrightarrow> ext_step s (s\<lparr>xp_callers := (xp_callers s)(i := None)\<rparr>)"

inductive ext_reachable :: "ext_config \<Rightarrow> ext_proc \<Rightarrow> bool" for cfg where
  starts: "ext_reachable cfg (newExtProcessor cfg)"
| steps: "ext_reachable cfg s \<Longrightarrow> ext_step s s' \<Longrightarrow> ext_reachable cfg s'"

section \<open>The prover\<close>

record replica_info =
  rx_SectorID :: u64
  rx_CommR :: bytes
  rx_CacheDir :: string
  rx_SealedFile :: string

record stage_post =
  gp_MinerID :: u64
  gp_ProofType :: int
  gp_Replicas :: "replica_info list"
  gp_Seed :: bytes

record ext_prover =
  ep_objects :: object_lib
  ep_stores :: store_manager
  ep_CIDToReplica :: "cid \<Rightarrow> bytes res"
  ep_window :: "(stage_post \<Rightarrow> (bytes list \<times> u64 list) res) option"
  ep_winning :: "(stage_post \<Rightarrow> bytes list res) option"
  ep_localWindow :: "generate_params \<Rightarrow> bytes list \<times> sector_id list \<times> err option"
  ep_localWinning :: "u64 \<Rightarrow> int \<Rightarrow> extended_sector list \<Rightarrow> bytes \<Rightarrow> bytes list res"

text \<open>The last byte of the randomness is cut to six bits, in place; a shorter slice panics.\<close>

definition mask_randomness :: "bytes \<Rightarrow> bytes res" where
  "mask_randomness r = (if length r \<le> 31 then Inl (Panic ''index out of range'') else Inr (r[31 := and (r ! 31) 0x3f]))"

fun replicas_of :: "ext_prover \<Rightarrow> int \<Rightarrow> ffi_private list \<Rightarrow> replica_info list res" where
  "replicas_of ep proofType [] = Inr []"
| "replicas_of ep proofType (p # ps) = (if fp_PoStProofType p \<noteq> proofType then Inl (Errorf ''proof type not match'')
     else (case CID2Commitment (ep_CIDToReplica ep) (fp_SealedCID p) of
         Inl e \<Rightarrow> Inl (Wrap ''invalid sealed cid'' e)
       | Inr commR \<Rightarrow> (case replicas_of ep proofType ps of
           Inl e \<Rightarrow> Inl e
         | Inr rs \<Rightarrow> Inr (\<lparr>rx_SectorID = fp_SectorNumber p, rx_CommR = commR, rx_CacheDir = fp_CacheDirPath p, rx_SealedFile = fp_SealedSectorPath p\<rparr> # rs))))"

text \<open>The request of a stage; the seed is an array of 32 bytes.\<close>

definition stage_of :: "ext_prover \<Rightarrow> u64 \<Rightarrow> int \<Rightarrow> extended_sector list \<Rightarrow> bytes \<Rightarrow> (indexer, stage_post) step" where
  "stage_of ep mid proofType sectors rnd ix = (case PubToPrivate (ep_objects ep) (ep_stores ep) mid proofType sectors ix of
     (Inl e, ix1) \<Rightarrow> (Inl (Wrap ''turn public sector infos into private'' e), ix1)
   | (Inr privs, ix1) \<Rightarrow> (case replicas_of ep proofType privs of
       Inl e \<Rightarrow> (Inl e, ix1)
     | Inr reps \<Rightarrow> (Inr \<lparr>gp_MinerID = mid, gp_ProofType = proofType, gp_Replicas = reps, gp_Seed = copy32 rnd\<rparr>, ix1)))"

definition ext_GenerateWindowPoSt :: "ext_prover \<Rightarrow> generate_params \<Rightarrow> (indexer, bytes list \<times> sector_id list \<times> err option) step" where
  "ext_GenerateWindowPoSt ep g ix = (case ep_window ep of
     None \<Rightarrow> (Inr (ep_localWindow ep g), ix)
   | Some proc \<Rightarrow> (case mask_randomness (gw_Randomness g) of
       Inl e \<Rightarrow> (Inl e, ix)
     | Inr rnd \<Rightarrow> if length (gw_Sectors g) = 0 then (Inr ([], [], None), ix)
         else (case stage_of ep (gw_MinerID g) (gw_ProofType g) (gw_Sectors g) rnd ix of
             (Inl e, ix1) \<Rightarrow> (Inr ([], [], Some e), ix1)
           | (Inr stage, ix1) \<Rightarrow> (case proc stage of
               Inl e \<Rightarrow> (Inr ([], [], Some (Wrap ''WindowPoStProcessor.Process'' e)), ix1)
             | Inr (proofs, faults) \<Rightarrow> if length faults \<noteq> 0
                 then (Inr ([], map (\<lambda>n. \<lparr>sid_Miner = gw_MinerID g, sid_Number = n\<rparr>) faults, Some (Errorf ''got fault sectors'')), ix1)
                 else (Inr (proofs, [], None), ix1)))))"

definition ext_GenerateWinningPoSt :: "ext_prover \<Rightarrow> u64 \<Rightarrow> int \<Rightarrow> extended_sector list \<Rightarrow> bytes \<Rightarrow> (indexer, bytes list) step" where
  "ext_GenerateWinningPoSt ep mid proofType sectors randomness ix = (case mask_randomness randomness of
     Inl e \<Rightarrow> (Inl e, ix)
   | Inr rnd \<Rightarrow> (case ep_winning ep of
       None \<Rightarrow> (ep_localWinning ep mid proofType sectors rnd, ix)
     | Some proc \<Rightarrow> if length sectors = 0 then (Inr [], ix)
         else (case stage_of ep mid proofType sectors rnd ix of
             (Inl e, ix1) \<Rightarrow> (Inl e, ix1)
           | (Inr stage, ix1) \<Rightarrow> (case proc stage of
               Inl e \<Rightarrow> (Inl (Wrap ''WinningPoStProcessor.Process'' e), ix1) | Inr proofs \<Rightarrow> (Inr proofs, ix1)))))"

section \<open>Lemmas\<close>

lemma chosenIdx_lt: "length ws \<ge> 2 \<Longrightarrow> chosenIdx c ws < length ws - 1"
  by (auto simp: chosenIdx_def find_Some_iff split: option.splits)

lemma length_cumulative [simp]: "length (cumulative t ws) = length ws"
  by (induction ws arbitrary: t) auto

inductive_cases ext_stepE: "ext_step s s'"

text \<open>Where an answer may come from: the child said it for a request that was written, or the pipe refused the request.\<close>

definition own_answer :: "ext_proc \<Rightarrow> u64 \<times> answer \<Rightarrow> bool" where
  "own_answer s x = (x \<in> set (xp_refused s) \<or> x \<in> set (xp_said s) \<and> fst x \<in> set (xp_written s))"

definition ext_inv :: "ext_config \<Rightarrow> ext_proc \<Rightarrow> bool" where
  "ext_inv cfg s = (xp_limit s = concurrentLimit cfg \<and> card (in_progress s) \<le> xp_limit s \<and> xp_requests s \<subseteq> set (xp_written s) \<and> set (xp_respCh s) \<subseteq> set (xp_said s) \<and>
     (\<forall>x. xp_hand s = Some x \<longrightarrow> own_answer s x) \<and> (\<forall>i a. xp_box s i = Some a \<longrightarrow> own_answer s (i, a)) \<and> (\<forall>x \<in> set (xp_returned s). own_answer s x))"

lemma in_progress_simps:
  "in_progress (s\<lparr>xp_callers := c\<rparr>) = {i. c i = Some Admitted \<or> c i = Some Sent}"
  by (simp add: in_progress_def)

lemma ext_inv_step:
  assumes "ext_inv cfg s" "ext_step s s'"
  shows "ext_inv cfg s'"
  using assms(2)
proof cases
  case call
  then have "in_progress s' \<subseteq> in_progress s" by (auto simp: in_progress_def)
  then have "card (in_progress s') \<le> card (in_progress s)" by (intro card_mono) auto
  with assms(1) call show ?thesis by (auto simp: ext_inv_def own_answer_def)
next
  case (enter i)
  then have "in_progress s' = insert i (in_progress s)" "i \<notin> in_progress s" by (auto simp: in_progress_def)
  with enter have "card (in_progress s') \<le> xp_limit s" by simp
  with assms(1) enter show ?thesis by (auto simp: ext_inv_def own_answer_def)
next
  case (send i)
  then have "in_progress s' = in_progress s" by (auto simp: in_progress_def)
  with assms(1) send show ?thesis by (auto simp: ext_inv_def own_answer_def)
next
  case (returns i a)
  then have "in_progress s' \<subseteq> in_progress s" by (auto simp: in_progress_def)
  then have "card (in_progress s') \<le> card (in_progress s)" by (intro card_mono) auto
  with assms(1) returns show ?thesis by (auto simp: ext_inv_def own_answer_def split: if_splits)
next
  case (gives_up i)
  then have "in_progress s' \<subseteq> in_progress s" by (auto simp: in_progress_def)
  then have "card (in_progress s') \<le> card (in_progress s)" by (intro card_mono) auto
  with assms(1) gives_up show ?thesis by (auto simp: ext_inv_def own_answer_def)
next
  case (hand_over i a)
  then have "in_progress s' = in_progress s" by (simp add: in_progress_def)
  with assms(1) hand_over show ?thesis by (auto simp: ext_inv_def own_answer_def split: if_splits)
next
  case (take_answer i a q)
  then have "in_progress s' = in_progress s" by (simp add: in_progress_def)
  with assms(1) take_answer show ?thesis by (auto simp: ext_inv_def own_answer_def split: if_splits)
qed (use assms(1) in \<open>auto simp: ext_inv_def own_answer_def in_progress_def\<close>)

lemma ext_reachable_inv: "ext_reachable cfg s \<Longrightarrow> ext_inv cfg s"
proof (induction rule: ext_reachable.induct)
  case starts
  then show ?case by (simp add: ext_inv_def newExtProcessor_def in_progress_def)
next
  case (steps s s')
  then show ?case by (blast intro: ext_inv_step)
qed

text \<open>The numbers that have been given out, and the requests that were handed to the loop. They are distinct until the counter wraps.\<close>

definition issued :: "ext_proc \<Rightarrow> u64 set" where
  "issued s = of_nat ` {1..xp_seq s}"

definition passed_on :: "ext_proc \<Rightarrow> u64 list" where
  "passed_on s = xp_written s @ map fst (xp_refused s) @ xp_reqCh s"

definition numbered :: "ext_proc \<Rightarrow> bool" where
  "numbered s = (dom (xp_callers s) \<subseteq> issued s \<and> set (passed_on s) \<subseteq> issued s \<and> distinct (passed_on s) \<and>
     (\<forall>i. xp_callers s i = Some Entering \<or> xp_callers s i = Some Admitted \<longrightarrow> i \<notin> set (passed_on s)))"

lemma fresh_number:
  assumes "Suc n < 2 ^ 64"
  shows "(of_nat (Suc n) :: u64) \<notin> of_nat ` {1..n}"
proof
  assume "(of_nat (Suc n) :: u64) \<in> of_nat ` {1..n}"
  then obtain k where k: "k \<le> n" "(of_nat (Suc n) :: u64) = of_nat k" by auto
  then have "unat (of_nat (Suc n) :: u64) = unat (of_nat k :: u64)" by simp
  then show False using assms k(1) by (simp add: unat_of_nat del: of_nat_Suc)
qed

lemma numbered_step:
  assumes "numbered s" "ext_step s s'" "xp_seq s' < 2 ^ 64"
  shows "numbered s'"
  using assms(2)
proof cases
  case call
  have "of_nat (Suc (xp_seq s)) \<notin> issued s" using fresh_number [of "xp_seq s"] assms(3) call by (simp add: issued_def)
  moreover have "issued s' = insert (of_nat (Suc (xp_seq s))) (issued s)" using call by (simp add: issued_def atLeastAtMostSuc_conv)
  moreover have "passed_on s' = passed_on s" using call by (simp add: passed_on_def)
  ultimately show ?thesis using assms(1) call by (auto simp: numbered_def split: if_splits)
next
  case (send i)
  then have "passed_on s' = passed_on s @ [i]" "issued s' = issued s" by (simp_all add: passed_on_def issued_def)
  with send assms(1) show ?thesis by (auto simp: numbered_def split: if_splits)
qed (use assms(1) in \<open>auto simp: numbered_def passed_on_def issued_def split: if_splits\<close>)

text \<open>A loop that is handing over an answer to a full channel nobody reads.\<close>

definition blocked :: "u64 \<Rightarrow> ext_proc \<Rightarrow> bool" where
  "blocked i s = (i \<in> issued s \<and> (\<exists>a. xp_hand s = Some (i, a)) \<and> xp_box s i \<noteq> None \<and> xp_callers s i = None)"

lemma blocked_step:
  assumes "blocked i s" "ext_step s s'" "xp_seq s' < 2 ^ 64"
  shows "blocked i s' \<and> xp_written s' = xp_written s"
  using assms(2)
proof cases
  case call
  have "of_nat (Suc (xp_seq s)) \<notin> issued s" using fresh_number [of "xp_seq s"] assms(3) call by (simp add: issued_def)
  moreover have "issued s \<subseteq> issued s'" using call by (auto simp: issued_def)
  ultimately show ?thesis using assms(1) call by (auto simp: blocked_def)
qed (use assms(1) in \<open>auto simp: blocked_def issued_def split: if_splits\<close>)

lemma step_seq: "ext_step s s' \<Longrightarrow> xp_seq s \<le> xp_seq s'"
  by (erule ext_step.cases) simp_all

lemma steps_seq: "ext_step\<^sup>*\<^sup>* s s' \<Longrightarrow> xp_seq s \<le> xp_seq s'"
  by (induction rule: rtranclp_induct) (auto dest: step_seq)

lemma PubToPrivate_numbers: "PubToPrivate ob sm aid pt xs ix = (Inr ps, ix1) \<Longrightarrow> map fp_SectorNumber ps = map xs_SectorNumber xs"
  by (induction xs arbitrary: ix ps) (auto simp: ToFFI_def split: sum.splits prod.splits)

lemma replicas_numbers: "replicas_of ep pt ps = Inr rs \<Longrightarrow> map rx_SectorID rs = map fp_SectorNumber ps"
  by (induction ps arbitrary: rs) (auto split: sum.splits if_splits)

lemma stage_numbers: "stage_of ep mid pt xs rnd ix = (Inr g, ix1) \<Longrightarrow> rx_SectorID ` set (gp_Replicas g) = xs_SectorNumber ` set xs"
  by (auto simp: stage_of_def split: sum.splits prod.splits dest!: PubToPrivate_numbers replicas_numbers) (metis image_eqI list.set_map)+

section \<open>Properties\<close>

text \<open>Of two or more processors the last one is never chosen, whatever its weight.\<close>

theorem last_processor_never_chosen:
  assumes "findCandidateExt Intn exts = Inr (Some (i, cfg))" "length (candidates_of exts) \<ge> 2"
  shows "i < length (candidates_of exts) - 1"
  using assms chosenIdx_lt [of "cumulative 0 (map (ext_weight \<circ> fst) (candidates_of exts))"]
  by (auto simp: findCandidateExt_def Let_def split: if_splits)

text \<open>C26. Whatever the callers, the loops and the child do, in any order: never more requests are in progress than configured; an answer that a caller
  returns was given for the number of its own request, either by the child to a request that was written or as the error of writing it; and as long as fewer than
  2^64 requests were numbered, so that the counter has not wrapped, no two requests written have the same number. Nothing is said of callers
  that have not returned: a caller may wait for ever.\<close>

theorem returned_answers_are_own:
  assumes "ext_reachable cfg s"
  shows "card (in_progress s) \<le> concurrentLimit cfg \<and>
    (\<forall>(i, a) \<in> set (xp_returned s). (i, a) \<in> set (xp_said s) \<and> i \<in> set (xp_written s) \<or> (i, a) \<in> set (xp_refused s)) \<and>
    (xp_seq s < 2 ^ 64 \<longrightarrow> distinct (xp_written s))"
proof -
  have "numbered s" if "xp_seq s < 2 ^ 64"
    using assms that
  proof (induction rule: ext_reachable.induct)
    case starts
    then show ?case by (simp add: numbered_def newExtProcessor_def passed_on_def)
  next
    case (steps s s')
    with step_seq [OF steps.hyps(2)] show ?case by (auto intro: numbered_step)
  qed
  with ext_reachable_inv [OF assms] show ?thesis by (fastforce simp: ext_inv_def own_answer_def numbered_def passed_on_def)
qed

text \<open>A second answer to a request whose caller has gone stops the loop for good: no further request is ever written.\<close>

theorem duplicate_answer_stops_the_loop:
  assumes "blocked i s" "ext_step\<^sup>*\<^sup>* s s'" "xp_seq s' < 2 ^ 64"
  shows "blocked i s' \<and> xp_written s' = xp_written s"
  using assms(2,3)
proof (induction rule: rtranclp_induct)
  case (step y z)
  from step.hyps(2) step.prems have "xp_seq y < 2 ^ 64" by (auto dest: step_seq)
  with step.IH have "blocked i y" "xp_written y = xp_written s" by auto
  with blocked_step [OF _ step.hyps(2) step.prems] show ?case by simp
qed (simp add: assms(1))

text \<open>The external prover keeps the law the runner of a window PoSt relies on: with children that name only sectors they were given, so does it.\<close>

theorem ext_prover_skips_given:
  assumes "ep_window ep = Some proc" "\<forall>stage proofs faults. proc stage = Inr (proofs, faults) \<longrightarrow> set faults \<subseteq> rx_SectorID ` set (gp_Replicas stage)"
    and "rv_Generate env = (\<lambda>g. case fst (ext_GenerateWindowPoSt ep g ix) of Inl e \<Rightarrow> ([], [], Some e) | Inr t \<Rightarrow> t)"
  shows "skips_given env"
  unfolding skips_given_def
proof (intro allI impI)
  fix g postOut ps e
  assume "rv_Generate env g = (postOut, ps, Some e)"
  then have r: "(case fst (ext_GenerateWindowPoSt ep g ix) of Inl e \<Rightarrow> ([], [], Some e) | Inr t \<Rightarrow> t) = (postOut, ps, Some e)" by (simp add: assms(3))
  show "sid_Number ` set ps \<subseteq> xs_SectorNumber ` set (gw_Sectors g)"
  proof (cases "ps = []")
    case False
    with r assms(1) obtain rnd stage ix1 proofs faults where f: "stage_of ep (gw_MinerID g) (gw_ProofType g) (gw_Sectors g) rnd ix = (Inr stage, ix1)"
        "proc stage = Inr (proofs, faults)" "ps = map (\<lambda>n. \<lparr>sid_Miner = gw_MinerID g, sid_Number = n\<rparr>) faults"
      by (auto simp: ext_GenerateWindowPoSt_def split: sum.splits prod.splits if_splits)
    have "sid_Number ` set ps = set faults" using f(3) by (auto simp: image_iff)
    moreover have "set faults \<subseteq> rx_SectorID ` set (gp_Replicas stage)" using assms(2) f(2) by blast
    ultimately show ?thesis using stage_numbers [OF f(1)] by simp
  qed simp
qed

section \<open>Instances\<close>

definition demo_ext :: ext_config where
  "demo_ext = \<lparr>xc_Concurrent = 0, xc_Weight = 5\<rparr>"

text \<open>One request and its answer.\<close>

lemma demo_ext_run: "\<exists>s. ext_reachable demo_ext s \<and> xp_seq s = 1 \<and> xp_returned s = [(1, Inr [7])] \<and> xp_refused s = []"
proof -
  let ?s0 = "newExtProcessor demo_ext"
  let ?s1 = "?s0\<lparr>xp_seq := Suc (xp_seq ?s0), xp_callers := (xp_callers ?s0)(of_nat (Suc (xp_seq ?s0)) \<mapsto> Entering)\<rparr>"
  let ?s2 = "?s1\<lparr>xp_callers := (xp_callers ?s1)(1 \<mapsto> Admitted)\<rparr>"
  let ?s3 = "?s2\<lparr>xp_callers := (xp_callers ?s2)(1 \<mapsto> Sent), xp_reqCh := xp_reqCh ?s2 @ [1]\<rparr>"
  let ?s4 = "?s3\<lparr>xp_reqCh := [], xp_requests := insert 1 (xp_requests ?s3), xp_written := xp_written ?s3 @ [1]\<rparr>"
  let ?s5 = "?s4\<lparr>xp_respCh := xp_respCh ?s4 @ [(1, Inr [7])], xp_said := xp_said ?s4 @ [(1, Inr [7])]\<rparr>"
  let ?s6 = "?s5\<lparr>xp_respCh := [], xp_hand := (if 1 \<in> xp_requests ?s5 then Some (1, Inr [7]) else None)\<rparr>"
  let ?s7 = "?s6\<lparr>xp_hand := None, xp_box := (xp_box ?s6)(1 \<mapsto> Inr [7])\<rparr>"
  let ?s8 = "?s7\<lparr>xp_callers := (xp_callers ?s7)(1 := None), xp_box := (xp_box ?s7)(1 := None), xp_returned := xp_returned ?s7 @ [(1, Inr [7])]\<rparr>"
  have "ext_step ?s0 ?s1" by (rule call)
  moreover have "ext_step ?s1 ?s2" by (rule enter) (simp_all add: newExtProcessor_def in_progress_def concurrentLimit_def demo_ext_def)
  moreover have "ext_step ?s2 ?s3" by (rule send) (simp_all add: newExtProcessor_def)
  moreover have "ext_step ?s3 ?s4" by (rule write_request) (simp_all add: newExtProcessor_def)
  moreover have "ext_step ?s4 ?s5" by (rule says) (simp add: newExtProcessor_def)
  moreover have "ext_step ?s5 ?s6" by (rule take_answer) (simp_all add: newExtProcessor_def)
  moreover have "ext_step ?s6 ?s7" by (rule hand_over) (simp_all add: newExtProcessor_def)
  moreover have "ext_step ?s7 ?s8" by (rule returns) (simp_all add: newExtProcessor_def)
  ultimately have "ext_reachable demo_ext ?s8" by (meson starts steps)
  moreover have "xp_seq ?s8 = 1" "xp_returned ?s8 = [(1, Inr [7])]" "xp_refused ?s8 = []" by (simp_all add: newExtProcessor_def)
  ultimately show ?thesis by blast
qed

theorem returned_answers_are_own_witness:
  "\<exists>s. xp_returned s = [(1, Inr [7])] \<and> (1, Inr [7]) \<in> set (xp_said s) \<and> 1 \<in> set (xp_written s) \<and> distinct (xp_written s) \<and> card (in_progress s) \<le> 1"
proof -
  obtain s where s: "ext_reachable demo_ext s" "xp_seq s = 1" "xp_returned s = [(1, Inr [7])]" "xp_refused s = []" using demo_ext_run by blast
  have "concurrentLimit demo_ext = 1" by (simp add: concurrentLimit_def demo_ext_def)
  with returned_answers_are_own [OF s(1)] s show ?thesis by (intro exI [of _ s]) auto
qed

text \<open>With two processors of any weight it is always the first.\<close>

theorem last_processor_never_chosen_witness:
  "findCandidateExt (\<lambda>n. n - 1) [(\<lparr>xc_Concurrent = 1, xc_Weight = 1\<rparr>, 0), (\<lparr>xc_Concurrent = 1, xc_Weight = 99\<rparr>, 0)] = Inr (Some (0, \<lparr>xc_Concurrent = 1, xc_Weight = 1\<rparr>))"
proof -
  let ?exts = "[(\<lparr>xc_Concurrent = 1, xc_Weight = 1\<rparr>, 0), (\<lparr>xc_Concurrent = 1, xc_Weight = 99\<rparr>, 0)]"
  have c: "candidates_of ?exts = ?exts" by (simp add: candidates_of_def concurrentLimit_def)
  obtain i cfg where r: "findCandidateExt (\<lambda>n. n - 1) ?exts = Inr (Some (i, cfg))" by (simp add: findCandidateExt_def c Let_def ext_weight_def)
  from last_processor_never_chosen [OF r] c have "i = 0" by simp
  with r show ?thesis by (simp add: findCandidateExt_def c Let_def ext_weight_def split: if_splits)
qed

end
